(* ===== verification/Prelude.thy ===== *)
theory Prelude
  imports Complex_Main
begin

text \<open>
  Shared vocabulary of the development: JavaScript string helpers on ASCII text, the result type of
  the machines, the run of a list of commands in which a refused command leaves the entity as it was,
  and the interface \<open>guarded_machine\<close> between an operation set and the transition table it must obey.
\<close>

named_theorems table_defs \<open>the transition tables and their look-ups\<close>
named_theorems machine_defs \<open>the operations of the state machines\<close>
named_theorems money_defs \<open>the money formulas\<close>

section \<open>Text\<close>

text \<open>
  A JavaScript string is a list of characters. Only code points up to 255 are represented; the
  whitespace that \<^verbatim>\<open>String.prototype.trim\<close> removes is, in that range, tab to carriage return, the
  space and the no-break space. Case mapping is the ASCII one, which is the part the regular
  expressions with the \<^verbatim>\<open>i\<close> flag and the comparisons of the source see.
\<close>

definition code :: "char \<Rightarrow> nat" where
  "code c = of_char c"

definition js_ws :: "char \<Rightarrow> bool" where
  "js_ws c \<longleftrightarrow> code c \<in> {9, 10, 11, 12, 13, 32, 160}"

definition js_trim :: "string \<Rightarrow> string" where
  "js_trim s = rev (dropWhile js_ws (rev (dropWhile js_ws s)))"

definition is_digit :: "char \<Rightarrow> bool" where
  "is_digit c \<longleftrightarrow> 48 \<le> code c \<and> code c \<le> 57"

definition is_upper :: "char \<Rightarrow> bool" where
  "is_upper c \<longleftrightarrow> 65 \<le> code c \<and> code c \<le> 90"

definition is_lower :: "char \<Rightarrow> bool" where
  "is_lower c \<longleftrightarrow> 97 \<le> code c \<and> code c \<le> 122"

definition upper_char :: "char \<Rightarrow> char" where
  "upper_char c = (if is_lower c then char_of (code c - 32) else c)"

definition lower_char :: "char \<Rightarrow> char" where
  "lower_char c = (if is_upper c then char_of (code c + 32) else c)"

abbreviation js_upper :: "string \<Rightarrow> string" where
  "js_upper \<equiv> map upper_char"

abbreviation js_lower :: "string \<Rightarrow> string" where
  "js_lower \<equiv> map lower_char"

definition digit_value :: "char \<Rightarrow> nat" where
  "digit_value c = code c - 48"

definition digit_char :: "nat \<Rightarrow> char" where
  "digit_char d = char_of (48 + d)"

fun nat_digits :: "nat \<Rightarrow> string" where
  "nat_digits n = (if n < 10 then [digit_char n] else nat_digits (n div 10) @ [digit_char (n mod 10)])"

declare nat_digits.simps [simp del]

definition pad_start :: "nat \<Rightarrow> char \<Rightarrow> string \<Rightarrow> string" where
  "pad_start n c s = replicate (n - length s) c @ s"

fun js_join :: "string \<Rightarrow> string list \<Rightarrow> string" where
  "js_join sep [] = []"
| "js_join sep [x] = x"
| "js_join sep (x # y # ys) = x @ sep @ js_join sep (y # ys)"

text \<open>The operator \<^verbatim>\<open>??\<close>, on an optional value with an optional and with a plain default.\<close>

fun nullish :: "'a option \<Rightarrow> 'a option \<Rightarrow> 'a option" where
  "nullish None d = d"
| "nullish (Some x) d = Some x"

fun nullish_value :: "'a option \<Rightarrow> 'a \<Rightarrow> 'a" where
  "nullish_value None d = d"
| "nullish_value (Some x) d = x"

section \<open>Results and runs\<close>

type_synonym ('err, 'a) result = "'err + 'a"

definition refused :: "('err, 'a) result \<Rightarrow> bool" where
  "refused r \<longleftrightarrow> (case r of Inl _ \<Rightarrow> True | Inr _ \<Rightarrow> False)"

fun run_commands :: "('c \<Rightarrow> 'e \<Rightarrow> ('err, 'e) result) \<Rightarrow> 'c list \<Rightarrow> 'e \<Rightarrow> 'e" where
  "run_commands op [] e = e"
| "run_commands op (c # cs) e =
     run_commands op cs (case op c e of Inl _ \<Rightarrow> e | Inr e' \<Rightarrow> e')"

fun statuses_of_run :: "('c \<Rightarrow> 'e \<Rightarrow> ('err, 'e) result) \<Rightarrow> ('e \<Rightarrow> 's) \<Rightarrow> 'c list \<Rightarrow> 'e \<Rightarrow> 's list" where
  "statuses_of_run op st [] e = [st e]"
| "statuses_of_run op st (c # cs) e =
     st e # statuses_of_run op st cs (case op c e of Inl _ \<Rightarrow> e | Inr e' \<Rightarrow> e')"

section \<open>Lemmas on text\<close>

lemma code_less: "code c < 256"
proof -
  have "(of_char c :: nat) = of_char c mod 256" by simp
  then show ?thesis unfolding code_def by (metis mod_less_divisor zero_less_numeral)
qed

lemma code_inject [simp]: "code c = code d \<longleftrightarrow> c = d"
  by (simp add: code_def)

lemma code_char_of [simp]: "n < 256 \<Longrightarrow> code (char_of n) = n"
  by (simp add: code_def)

lemma char_of_code [simp]: "char_of (code c) = c"
  by (simp add: code_def)

text \<open>Case and white space of the characters that names and codes use.\<close>

lemma letters_lowered: "map lower_char ''ABCDEFGHIJKLMNOPQRSTUVWXYZ'' = ''abcdefghijklmnopqrstuvwxyz''"
  by code_simp

lemma letters_kept: "map lower_char ''abcdefghijklmnopqrstuvwxyz &.'' = ''abcdefghijklmnopqrstuvwxyz &.''"
  by code_simp

lemma letters_lower: "list_all is_lower ''abcdefghijklmnopqrstuvwxyz''"
  by code_simp

lemma letters_other: "list_all (\<lambda>c. \<not> is_lower c) '' &.''"
  by code_simp

lemmas letters =
  letters_lowered [simplified] letters_kept [simplified] letters_lower [simplified] letters_other [simplified]

lemma letters_black:
  "list_all (\<lambda>c. \<not> js_ws c) ''abcdefghijklmnopqrstuvwxyzABCDEFGHIJKLMNOPQRSTUVWXYZ_&.-'' \<and> js_ws CHR '' ''"
  by (simp add: js_ws_def code_def)

lemmas blacks = letters_black [simplified]

lemma js_trim_Nil [simp]: "js_trim [] = []"
  by (simp add: js_trim_def)

lemma set_js_trim: "set (js_trim s) \<subseteq> set s"
  unfolding js_trim_def by (auto dest!: set_dropWhileD)

lemma dropWhile_id: "(\<And>x. x \<in> set xs \<Longrightarrow> \<not> P x) \<Longrightarrow> dropWhile P xs = xs"
  by (cases xs) auto

lemma js_trim_no_ws:
  assumes "\<And>c. c \<in> set s \<Longrightarrow> \<not> js_ws c"
  shows "js_trim s = s"
proof -
  have "dropWhile js_ws s = s" and "dropWhile js_ws (rev s) = rev s"
    using assms by (auto intro!: dropWhile_id)
  then show ?thesis by (simp add: js_trim_def)
qed

lemma dropWhile_rev_dropWhile:
  "dropWhile P (rev (dropWhile P (rev (dropWhile P xs)))) = rev (dropWhile P (rev (dropWhile P xs)))"
proof (cases "rev (dropWhile P (rev (dropWhile P xs)))")
  case (Cons y ys)
  obtain zs where zs: "dropWhile P xs = (y # ys) @ zs"
    by (metis Cons rev_append rev_rev_ident takeWhile_dropWhile_id)
  then have "\<not> P y"
    by (metis append_Cons hd_dropWhile list.distinct(1) list.sel(1))
  then show ?thesis unfolding Cons by simp
next
  case Nil
  then show ?thesis by (simp only: Nil dropWhile.simps)
qed

lemma js_trim_idem [simp]: "js_trim (js_trim s) = js_trim s"
proof -
  have "dropWhile js_ws (js_trim s) = js_trim s"
    unfolding js_trim_def by (rule dropWhile_rev_dropWhile)
  then show ?thesis
    by (metis dropWhile_idem js_trim_def rev_rev_ident)
qed

lemma is_digit_not_ws: "is_digit c \<Longrightarrow> \<not> js_ws c"
  by (auto simp: is_digit_def js_ws_def)

lemma is_upper_not_ws: "is_upper c \<Longrightarrow> \<not> js_ws c"
  by (auto simp: is_upper_def js_ws_def)

lemma is_lower_not_ws: "is_lower c \<Longrightarrow> \<not> js_ws c"
  by (auto simp: is_lower_def js_ws_def)

lemma digit_value_digit_char [simp]: "d < 10 \<Longrightarrow> digit_value (digit_char d) = d"
  by (simp add: digit_value_def digit_char_def)

lemma is_digit_digit_char [simp]: "d < 10 \<Longrightarrow> is_digit (digit_char d)"
  by (simp add: is_digit_def digit_char_def)

lemma digit_value_less [simp]: "is_digit c \<Longrightarrow> digit_value c < 10"
  by (auto simp: is_digit_def digit_value_def)

lemma digit_char_digit_value [simp]: "is_digit c \<Longrightarrow> digit_char (digit_value c) = c"
  by (auto simp: is_digit_def digit_value_def digit_char_def)

lemma digit_value_inject:
  "is_digit c \<Longrightarrow> is_digit d \<Longrightarrow> digit_value c = digit_value d \<longleftrightarrow> c = d"
  by (metis digit_char_digit_value)

lemma set_nat_digits: "c \<in> set (nat_digits n) \<Longrightarrow> is_digit c"
proof (induction n rule: nat_digits.induct)
  case (1 n)
  then show ?case
    by (cases "n < 10") (auto simp: nat_digits.simps [of n])
qed

lemma length_pad_start: "length s \<le> n \<Longrightarrow> length (pad_start n c s) = n"
  by (simp add: pad_start_def)

section \<open>Operations that obey a transition table\<close>

text \<open>
  The contract between the operations of a component and the table that declares its legal moves:
  an operation that succeeds moves the status along an edge. Everything a table says about statuses
  (terminal states, states that cannot be skipped, ranks) then holds of every run of commands.
\<close>

locale guarded_machine =
  fixes op :: "'c \<Rightarrow> 'e \<Rightarrow> ('err, 'e) result"
    and status_of :: "'e \<Rightarrow> 's"
    and edge :: "'s \<Rightarrow> 's \<Rightarrow> bool"
  assumes op_edge: "op c e = Inr e' \<Longrightarrow> edge (status_of e) (status_of e')"
begin

lemma terminal_refuses:
  assumes "\<And>t. \<not> edge (status_of e) t"
  shows "refused (op c e)"
  using assms op_edge by (auto simp: refused_def split: sum.splits)

lemma run_reaches: "edge\<^sup>*\<^sup>* (status_of e) (status_of (run_commands op cs e))"
proof (induction cs arbitrary: e)
  case (Cons c cs)
  let ?e' = "case op c e of Inl _ \<Rightarrow> e | Inr e' \<Rightarrow> e'"
  have "edge\<^sup>*\<^sup>* (status_of e) (status_of ?e')"
    by (auto split: sum.split dest: op_edge)
  also have "edge\<^sup>*\<^sup>* (status_of ?e') (status_of (run_commands op cs ?e'))"
    by (rule Cons.IH)
  finally show ?case by simp
qed simp

lemma run_keeps:
  assumes "I (status_of e)" and "\<And>s t. I s \<Longrightarrow> edge s t \<Longrightarrow> I t"
  shows "I (status_of (run_commands op cs e))"
  using run_reaches [of e cs]
  by (induction rule: rtranclp_induct) (auto intro: assms)

lemma terminal_absorbs:
  assumes "\<And>t. \<not> edge (status_of e) t"
  shows "run_commands op cs e = e"
proof (induction cs)
  case (Cons c cs)
  from assms terminal_refuses have "refused (op c e)" by blast
  with Cons show ?case by (auto simp: refused_def split: sum.splits)
qed simp

lemma gate_seen:
  assumes step_gate: "\<And>s t. edge s t \<Longrightarrow> T t \<Longrightarrow> \<not> T s \<Longrightarrow> G s"
  shows "\<not> T (status_of e) \<Longrightarrow> T (status_of (run_commands op cs e)) \<Longrightarrow>
    \<exists>s \<in> set (statuses_of_run op status_of cs e). G s"
proof (induction cs arbitrary: e)
  case (Cons c cs)
  let ?e' = "case op c e of Inl _ \<Rightarrow> e | Inr e' \<Rightarrow> e'"
  show ?case
  proof (cases "T (status_of ?e')")
    case True
    with Cons.prems(1) obtain e' where "op c e = Inr e'" "T (status_of e')"
      by (auto split: sum.splits)
    then have "G (status_of e)"
      using step_gate op_edge Cons.prems(1) by blast
    then show ?thesis by simp
  next
    case False
    with Cons.IH [of ?e'] Cons.prems(2) show ?thesis by simp
  qed
qed simp

end

fun successes :: "('c \<Rightarrow> 'e \<Rightarrow> ('err, 'e) result) \<Rightarrow> 'c list \<Rightarrow> 'e \<Rightarrow> nat" where
  "successes op [] e = 0"
| "successes op (c # cs) e =
     (case op c e of Inl _ \<Rightarrow> successes op cs e | Inr e' \<Rightarrow> Suc (successes op cs e'))"

text \<open>
  The state machines announce what they do: a successful operation returns a note with the status
  before and after. \<open>notes_of_run\<close> collects the notes of a run; in an announcing machine they link
  up, from the status the entity had to the status it ends in.
\<close>

record 's transition_note =
  note_kind :: string
  note_id :: string
  previousState :: 's
  newState :: 's
  note_userId :: string

fun notes_of_run :: "('c \<Rightarrow> 'e \<Rightarrow> ('err, 'e \<times> 'ev) result) \<Rightarrow> 'c list \<Rightarrow> 'e \<Rightarrow> 'ev list" where
  "notes_of_run op [] e = []"
| "notes_of_run op (c # cs) e =
     (case op c e of Inl _ \<Rightarrow> notes_of_run op cs e | Inr (e', ev) \<Rightarrow> ev # notes_of_run op cs e')"

fun linked :: "'s \<Rightarrow> 's transition_note list \<Rightarrow> 's \<Rightarrow> bool" where
  "linked s [] t = (s = t)"
| "linked s (ev # evs) t = (previousState ev = s \<and> linked (newState ev) evs t)"

abbreviation silent :: "('c \<Rightarrow> 'e \<Rightarrow> ('err, 'e \<times> 'ev) result) \<Rightarrow> 'c \<Rightarrow> 'e \<Rightarrow> ('err, 'e) result" where
  "silent op c e \<equiv> map_sum id fst (op c e)"

locale announcing_machine =
  fixes op :: "'c \<Rightarrow> 'e \<Rightarrow> ('err, 'e \<times> 's transition_note) result"
    and status_of :: "'e \<Rightarrow> 's"
    and edge :: "'s \<Rightarrow> 's \<Rightarrow> bool"
  assumes announces: "op c e = Inr (e', ev) \<Longrightarrow>
    previousState ev = status_of e \<and> newState ev = status_of e' \<and> edge (status_of e) (status_of e')"
begin

lemma notes_link: "linked (status_of e) (notes_of_run op cs e) (status_of (run_commands (silent op) cs e))"
proof (induction cs arbitrary: e)
  case (Cons c cs)
  show ?case
  proof (cases "op c e")
    case (Inr r)
    obtain e' ev where r: "r = (e', ev)" by (cases r)
    with Inr announces [of c e e' ev] Cons.IH [of e'] show ?thesis by simp
  qed (use Cons.IH [of e] in simp)
qed simp

lemma notes_edges: "ev \<in> set (notes_of_run op cs e) \<Longrightarrow> edge (previousState ev) (newState ev)"
  by (induction cs arbitrary: e) (auto split: sum.splits prod.splits dest: announces)

end

sublocale announcing_machine \<subseteq> guarded_machine "silent op" status_of edge
  by unfold_locales (auto simp: map_sum_def dest!: announces split: sum.splits)

text \<open>Where every edge increases a rank, the rank bounds the number of moves.\<close>

locale ranked_machine = announcing_machine op status_of edge
  for op :: "'c \<Rightarrow> 'e \<Rightarrow> ('err, 'e \<times> 's transition_note) result"
    and status_of :: "'e \<Rightarrow> 's" and edge :: "'s \<Rightarrow> 's \<Rightarrow> bool" +
  fixes rank :: "'s \<Rightarrow> nat"
  assumes edge_rank: "edge s t \<Longrightarrow> rank s < rank t"
begin

lemma linked_rank:
  "linked s evs t \<Longrightarrow> (\<And>ev. ev \<in> set evs \<Longrightarrow> edge (previousState ev) (newState ev)) \<Longrightarrow>
   rank s + length evs \<le> rank t"
proof (induction s evs t rule: linked.induct)
  case (2 s ev evs t)
  then have "rank (newState ev) + length evs \<le> rank t" and "previousState ev = s" by auto
  moreover have "rank (previousState ev) < rank (newState ev)" using 2(3) by (auto intro: edge_rank)
  ultimately show ?case by simp
qed simp

lemma notes_bounded:
  "rank (status_of e) + length (notes_of_run op cs e) \<le> rank (status_of (run_commands (silent op) cs e))"
  using notes_link notes_edges by (rule linked_rank)

end

end
