(* ===== verification/Enums.thy ===== *)
theory Enums
  imports Prelude
begin

text \<open>
  The status enumerations of \<^verbatim>\<open>packages/shared/src/enums.ts\<close>, one datatype each. The members of
  different enumerations share names in the source (\<^verbatim>\<open>PENDING\<close>, \<^verbatim>\<open>ACTIVE\<close>, \<^verbatim>\<open>CANCELLED\<close>), so every
  constructor carries a two-letter prefix for its enumeration. The enumerations are finite, which the
  \<open>enum\<close> instances make executable: a property of a whole table is decided by evaluation. The
  \<open>value_of\<close> functions give the string each member has at run time, which is what the workflow
  engine, the role gate and the messages see.
\<close>

datatype ProjectStatus =
    PS_DRAFT
  | PS_PLANNING
  | PS_SCHEDULING
  | PS_EXECUTION
  | PS_VALIDATION
  | PS_COMPLETED
  | PS_ARCHIVED
  | PS_CANCELLED
  | PS_ON_HOLD

datatype ProjectBranchStatus =
    PB_IMPORTED
  | PB_PLANNING
  | PB_CANDIDATE_SEARCH
  | PB_CONTACT_INITIATED
  | PB_NEGOTIATION
  | PB_ASSIGNMENT_CONFIRMED
  | PB_SCHEDULED
  | PB_AUDIT_COMPLETED
  | PB_VALIDATION_COMPLETED
  | PB_CLOSED
  | PB_UNABLE_TO_COVER
  | PB_ON_HOLD
  | PB_CANCELLED

datatype AssignmentStatus =
    AS_PENDING
  | AS_ACCEPTED
  | AS_CHECKED_IN
  | AS_IN_PROGRESS
  | AS_COMPLETED
  | AS_REJECTED
  | AS_CANCELLED

datatype ScheduleStatus =
    SS_TENTATIVE
  | SS_CONFIRMED
  | SS_RESCHEDULED
  | SS_COMPLETED

datatype DocumentStatus =
    DS_UPLOADED
  | DS_DISPATCHED
  | DS_RECEIVED
  | DS_SENT_TO_DATA_ENTRY
  | DS_SENT_TO_EXTERNAL_OCR
  | DS_EXCEL_GENERATED
  | DS_PROCESSED
  | DS_COMPLETED
  | DS_ARCHIVED

datatype ValidationStatus =
    VS_PENDING
  | VS_ASSIGNED
  | VS_OCR_PROCESSING
  | VS_HUMAN_REVIEW
  | VS_CORRECTION_REQUIRED
  | VS_APPROVED
  | VS_SUBMITTED

datatype AssayerStatus =
    AY_ACTIVE
  | AY_INACTIVE
  | AY_SUSPENDED

datatype AssayerLifecycleStatus =
    LC_INVITED
  | LC_DOCUMENT_VERIFICATION
  | LC_BACKGROUND_VERIFICATION
  | LC_FINAL_APPROVAL
  | LC_TRAINING
  | LC_ACTIVE
  | LC_ON_LEAVE
  | LC_SUSPENDED
  | LC_INACTIVE
  | LC_RESIGNED
  | LC_TERMINATED
  | LC_ARCHIVED

datatype SystemRole =
    SR_DEVELOPER
  | SR_ADMIN
  | SR_OPERATIONS
  | SR_DESK
  | SR_DESK_OPERATOR
  | SR_AUDITOR
  | SR_PRODUCT_SUPPORT
  | SR_ASSAYER
  | SR_CLIENT_USER

datatype ClientLifecycleStatus =
    CL_PROSPECT
  | CL_ONBOARDING
  | CL_ACTIVE
  | CL_SUSPENDED
  | CL_UNDER_REVIEW
  | CL_INACTIVE
  | CL_TERMINATED
  | CL_ARCHIVED

datatype BillingState =
    BS_UNBILLED
  | BS_INVOICED
  | BS_PAID
  | BS_CANCELLED

datatype AssayerPayableStatus =
    AP_PENDING
  | AP_APPROVED
  | AP_PAID
  | AP_VOIDED

datatype AssayerInvoiceStatus =
    AI_INVITED
  | AI_SUBMITTED
  | AI_APPROVED
  | AI_HOD_APPROVED
  | AI_PAID
  | AI_CANCELLED
  | AI_SUPERSEDED

primrec projectStatusValue :: "ProjectStatus \<Rightarrow> string" where
  "projectStatusValue PS_DRAFT = ''DRAFT''"
| "projectStatusValue PS_PLANNING = ''PLANNING''"
| "projectStatusValue PS_SCHEDULING = ''SCHEDULING''"
| "projectStatusValue PS_EXECUTION = ''EXECUTION''"
| "projectStatusValue PS_VALIDATION = ''VALIDATION''"
| "projectStatusValue PS_COMPLETED = ''COMPLETED''"
| "projectStatusValue PS_ARCHIVED = ''ARCHIVED''"
| "projectStatusValue PS_CANCELLED = ''CANCELLED''"
| "projectStatusValue PS_ON_HOLD = ''ON_HOLD''"

primrec projectBranchStatusValue :: "ProjectBranchStatus \<Rightarrow> string" where
  "projectBranchStatusValue PB_IMPORTED = ''IMPORTED''"
| "projectBranchStatusValue PB_PLANNING = ''PLANNING''"
| "projectBranchStatusValue PB_CANDIDATE_SEARCH = ''CANDIDATE_SEARCH''"
| "projectBranchStatusValue PB_CONTACT_INITIATED = ''CONTACT_INITIATED''"
| "projectBranchStatusValue PB_NEGOTIATION = ''NEGOTIATION''"
| "projectBranchStatusValue PB_ASSIGNMENT_CONFIRMED = ''ASSIGNMENT_CONFIRMED''"
| "projectBranchStatusValue PB_SCHEDULED = ''SCHEDULED''"
| "projectBranchStatusValue PB_AUDIT_COMPLETED = ''AUDIT_COMPLETED''"
| "projectBranchStatusValue PB_VALIDATION_COMPLETED = ''VALIDATION_COMPLETED''"
| "projectBranchStatusValue PB_CLOSED = ''CLOSED''"
| "projectBranchStatusValue PB_UNABLE_TO_COVER = ''UNABLE_TO_COVER''"
| "projectBranchStatusValue PB_ON_HOLD = ''ON_HOLD''"
| "projectBranchStatusValue PB_CANCELLED = ''CANCELLED''"

primrec assignmentStatusValue :: "AssignmentStatus \<Rightarrow> string" where
  "assignmentStatusValue AS_PENDING = ''PENDING''"
| "assignmentStatusValue AS_ACCEPTED = ''ACCEPTED''"
| "assignmentStatusValue AS_CHECKED_IN = ''CHECKED_IN''"
| "assignmentStatusValue AS_IN_PROGRESS = ''IN_PROGRESS''"
| "assignmentStatusValue AS_COMPLETED = ''COMPLETED''"
| "assignmentStatusValue AS_REJECTED = ''REJECTED''"
| "assignmentStatusValue AS_CANCELLED = ''CANCELLED''"

primrec scheduleStatusValue :: "ScheduleStatus \<Rightarrow> string" where
  "scheduleStatusValue SS_TENTATIVE = ''TENTATIVE''"
| "scheduleStatusValue SS_CONFIRMED = ''CONFIRMED''"
| "scheduleStatusValue SS_RESCHEDULED = ''RESCHEDULED''"
| "scheduleStatusValue SS_COMPLETED = ''COMPLETED''"

primrec documentStatusValue :: "DocumentStatus \<Rightarrow> string" where
  "documentStatusValue DS_UPLOADED = ''UPLOADED''"
| "documentStatusValue DS_DISPATCHED = ''DISPATCHED''"
| "documentStatusValue DS_RECEIVED = ''RECEIVED''"
| "documentStatusValue DS_SENT_TO_DATA_ENTRY = ''SENT_TO_DATA_ENTRY''"
| "documentStatusValue DS_SENT_TO_EXTERNAL_OCR = ''SENT_TO_EXTERNAL_OCR''"
| "documentStatusValue DS_EXCEL_GENERATED = ''EXCEL_GENERATED''"
| "documentStatusValue DS_PROCESSED = ''PROCESSED''"
| "documentStatusValue DS_COMPLETED = ''COMPLETED''"
| "documentStatusValue DS_ARCHIVED = ''ARCHIVED''"

primrec validationStatusValue :: "ValidationStatus \<Rightarrow> string" where
  "validationStatusValue VS_PENDING = ''PENDING''"
| "validationStatusValue VS_ASSIGNED = ''ASSIGNED''"
| "validationStatusValue VS_OCR_PROCESSING = ''OCR_PROCESSING''"
| "validationStatusValue VS_HUMAN_REVIEW = ''HUMAN_REVIEW''"
| "validationStatusValue VS_CORRECTION_REQUIRED = ''CORRECTION_REQUIRED''"
| "validationStatusValue VS_APPROVED = ''APPROVED''"
| "validationStatusValue VS_SUBMITTED = ''SUBMITTED''"

primrec assayerStatusValue :: "AssayerStatus \<Rightarrow> string" where
  "assayerStatusValue AY_ACTIVE = ''ACTIVE''"
| "assayerStatusValue AY_INACTIVE = ''INACTIVE''"
| "assayerStatusValue AY_SUSPENDED = ''SUSPENDED''"

primrec assayerLifecycleStatusValue :: "AssayerLifecycleStatus \<Rightarrow> string" where
  "assayerLifecycleStatusValue LC_INVITED = ''INVITED''"
| "assayerLifecycleStatusValue LC_DOCUMENT_VERIFICATION = ''DOCUMENT_VERIFICATION''"
| "assayerLifecycleStatusValue LC_BACKGROUND_VERIFICATION = ''BACKGROUND_VERIFICATION''"
| "assayerLifecycleStatusValue LC_FINAL_APPROVAL = ''FINAL_APPROVAL''"
| "assayerLifecycleStatusValue LC_TRAINING = ''TRAINING''"
| "assayerLifecycleStatusValue LC_ACTIVE = ''ACTIVE''"
| "assayerLifecycleStatusValue LC_ON_LEAVE = ''ON_LEAVE''"
| "assayerLifecycleStatusValue LC_SUSPENDED = ''SUSPENDED''"
| "assayerLifecycleStatusValue LC_INACTIVE = ''INACTIVE''"
| "assayerLifecycleStatusValue LC_RESIGNED = ''RESIGNED''"
| "assayerLifecycleStatusValue LC_TERMINATED = ''TERMINATED''"
| "assayerLifecycleStatusValue LC_ARCHIVED = ''ARCHIVED''"

primrec systemRoleValue :: "SystemRole \<Rightarrow> string" where
  "systemRoleValue SR_DEVELOPER = ''DEVELOPER''"
| "systemRoleValue SR_ADMIN = ''ADMIN''"
| "systemRoleValue SR_OPERATIONS = ''OPERATIONS''"
| "systemRoleValue SR_DESK = ''DESK''"
| "systemRoleValue SR_DESK_OPERATOR = ''DESK_OPERATOR''"
| "systemRoleValue SR_AUDITOR = ''AUDITOR''"
| "systemRoleValue SR_PRODUCT_SUPPORT = ''PRODUCT_SUPPORT''"
| "systemRoleValue SR_ASSAYER = ''ASSAYER''"
| "systemRoleValue SR_CLIENT_USER = ''CLIENT_USER''"

primrec clientLifecycleStatusValue :: "ClientLifecycleStatus \<Rightarrow> string" where
  "clientLifecycleStatusValue CL_PROSPECT = ''PROSPECT''"
| "clientLifecycleStatusValue CL_ONBOARDING = ''ONBOARDING''"
| "clientLifecycleStatusValue CL_ACTIVE = ''ACTIVE''"
| "clientLifecycleStatusValue CL_SUSPENDED = ''SUSPENDED''"
| "clientLifecycleStatusValue CL_UNDER_REVIEW = ''UNDER_REVIEW''"
| "clientLifecycleStatusValue CL_INACTIVE = ''INACTIVE''"
| "clientLifecycleStatusValue CL_TERMINATED = ''TERMINATED''"
| "clientLifecycleStatusValue CL_ARCHIVED = ''ARCHIVED''"

primrec billingStateValue :: "BillingState \<Rightarrow> string" where
  "billingStateValue BS_UNBILLED = ''UNBILLED''"
| "billingStateValue BS_INVOICED = ''INVOICED''"
| "billingStateValue BS_PAID = ''PAID''"
| "billingStateValue BS_CANCELLED = ''CANCELLED''"

primrec assayerPayableStatusValue :: "AssayerPayableStatus \<Rightarrow> string" where
  "assayerPayableStatusValue AP_PENDING = ''PENDING''"
| "assayerPayableStatusValue AP_APPROVED = ''APPROVED''"
| "assayerPayableStatusValue AP_PAID = ''PAID''"
| "assayerPayableStatusValue AP_VOIDED = ''VOIDED''"

primrec assayerInvoiceStatusValue :: "AssayerInvoiceStatus \<Rightarrow> string" where
  "assayerInvoiceStatusValue AI_INVITED = ''INVITED''"
| "assayerInvoiceStatusValue AI_SUBMITTED = ''SUBMITTED''"
| "assayerInvoiceStatusValue AI_APPROVED = ''APPROVED''"
| "assayerInvoiceStatusValue AI_HOD_APPROVED = ''HOD_APPROVED''"
| "assayerInvoiceStatusValue AI_PAID = ''PAID''"
| "assayerInvoiceStatusValue AI_CANCELLED = ''CANCELLED''"
| "assayerInvoiceStatusValue AI_SUPERSEDED = ''SUPERSEDED''"

instantiation ProjectStatus :: enum
begin

definition enum_ProjectStatus :: "ProjectStatus list" where
  "enum_ProjectStatus = [PS_DRAFT, PS_PLANNING, PS_SCHEDULING, PS_EXECUTION, PS_VALIDATION, PS_COMPLETED, PS_ARCHIVED, PS_CANCELLED, PS_ON_HOLD]"

definition enum_all_ProjectStatus :: "(ProjectStatus \<Rightarrow> bool) \<Rightarrow> bool" where
  "enum_all_ProjectStatus P \<longleftrightarrow> list_all P (enum_class.enum :: ProjectStatus list)"

definition enum_ex_ProjectStatus :: "(ProjectStatus \<Rightarrow> bool) \<Rightarrow> bool" where
  "enum_ex_ProjectStatus P \<longleftrightarrow> list_ex P (enum_class.enum :: ProjectStatus list)"

instance
proof
  show univ: "UNIV = set (enum_class.enum :: ProjectStatus list)"
  proof (intro equalityI subsetI UNIV_I)
    fix x :: ProjectStatus
    show "x \<in> set enum_class.enum" by (cases x) (simp_all add: enum_ProjectStatus_def)
  qed
  show "distinct (enum_class.enum :: ProjectStatus list)"
    by (simp add: enum_ProjectStatus_def)
  show "enum_class.enum_all P \<longleftrightarrow> Ball UNIV P" for P :: "ProjectStatus \<Rightarrow> bool"
    unfolding enum_all_ProjectStatus_def univ by (simp add: list_all_iff)
  show "enum_class.enum_ex P \<longleftrightarrow> Bex UNIV P" for P :: "ProjectStatus \<Rightarrow> bool"
    unfolding enum_ex_ProjectStatus_def univ by (simp add: list_ex_iff)
qed

end

instantiation ProjectBranchStatus :: enum
begin

definition enum_ProjectBranchStatus :: "ProjectBranchStatus list" where
  "enum_ProjectBranchStatus = [PB_IMPORTED, PB_PLANNING, PB_CANDIDATE_SEARCH, PB_CONTACT_INITIATED, PB_NEGOTIATION, PB_ASSIGNMENT_CONFIRMED, PB_SCHEDULED, PB_AUDIT_COMPLETED, PB_VALIDATION_COMPLETED, PB_CLOSED, PB_UNABLE_TO_COVER, PB_ON_HOLD, PB_CANCELLED]"

definition enum_all_ProjectBranchStatus :: "(ProjectBranchStatus \<Rightarrow> bool) \<Rightarrow> bool" where
  "enum_all_ProjectBranchStatus P \<longleftrightarrow> list_all P (enum_class.enum :: ProjectBranchStatus list)"

definition enum_ex_ProjectBranchStatus :: "(ProjectBranchStatus \<Rightarrow> bool) \<Rightarrow> bool" where
  "enum_ex_ProjectBranchStatus P \<longleftrightarrow> list_ex P (enum_class.enum :: ProjectBranchStatus list)"

instance
proof
  show univ: "UNIV = set (enum_class.enum :: ProjectBranchStatus list)"
  proof (intro equalityI subsetI UNIV_I)
    fix x :: ProjectBranchStatus
    show "x \<in> set enum_class.enum" by (cases x) (simp_all add: enum_ProjectBranchStatus_def)
  qed
  show "distinct (enum_class.enum :: ProjectBranchStatus list)"
    by (simp add: enum_ProjectBranchStatus_def)
  show "enum_class.enum_all P \<longleftrightarrow> Ball UNIV P" for P :: "ProjectBranchStatus \<Rightarrow> bool"
    unfolding enum_all_ProjectBranchStatus_def univ by (simp add: list_all_iff)
  show "enum_class.enum_ex P \<longleftrightarrow> Bex UNIV P" for P :: "ProjectBranchStatus \<Rightarrow> bool"
    unfolding enum_ex_ProjectBranchStatus_def univ by (simp add: list_ex_iff)
qed

end

instantiation AssignmentStatus :: enum
begin

definition enum_AssignmentStatus :: "AssignmentStatus list" where
  "enum_AssignmentStatus = [AS_PENDING, AS_ACCEPTED, AS_CHECKED_IN, AS_IN_PROGRESS, AS_COMPLETED, AS_REJECTED, AS_CANCELLED]"

definition enum_all_AssignmentStatus :: "(AssignmentStatus \<Rightarrow> bool) \<Rightarrow> bool" where
  "enum_all_AssignmentStatus P \<longleftrightarrow> list_all P (enum_class.enum :: AssignmentStatus list)"

definition enum_ex_AssignmentStatus :: "(AssignmentStatus \<Rightarrow> bool) \<Rightarrow> bool" where
  "enum_ex_AssignmentStatus P \<longleftrightarrow> list_ex P (enum_class.enum :: AssignmentStatus list)"

instance
proof
  show univ: "UNIV = set (enum_class.enum :: AssignmentStatus list)"
  proof (intro equalityI subsetI UNIV_I)
    fix x :: AssignmentStatus
    show "x \<in> set enum_class.enum" by (cases x) (simp_all add: enum_AssignmentStatus_def)
  qed
  show "distinct (enum_class.enum :: AssignmentStatus list)"
    by (simp add: enum_AssignmentStatus_def)
  show "enum_class.enum_all P \<longleftrightarrow> Ball UNIV P" for P :: "AssignmentStatus \<Rightarrow> bool"
    unfolding enum_all_AssignmentStatus_def univ by (simp add: list_all_iff)
  show "enum_class.enum_ex P \<longleftrightarrow> Bex UNIV P" for P :: "AssignmentStatus \<Rightarrow> bool"
    unfolding enum_ex_AssignmentStatus_def univ by (simp add: list_ex_iff)
qed

end

instantiation ScheduleStatus :: enum
begin

definition enum_ScheduleStatus :: "ScheduleStatus list" where
  "enum_ScheduleStatus = [SS_TENTATIVE, SS_CONFIRMED, SS_RESCHEDULED, SS_COMPLETED]"

definition enum_all_ScheduleStatus :: "(ScheduleStatus \<Rightarrow> bool) \<Rightarrow> bool" where
  "enum_all_ScheduleStatus P \<longleftrightarrow> list_all P (enum_class.enum :: ScheduleStatus list)"

definition enum_ex_ScheduleStatus :: "(ScheduleStatus \<Rightarrow> bool) \<Rightarrow> bool" where
  "enum_ex_ScheduleStatus P \<longleftrightarrow> list_ex P (enum_class.enum :: ScheduleStatus list)"

instance
proof
  show univ: "UNIV = set (enum_class.enum :: ScheduleStatus list)"
  proof (intro equalityI subsetI UNIV_I)
    fix x :: ScheduleStatus
    show "x \<in> set enum_class.enum" by (cases x) (simp_all add: enum_ScheduleStatus_def)
  qed
  show "distinct (enum_class.enum :: ScheduleStatus list)"
    by (simp add: enum_ScheduleStatus_def)
  show "enum_class.enum_all P \<longleftrightarrow> Ball UNIV P" for P :: "ScheduleStatus \<Rightarrow> bool"
    unfolding enum_all_ScheduleStatus_def univ by (simp add: list_all_iff)
  show "enum_class.enum_ex P \<longleftrightarrow> Bex UNIV P" for P :: "ScheduleStatus \<Rightarrow> bool"
    unfolding enum_ex_ScheduleStatus_def univ by (simp add: list_ex_iff)
qed

end

instantiation DocumentStatus :: enum
begin

definition enum_DocumentStatus :: "DocumentStatus list" where
  "enum_DocumentStatus = [DS_UPLOADED, DS_DISPATCHED, DS_RECEIVED, DS_SENT_TO_DATA_ENTRY, DS_SENT_TO_EXTERNAL_OCR, DS_EXCEL_GENERATED, DS_PROCESSED, DS_COMPLETED, DS_ARCHIVED]"

definition enum_all_DocumentStatus :: "(DocumentStatus \<Rightarrow> bool) \<Rightarrow> bool" where
  "enum_all_DocumentStatus P \<longleftrightarrow> list_all P (enum_class.enum :: DocumentStatus list)"

definition enum_ex_DocumentStatus :: "(DocumentStatus \<Rightarrow> bool) \<Rightarrow> bool" where
  "enum_ex_DocumentStatus P \<longleftrightarrow> list_ex P (enum_class.enum :: DocumentStatus list)"

instance
proof
  show univ: "UNIV = set (enum_class.enum :: DocumentStatus list)"
  proof (intro equalityI subsetI UNIV_I)
    fix x :: DocumentStatus
    show "x \<in> set enum_class.enum" by (cases x) (simp_all add: enum_DocumentStatus_def)
  qed
  show "distinct (enum_class.enum :: DocumentStatus list)"
    by (simp add: enum_DocumentStatus_def)
  show "enum_class.enum_all P \<longleftrightarrow> Ball UNIV P" for P :: "DocumentStatus \<Rightarrow> bool"
    unfolding enum_all_DocumentStatus_def univ by (simp add: list_all_iff)
  show "enum_class.enum_ex P \<longleftrightarrow> Bex UNIV P" for P :: "DocumentStatus \<Rightarrow> bool"
    unfolding enum_ex_DocumentStatus_def univ by (simp add: list_ex_iff)
qed

end

instantiation ValidationStatus :: enum
begin

definition enum_ValidationStatus :: "ValidationStatus list" where
  "enum_ValidationStatus = [VS_PENDING, VS_ASSIGNED, VS_OCR_PROCESSING, VS_HUMAN_REVIEW, VS_CORRECTION_REQUIRED, VS_APPROVED, VS_SUBMITTED]"

definition enum_all_ValidationStatus :: "(ValidationStatus \<Rightarrow> bool) \<Rightarrow> bool" where
  "enum_all_ValidationStatus P \<longleftrightarrow> list_all P (enum_class.enum :: ValidationStatus list)"

definition enum_ex_ValidationStatus :: "(ValidationStatus \<Rightarrow> bool) \<Rightarrow> bool" where
  "enum_ex_ValidationStatus P \<longleftrightarrow> list_ex P (enum_class.enum :: ValidationStatus list)"

instance
proof
  show univ: "UNIV = set (enum_class.enum :: ValidationStatus list)"
  proof (intro equalityI subsetI UNIV_I)
    fix x :: ValidationStatus
    show "x \<in> set enum_class.enum" by (cases x) (simp_all add: enum_ValidationStatus_def)
  qed
  show "distinct (enum_class.enum :: ValidationStatus list)"
    by (simp add: enum_ValidationStatus_def)
  show "enum_class.enum_all P \<longleftrightarrow> Ball UNIV P" for P :: "ValidationStatus \<Rightarrow> bool"
    unfolding enum_all_ValidationStatus_def univ by (simp add: list_all_iff)
  show "enum_class.enum_ex P \<longleftrightarrow> Bex UNIV P" for P :: "ValidationStatus \<Rightarrow> bool"
    unfolding enum_ex_ValidationStatus_def univ by (simp add: list_ex_iff)
qed

end

instantiation AssayerStatus :: enum
begin

definition enum_AssayerStatus :: "AssayerStatus list" where
  "enum_AssayerStatus = [AY_ACTIVE, AY_INACTIVE, AY_SUSPENDED]"

definition enum_all_AssayerStatus :: "(AssayerStatus \<Rightarrow> bool) \<Rightarrow> bool" where
  "enum_all_AssayerStatus P \<longleftrightarrow> list_all P (enum_class.enum :: AssayerStatus list)"

definition enum_ex_AssayerStatus :: "(AssayerStatus \<Rightarrow> bool) \<Rightarrow> bool" where
  "enum_ex_AssayerStatus P \<longleftrightarrow> list_ex P (enum_class.enum :: AssayerStatus list)"

instance
proof
  show univ: "UNIV = set (enum_class.enum :: AssayerStatus list)"
  proof (intro equalityI subsetI UNIV_I)
    fix x :: AssayerStatus
    show "x \<in> set enum_class.enum" by (cases x) (simp_all add: enum_AssayerStatus_def)
  qed
  show "distinct (enum_class.enum :: AssayerStatus list)"
    by (simp add: enum_AssayerStatus_def)
  show "enum_class.enum_all P \<longleftrightarrow> Ball UNIV P" for P :: "AssayerStatus \<Rightarrow> bool"
    unfolding enum_all_AssayerStatus_def univ by (simp add: list_all_iff)
  show "enum_class.enum_ex P \<longleftrightarrow> Bex UNIV P" for P :: "AssayerStatus \<Rightarrow> bool"
    unfolding enum_ex_AssayerStatus_def univ by (simp add: list_ex_iff)
qed

end

instantiation AssayerLifecycleStatus :: enum
begin

definition enum_AssayerLifecycleStatus :: "AssayerLifecycleStatus list" where
  "enum_AssayerLifecycleStatus = [LC_INVITED, LC_DOCUMENT_VERIFICATION, LC_BACKGROUND_VERIFICATION, LC_FINAL_APPROVAL, LC_TRAINING, LC_ACTIVE, LC_ON_LEAVE, LC_SUSPENDED, LC_INACTIVE, LC_RESIGNED, LC_TERMINATED, LC_ARCHIVED]"

definition enum_all_AssayerLifecycleStatus :: "(AssayerLifecycleStatus \<Rightarrow> bool) \<Rightarrow> bool" where
  "enum_all_AssayerLifecycleStatus P \<longleftrightarrow> list_all P (enum_class.enum :: AssayerLifecycleStatus list)"

definition enum_ex_AssayerLifecycleStatus :: "(AssayerLifecycleStatus \<Rightarrow> bool) \<Rightarrow> bool" where
  "enum_ex_AssayerLifecycleStatus P \<longleftrightarrow> list_ex P (enum_class.enum :: AssayerLifecycleStatus list)"

instance
proof
  show univ: "UNIV = set (enum_class.enum :: AssayerLifecycleStatus list)"
  proof (intro equalityI subsetI UNIV_I)
    fix x :: AssayerLifecycleStatus
    show "x \<in> set enum_class.enum" by (cases x) (simp_all add: enum_AssayerLifecycleStatus_def)
  qed
  show "distinct (enum_class.enum :: AssayerLifecycleStatus list)"
    by (simp add: enum_AssayerLifecycleStatus_def)
  show "enum_class.enum_all P \<longleftrightarrow> Ball UNIV P" for P :: "AssayerLifecycleStatus \<Rightarrow> bool"
    unfolding enum_all_AssayerLifecycleStatus_def univ by (simp add: list_all_iff)
  show "enum_class.enum_ex P \<longleftrightarrow> Bex UNIV P" for P :: "AssayerLifecycleStatus \<Rightarrow> bool"
    unfolding enum_ex_AssayerLifecycleStatus_def univ by (simp add: list_ex_iff)
qed

end

instantiation SystemRole :: enum
begin

definition enum_SystemRole :: "SystemRole list" where
  "enum_SystemRole = [SR_DEVELOPER, SR_ADMIN, SR_OPERATIONS, SR_DESK, SR_DESK_OPERATOR, SR_AUDITOR, SR_PRODUCT_SUPPORT, SR_ASSAYER, SR_CLIENT_USER]"

definition enum_all_SystemRole :: "(SystemRole \<Rightarrow> bool) \<Rightarrow> bool" where
  "enum_all_SystemRole P \<longleftrightarrow> list_all P (enum_class.enum :: SystemRole list)"

definition enum_ex_SystemRole :: "(SystemRole \<Rightarrow> bool) \<Rightarrow> bool" where
  "enum_ex_SystemRole P \<longleftrightarrow> list_ex P (enum_class.enum :: SystemRole list)"

instance
proof
  show univ: "UNIV = set (enum_class.enum :: SystemRole list)"
  proof (intro equalityI subsetI UNIV_I)
    fix x :: SystemRole
    show "x \<in> set enum_class.enum" by (cases x) (simp_all add: enum_SystemRole_def)
  qed
  show "distinct (enum_class.enum :: SystemRole list)"
    by (simp add: enum_SystemRole_def)
  show "enum_class.enum_all P \<longleftrightarrow> Ball UNIV P" for P :: "SystemRole \<Rightarrow> bool"
    unfolding enum_all_SystemRole_def univ by (simp add: list_all_iff)
  show "enum_class.enum_ex P \<longleftrightarrow> Bex UNIV P" for P :: "SystemRole \<Rightarrow> bool"
    unfolding enum_ex_SystemRole_def univ by (simp add: list_ex_iff)
qed

end

instantiation ClientLifecycleStatus :: enum
begin

definition enum_ClientLifecycleStatus :: "ClientLifecycleStatus list" where
  "enum_ClientLifecycleStatus = [CL_PROSPECT, CL_ONBOARDING, CL_ACTIVE, CL_SUSPENDED, CL_UNDER_REVIEW, CL_INACTIVE, CL_TERMINATED, CL_ARCHIVED]"

definition enum_all_ClientLifecycleStatus :: "(ClientLifecycleStatus \<Rightarrow> bool) \<Rightarrow> bool" where
  "enum_all_ClientLifecycleStatus P \<longleftrightarrow> list_all P (enum_class.enum :: ClientLifecycleStatus list)"

definition enum_ex_ClientLifecycleStatus :: "(ClientLifecycleStatus \<Rightarrow> bool) \<Rightarrow> bool" where
  "enum_ex_ClientLifecycleStatus P \<longleftrightarrow> list_ex P (enum_class.enum :: ClientLifecycleStatus list)"

instance
proof
  show univ: "UNIV = set (enum_class.enum :: ClientLifecycleStatus list)"
  proof (intro equalityI subsetI UNIV_I)
    fix x :: ClientLifecycleStatus
    show "x \<in> set enum_class.enum" by (cases x) (simp_all add: enum_ClientLifecycleStatus_def)
  qed
  show "distinct (enum_class.enum :: ClientLifecycleStatus list)"
    by (simp add: enum_ClientLifecycleStatus_def)
  show "enum_class.enum_all P \<longleftrightarrow> Ball UNIV P" for P :: "ClientLifecycleStatus \<Rightarrow> bool"
    unfolding enum_all_ClientLifecycleStatus_def univ by (simp add: list_all_iff)
  show "enum_class.enum_ex P \<longleftrightarrow> Bex UNIV P" for P :: "ClientLifecycleStatus \<Rightarrow> bool"
    unfolding enum_ex_ClientLifecycleStatus_def univ by (simp add: list_ex_iff)
qed

end

instantiation BillingState :: enum
begin

definition enum_BillingState :: "BillingState list" where
  "enum_BillingState = [BS_UNBILLED, BS_INVOICED, BS_PAID, BS_CANCELLED]"

definition enum_all_BillingState :: "(BillingState \<Rightarrow> bool) \<Rightarrow> bool" where
  "enum_all_BillingState P \<longleftrightarrow> list_all P (enum_class.enum :: BillingState list)"

definition enum_ex_BillingState :: "(BillingState \<Rightarrow> bool) \<Rightarrow> bool" where
  "enum_ex_BillingState P \<longleftrightarrow> list_ex P (enum_class.enum :: BillingState list)"

instance
proof
  show univ: "UNIV = set (enum_class.enum :: BillingState list)"
  proof (intro equalityI subsetI UNIV_I)
    fix x :: BillingState
    show "x \<in> set enum_class.enum" by (cases x) (simp_all add: enum_BillingState_def)
  qed
  show "distinct (enum_class.enum :: BillingState list)"
    by (simp add: enum_BillingState_def)
  show "enum_class.enum_all P \<longleftrightarrow> Ball UNIV P" for P :: "BillingState \<Rightarrow> bool"
    unfolding enum_all_BillingState_def univ by (simp add: list_all_iff)
  show "enum_class.enum_ex P \<longleftrightarrow> Bex UNIV P" for P :: "BillingState \<Rightarrow> bool"
    unfolding enum_ex_BillingState_def univ by (simp add: list_ex_iff)
qed

end

instantiation AssayerPayableStatus :: enum
begin

definition enum_AssayerPayableStatus :: "AssayerPayableStatus list" where
  "enum_AssayerPayableStatus = [AP_PENDING, AP_APPROVED, AP_PAID, AP_VOIDED]"

definition enum_all_AssayerPayableStatus :: "(AssayerPayableStatus \<Rightarrow> bool) \<Rightarrow> bool" where
  "enum_all_AssayerPayableStatus P \<longleftrightarrow> list_all P (enum_class.enum :: AssayerPayableStatus list)"

definition enum_ex_AssayerPayableStatus :: "(AssayerPayableStatus \<Rightarrow> bool) \<Rightarrow> bool" where
  "enum_ex_AssayerPayableStatus P \<longleftrightarrow> list_ex P (enum_class.enum :: AssayerPayableStatus list)"

instance
proof
  show univ: "UNIV = set (enum_class.enum :: AssayerPayableStatus list)"
  proof (intro equalityI subsetI UNIV_I)
    fix x :: AssayerPayableStatus
    show "x \<in> set enum_class.enum" by (cases x) (simp_all add: enum_AssayerPayableStatus_def)
  qed
  show "distinct (enum_class.enum :: AssayerPayableStatus list)"
    by (simp add: enum_AssayerPayableStatus_def)
  show "enum_class.enum_all P \<longleftrightarrow> Ball UNIV P" for P :: "AssayerPayableStatus \<Rightarrow> bool"
    unfolding enum_all_AssayerPayableStatus_def univ by (simp add: list_all_iff)
  show "enum_class.enum_ex P \<longleftrightarrow> Bex UNIV P" for P :: "AssayerPayableStatus \<Rightarrow> bool"
    unfolding enum_ex_AssayerPayableStatus_def univ by (simp add: list_ex_iff)
qed

end

instantiation AssayerInvoiceStatus :: enum
begin

definition enum_AssayerInvoiceStatus :: "AssayerInvoiceStatus list" where
  "enum_AssayerInvoiceStatus = [AI_INVITED, AI_SUBMITTED, AI_APPROVED, AI_HOD_APPROVED, AI_PAID, AI_CANCELLED, AI_SUPERSEDED]"

definition enum_all_AssayerInvoiceStatus :: "(AssayerInvoiceStatus \<Rightarrow> bool) \<Rightarrow> bool" where
  "enum_all_AssayerInvoiceStatus P \<longleftrightarrow> list_all P (enum_class.enum :: AssayerInvoiceStatus list)"

definition enum_ex_AssayerInvoiceStatus :: "(AssayerInvoiceStatus \<Rightarrow> bool) \<Rightarrow> bool" where
  "enum_ex_AssayerInvoiceStatus P \<longleftrightarrow> list_ex P (enum_class.enum :: AssayerInvoiceStatus list)"

instance
proof
  show univ: "UNIV = set (enum_class.enum :: AssayerInvoiceStatus list)"
  proof (intro equalityI subsetI UNIV_I)
    fix x :: AssayerInvoiceStatus
    show "x \<in> set enum_class.enum" by (cases x) (simp_all add: enum_AssayerInvoiceStatus_def)
  qed
  show "distinct (enum_class.enum :: AssayerInvoiceStatus list)"
    by (simp add: enum_AssayerInvoiceStatus_def)
  show "enum_class.enum_all P \<longleftrightarrow> Ball UNIV P" for P :: "AssayerInvoiceStatus \<Rightarrow> bool"
    unfolding enum_all_AssayerInvoiceStatus_def univ by (simp add: list_all_iff)
  show "enum_class.enum_ex P \<longleftrightarrow> Bex UNIV P" for P :: "AssayerInvoiceStatus \<Rightarrow> bool"
    unfolding enum_ex_AssayerInvoiceStatus_def univ by (simp add: list_ex_iff)
qed

end

section \<open>The run-time values are distinct\<close>

lemma projectStatusValue_inject [simp]: "projectStatusValue a = projectStatusValue b \<longleftrightarrow> a = b"
  by (cases a; cases b; simp)

lemma projectBranchStatusValue_inject [simp]: "projectBranchStatusValue a = projectBranchStatusValue b \<longleftrightarrow> a = b"
  by (cases a; cases b; simp)

lemma assignmentStatusValue_inject [simp]: "assignmentStatusValue a = assignmentStatusValue b \<longleftrightarrow> a = b"
  by (cases a; cases b; simp)

lemma scheduleStatusValue_inject [simp]: "scheduleStatusValue a = scheduleStatusValue b \<longleftrightarrow> a = b"
  by (cases a; cases b; simp)

lemma documentStatusValue_inject [simp]: "documentStatusValue a = documentStatusValue b \<longleftrightarrow> a = b"
  by (cases a; cases b; simp)

lemma validationStatusValue_inject [simp]: "validationStatusValue a = validationStatusValue b \<longleftrightarrow> a = b"
  by (cases a; cases b; simp)

lemma assayerStatusValue_inject [simp]: "assayerStatusValue a = assayerStatusValue b \<longleftrightarrow> a = b"
  by (cases a; cases b; simp)

lemma assayerLifecycleStatusValue_inject [simp]: "assayerLifecycleStatusValue a = assayerLifecycleStatusValue b \<longleftrightarrow> a = b"
  by (cases a; cases b; simp)

lemma systemRoleValue_inject [simp]: "systemRoleValue a = systemRoleValue b \<longleftrightarrow> a = b"
  by (cases a; cases b; simp)

lemma clientLifecycleStatusValue_inject [simp]: "clientLifecycleStatusValue a = clientLifecycleStatusValue b \<longleftrightarrow> a = b"
  by (cases a; cases b; simp)

lemma billingStateValue_inject [simp]: "billingStateValue a = billingStateValue b \<longleftrightarrow> a = b"
  by (cases a; cases b; simp)

lemma assayerPayableStatusValue_inject [simp]: "assayerPayableStatusValue a = assayerPayableStatusValue b \<longleftrightarrow> a = b"
  by (cases a; cases b; simp)

lemma assayerInvoiceStatusValue_inject [simp]: "assayerInvoiceStatusValue a = assayerInvoiceStatusValue b \<longleftrightarrow> a = b"
  by (cases a; cases b; simp)

end
