(* ===== verification/Transition_Tables.thy ===== *)
theory Transition_Tables
  imports Enums
begin

text \<open>
  \<^verbatim>\<open>packages/shared/src/state-machines.ts\<close>: the declared life cycles of assignments, projects,
  clients, schedules, validation cases and documents, the look-ups on them, and the flattening into
  the list the workflow engine registers. A \<^verbatim>\<open>TransitionMap\<close> is the list of its entries in insertion
  order; a status without an entry has no moves.
\<close>

section \<open>The tables\<close>

type_synonym 's TransitionMap = "('s \<times> 's list) list"

definition ASSIGNMENT_TRANSITIONS :: "AssignmentStatus TransitionMap" where
  "ASSIGNMENT_TRANSITIONS =
    [(AS_PENDING, [AS_PENDING, AS_ACCEPTED, AS_REJECTED, AS_CANCELLED]),
     (AS_ACCEPTED, [AS_ACCEPTED, AS_PENDING, AS_CHECKED_IN, AS_COMPLETED, AS_CANCELLED]),
     (AS_CHECKED_IN, [AS_CHECKED_IN, AS_IN_PROGRESS, AS_COMPLETED, AS_CANCELLED]),
     (AS_IN_PROGRESS, [AS_IN_PROGRESS, AS_CHECKED_IN, AS_COMPLETED, AS_CANCELLED]),
     (AS_COMPLETED, []),
     (AS_REJECTED, [AS_PENDING]),
     (AS_CANCELLED, [])]"

definition REASSIGNABLE_ASSIGNMENT_STATUSES :: "AssignmentStatus list" where
  "REASSIGNABLE_ASSIGNMENT_STATUSES =
    filter (\<lambda>s. case map_of ASSIGNMENT_TRANSITIONS s of None \<Rightarrow> False | Some ts \<Rightarrow> AS_PENDING \<in> set ts)
      (map fst ASSIGNMENT_TRANSITIONS)"

definition canTransitionAssignment :: "AssignmentStatus \<Rightarrow> AssignmentStatus \<Rightarrow> bool" where
  "canTransitionAssignment s t =
    (case map_of ASSIGNMENT_TRANSITIONS s of None \<Rightarrow> False | Some ts \<Rightarrow> t \<in> set ts)"

definition ASSAYER_REQUESTABLE_ASSIGNMENT_TRANSITIONS :: "AssignmentStatus list" where
  "ASSAYER_REQUESTABLE_ASSIGNMENT_TRANSITIONS =
    [AS_ACCEPTED, AS_REJECTED, AS_CHECKED_IN, AS_IN_PROGRESS]"

definition PROJECT_TRANSITIONS :: "ProjectStatus TransitionMap" where
  "PROJECT_TRANSITIONS =
    [(PS_DRAFT, [PS_PLANNING, PS_CANCELLED]),
     (PS_PLANNING, [PS_SCHEDULING, PS_CANCELLED]),
     (PS_SCHEDULING, [PS_EXECUTION, PS_ON_HOLD, PS_CANCELLED]),
     (PS_EXECUTION, [PS_VALIDATION, PS_ON_HOLD, PS_CANCELLED]),
     (PS_VALIDATION, [PS_COMPLETED, PS_CANCELLED]),
     (PS_COMPLETED, [PS_ARCHIVED]),
     (PS_ON_HOLD, [PS_SCHEDULING, PS_EXECUTION, PS_CANCELLED])]"

definition CLIENT_LIFECYCLE_TRANSITIONS :: "ClientLifecycleStatus TransitionMap" where
  "CLIENT_LIFECYCLE_TRANSITIONS =
    [(CL_PROSPECT, [CL_ONBOARDING, CL_ARCHIVED]),
     (CL_ONBOARDING, [CL_ACTIVE, CL_INACTIVE]),
     (CL_ACTIVE, [CL_SUSPENDED, CL_UNDER_REVIEW, CL_INACTIVE]),
     (CL_SUSPENDED, [CL_ACTIVE, CL_UNDER_REVIEW, CL_TERMINATED]),
     (CL_UNDER_REVIEW, [CL_ACTIVE, CL_SUSPENDED, CL_TERMINATED]),
     (CL_INACTIVE, [CL_ACTIVE, CL_ARCHIVED]),
     (CL_TERMINATED, [CL_ARCHIVED]),
     (CL_ARCHIVED, [])]"

text \<open>
  \<open>toWorkflowTransitions\<close> walks the entries and collects, per target, the statuses that lead to it.
  The JavaScript \<^verbatim>\<open>Map\<close> keeps its keys in the order of first insertion: it is an association list,
  and \<open>byTarget_push\<close> is \<^verbatim>\<open>get(to) ?? []\<close>, \<^verbatim>\<open>push(from)\<close>, \<^verbatim>\<open>set(to, list)\<close>.
\<close>

fun byTarget_push :: "'s \<Rightarrow> 's \<Rightarrow> ('s \<times> 's list) list \<Rightarrow> ('s \<times> 's list) list" where
  "byTarget_push frm to [] = [(to, [frm])]"
| "byTarget_push frm to ((t, fs) # m) =
     (if t = to then (t, fs @ [frm]) # m else (t, fs) # byTarget_push frm to m)"

fun byTarget :: "'s TransitionMap \<Rightarrow> ('s \<times> 's list) list \<Rightarrow> ('s \<times> 's list) list" where
  "byTarget [] m = m"
| "byTarget ((frm, targets) # es) m = byTarget es (fold (byTarget_push frm) targets m)"

definition toWorkflowTransitions :: "'s TransitionMap \<Rightarrow> ('s list \<times> 's) list" where
  "toWorkflowTransitions tm = map (\<lambda>(to, frm). (frm, to)) (byTarget tm [])"

definition SCHEDULE_TRANSITIONS :: "ScheduleStatus TransitionMap" where
  "SCHEDULE_TRANSITIONS =
    [(SS_TENTATIVE, [SS_CONFIRMED]),
     (SS_CONFIRMED, [SS_RESCHEDULED, SS_COMPLETED]),
     (SS_RESCHEDULED, [SS_RESCHEDULED, SS_CONFIRMED, SS_COMPLETED])]"

definition VALIDATION_TRANSITIONS :: "ValidationStatus TransitionMap" where
  "VALIDATION_TRANSITIONS =
    [(VS_PENDING, [VS_ASSIGNED, VS_HUMAN_REVIEW]),
     (VS_ASSIGNED, [VS_OCR_PROCESSING, VS_HUMAN_REVIEW]),
     (VS_OCR_PROCESSING, [VS_HUMAN_REVIEW]),
     (VS_HUMAN_REVIEW, [VS_APPROVED, VS_CORRECTION_REQUIRED]),
     (VS_CORRECTION_REQUIRED, [VS_HUMAN_REVIEW]),
     (VS_APPROVED, [VS_SUBMITTED, VS_CORRECTION_REQUIRED])]"

definition DOCUMENT_TRANSITIONS :: "DocumentStatus TransitionMap" where
  "DOCUMENT_TRANSITIONS =
    [(DS_UPLOADED, [DS_DISPATCHED, DS_RECEIVED, DS_COMPLETED, DS_ARCHIVED]),
     (DS_DISPATCHED, [DS_RECEIVED, DS_ARCHIVED]),
     (DS_RECEIVED, [DS_SENT_TO_DATA_ENTRY, DS_SENT_TO_EXTERNAL_OCR, DS_ARCHIVED]),
     (DS_SENT_TO_DATA_ENTRY, [DS_SENT_TO_EXTERNAL_OCR, DS_EXCEL_GENERATED, DS_ARCHIVED]),
     (DS_SENT_TO_EXTERNAL_OCR, [DS_EXCEL_GENERATED, DS_ARCHIVED]),
     (DS_EXCEL_GENERATED, [DS_PROCESSED, DS_ARCHIVED]),
     (DS_PROCESSED, [DS_COMPLETED, DS_ARCHIVED]),
     (DS_COMPLETED, [DS_ARCHIVED]),
     (DS_ARCHIVED, [])]"

definition isValidTransition :: "'s TransitionMap \<Rightarrow> 's \<Rightarrow> 's \<Rightarrow> bool" where
  "isValidTransition transitions currentState targetState =
    (case map_of transitions currentState of
       None \<Rightarrow> False
     | Some allowedTargets \<Rightarrow> targetState \<in> set allowedTargets)"

definition canTransitionDocument :: "DocumentStatus \<Rightarrow> DocumentStatus \<Rightarrow> bool" where
  "canTransitionDocument s t = isValidTransition DOCUMENT_TRANSITIONS s t"

text \<open>
  A sequence of statuses each of which a table lets follow the one before, and the position of a
  document in the pipeline. Neither is in the source; they are what the comments on the tables talk
  about ("a packet only ever moves forward").
\<close>

fun legal_path :: "('s \<Rightarrow> 's \<Rightarrow> bool) \<Rightarrow> 's list \<Rightarrow> bool" where
  "legal_path edge [] = False"
| "legal_path edge [s] = True"
| "legal_path edge (s # t # ss) = (edge s t \<and> legal_path edge (t # ss))"

primrec document_rank :: "DocumentStatus \<Rightarrow> nat" where
  "document_rank DS_UPLOADED = 0"
| "document_rank DS_DISPATCHED = 1"
| "document_rank DS_RECEIVED = 2"
| "document_rank DS_SENT_TO_DATA_ENTRY = 3"
| "document_rank DS_SENT_TO_EXTERNAL_OCR = 4"
| "document_rank DS_EXCEL_GENERATED = 5"
| "document_rank DS_PROCESSED = 6"
| "document_rank DS_COMPLETED = 7"
| "document_rank DS_ARCHIVED = 8"

definition registers :: "('s list \<times> 's) list \<Rightarrow> 's \<Rightarrow> 's \<Rightarrow> bool" where
  "registers ws s t \<longleftrightarrow> list_ex (\<lambda>(frm, to). s \<in> set frm \<and> to = t) ws"

declare ASSIGNMENT_TRANSITIONS_def [table_defs] PROJECT_TRANSITIONS_def [table_defs]
  CLIENT_LIFECYCLE_TRANSITIONS_def [table_defs] SCHEDULE_TRANSITIONS_def [table_defs]
  VALIDATION_TRANSITIONS_def [table_defs] DOCUMENT_TRANSITIONS_def [table_defs]
  canTransitionAssignment_def [table_defs] isValidTransition_def [table_defs]
  canTransitionDocument_def [table_defs]

section \<open>Paths along a table\<close>

lemma legal_path_Cons:
  "legal_path edge (s # ss) \<longleftrightarrow> ss = [] \<or> (edge s (hd ss) \<and> legal_path edge ss)"
  by (cases ss) auto

lemma legal_path_gate:
  assumes gate: "\<And>s t. edge s t \<Longrightarrow> T t \<Longrightarrow> \<not> T s \<Longrightarrow> s = g"
  shows "legal_path edge ss \<Longrightarrow> \<not> T (hd ss) \<Longrightarrow> T (last ss) \<Longrightarrow> g \<in> set ss"
proof (induction ss rule: induct_list012)
  case (3 s t ss)
  then show ?case using gate [of s t] by (cases "T t") auto
qed auto

lemma legal_path_rank:
  assumes "\<And>s t. edge s t \<Longrightarrow> rank s < (rank t :: nat)"
  shows "legal_path edge ss \<Longrightarrow> rank (hd ss) + length ss \<le> Suc (rank (last ss))"
proof (induction ss rule: induct_list012)
  case (3 s t ss)
  then have "rank s < rank t" and "rank t + length (t # ss) \<le> Suc (rank (last (t # ss)))"
    using assms by auto
  then show ?case by simp
qed auto

section \<open>The flattened table is the table\<close>

definition bt_has :: "('s \<times> 's list) list \<Rightarrow> 's \<Rightarrow> 's \<Rightarrow> bool" where
  "bt_has m s t \<longleftrightarrow> (\<exists>fs. (t, fs) \<in> set m \<and> s \<in> set fs)"

lemma bt_has_push: "bt_has (byTarget_push f to m) s t \<longleftrightarrow> bt_has m s t \<or> (s = f \<and> t = to)"
  by (induction f to m rule: byTarget_push.induct) (auto simp: bt_has_def)

lemma bt_has_fold:
  "bt_has (fold (byTarget_push f) ts m) s t \<longleftrightarrow> bt_has m s t \<or> (s = f \<and> t \<in> set ts)"
  by (induction ts arbitrary: m) (auto simp: bt_has_push)

lemma bt_has_byTarget:
  "bt_has (byTarget tm m) s t \<longleftrightarrow> bt_has m s t \<or> (\<exists>ts. (s, ts) \<in> set tm \<and> t \<in> set ts)"
  by (induction tm m rule: byTarget.induct) (auto simp: bt_has_fold)

lemma keys_push: "set (map fst (byTarget_push f to m)) = insert to (set (map fst m))"
  by (induction f to m rule: byTarget_push.induct) auto

lemma distinct_push: "distinct (map fst m) \<Longrightarrow> distinct (map fst (byTarget_push f to m))"
proof (induction f to m rule: byTarget_push.induct)
  case (2 f to t fs m)
  then show ?case using keys_push [of f to m] by auto
qed simp

lemma distinct_fold_push:
  "distinct (map fst m) \<Longrightarrow> distinct (map fst (fold (byTarget_push f) ts m))"
  by (induction ts arbitrary: m) (simp_all add: distinct_push)

lemma distinct_byTarget: "distinct (map fst m) \<Longrightarrow> distinct (map fst (byTarget tm m))"
  by (induction tm m rule: byTarget.induct) (simp_all add: distinct_fold_push)

lemma targets_distinct: "distinct (map snd (toWorkflowTransitions tm))"
  using distinct_byTarget [of "[]" tm] by (simp add: toWorkflowTransitions_def case_prod_beta' o_def)

lemma registers_iff_entry:
  "registers (toWorkflowTransitions tm) s t \<longleftrightarrow> (\<exists>ts. (s, ts) \<in> set tm \<and> t \<in> set ts)"
proof -
  have "registers (toWorkflowTransitions tm) s t \<longleftrightarrow> bt_has (byTarget tm []) s t"
    by (force simp: registers_def toWorkflowTransitions_def bt_has_def list_ex_iff)
  then show ?thesis by (simp add: bt_has_byTarget) (simp add: bt_has_def)
qed

text \<open>
  What a caller of \<open>isValidTransition\<close> and of the registered workflow may rely on, for a table that
  lists every status at most once, as a JavaScript object does.
\<close>

locale keyed_table =
  fixes tm :: "'s TransitionMap"
  assumes keys_distinct: "distinct (map fst tm)"
begin

lemma valid_iff_entry: "isValidTransition tm s t \<longleftrightarrow> (\<exists>ts. (s, ts) \<in> set tm \<and> t \<in> set ts)"
proof -
  have "isValidTransition tm s t \<longleftrightarrow> (\<exists>ts. map_of tm s = Some ts \<and> t \<in> set ts)"
    by (simp add: isValidTransition_def split: option.split)
  then show ?thesis by (simp only: map_of_eq_Some_iff [OF keys_distinct])
qed

lemma registers_iff_valid: "registers (toWorkflowTransitions tm) s t \<longleftrightarrow> isValidTransition tm s t"
  by (simp add: registers_iff_entry valid_iff_entry)

lemma find_iff_valid:
  "List.find (\<lambda>(frm, to). s \<in> set frm \<and> to = t) (toWorkflowTransitions tm) = None
     \<longleftrightarrow> \<not> isValidTransition tm s t"
  unfolding registers_iff_valid [symmetric] registers_def
  by (auto simp: find_None_iff list_ex_iff)

end

interpretation assignment_table: keyed_table ASSIGNMENT_TRANSITIONS
  by unfold_locales (simp add: table_defs)

interpretation project_table: keyed_table PROJECT_TRANSITIONS
  by unfold_locales (simp add: table_defs)

interpretation client_table: keyed_table CLIENT_LIFECYCLE_TRANSITIONS
  by unfold_locales (simp add: table_defs)

interpretation schedule_table: keyed_table SCHEDULE_TRANSITIONS
  by unfold_locales (simp add: table_defs)

interpretation validation_table: keyed_table VALIDATION_TRANSITIONS
  by unfold_locales (simp add: table_defs)

interpretation document_table: keyed_table DOCUMENT_TRANSITIONS
  by unfold_locales (simp add: table_defs)

section \<open>Edges of the individual tables\<close>

lemma document_edge_rank: "canTransitionDocument s t \<Longrightarrow> document_rank s < document_rank t"
  by (cases s; cases t) (simp_all add: table_defs)

lemma document_rank_le: "document_rank s \<le> 8"
  by (cases s) simp_all

lemma validation_approved_from_review:
  "isValidTransition VALIDATION_TRANSITIONS s VS_APPROVED \<Longrightarrow> s = VS_HUMAN_REVIEW"
  by (cases s) (simp_all add: table_defs)

lemma validation_submitted_from_approved:
  "isValidTransition VALIDATION_TRANSITIONS s VS_SUBMITTED \<Longrightarrow> s = VS_APPROVED"
  by (cases s) (simp_all add: table_defs)

lemma validation_submitted_final: "\<not> isValidTransition VALIDATION_TRANSITIONS VS_SUBMITTED t"
  by (simp add: table_defs)

lemma validation_released_gate:
  "isValidTransition VALIDATION_TRANSITIONS s t \<Longrightarrow> t \<in> {VS_APPROVED, VS_SUBMITTED} \<Longrightarrow>
     s \<notin> {VS_APPROVED, VS_SUBMITTED} \<Longrightarrow> s = VS_HUMAN_REVIEW"
  using validation_approved_from_review validation_submitted_from_approved by auto

lemma validation_loop_needs_review:
  "isValidTransition VALIDATION_TRANSITIONS s t \<Longrightarrow> t \<in> {VS_APPROVED} \<Longrightarrow> s \<notin> {VS_APPROVED} \<Longrightarrow>
     s = VS_HUMAN_REVIEW"
  using validation_approved_from_review by auto

lemma assignment_terminal:
  "canTransitionAssignment s t \<Longrightarrow> s \<notin> {AS_COMPLETED, AS_CANCELLED}"
  by (cases s) (simp_all add: table_defs)

lemma reassignable_iff: "s \<in> set REASSIGNABLE_ASSIGNMENT_STATUSES \<longleftrightarrow> canTransitionAssignment s AS_PENDING"
  by (cases s) (simp_all add: REASSIGNABLE_ASSIGNMENT_STATUSES_def table_defs)

section \<open>Properties\<close>

text \<open>
  The list the workflow engine registers for a table (\<^verbatim>\<open>toWorkflowTransitions\<close>) admits exactly
  the moves the table admits: for the project, validation and client tables the engine's look-up and
  \<^verbatim>\<open>isValidTransition\<close> agree on every pair of statuses, and no target is listed twice, so the
  engine's \<^verbatim>\<open>find\<close> can only meet one entry per target.
\<close>

theorem workflow_registration_exact:
  "(\<forall>s t. registers (toWorkflowTransitions PROJECT_TRANSITIONS) s t
        = isValidTransition PROJECT_TRANSITIONS s t)
   \<and> (\<forall>s t. registers (toWorkflowTransitions VALIDATION_TRANSITIONS) s t
        = isValidTransition VALIDATION_TRANSITIONS s t)
   \<and> (\<forall>s t. registers (toWorkflowTransitions CLIENT_LIFECYCLE_TRANSITIONS) s t
        = isValidTransition CLIENT_LIFECYCLE_TRANSITIONS s t)
   \<and> distinct (map snd (toWorkflowTransitions PROJECT_TRANSITIONS))
   \<and> distinct (map snd (toWorkflowTransitions VALIDATION_TRANSITIONS))
   \<and> distinct (map snd (toWorkflowTransitions CLIENT_LIFECYCLE_TRANSITIONS))"
  by (simp add: project_table.registers_iff_valid validation_table.registers_iff_valid
      client_table.registers_iff_valid targets_distinct)

text \<open>
  A packet only ever moves forward: along any legal sequence of document states the pipeline
  position strictly increases, so a packet never revisits a state and makes at most eight moves.
\<close>

theorem document_only_moves_forward:
  assumes "legal_path canTransitionDocument ss"
  shows "document_rank (hd ss) + length ss \<le> Suc (document_rank (last ss)) \<and> length ss \<le> 9"
proof -
  have le: "document_rank (hd ss) + length ss \<le> Suc (document_rank (last ss))"
    using document_edge_rank assms by (rule legal_path_rank)
  moreover have "document_rank (last ss) \<le> 8" by (rule document_rank_le)
  ultimately show ?thesis by simp
qed

theorem document_only_moves_forward_witness:
  "document_rank DS_UPLOADED + 3 \<le> Suc (document_rank DS_RECEIVED) \<and> (3::nat) \<le> 9"
proof -
  have "legal_path canTransitionDocument [DS_UPLOADED, DS_DISPATCHED, DS_RECEIVED]"
    by (simp add: table_defs)
  from document_only_moves_forward [OF this] show ?thesis by simp
qed

text \<open>
  No validation case is released unreviewed: on every legal path from a state before approval to
  \<^verbatim>\<open>APPROVED\<close> or \<^verbatim>\<open>SUBMITTED\<close> the case passes through \<^verbatim>\<open>HUMAN_REVIEW\<close>; and once submitted it never
  moves again.
\<close>

theorem validation_release_needs_review:
  assumes "legal_path (isValidTransition VALIDATION_TRANSITIONS) ss"
    and "hd ss \<notin> {VS_APPROVED, VS_SUBMITTED}"
    and "last ss \<in> {VS_APPROVED, VS_SUBMITTED}"
  shows "VS_HUMAN_REVIEW \<in> set ss \<and> (\<forall>t. \<not> isValidTransition VALIDATION_TRANSITIONS VS_SUBMITTED t)"
proof
  show "VS_HUMAN_REVIEW \<in> set ss"
    using assms by (rule legal_path_gate [rotated]) (rule validation_released_gate)
  show "\<forall>t. \<not> isValidTransition VALIDATION_TRANSITIONS VS_SUBMITTED t"
    by (simp add: validation_submitted_final)
qed

theorem validation_release_needs_review_witness:
  "VS_HUMAN_REVIEW \<in> set [VS_PENDING, VS_HUMAN_REVIEW, VS_APPROVED, VS_SUBMITTED]"
proof -
  have "legal_path (isValidTransition VALIDATION_TRANSITIONS)
      [VS_PENDING, VS_HUMAN_REVIEW, VS_APPROVED, VS_SUBMITTED]"
    by (simp add: table_defs)
  from validation_release_needs_review [OF this] show ?thesis by simp
qed

end
