(* ===== verification/Role_Hierarchy.thy ===== *)
theory Role_Hierarchy
  imports Enums
begin

text \<open>
  \<^verbatim>\<open>packages/shared/src/role-hierarchy.ts\<close>: the roles a role implies, and the three functions both
  sides of the wire use. Role names are strings, because custom roles exist; the names the system
  stores are upper-case (\<^verbatim>\<open>UserService.createRole\<close>), so the look-up of a name in the object literal
  never meets a property every JavaScript object inherits. \<^verbatim>\<open>out\<close> and \<^verbatim>\<open>seen\<close> of the source
  hold the same names in every step: one list stands for both.
\<close>

definition ROLE_IMPLICATIONS :: "(string \<times> string list) list" where
  "ROLE_IMPLICATIONS =
    [(systemRoleValue SR_DEVELOPER, [systemRoleValue SR_ADMIN, systemRoleValue SR_PRODUCT_SUPPORT])]"

definition role_push :: "string \<Rightarrow> string list \<Rightarrow> string list" where
  "role_push name out = (if name \<in> set out then out else out @ [name])"

definition implied_by :: "string \<Rightarrow> string list" where
  "implied_by name = (case map_of ROLE_IMPLICATIONS name of None \<Rightarrow> [] | Some implied \<Rightarrow> implied)"

definition impliers_of :: "string \<Rightarrow> string list" where
  "impliers_of name = map fst (filter (\<lambda>(implier, implied). name \<in> set implied) ROLE_IMPLICATIONS)"

definition expandRoles :: "string list \<Rightarrow> string list" where
  "expandRoles names = fold (\<lambda>name out. fold role_push (name # implied_by name) out) names []"

definition expandAudience :: "string list \<Rightarrow> string list" where
  "expandAudience names = fold (\<lambda>name out. fold role_push (name # impliers_of name) out) names []"

definition roleSatisfies :: "string \<Rightarrow> string list \<Rightarrow> bool" where
  "roleSatisfies role allowed \<longleftrightarrow> list_ex (\<lambda>name. name \<in> set allowed) (expandRoles [role])"

section \<open>Pushing names\<close>

lemma set_fold_push: "set (fold role_push xs out) = set out \<union> set xs"
  by (induction xs arbitrary: out) (auto simp: role_push_def)

lemma distinct_fold_role_push: "distinct out \<Longrightarrow> distinct (fold role_push xs out)"
  by (induction xs arbitrary: out) (auto simp: role_push_def)

lemma fold_push_seen: "set xs \<subseteq> set out \<Longrightarrow> fold role_push xs out = out"
  by (induction xs arbitrary: out) (auto simp: role_push_def)

lemma fold_push_distinct: "distinct (out @ xs) \<Longrightarrow> fold role_push xs out = out @ xs"
  by (induction xs arbitrary: out) (auto simp: role_push_def)

lemma fold_push_extends: "\<exists>ys. fold role_push xs out = out @ ys"
proof (induction xs arbitrary: out)
  case (Cons x xs)
  from Cons.IH [of "role_push x out"] show ?case by (auto simp: role_push_def)
qed simp

text \<open>
  Both expansions are the same walk with a different list of companions per name, so what they share
  is proved once, for any companions that bring no further companions with them.
\<close>

definition walk_names :: "(string \<Rightarrow> string list) \<Rightarrow> string list \<Rightarrow> string list \<Rightarrow> string list" where
  "walk_names companions names out =
     fold (\<lambda>name out. fold role_push (name # companions name) out) names out"

lemma walk_names_Nil [simp]: "walk_names c [] out = out"
  by (simp add: walk_names_def)

lemma walk_names_Cons [simp]:
  "walk_names c (n # ns) out = walk_names c ns (fold role_push (n # c n) out)"
  by (simp add: walk_names_def)

lemma walk_names_append: "walk_names c (ms @ ns) out = walk_names c ns (walk_names c ms out)"
  by (simp add: walk_names_def)

lemma set_walk: "set (walk_names c names out) = set out \<union> (\<Union>n \<in> set names. {n} \<union> set (c n))"
  by (induction names arbitrary: out) (auto simp: set_fold_push simp del: fold_Cons)

lemma distinct_walk: "distinct out \<Longrightarrow> distinct (walk_names c names out)"
  by (induction names arbitrary: out) (simp_all add: distinct_fold_role_push del: fold_Cons)

lemma walk_seen:
  "(\<Union>n \<in> set names. {n} \<union> set (c n)) \<subseteq> set out \<Longrightarrow> walk_names c names out = out"
  by (induction names arbitrary: out) (simp_all add: fold_push_seen del: fold_Cons)

locale role_walk =
  fixes companions :: "string \<Rightarrow> string list"
  assumes closed: "b \<in> set (companions a) \<Longrightarrow> companions b = []"
begin

lemma step_settled:
  assumes settled: "walk_names companions out [] = out"
  shows "walk_names companions (fold role_push (n # companions n) out) []
    = fold role_push (n # companions n) out"
proof (cases "n \<in> set out")
  case True
  then have "set (companions n) \<subseteq> set (walk_names companions out [])" by (auto simp: set_walk)
  with True have "fold role_push (n # companions n) out = out"
    by (intro fold_push_seen) (simp add: settled)
  with settled show ?thesis by simp
next
  case False
  then have out_n: "role_push n out = out @ [n]" by (simp add: role_push_def)
  obtain news where news: "fold role_push (companions n) (out @ [n]) = (out @ [n]) @ news"
    using fold_push_extends by blast
  then have among: "set news \<subseteq> set out \<union> {n} \<union> set (companions n)"
    and all: "set (companions n) \<subseteq> set ((out @ [n]) @ news)"
    using set_fold_push [of "companions n" "out @ [n]"] by auto
  have "set (companions m) \<subseteq> set ((out @ [n]) @ news)" if m: "m \<in> set news" for m
  proof -
    consider "m \<in> set out" | "m = n" | "m \<in> set (companions n)" using m among by blast
    then show ?thesis
    proof cases
      case 1
      then show ?thesis using set_walk [of companions out "[]"] settled by auto
    next
      case 3
      from closed [OF 3] show ?thesis by simp
    qed (use all in simp)
  qed
  then have "walk_names companions news ((out @ [n]) @ news) = (out @ [n]) @ news"
    by (intro walk_seen) auto
  with settled news out_n show ?thesis by (simp add: walk_names_append)
qed

lemma walk_settled:
  "walk_names companions out [] = out \<Longrightarrow>
   walk_names companions (walk_names companions names out) [] = walk_names companions names out"
  by (induction names arbitrary: out) (simp_all add: step_settled del: fold_Cons)

lemma walk_idem:
  "walk_names companions (walk_names companions names []) [] = walk_names companions names []"
  by (rule walk_settled) simp

end

lemma implied_by_simp:
  "implied_by name = (if name = ''DEVELOPER'' then [''ADMIN'', ''PRODUCT_SUPPORT''] else [])"
  by (simp add: implied_by_def ROLE_IMPLICATIONS_def)

lemma impliers_of_simp:
  "impliers_of name = (if name \<in> {''ADMIN'', ''PRODUCT_SUPPORT''} then [''DEVELOPER''] else [])"
  by (simp add: impliers_of_def ROLE_IMPLICATIONS_def)

interpretation expand: role_walk implied_by
  by unfold_locales (auto simp: implied_by_simp split: if_splits)

interpretation audience: role_walk impliers_of
  by unfold_locales (auto simp: impliers_of_simp split: if_splits)

lemma expandRoles_walk: "expandRoles names = walk_names implied_by names []"
  by (simp add: expandRoles_def walk_names_def)

lemma expandAudience_walk: "expandAudience names = walk_names impliers_of names []"
  by (simp add: expandAudience_def walk_names_def)

lemma set_expandRoles: "set (expandRoles names) = (\<Union>n \<in> set names. {n} \<union> set (implied_by n))"
  by (simp add: expandRoles_walk set_walk)

lemma set_expandAudience: "set (expandAudience names) = (\<Union>n \<in> set names. {n} \<union> set (impliers_of n))"
  by (simp add: expandAudience_walk set_walk)

lemma implied_iff_implier: "b \<in> set (implied_by a) \<longleftrightarrow> a \<in> set (impliers_of b)"
  by (simp add: implied_by_simp impliers_of_simp)

section \<open>Properties\<close>

text \<open>
  \<^verbatim>\<open>expandRoles\<close> keeps its contract on every list of names: the result holds the names given and
  the roles they imply and nothing else, without duplicates, and expanding again returns the same
  list in the same order. Names that are no built-in role pass through.
\<close>

theorem expandRoles_contract:
  "set (expandRoles names) = set names \<union>
      (if ''DEVELOPER'' \<in> set names then {''ADMIN'', ''PRODUCT_SUPPORT''} else {})
   \<and> distinct (expandRoles names)
   \<and> expandRoles (expandRoles names) = expandRoles names"
proof (intro conjI)
  show "set (expandRoles names) = set names \<union>
      (if ''DEVELOPER'' \<in> set names then {''ADMIN'', ''PRODUCT_SUPPORT''} else {})"
    by (auto simp: set_expandRoles implied_by_simp split: if_splits)
qed (simp_all add: expandRoles_walk distinct_walk expand.walk_idem)

text \<open>
  Gating and addressing are two sides of one relation, and it is one-way: a role passes a gate
  exactly when it is in the audience of the roles the gate admits; so a \<^verbatim>\<open>DEVELOPER\<close> passes every gate
  that admits \<^verbatim>\<open>ADMIN\<close>, and a gate that admits only \<^verbatim>\<open>DEVELOPER\<close> is passed by nobody else.
\<close>

theorem gate_audience_duality:
  "(roleSatisfies role allowed \<longleftrightarrow> role \<in> set (expandAudience allowed))
   \<and> (''ADMIN'' \<in> set allowed \<longrightarrow> roleSatisfies ''DEVELOPER'' allowed)
   \<and> (roleSatisfies role [''DEVELOPER''] \<longleftrightarrow> role = ''DEVELOPER'')"
  by (auto simp: roleSatisfies_def list_ex_iff set_expandRoles set_expandAudience implied_by_simp
      impliers_of_simp split: if_splits)

theorem gate_audience_duality_witness:
  "roleSatisfies ''DEVELOPER'' [''OPERATIONS'', ''ADMIN'']
   \<and> \<not> roleSatisfies ''ADMIN'' [''DEVELOPER'']
   \<and> expandAudience [''ADMIN''] = [''ADMIN'', ''DEVELOPER'']"
  using gate_audience_duality [of "''DEVELOPER''" "[''OPERATIONS'', ''ADMIN'']"]
    gate_audience_duality [of "''ADMIN''" "[]"]
  by (simp add: expandAudience_def impliers_of_simp role_push_def)

end
