(* ===== verification/Audit_Trail.thy ===== *)
theory Audit_Trail
  imports Enums
begin

text \<open>
  The audit trail of \<^verbatim>\<open>packages/backend/src/core/audit\<close>: what a trail entry is (\<^verbatim>\<open>audit-event.ts\<close>),
  how a caller's input is normalised and completed from the request context (\<^verbatim>\<open>audit.service.ts\<close>), how
  it is appended (\<^verbatim>\<open>typeorm-audit.repository.ts\<close>), and the field-level diff that goes into the
  metadata (\<^verbatim>\<open>diff-fields.ts\<close>).

  A JSON value is a tree; a number is kept as the text \<^verbatim>\<open>JSON.stringify\<close> prints for it. A date is kept
  as its ISO text. The database assigns the id and the time of a row: both are arguments, and so is
  the failure of an insert.
\<close>

section \<open>Values\<close>

datatype Json =
    JNull
  | JBool bool
  | JNumber string
  | JString string
  | JArray "Json list"
  | JObject "(string \<times> Json) list"

text \<open>Setting a property of an object keeps its place, or appends it: object spread is a fold of this.\<close>

fun obj_set :: "'k \<Rightarrow> 'v \<Rightarrow> ('k \<times> 'v) list \<Rightarrow> ('k \<times> 'v) list" where
  "obj_set k v [] = [(k, v)]"
| "obj_set k v ((k', v') # kvs) = (if k' = k then (k, v) # kvs else (k', v') # obj_set k v kvs)"

definition obj_spread :: "('k \<times> 'v) list \<Rightarrow> ('k \<times> 'v) list \<Rightarrow> ('k \<times> 'v) list" where
  "obj_spread base extra = fold (\<lambda>(k, v). obj_set k v) extra base"

datatype EventCategory = EC_OPERATIONAL | EC_USER | EC_WORKFLOW | EC_SYSTEM | EC_DATA_ACCESS

primrec eventCategoryValue :: "EventCategory \<Rightarrow> string" where
  "eventCategoryValue EC_OPERATIONAL = ''OPERATIONAL''"
| "eventCategoryValue EC_USER = ''USER''"
| "eventCategoryValue EC_WORKFLOW = ''WORKFLOW''"
| "eventCategoryValue EC_SYSTEM = ''SYSTEM''"
| "eventCategoryValue EC_DATA_ACCESS = ''DATA_ACCESS''"

datatype AuditOutcome = SUCCESS | FAILURE | DENIED

primrec auditOutcomeValue :: "AuditOutcome \<Rightarrow> string" where
  "auditOutcomeValue SUCCESS = ''SUCCESS''"
| "auditOutcomeValue FAILURE = ''FAILURE''"
| "auditOutcomeValue DENIED = ''DENIED''"

definition is_hex :: "char \<Rightarrow> bool" where
  "is_hex c \<longleftrightarrow> is_digit c \<or> (97 \<le> code (lower_char c) \<and> code (lower_char c) \<le> 102)"

text \<open>The regular expression, with its \<^verbatim>\<open>i\<close> flag: 36 characters, dashes at 8, 13, 18 and 23, hex elsewhere.\<close>

definition UUID_PATTERN :: "string \<Rightarrow> bool" where
  "UUID_PATTERN s \<longleftrightarrow> length s = 36
     \<and> list_all (\<lambda>(i, c). if i \<in> {8, 13, 18, 23} then c = CHR ''-'' else is_hex c) (zip [0..<36] s)"

definition NOT_A_RECORD_ENTITY_ID :: string where
  "NOT_A_RECORD_ENTITY_ID = ''00000000-0000-0000-0000-000000000000''"

section \<open>Recording an event\<close>

record RecordAuditEventInput =
  in_category :: EventCategory
  in_eventType :: string
  in_entityType :: string
  in_entityId :: "string option"
  in_previousState :: "string option"
  in_newState :: "string option"
  in_userId :: "string option"
  in_userDisplayName :: "string option"
  in_ipAddress :: "string option"
  in_remarks :: "string option"
  in_metadata :: "(string \<times> Json) list option"
  in_actorRole :: "string option"
  in_userAgent :: "string option"
  in_sessionId :: "string option"
  in_requestId :: "string option"
  in_outcome :: "AuditOutcome option"
  in_before :: "(string \<times> Json) list option"
  in_after :: "(string \<times> Json) list option"

record AuditEvent =
  ae_category :: EventCategory
  ae_eventType :: string
  ae_entityType :: string
  ae_entityId :: string
  ae_previousState :: "string option"
  ae_newState :: "string option"
  ae_userId :: "string option"
  ae_userDisplayName :: "string option"
  ae_ipAddress :: "string option"
  ae_remarks :: "string option"
  ae_metadata :: "(string \<times> Json) list option"
  ae_actorRole :: "string option"
  ae_userAgent :: "string option"
  ae_sessionId :: "string option"
  ae_requestId :: "string option"
  ae_outcome :: AuditOutcome
  ae_before :: "(string \<times> Json) list option"
  ae_after :: "(string \<times> Json) list option"

record RecordedAuditEvent = AuditEvent +
  row_id :: string
  row_occurredAt :: string

record RequestContext =
  ctx_userId :: "string option"
  ctx_role :: "string option"
  ctx_displayName :: "string option"
  ctx_ipAddress :: "string option"
  ctx_userAgent :: "string option"
  ctx_sessionId :: "string option"
  ctx_requestId :: "string option"

definition rejected_id :: "string \<Rightarrow> string option" where
  "rejected_id v = (if \<not> UUID_PATTERN v \<and> v \<noteq> [] then Some v else None)"

definition unresolved_ids :: "string \<Rightarrow> string \<Rightarrow> (string \<times> Json) list" where
  "unresolved_ids actor subject =
     (case rejected_id actor of None \<Rightarrow> [] | Some v \<Rightarrow> [(''unresolvedActor'', JString v)])
     @ (case rejected_id subject of None \<Rightarrow> [] | Some v \<Rightarrow> [(''unresolvedEntityId'', JString v)])"

definition event_metadata :: "RecordAuditEventInput \<Rightarrow> (string \<times> Json) list option" where
  "event_metadata input =
    (let unresolved = unresolved_ids (nullish_value (in_userId input) []) (nullish_value (in_entityId input) [])
     in if unresolved \<noteq> [] then Some (obj_spread (nullish_value (in_metadata input) []) unresolved)
        else in_metadata input)"

definition AuditEvent_record :: "RecordAuditEventInput \<Rightarrow> AuditEvent" where
  "AuditEvent_record input =
    (let actor = nullish_value (in_userId input) [];
         subject = nullish_value (in_entityId input) []
     in \<lparr> ae_category = in_category input,
          ae_eventType = in_eventType input,
          ae_entityType = in_entityType input,
          ae_entityId = (if UUID_PATTERN subject then subject else NOT_A_RECORD_ENTITY_ID),
          ae_previousState = in_previousState input,
          ae_newState = in_newState input,
          ae_userId = (if UUID_PATTERN actor then Some actor else None),
          ae_userDisplayName = in_userDisplayName input,
          ae_ipAddress = in_ipAddress input,
          ae_remarks = in_remarks input,
          ae_metadata = event_metadata input,
          ae_actorRole = in_actorRole input,
          ae_userAgent = in_userAgent input,
          ae_sessionId = in_sessionId input,
          ae_requestId = in_requestId input,
          ae_outcome = nullish_value (in_outcome input) SUCCESS,
          ae_before = in_before input,
          ae_after = in_after input \<rparr>)"

definition enrichFromContext :: "RequestContext option \<Rightarrow> RecordAuditEventInput \<Rightarrow> RecordAuditEventInput" where
  "enrichFromContext context dto =
    (case context of
       None \<Rightarrow> dto
     | Some ctx \<Rightarrow> dto\<lparr>
         in_userId := nullish (in_userId dto) (ctx_userId ctx),
         in_userDisplayName := nullish (in_userDisplayName dto) (ctx_displayName ctx),
         in_ipAddress := nullish (in_ipAddress dto) (ctx_ipAddress ctx),
         in_actorRole := nullish (in_actorRole dto) (ctx_role ctx),
         in_userAgent := nullish (in_userAgent dto) (ctx_userAgent ctx),
         in_sessionId := nullish (in_sessionId dto) (ctx_sessionId ctx),
         in_requestId := nullish (in_requestId dto) (ctx_requestId ctx) \<rparr>)"

text \<open>
  An insert assigns the id and the time. The database accepts only a uuid in the two uuid columns:
  an entry that carried anything else would be lost, which is the failure the normalisation exists
  to exclude.
\<close>

record insert_env =
  env_newId :: string
  env_now :: string
  env_insertFault :: "string option"

definition uuid_columns_ok :: "AuditEvent \<Rightarrow> bool" where
  "uuid_columns_ok e \<longleftrightarrow> UUID_PATTERN (ae_entityId e)
     \<and> (case ae_userId e of None \<Rightarrow> True | Some u \<Rightarrow> UUID_PATTERN u)"

definition audit_row :: "string \<Rightarrow> string \<Rightarrow> AuditEvent \<Rightarrow> RecordedAuditEvent" where
  "audit_row newId now e = AuditEvent.extend e \<lparr> row_id = newId, row_occurredAt = now \<rparr>"

definition append_event :: "insert_env \<Rightarrow> AuditEvent \<Rightarrow> RecordedAuditEvent list
    \<Rightarrow> (string, RecordedAuditEvent list) result" where
  "append_event env e trail =
    (case env_insertFault env of
       Some err \<Rightarrow> Inl err
     | None \<Rightarrow> if uuid_columns_ok e then Inr (trail @ [audit_row (env_newId env) (env_now env) e])
               else Inl ''invalid input syntax for type uuid'')"

definition recordEvent :: "insert_env \<Rightarrow> RequestContext option \<Rightarrow> RecordAuditEventInput
    \<Rightarrow> RecordedAuditEvent list \<Rightarrow> (string, RecordedAuditEvent list) result" where
  "recordEvent env context dto trail =
     append_event env (AuditEvent_record (enrichFromContext context dto)) trail"

definition recordEventSafe :: "insert_env \<Rightarrow> RequestContext option \<Rightarrow> RecordAuditEventInput
    \<Rightarrow> RecordedAuditEvent list \<Rightarrow> RecordedAuditEvent list" where
  "recordEventSafe env context dto trail =
     (case recordEvent env context dto trail of Inl _ \<Rightarrow> trail | Inr trail' \<Rightarrow> trail')"

section \<open>Field-level differences\<close>

text \<open>
  A field read from a record is absent, null, or a value with a string form. \<^verbatim>\<open>before\<close> and \<^verbatim>\<open>after\<close>
  are the look-ups of the fields.
\<close>

datatype field_value = FUndefined | FNull | FValue string

record DiffFieldSpec =
  spec_key :: string
  spec_label :: string
  spec_sensitive :: bool

record FieldDiffEntry =
  diff_field :: string
  diff_label :: string
  diff_fromValue :: "string option"
  diff_toValue :: "string option"

fun field_stringify :: "field_value \<Rightarrow> string option" where
  "field_stringify (FValue s) = Some s"
| "field_stringify _ = None"

fun maskToLast4 :: "string option \<Rightarrow> string option" where
  "maskToLast4 None = None"
| "maskToLast4 (Some v) =
     Some (if length v \<le> 4 then replicate (length v) CHR ''*''
           else replicate (length v - 4) CHR ''*'' @ drop (length v - 4) v)"

fun diffFields :: "(string \<Rightarrow> field_value) \<Rightarrow> (string \<Rightarrow> field_value) \<Rightarrow> DiffFieldSpec list
    \<Rightarrow> FieldDiffEntry list" where
  "diffFields before after [] = []"
| "diffFields before after (spec # specs) =
    (let incoming = after (spec_key spec);
         fromValue = field_stringify (before (spec_key spec));
         toValue = field_stringify incoming
     in if incoming = FUndefined then diffFields before after specs
        else if fromValue = toValue then diffFields before after specs
        else \<lparr> diff_field = spec_key spec, diff_label = spec_label spec,
               diff_fromValue = (if spec_sensitive spec then maskToLast4 fromValue else fromValue),
               diff_toValue = (if spec_sensitive spec then maskToLast4 toValue else toValue) \<rparr>
             # diffFields before after specs)"

section \<open>Lemmas\<close>

lemma map_of_obj_set: "map_of (obj_set k v kvs) = (map_of kvs)(k \<mapsto> v)"
  by (induction k v kvs rule: obj_set.induct) auto

lemma map_of_obj_spread: "map_of (obj_spread base extra) k
    = (case map_of (rev extra) k of Some v \<Rightarrow> Some v | None \<Rightarrow> map_of base k)"
proof (induction extra arbitrary: base)
  case (Cons e extra)
  obtain k' v' where "e = (k', v')" by (cases e)
  with Cons.IH [of "obj_set k' v' base"] show ?case
    by (auto simp: obj_spread_def map_of_obj_set map_add_def split: option.splits)
qed (simp add: obj_spread_def)

lemma uuid_nil: "UUID_PATTERN NOT_A_RECORD_ENTITY_ID"
  by (simp add: UUID_PATTERN_def NOT_A_RECORD_ENTITY_ID_def upt_conv_Cons is_hex_def is_digit_def code_def)

lemma record_uuid_columns: "uuid_columns_ok (AuditEvent_record input)"
  by (simp add: uuid_columns_ok_def AuditEvent_record_def Let_def uuid_nil split: option.split)

lemma diffFields_iff:
  "d \<in> set (diffFields before after specs) \<longleftrightarrow>
    (\<exists>spec \<in> set specs. after (spec_key spec) \<noteq> FUndefined
       \<and> field_stringify (before (spec_key spec)) \<noteq> field_stringify (after (spec_key spec))
       \<and> d = \<lparr> diff_field = spec_key spec, diff_label = spec_label spec,
               diff_fromValue = (if spec_sensitive spec then maskToLast4 else id)
                  (field_stringify (before (spec_key spec))),
               diff_toValue = (if spec_sensitive spec then maskToLast4 else id)
                  (field_stringify (after (spec_key spec))) \<rparr>)"
  by (induction before after specs rule: diffFields.induct) (auto simp: Let_def)

lemma recordEvent_cases:
  "recordEvent env context dto trail =
    (case env_insertFault env of
       Some err \<Rightarrow> Inl err
     | None \<Rightarrow> Inr (trail @ [audit_row (env_newId env) (env_now env)
                       (AuditEvent_record (enrichFromContext context dto))]))"
  by (simp add: recordEvent_def append_event_def record_uuid_columns split: option.split)

section \<open>Properties\<close>

text \<open>
  No trail entry is lost to a malformed identifier: whatever actor and subject a caller names,
  the recorded entry satisfies the uuid columns, so unless the database itself fails the append
  succeeds and adds exactly one row at the end; a rejected actor or subject is kept in the metadata,
  and every other metadata key keeps the value the caller gave.
\<close>

theorem audit_entry_never_lost:
  assumes "env_insertFault env = None"
  shows "(\<exists>row. recordEvent env context dto trail = Inr (trail @ [row]) \<and> row_id row = env_newId env)
    \<and> uuid_columns_ok (AuditEvent_record dto)
    \<and> (\<forall>a. in_userId dto = Some a \<and> a \<noteq> [] \<and> \<not> UUID_PATTERN a \<longrightarrow>
         (\<exists>m. ae_metadata (AuditEvent_record dto) = Some m \<and> map_of m ''unresolvedActor'' = Some (JString a)))
    \<and> (\<forall>s. in_entityId dto = Some s \<and> s \<noteq> [] \<and> \<not> UUID_PATTERN s \<longrightarrow>
         (\<exists>m. ae_metadata (AuditEvent_record dto) = Some m \<and> map_of m ''unresolvedEntityId'' = Some (JString s)))
    \<and> (\<forall>k v m. in_metadata dto = Some m \<and> k \<notin> {''unresolvedActor'', ''unresolvedEntityId''}
          \<and> map_of m k = Some v \<longrightarrow>
         (\<exists>m'. ae_metadata (AuditEvent_record dto) = Some m' \<and> map_of m' k = Some v))"
proof (intro conjI allI impI)
  show "\<exists>row. recordEvent env context dto trail = Inr (trail @ [row]) \<and> row_id row = env_newId env"
    using assms by (simp add: recordEvent_cases audit_row_def AuditEvent.extend_def)
  show "uuid_columns_ok (AuditEvent_record dto)" by (rule record_uuid_columns)
qed (auto simp: AuditEvent_record_def event_metadata_def Let_def
      unresolved_ids_def rejected_id_def map_of_obj_spread split: option.splits)

definition sample_input :: RecordAuditEventInput where
  "sample_input =
    \<lparr> in_category = EC_SYSTEM, in_eventType = ''SETTING_CHANGED'', in_entityType = ''SETTING'',
      in_entityId = Some ''email.transport'', in_previousState = None, in_newState = None,
      in_userId = Some ''system'', in_userDisplayName = None, in_ipAddress = None, in_remarks = None,
      in_metadata = Some [(''key'', JString ''transport'')], in_actorRole = None, in_userAgent = None,
      in_sessionId = None, in_requestId = None, in_outcome = None, in_before = None, in_after = None \<rparr>"

theorem audit_entry_never_lost_witness:
  "(\<exists>row. recordEvent \<lparr> env_newId = ''e1'', env_now = ''2026-01-01'', env_insertFault = None \<rparr> None sample_input []
      = Inr [row] \<and> row_id row = ''e1'')
   \<and> ae_metadata (AuditEvent_record sample_input)
       = Some [(''key'', JString ''transport''), (''unresolvedActor'', JString ''system''),
               (''unresolvedEntityId'', JString ''email.transport'')]"
proof
  have "env_insertFault \<lparr> env_newId = ''e1'', env_now = ''2026-01-01'', env_insertFault = None \<rparr> = None"
    by simp
  from audit_entry_never_lost [OF this, of None sample_input "[]"]
  show "\<exists>row. recordEvent \<lparr> env_newId = ''e1'', env_now = ''2026-01-01'', env_insertFault = None \<rparr> None
      sample_input [] = Inr [row] \<and> row_id row = ''e1''" by simp
qed (simp add: sample_input_def AuditEvent_record_def event_metadata_def unresolved_ids_def rejected_id_def
    UUID_PATTERN_def obj_spread_def Let_def)

text \<open>
  The field-level diff reports exactly the fields that were sent and whose text changed, and a
  sensitive field never shows more than its last four characters: each side keeps its length, and
  every character outside the last four is a star (all of them when there are at most four).
\<close>

theorem diff_exact_and_masked:
  "(map diff_field (diffFields before after specs)
      = map spec_key (filter (\<lambda>s. after (spec_key s) \<noteq> FUndefined
           \<and> field_stringify (before (spec_key s)) \<noteq> field_stringify (after (spec_key s))) specs))
   \<and> (\<forall>v i. i < length v \<and> (i + 4 < length v \<or> length v \<le> 4) \<longrightarrow>
        the (maskToLast4 (Some v)) ! i = CHR ''*'' \<and> length (the (maskToLast4 (Some v))) = length v)
   \<and> (\<forall>d \<in> set (diffFields before after specs). (\<forall>s \<in> set specs. spec_key s = diff_field d \<longrightarrow> spec_sensitive s) \<longrightarrow>
        diff_fromValue d = maskToLast4 (field_stringify (before (diff_field d)))
        \<and> diff_toValue d = maskToLast4 (field_stringify (after (diff_field d))))"
proof (intro conjI allI impI ballI)
  show "map diff_field (diffFields before after specs)
      = map spec_key (filter (\<lambda>s. after (spec_key s) \<noteq> FUndefined
           \<and> field_stringify (before (spec_key s)) \<noteq> field_stringify (after (spec_key s))) specs)"
    by (induction before after specs rule: diffFields.induct) (simp_all add: Let_def)
qed (auto simp: diffFields_iff nth_append)

theorem diff_exact_and_masked_witness:
  "diffFields (\<lambda>k. FValue ''ABCDE1234F'') (\<lambda>k. FValue ''ABCDE1234G'')
      [\<lparr> spec_key = ''pan'', spec_label = ''PAN'', spec_sensitive = True \<rparr>]
    = [\<lparr> diff_field = ''pan'', diff_label = ''PAN'', diff_fromValue = Some ''******234F'',
         diff_toValue = Some ''******234G'' \<rparr>]
   \<and> the (maskToLast4 (Some ''ABCDE1234F'')) ! 5 = CHR ''*''"
  using diff_exact_and_masked by (simp add: Let_def)

end
