(* ===== verification/Graph_Search.thy ===== *)
theory Graph_Search
  imports Prelude
begin

text \<open>
  The breadth-first search that \<^verbatim>\<open>assayer-lifecycle.ts\<close> runs three times (once in
  \<^verbatim>\<open>assayerLifecyclePath\<close>, twice in \<^verbatim>\<open>assayerLifecycleBlockedBy\<close>): a FIFO queue of states with the
  path that led to them, a set of states already queued, a return at the first edge that enters the
  goal, and a test that stops a state from being walked through. The loop is kept as it is written;
  the lemmas show that it ends, that it returns an admissible path, that the path is a shortest one,
  and that it returns nothing only when there is none.
\<close>

section \<open>The loop\<close>

fun visit :: "('a \<Rightarrow> bool) \<Rightarrow> ('a \<Rightarrow> bool) \<Rightarrow> 'a list \<Rightarrow> 'a list \<Rightarrow> 'a list \<Rightarrow> ('a \<times> 'a list) list
    \<Rightarrow> 'a list + ('a list \<times> ('a \<times> 'a list) list)" where
  "visit goal skip path [] seen queue = Inr (seen, queue)"
| "visit goal skip path (next # ns) seen queue =
     (if next \<in> set seen then visit goal skip path ns seen queue
      else if goal next then Inl (path @ [next])
      else if skip next then visit goal skip path ns seen queue
      else visit goal skip path ns (seen @ [next]) (queue @ [(next, path @ [next])]))"

definition open_node :: "('a \<Rightarrow> bool) \<Rightarrow> ('a \<Rightarrow> bool) \<Rightarrow> 'a \<Rightarrow> bool" where
  "open_node goal skip n \<longleftrightarrow> \<not> goal n \<and> \<not> skip n"

lemma visit_Inr:
  "visit goal skip path ns seen q = Inr (seen', q') \<Longrightarrow>
   \<exists>news. q' = q @ map (\<lambda>n. (n, path @ [n])) news \<and> seen' = seen @ news
     \<and> set news \<subseteq> {n \<in> set ns. n \<notin> set seen \<and> open_node goal skip n}
     \<and> distinct news \<and> set news \<inter> set seen = {}
     \<and> (\<forall>n \<in> set ns. n \<in> set seen \<or> (\<not> goal n \<and> (skip n \<or> n \<in> set news)))"
proof (induction goal skip path ns seen q rule: visit.induct)
  case (2 goal skip path n ns seen q)
  show ?case
  proof (cases "n \<in> set seen \<or> skip n")
    case True
    with 2 show ?thesis by (auto split: if_splits)
  next
    case False
    with "2.prems" have "\<not> goal n"
      and "visit goal skip path ns (seen @ [n]) (q @ [(n, path @ [n])]) = Inr (seen', q')"
      by (auto split: if_splits)
    with "2.IH"(3) False obtain news where
      "q' = (q @ [(n, path @ [n])]) @ map (\<lambda>m. (m, path @ [m])) news"
      "seen' = (seen @ [n]) @ news"
      "set news \<subseteq> {m \<in> set ns. m \<notin> set (seen @ [n]) \<and> open_node goal skip m}"
      "distinct news" "set news \<inter> set (seen @ [n]) = {}"
      "\<forall>m \<in> set ns. m \<in> set (seen @ [n]) \<or> (\<not> goal m \<and> (skip m \<or> m \<in> set news))"
      by blast
    with \<open>\<not> goal n\<close> False show ?thesis
      by (intro exI [of _ "n # news"]) (auto simp: open_node_def)
  qed
qed simp

lemma visit_Inl:
  "visit goal skip path ns seen q = Inl p \<Longrightarrow>
   \<exists>g \<in> set ns. g \<notin> set seen \<and> goal g \<and> p = path @ [g]"
  by (induction goal skip path ns seen q rule: visit.induct) (auto split: if_splits)

function bfs :: "('a::finite \<Rightarrow> 'a list) \<Rightarrow> ('a \<Rightarrow> bool) \<Rightarrow> ('a \<Rightarrow> bool) \<Rightarrow> ('a \<times> 'a list) list \<Rightarrow> 'a list
    \<Rightarrow> 'a list option" where
  "bfs succs goal skip [] seen = None"
| "bfs succs goal skip ((state, path) # queue) seen =
     (case visit goal skip path (succs state) seen queue of
        Inl p \<Rightarrow> Some p
      | Inr (seen', queue') \<Rightarrow> bfs succs goal skip queue' seen')"
  by pat_completeness auto

lemma card_unseen_decreases:
  assumes "set news \<inter> set seen = {}" and "news \<noteq> []"
  shows "card (UNIV - set (seen @ news)) < card (UNIV - set (seen :: 'a::finite list))"
proof (rule psubset_card_mono)
  obtain n where "n \<in> set news" using \<open>news \<noteq> []\<close> by (cases news) auto
  with assms(1) have "n \<notin> set seen" by blast
  with \<open>n \<in> set news\<close> show "UNIV - set (seen @ news) \<subset> UNIV - set seen" by auto
qed simp

termination bfs
proof (relation "measures [\<lambda>(succs, goal, skip, queue, seen). card (UNIV - set seen),
    \<lambda>(succs, goal, skip, queue, seen). length queue]", goal_cases)
  case (2 succs goal skip state path queue seen y seen' queue')
  then obtain news where q: "queue' = queue @ map (\<lambda>n. (n, path @ [n])) news"
    and s: "seen' = seen @ news" and new: "set news \<inter> set seen = {}"
    using visit_Inr [of goal skip path "succs state" seen queue seen' queue'] by auto
  show ?case
  proof (cases "news = []")
    case True
    with q s show ?thesis by simp
  next
    case False
    with card_unseen_decreases [OF new] s show ?thesis by simp
  qed
qed simp

section \<open>Admissible walks\<close>

text \<open>\<open>walk succs s p\<close>: \<open>p\<close> lists the states entered, one edge at a time, starting from \<open>s\<close>.\<close>

fun walk :: "('a \<Rightarrow> 'a list) \<Rightarrow> 'a \<Rightarrow> 'a list \<Rightarrow> bool" where
  "walk succs s [] = True"
| "walk succs s (n # ns) = (n \<in> set (succs s) \<and> walk succs n ns)"

definition admissible :: "('a \<Rightarrow> 'a list) \<Rightarrow> ('a \<Rightarrow> bool) \<Rightarrow> ('a \<Rightarrow> bool) \<Rightarrow> 'a \<Rightarrow> 'a list \<Rightarrow> bool" where
  "admissible succs goal skip s p \<longleftrightarrow>
     walk succs s p \<and> p \<noteq> [] \<and> goal (last p) \<and> list_all (open_node goal skip) (butlast p)"

definition corridor :: "('a \<Rightarrow> 'a list) \<Rightarrow> ('a \<Rightarrow> bool) \<Rightarrow> ('a \<Rightarrow> bool) \<Rightarrow> 'a \<Rightarrow> 'a list \<Rightarrow> bool" where
  "corridor succs goal skip s p \<longleftrightarrow> walk succs s p \<and> list_all (open_node goal skip) p"

lemma walk_append: "walk succs s (p @ q) \<longleftrightarrow> walk succs s p \<and> walk succs (last (s # p)) q"
  by (induction p arbitrary: s) auto

lemma corridor_snoc:
  "corridor succs goal skip s (p @ [n]) \<longleftrightarrow>
   corridor succs goal skip s p \<and> n \<in> set (succs (last (s # p))) \<and> open_node goal skip n"
  by (auto simp: corridor_def walk_append)

lemma corridor_Nil [simp]: "corridor succs goal skip s []"
  by (simp add: corridor_def)

lemma admissible_iff_corridor:
  "admissible succs goal skip s p \<longleftrightarrow>
   (\<exists>q g. p = q @ [g] \<and> corridor succs goal skip s q \<and> g \<in> set (succs (last (s # q))) \<and> goal g)"
proof
  assume adm: "admissible succs goal skip s p"
  then have "p = butlast p @ [last p]" by (simp add: admissible_def)
  with adm show "\<exists>q g. p = q @ [g] \<and> corridor succs goal skip s q
      \<and> g \<in> set (succs (last (s # q))) \<and> goal g"
    unfolding admissible_def corridor_def
    by (intro exI [of _ "butlast p"] exI [of _ "last p"]) (metis walk.simps(2) walk_append)
next
  assume "\<exists>q g. p = q @ [g] \<and> corridor succs goal skip s q
      \<and> g \<in> set (succs (last (s # q))) \<and> goal g"
  then show "admissible succs goal skip s p"
    by (auto simp: admissible_def corridor_def walk_append)
qed

section \<open>The invariant of the loop\<close>

text \<open>
  Every queued state carries a shortest corridor to it, the queue is ordered by length within one
  level, and a state that has left the queue has had all its successors looked at.
\<close>

definition bfs_inv :: "('a \<Rightarrow> 'a list) \<Rightarrow> ('a \<Rightarrow> bool) \<Rightarrow> ('a \<Rightarrow> bool) \<Rightarrow> 'a
    \<Rightarrow> ('a \<times> 'a list) list \<Rightarrow> 'a list \<Rightarrow> bool" where
  "bfs_inv succs goal skip s0 q seen \<longleftrightarrow>
     s0 \<in> set seen
   \<and> (\<forall>(n, p) \<in> set q. corridor succs goal skip s0 p \<and> last (s0 # p) = n \<and> n \<in> set seen)
   \<and> sorted (map (length \<circ> snd) q)
   \<and> (\<forall>(n, p) \<in> set q. length p \<le> Suc (length (snd (hd q))))
   \<and> (\<forall>x \<in> set seen. x \<in> fst ` set q
        \<or> (\<forall>n \<in> set (succs x). \<not> goal n \<and> (skip n \<or> n \<in> set seen)))
   \<and> (\<forall>(n, p) \<in> set q. \<forall>p'. corridor succs goal skip s0 p' \<longrightarrow> last (s0 # p') = n \<longrightarrow> length p \<le> length p')
   \<and> (\<forall>x \<in> set seen. \<not> goal x)"

lemma bfs_inv_init: "\<not> goal s0 \<Longrightarrow> bfs_inv succs goal skip s0 [(s0, [])] [s0]"
  by (simp add: bfs_inv_def)

text \<open>A corridor that ends outside the seen states leaves them through a queued one.\<close>

lemma leaves_through_queue:
  assumes inv: "bfs_inv succs goal skip s0 q seen"
    and "corridor succs goal skip s0 p" and "last (s0 # p) \<notin> set seen"
  shows "\<exists>n p'. (n, p') \<in> set q \<and> length p' < length p"
  using assms(2,3)
proof (induction p rule: rev_induct)
  case Nil
  with inv show ?case by (simp add: bfs_inv_def)
next
  case (snoc x p)
  let ?y = "last (s0 # p)"
  from snoc.prems have cor: "corridor succs goal skip s0 p" and x: "x \<in> set (succs ?y)"
    "open_node goal skip x" "x \<notin> set seen"
    by (simp_all only: corridor_snoc) auto
  show ?case
  proof (cases "?y \<in> set seen")
    case True
    with inv x have "?y \<in> fst ` set q"
      unfolding bfs_inv_def open_node_def by blast
    then obtain p' where "(?y, p') \<in> set q" by auto
    with inv cor have "length p' \<le> length p"
      unfolding bfs_inv_def by blast
    then have "length p' < length (p @ [x])" by simp
    with \<open>(?y, p') \<in> set q\<close> show ?thesis by blast
  next
    case False
    with snoc.IH cor obtain n p' where "(n, p') \<in> set q" "length p' < length p" by blast
    moreover from this have "length p' < length (p @ [x])" by simp
    ultimately show ?thesis by blast
  qed
qed

text \<open>The same, for a corridor whose end has a successor that is the goal.\<close>

lemma goal_behind_queue:
  assumes inv: "bfs_inv succs goal skip s0 q seen"
    and adm: "admissible succs goal skip s0 p"
  shows "\<exists>n p'. (n, p') \<in> set q \<and> Suc (length p') \<le> length p"
proof -
  obtain c g where p: "p = c @ [g]" and cor: "corridor succs goal skip s0 c"
    and g: "g \<in> set (succs (last (s0 # c)))" "goal g"
    using adm by (auto simp: admissible_iff_corridor)
  show ?thesis
  proof (cases "last (s0 # c) \<in> set seen")
    case True
    with inv g have "last (s0 # c) \<in> fst ` set q"
      unfolding bfs_inv_def by blast
    then obtain p' where "(last (s0 # c), p') \<in> set q" by auto
    moreover from this inv cor have "length p' \<le> length c"
      unfolding bfs_inv_def by blast
    ultimately show ?thesis using p by (metis Suc_le_mono length_append_singleton)
  next
    case False
    from leaves_through_queue [OF inv cor this] p show ?thesis
      by (metis Suc_leI Suc_le_mono length_append_singleton less_Suc_eq_le less_imp_le)
  qed
qed

lemma head_shortest:
  assumes "bfs_inv succs goal skip s0 ((n, p) # q) seen" and "(m, p') \<in> set ((n, p) # q)"
  shows "length p \<le> length p'"
  using assms by (auto simp: bfs_inv_def)

text \<open>One iteration keeps the invariant.\<close>

lemma bfs_inv_step:
  assumes inv: "bfs_inv succs goal skip s0 ((s, path) # q) seen"
    and vis: "visit goal skip path (succs s) seen q = Inr (seen', q')"
  shows "bfs_inv succs goal skip s0 q' seen'"
proof -
  obtain news where q': "q' = q @ map (\<lambda>n. (n, path @ [n])) news" and seen': "seen' = seen @ news"
    and news: "set news \<subseteq> {n \<in> set (succs s). n \<notin> set seen \<and> open_node goal skip n}"
    and look: "\<forall>n \<in> set (succs s). n \<in> set seen \<or> (\<not> goal n \<and> (skip n \<or> n \<in> set news))"
    using visit_Inr [OF vis] by blast
  have path: "corridor succs goal skip s0 path" "last (s0 # path) = s"
    using inv by (auto simp: bfs_inv_def)
  have new_cor: "corridor succs goal skip s0 (path @ [n])" if "n \<in> set news" for n
    using that news path by (auto simp: corridor_snoc)
  have new_min: "length (path @ [n]) \<le> length p'"
    if "n \<in> set news" "corridor succs goal skip s0 p'" "last (s0 # p') = n" for n p'
  proof -
    from that news have "last (s0 # p') \<notin> set seen" by auto
    from leaves_through_queue [OF inv that(2) this]
    obtain m pm where "(m, pm) \<in> set ((s, path) # q)" "length pm < length p'" by auto
    with head_shortest [OF inv] show ?thesis by fastforce
  qed
  have q_le: "length p \<le> Suc (length path)" if "(n, p) \<in> set q" for n p
    using inv that by (auto simp: bfs_inv_def)
  have q_ge: "length path \<le> length p" if "(n, p) \<in> set q" for n p
    using head_shortest [OF inv, of n p] that by simp
  have srt: "sorted (map (length \<circ> snd) q')"
    using inv q_le unfolding q' by (auto simp: bfs_inv_def sorted_append sorted_map)
  have lvl: "\<forall>(n, p) \<in> set q'. length p \<le> Suc (length (snd (hd q')))"
  proof (cases q)
    case Nil
    then show ?thesis unfolding q' by (cases news) auto
  next
    case (Cons a q1)
    then have "length path \<le> length (snd a)" using q_ge [of "fst a" "snd a"] by simp
    then show ?thesis unfolding q' using Cons q_le by fastforce
  qed
  have closed: "\<forall>x \<in> set seen'. x \<in> fst ` set q'
        \<or> (\<forall>n \<in> set (succs x). \<not> goal n \<and> (skip n \<or> n \<in> set seen'))"
  proof
    fix x assume "x \<in> set seen'"
    then consider "x \<in> set news" | "x = s" | "x \<in> set seen" "x \<noteq> s" unfolding seen' by auto
    then show "x \<in> fst ` set q' \<or> (\<forall>n \<in> set (succs x). \<not> goal n \<and> (skip n \<or> n \<in> set seen'))"
    proof cases
      case 1
      then show ?thesis unfolding q' by (force simp: image_iff)
    next
      case 2
      have "\<forall>n \<in> set (succs s). \<not> goal n \<and> (skip n \<or> n \<in> set seen')"
        using look inv unfolding seen' bfs_inv_def by auto
      with 2 show ?thesis by blast
    next
      case 3
      with inv have "x \<in> fst ` set q \<or> (\<forall>n \<in> set (succs x). \<not> goal n \<and> (skip n \<or> n \<in> set seen))"
        unfolding bfs_inv_def by auto
      then show ?thesis unfolding q' seen' by auto
    qed
  qed
  have ends: "\<forall>(n, p) \<in> set q'. corridor succs goal skip s0 p \<and> last (s0 # p) = n \<and> n \<in> set seen'"
    using inv new_cor unfolding q' seen' bfs_inv_def by auto
  have min1: "length p \<le> length p'"
    if np: "(n, p) \<in> set q'" and c: "corridor succs goal skip s0 p'" "last (s0 # p') = n" for n p p'
  proof -
    from np consider "(n, p) \<in> set q" | "n \<in> set news" "p = path @ [n]" unfolding q' by auto
    then show ?thesis
    proof cases
      case 1
      with inv c show ?thesis unfolding bfs_inv_def by auto
    next
      case 2
      with new_min c show ?thesis by blast
    qed
  qed
  have mins: "\<forall>(n, p) \<in> set q'. \<forall>p'. corridor succs goal skip s0 p' \<longrightarrow> last (s0 # p') = n
      \<longrightarrow> length p \<le> length p'"
    using min1 by blast
  have "\<forall>x \<in> set seen'. \<not> goal x" and "s0 \<in> set seen'"
    using inv news unfolding seen' bfs_inv_def open_node_def by auto
  with srt lvl closed ends mins show ?thesis unfolding bfs_inv_def by blast
qed

section \<open>What the search returns\<close>

lemma bfs_Some:
  assumes "bfs succs goal skip q seen = Some p" and "bfs_inv succs goal skip s0 q seen"
  shows "admissible succs goal skip s0 p
    \<and> (\<forall>p'. admissible succs goal skip s0 p' \<longrightarrow> length p \<le> length p')"
  using assms
proof (induction succs goal skip q seen rule: bfs.induct)
  case (2 succs goal skip s path q seen)
  show ?case
  proof (cases "visit goal skip path (succs s) seen q")
    case (Inl r)
    with "2.prems"(1) have p: "p = r" by simp
    obtain g where g: "g \<in> set (succs s)" "goal g" "r = path @ [g]"
      using visit_Inl [OF Inl] by blast
    have path: "corridor succs goal skip s0 path" "last (s0 # path) = s"
      using "2.prems"(2) by (auto simp: bfs_inv_def)
    have "admissible succs goal skip s0 p"
      using g path p by (auto simp: admissible_iff_corridor)
    moreover have "length p \<le> length p'" if adm: "admissible succs goal skip s0 p'" for p'
    proof -
      obtain n pn where "(n, pn) \<in> set ((s, path) # q)" "Suc (length pn) \<le> length p'"
        using goal_behind_queue [OF "2.prems"(2) adm] by auto
      with head_shortest [OF "2.prems"(2)] show ?thesis using p g(3) by fastforce
    qed
    ultimately show ?thesis by blast
  next
    case (Inr sq)
    obtain seen' q' where sq: "sq = (seen', q')" by (cases sq)
    have "bfs_inv succs goal skip s0 q' seen'"
      using bfs_inv_step [OF "2.prems"(2)] Inr sq by simp
    with "2.IH" Inr sq "2.prems"(1) show ?thesis by simp
  qed
qed simp

lemma bfs_None:
  assumes "bfs succs goal skip q seen = None" and "bfs_inv succs goal skip s0 q seen"
  shows "\<not> admissible succs goal skip s0 p"
  using assms
proof (induction succs goal skip q seen rule: bfs.induct)
  case (1 succs goal skip seen)
  then show ?case using goal_behind_queue by fastforce
next
  case (2 succs goal skip s path q seen)
  then obtain seen' q' where vis: "visit goal skip path (succs s) seen q = Inr (seen', q')"
    by (auto split: sum.splits)
  with 2 bfs_inv_step [OF "2.prems"(2) vis] show ?case by simp
qed

theorem bfs_shortest:
  assumes "\<not> goal s" and "bfs succs goal skip [(s, [])] [s] = Some p"
  shows "admissible succs goal skip s p
    \<and> (\<forall>p'. admissible succs goal skip s p' \<longrightarrow> length p \<le> length p')"
  using bfs_Some [OF assms(2) bfs_inv_init [of goal s, OF assms(1)]] .

theorem bfs_complete:
  assumes "\<not> goal s"
  shows "bfs succs goal skip [(s, [])] [s] = None \<longleftrightarrow> (\<nexists>p. admissible succs goal skip s p)"
proof
  assume "bfs succs goal skip [(s, [])] [s] = None"
  from bfs_None [OF this bfs_inv_init [of goal s, OF assms]]
  show "\<nexists>p. admissible succs goal skip s p" by blast
next
  assume none: "\<nexists>p. admissible succs goal skip s p"
  show "bfs succs goal skip [(s, [])] [s] = None"
  proof (rule ccontr)
    assume "bfs succs goal skip [(s, [])] [s] \<noteq> None"
    then obtain p where "bfs succs goal skip [(s, [])] [s] = Some p" by blast
    from bfs_shortest [of goal s, OF assms this] none show False by blast
  qed
qed

end
