(* ===== verification/Assayer_Lifecycle.thy ===== *)
theory Assayer_Lifecycle
  imports Transition_Tables Graph_Search
begin

text \<open>
  \<^verbatim>\<open>packages/shared/src/assayer-lifecycle.ts\<close>: the life cycle of an assayer, the joining stages, the
  re-open rules, the path finder behind the bulk move, and the explanation of a refused bulk move.

  The functions of the source take plain strings. A string is either the value of a life-cycle status
  (\<open>Lc s\<close>) or some other text (\<open>LcOther t\<close>); a missing argument is \<open>None\<close>. The sentences of
  \<^verbatim>\<open>ONBOARDING_NEXT_STEP\<close> are not represented.
\<close>

section \<open>The table and its look-ups\<close>

datatype lc_string = Lc AssayerLifecycleStatus | LcOther string

fun lc_truthy :: "lc_string option \<Rightarrow> bool" where
  "lc_truthy None = False"
| "lc_truthy (Some (LcOther t)) = (t \<noteq> [])"
| "lc_truthy (Some (Lc s)) = True"

datatype AssayerUnavailableReason =
    REJECTED_BY_US
  | NOT_INTERESTED
  | DECEASED
  | MOVED_ABROAD
  | NO_WORK_IN_AREA
  | MOVED_TO_COMPANY
  | BGV_FAILED
  | APPROVAL_REJECTED

primrec unavailableReasonValue :: "AssayerUnavailableReason \<Rightarrow> string" where
  "unavailableReasonValue REJECTED_BY_US = ''REJECTED_BY_US''"
| "unavailableReasonValue NOT_INTERESTED = ''NOT_INTERESTED''"
| "unavailableReasonValue DECEASED = ''DECEASED''"
| "unavailableReasonValue MOVED_ABROAD = ''MOVED_ABROAD''"
| "unavailableReasonValue NO_WORK_IN_AREA = ''NO_WORK_IN_AREA''"
| "unavailableReasonValue MOVED_TO_COMPANY = ''MOVED_TO_COMPANY''"
| "unavailableReasonValue BGV_FAILED = ''BGV_FAILED''"
| "unavailableReasonValue APPROVAL_REJECTED = ''APPROVAL_REJECTED''"

definition ASSAYER_LIFECYCLE_TRANSITIONS :: "AssayerLifecycleStatus TransitionMap" where
  "ASSAYER_LIFECYCLE_TRANSITIONS =
    [(LC_INVITED, [LC_DOCUMENT_VERIFICATION, LC_ARCHIVED]),
     (LC_DOCUMENT_VERIFICATION, [LC_BACKGROUND_VERIFICATION, LC_INACTIVE, LC_ARCHIVED]),
     (LC_BACKGROUND_VERIFICATION, [LC_FINAL_APPROVAL, LC_INACTIVE]),
     (LC_FINAL_APPROVAL, [LC_TRAINING, LC_ACTIVE, LC_INACTIVE]),
     (LC_TRAINING, [LC_ACTIVE, LC_INACTIVE]),
     (LC_ACTIVE, [LC_ON_LEAVE, LC_SUSPENDED, LC_INACTIVE, LC_RESIGNED]),
     (LC_ON_LEAVE, [LC_ACTIVE, LC_INACTIVE]),
     (LC_SUSPENDED, [LC_ACTIVE, LC_TERMINATED]),
     (LC_INACTIVE, [LC_ACTIVE, LC_BACKGROUND_VERIFICATION, LC_FINAL_APPROVAL, LC_ARCHIVED]),
     (LC_RESIGNED, [LC_INVITED, LC_ARCHIVED]),
     (LC_TERMINATED, [LC_INVITED, LC_ARCHIVED])]"

definition lifecycle_moves :: "AssayerLifecycleStatus \<Rightarrow> AssayerLifecycleStatus list" where
  "lifecycle_moves s = (case map_of ASSAYER_LIFECYCLE_TRANSITIONS s of None \<Rightarrow> [] | Some ts \<Rightarrow> ts)"

fun moves_from :: "lc_string \<Rightarrow> AssayerLifecycleStatus list" where
  "moves_from (Lc s) = lifecycle_moves s"
| "moves_from (LcOther t) = []"

definition ASSAYER_TERMINAL_LIFECYCLE :: "AssayerLifecycleStatus list" where
  "ASSAYER_TERMINAL_LIFECYCLE = [LC_ARCHIVED]"

definition ONBOARDING_STAGES :: "AssayerLifecycleStatus list" where
  "ONBOARDING_STAGES =
    [LC_INVITED, LC_DOCUMENT_VERIFICATION, LC_BACKGROUND_VERIFICATION, LC_FINAL_APPROVAL, LC_TRAINING]"

fun isOnboardingStage :: "lc_string option \<Rightarrow> bool" where
  "isOnboardingStage (Some (Lc s)) = (s \<in> set ONBOARDING_STAGES)"
| "isOnboardingStage _ = False"

fun indexOf :: "'a list \<Rightarrow> 'a \<Rightarrow> nat" where
  "indexOf [] y = 0"
| "indexOf (x # xs) y = (if x = y then 0 else Suc (indexOf xs y))"

definition reopenTargetFor :: "string option \<Rightarrow> AssayerLifecycleStatus option" where
  "reopenTargetFor unavailableReason =
    (if unavailableReason = Some (unavailableReasonValue BGV_FAILED) then Some LC_BACKGROUND_VERIFICATION
     else if unavailableReason = Some (unavailableReasonValue APPROVAL_REJECTED) then Some LC_FINAL_APPROVAL
     else None)"

definition mayReopenBackgroundVerification :: "lc_string option \<Rightarrow> string option \<Rightarrow> bool" where
  "mayReopenBackgroundVerification frm unavailableReason \<longleftrightarrow>
    frm = Some (Lc LC_INACTIVE) \<and> reopenTargetFor unavailableReason = Some LC_BACKGROUND_VERIFICATION"

definition mayReopenFinalApproval :: "lc_string option \<Rightarrow> string option \<Rightarrow> bool" where
  "mayReopenFinalApproval frm unavailableReason \<longleftrightarrow>
    frm = Some (Lc LC_INACTIVE) \<and> reopenTargetFor unavailableReason = Some LC_FINAL_APPROVAL"

definition PRE_APPROVAL_STAGES :: "AssayerLifecycleStatus list" where
  "PRE_APPROVAL_STAGES = take (indexOf ONBOARDING_STAGES LC_FINAL_APPROVAL + 1) ONBOARDING_STAGES"

definition hasPassedFinalApproval :: "lc_string option \<Rightarrow> string option \<Rightarrow> bool" where
  "hasPassedFinalApproval lifecycleStatus unavailableReason =
    (if \<not> lc_truthy lifecycleStatus then False
     else if \<exists>s \<in> set PRE_APPROVAL_STAGES. lifecycleStatus = Some (Lc s) then False
     else if lifecycleStatus = Some (Lc LC_INACTIVE) \<and> reopenTargetFor unavailableReason \<noteq> None then False
     else True)"

definition REOPEN_ONLY_FROM_INACTIVE :: "AssayerLifecycleStatus list" where
  "REOPEN_ONLY_FROM_INACTIVE = [LC_BACKGROUND_VERIFICATION, LC_FINAL_APPROVAL]"

fun nextAssayerLifecycleStates :: "lc_string option \<Rightarrow> string option \<Rightarrow> AssayerLifecycleStatus list" where
  "nextAssayerLifecycleStates None unavailableReason = []"
| "nextAssayerLifecycleStates (Some frm) unavailableReason =
    (if \<not> lc_truthy (Some frm) then []
     else if frm = Lc LC_FINAL_APPROVAL then []
     else if frm = Lc LC_INACTIVE then
       filter (\<lambda>to. to \<notin> set REOPEN_ONLY_FROM_INACTIVE \<or> Some to = reopenTargetFor unavailableReason)
         (moves_from frm)
     else moves_from frm)"

fun nextOnboardingStep :: "lc_string option \<Rightarrow> AssayerLifecycleStatus option" where
  "nextOnboardingStep (Some (Lc s)) =
    (if \<not> isOnboardingStage (Some (Lc s)) then None
     else let idx = indexOf ONBOARDING_STAGES s;
              forward = (if idx + 1 < length ONBOARDING_STAGES then ONBOARDING_STAGES ! (idx + 1) else LC_ACTIVE)
          in if forward \<in> set (nextAssayerLifecycleStates (Some (Lc s)) None) then Some forward else None)"
| "nextOnboardingStep _ = None"

definition canTransitionAssayerLifecycle :: "lc_string \<Rightarrow> lc_string \<Rightarrow> bool" where
  "canTransitionAssayerLifecycle frm to \<longleftrightarrow> to \<in> Lc ` set (moves_from frm)"

definition NEVER_A_WAYPOINT :: "AssayerLifecycleStatus list" where
  "NEVER_A_WAYPOINT =
    [LC_INVITED, LC_FINAL_APPROVAL, LC_ACTIVE, LC_SUSPENDED, LC_RESIGNED, LC_TERMINATED, LC_ARCHIVED]"

definition NOT_A_WAYPOINT_INBOUND :: "AssayerLifecycleStatus list" where
  "NOT_A_WAYPOINT_INBOUND = [LC_INACTIVE]"

definition OUTCOME_DESTINATIONS :: "AssayerLifecycleStatus list" where
  "OUTCOME_DESTINATIONS = [LC_INACTIVE, LC_SUSPENDED, LC_RESIGNED, LC_TERMINATED, LC_ARCHIVED]"

definition leaving :: "lc_string \<Rightarrow> bool" where
  "leaving to \<longleftrightarrow> to \<in> Lc ` set OUTCOME_DESTINATIONS"

definition inboundOnly :: "lc_string \<Rightarrow> AssayerLifecycleStatus \<Rightarrow> bool" where
  "inboundOnly to s \<longleftrightarrow> \<not> leaving to \<and> s \<in> set NOT_A_WAYPOINT_INBOUND"

definition barred :: "lc_string \<Rightarrow> AssayerLifecycleStatus \<Rightarrow> bool" where
  "barred to s \<longleftrightarrow> s \<in> set NEVER_A_WAYPOINT \<or> inboundOnly to s"

text \<open>
  The search starts from \<^verbatim>\<open>from\<close>, which may be any string; a string that is no status has no moves, so
  the loop ends at once.
\<close>

fun lifecycle_search :: "(AssayerLifecycleStatus \<Rightarrow> bool) \<Rightarrow> lc_string \<Rightarrow> lc_string
    \<Rightarrow> AssayerLifecycleStatus list option" where
  "lifecycle_search skip (LcOther t) to = None"
| "lifecycle_search skip (Lc s) to = bfs lifecycle_moves (\<lambda>n. Lc n = to) skip [(s, [])] [s]"

definition assayerLifecyclePath :: "lc_string \<Rightarrow> lc_string \<Rightarrow> AssayerLifecycleStatus list option" where
  "assayerLifecyclePath frm to = (if frm = to then Some [] else lifecycle_search (barred to) frm to)"

definition blocked_search :: "bool \<Rightarrow> lc_string \<Rightarrow> lc_string \<Rightarrow> AssayerLifecycleStatus option option" where
  "blocked_search avoidShortcuts frm to =
    map_option (\<lambda>nextPath. List.find (barred to) (butlast nextPath))
      (lifecycle_search (\<lambda>n. avoidShortcuts \<and> inboundOnly to n) frm to)"

definition assayerLifecycleBlockedBy :: "lc_string \<Rightarrow> lc_string \<Rightarrow> AssayerLifecycleStatus option" where
  "assayerLifecycleBlockedBy frm to =
    (if frm = to then None
     else if assayerLifecyclePath frm to \<noteq> None then None
     else case blocked_search True frm to of
            Some onTheRoad \<Rightarrow> onTheRoad
          | None \<Rightarrow> (case blocked_search False frm to of Some r \<Rightarrow> r | None \<Rightarrow> None))"

definition DEPARTED_LIFECYCLE_STATES :: "AssayerLifecycleStatus list" where
  "DEPARTED_LIFECYCLE_STATES = [LC_RESIGNED, LC_TERMINATED, LC_ARCHIVED]"

definition hasLeftWorkforce :: "lc_string option \<Rightarrow> string option \<Rightarrow> bool" where
  "hasLeftWorkforce lifecycleStatus unavailableReason =
    (if \<exists>s \<in> set DEPARTED_LIFECYCLE_STATES. lifecycleStatus = Some (Lc s) then True
     else lifecycleStatus = Some (Lc LC_INACTIVE)
          \<and> js_upper (case unavailableReason of None \<Rightarrow> [] | Some r \<Rightarrow> r) = ''DECEASED'')"

fun operationalStatusFor :: "lc_string option \<Rightarrow> AssayerStatus" where
  "operationalStatusFor (Some (Lc LC_ACTIVE)) = AY_ACTIVE"
| "operationalStatusFor (Some (Lc LC_SUSPENDED)) = AY_SUSPENDED"
| "operationalStatusFor _ = AY_INACTIVE"

declare ASSAYER_LIFECYCLE_TRANSITIONS_def [table_defs] lifecycle_moves_def [table_defs]

lemmas waypoint_defs = NEVER_A_WAYPOINT_def NOT_A_WAYPOINT_INBOUND_def OUTCOME_DESTINATIONS_def
  leaving_def inboundOnly_def barred_def

lemmas stage_defs = ONBOARDING_STAGES_def PRE_APPROVAL_STAGES_def REOPEN_ONLY_FROM_INACTIVE_def
  reopenTargetFor_def

section \<open>Facts about the table\<close>

interpretation assayer_table: keyed_table ASSAYER_LIFECYCLE_TRANSITIONS
  by unfold_locales (simp add: table_defs)

lemma lifecycle_valid_iff:
  "isValidTransition ASSAYER_LIFECYCLE_TRANSITIONS s t \<longleftrightarrow> t \<in> set (lifecycle_moves s)"
  by (simp add: isValidTransition_def lifecycle_moves_def split: option.split)

lemma lifecycle_edge_iff [simp]:
  "canTransitionAssayerLifecycle (Lc s) (Lc t) \<longleftrightarrow> t \<in> set (lifecycle_moves s)"
  by (auto simp: canTransitionAssayerLifecycle_def)

lemma archived_final [simp]: "lifecycle_moves LC_ARCHIVED = []"
  by (simp add: table_defs)

lemma training_from_approval: "LC_TRAINING \<in> set (lifecycle_moves s) \<Longrightarrow> s = LC_FINAL_APPROVAL"
  by (cases s) (simp_all add: table_defs)

lemma terminated_from_suspended: "LC_TERMINATED \<in> set (lifecycle_moves s) \<Longrightarrow> s = LC_SUSPENDED"
  by (cases s) (simp_all add: table_defs)

lemma next_states_legal:
  "t \<in> set (nextAssayerLifecycleStates (Some frm) r) \<Longrightarrow> canTransitionAssayerLifecycle frm (Lc t)"
  by (auto simp: canTransitionAssayerLifecycle_def split: if_splits)

lemma walk_legal_path: "walk lifecycle_moves s p \<longleftrightarrow>
    legal_path (isValidTransition ASSAYER_LIFECYCLE_TRANSITIONS) (s # p)"
  by (induction p arbitrary: s) (simp_all add: lifecycle_valid_iff)

section \<open>The path finder\<close>

text \<open>
  What a bulk move may walk through, said without the tables: the paperwork stages, training and
  leave, and \<^verbatim>\<open>INACTIVE\<close> when the person is on the way out. Every other state is a decision somebody
  has to take by name.
\<close>

definition passable :: "AssayerLifecycleStatus \<Rightarrow> AssayerLifecycleStatus \<Rightarrow> bool" where
  "passable t n \<longleftrightarrow> n \<in> {LC_DOCUMENT_VERIFICATION, LC_BACKGROUND_VERIFICATION, LC_TRAINING, LC_ON_LEAVE}
     \<or> (n = LC_INACTIVE \<and> t \<in> {LC_INACTIVE, LC_SUSPENDED, LC_RESIGNED, LC_TERMINATED, LC_ARCHIVED})"

definition bulk_route :: "AssayerLifecycleStatus \<Rightarrow> AssayerLifecycleStatus \<Rightarrow> AssayerLifecycleStatus list \<Rightarrow> bool" where
  "bulk_route s t p \<longleftrightarrow>
     walk lifecycle_moves s p \<and> p \<noteq> [] \<and> last p = t \<and> list_all (\<lambda>n. n \<noteq> t \<and> passable t n) (butlast p)"

lemma passable_iff: "passable t n \<longleftrightarrow> \<not> barred (Lc t) n"
  by (cases n; cases t) (simp_all add: passable_def waypoint_defs)

lemma bulk_route_admissible:
  "bulk_route s t p \<longleftrightarrow> admissible lifecycle_moves (\<lambda>n. Lc n = Lc t) (barred (Lc t)) s p"
  by (simp add: bulk_route_def admissible_def open_node_def [abs_def] passable_iff)

lemma path_is_bfs:
  "s \<noteq> t \<Longrightarrow> assayerLifecyclePath (Lc s) (Lc t)
     = bfs lifecycle_moves (\<lambda>n. Lc n = Lc t) (barred (Lc t)) [(s, [])] [s]"
  by (simp add: assayerLifecyclePath_def)

lemma path_None_iff:
  assumes "s \<noteq> t"
  shows "assayerLifecyclePath (Lc s) (Lc t) = None \<longleftrightarrow> (\<nexists>p. bulk_route s t p)"
  unfolding path_is_bfs [OF assms] bulk_route_admissible
  by (rule bfs_complete) (use assms in simp)

text \<open>
  A refusal found on a route the unrestricted search would take: if the route had no barred state on
  it, the restricted search would have taken it.
\<close>

lemma blocked_search_Some:
  assumes "s \<noteq> t" and none: "assayerLifecyclePath (Lc s) (Lc t) = None"
    and found: "blocked_search a (Lc s) (Lc t) = Some r"
  shows "\<exists>b p. r = Some b \<and> \<not> passable t b \<and> walk lifecycle_moves s p \<and> p \<noteq> [] \<and> last p = t
    \<and> b \<in> set (butlast p)"
proof -
  let ?skip = "\<lambda>n. a \<and> inboundOnly (Lc t) n"
  obtain p where bfs: "bfs lifecycle_moves (\<lambda>n. Lc n = Lc t) ?skip [(s, [])] [s] = Some p"
    and r: "r = List.find (barred (Lc t)) (butlast p)"
    using found by (auto simp: blocked_search_def)
  have adm: "admissible lifecycle_moves (\<lambda>n. Lc n = Lc t) ?skip s p"
    using bfs_shortest [OF _ bfs] \<open>s \<noteq> t\<close> by simp
  then have p: "walk lifecycle_moves s p" "p \<noteq> []" "last p = t" "list_all (\<lambda>n. n \<noteq> t) (butlast p)"
    by (auto simp: admissible_def open_node_def list_all_iff)
  have "\<not> bulk_route s t p" using none path_None_iff [OF \<open>s \<noteq> t\<close>] by blast
  with p have "\<exists>n \<in> set (butlast p). barred (Lc t) n"
    by (auto simp: bulk_route_def passable_iff list_all_iff)
  then have "r \<noteq> None" using r by (auto simp: find_None_iff)
  then obtain b where b: "List.find (barred (Lc t)) (butlast p) = Some b" using r by auto
  then have "\<not> passable t b" "b \<in> set (butlast p)" by (auto simp: find_Some_iff in_set_conv_nth passable_iff)
  with r b p show ?thesis by blast
qed

lemma blocked_search_None:
  assumes "s \<noteq> t" and "blocked_search False (Lc s) (Lc t) = None"
  shows "\<nexists>p. walk lifecycle_moves s p \<and> p \<noteq> [] \<and> last p = t"
proof
  assume "\<exists>p. walk lifecycle_moves s p \<and> p \<noteq> [] \<and> last p = t"
  then obtain p where p: "walk lifecycle_moves s p" "p \<noteq> []" "last p = t" by blast
  then have "t \<in> set p" by auto
  then obtain ys zs where ys: "p = ys @ t # zs" "t \<notin> set ys" by (metis split_list_first)
  with p(1) have "walk lifecycle_moves s (ys @ [t])" by (simp add: walk_append)
  moreover have "list_all (\<lambda>n. n \<noteq> t) ys" using ys(2) by (auto simp: list_all_iff)
  ultimately have "admissible lifecycle_moves (\<lambda>n. Lc n = Lc t) (\<lambda>n. False) s (ys @ [t])"
    by (simp add: admissible_def open_node_def [abs_def])
  moreover have "bfs lifecycle_moves (\<lambda>n. Lc n = Lc t) (\<lambda>n. False) [(s, [])] [s] = None"
    using assms(2) by (simp add: blocked_search_def)
  ultimately show False using bfs_complete [of "\<lambda>n. Lc n = Lc t" s] \<open>s \<noteq> t\<close> by auto
qed

section \<open>Properties\<close>

text \<open>
  C33. The bulk-move path finder (\<^verbatim>\<open>assayerLifecyclePath\<close>) is correct and complete: between two
  different statuses it returns nothing exactly when there is no route, and what it returns is a
  route: every hop is an edge of the life-cycle table, it ends at the destination, it passes through
  no state that is a decision (and through \<^verbatim>\<open>INACTIVE\<close> only on the way out), and no route is shorter.
\<close>

theorem lifecycle_path_correct:
  assumes "s \<noteq> t"
  shows "(assayerLifecyclePath (Lc s) (Lc t) = None \<longleftrightarrow> (\<nexists>p. bulk_route s t p))
    \<and> (\<forall>p. assayerLifecyclePath (Lc s) (Lc t) = Some p \<longrightarrow>
          bulk_route s t p \<and> (\<forall>p'. bulk_route s t p' \<longrightarrow> length p \<le> length p'))"
  using path_None_iff [OF assms] bfs_shortest [of "\<lambda>n. Lc n = Lc t" s lifecycle_moves "barred (Lc t)"] assms
  by (simp add: path_is_bfs bulk_route_admissible)

theorem lifecycle_path_correct_witness:
  "assayerLifecyclePath (Lc LC_TRAINING) (Lc LC_ARCHIVED) = Some [LC_INACTIVE, LC_ARCHIVED]
   \<and> bulk_route LC_TRAINING LC_ARCHIVED [LC_INACTIVE, LC_ARCHIVED]"
proof -
  have "LC_TRAINING \<noteq> LC_ARCHIVED" by simp
  moreover have "assayerLifecyclePath (Lc LC_TRAINING) (Lc LC_ARCHIVED) = Some [LC_INACTIVE, LC_ARCHIVED]"
    by code_simp
  ultimately show ?thesis using lifecycle_path_correct [of LC_TRAINING LC_ARCHIVED] by blast
qed

text \<open>
  A refused bulk move is explained exactly when there is something to explain: for two different
  statuses, \<^verbatim>\<open>assayerLifecycleBlockedBy\<close> answers nothing when the move is possible or the destination
  cannot be reached at all, and otherwise names a state that may not be walked through and that
  stands on a real route to the destination.
\<close>

theorem lifecycle_blocked_by_correct:
  assumes "s \<noteq> t"
  shows "(assayerLifecycleBlockedBy (Lc s) (Lc t) = None \<longleftrightarrow>
            assayerLifecyclePath (Lc s) (Lc t) \<noteq> None
            \<or> (\<nexists>p. walk lifecycle_moves s p \<and> p \<noteq> [] \<and> last p = t))
    \<and> (\<forall>b. assayerLifecycleBlockedBy (Lc s) (Lc t) = Some b \<longrightarrow>
          \<not> passable t b \<and> (\<exists>p. walk lifecycle_moves s p \<and> p \<noteq> [] \<and> last p = t \<and> b \<in> set (butlast p)))"
proof (cases "assayerLifecyclePath (Lc s) (Lc t) = None")
  case False
  then show ?thesis using assms by (simp add: assayerLifecycleBlockedBy_def)
next
  case True
  note found = blocked_search_Some [OF assms True]
  show ?thesis
  proof (cases "blocked_search True (Lc s) (Lc t)")
    case (Some r)
    from found [OF Some] obtain b p where "r = Some b" "\<not> passable t b" "walk lifecycle_moves s p"
      "p \<noteq> []" "last p = t" "b \<in> set (butlast p)" by blast
    moreover from this have "assayerLifecycleBlockedBy (Lc s) (Lc t) = Some b"
      using assms True Some by (simp add: assayerLifecycleBlockedBy_def)
    ultimately show ?thesis using True by auto
  next
    case None
    show ?thesis
    proof (cases "blocked_search False (Lc s) (Lc t)")
      case (Some r)
      from found [OF Some] obtain b p where "r = Some b" "\<not> passable t b" "walk lifecycle_moves s p"
        "p \<noteq> []" "last p = t" "b \<in> set (butlast p)" by blast
      moreover from this have "assayerLifecycleBlockedBy (Lc s) (Lc t) = Some b"
        using assms True None Some by (simp add: assayerLifecycleBlockedBy_def)
      ultimately show ?thesis using True by auto
    next
      case no: None
      have "assayerLifecycleBlockedBy (Lc s) (Lc t) = None"
        using assms True None no by (simp add: assayerLifecycleBlockedBy_def)
      with blocked_search_None [OF assms no] True show ?thesis by auto
    qed
  qed
qed

theorem lifecycle_blocked_by_correct_witness:
  "assayerLifecycleBlockedBy (Lc LC_INVITED) (Lc LC_SUSPENDED) = Some LC_ACTIVE
   \<and> \<not> passable LC_SUSPENDED LC_ACTIVE"
proof -
  have "LC_INVITED \<noteq> LC_SUSPENDED" by simp
  moreover have "assayerLifecycleBlockedBy (Lc LC_INVITED) (Lc LC_SUSPENDED) = Some LC_ACTIVE"
    by code_simp
  ultimately show ?thesis using lifecycle_blocked_by_correct [of LC_INVITED LC_SUSPENDED] by blast
qed

text \<open>
  The gates of the life cycle: on every legal sequence of states that starts before training and
  ends in \<^verbatim>\<open>TRAINING\<close> the final approval was passed, on every one that ends in \<^verbatim>\<open>TERMINATED\<close> the
  person was suspended first, and \<^verbatim>\<open>ARCHIVED\<close> is left by no move.
\<close>

theorem lifecycle_gates:
  assumes "legal_path (isValidTransition ASSAYER_LIFECYCLE_TRANSITIONS) ss"
    and "hd ss \<notin> {LC_TRAINING, LC_TERMINATED}"
  shows "(last ss = LC_TRAINING \<longrightarrow> LC_FINAL_APPROVAL \<in> set ss)
    \<and> (last ss = LC_TERMINATED \<longrightarrow> LC_SUSPENDED \<in> set ss)
    \<and> (\<forall>t. \<not> isValidTransition ASSAYER_LIFECYCLE_TRANSITIONS LC_ARCHIVED t)"
proof (intro conjI impI)
  show "LC_FINAL_APPROVAL \<in> set ss" if "last ss = LC_TRAINING"
    by (rule legal_path_gate [where T = "\<lambda>t. t = LC_TRAINING", OF _ assms(1)])
       (use assms(2) that training_from_approval in \<open>auto simp: lifecycle_valid_iff\<close>)
  show "LC_SUSPENDED \<in> set ss" if "last ss = LC_TERMINATED"
    by (rule legal_path_gate [where T = "\<lambda>t. t = LC_TERMINATED", OF _ assms(1)])
       (use assms(2) that terminated_from_suspended in \<open>auto simp: lifecycle_valid_iff\<close>)
  show "\<forall>t. \<not> isValidTransition ASSAYER_LIFECYCLE_TRANSITIONS LC_ARCHIVED t"
    by (simp add: lifecycle_valid_iff)
qed

theorem lifecycle_gates_witness:
  "LC_FINAL_APPROVAL \<in> set [LC_INVITED, LC_DOCUMENT_VERIFICATION, LC_BACKGROUND_VERIFICATION,
     LC_FINAL_APPROVAL, LC_TRAINING]"
proof -
  have "legal_path (isValidTransition ASSAYER_LIFECYCLE_TRANSITIONS)
     [LC_INVITED, LC_DOCUMENT_VERIFICATION, LC_BACKGROUND_VERIFICATION, LC_FINAL_APPROVAL, LC_TRAINING]"
    by (simp add: table_defs)
  from lifecycle_gates [OF this] show ?thesis by simp
qed

text \<open>
  The moves a stage screen offers (\<^verbatim>\<open>nextAssayerLifecycleStates\<close>) are legal, nothing is offered
  at the final approval, and out of every other state exactly the legal moves are offered, except
  that out of \<^verbatim>\<open>INACTIVE\<close> a verification or an approval is re-opened only when the recorded reason
  says that it is the one that failed (\<^verbatim>\<open>mayReopenBackgroundVerification\<close>, \<^verbatim>\<open>mayReopenFinalApproval\<close>).
\<close>

theorem offered_moves_exact:
  "t \<in> set (nextAssayerLifecycleStates (Some (Lc s)) r) \<longleftrightarrow>
     canTransitionAssayerLifecycle (Lc s) (Lc t) \<and> s \<noteq> LC_FINAL_APPROVAL
     \<and> \<not> (s = LC_INACTIVE \<and> t = LC_BACKGROUND_VERIFICATION
          \<and> \<not> mayReopenBackgroundVerification (Some (Lc s)) r)
     \<and> \<not> (s = LC_INACTIVE \<and> t = LC_FINAL_APPROVAL \<and> \<not> mayReopenFinalApproval (Some (Lc s)) r)"
  by (cases "s = LC_INACTIVE")
     (auto simp: mayReopenBackgroundVerification_def mayReopenFinalApproval_def
       REOPEN_ONLY_FROM_INACTIVE_def)

text \<open>
  \<^verbatim>\<open>hasPassedFinalApproval\<close> reads only where the person stands now: it answers yes for somebody
  who has gone from document verification through \<^verbatim>\<open>INACTIVE\<close> to \<^verbatim>\<open>ACTIVE\<close>, and for an invitation
  that was archived, along legal moves none of which touches the final approval.
\<close>

theorem passed_final_approval_overstates:
  "legal_path (isValidTransition ASSAYER_LIFECYCLE_TRANSITIONS)
      [LC_INVITED, LC_DOCUMENT_VERIFICATION, LC_INACTIVE, LC_ACTIVE]
   \<and> hasPassedFinalApproval (Some (Lc LC_ACTIVE)) None
   \<and> legal_path (isValidTransition ASSAYER_LIFECYCLE_TRANSITIONS) [LC_INVITED, LC_ARCHIVED]
   \<and> hasPassedFinalApproval (Some (Lc LC_ARCHIVED)) None"
  by (simp add: table_defs hasPassedFinalApproval_def stage_defs)

end
