(* ===== verification/Workflow_Engine.thy ===== *)
theory Workflow_Engine
  imports Transition_Tables Role_Hierarchy Audit_Trail Assayer_Lifecycle
begin

text \<open>
  \<^verbatim>\<open>packages/backend/src/modules/platform/workflow/workflow.engine.ts\<close>: the registry of transition
  lists, the test \<^verbatim>\<open>canTransition\<close>, and the two executors.

  Code the engine is handed at run time (guards, hooks, the command's action) is data of the model: a
  guard answers or throws; a hook leaves a state behind and may throw after it; the action runs
  inside the transaction and leaves a state behind, or throws. The state is the business tables
  (\<open>'d\<close>), the workflow history and the audit trail. A database write can fail: the failures of the
  history insert, of the audit insert and of the commit are fields of \<open>engine_env\<close>, with the
  identifiers the run generates. A transaction that throws leaves the state it started from.
\<close>

section \<open>Engine\<close>

record 'p WorkflowContext =
  wc_userId :: string
  wc_payload :: 'p

record ('p, 'd) TransitionDefinition =
  td_from :: "string list"
  td_to :: string
  td_guards :: "('p WorkflowContext \<Rightarrow> (string, bool) result) list"
  td_beforeTransition :: "('p WorkflowContext \<Rightarrow> 'd \<Rightarrow> 'd \<times> string option) option"
  td_afterTransition :: "('p WorkflowContext \<Rightarrow> 'd \<Rightarrow> 'd \<times> string option) option"

record WorkflowHistoryEntity =
  wh_workflowKey :: string
  wh_entityId :: string
  wh_previousState :: string
  wh_newState :: string
  wh_command :: string
  wh_userId :: string
  wh_correlationId :: string

record 'd engine_db =
  business :: 'd
  history :: "WorkflowHistoryEntity list"
  auditTrail :: "RecordedAuditEvent list"

record engine_env =
  ee_correlationId :: string
  ee_historyFault :: "string option"
  ee_audit :: insert_env
  ee_context :: "RequestContext option"
  ee_commitFault :: "string option"

datatype WorkflowError =
    RoleNotAuthorized string string
  | InvalidTransition string string string
  | NoTransitionsRegistered string
  | InvalidTransitionPath string string string
  | GuardsFailed string string
  | Thrown string

type_synonym ('p, 'd) registries = "string \<Rightarrow> ('p, 'd) TransitionDefinition list option"

definition registerWorkflow :: "string \<Rightarrow> ('p, 'd) TransitionDefinition list \<Rightarrow> ('p, 'd) registries
    \<Rightarrow> ('p, 'd) registries" where
  "registerWorkflow workflowKey transitions registries = registries(workflowKey \<mapsto> transitions)"

definition matched_transition :: "('p, 'd) TransitionDefinition list \<Rightarrow> string \<Rightarrow> string
    \<Rightarrow> ('p, 'd) TransitionDefinition option" where
  "matched_transition transitions fromState toState =
     List.find (\<lambda>t. fromState \<in> set (td_from t) \<and> td_to t = toState) transitions"

fun run_guards :: "'p WorkflowContext \<Rightarrow> ('p WorkflowContext \<Rightarrow> (string, bool) result) list
    \<Rightarrow> (string, bool) result" where
  "run_guards context [] = Inr True"
| "run_guards context (guard # guards) =
    (case guard context of
       Inl err \<Rightarrow> Inl err
     | Inr ok \<Rightarrow> if \<not> ok then Inr False else run_guards context guards)"

definition canTransition :: "('p, 'd) registries \<Rightarrow> string \<Rightarrow> string \<Rightarrow> string \<Rightarrow> 'p WorkflowContext
    \<Rightarrow> (string, bool) result" where
  "canTransition registries workflowKey fromState toState context =
    (case registries workflowKey of
       None \<Rightarrow> Inr False
     | Some transitions \<Rightarrow>
         (case matched_transition transitions fromState toState of
            None \<Rightarrow> Inr False
          | Some matched \<Rightarrow> run_guards context (td_guards matched)))"

definition run_hook :: "('p WorkflowContext \<Rightarrow> 'd \<Rightarrow> 'd \<times> string option) option \<Rightarrow> 'p WorkflowContext
    \<Rightarrow> 'd engine_db \<Rightarrow> 'd engine_db \<times> string option" where
  "run_hook hook context db =
    (case hook of
       None \<Rightarrow> (db, None)
     | Some h \<Rightarrow> (case h context (business db) of (d, err) \<Rightarrow> (db\<lparr> business := d \<rparr>, err)))"

definition command_remarks :: "string \<Rightarrow> string \<Rightarrow> string \<Rightarrow> string" where
  "command_remarks command userId userRole =
     ''Command '' @ command @ '' executed by user '' @ userId @ '' ('' @ userRole @ '')''"

definition command_audit :: "string \<Rightarrow> string \<Rightarrow> string \<Rightarrow> string \<Rightarrow> string \<Rightarrow> string \<Rightarrow> string
    \<Rightarrow> RecordAuditEventInput" where
  "command_audit workflowKey entityId fromState toState userId command userRole =
    \<lparr> in_category = EC_WORKFLOW, in_eventType = ''WORKFLOW_COMMAND_EXECUTED'',
      in_entityType = js_upper workflowKey, in_entityId = Some entityId,
      in_previousState = Some fromState, in_newState = Some toState, in_userId = Some userId,
      in_userDisplayName = None, in_ipAddress = None,
      in_remarks = Some (command_remarks command userId userRole),
      in_metadata = None, in_actorRole = None, in_userAgent = None, in_sessionId = None,
      in_requestId = None, in_outcome = None, in_before = None, in_after = None \<rparr>"

definition history_entry :: "engine_env \<Rightarrow> string \<Rightarrow> string \<Rightarrow> string \<Rightarrow> string \<Rightarrow> string \<Rightarrow> string
    \<Rightarrow> WorkflowHistoryEntity" where
  "history_entry env workflowKey entityId fromState toState command userId =
    \<lparr> wh_workflowKey = workflowKey, wh_entityId = entityId, wh_previousState = fromState,
      wh_newState = toState, wh_command = command, wh_userId = userId,
      wh_correlationId = ee_correlationId env \<rparr>"

text \<open>The body of the transaction: the action, the history row, the audit row, the commit.\<close>

definition command_transaction :: "engine_env \<Rightarrow> string \<Rightarrow> string \<Rightarrow> string \<Rightarrow> string \<Rightarrow> string \<Rightarrow> string
    \<Rightarrow> string \<Rightarrow> ('d \<Rightarrow> 'd \<times> (string, 'r) result) \<Rightarrow> 'd engine_db \<Rightarrow> (string, 'd engine_db \<times> 'r) result" where
  "command_transaction env workflowKey entityId command fromState toState userId userRole action db =
    (case action (business db) of
       (d, Inl err) \<Rightarrow> Inl err
     | (d, Inr actionResult) \<Rightarrow>
        (case ee_historyFault env of
           Some err \<Rightarrow> Inl err
         | None \<Rightarrow>
            (case recordEvent (ee_audit env) (ee_context env)
                    (command_audit workflowKey entityId fromState toState userId command userRole) (auditTrail db) of
               Inl err \<Rightarrow> Inl err
             | Inr trail' \<Rightarrow>
                (case ee_commitFault env of
                   Some err \<Rightarrow> Inl err
                 | None \<Rightarrow> Inr (db\<lparr> business := d,
                      history := history db @ [history_entry env workflowKey entityId fromState toState command userId],
                      auditTrail := trail' \<rparr>, actionResult)))))"

definition executeCommand :: "engine_env \<Rightarrow> ('p, 'd) registries \<Rightarrow> string \<Rightarrow> string \<Rightarrow> string \<Rightarrow> string \<Rightarrow> string
    \<Rightarrow> string \<Rightarrow> string \<Rightarrow> string list \<Rightarrow> ('d \<Rightarrow> 'd \<times> (string, 'r) result) \<Rightarrow> 'p \<Rightarrow> 'd engine_db
    \<Rightarrow> 'd engine_db \<times> (WorkflowError, 'r) result" where
  "executeCommand env registries workflowKey entityId command fromState toState userId userRole allowedRoles
      action payload db =
    (if allowedRoles \<noteq> [] \<and> \<not> roleSatisfies userRole allowedRoles
     then (db, Inl (RoleNotAuthorized userRole command))
     else let context = \<lparr> wc_userId = userId, wc_payload = payload \<rparr> in
     (case canTransition registries workflowKey fromState toState context of
        Inl err \<Rightarrow> (db, Inl (Thrown err))
      | Inr False \<Rightarrow> (db, Inl (InvalidTransition fromState toState command))
      | Inr True \<Rightarrow>
        (let matched = (case registries workflowKey of
                          None \<Rightarrow> None
                        | Some transitions \<Rightarrow> matched_transition transitions fromState toState)
         in (case run_hook (Option.bind matched td_beforeTransition) context db of
               (db1, Some err) \<Rightarrow> (db1, Inl (Thrown err))
             | (db1, None) \<Rightarrow>
                (case command_transaction env workflowKey entityId command fromState toState userId userRole
                        action db1 of
                   Inl err \<Rightarrow> (db1, Inl (Thrown err))
                 | Inr (db2, result) \<Rightarrow>
                    (case run_hook (Option.bind matched td_afterTransition) context db2 of
                       (db3, Some err) \<Rightarrow> (db3, Inl (Thrown err))
                     | (db3, None) \<Rightarrow> (db3, Inr result)))))))"

definition transition_audit :: "string \<Rightarrow> string \<Rightarrow> string \<Rightarrow> string \<Rightarrow> string \<Rightarrow> RecordAuditEventInput" where
  "transition_audit workflowKey entityId fromState toState userId =
    \<lparr> in_category = EC_OPERATIONAL, in_eventType = ''WORKFLOW_TRANSITION'',
      in_entityType = js_upper workflowKey, in_entityId = Some entityId,
      in_previousState = None, in_newState = None, in_userId = Some userId,
      in_userDisplayName = None, in_ipAddress = None,
      in_remarks = Some (''Transitioned '' @ [CHR 39] @ workflowKey @ [CHR 39] @ '' '' @ entityId @ '' from ''
         @ fromState @ '' -> '' @ toState),
      in_metadata = None, in_actorRole = None, in_userAgent = None, in_sessionId = None,
      in_requestId = None, in_outcome = None, in_before = None, in_after = None \<rparr>"

definition executeTransition :: "engine_env \<Rightarrow> ('p, 'd) registries \<Rightarrow> string \<Rightarrow> string \<Rightarrow> string \<Rightarrow> string
    \<Rightarrow> 'p WorkflowContext \<Rightarrow> 'd engine_db \<Rightarrow> 'd engine_db \<times> (WorkflowError, unit) result" where
  "executeTransition env registries workflowKey entityId fromState toState context db =
    (case registries workflowKey of
       None \<Rightarrow> (db, Inl (NoTransitionsRegistered workflowKey))
     | Some transitions \<Rightarrow>
       (case matched_transition transitions fromState toState of
          None \<Rightarrow> (db, Inl (InvalidTransitionPath fromState toState workflowKey))
        | Some matched \<Rightarrow>
          (case run_guards context (td_guards matched) of
             Inl err \<Rightarrow> (db, Inl (Thrown err))
           | Inr False \<Rightarrow> (db, Inl (GuardsFailed fromState toState))
           | Inr True \<Rightarrow>
             (case run_hook (td_beforeTransition matched) context db of
                (db1, Some err) \<Rightarrow> (db1, Inl (Thrown err))
              | (db1, None) \<Rightarrow>
                (case recordEvent (ee_audit env) (ee_context env)
                        (transition_audit workflowKey entityId fromState toState (wc_userId context)) (auditTrail db1) of
                   Inl err \<Rightarrow> (db1, Inl (Thrown err))
                 | Inr trail' \<Rightarrow>
                   (case run_hook (td_afterTransition matched) context (db1\<lparr> auditTrail := trail' \<rparr>) of
                      (db2, Some err) \<Rightarrow> (db2, Inl (Thrown err))
                    | (db2, None) \<Rightarrow> (db2, Inr ())))))))"

section \<open>What is registered at start-up\<close>

text \<open>
  The services register four workflows, each from its table, with neither guards nor hooks
  (\<^verbatim>\<open>onModuleInit\<close> of the project, validation, assayer and client services).
\<close>

definition plain_transition :: "string list \<Rightarrow> string \<Rightarrow> ('p, 'd) TransitionDefinition" where
  "plain_transition frm to = \<lparr> td_from = frm, td_to = to, td_guards = [],
     td_beforeTransition = None, td_afterTransition = None \<rparr>"

definition workflow_of :: "('s \<Rightarrow> string) \<Rightarrow> 's TransitionMap \<Rightarrow> ('p, 'd) TransitionDefinition list" where
  "workflow_of value tm = map (\<lambda>(frm, to). plain_transition (map value frm) (value to)) (toWorkflowTransitions tm)"

definition project_onModuleInit :: "('p, 'd) registries \<Rightarrow> ('p, 'd) registries" where
  "project_onModuleInit = registerWorkflow ''project'' (workflow_of projectStatusValue PROJECT_TRANSITIONS)"

definition validation_onModuleInit :: "('p, 'd) registries \<Rightarrow> ('p, 'd) registries" where
  "validation_onModuleInit = registerWorkflow ''validation'' (workflow_of validationStatusValue VALIDATION_TRANSITIONS)"

definition assayer_onModuleInit :: "('p, 'd) registries \<Rightarrow> ('p, 'd) registries" where
  "assayer_onModuleInit =
     registerWorkflow ''assayer'' (workflow_of assayerLifecycleStatusValue ASSAYER_LIFECYCLE_TRANSITIONS)"

definition client_onModuleInit :: "('p, 'd) registries \<Rightarrow> ('p, 'd) registries" where
  "client_onModuleInit =
     registerWorkflow ''client'' (workflow_of clientLifecycleStatusValue CLIENT_LIFECYCLE_TRANSITIONS)"

definition boot_registries :: "('p, 'd) registries" where
  "boot_registries =
     client_onModuleInit (assayer_onModuleInit (validation_onModuleInit (project_onModuleInit (\<lambda>_. None))))"

lemmas boot_defs = boot_registries_def registerWorkflow_def project_onModuleInit_def
  validation_onModuleInit_def assayer_onModuleInit_def client_onModuleInit_def

section \<open>The engine executes the table\<close>

lemma find_map_option: "List.find P (map f xs) = map_option f (List.find (P \<circ> f) xs)"
  by (induction xs) auto

text \<open>
  The contract of a registered table: the status values are different strings and the registry holds
  the flattened table. Then the engine's look-up is the table's look-up, and a command is all or
  nothing.
\<close>

locale registered_table = keyed_table tm
  for tm :: "'s TransitionMap" +
  fixes registries :: "('p, 'd) registries" and key :: string and val :: "'s \<Rightarrow> string"
  assumes val_inject: "val s = val t \<longleftrightarrow> s = t"
    and registered: "registries key = Some (workflow_of val tm)"
begin

lemma matched_plain:
  "matched_transition (workflow_of val tm :: ('p, 'd) TransitionDefinition list) (val s) (val t) =
    map_option (\<lambda>(frm, to). plain_transition (map val frm) (val to))
      (List.find (\<lambda>(frm, to). s \<in> set frm \<and> to = t) (toWorkflowTransitions tm))"
proof -
  let ?f = "\<lambda>(frm, to). plain_transition (map val frm) (val to) :: ('p, 'd) TransitionDefinition"
  have "(\<lambda>d. val s \<in> set (td_from d) \<and> td_to d = val t) \<circ> ?f = (\<lambda>(frm, to). s \<in> set frm \<and> to = t)"
    by (auto simp: fun_eq_iff plain_transition_def val_inject)
  then show ?thesis
    by (simp only: matched_transition_def workflow_of_def find_map_option)
qed

lemma no_hooks:
  "matched_transition (workflow_of val tm :: ('p, 'd) TransitionDefinition list) (val s) (val t) = Some d
    \<Longrightarrow> td_guards d = [] \<and> td_beforeTransition d = None \<and> td_afterTransition d = None"
  by (auto simp: matched_plain plain_transition_def)

lemma matched_iff:
  "matched_transition (workflow_of val tm :: ('p, 'd) TransitionDefinition list) (val s) (val t) = None
    \<longleftrightarrow> \<not> isValidTransition tm s t"
  by (simp add: matched_plain find_iff_valid)

lemma canTransition_iff:
  "canTransition registries key (val s) (val t) context = Inr (isValidTransition tm s t)"
  using matched_iff [of s t] no_hooks [of s t]
  by (cases "matched_transition (workflow_of val tm :: ('p, 'd) TransitionDefinition list) (val s) (val t)")
     (auto simp: canTransition_def registered)

lemma executeCommand_char:
  "executeCommand env registries key entityId command (val s) (val t) userId userRole allowedRoles action payload db =
    (if allowedRoles \<noteq> [] \<and> \<not> roleSatisfies userRole allowedRoles then (db, Inl (RoleNotAuthorized userRole command))
     else if \<not> isValidTransition tm s t then (db, Inl (InvalidTransition (val s) (val t) command))
     else case command_transaction env key entityId command (val s) (val t) userId userRole action db of
            Inl err \<Rightarrow> (db, Inl (Thrown err))
          | Inr (db', r) \<Rightarrow> (db', Inr r))"
proof (cases "matched_transition (workflow_of val tm :: ('p, 'd) TransitionDefinition list) (val s) (val t)")
  case None
  then show ?thesis using matched_iff [of s t]
    by (simp add: executeCommand_def canTransition_iff Let_def)
next
  case (Some d)
  with no_hooks [OF Some] matched_iff [of s t] show ?thesis
    by (simp add: executeCommand_def canTransition_iff registered run_hook_def Let_def split: sum.split prod.split)
qed

end

interpretation project_engine: registered_table PROJECT_TRANSITIONS boot_registries "''project''" projectStatusValue
  by unfold_locales (simp_all add: boot_defs)

interpretation validation_engine: registered_table VALIDATION_TRANSITIONS boot_registries "''validation''" validationStatusValue
  by unfold_locales (simp_all add: boot_defs)

interpretation assayer_engine: registered_table ASSAYER_LIFECYCLE_TRANSITIONS boot_registries "''assayer''" assayerLifecycleStatusValue
  by unfold_locales (simp_all add: boot_defs)

interpretation client_engine: registered_table CLIENT_LIFECYCLE_TRANSITIONS boot_registries "''client''" clientLifecycleStatusValue
  by unfold_locales (simp_all add: boot_defs)

lemma command_transaction_Inr:
  "command_transaction env key entityId command s t userId userRole action db = Inr (db', r) \<longleftrightarrow>
    (\<exists>d. action (business db) = (d, Inr r) \<and> ee_historyFault env = None
       \<and> env_insertFault (ee_audit env) = None \<and> ee_commitFault env = None
       \<and> db' = db\<lparr> business := d,
            history := history db @ [history_entry env key entityId s t command userId],
            auditTrail := auditTrail db @ [audit_row (env_newId (ee_audit env)) (env_now (ee_audit env))
              (AuditEvent_record (enrichFromContext (ee_context env)
                 (command_audit key entityId s t userId command userRole)))] \<rparr>)"
  by (auto simp: command_transaction_def recordEvent_cases split: prod.splits sum.splits option.splits)

lemma command_row_fields:
  "ae_entityType (audit_row i n (AuditEvent_record (enrichFromContext context
      (command_audit ''assayer'' entityId s t userId command userRole)))) = ''ASSAYER''
   \<and> ae_previousState (audit_row i n (AuditEvent_record (enrichFromContext context
      (command_audit key entityId s t userId command userRole)))) = Some s
   \<and> ae_newState (audit_row i n (AuditEvent_record (enrichFromContext context
      (command_audit key entityId s t userId command userRole)))) = Some t"
proof -
  have "js_upper ''assayer'' = ''ASSAYER''" by code_simp
  then show ?thesis
    by (simp add: audit_row_def AuditEvent.extend_def AuditEvent_record_def enrichFromContext_def command_audit_def
        Let_def split: option.split)
qed

section \<open>Properties\<close>

text \<open>
  The engine executes the tables: for each of the four registered workflows the engine lets a
  command through exactly when the table of that workflow has the edge, and for a workflow nobody
  registered it lets nothing through.
\<close>

theorem engine_executes_tables:
  "canTransition (boot_registries :: ('p, 'd) registries) ''project'' (projectStatusValue ps) (projectStatusValue pt) c
      = Inr (isValidTransition PROJECT_TRANSITIONS ps pt)
   \<and> canTransition (boot_registries :: ('p, 'd) registries) ''validation'' (validationStatusValue vs) (validationStatusValue vt) c
      = Inr (isValidTransition VALIDATION_TRANSITIONS vs vt)
   \<and> canTransition (boot_registries :: ('p, 'd) registries) ''assayer'' (assayerLifecycleStatusValue ys) (assayerLifecycleStatusValue yt) c
      = Inr (canTransitionAssayerLifecycle (Lc ys) (Lc yt))
   \<and> canTransition (boot_registries :: ('p, 'd) registries) ''client'' (clientLifecycleStatusValue cs) (clientLifecycleStatusValue ct) c
      = Inr (isValidTransition CLIENT_LIFECYCLE_TRANSITIONS cs ct)
   \<and> (k \<notin> {''project'', ''validation'', ''assayer'', ''client''} \<longrightarrow> canTransition (boot_registries :: ('p, 'd) registries) k s t c = Inr False)"
  by (simp add: project_engine.canTransition_iff validation_engine.canTransition_iff
      assayer_engine.canTransition_iff client_engine.canTransition_iff lifecycle_valid_iff)
     (simp add: canTransition_def boot_defs)

theorem engine_executes_tables_witness:
  "canTransition (boot_registries :: (unit, unit) registries) ''project'' ''DRAFT'' ''PLANNING'' \<lparr> wc_userId = ''u'', wc_payload = () \<rparr> = Inr True
   \<and> canTransition (boot_registries :: (unit, unit) registries) ''invoice'' ''DRAFT'' ''PLANNING'' \<lparr> wc_userId = ''u'', wc_payload = () \<rparr> = Inr False"
  using engine_executes_tables [where ?'p = unit and ?'d = unit, of PS_DRAFT PS_PLANNING "\<lparr> wc_userId = ''u'', wc_payload = () \<rparr>"
      VS_PENDING VS_PENDING LC_INVITED LC_INVITED CL_PROSPECT CL_PROSPECT "''invoice''" "''DRAFT''" "''PLANNING''"]
  by (simp add: table_defs)

text \<open>
  C4. A workflow command is atomic: on the registered assayer workflow, a command either fails and
  leaves business tables, history and audit trail as they were, or it succeeds, and then the caller's
  role passed the gate, the move is an edge of the table, the action ran once on the state found, and
  exactly one history row and exactly one audit row, both naming the move, were added. It succeeds
  whenever the role and the edge allow it, the action returns and no write fails.
\<close>

theorem workflow_command_atomic:
  assumes run: "executeCommand env boot_registries ''assayer'' entityId command
      (assayerLifecycleStatusValue s) (assayerLifecycleStatusValue t) userId userRole allowedRoles action payload db
      = (db', res)"
  shows "(\<forall>e. res = Inl e \<longrightarrow> db' = db)
    \<and> (\<forall>r. res = Inr r \<longrightarrow>
         (allowedRoles = [] \<or> roleSatisfies userRole allowedRoles) \<and> t \<in> set (lifecycle_moves s)
         \<and> (\<exists>d row. action (business db) = (d, Inr r)
              \<and> db' = db\<lparr> business := d,
                   history := history db @ [history_entry env ''assayer'' entityId
                       (assayerLifecycleStatusValue s) (assayerLifecycleStatusValue t) command userId],
                   auditTrail := auditTrail db @ [row] \<rparr>
              \<and> ae_entityType row = ''ASSAYER'' \<and> ae_previousState row = Some (assayerLifecycleStatusValue s)
              \<and> ae_newState row = Some (assayerLifecycleStatusValue t)))
    \<and> ((allowedRoles = [] \<or> roleSatisfies userRole allowedRoles) \<and> t \<in> set (lifecycle_moves s)
         \<and> (\<exists>d r. action (business db) = (d, Inr r)) \<and> ee_historyFault env = None
         \<and> env_insertFault (ee_audit env) = None \<and> ee_commitFault env = None \<longrightarrow> (\<exists>r. res = Inr r))"
proof (intro conjI allI impI)
  let ?tx = "command_transaction env ''assayer'' entityId command (assayerLifecycleStatusValue s)
    (assayerLifecycleStatusValue t) userId userRole action db"
  note char = run [unfolded assayer_engine.executeCommand_char lifecycle_valid_iff]
  show "db' = db" if "res = Inl e" for e
    using char that by (auto split: if_splits sum.splits)
  {
    fix r assume "res = Inr r"
    with char have ok: "(allowedRoles = [] \<or> roleSatisfies userRole allowedRoles) \<and> t \<in> set (lifecycle_moves s)"
      and tx: "?tx = Inr (db', r)"
      by (auto split: if_splits sum.splits)
    from ok show "allowedRoles = [] \<or> roleSatisfies userRole allowedRoles" "t \<in> set (lifecycle_moves s)"
      by simp_all
    from tx show "\<exists>d row. action (business db) = (d, Inr r)
        \<and> db' = db\<lparr> business := d, history := history db @ [history_entry env ''assayer'' entityId
              (assayerLifecycleStatusValue s) (assayerLifecycleStatusValue t) command userId],
             auditTrail := auditTrail db @ [row] \<rparr>
        \<and> ae_entityType row = ''ASSAYER'' \<and> ae_previousState row = Some (assayerLifecycleStatusValue s)
        \<and> ae_newState row = Some (assayerLifecycleStatusValue t)"
      unfolding command_transaction_Inr using command_row_fields by fastforce
  }
  assume ok: "(allowedRoles = [] \<or> roleSatisfies userRole allowedRoles) \<and> t \<in> set (lifecycle_moves s)
         \<and> (\<exists>d r. action (business db) = (d, Inr r)) \<and> ee_historyFault env = None
         \<and> env_insertFault (ee_audit env) = None \<and> ee_commitFault env = None"
  then obtain r db2 where "?tx = Inr (db2, r)" using command_transaction_Inr by metis
  with char ok show "\<exists>r. res = Inr r" by auto
qed

definition quiet_env :: engine_env where
  "quiet_env = \<lparr> ee_correlationId = ''corr-1'', ee_historyFault = None,
     ee_audit = \<lparr> env_newId = ''e1'', env_now = ''2026-01-01'', env_insertFault = None \<rparr>,
     ee_context = None, ee_commitFault = None \<rparr>"

theorem workflow_command_atomic_witness:
  "\<exists>db' r. executeCommand quiet_env (boot_registries :: (unit, nat) registries) ''assayer'' ''a1'' ''RESIGN''
      (assayerLifecycleStatusValue LC_ACTIVE) (assayerLifecycleStatusValue LC_RESIGNED) ''u1'' ''DEVELOPER'' [''ADMIN'']
      (\<lambda>n. (Suc n, Inr ())) () \<lparr> business = 0, history = [], auditTrail = [] \<rparr> = (db', Inr r)"
proof -
  obtain db' res where run: "executeCommand quiet_env (boot_registries :: (unit, nat) registries) ''assayer'' ''a1'' ''RESIGN''
      (assayerLifecycleStatusValue LC_ACTIVE) (assayerLifecycleStatusValue LC_RESIGNED) ''u1'' ''DEVELOPER'' [''ADMIN'']
      (\<lambda>n. (Suc n, Inr () :: (string, unit) result)) () \<lparr> business = 0, history = [], auditTrail = [] \<rparr> = (db', res)"
    by fastforce
  have "roleSatisfies ''DEVELOPER'' [''ADMIN'']" by code_simp
  with workflow_command_atomic [OF run] have "\<exists>r. res = Inr r"
    by (simp add: quiet_env_def table_defs)
  with run show ?thesis by blast
qed

end
