(* ===== verification/Audit_Chain.thy ===== *)
theory Audit_Chain
  imports Audit_Trail "HOL-Library.List_Lexorder" "HOL-Library.Char_ord" "HOL-Library.Product_Lexorder"
    "HOL-Library.Multiset"
begin

text \<open>
  The tamper evidence of the audit trail: the canonical text of an event and the hash chain
  (\<^verbatim>\<open>core/audit/hash-chain.ts\<close>), the sealing pass and the verification walk
  (\<^verbatim>\<open>core/audit/audit-seal.service.ts\<close>).

  SHA-256 is an argument \<open>sha256\<close>. Nothing is assumed of it: a theorem about tampering ends in "or here
  are two different inputs with the same hash". The advisory lock and the Redis lock make the sealing
  pass a single writer, so a pass is one step on the two tables; a pass that throws is rolled back.
\<close>

section \<open>Canonical text\<close>

definition hex_digit :: "nat \<Rightarrow> char" where
  "hex_digit d = (if d < 10 then digit_char d else char_of (87 + d))"

text \<open>\<^verbatim>\<open>JSON.stringify\<close> of a string: the two-character escapes, then \<^verbatim>\<open>\u00XX\<close> for the other controls.\<close>

definition json_escape :: "char \<Rightarrow> string" where
  "json_escape c =
    (if code c = 34 then [CHR 0x5C, CHR 0x22]
     else if code c = 92 then [CHR 0x5C, CHR 0x5C]
     else if code c = 8 then [CHR 0x5C, CHR ''b'']
     else if code c = 9 then [CHR 0x5C, CHR ''t'']
     else if code c = 10 then [CHR 0x5C, CHR ''n'']
     else if code c = 12 then [CHR 0x5C, CHR ''f'']
     else if code c = 13 then [CHR 0x5C, CHR ''r'']
     else if code c < 32 then [CHR 0x5C, CHR ''u'', CHR ''0'', CHR ''0'', hex_digit (code c div 16), hex_digit (code c mod 16)]
     else [c])"

definition json_quote :: "string \<Rightarrow> string" where
  "json_quote s = [CHR 0x22] @ concat (map json_escape s) @ [CHR 0x22]"

primrec stableStringify :: "Json \<Rightarrow> string" where
  "stableStringify JNull = ''null''"
| "stableStringify (JBool b) = (if b then ''true'' else ''false'')"
| "stableStringify (JNumber n) = n"
| "stableStringify (JString s) = json_quote s"
| "stableStringify (JArray vs) = ''['' @ js_join '','' (map stableStringify vs) @ '']''"
| "stableStringify (JObject kvs) =
     ''{'' @ js_join '','' (map (\<lambda>(k, s). json_quote k @ '':'' @ s)
        (sort_key fst (map (map_prod id stableStringify) kvs))) @ ''}''"

definition RS :: char where
  "RS = CHR 0x1F"

record SealableEvent =
  se_id :: string
  se_category :: string
  se_eventType :: string
  se_entityType :: string
  se_entityId :: string
  se_previousState :: "string option"
  se_newState :: "string option"
  se_userId :: "string option"
  se_userDisplayName :: "string option"
  se_ipAddress :: "string option"
  se_actorRole :: "string option"
  se_userAgent :: "string option"
  se_sessionId :: "string option"
  se_requestId :: "string option"
  se_outcome :: "string option"
  se_remarks :: "string option"
  se_metadata :: Json
  se_before :: Json
  se_after :: Json
  se_occurredAt :: string

definition event_fields :: "SealableEvent \<Rightarrow> string list" where
  "event_fields e =
    [se_id e, se_category e, se_eventType e, se_entityType e, se_entityId e,
     nullish_value (se_previousState e) [], nullish_value (se_newState e) [],
     nullish_value (se_userId e) [], nullish_value (se_userDisplayName e) [],
     nullish_value (se_ipAddress e) [], nullish_value (se_actorRole e) [],
     nullish_value (se_userAgent e) [], nullish_value (se_sessionId e) [],
     nullish_value (se_requestId e) [], nullish_value (se_outcome e) [],
     nullish_value (se_remarks e) [],
     stableStringify (se_metadata e), stableStringify (se_before e), stableStringify (se_after e),
     se_occurredAt e]"

definition canonicalEventString :: "SealableEvent \<Rightarrow> string" where
  "canonicalEventString e = js_join [RS] (event_fields e)"

definition GENESIS_HASH :: string where
  "GENESIS_HASH = replicate 64 CHR ''0''"

definition computeRowHash :: "(string \<Rightarrow> string) \<Rightarrow> string \<Rightarrow> SealableEvent \<Rightarrow> string" where
  "computeRowHash sha256 prevHash event = sha256 (prevHash @ [RS] @ canonicalEventString event)"

section \<open>Sealing and verification\<close>

fun json_of_object :: "(string \<times> Json) list option \<Rightarrow> Json" where
  "json_of_object None = JNull"
| "json_of_object (Some kvs) = JObject kvs"

definition toSealable :: "RecordedAuditEvent \<Rightarrow> SealableEvent" where
  "toSealable e =
    \<lparr> se_id = row_id e, se_category = eventCategoryValue (ae_category e), se_eventType = ae_eventType e,
      se_entityType = ae_entityType e, se_entityId = ae_entityId e,
      se_previousState = ae_previousState e, se_newState = ae_newState e, se_userId = ae_userId e,
      se_userDisplayName = ae_userDisplayName e, se_ipAddress = ae_ipAddress e,
      se_actorRole = ae_actorRole e, se_userAgent = ae_userAgent e, se_sessionId = ae_sessionId e,
      se_requestId = ae_requestId e, se_outcome = Some (auditOutcomeValue (ae_outcome e)),
      se_remarks = ae_remarks e, se_metadata = json_of_object (ae_metadata e),
      se_before = json_of_object (ae_before e), se_after = json_of_object (ae_after e),
      se_occurredAt = row_occurredAt e \<rparr>"

record ChainRow =
  cr_seq :: nat
  cr_auditEventId :: string
  cr_prevHash :: string
  cr_rowHash :: string

text \<open>The two tables. The chain is listed in \<^verbatim>\<open>seq\<close> order; \<open>nextSeq\<close> is the identity column's counter.\<close>

record audit_db =
  trail :: "RecordedAuditEvent list"
  chain :: "ChainRow list"
  nextSeq :: nat

record SealResult =
  sr_sealed :: nat
  sr_more :: bool

definition SEAL_BATCH :: nat where
  "SEAL_BATCH = 2000"

definition is_sealed :: "ChainRow list \<Rightarrow> RecordedAuditEvent \<Rightarrow> bool" where
  "is_sealed c e \<longleftrightarrow> list_ex (\<lambda>r. cr_auditEventId r = row_id e) c"

definition unsealed_events :: "audit_db \<Rightarrow> RecordedAuditEvent list" where
  "unsealed_events db =
     sort_key (\<lambda>e. (row_occurredAt e, row_id e)) (filter (\<lambda>e. \<not> is_sealed (chain db) e) (trail db))"

definition chain_tail :: "ChainRow list \<Rightarrow> string" where
  "chain_tail c = (if c = [] then GENESIS_HASH else cr_rowHash (last c))"

fun seal_rows :: "(string \<Rightarrow> string) \<Rightarrow> string \<Rightarrow> nat \<Rightarrow> RecordedAuditEvent list \<Rightarrow> ChainRow list" where
  "seal_rows sha256 prevHash seq [] = []"
| "seal_rows sha256 prevHash seq (event # es) =
    (let rowHash = computeRowHash sha256 prevHash (toSealable event)
     in \<lparr> cr_seq = seq, cr_auditEventId = row_id event, cr_prevHash = prevHash, cr_rowHash = rowHash \<rparr>
        # seal_rows sha256 rowHash (Suc seq) es)"

definition sealOnce :: "(string \<Rightarrow> string) \<Rightarrow> audit_db \<Rightarrow> audit_db \<times> SealResult" where
  "sealOnce sha256 db =
    (let unsealed = take SEAL_BATCH (unsealed_events db)
     in if unsealed = [] then (db, \<lparr> sr_sealed = 0, sr_more = False \<rparr>)
        else (db\<lparr> chain := chain db @ seal_rows sha256 (chain_tail (chain db)) (nextSeq db) unsealed,
                  nextSeq := nextSeq db + length unsealed \<rparr>,
              \<lparr> sr_sealed = length unsealed, sr_more = (length unsealed = SEAL_BATCH) \<rparr>))"

definition unsealedCount :: "audit_db \<Rightarrow> nat" where
  "unsealedCount db = length (filter (\<lambda>e. \<not> is_sealed (chain db) e) (trail db))"

datatype BrokenReason = CONTENT_ALTERED | LINK_BROKEN | EVENT_MISSING

datatype VerifyResult =
    Verified (checked: nat) (truncated: bool)
  | Broken (checked: nat) (brokenAtSeq: nat) (reason: BrokenReason)

fun verify_walk :: "(string \<Rightarrow> string) \<Rightarrow> RecordedAuditEvent list \<Rightarrow> bool \<Rightarrow> string \<Rightarrow> nat \<Rightarrow> ChainRow list
    \<Rightarrow> VerifyResult" where
  "verify_walk sha256 events trunc expectedPrev n [] = Verified n trunc"
| "verify_walk sha256 events trunc expectedPrev n (row # rows) =
    (case List.find (\<lambda>e. row_id e = cr_auditEventId row) events of
       None \<Rightarrow> Broken n (cr_seq row) EVENT_MISSING
     | Some event \<Rightarrow>
         if cr_prevHash row \<noteq> expectedPrev then Broken n (cr_seq row) LINK_BROKEN
         else if computeRowHash sha256 expectedPrev (toSealable event) \<noteq> cr_rowHash row
           then Broken n (cr_seq row) CONTENT_ALTERED
         else verify_walk sha256 events trunc (cr_rowHash row) (Suc n) rows)"

definition verify :: "(string \<Rightarrow> string) \<Rightarrow> nat \<Rightarrow> audit_db \<Rightarrow> VerifyResult" where
  "verify sha256 limit db =
    (let trunc = limit < length (chain db);
         window = take limit (chain db)
     in if window = [] then Verified 0 False
        else verify_walk sha256 (trail db) trunc GENESIS_HASH 0 window)"

section \<open>The text is free of separators\<close>

lemma hex_digit_code: "d < 16 \<Longrightarrow> 32 \<le> code (hex_digit d)"
  by (auto simp: hex_digit_def digit_char_def)

lemma json_escape_printable:
  assumes "c \<in> set (json_escape d)"
  shows "32 \<le> code c"
proof -
  have "32 \<le> code (hex_digit (code d div 16))" "32 \<le> code (hex_digit (code d mod 16))"
    using code_less [of d] by (simp_all add: hex_digit_code)
  moreover have "code (CHR 0x5C) = 92" "code (CHR 0x22) = 34" "code (CHR ''b'') = 98" "code (CHR ''t'') = 116"
    "code (CHR ''n'') = 110" "code (CHR ''f'') = 102" "code (CHR ''r'') = 114" "code (CHR ''u'') = 117"
    "code (CHR ''0'') = 48"
    by (simp_all add: code_def)
  ultimately show ?thesis using assms by (auto simp: json_escape_def split: if_splits)
qed

lemma json_quote_printable: "c \<in> set (json_quote s) \<Longrightarrow> 32 \<le> code c"
  by (auto simp: json_quote_def json_escape_printable code_def dest: json_escape_printable)

lemma set_js_join: "set (js_join sep xs) \<subseteq> set sep \<union> (\<Union>x \<in> set xs. set x)"
  by (induction sep xs rule: js_join.induct) auto

lemma js_join_printable:
  assumes "\<And>x d. x \<in> set xs \<Longrightarrow> d \<in> set x \<Longrightarrow> 32 \<le> code d" and "c \<in> set (js_join '','' xs)"
  shows "32 \<le> code c"
proof -
  have "code (CHR '','') = 44" by (simp add: code_def)
  with assms set_js_join [of "'',''" xs] show ?thesis by fastforce
qed

text \<open>Numbers are printed with digits, signs, a point and an exponent: no control character.\<close>

primrec json_numbers_ok :: "Json \<Rightarrow> bool" where
  "json_numbers_ok JNull = True"
| "json_numbers_ok (JBool b) = True"
| "json_numbers_ok (JNumber n) = list_all (\<lambda>c. 32 \<le> code c) n"
| "json_numbers_ok (JString s) = True"
| "json_numbers_ok (JArray vs) = list_all id (map json_numbers_ok vs)"
| "json_numbers_ok (JObject kvs) = list_all snd (map (map_prod id json_numbers_ok) kvs)"

lemma stable_printable:
  "json_numbers_ok v \<Longrightarrow> c \<in> set (stableStringify v) \<Longrightarrow> 32 \<le> code c"
proof (induction v arbitrary: c)
  case (JArray vs)
  then have "32 \<le> code d" if "x \<in> set (map stableStringify vs)" "d \<in> set x" for x d
    using that by (auto simp: list_all_iff)
  then have "c \<in> set (js_join '','' (map stableStringify vs)) \<Longrightarrow> 32 \<le> code c"
    by (rule js_join_printable)
  moreover have "code (CHR ''['') = 91" "code (CHR '']'') = 93" by (simp_all add: code_def)
  ultimately show ?case using JArray.prems by auto
next
  case (JObject kvs)
  let ?ps = "map (\<lambda>(k, s). json_quote k @ '':'' @ s) (sort_key fst (map (map_prod id stableStringify) kvs))"
  have value_ok: "32 \<le> code d" if "(k, v) \<in> set kvs" "d \<in> set (stableStringify v)" for k v d
    using JObject.IH [of "(k, v)" v d] JObject.prems(1) that by (auto simp: list_all_iff)
  have "32 \<le> code d" if x: "x \<in> set ?ps" and d: "d \<in> set x" for x d
  proof -
    obtain k v where "(k, v) \<in> set kvs" and "x = json_quote k @ '':'' @ stableStringify v"
      using x by auto
    moreover have "code (CHR '':'') = 58" by (simp add: code_def)
    ultimately show ?thesis using d value_ok json_quote_printable by auto
  qed
  then have "c \<in> set (js_join '','' ?ps) \<Longrightarrow> 32 \<le> code c"
    by (rule js_join_printable)
  moreover have "code (CHR ''{'') = 123" "code (CHR ''}'') = 125" by (simp_all add: code_def)
  ultimately show ?case using JObject.prems by auto
qed (auto simp: code_def list_all_iff json_quote_printable split: if_splits dest!: json_quote_printable)

lemma takeWhile_before: "r \<notin> set x \<Longrightarrow> takeWhile (\<lambda>c. c \<noteq> r) (x @ r # z) = x"
  by (induction x) auto

lemma split_at_separator:
  assumes "x @ r # z = y @ r # w" and "r \<notin> set x" and "r \<notin> set y"
  shows "x = y \<and> z = w"
proof -
  from assms have "x = y" by (metis takeWhile_before)
  with assms(1) show ?thesis by simp
qed

lemma js_join_inject:
  "length xs = length ys \<Longrightarrow> \<forall>x \<in> set xs. r \<notin> set x \<Longrightarrow> \<forall>y \<in> set ys. r \<notin> set y \<Longrightarrow>
   js_join [r] xs = js_join [r] ys \<Longrightarrow> xs = ys"
proof (induction xs ys rule: list_induct2)
  case (Cons x xs y ys)
  show ?case
  proof (cases xs)
    case Nil
    with Cons show ?thesis by simp
  next
    case (Cons x' xs')
    then obtain y' ys' where ys: "ys = y' # ys'" using \<open>length xs = length ys\<close> by (cases ys) auto
    have "x @ r # js_join [r] xs = y @ r # js_join [r] ys"
      using Cons.prems(3) \<open>xs = x' # xs'\<close> ys by simp
    then have "x = y \<and> js_join [r] xs = js_join [r] ys"
      by (rule split_at_separator) (use Cons.prems in auto)
    with Cons.IH Cons.prems show ?thesis by simp
  qed
qed simp

section \<open>Key order does not matter\<close>

text \<open>Two JSON values with the same content: objects may list their keys in different orders.\<close>

inductive same_content :: "Json \<Rightarrow> Json \<Rightarrow> bool" where
  same_atom: "same_content v v"
| same_array: "list_all2 same_content vs ws \<Longrightarrow> same_content (JArray vs) (JArray ws)"
| same_object: "list_all2 (rel_prod (=) same_content) kvs us \<Longrightarrow> mset us = mset ws \<Longrightarrow> distinct (map fst kvs)
    \<Longrightarrow> same_content (JObject kvs) (JObject ws)"
monos list.rel_mono prod.rel_mono

lemma sort_key_fst_perm:
  assumes "mset us = mset ws" and "distinct (map fst us)"
  shows "sort_key fst us = sort_key fst ws"
proof -
  have "inj_on fst (set us)" using assms(2) by (simp add: distinct_map)
  then show ?thesis using assms(1) by (intro sort_key_inj_key_eq) simp_all
qed

lemma stable_same_content: "same_content v w \<Longrightarrow> stableStringify v = stableStringify w"
proof (induction rule: same_content.induct)
  case (same_array vs ws)
  then have "map stableStringify vs = map stableStringify ws"
    by (induction rule: list_all2_induct) auto
  then show ?case by (simp only: stableStringify.simps)
next
  case (same_object kvs us ws)
  let ?f = "map_prod id stableStringify :: string \<times> Json \<Rightarrow> string \<times> string"
  have us: "map ?f kvs = map ?f us"
    using same_object(1) by (induction rule: list_all2_induct) auto
  moreover have "map fst (map ?f kvs) = map fst kvs" by simp
  ultimately have "map fst (map ?f us) = map fst kvs" by (simp only:)
  then have "distinct (map fst (map ?f us))" using same_object(3) by simp
  moreover have "mset (map ?f us) = mset (map ?f ws)" using same_object(2) by simp
  ultimately have "sort_key fst (map ?f kvs) = sort_key fst (map ?f ws)"
    unfolding us by (intro sort_key_fst_perm)
  then show ?case by (simp only: stableStringify.simps)
qed simp

section \<open>Valid chains\<close>

definition event_of :: "RecordedAuditEvent list \<Rightarrow> ChainRow \<Rightarrow> RecordedAuditEvent option" where
  "event_of events row = List.find (\<lambda>e. row_id e = cr_auditEventId row) events"

fun chain_valid :: "(string \<Rightarrow> string) \<Rightarrow> RecordedAuditEvent list \<Rightarrow> string \<Rightarrow> ChainRow list \<Rightarrow> bool" where
  "chain_valid sha256 events prev [] = True"
| "chain_valid sha256 events prev (row # rows) =
    (case event_of events row of
       None \<Rightarrow> False
     | Some e \<Rightarrow> cr_prevHash row = prev \<and> computeRowHash sha256 prev (toSealable e) = cr_rowHash row
         \<and> chain_valid sha256 events (cr_rowHash row) rows)"

lemma verify_walk_valid:
  "verify_walk sha256 events trunc prev n rows = Verified (n + length rows) trunc
     \<longleftrightarrow> chain_valid sha256 events prev rows"
  by (induction sha256 events trunc prev n rows rule: verify_walk.induct)
     (auto simp: event_of_def split: option.splits)

lemma verify_walk_Verified:
  "verify_walk sha256 events trunc prev n rows = Verified m b \<Longrightarrow> m = n + length rows \<and> b = trunc"
  by (induction sha256 events trunc prev n rows rule: verify_walk.induct)
     (auto split: option.splits if_splits)

lemma verify_ok_iff:
  "(\<exists>n b. verify sha256 limit db = Verified n b)
     \<longleftrightarrow> chain_valid sha256 (trail db) GENESIS_HASH (take limit (chain db))"
proof (cases "take limit (chain db) = []")
  case True
  then have "verify sha256 limit db = Verified 0 False" by (simp add: verify_def Let_def)
  moreover have "chain_valid sha256 (trail db) GENESIS_HASH (take limit (chain db))"
    unfolding True by simp
  ultimately show ?thesis by blast
next
  case False
  let ?w = "take limit (chain db)"
  let ?t = "limit < length (chain db)"
  have walk: "verify sha256 limit db = verify_walk sha256 (trail db) ?t GENESIS_HASH 0 ?w"
    using False by (simp add: verify_def Let_def)
  have "(\<exists>n b. verify sha256 limit db = Verified n b) \<longleftrightarrow> verify sha256 limit db = Verified (0 + length ?w) ?t"
    unfolding walk using verify_walk_Verified by blast
  then show ?thesis unfolding walk verify_walk_valid .
qed

lemma verify_full:
  "chain_valid sha256 (trail db) GENESIS_HASH (chain db) \<Longrightarrow> length (chain db) \<le> limit \<Longrightarrow>
   verify sha256 limit db = Verified (length (chain db)) False"
  using verify_walk_valid [of sha256 "trail db" False GENESIS_HASH 0 "chain db"]
  by (auto simp: verify_def Let_def)

lemma chain_valid_append:
  "chain_valid sha256 events prev (xs @ ys) \<longleftrightarrow>
   chain_valid sha256 events prev xs
   \<and> chain_valid sha256 events (if xs = [] then prev else cr_rowHash (last xs)) ys"
  by (induction xs arbitrary: prev) (auto split: option.splits)

lemma chain_valid_more_events:
  "chain_valid sha256 events prev rows \<Longrightarrow> chain_valid sha256 (events @ es) prev rows"
proof (induction rows arbitrary: prev)
  case (Cons row rows)
  have "event_of (events @ es) row = event_of events row" if "event_of events row \<noteq> None"
    using that unfolding event_of_def by (induction events) auto
  with Cons show ?case by (auto split: option.splits)
qed simp

lemma event_of_distinct:
  "distinct (map row_id events) \<Longrightarrow> e \<in> set events \<Longrightarrow> cr_auditEventId row = row_id e \<Longrightarrow>
   event_of events row = Some e"
  unfolding event_of_def by (induction events) auto

lemma seal_rows_valid:
  "distinct (map row_id events) \<Longrightarrow> set es \<subseteq> set events \<Longrightarrow>
   chain_valid sha256 events prev (seal_rows sha256 prev seq es)"
  by (induction sha256 prev seq es rule: seal_rows.induct) (auto simp: Let_def event_of_distinct)

lemma seal_rows_ids: "map cr_auditEventId (seal_rows sha256 prev seq es) = map row_id es"
  by (induction sha256 prev seq es rule: seal_rows.induct) (simp_all add: Let_def)

lemma seal_rows_seqs: "map cr_seq (seal_rows sha256 prev seq es) = [seq ..< seq + length es]"
proof (induction sha256 prev seq es rule: seal_rows.induct)
  case (2 sha256 prev seq e es)
  then have "map cr_seq (seal_rows sha256 prev seq (e # es)) = seq # [Suc seq ..< seq + length (e # es)]"
    by (simp add: Let_def)
  also have "\<dots> = [seq ..< seq + length (e # es)]" by (simp add: upt_conv_Cons del: upt_Suc)
  finally show ?case .
qed simp

lemma seal_rows_Nil [simp]: "seal_rows sha256 prev seq es = [] \<longleftrightarrow> es = []"
  by (cases es) (simp_all add: Let_def)

section \<open>The two tables under recording and sealing\<close>

definition db_ok :: "(string \<Rightarrow> string) \<Rightarrow> audit_db \<Rightarrow> bool" where
  "db_ok sha256 db \<longleftrightarrow> distinct (map row_id (trail db))
     \<and> chain_valid sha256 (trail db) GENESIS_HASH (chain db)
     \<and> distinct (map cr_auditEventId (chain db))
     \<and> sorted_wrt (<) (map cr_seq (chain db)) \<and> (\<forall>r \<in> set (chain db). cr_seq r < nextSeq db)"

text \<open>Recording into the tables: the id is the primary key, so a repeated one is refused.\<close>

definition record_into :: "insert_env \<Rightarrow> RequestContext option \<Rightarrow> RecordAuditEventInput \<Rightarrow> audit_db
    \<Rightarrow> (string, audit_db) result" where
  "record_into env context dto db =
    (if env_newId env \<in> set (map row_id (trail db)) then Inl ''duplicate key''
     else map_sum id (\<lambda>t. db\<lparr> trail := t \<rparr>) (recordEvent env context dto (trail db)))"

datatype audit_op = RecordOp insert_env "RequestContext option" RecordAuditEventInput | SealOp

fun audit_apply :: "(string \<Rightarrow> string) \<Rightarrow> audit_op \<Rightarrow> audit_db \<Rightarrow> (string, audit_db) result" where
  "audit_apply sha256 (RecordOp env context dto) db = record_into env context dto db"
| "audit_apply sha256 SealOp db = Inr (fst (sealOnce sha256 db))"

definition empty_db :: audit_db where
  "empty_db = \<lparr> trail = [], chain = [], nextSeq = 1 \<rparr>"

lemma row_id_audit_row [simp]: "row_id (audit_row i n e) = i"
  by (simp add: audit_row_def AuditEvent.extend_def)

lemma record_into_ok: "db_ok sha256 db \<Longrightarrow> record_into env context dto db = Inr db' \<Longrightarrow> db_ok sha256 db'"
  by (auto simp: record_into_def recordEvent_cases db_ok_def chain_valid_more_events
      split: if_splits option.splits)

lemma unsealed_set: "set (unsealed_events db) = {e \<in> set (trail db). \<not> is_sealed (chain db) e}"
  by (auto simp: unsealed_events_def)

lemma unsealed_length: "length (unsealed_events db) = unsealedCount db"
  by (simp add: unsealed_events_def unsealedCount_def)

lemma unsealed_distinct: "distinct (map row_id (trail db)) \<Longrightarrow> distinct (map row_id (unsealed_events db))"
  by (simp add: unsealed_events_def distinct_map inj_on_def)

lemma sealOnce_cases:
  "sealOnce sha256 db =
    (db\<lparr> chain := chain db @ seal_rows sha256 (chain_tail (chain db)) (nextSeq db) (take SEAL_BATCH (unsealed_events db)),
         nextSeq := nextSeq db + min SEAL_BATCH (unsealedCount db) \<rparr>,
     \<lparr> sr_sealed = min SEAL_BATCH (unsealedCount db), sr_more = (SEAL_BATCH \<le> unsealedCount db) \<rparr>)"
proof (cases "take SEAL_BATCH (unsealed_events db) = []")
  case True
  then have "unsealedCount db = 0" by (auto simp: SEAL_BATCH_def unsealed_length [symmetric])
  with True show ?thesis by (simp add: sealOnce_def SEAL_BATCH_def)
next
  case False
  then show ?thesis by (auto simp: sealOnce_def Let_def unsealed_length min_def)
qed

lemma chain_valid_tail:
  "chain_valid sha256 events GENESIS_HASH (c @ ys) \<longleftrightarrow>
   chain_valid sha256 events GENESIS_HASH c \<and> chain_valid sha256 events (chain_tail c) ys"
  by (simp add: chain_valid_append chain_tail_def)

lemma seal_ok:
  assumes ok: "db_ok sha256 db"
  shows "db_ok sha256 (fst (sealOnce sha256 db))"
proof -
  let ?es = "take SEAL_BATCH (unsealed_events db)"
  let ?new = "seal_rows sha256 (chain_tail (chain db)) (nextSeq db) ?es"
  have ids: "distinct (map row_id ?es)"
    using ok unsealed_distinct [of db] by (simp add: db_ok_def take_map [symmetric])
  have es: "set ?es \<subseteq> {e \<in> set (trail db). \<not> is_sealed (chain db) e}"
    using set_take_subset unsealed_set by metis
  then have "chain_valid sha256 (trail db) (chain_tail (chain db)) ?new"
    using ok by (intro seal_rows_valid) (auto simp: db_ok_def)
  moreover have "distinct (map cr_auditEventId (chain db @ ?new))"
    using ok ids es by (auto simp: db_ok_def seal_rows_ids is_sealed_def list_ex_iff)
  moreover have "sorted_wrt (<) (map cr_seq (chain db @ ?new))"
    using ok by (auto simp: db_ok_def seal_rows_seqs sorted_wrt_append)
  moreover have "\<forall>r \<in> set ?new. cr_seq r < nextSeq db + length ?es"
  proof
    fix r assume "r \<in> set ?new"
    then have "cr_seq r \<in> set (map cr_seq ?new)" by auto
    then show "cr_seq r < nextSeq db + length ?es" by (simp add: seal_rows_seqs)
  qed
  ultimately show ?thesis
    using ok by (auto simp: db_ok_def sealOnce_cases chain_valid_tail unsealed_length min.commute)
qed

lemma audit_apply_ok: "db_ok sha256 db \<Longrightarrow> audit_apply sha256 op db = Inr db' \<Longrightarrow> db_ok sha256 db'"
  by (cases op) (auto simp: record_into_ok seal_ok)

lemma audit_run_ok: "db_ok sha256 db \<Longrightarrow> db_ok sha256 (run_commands (audit_apply sha256) ops db)"
  by (induction ops arbitrary: db) (auto intro: audit_apply_ok split: sum.split)

lemma empty_db_ok: "db_ok sha256 empty_db"
  by (simp add: db_ok_def empty_db_def)

lemma is_sealed_append: "is_sealed (c @ d) e \<longleftrightarrow> is_sealed c e \<or> is_sealed d e"
  by (simp add: is_sealed_def)

lemma is_sealed_rows: "is_sealed (seal_rows sha256 prev seq es) e \<longleftrightarrow> row_id e \<in> row_id ` set es"
proof -
  have "is_sealed c e \<longleftrightarrow> row_id e \<in> set (map cr_auditEventId c)" for c
    by (force simp: is_sealed_def list_ex_iff)
  then show ?thesis by (metis seal_rows_ids set_map)
qed

lemma unsealed_after_seal:
  assumes "distinct (map row_id (trail db))"
  shows "unsealedCount (fst (sealOnce sha256 db)) = unsealedCount db - SEAL_BATCH"
proof -
  let ?db' = "fst (sealOnce sha256 db)"
  let ?U = "{e \<in> set (trail db). \<not> is_sealed (chain db) e}"
  let ?es = "take SEAL_BATCH (unsealed_events db)"
  have d: "distinct (trail db)" and inj: "inj_on row_id (set (trail db))"
    using assms by (simp_all add: distinct_map)
  have sub: "set ?es \<subseteq> ?U" by (metis set_take_subset unsealed_set)
  have "{e \<in> set (trail db). \<not> is_sealed (chain ?db') e} = ?U - set ?es"
    using sub inj by (auto simp: sealOnce_cases is_sealed_append is_sealed_rows inj_on_def)
  then have "unsealedCount ?db' = card (?U - set ?es)"
    using d by (simp add: unsealedCount_def sealOnce_cases distinct_length_filter Collect_conj_eq Int_commute)
  also have "\<dots> = card ?U - card (set ?es)" by (rule card_Diff_subset) (use sub in auto)
  also have "card (set ?es) = length ?es"
    using d by (intro distinct_card) (simp add: unsealed_events_def distinct_take)
  also have "card ?U = unsealedCount db"
    using d by (simp add: unsealedCount_def distinct_length_filter Collect_conj_eq Int_commute)
  finally show ?thesis by (simp add: unsealed_length)
qed

text \<open>What was hashed for each row of a valid chain.\<close>

fun hashed_inputs :: "RecordedAuditEvent list \<Rightarrow> ChainRow list \<Rightarrow> string list" where
  "hashed_inputs events [] = []"
| "hashed_inputs events (row # rows) =
    (case event_of events row of
       None \<Rightarrow> []
     | Some e \<Rightarrow> cr_prevHash row @ [RS] @ canonicalEventString (toSealable e)) # hashed_inputs events rows"

lemma length_hashed [simp]: "length (hashed_inputs events rows) = length rows"
  by (induction rows) auto

lemma hashed_append: "hashed_inputs events (xs @ ys) = hashed_inputs events xs @ hashed_inputs events ys"
  by (induction xs) auto

definition sealed_content :: "RecordedAuditEvent list \<Rightarrow> ChainRow list \<Rightarrow> (string \<times> string option) list" where
  "sealed_content events rows =
     map (\<lambda>row. (cr_rowHash row, map_option (canonicalEventString \<circ> toSealable) (event_of events row))) rows"

lemma chain_tail_length:
  "\<forall>x. length (sha256 x) = 64 \<Longrightarrow> chain_valid sha256 events GENESIS_HASH c \<Longrightarrow> length (chain_tail c) = 64"
proof (cases c rule: rev_cases)
  case (snoc xs r)
  assume "\<forall>x. length (sha256 x) = 64" and "chain_valid sha256 events GENESIS_HASH c"
  with snoc show ?thesis
    by (auto simp: chain_tail_def chain_valid_tail computeRowHash_def split: option.splits)
       (metis (no_types, lifting))+
qed (simp add: chain_tail_def GENESIS_HASH_def)

text \<open>
  Two valid chains of the same length that end in the same hash seal the same contents, or some row
  of theirs is a collision of the hash function.
\<close>

lemma same_head_same_content:
  assumes len64: "\<forall>x. length (sha256 x) = 64"
  shows "chain_valid sha256 ev GENESIS_HASH c \<Longrightarrow> chain_valid sha256 ev' GENESIS_HASH c' \<Longrightarrow>
    length c = length c' \<Longrightarrow> chain_tail c = chain_tail c' \<Longrightarrow>
    sealed_content ev c = sealed_content ev' c'
    \<or> (\<exists>i < length c. hashed_inputs ev c ! i \<noteq> hashed_inputs ev' c' ! i
         \<and> sha256 (hashed_inputs ev c ! i) = sha256 (hashed_inputs ev' c' ! i))"
proof (induction c arbitrary: c' rule: rev_induct)
  case (snoc r xs)
  from snoc.prems(3) obtain ys s where c': "c' = ys @ [s]" "length xs = length ys"
    by (cases c' rule: rev_cases) auto
  from snoc.prems(1) obtain e where xs: "chain_valid sha256 ev GENESIS_HASH xs" and e: "event_of ev r = Some e"
    and r: "cr_prevHash r = chain_tail xs" "computeRowHash sha256 (chain_tail xs) (toSealable e) = cr_rowHash r"
    by (auto simp: chain_valid_tail split: option.splits)
  from snoc.prems(2) c' obtain f where ys: "chain_valid sha256 ev' GENESIS_HASH ys" and f: "event_of ev' s = Some f"
    and s: "cr_prevHash s = chain_tail ys" "computeRowHash sha256 (chain_tail ys) (toSealable f) = cr_rowHash s"
    by (auto simp: chain_valid_tail split: option.splits)
  let ?x = "chain_tail xs @ [RS] @ canonicalEventString (toSealable e)"
  let ?y = "chain_tail ys @ [RS] @ canonicalEventString (toSealable f)"
  have last: "hashed_inputs ev (xs @ [r]) = hashed_inputs ev xs @ [?x]"
    "hashed_inputs ev' c' = hashed_inputs ev' ys @ [?y]"
    using e f r s c' by (simp_all add: hashed_append)
  have head: "sha256 ?x = sha256 ?y" "cr_rowHash r = cr_rowHash s"
    using snoc.prems(4) r s c' by (simp_all add: computeRowHash_def chain_tail_def)
  show ?case
  proof (cases "?x = ?y")
    case False
    with head last c' show ?thesis by (intro disjI2 exI [of _ "length xs"]) (simp add: nth_append)
  next
    case True
    with chain_tail_length [OF len64 xs] chain_tail_length [OF len64 ys]
    have same: "chain_tail xs = chain_tail ys" "canonicalEventString (toSealable e) = canonicalEventString (toSealable f)"
      by (simp_all add: append_eq_append_conv)
    from snoc.IH [OF xs ys c'(2) same(1)] show ?thesis
    proof
      assume "sealed_content ev xs = sealed_content ev' ys"
      with e f head same c' show ?thesis by (simp add: sealed_content_def)
    next
      assume "\<exists>i < length xs. hashed_inputs ev xs ! i \<noteq> hashed_inputs ev' ys ! i
         \<and> sha256 (hashed_inputs ev xs ! i) = sha256 (hashed_inputs ev' ys ! i)"
      then obtain i where "i < length xs" "hashed_inputs ev xs ! i \<noteq> hashed_inputs ev' ys ! i"
        "sha256 (hashed_inputs ev xs ! i) = sha256 (hashed_inputs ev' ys ! i)" by blast
      with last c' show ?thesis by (intro disjI2 exI [of _ i]) (simp add: nth_append)
    qed
  qed
qed (simp add: sealed_content_def)

section \<open>Properties\<close>

text \<open>
  Whether the ids are those of exactly the given number of oldest events, oldest first, among those of a
  trail that a chain does not list: by time of occurrence and, at the same time, by id.
\<close>

definition oldest_unsealed :: "audit_db \<Rightarrow> nat \<Rightarrow> RecordedAuditEvent list \<Rightarrow> bool" where
  "oldest_unsealed db n es \<longleftrightarrow>
     (let waiting = {e \<in> set (trail db). row_id e \<notin> cr_auditEventId ` set (chain db)};
          age = (\<lambda>e. (row_occurredAt e, row_id e))
      in set es \<subseteq> waiting \<and> distinct es \<and> length es = min n (card waiting)
         \<and> sorted_wrt (\<lambda>e f. age e < age f) es
         \<and> (\<forall>e \<in> set es. \<forall>f \<in> waiting - set es. age e < age f))"

lemma is_sealed_iff: "is_sealed c e \<longleftrightarrow> row_id e \<in> cr_auditEventId ` set c"
  by (force simp: is_sealed_def list_ex_iff)

lemma strictly_sorted:
  fixes f :: "'a \<Rightarrow> 'b :: linorder"
  assumes "sorted (map f xs)" "distinct (map f xs)"
  shows "sorted_wrt (\<lambda>x y. f x < f y) xs"
  using assms strict_sorted_iff [of "map f xs"] by (simp add: sorted_wrt_map)

lemma take_of_sorted:
  assumes "sorted_wrt R xs" "x \<in> set (take n xs)" "y \<in> set xs - set (take n xs)"
  shows "R x y"
proof -
  have "sorted_wrt R (take n xs @ drop n xs)" using assms(1) by simp
  moreover have "y \<in> set (drop n xs)" using assms(3) by (metis Diff_iff Un_iff append_take_drop_id set_append)
  ultimately show ?thesis using assms(2) by (simp only: sorted_wrt_append)
qed

lemma seals_oldest:
  assumes "distinct (map row_id (trail db))"
  shows "oldest_unsealed db n (take n (unsealed_events db))"
proof -
  let ?U = "unsealed_events db" and ?age = "\<lambda>e. (row_occurredAt e, row_id e)"
  have ids: "distinct (map row_id ?U)" by (rule unsealed_distinct [OF assms])
  then have d: "distinct ?U" "distinct (map ?age ?U)" by (auto simp: distinct_map inj_on_def)
  have set: "set ?U = {e \<in> set (trail db). row_id e \<notin> cr_auditEventId ` set (chain db)}"
    by (simp add: unsealed_set is_sealed_iff)
  have "sorted (map ?age ?U)" by (simp add: unsealed_events_def)
  then have s: "sorted_wrt (\<lambda>e f. ?age e < ?age f) ?U" using d(2) by (rule strictly_sorted)
  have "length (take n ?U) = min n (card (set ?U))" using distinct_card [OF d(1)] by simp
  then show ?thesis
    using take_of_sorted [OF s] sorted_wrt_take [OF s] d(1) set_take_subset [of n ?U]
    unfolding oldest_unsealed_def Let_def set [symmetric] by simp
qed

text \<open>
  C3. Honest history verifies: from empty tables, after any interleaving of recorded events and
  sealing passes, a verification that reaches the head of the chain succeeds and has checked every
  row; no event is sealed twice. One more sealing pass leaves the sealed part as it is and appends
  rows for exactly the oldest events that are in the trail and not yet in the chain, up to the batch
  size, oldest first by time of occurrence and then id; it reports how many there were and whether the
  batch was full, and leaves exactly the rest, so repeated passes seal everything.
\<close>

theorem sealed_history_verifies:
  assumes "db = run_commands (audit_apply sha256) ops empty_db" and "length (chain db) \<le> limit"
  shows "verify sha256 limit db = Verified (length (chain db)) False
    \<and> distinct (map cr_auditEventId (chain db))
    \<and> (\<exists>es rows. oldest_unsealed db SEAL_BATCH es \<and> chain (fst (sealOnce sha256 db)) = chain db @ rows
         \<and> map cr_auditEventId rows = map row_id es \<and> sr_sealed (snd (sealOnce sha256 db)) = length es)
    \<and> unsealedCount (fst (sealOnce sha256 db)) = unsealedCount db - SEAL_BATCH
    \<and> (sr_more (snd (sealOnce sha256 db)) \<longleftrightarrow> SEAL_BATCH \<le> unsealedCount db)"
proof -
  have ok: "db_ok sha256 db" using audit_run_ok [OF empty_db_ok] assms(1) by simp
  then have v: "verify sha256 limit db = Verified (length (chain db)) False"
    using assms(2) by (intro verify_full) (simp_all add: db_ok_def)
  have ids: "distinct (map row_id (trail db))" "distinct (map cr_auditEventId (chain db))"
    using ok by (simp_all add: db_ok_def)
  let ?es = "take SEAL_BATCH (unsealed_events db)"
  have "chain (fst (sealOnce sha256 db)) = chain db @ seal_rows sha256 (chain_tail (chain db)) (nextSeq db) ?es"
      "sr_sealed (snd (sealOnce sha256 db)) = length ?es" "sr_more (snd (sealOnce sha256 db)) \<longleftrightarrow> SEAL_BATCH \<le> unsealedCount db"
    by (simp_all add: sealOnce_cases unsealed_length min.commute)
  with v ids seals_oldest [OF ids(1)] seal_rows_ids unsealed_after_seal [OF ids(1)] show ?thesis by blast
qed

definition sample_env :: insert_env where
  "sample_env = \<lparr> env_newId = ''e1'', env_now = ''2026-01-01'', env_insertFault = None \<rparr>"

theorem sealed_history_verifies_witness:
  "\<exists>db. chain db \<noteq> [] \<and> verify (\<lambda>x. x) 100000 db = Verified 1 False"
proof -
  let ?db = "run_commands (audit_apply (\<lambda>x. x)) [RecordOp sample_env None sample_input, SealOp] empty_db"
  have len: "length (chain ?db) = 1"
    by (simp add: record_into_def recordEvent_cases sample_env_def empty_db_def sealOnce_cases
        unsealed_events_def is_sealed_def SEAL_BATCH_def Let_def)
  with sealed_history_verifies [of ?db "\<lambda>x. x" "[RecordOp sample_env None sample_input, SealOp]" 100000]
  have "verify (\<lambda>x. x) 100000 ?db = Verified 1 False" by simp
  moreover from len have "chain ?db \<noteq> []" by auto
  ultimately show ?thesis by blast
qed

text \<open>
  C35. Tampering shows against a known head: if two pairs of tables both verify in full, have chains of
  the same length and end in the same row hash, then row for row they carry the same hashes and the
  same canonical event text, unless the hash function itself maps two different inputs, exhibited at
  one of the rows, to the same digest.
\<close>

theorem chain_tamper_evident:
  assumes "\<forall>x. length (sha256 x) = 64"
    and "\<exists>n. verify sha256 (length (chain db)) db = Verified n False"
    and "\<exists>n. verify sha256 (length (chain db')) db' = Verified n False"
    and "length (chain db) = length (chain db')"
    and "chain_tail (chain db) = chain_tail (chain db')"
  shows "sealed_content (trail db) (chain db) = sealed_content (trail db') (chain db')
    \<or> (\<exists>i < length (chain db). hashed_inputs (trail db) (chain db) ! i \<noteq> hashed_inputs (trail db') (chain db') ! i
         \<and> sha256 (hashed_inputs (trail db) (chain db) ! i) = sha256 (hashed_inputs (trail db') (chain db') ! i))"
proof (rule same_head_same_content [OF assms(1) _ _ assms(4,5)])
  show "chain_valid sha256 (trail db) GENESIS_HASH (chain db)"
    using verify_ok_iff [of sha256 "length (chain db)" db] assms(2) by auto
  show "chain_valid sha256 (trail db') GENESIS_HASH (chain db')"
    using verify_ok_iff [of sha256 "length (chain db')" db'] assms(3) by auto
qed

definition pad64 :: "string \<Rightarrow> string" where
  "pad64 x = take 64 x @ replicate (64 - length x) CHR ''0''"

definition sample_run :: "audit_op list \<Rightarrow> audit_db" where
  "sample_run ops = run_commands (audit_apply pad64) ([RecordOp sample_env None sample_input, SealOp] @ ops) empty_db"

lemma sample_run_ok: "\<exists>n. verify pad64 (length (chain (sample_run ops))) (sample_run ops) = Verified n False"
proof -
  have "db_ok pad64 (sample_run ops)" unfolding sample_run_def by (rule audit_run_ok [OF empty_db_ok])
  then show ?thesis using verify_full [of pad64 "sample_run ops"] by (simp add: db_ok_def)
qed

theorem chain_tamper_evident_witness:
  "let db = sample_run []; db' = sample_run [RecordOp (sample_env\<lparr> env_newId := ''e2'' \<rparr>) None sample_input]
   in chain db \<noteq> [] \<and> trail db \<noteq> trail db' \<and>
    (sealed_content (trail db) (chain db) = sealed_content (trail db') (chain db')
    \<or> (\<exists>i < length (chain db). hashed_inputs (trail db) (chain db) ! i \<noteq> hashed_inputs (trail db') (chain db') ! i
         \<and> pad64 (hashed_inputs (trail db) (chain db) ! i) = pad64 (hashed_inputs (trail db') (chain db') ! i)))"
proof -
  let ?db = "sample_run []"
  let ?db' = "sample_run [RecordOp (sample_env\<lparr> env_newId := ''e2'' \<rparr>) None sample_input]"
  have "\<forall>x. length (pad64 x) = 64" by (simp add: pad64_def min_def)
  moreover have "chain ?db = chain ?db'" "chain ?db \<noteq> []" "trail ?db \<noteq> trail ?db'"
    by (simp_all add: sample_run_def record_into_def recordEvent_cases sample_env_def empty_db_def sealOnce_cases
        unsealed_events_def is_sealed_def SEAL_BATCH_def Let_def)
  ultimately show ?thesis
    using chain_tamper_evident [of pad64 ?db ?db', OF _ sample_run_ok sample_run_ok] unfolding Let_def by simp
qed

text \<open>
  What the chain alone cannot show: whoever can rewrite both tables can re-seal any other trail
  into a chain that verifies, and a chain whose last rows were cut off together with their events
  verifies as well. The evidence is only as good as a head hash kept elsewhere.
\<close>

theorem unanchored_chain_limits:
  "(\<forall>forged. distinct (map row_id forged) \<and> length forged \<le> limit \<longrightarrow>
      verify sha256 limit \<lparr> trail = forged, chain = seal_rows sha256 GENESIS_HASH 1 forged, nextSeq = n \<rparr>
        = Verified (length forged) False)
   \<and> (chain_valid sha256 (trail db) GENESIS_HASH (chain db) \<longrightarrow>
      (\<exists>m b. verify sha256 limit (db\<lparr> chain := take k (chain db) \<rparr>) = Verified m b))"
proof (intro conjI allI impI)
  fix forged :: "RecordedAuditEvent list"
  assume f: "distinct (map row_id forged) \<and> length forged \<le> limit"
  have "length (seal_rows sha256 GENESIS_HASH 1 forged) = length forged"
    by (metis length_map seal_rows_ids)
  then show "verify sha256 limit \<lparr> trail = forged, chain = seal_rows sha256 GENESIS_HASH 1 forged, nextSeq = n \<rparr>
        = Verified (length forged) False"
    using f by (subst verify_full) (simp_all add: seal_rows_valid)
next
  assume v: "chain_valid sha256 (trail db) GENESIS_HASH (chain db)"
  have "chain_valid sha256 (trail db) GENESIS_HASH (take limit (take k (chain db)))"
    using v by (metis append_take_drop_id chain_valid_tail)
  then show "\<exists>m b. verify sha256 limit (db\<lparr> chain := take k (chain db) \<rparr>) = Verified m b"
    by (simp add: verify_ok_iff)
qed

theorem unanchored_chain_limits_witness:
  "verify (\<lambda>x. x) 10 \<lparr> trail = [audit_row ''e9'' ''2026'' (AuditEvent_record sample_input)],
      chain = seal_rows (\<lambda>x. x) GENESIS_HASH 1 [audit_row ''e9'' ''2026'' (AuditEvent_record sample_input)],
      nextSeq = 2 \<rparr> = Verified 1 False"
proof -
  let ?forged = "[audit_row ''e9'' ''2026'' (AuditEvent_record sample_input)]"
  have "distinct (map row_id ?forged) \<and> length ?forged \<le> 10" by simp
  with unanchored_chain_limits [of 10 "\<lambda>x. x" 2 empty_db 0]
  have "verify (\<lambda>x. x) 10 \<lparr> trail = ?forged, chain = seal_rows (\<lambda>x. x) GENESIS_HASH 1 ?forged, nextSeq = 2 \<rparr>
      = Verified (length ?forged) False" by blast
  then show ?thesis by (simp only: list.size) simp
qed

text \<open>
  The canonical text identifies an event: as long as no text field contains the separator, two
  events with the same canonical text agree on every field (an absent field reads as the empty text),
  and the JSON fields, whatever they contain, cannot blur the fields around them; two JSON values
  that differ only in the order of their keys have the same text.
\<close>

theorem canonical_text_faithful:
  assumes "\<forall>x \<in> set (take 16 (event_fields e)) \<union> {se_occurredAt e}. RS \<notin> set x"
    and "\<forall>x \<in> set (take 16 (event_fields e')) \<union> {se_occurredAt e'}. RS \<notin> set x"
    and "\<forall>v \<in> {se_metadata e, se_before e, se_after e, se_metadata e', se_before e', se_after e'}. json_numbers_ok v"
  shows "(canonicalEventString e = canonicalEventString e' \<longleftrightarrow> event_fields e = event_fields e')
    \<and> (\<forall>v w. same_content v w \<longrightarrow> stableStringify v = stableStringify w)"
proof (intro conjI allI impI)
  have "code RS = 31" by (simp add: RS_def code_def)
  then have json: "RS \<notin> set (stableStringify v)" if "json_numbers_ok v" for v
    using stable_printable [OF that, of RS] by auto
  have fields: "set (event_fields z) = set (take 16 (event_fields z)) \<union> {se_occurredAt z}
      \<union> {stableStringify (se_metadata z), stableStringify (se_before z), stableStringify (se_after z)}" for z
    by (simp add: event_fields_def) blast
  have free: "\<forall>x \<in> set (event_fields e). RS \<notin> set x" "\<forall>x \<in> set (event_fields e'). RS \<notin> set x"
    unfolding fields using assms json by auto
  show "canonicalEventString e = canonicalEventString e' \<longleftrightarrow> event_fields e = event_fields e'"
    using js_join_inject [of "event_fields e" "event_fields e'" RS] free
    by (auto simp: canonicalEventString_def event_fields_def)
qed (rule stable_same_content)

definition sample_event :: "string \<Rightarrow> string option \<Rightarrow> SealableEvent" where
  "sample_event displayName ip =
    \<lparr> se_id = ''1'', se_category = ''USER'', se_eventType = ''LOGIN'', se_entityType = ''USER'', se_entityId = ''2'',
      se_previousState = None, se_newState = None, se_userId = None, se_userDisplayName = Some displayName,
      se_ipAddress = ip, se_actorRole = None, se_userAgent = None, se_sessionId = None, se_requestId = None,
      se_outcome = Some ''SUCCESS'', se_remarks = None, se_metadata = JNull, se_before = JNull, se_after = JNull,
      se_occurredAt = ''2026-01-01'' \<rparr>"

theorem canonical_text_faithful_witness:
  "canonicalEventString (sample_event ''a'' None) \<noteq> canonicalEventString (sample_event ''b'' None)"
proof -
  have "RS \<notin> set ''a''" "RS \<notin> set ''b''" by (simp_all add: RS_def)
  then show ?thesis
    using canonical_text_faithful [of "sample_event ''a'' None" "sample_event ''b'' None"]
    by (simp add: sample_event_def event_fields_def RS_def)
qed

text \<open>
  The limit of the separator: two different events share a canonical text when a text field
  contains the separator itself, or when a field is absent in one and empty in the other.
\<close>

theorem canonical_text_ambiguous:
  "canonicalEventString (sample_event (''a'' @ [RS] @ ''b'') (Some ''c''))
      = canonicalEventString (sample_event ''a'' (Some (''b'' @ [RS] @ ''c'')))
   \<and> sample_event (''a'' @ [RS] @ ''b'') (Some ''c'') \<noteq> sample_event ''a'' (Some (''b'' @ [RS] @ ''c''))
   \<and> canonicalEventString (sample_event ''a'' None) = canonicalEventString (sample_event ''a'' (Some []))
   \<and> sample_event ''a'' None \<noteq> sample_event ''a'' (Some [])"
  by (simp add: canonicalEventString_def event_fields_def sample_event_def)

end
