(* ===== verification/Project_Machine.thy ===== *)
theory Project_Machine
  imports Transition_Tables
begin

text \<open>
  \<^verbatim>\<open>packages/backend/src/modules/project/project.state-machine.ts\<close>: the two machines of a project and
  of a branch within a project. The project machine carries its own guards instead of reading
  \<open>PROJECT_TRANSITIONS\<close>; the theory shows that the two agree. The sentences of the refusals are
  represented by their kind.
\<close>

section \<open>Operations of a project\<close>

record ProjectEntity =
  pr_id :: string
  pr_status :: ProjectStatus
  pr_isActive :: bool

datatype project_refusal =
    InactiveProject
  | ProjectPathRefused ProjectStatus ProjectStatus
  | CompletedProject
  | ArchivedProject
  | AlreadyCancelled

type_synonym project_result = "(project_refusal, ProjectEntity \<times> ProjectStatus transition_note) result"

definition pr_move :: "string \<Rightarrow> ProjectStatus \<Rightarrow> ProjectEntity \<Rightarrow> string
    \<Rightarrow> ProjectEntity \<times> ProjectStatus transition_note" where
  "pr_move kind target project userId =
     (project\<lparr> pr_status := target \<rparr>,
      \<lparr> note_kind = kind, note_id = pr_id project, previousState = pr_status project, newState = target,
        note_userId = userId \<rparr>)"

definition startPlanning :: "ProjectEntity \<Rightarrow> string \<Rightarrow> project_result" where
  "startPlanning project userId =
    (if \<not> pr_isActive project then Inl InactiveProject
     else if pr_status project \<noteq> PS_DRAFT then Inl (ProjectPathRefused (pr_status project) PS_PLANNING)
     else Inr (pr_move ''ProjectPlanningStarted'' PS_PLANNING project userId))"

definition readyForScheduling :: "ProjectEntity \<Rightarrow> string \<Rightarrow> project_result" where
  "readyForScheduling project userId =
    (if \<not> pr_isActive project then Inl InactiveProject
     else if pr_status project \<noteq> PS_PLANNING \<and> pr_status project \<noteq> PS_ON_HOLD
       then Inl (ProjectPathRefused (pr_status project) PS_SCHEDULING)
     else Inr (pr_move ''ProjectSchedulingReady'' PS_SCHEDULING project userId))"

definition startExecution :: "ProjectEntity \<Rightarrow> string \<Rightarrow> project_result" where
  "startExecution project userId =
    (if \<not> pr_isActive project then Inl InactiveProject
     else if pr_status project \<noteq> PS_SCHEDULING \<and> pr_status project \<noteq> PS_ON_HOLD
       then Inl (ProjectPathRefused (pr_status project) PS_EXECUTION)
     else Inr (pr_move ''ProjectExecutionStarted'' PS_EXECUTION project userId))"

definition startValidation :: "ProjectEntity \<Rightarrow> string \<Rightarrow> project_result" where
  "startValidation project userId =
    (if \<not> pr_isActive project then Inl InactiveProject
     else if pr_status project \<noteq> PS_EXECUTION then Inl (ProjectPathRefused (pr_status project) PS_VALIDATION)
     else Inr (pr_move ''ProjectValidationStarted'' PS_VALIDATION project userId))"

definition completeProject :: "ProjectEntity \<Rightarrow> string \<Rightarrow> project_result" where
  "completeProject project userId =
    (if \<not> pr_isActive project then Inl InactiveProject
     else if pr_status project \<noteq> PS_VALIDATION then Inl (ProjectPathRefused (pr_status project) PS_COMPLETED)
     else Inr (pr_move ''ProjectCompleted'' PS_COMPLETED project userId))"

definition cancelProject :: "ProjectEntity \<Rightarrow> string \<Rightarrow> project_result" where
  "cancelProject project userId =
    (if \<not> pr_isActive project then Inl InactiveProject
     else if pr_status project = PS_COMPLETED then Inl CompletedProject
     else if pr_status project = PS_ARCHIVED then Inl ArchivedProject
     else if pr_status project = PS_CANCELLED then Inl AlreadyCancelled
     else Inr (pr_move ''ProjectCancelled'' PS_CANCELLED project userId))"

definition holdProject :: "ProjectEntity \<Rightarrow> string \<Rightarrow> project_result" where
  "holdProject project userId =
    (if \<not> pr_isActive project then Inl InactiveProject
     else if pr_status project \<noteq> PS_SCHEDULING \<and> pr_status project \<noteq> PS_EXECUTION
       then Inl (ProjectPathRefused (pr_status project) PS_ON_HOLD)
     else Inr (pr_move ''ProjectOnHold'' PS_ON_HOLD project userId))"

definition archiveProject :: "ProjectEntity \<Rightarrow> string \<Rightarrow> project_result" where
  "archiveProject project userId =
    (if \<not> pr_isActive project then Inl InactiveProject
     else if pr_status project \<noteq> PS_COMPLETED then Inl (ProjectPathRefused (pr_status project) PS_ARCHIVED)
     else Inr (pr_move ''ProjectArchived'' PS_ARCHIVED project userId))"

datatype project_command =
    StartPlanning | ReadyForScheduling | StartExecution | StartValidation | CompleteProject
  | CancelProject | HoldProject | ArchiveProject

fun project_op :: "string \<Rightarrow> project_command \<Rightarrow> ProjectEntity \<Rightarrow> project_result" where
  "project_op u StartPlanning p = startPlanning p u"
| "project_op u ReadyForScheduling p = readyForScheduling p u"
| "project_op u StartExecution p = startExecution p u"
| "project_op u StartValidation p = startValidation p u"
| "project_op u CompleteProject p = completeProject p u"
| "project_op u CancelProject p = cancelProject p u"
| "project_op u HoldProject p = holdProject p u"
| "project_op u ArchiveProject p = archiveProject p u"

section \<open>Operations of a branch within a project\<close>

record ProjectBranchEntity =
  pb_id :: string
  pb_status :: ProjectBranchStatus
  pb_isActive :: bool

datatype branch_refusal =
    InactiveBranchLink
  | CoverageReasonRequired
  | PastStaffing ProjectBranchStatus
  | NotUnableToCover ProjectBranchStatus

type_synonym branch_result =
  "(branch_refusal, ProjectBranchEntity \<times> ProjectBranchStatus transition_note) result"

definition pb_move :: "string \<Rightarrow> ProjectBranchStatus \<Rightarrow> ProjectBranchEntity \<Rightarrow> string
    \<Rightarrow> ProjectBranchEntity \<times> ProjectBranchStatus transition_note" where
  "pb_move kind target pb userId =
     (pb\<lparr> pb_status := target \<rparr>,
      \<lparr> note_kind = kind, note_id = pb_id pb, previousState = pb_status pb, newState = target,
        note_userId = userId \<rparr>)"

definition initiatePlanning :: "ProjectBranchEntity \<Rightarrow> string \<Rightarrow> branch_result" where
  "initiatePlanning pb userId =
    (if \<not> pb_isActive pb then Inl InactiveBranchLink
     else Inr (pb_move ''ProjectBranchPlanningStarted'' PB_PLANNING pb userId))"

definition confirmAssignment :: "ProjectBranchEntity \<Rightarrow> string \<Rightarrow> branch_result" where
  "confirmAssignment pb userId =
    (if \<not> pb_isActive pb then Inl InactiveBranchLink
     else Inr (pb_move ''ProjectBranchAssignmentConfirmed'' PB_ASSIGNMENT_CONFIRMED pb userId))"

definition scheduleAudit :: "ProjectBranchEntity \<Rightarrow> string \<Rightarrow> branch_result" where
  "scheduleAudit pb userId =
    (if \<not> pb_isActive pb then Inl InactiveBranchLink
     else Inr (pb_move ''ProjectBranchAuditScheduled'' PB_SCHEDULED pb userId))"

definition completeBranchAudit :: "ProjectBranchEntity \<Rightarrow> string \<Rightarrow> branch_result" where
  "completeBranchAudit pb userId =
    (if \<not> pb_isActive pb then Inl InactiveBranchLink
     else Inr (pb_move ''ProjectBranchAuditCompleted'' PB_AUDIT_COMPLETED pb userId))"

definition completeValidation :: "ProjectBranchEntity \<Rightarrow> string \<Rightarrow> branch_result" where
  "completeValidation pb userId =
    (if \<not> pb_isActive pb then Inl InactiveBranchLink
     else Inr (pb_move ''ProjectBranchValidationCompleted'' PB_VALIDATION_COMPLETED pb userId))"

definition coverage_blocked :: "ProjectBranchStatus list" where
  "coverage_blocked = [PB_AUDIT_COMPLETED, PB_VALIDATION_COMPLETED, PB_CLOSED, PB_CANCELLED]"

definition markUnableToCover :: "ProjectBranchEntity \<Rightarrow> string \<Rightarrow> string \<Rightarrow> branch_result" where
  "markUnableToCover pb userId reason =
    (if \<not> pb_isActive pb then Inl InactiveBranchLink
     else if reason = [] \<or> js_trim reason = [] then Inl CoverageReasonRequired
     else if pb_status pb \<in> set coverage_blocked then Inl (PastStaffing (pb_status pb))
     else Inr (pb_move ''ProjectBranchUnableToCover'' PB_UNABLE_TO_COVER pb userId))"

definition reopenCoverage :: "ProjectBranchEntity \<Rightarrow> string \<Rightarrow> branch_result" where
  "reopenCoverage pb userId =
    (if \<not> pb_isActive pb then Inl InactiveBranchLink
     else if pb_status pb \<noteq> PB_UNABLE_TO_COVER then Inl (NotUnableToCover (pb_status pb))
     else Inr (pb_move ''ProjectBranchCoverageReopened'' PB_PLANNING pb userId))"

definition close :: "ProjectBranchEntity \<Rightarrow> string \<Rightarrow> branch_result" where
  "close pb userId =
    (if \<not> pb_isActive pb then Inl InactiveBranchLink
     else Inr (pb_move ''ProjectBranchClosed'' PB_CLOSED pb userId))"

datatype branch_command =
    InitiatePlanning | ConfirmAssignment | ScheduleAudit | CompleteBranchAudit | CompleteValidation
  | MarkUnableToCover string | ReopenCoverage | Close

fun branch_op :: "string \<Rightarrow> branch_command \<Rightarrow> ProjectBranchEntity \<Rightarrow> branch_result" where
  "branch_op u InitiatePlanning pb = initiatePlanning pb u"
| "branch_op u ConfirmAssignment pb = confirmAssignment pb u"
| "branch_op u ScheduleAudit pb = scheduleAudit pb u"
| "branch_op u CompleteBranchAudit pb = completeBranchAudit pb u"
| "branch_op u CompleteValidation pb = completeValidation pb u"
| "branch_op u (MarkUnableToCover r) pb = markUnableToCover pb u r"
| "branch_op u ReopenCoverage pb = reopenCoverage pb u"
| "branch_op u Close pb = close pb u"

declare pr_move_def [machine_defs] startPlanning_def [machine_defs] readyForScheduling_def [machine_defs]
  startExecution_def [machine_defs] startValidation_def [machine_defs] completeProject_def [machine_defs]
  cancelProject_def [machine_defs] holdProject_def [machine_defs] archiveProject_def [machine_defs]
  pb_move_def [machine_defs] initiatePlanning_def [machine_defs] confirmAssignment_def [machine_defs]
  scheduleAudit_def [machine_defs] completeBranchAudit_def [machine_defs] completeValidation_def [machine_defs]
  markUnableToCover_def [machine_defs] reopenCoverage_def [machine_defs] close_def [machine_defs]
  coverage_blocked_def [machine_defs]

section \<open>The machines and their edges\<close>

primrec project_target :: "project_command \<Rightarrow> ProjectStatus" where
  "project_target StartPlanning = PS_PLANNING"
| "project_target ReadyForScheduling = PS_SCHEDULING"
| "project_target StartExecution = PS_EXECUTION"
| "project_target StartValidation = PS_VALIDATION"
| "project_target CompleteProject = PS_COMPLETED"
| "project_target CancelProject = PS_CANCELLED"
| "project_target HoldProject = PS_ON_HOLD"
| "project_target ArchiveProject = PS_ARCHIVED"

abbreviation project_edge :: "ProjectStatus \<Rightarrow> ProjectStatus \<Rightarrow> bool" where
  "project_edge \<equiv> isValidTransition PROJECT_TRANSITIONS"

lemma project_op_iff:
  "project_op u c p = Inr (p', ev) \<longleftrightarrow>
     pr_isActive p \<and> project_edge (pr_status p) (project_target c)
     \<and> p' = p\<lparr> pr_status := project_target c \<rparr>
     \<and> note_id ev = pr_id p \<and> previousState ev = pr_status p \<and> newState ev = project_target c
     \<and> note_userId ev = u \<and> note_kind ev = note_kind (snd (projr (project_op u c p)))"
  by (cases "pr_status p"; cases c) (auto simp: machine_defs table_defs)

lemma project_announces:
  "project_op u c p = Inr (p', ev) \<Longrightarrow>
     previousState ev = pr_status p \<and> newState ev = pr_status p' \<and> project_edge (pr_status p) (pr_status p')"
  by (auto simp: project_op_iff)

interpretation project_machine: announcing_machine "project_op u" pr_status project_edge
  by unfold_locales (rule project_announces)

lemma project_accepts_iff:
  "\<not> refused (project_op u c p) \<longleftrightarrow> pr_isActive p \<and> project_edge (pr_status p) (project_target c)"
  by (cases "pr_status p"; cases c) (auto simp: machine_defs table_defs refused_def)

lemma project_final: "s \<in> {PS_ARCHIVED, PS_CANCELLED} \<Longrightarrow> \<not> project_edge s t"
  by (auto simp: table_defs)

lemma project_completed_gate: "project_edge s PS_COMPLETED \<Longrightarrow> s = PS_VALIDATION"
  by (cases s) (simp_all add: table_defs)

lemma project_validation_gate: "project_edge s PS_VALIDATION \<Longrightarrow> s = PS_EXECUTION"
  by (cases s) (simp_all add: table_defs)

text \<open>The moves of the branch machine, with the guards it has.\<close>

definition branch_edge :: "ProjectBranchStatus \<Rightarrow> ProjectBranchStatus \<Rightarrow> bool" where
  "branch_edge s t \<longleftrightarrow>
     t \<in> {PB_PLANNING, PB_ASSIGNMENT_CONFIRMED, PB_SCHEDULED, PB_AUDIT_COMPLETED, PB_VALIDATION_COMPLETED, PB_CLOSED}
     \<or> (t = PB_UNABLE_TO_COVER \<and> s \<notin> set coverage_blocked)"

interpretation branch_machine: announcing_machine "branch_op u" pb_status branch_edge
proof
  fix u c e e' ev
  show "branch_op u c e = Inr (e', ev) \<Longrightarrow>
    previousState ev = pb_status e \<and> newState ev = pb_status e' \<and> branch_edge (pb_status e) (pb_status e')"
    by (cases c) (auto simp: machine_defs branch_edge_def split: if_splits)
qed

section \<open>Properties\<close>

text \<open>
  The project machine and the project table are the same machine: a command on a project is
  accepted if and only if the project is active and \<^verbatim>\<open>PROJECT_TRANSITIONS\<close> has the edge to the
  command's target, every edge of the table is the move of some command, and an accepted command
  changes nothing but the status.
\<close>

theorem project_machine_is_table:
  "(\<not> refused (project_op u c p) \<longleftrightarrow> pr_isActive p \<and> isValidTransition PROJECT_TRANSITIONS (pr_status p) (project_target c))
   \<and> (isValidTransition PROJECT_TRANSITIONS s t \<longrightarrow> (\<exists>c'. project_target c' = t))
   \<and> (\<forall>p' ev. project_op u c p = Inr (p', ev) \<longrightarrow> p' = p\<lparr> pr_status := project_target c \<rparr>)"
proof (intro conjI)
  show "isValidTransition PROJECT_TRANSITIONS s t \<longrightarrow> (\<exists>c'. project_target c' = t)"
    by (cases s) (auto simp: table_defs intro: project_target.simps)
qed (auto simp: project_accepts_iff project_op_iff)

theorem project_machine_is_table_witness:
  "\<not> refused (project_op ''u'' CancelProject \<lparr> pr_id = ''p'', pr_status = PS_ON_HOLD, pr_isActive = True \<rparr>)
   \<and> refused (project_op ''u'' CancelProject \<lparr> pr_id = ''p'', pr_status = PS_COMPLETED, pr_isActive = True \<rparr>)"
  using project_machine_is_table [of "''u''" CancelProject "\<lparr> pr_id = ''p'', pr_status = PS_ON_HOLD, pr_isActive = True \<rparr>"]
    project_machine_is_table [of "''u''" CancelProject "\<lparr> pr_id = ''p'', pr_status = PS_COMPLETED, pr_isActive = True \<rparr>"]
  by (simp add: table_defs)

text \<open>
  Any sequence of commands on a project leaves a trail of events that links up: the first starts
  at the status the project had, each starts where the one before ended, the last ends at the
  project's status, and every event is an edge of the table. An archived or cancelled project is
  changed by no sequence of commands.
\<close>

theorem project_history_links:
  "linked (pr_status p) (notes_of_run (project_op u) cs p) (pr_status (run_commands (silent (project_op u)) cs p))
   \<and> (\<forall>ev \<in> set (notes_of_run (project_op u) cs p). isValidTransition PROJECT_TRANSITIONS (previousState ev) (newState ev))
   \<and> (pr_status p \<in> {PS_ARCHIVED, PS_CANCELLED} \<longrightarrow> run_commands (silent (project_op u)) cs p = p)"
proof (intro conjI ballI impI)
  show "run_commands (silent (project_op u)) cs p = p" if "pr_status p \<in> {PS_ARCHIVED, PS_CANCELLED}"
    by (rule project_machine.terminal_absorbs) (use that in \<open>simp add: project_final\<close>)
qed (rule project_machine.notes_link, rule project_machine.notes_edges)

theorem project_history_links_witness:
  "run_commands (silent (project_op ''u'')) [StartPlanning, ArchiveProject]
     \<lparr> pr_id = ''p'', pr_status = PS_CANCELLED, pr_isActive = True \<rparr>
   = \<lparr> pr_id = ''p'', pr_status = PS_CANCELLED, pr_isActive = True \<rparr>"
  using project_history_links [of "\<lparr> pr_id = ''p'', pr_status = PS_CANCELLED, pr_isActive = True \<rparr>" "''u''"
      "[StartPlanning, ArchiveProject]"] by simp

text \<open>
  A coverage failure is always recorded with a cause and never against a branch that is past
  staffing; it can be undone exactly by reopening the coverage; and an inactive branch link is changed
  by no command. The other branch commands have no guard on the status: a closed branch link that is
  still active can be put back into planning.
\<close>

theorem branch_coverage_rules:
  "(\<not> refused (markUnableToCover pb u r) \<longleftrightarrow>
      pb_isActive pb \<and> js_trim r \<noteq> [] \<and>
      pb_status pb \<notin> {PB_AUDIT_COMPLETED, PB_VALIDATION_COMPLETED, PB_CLOSED, PB_CANCELLED})
   \<and> (\<not> refused (reopenCoverage pb u) \<longleftrightarrow> pb_isActive pb \<and> pb_status pb = PB_UNABLE_TO_COVER)
   \<and> (\<not> pb_isActive pb \<longrightarrow> run_commands (silent (branch_op u)) cs pb = pb)
   \<and> (pb_isActive pb \<and> pb_status pb = PB_CLOSED \<longrightarrow>
        (\<exists>ev. branch_op u InitiatePlanning pb = Inr (pb\<lparr> pb_status := PB_PLANNING \<rparr>, ev)))"
proof (intro conjI impI)
  assume inactive: "\<not> pb_isActive pb"
  have "silent (branch_op u) c pb = Inl InactiveBranchLink" for c
    using inactive by (cases c) (simp_all add: machine_defs)
  then show "run_commands (silent (branch_op u)) cs pb = pb" by (induction cs) simp_all
qed (auto simp: machine_defs refused_def)

theorem branch_coverage_rules_witness:
  "refused (markUnableToCover \<lparr> pb_id = ''b'', pb_status = PB_CLOSED, pb_isActive = True \<rparr> ''u'' ''nobody near'')
   \<and> run_commands (silent (branch_op ''u'')) [Close] \<lparr> pb_id = ''b'', pb_status = PB_SCHEDULED, pb_isActive = False \<rparr>
      = \<lparr> pb_id = ''b'', pb_status = PB_SCHEDULED, pb_isActive = False \<rparr>"
  using branch_coverage_rules [of "\<lparr> pb_id = ''b'', pb_status = PB_CLOSED, pb_isActive = True \<rparr>" "''u''" "''nobody near''"]
    branch_coverage_rules [of "\<lparr> pb_id = ''b'', pb_status = PB_SCHEDULED, pb_isActive = False \<rparr>" "''u''" "[]" "[Close]"]
  by (simp del: run_commands.simps)

end
