(* ===== verification/Validation_Machine.thy ===== *)
theory Validation_Machine
  imports Transition_Tables Audit_Trail
begin

text \<open>
  \<^verbatim>\<open>packages/backend/src/modules/validation/validation.state-machine.ts\<close>: the moves of a validation case.
  The OCR result is a JSON value; the optional arguments are written only when JavaScript calls them
  truthy. The time of a review is an argument.
\<close>

section \<open>Operations\<close>

record ValidationCaseEntity =
  vc_id :: string
  vc_status :: ValidationStatus
  reviewedAt :: "nat option"
  vc_remarks :: "string option"
  correctionNotes :: "string option"
  ocrResult :: Json

datatype validation_refusal = InvalidValidationTransition ValidationStatus ValidationStatus

type_synonym validation_result =
  "(validation_refusal, ValidationCaseEntity \<times> ValidationStatus transition_note) result"

fun text_truthy :: "string option \<Rightarrow> bool" where
  "text_truthy None = False"
| "text_truthy (Some s) = (s \<noteq> [])"

fun json_truthy :: "Json \<Rightarrow> bool" where
  "json_truthy JNull = False"
| "json_truthy (JBool b) = b"
| "json_truthy (JNumber n) = (n \<noteq> ''0'')"
| "json_truthy (JString s) = (s \<noteq> [])"
| "json_truthy _ = True"

abbreviation validation_edge :: "ValidationStatus \<Rightarrow> ValidationStatus \<Rightarrow> bool" where
  "validation_edge \<equiv> isValidTransition VALIDATION_TRANSITIONS"

definition validateValidation :: "ValidationStatus \<Rightarrow> ValidationStatus \<Rightarrow> validation_refusal option" where
  "validateValidation current target =
     (if validation_edge current target then None else Some (InvalidValidationTransition current target))"

definition vc_note :: "string \<Rightarrow> ValidationStatus \<Rightarrow> ValidationCaseEntity \<Rightarrow> string
    \<Rightarrow> ValidationCaseEntity \<times> ValidationStatus transition_note" where
  "vc_note kind prev v userId =
     (v, \<lparr> note_kind = kind, note_id = vc_id v, previousState = prev, newState = vc_status v, note_userId = userId \<rparr>)"

text \<open>The three conditional writes that the operations share.\<close>

definition write_texts :: "string option \<Rightarrow> string option \<Rightarrow> Json \<Rightarrow> ValidationCaseEntity \<Rightarrow> ValidationCaseEntity" where
  "write_texts remarks notes ocr v =
    (let v1 = (if text_truthy remarks then v\<lparr> vc_remarks := remarks \<rparr> else v);
         v2 = (if text_truthy notes then v1\<lparr> correctionNotes := notes \<rparr> else v1)
     in if json_truthy ocr then v2\<lparr> ocrResult := ocr \<rparr> else v2)"

definition approveValidation :: "nat \<Rightarrow> ValidationCaseEntity \<Rightarrow> string \<Rightarrow> string option \<Rightarrow> string option \<Rightarrow> Json
    \<Rightarrow> validation_result" where
  "approveValidation now v userId remarks notes ocr =
    (case validateValidation (vc_status v) VS_APPROVED of
       Some r \<Rightarrow> Inl r
     | None \<Rightarrow> Inr (vc_note ''ValidationApproved'' (vc_status v)
         (write_texts remarks notes ocr (v\<lparr> vc_status := VS_APPROVED, reviewedAt := Some now \<rparr>)) userId))"

definition requestCorrection :: "ValidationCaseEntity \<Rightarrow> string \<Rightarrow> string option \<Rightarrow> string option \<Rightarrow> Json
    \<Rightarrow> validation_result" where
  "requestCorrection v userId remarks notes ocr =
    (case validateValidation (vc_status v) VS_CORRECTION_REQUIRED of
       Some r \<Rightarrow> Inl r
     | None \<Rightarrow> Inr (vc_note ''ValidationCorrectionRequested'' (vc_status v)
         (write_texts remarks notes ocr (v\<lparr> vc_status := VS_CORRECTION_REQUIRED \<rparr>)) userId))"

definition moveToReview :: "ValidationCaseEntity \<Rightarrow> string \<Rightarrow> string option \<Rightarrow> validation_result" where
  "moveToReview v userId remarks =
    (case validateValidation (vc_status v) VS_HUMAN_REVIEW of
       Some r \<Rightarrow> Inl r
     | None \<Rightarrow> Inr (vc_note ''ValidationMovedToReview'' (vc_status v)
         (write_texts remarks None JNull (v\<lparr> vc_status := VS_HUMAN_REVIEW \<rparr>)) userId))"

definition submitValidation :: "ValidationCaseEntity \<Rightarrow> string \<Rightarrow> string option \<Rightarrow> string option \<Rightarrow> Json
    \<Rightarrow> validation_result" where
  "submitValidation v userId remarks notes ocr =
    (case validateValidation (vc_status v) VS_SUBMITTED of
       Some r \<Rightarrow> Inl r
     | None \<Rightarrow> Inr (vc_note ''ValidationSubmitted'' (vc_status v)
         (write_texts remarks notes ocr (v\<lparr> vc_status := VS_SUBMITTED \<rparr>)) userId))"

datatype validation_command =
    Approve nat "string option" "string option" Json
  | RequestCorrection "string option" "string option" Json
  | MoveToReview "string option"
  | Submit "string option" "string option" Json

fun validation_op :: "string \<Rightarrow> validation_command \<Rightarrow> ValidationCaseEntity \<Rightarrow> validation_result" where
  "validation_op u (Approve now r n x) v = approveValidation now v u r n x"
| "validation_op u (RequestCorrection r n x) v = requestCorrection v u r n x"
| "validation_op u (MoveToReview r) v = moveToReview v u r"
| "validation_op u (Submit r n x) v = submitValidation v u r n x"

declare validateValidation_def [machine_defs] vc_note_def [machine_defs] write_texts_def [machine_defs]
  approveValidation_def [machine_defs] requestCorrection_def [machine_defs] moveToReview_def [machine_defs]
  submitValidation_def [machine_defs] Let_def [machine_defs]

section \<open>Lemmas\<close>

interpretation validation_machine: announcing_machine "validation_op u" vc_status validation_edge
proof
  fix u c e e' ev
  show "validation_op u c e = Inr (e', ev) \<Longrightarrow>
    previousState ev = vc_status e \<and> newState ev = vc_status e' \<and> validation_edge (vc_status e) (vc_status e')"
    by (cases c) (auto simp: machine_defs split: if_splits)
qed

text \<open>A case that is approved or submitted has been reviewed by somebody at a recorded time.\<close>

definition reviewed_ok :: "ValidationCaseEntity \<Rightarrow> bool" where
  "reviewed_ok v \<longleftrightarrow> (vc_status v \<in> {VS_APPROVED, VS_SUBMITTED} \<longrightarrow> reviewedAt v \<noteq> None)"

lemma reviewed_step: "reviewed_ok v \<Longrightarrow> validation_op u c v = Inr (v', ev) \<Longrightarrow> reviewed_ok v'"
  using validation_submitted_from_approved [of "vc_status v"]
  by (cases c) (auto simp: machine_defs reviewed_ok_def split: if_splits)

lemma reviewed_run: "reviewed_ok v \<Longrightarrow> reviewed_ok (run_commands (silent (validation_op u)) cs v)"
  by (induction cs arbitrary: v) (auto simp: map_sum_def split: sum.splits dest: reviewed_step)

lemma review_seen:
  "vc_status v \<notin> {VS_APPROVED, VS_SUBMITTED} \<Longrightarrow>
   vc_status (run_commands (silent (validation_op u)) cs v) \<in> {VS_APPROVED, VS_SUBMITTED} \<Longrightarrow>
   \<exists>s \<in> set (statuses_of_run (silent (validation_op u)) vc_status cs v). s = VS_HUMAN_REVIEW"
  by (rule validation_machine.gate_seen [where T = "\<lambda>t. t \<in> {VS_APPROVED, VS_SUBMITTED}"])
     (rule validation_released_gate)

definition new_case :: ValidationCaseEntity where
  "new_case = \<lparr> vc_id = ''v1'', vc_status = VS_PENDING, reviewedAt = None, vc_remarks = None,
     correctionNotes = None, ocrResult = JNull \<rparr>"

section \<open>Properties\<close>

text \<open>
  C37. Unreviewed work is never released: whatever sequence of commands is sent to a case that is not
  yet approved, if the case ends approved or submitted it stood in human review on the way and carries
  the time of its approval; a submitted case, which the client holds, is changed by no command.
\<close>

theorem validation_release_reviewed:
  assumes "vc_status v \<notin> {VS_APPROVED, VS_SUBMITTED}"
    and "vc_status (run_commands (silent (validation_op u)) cs v) \<in> {VS_APPROVED, VS_SUBMITTED}"
  shows "VS_HUMAN_REVIEW \<in> set (statuses_of_run (silent (validation_op u)) vc_status cs v)
    \<and> reviewedAt (run_commands (silent (validation_op u)) cs v) \<noteq> None
    \<and> (\<forall>w. vc_status w = VS_SUBMITTED \<longrightarrow> run_commands (silent (validation_op u)) cs w = w)"
proof (intro conjI allI impI)
  show "VS_HUMAN_REVIEW \<in> set (statuses_of_run (silent (validation_op u)) vc_status cs v)"
    using review_seen [OF assms] by simp
  have "reviewed_ok v" using assms(1) by (simp add: reviewed_ok_def)
  from reviewed_run [OF this] assms(2) show "reviewedAt (run_commands (silent (validation_op u)) cs v) \<noteq> None"
    unfolding reviewed_ok_def by blast
  show "run_commands (silent (validation_op u)) cs w = w" if "vc_status w = VS_SUBMITTED" for w
    by (rule validation_machine.terminal_absorbs) (simp add: that validation_submitted_final)
qed

theorem validation_release_reviewed_witness:
  "let cs = [Approve 5 None None JNull, MoveToReview None, Approve 7 (Some ''fine'') None JNull];
       v = run_commands (silent (validation_op ''r'')) cs new_case
   in vc_status v = VS_APPROVED \<and> reviewedAt v \<noteq> None
      \<and> VS_HUMAN_REVIEW \<in> set (statuses_of_run (silent (validation_op ''r'')) vc_status cs new_case)"
proof -
  let ?cs = "[Approve 5 None None JNull, MoveToReview None, Approve 7 (Some ''fine'') None JNull]"
  have "vc_status (run_commands (silent (validation_op ''r'')) ?cs new_case) = VS_APPROVED"
    by (simp add: machine_defs new_case_def table_defs)
  moreover have "vc_status new_case \<notin> {VS_APPROVED, VS_SUBMITTED}" by (simp add: new_case_def)
  ultimately show ?thesis
    using validation_release_reviewed [of new_case "''r''" ?cs] by (simp only: Let_def) blast
qed

text \<open>
  What a command writes: an accepted approval stamps the review time and keeps every text that was
  not supplied; a correction, a move to review and a submission leave the review time alone.
\<close>

theorem validation_writes:
  assumes "validation_op u c v = Inr (v', ev)"
  shows "vc_id v' = vc_id v
    \<and> reviewedAt v' = (case c of Approve now _ _ _ \<Rightarrow> Some now | _ \<Rightarrow> reviewedAt v)
    \<and> (\<forall>r. c = MoveToReview r \<longrightarrow> correctionNotes v' = correctionNotes v \<and> ocrResult v' = ocrResult v)
    \<and> (\<forall>r n x. c = RequestCorrection r n x \<longrightarrow>
         correctionNotes v' = (if text_truthy n then n else correctionNotes v)
         \<and> vc_remarks v' = (if text_truthy r then r else vc_remarks v))
    \<and> note_id ev = vc_id v \<and> note_userId ev = u"
  using assms by (cases c) (auto simp: machine_defs split: if_splits)

theorem validation_writes_witness:
  "\<exists>v' ev. validation_op ''r'' (MoveToReview (Some ''look'')) new_case = Inr (v', ev) \<and> reviewedAt v' = None"
proof -
  obtain v' ev where run: "validation_op ''r'' (MoveToReview (Some ''look'')) new_case = Inr (v', ev)"
    by (simp add: machine_defs new_case_def table_defs)
  with validation_writes [OF run] show ?thesis by (simp add: new_case_def)
qed

end
