(* ===== verification/Assayer_Machine.thy ===== *)
theory Assayer_Machine
  imports Assayer_Lifecycle
begin

text \<open>
  \<^verbatim>\<open>packages/backend/src/modules/assayer/assayer.state-machine.ts\<close>: the operations that move an assayer
  along the life-cycle table. Every operation validates the edge and applies it; applying derives the
  operational status the planners filter on and the active flag.
\<close>

section \<open>Operations\<close>

record AssayerEntity =
  ay_id :: string
  lifecycleStatus :: AssayerLifecycleStatus
  ay_status :: AssayerStatus
  ay_isActive :: bool
  ay_updatedBy :: "string option"

datatype assayer_refusal = InvalidLifecycleTransition AssayerLifecycleStatus AssayerLifecycleStatus

type_synonym assayer_result = "(assayer_refusal, AssayerEntity \<times> AssayerLifecycleStatus transition_note) result"

definition findPathTo :: "lc_string \<Rightarrow> lc_string \<Rightarrow> AssayerLifecycleStatus list option" where
  "findPathTo frm target = assayerLifecyclePath frm target"

definition validateLifecycle :: "AssayerEntity \<Rightarrow> AssayerLifecycleStatus \<Rightarrow> assayer_refusal option" where
  "validateLifecycle assayer targetStatus =
    (case map_of ASSAYER_LIFECYCLE_TRANSITIONS (lifecycleStatus assayer) of
       None \<Rightarrow> Some (InvalidLifecycleTransition (lifecycleStatus assayer) targetStatus)
     | Some allowed \<Rightarrow> if targetStatus \<in> set allowed then None
                       else Some (InvalidLifecycleTransition (lifecycleStatus assayer) targetStatus))"

definition applyTransition :: "AssayerEntity \<Rightarrow> AssayerLifecycleStatus \<Rightarrow> string \<Rightarrow> AssayerEntity" where
  "applyTransition assayer targetStatus userId =
     assayer\<lparr> lifecycleStatus := targetStatus,
              ay_status := operationalStatusFor (Some (Lc targetStatus)),
              ay_updatedBy := Some userId,
              ay_isActive := (targetStatus \<noteq> LC_ARCHIVED) \<rparr>"

definition lifecycle_step :: "string \<Rightarrow> AssayerLifecycleStatus \<Rightarrow> AssayerEntity \<Rightarrow> string \<Rightarrow> assayer_result" where
  "lifecycle_step kind target assayer userId =
    (case validateLifecycle assayer target of
       Some r \<Rightarrow> Inl r
     | None \<Rightarrow> Inr (applyTransition assayer target userId,
         \<lparr> note_kind = kind, note_id = ay_id assayer, previousState = lifecycleStatus assayer,
           newState = target, note_userId = userId \<rparr>))"

definition verifyDocuments :: "AssayerEntity \<Rightarrow> string \<Rightarrow> assayer_result" where
  "verifyDocuments = lifecycle_step ''AssayerDocumentVerificationStarted'' LC_DOCUMENT_VERIFICATION"

definition initiateBackgroundCheck :: "AssayerEntity \<Rightarrow> string \<Rightarrow> assayer_result" where
  "initiateBackgroundCheck = lifecycle_step ''AssayerBackgroundCheckInitiated'' LC_BACKGROUND_VERIFICATION"

definition sendForApproval :: "AssayerEntity \<Rightarrow> string \<Rightarrow> assayer_result" where
  "sendForApproval = lifecycle_step ''AssayerSentForApproval'' LC_FINAL_APPROVAL"

definition startTraining :: "AssayerEntity \<Rightarrow> string \<Rightarrow> assayer_result" where
  "startTraining = lifecycle_step ''AssayerTrainingStarted'' LC_TRAINING"

definition assertCanActivate :: "AssayerEntity \<Rightarrow> assayer_refusal option" where
  "assertCanActivate assayer = validateLifecycle assayer LC_ACTIVE"

definition activate :: "AssayerEntity \<Rightarrow> string \<Rightarrow> assayer_result" where
  "activate = lifecycle_step ''AssayerActivated'' LC_ACTIVE"

definition putOnLeave :: "AssayerEntity \<Rightarrow> string \<Rightarrow> assayer_result" where
  "putOnLeave = lifecycle_step ''AssayerOnLeave'' LC_ON_LEAVE"

definition suspend :: "AssayerEntity \<Rightarrow> string \<Rightarrow> assayer_result" where
  "suspend = lifecycle_step ''AssayerSuspended'' LC_SUSPENDED"

definition deactivate :: "AssayerEntity \<Rightarrow> string \<Rightarrow> assayer_result" where
  "deactivate = lifecycle_step ''AssayerDeactivated'' LC_INACTIVE"

definition acceptResignation :: "AssayerEntity \<Rightarrow> string \<Rightarrow> assayer_result" where
  "acceptResignation = lifecycle_step ''AssayerResigned'' LC_RESIGNED"

definition terminate :: "AssayerEntity \<Rightarrow> string \<Rightarrow> assayer_result" where
  "terminate = lifecycle_step ''AssayerTerminated'' LC_TERMINATED"

definition archive :: "AssayerEntity \<Rightarrow> string \<Rightarrow> assayer_result" where
  "archive = lifecycle_step ''AssayerArchived'' LC_ARCHIVED"

definition rehire :: "AssayerEntity \<Rightarrow> string \<Rightarrow> assayer_result" where
  "rehire = lifecycle_step ''DomainEvent'' LC_INVITED"

text \<open>The operation a bulk move performs for each state of its path.\<close>

primrec assayer_op :: "string \<Rightarrow> AssayerLifecycleStatus \<Rightarrow> AssayerEntity \<Rightarrow> assayer_result" where
  "assayer_op u LC_INVITED e = rehire e u"
| "assayer_op u LC_DOCUMENT_VERIFICATION e = verifyDocuments e u"
| "assayer_op u LC_BACKGROUND_VERIFICATION e = initiateBackgroundCheck e u"
| "assayer_op u LC_FINAL_APPROVAL e = sendForApproval e u"
| "assayer_op u LC_TRAINING e = startTraining e u"
| "assayer_op u LC_ACTIVE e = activate e u"
| "assayer_op u LC_ON_LEAVE e = putOnLeave e u"
| "assayer_op u LC_SUSPENDED e = suspend e u"
| "assayer_op u LC_INACTIVE e = deactivate e u"
| "assayer_op u LC_RESIGNED e = acceptResignation e u"
| "assayer_op u LC_TERMINATED e = terminate e u"
| "assayer_op u LC_ARCHIVED e = archive e u"

declare verifyDocuments_def [machine_defs] initiateBackgroundCheck_def [machine_defs]
  sendForApproval_def [machine_defs] startTraining_def [machine_defs] activate_def [machine_defs]
  putOnLeave_def [machine_defs] suspend_def [machine_defs] deactivate_def [machine_defs]
  acceptResignation_def [machine_defs] terminate_def [machine_defs] archive_def [machine_defs]
  rehire_def [machine_defs]

section \<open>Lemmas\<close>

lemma validateLifecycle_iff:
  "validateLifecycle e t = (if t \<in> set (lifecycle_moves (lifecycleStatus e)) then None
     else Some (InvalidLifecycleTransition (lifecycleStatus e) t))"
  by (simp add: validateLifecycle_def lifecycle_moves_def split: option.split)

lemma assayer_op_step: "\<exists>kind. assayer_op u t e = lifecycle_step kind t e u"
  by (cases t) (auto simp: machine_defs)

lemma assayer_op_char:
  "silent (assayer_op u) t e =
    (if t \<in> set (lifecycle_moves (lifecycleStatus e)) then Inr (applyTransition e t u)
     else Inl (InvalidLifecycleTransition (lifecycleStatus e) t))"
  using assayer_op_step [of u t e] by (auto simp: lifecycle_step_def validateLifecycle_iff)

lemma assayer_op_legal:
  assumes "t \<in> set (lifecycle_moves (lifecycleStatus e))"
  obtains ev where "assayer_op u t e = Inr (applyTransition e t u, ev)"
  using assayer_op_step [of u t e] assms by (auto simp: lifecycle_step_def validateLifecycle_iff)

interpretation assayer_machine: announcing_machine "assayer_op u" lifecycleStatus
  "\<lambda>s t. t \<in> set (lifecycle_moves s)"
proof
  fix u c e e' ev
  assume run: "assayer_op u c e = Inr (e', ev)"
  obtain kind where "assayer_op u c e = lifecycle_step kind c e u" using assayer_op_step by blast
  with run show "previousState ev = lifecycleStatus e \<and> newState ev = lifecycleStatus e'
      \<and> lifecycleStatus e' \<in> set (lifecycle_moves (lifecycleStatus e))"
    by (auto simp: lifecycle_step_def validateLifecycle_iff applyTransition_def split: if_splits)
qed

text \<open>The projection the planners read is a function of the life cycle.\<close>

definition projection_ok :: "AssayerEntity \<Rightarrow> bool" where
  "projection_ok e \<longleftrightarrow> ay_status e = operationalStatusFor (Some (Lc (lifecycleStatus e)))
     \<and> (ay_isActive e \<longleftrightarrow> lifecycleStatus e \<noteq> LC_ARCHIVED)"

lemma projection_apply: "projection_ok (applyTransition e t u)"
  by (simp add: projection_ok_def applyTransition_def)

lemma projection_run: "projection_ok e \<Longrightarrow> projection_ok (run_commands (silent (assayer_op u)) ts e)"
  by (induction ts arbitrary: e) (simp_all add: assayer_op_char projection_apply)

lemma walk_runs:
  "walk lifecycle_moves (lifecycleStatus e) p \<Longrightarrow> p \<noteq> [] \<Longrightarrow>
   lifecycleStatus (run_commands (silent (assayer_op u)) p e) = last p
   \<and> successes (silent (assayer_op u)) p e = length p"
proof (induction p arbitrary: e)
  case (Cons t p)
  then obtain ev where t: "assayer_op u t e = Inr (applyTransition e t u, ev)"
    using assayer_op_legal [of t e u] by auto
  have "lifecycleStatus (applyTransition e t u) = t" by (simp add: applyTransition_def)
  with Cons t show ?case by (cases "p = []") auto
qed simp

lemma projection_walk:
  assumes "walk lifecycle_moves (lifecycleStatus e) p" and "p \<noteq> []"
  shows "projection_ok (run_commands (silent (assayer_op u)) p e)"
proof (cases p)
  case (Cons t q)
  then obtain ev where "assayer_op u t e = Inr (applyTransition e t u, ev)"
    using assms assayer_op_legal [of t e u] by auto
  then have "run_commands (silent (assayer_op u)) p e = run_commands (silent (assayer_op u)) q (applyTransition e t u)"
    using Cons by simp
  then show ?thesis using projection_run [OF projection_apply] by metis
qed (use assms in simp)

lemma archived_absorbs:
  "lifecycleStatus e = LC_ARCHIVED \<Longrightarrow> run_commands (silent (assayer_op u)) ts e = e"
  by (rule assayer_machine.terminal_absorbs) simp

definition new_assayer :: AssayerEntity where
  "new_assayer = \<lparr> ay_id = ''a1'', lifecycleStatus = LC_TRAINING, ay_status = AY_INACTIVE, ay_isActive = True,
     ay_updatedBy = None \<rparr>"

section \<open>Properties\<close>

text \<open>
  C40. A bulk move that the path finder offers is carried out by the machine: running the operations of
  the path it returns, none is refused and the person ends in the chosen state.
\<close>

theorem bulk_move_carried_out:
  assumes "lifecycleStatus e \<noteq> t" and "findPathTo (Lc (lifecycleStatus e)) (Lc t) = Some p"
  shows "lifecycleStatus (run_commands (silent (assayer_op u)) p e) = t
    \<and> successes (silent (assayer_op u)) p e = length p
    \<and> ay_status (run_commands (silent (assayer_op u)) p e) = operationalStatusFor (Some (Lc t))"
proof -
  have "bulk_route (lifecycleStatus e) t p"
    using bfs_shortest [of "\<lambda>n. Lc n = Lc t" "lifecycleStatus e" lifecycle_moves "barred (Lc t)"] assms
    by (simp add: findPathTo_def path_is_bfs bulk_route_admissible)
  then have p: "walk lifecycle_moves (lifecycleStatus e) p" "p \<noteq> []" "last p = t"
    by (auto simp: bulk_route_def)
  have "projection_ok (run_commands (silent (assayer_op u)) p e)" by (rule projection_walk [OF p(1,2)])
  with walk_runs [OF p(1,2), of u] p(3) show ?thesis by (simp add: projection_ok_def)
qed

theorem bulk_move_carried_out_witness:
  "lifecycleStatus (run_commands (silent (assayer_op ''u'')) [LC_INACTIVE, LC_ARCHIVED] new_assayer) = LC_ARCHIVED"
proof -
  have "findPathTo (Lc (lifecycleStatus new_assayer)) (Lc LC_ARCHIVED) = Some [LC_INACTIVE, LC_ARCHIVED]"
    by code_simp
  moreover have "lifecycleStatus new_assayer \<noteq> LC_ARCHIVED" by (simp add: new_assayer_def)
  ultimately show ?thesis using bulk_move_carried_out by blast
qed

text \<open>
  The planners' column never disagrees with the life cycle: after any sequence of operations,
  refused or not, the operational status is the one the life cycle derives and the record is active
  exactly when it is not archived; an operation succeeds exactly when the shared table has the edge;
  and an archived record is changed by nothing.
\<close>

theorem operational_status_derived:
  assumes "projection_ok e"
  shows "projection_ok (run_commands (silent (assayer_op u)) ts e)
    \<and> (\<not> refused (assayer_op u t e) \<longleftrightarrow> canTransitionAssayerLifecycle (Lc (lifecycleStatus e)) (Lc t))
    \<and> (assertCanActivate e = None \<longleftrightarrow> \<not> refused (activate e u))
    \<and> (lifecycleStatus e = LC_ARCHIVED \<longrightarrow> run_commands (silent (assayer_op u)) ts e = e)"
proof (intro conjI impI)
  obtain kind where "assayer_op u t e = lifecycle_step kind t e u" using assayer_op_step by blast
  then show "\<not> refused (assayer_op u t e) \<longleftrightarrow> canTransitionAssayerLifecycle (Lc (lifecycleStatus e)) (Lc t)"
    by (simp add: lifecycle_step_def validateLifecycle_iff refused_def)
qed (auto simp: projection_run assms assertCanActivate_def activate_def lifecycle_step_def refused_def archived_absorbs
    split: option.splits)

theorem operational_status_derived_witness:
  "ay_status (run_commands (silent (assayer_op ''u'')) [LC_ACTIVE, LC_SUSPENDED, LC_RESIGNED] new_assayer) = AY_SUSPENDED"
proof -
  have "projection_ok new_assayer" by (simp add: projection_ok_def new_assayer_def)
  moreover have "lifecycleStatus (run_commands (silent (assayer_op ''u'')) [LC_ACTIVE, LC_SUSPENDED, LC_RESIGNED] new_assayer)
      = LC_SUSPENDED"
    by (simp add: assayer_op_char new_assayer_def table_defs applyTransition_def)
  ultimately show ?thesis
    using operational_status_derived [of new_assayer "''u''" "[LC_ACTIVE, LC_SUSPENDED, LC_RESIGNED]"]
    by (simp add: projection_ok_def)
qed

end
