(* ===== verification/Document_Pipeline.thy ===== *)
theory Document_Pipeline
  imports Transition_Tables Audit_Trail
begin

text \<open>
  \<^verbatim>\<open>DocumentService.updateStatus\<close> of \<^verbatim>\<open>packages/backend/src/modules/document/document.service.ts\<close>, the one
  method through which a packet moves: the guard, the save, the audit row written by
  \<^verbatim>\<open>recordEventSafe\<close>, and the published event. The save, the audit insert and the publisher can
  fail; the three failures are fields of the environment.
\<close>

section \<open>Operation\<close>

record DocumentEntity =
  doc_id :: string
  doc_fileName :: string
  doc_status :: DocumentStatus
  doc_updatedBy :: "string option"

record document_state =
  the_doc :: DocumentEntity
  doc_trail :: "RecordedAuditEvent list"
  doc_published :: "DocumentStatus transition_note list"

record document_env =
  de_saveFault :: "string option"
  de_audit :: insert_env
  de_context :: "RequestContext option"
  de_publishFault :: bool

datatype document_refusal = DocumentCannotMove DocumentStatus DocumentStatus "DocumentStatus list" | DocumentThrown string

definition document_audit :: "DocumentEntity \<Rightarrow> DocumentStatus \<Rightarrow> DocumentStatus \<Rightarrow> string \<Rightarrow> RecordAuditEventInput" where
  "document_audit doc prevStatus status userId =
    \<lparr> in_category = EC_WORKFLOW, in_eventType = ''DOCUMENT_'' @ documentStatusValue status,
      in_entityType = ''DOCUMENT'', in_entityId = Some (doc_id doc),
      in_previousState = Some (documentStatusValue prevStatus), in_newState = Some (documentStatusValue status),
      in_userId = Some userId, in_userDisplayName = None, in_ipAddress = None,
      in_remarks = Some (''Transitioned document '' @ doc_fileName doc @ '' to '' @ documentStatusValue status @ ''.''),
      in_metadata = None, in_actorRole = None, in_userAgent = None, in_sessionId = None,
      in_requestId = None, in_outcome = None, in_before = None, in_after = None \<rparr>"

definition updateStatus :: "document_env \<Rightarrow> string \<Rightarrow> DocumentStatus \<Rightarrow> document_state
    \<Rightarrow> (document_refusal, document_state \<times> DocumentStatus transition_note option) result" where
  "updateStatus env userId status st =
    (let doc = the_doc st; prevStatus = doc_status doc
     in if prevStatus = status then Inr (st, None)
        else if \<not> canTransitionDocument prevStatus status
          then Inl (DocumentCannotMove prevStatus status
                 (case map_of DOCUMENT_TRANSITIONS prevStatus of None \<Rightarrow> [] | Some ts \<Rightarrow> ts))
        else (case de_saveFault env of
           Some err \<Rightarrow> Inl (DocumentThrown err)
         | None \<Rightarrow>
            (let saved = doc\<lparr> doc_status := status, doc_updatedBy := Some userId \<rparr>;
                 note = \<lparr> note_kind = ''document:status-changed'', note_id = doc_id saved, previousState = prevStatus,
                          newState = status, note_userId = userId \<rparr>
             in Inr (\<lparr> the_doc = saved,
                       doc_trail = recordEventSafe (de_audit env) (de_context env)
                         (document_audit saved prevStatus status userId) (doc_trail st),
                       doc_published = (if de_publishFault env then doc_published st else doc_published st @ [note]) \<rparr>,
                     Some note))))"

text \<open>As a move of the packet: asking for the status it already has is not a move.\<close>

definition document_op :: "document_env \<Rightarrow> string \<Rightarrow> DocumentStatus \<Rightarrow> document_state
    \<Rightarrow> (document_refusal option, document_state \<times> DocumentStatus transition_note) result" where
  "document_op env u status st =
    (case updateStatus env u status st of
       Inl r \<Rightarrow> Inl (Some r)
     | Inr (st', None) \<Rightarrow> Inl None
     | Inr (st', Some note) \<Rightarrow> Inr (st', note))"

abbreviation packet_status :: "document_state \<Rightarrow> DocumentStatus" where
  "packet_status st \<equiv> doc_status (the_doc st)"

interpretation document_machine: ranked_machine "document_op env u" packet_status canTransitionDocument document_rank
proof
  fix env u c e e' ev
  show "document_op env u c e = Inr (e', ev) \<Longrightarrow>
     previousState ev = packet_status e \<and> newState ev = packet_status e' \<and> canTransitionDocument (packet_status e) (packet_status e')"
    by (auto simp: document_op_def updateStatus_def Let_def split: if_splits option.splits)
qed (rule document_edge_rank)

lemma archived_packet: "\<not> canTransitionDocument DS_ARCHIVED t"
  by (simp add: table_defs)

section \<open>Properties\<close>

text \<open>
  Paperwork only moves forward: over any sequence of requests, refused or not, the moves of a packet
  link up and each raises its position, so there are at most eight of them; and an archived packet is
  changed by no request.
\<close>

theorem packet_only_moves_forward:
  "document_rank (packet_status st) + length (notes_of_run (document_op env u) ss st)
      \<le> document_rank (packet_status (run_commands (silent (document_op env u)) ss st))
   \<and> length (notes_of_run (document_op env u) ss st) \<le> 8
   \<and> linked (packet_status st) (notes_of_run (document_op env u) ss st)
        (packet_status (run_commands (silent (document_op env u)) ss st))
   \<and> (packet_status st = DS_ARCHIVED \<longrightarrow> run_commands (silent (document_op env u)) ss st = st)"
proof (intro conjI impI)
  show bound: "document_rank (packet_status st) + length (notes_of_run (document_op env u) ss st)
      \<le> document_rank (packet_status (run_commands (silent (document_op env u)) ss st))"
    by (rule document_machine.notes_bounded)
  then show "length (notes_of_run (document_op env u) ss st) \<le> 8"
    using document_rank_le [of "packet_status (run_commands (silent (document_op env u)) ss st)"] by linarith
  show "run_commands (silent (document_op env u)) ss st = st" if "packet_status st = DS_ARCHIVED"
    by (rule document_machine.terminal_absorbs) (simp add: that archived_packet)
qed (rule document_machine.notes_link)

definition sample_packet :: "DocumentStatus \<Rightarrow> document_state" where
  "sample_packet s = \<lparr> the_doc = \<lparr> doc_id = ''d1'', doc_fileName = ''p.pdf'', doc_status = s, doc_updatedBy = None \<rparr>,
     doc_trail = [], doc_published = [] \<rparr>"

definition quiet_document_env :: document_env where
  "quiet_document_env = \<lparr> de_saveFault = None,
     de_audit = \<lparr> env_newId = ''e1'', env_now = ''2026'', env_insertFault = None \<rparr>,
     de_context = None, de_publishFault = False \<rparr>"

theorem packet_only_moves_forward_witness:
  "run_commands (silent (document_op quiet_document_env ''u'')) [DS_UPLOADED, DS_DISPATCHED] (sample_packet DS_ARCHIVED)
     = sample_packet DS_ARCHIVED"
  using packet_only_moves_forward [of "sample_packet DS_ARCHIVED" quiet_document_env "''u''" "[DS_UPLOADED, DS_DISPATCHED]"]
  by (simp add: sample_packet_def)

text \<open>
  A move is never half done for want of its audit row: when the table has the edge and the save goes
  through, the packet moves and the caller gets the note whether or not the audit insert or the publisher
  fails; the trail gains exactly one row if the insert works and stays as it was if not; a request for
  the status the packet already has changes nothing.
\<close>

theorem packet_move_survives_audit_failure:
  assumes "canTransitionDocument (packet_status st) status" and "de_saveFault env = None"
  shows "\<exists>st' note. updateStatus env u status st = Inr (st', Some note)
      \<and> packet_status st' = status \<and> doc_id (the_doc st') = doc_id (the_doc st)
      \<and> (if env_insertFault (de_audit env) = None
         then \<exists>row. doc_trail st' = doc_trail st @ [row] \<and> ae_newState row = Some (documentStatusValue status)
         else doc_trail st' = doc_trail st)
      \<and> doc_published st' = doc_published st @ (if de_publishFault env then [] else [note])
      \<and> updateStatus env u status st' = Inr (st', None)"
proof -
  have "packet_status st \<noteq> status" using document_edge_rank [OF assms(1)] by auto
  with assms show ?thesis
    by (auto simp: updateStatus_def Let_def recordEventSafe_def recordEvent_cases audit_row_def
        AuditEvent.extend_def AuditEvent_record_def enrichFromContext_def document_audit_def
        split: option.split)
qed

theorem packet_move_survives_audit_failure_witness:
  "\<exists>st' note. updateStatus (quiet_document_env\<lparr> de_audit := \<lparr> env_newId = ''e1'', env_now = ''2026'',
       env_insertFault = Some ''down'' \<rparr> \<rparr>) ''u'' DS_RECEIVED (sample_packet DS_UPLOADED) = Inr (st', Some note)
     \<and> packet_status st' = DS_RECEIVED \<and> doc_trail st' = []"
proof -
  let ?env = "quiet_document_env\<lparr> de_audit := \<lparr> env_newId = ''e1'', env_now = ''2026'', env_insertFault = Some ''down'' \<rparr> \<rparr>"
  have "canTransitionDocument (packet_status (sample_packet DS_UPLOADED)) DS_RECEIVED" "de_saveFault ?env = None"
    by (simp_all add: sample_packet_def quiet_document_env_def table_defs)
  from packet_move_survives_audit_failure [OF this, of "''u''"]
  show ?thesis by (auto simp: sample_packet_def)
qed

end
