(* ===== verification/Money_Rules.thy ===== *)
theory Money_Rules
  imports Prelude
begin

text \<open>
  \<^verbatim>\<open>packages/shared/src/billing-money-rules.ts\<close>: rounding a rupee figure to paise, the Indian
  financial year, the invoice number, and the withholding under s.194J.

  A JavaScript number is represented by a rational. Sums, products and quotients are exact here: the
  last-bit error of double arithmetic, which \<^verbatim>\<open>toPrecision(15)\<close> is there to remove, is not
  represented, but \<^verbatim>\<open>toPrecision(15)\<close> itself and \<^verbatim>\<open>Math.round\<close> are. Infinite numbers do not occur in
  the stored columns and are left out; a value that is not a number is \<open>NaN\<close>.
\<close>

section \<open>Numbers\<close>

datatype js_number = NaN | Num rat

fun number_or_zero :: "js_number \<Rightarrow> rat" where
  "number_or_zero NaN = 0"
| "number_or_zero (Num x) = x"

definition js_round :: "rat \<Rightarrow> int" where
  "js_round x = \<lfloor>x + 1 / 2\<rfloor>"

text \<open>The decimal exponent: \<open>10 ^ e \<le> x < 10 ^ (e + 1)\<close>, counted up from one and down from one.\<close>

function exp_up :: "rat \<Rightarrow> nat" where
  "exp_up x = (if x < 10 then 0 else Suc (exp_up (x / 10)))"
  by pat_completeness auto
termination exp_up
proof (relation "measure (\<lambda>x. nat \<lfloor>x\<rfloor>)")
  fix x :: rat
  assume "\<not> x < 10"
  then have "x / 10 + 1 \<le> x" by simp
  then have "\<lfloor>x / 10\<rfloor> + 1 \<le> \<lfloor>x\<rfloor>" by linarith
  moreover have "10 \<le> \<lfloor>x\<rfloor>" using \<open>\<not> x < 10\<close> by linarith
  ultimately show "(x / 10, x) \<in> measure (\<lambda>x. nat \<lfloor>x\<rfloor>)" by simp
qed simp

function exp_down :: "rat \<Rightarrow> nat" where
  "exp_down x = (if x \<le> 0 \<or> 1 \<le> x then 0 else Suc (exp_down (x * 10)))"
  by pat_completeness auto
termination exp_down
proof (relation "measure (\<lambda>x. nat \<lfloor>1 / x\<rfloor>)")
  fix x :: rat
  assume "\<not> (x \<le> 0 \<or> 1 \<le> x)"
  then have x: "0 < x" "x < 1" by auto
  define y where "y = 1 / x"
  have "1 < y" using x by (simp add: y_def)
  then have n: "1 \<le> \<lfloor>y\<rfloor>" by linarith
  then have "y / 10 < of_int \<lfloor>y\<rfloor>" using floor_correct [of y] by linarith
  then have lt: "\<lfloor>y / 10\<rfloor> < \<lfloor>y\<rfloor>" by (simp only: floor_less_iff)
  have eq: "1 / (x * 10) = y / 10" by (simp add: y_def)
  show "(x * 10, x) \<in> measure (\<lambda>x. nat \<lfloor>1 / x\<rfloor>)"
    unfolding in_measure eq y_def [symmetric] using lt n by simp
qed simp

declare exp_up.simps [simp del] exp_down.simps [simp del]

text \<open>
  \<^verbatim>\<open>toPrecision(15)\<close> of a non-negative number: the nearest decimal with fifteen significant digits,
  the larger of two equally near ones.
\<close>

definition precision_scale :: "rat \<Rightarrow> rat" where
  "precision_scale x = (if 1 \<le> x then 10 ^ 14 / 10 ^ exp_up x else 10 ^ (14 + exp_down x))"

definition toPrecision15 :: "rat \<Rightarrow> rat" where
  "toPrecision15 x = (if x = 0 then 0 else of_int (js_round (x * precision_scale x)) / precision_scale x)"

section \<open>Rounding\<close>

definition roundMoney :: "rat \<Rightarrow> rat" where
  "roundMoney n =
    (let sign = (if n < 0 then -1 else 1);
         shifted = toPrecision15 (\<bar>n\<bar> * 100);
         rounded = of_int (js_round shifted) / 100
     in sign * rounded)"

section \<open>The financial year and the invoice number\<close>

record IndianFinancialYear =
  startYear :: int
  fy_label :: string
  fy_from :: string
  fy_to :: string

definition int_digits :: "int \<Rightarrow> string" where
  "int_digits n = (if n < 0 then CHR ''-'' # nat_digits (nat (- n)) else nat_digits (nat n))"

text \<open>\<^verbatim>\<open>((n % 100) + 100) % 100\<close> is the remainder in \<open>0..99\<close> whatever the sign.\<close>

definition pad2 :: "int \<Rightarrow> string" where
  "pad2 n = pad_start 2 CHR ''0'' (nat_digits (nat (n mod 100)))"

definition is_day_key :: "string \<Rightarrow> bool" where
  "is_day_key s \<longleftrightarrow> length s = 10
     \<and> list_all (\<lambda>(i, c). if i \<in> {4, 7} then c = CHR ''-'' else is_digit c) (zip [0..<10] s)"

fun digits_value :: "string \<Rightarrow> nat \<Rightarrow> nat" where
  "digits_value [] acc = acc"
| "digits_value (c # cs) acc = digits_value cs (acc * 10 + digit_value c)"

text \<open>
  A day key is taken as it is. Any other value is a moment, and the Indian calendar day it falls on is
  what the argument \<open>indian_day\<close> answers (the time-zone data of the platform), or nothing for a value
  that is no date, which the source refuses by throwing.
\<close>

definition indianFinancialYear :: "(string \<Rightarrow> string option) \<Rightarrow> string \<Rightarrow> (string, IndianFinancialYear) result" where
  "indianFinancialYear indian_day v =
    (case (if is_day_key v then Some v else indian_day v) of
       None \<Rightarrow> Inl (''Not a date: '' @ v)
     | Some key \<Rightarrow>
        (let year = int (digits_value (take 4 key) 0);
             month = digits_value (take 2 (drop 5 key)) 0;
             sy = (if 4 \<le> month then year else year - 1)
         in Inr \<lparr> startYear = sy, fy_label = pad2 sy @ ''-'' @ pad2 (sy + 1),
                  fy_from = int_digits sy @ ''-04-01'', fy_to = int_digits (sy + 1) @ ''-03-31'' \<rparr>))"

definition CLIENT_INVOICE_SERIAL_MAX :: int where
  "CLIENT_INVOICE_SERIAL_MAX = 999999"

definition is_fy_label :: "string \<Rightarrow> bool" where
  "is_fy_label s \<longleftrightarrow> length s = 5 \<and> is_digit (s ! 0) \<and> is_digit (s ! 1) \<and> s ! 2 = CHR ''-''
     \<and> is_digit (s ! 3) \<and> is_digit (s ! 4)"

definition CLIENT_INVOICE_NUMBER_PATTERN :: "string \<Rightarrow> bool" where
  "CLIENT_INVOICE_NUMBER_PATTERN s \<longleftrightarrow> length s = 16 \<and> take 4 s = ''INV/'' \<and> is_fy_label (take 5 (drop 4 s))
     \<and> s ! 9 = CHR ''/'' \<and> list_all is_digit (drop 10 s)"

datatype invoice_number_refusal = NotAFinancialYearLabel string | SerialOutside int

definition formatClientInvoiceNumber :: "string \<Rightarrow> int \<Rightarrow> (invoice_number_refusal, string) result" where
  "formatClientInvoiceNumber fyLabel serial =
    (if \<not> is_fy_label fyLabel then Inl (NotAFinancialYearLabel fyLabel)
     else if serial < 1 \<or> CLIENT_INVOICE_SERIAL_MAX < serial then Inl (SerialOutside serial)
     else Inr (''INV/'' @ fyLabel @ ''/'' @ pad_start 6 CHR ''0'' (nat_digits (nat serial))))"

section \<open>Withholding under s.194J\<close>

record Tds194jInput =
  tds_gross :: js_number
  ratePct :: js_number
  thresholdRupees :: js_number
  fyGrossBefore :: js_number
  fyTdsBefore :: js_number

datatype Tds194jBasis = NO_THRESHOLD | BELOW_THRESHOLD | CROSSED | ABOVE

record Tds194jOutcome =
  tds :: rat
  basis :: Tds194jBasis
  fyGrossIncluding :: rat

definition tds194jDeduction :: "Tds194jInput \<Rightarrow> Tds194jOutcome" where
  "tds194jDeduction input =
    (let gross = roundMoney (max 0 (number_or_zero (tds_gross input)));
         rate = max 0 (number_or_zero (ratePct input)) / 100;
         threshold = max 0 (number_or_zero (thresholdRupees input));
         earlier = roundMoney (max 0 (number_or_zero (fyGrossBefore input)));
         withheld = roundMoney (max 0 (number_or_zero (fyTdsBefore input)));
         including = roundMoney (earlier + gross)
     in if threshold \<le> 0
        then \<lparr> tds = roundMoney (gross * rate), basis = NO_THRESHOLD, fyGrossIncluding = including \<rparr>
        else if including \<le> threshold
        then \<lparr> tds = 0, basis = BELOW_THRESHOLD, fyGrossIncluding = including \<rparr>
        else let due = roundMoney (including * rate - withheld)
             in \<lparr> tds = roundMoney (min gross (max 0 due)),
                  basis = (if earlier > threshold then ABOVE else CROSSED), fyGrossIncluding = including \<rparr>)"

section \<open>Lemmas on rounding\<close>

lemma exp_up_bound: "1 \<le> x \<Longrightarrow> 10 ^ exp_up x \<le> x"
proof (induction x rule: exp_up.induct)
  case (1 x)
  show ?case
  proof (cases "x < 10")
    case False
    then have "10 ^ exp_up (x / 10) \<le> x / 10" using 1 by auto
    then have "10 ^ exp_up x \<le> x" using False by (simp add: exp_up.simps [of x])
    then show ?thesis .
  qed (use 1 in \<open>simp add: exp_up.simps [of x]\<close>)
qed

lemma exp_up_le14:
  assumes "1 \<le> x" and "x < 10 ^ 15"
  shows "exp_up x \<le> 14"
proof (rule ccontr)
  assume "\<not> exp_up x \<le> 14"
  then have "(10 :: rat) ^ 15 \<le> 10 ^ exp_up x" by (intro power_increasing) auto
  with exp_up_bound [OF assms(1)] assms(2) show False by simp
qed

text \<open>Below \<open>10 ^ 15\<close> the scale is a whole number, so whole numbers survive the rounding.\<close>

lemma scale_whole:
  assumes "0 < x" and "x < 10 ^ 15"
  obtains m :: nat where "precision_scale x = of_nat m" and "0 < m"
proof (cases "1 \<le> x")
  case True
  with assms exp_up_le14 have "exp_up x \<le> 14" by blast
  then have "(10 :: rat) ^ 14 / 10 ^ exp_up x = 10 ^ (14 - exp_up x)"
    using power_diff [of "10 :: rat" "exp_up x" 14] by simp
  then have "precision_scale x = of_nat (10 ^ (14 - exp_up x))"
    using True by (simp add: precision_scale_def)
  then show ?thesis using that by simp
next
  case False
  then have "precision_scale x = of_nat (10 ^ (14 + exp_down x))" by (simp add: precision_scale_def)
  then show ?thesis using that by (metis zero_less_numeral zero_less_power)
qed

lemma js_round_int [simp]: "js_round (of_int k) = k"
  by (simp add: js_round_def floor_unique)

lemma js_round_mono: "x \<le> y \<Longrightarrow> js_round x \<le> js_round y"
  by (simp add: js_round_def floor_mono)

lemma toPrecision15_le:
  assumes "0 \<le> x" and "x < 10 ^ 15" and "x \<le> of_int k"
  shows "toPrecision15 x \<le> of_int k"
proof (cases "x = 0")
  case False
  with assms obtain m where m: "precision_scale x = of_nat m" "0 < m" by (metis less_le scale_whole)
  have "js_round (x * of_nat m) \<le> js_round (of_int (k * int m))"
    using assms(3) m(2) by (intro js_round_mono) (simp add: mult_right_mono)
  then have "js_round (x * of_nat m) \<le> k * int m" by (simp only: js_round_int)
  then have "of_int (js_round (x * of_nat m)) \<le> (of_int (k * int m) :: rat)" by (rule of_int_le_iff [THEN iffD2])
  then show ?thesis using m False by (simp add: toPrecision15_def divide_le_eq)
qed (use assms in \<open>simp add: toPrecision15_def\<close>)

lemma toPrecision15_ge:
  assumes "0 \<le> x" and "x < 10 ^ 15" and "of_int k \<le> x"
  shows "of_int k \<le> toPrecision15 x"
proof (cases "x = 0")
  case False
  with assms obtain m where m: "precision_scale x = of_nat m" "0 < m" by (metis less_le scale_whole)
  have "js_round (of_int (k * int m)) \<le> js_round (x * of_nat m)"
    using assms(3) m(2) by (intro js_round_mono) (simp add: mult_right_mono)
  then have "k * int m \<le> js_round (x * of_nat m)" by (simp only: js_round_int)
  then have "of_int (k * int m) \<le> (of_int (js_round (x * of_nat m)) :: rat)" by (rule of_int_le_iff [THEN iffD2])
  then show ?thesis using m False by (simp add: toPrecision15_def le_divide_eq)
qed (use assms in \<open>simp add: toPrecision15_def\<close>)

lemma toPrecision15_int: "0 \<le> k \<Longrightarrow> of_int k < (10 :: rat) ^ 15 \<Longrightarrow> toPrecision15 (of_int k) = of_int k"
  by (intro antisym toPrecision15_le toPrecision15_ge) auto

definition whole_paise :: "rat \<Rightarrow> bool" where
  "whole_paise x \<longleftrightarrow> (\<exists>k :: int. x = of_int k / 100)"

text \<open>Figures the fifteen digits cover: below ten lakh crore rupees.\<close>

definition money_range :: "rat \<Rightarrow> bool" where
  "money_range x \<longleftrightarrow> \<bar>x\<bar> < 10 ^ 13"

lemma roundMoney_nonneg: "0 \<le> n \<Longrightarrow> roundMoney n = of_int (js_round (toPrecision15 (n * 100))) / 100"
  by (simp add: roundMoney_def)

lemma js_round_0 [simp]: "js_round 0 = 0"
  using js_round_int [of 0] by simp

lemma roundMoney_0 [simp]: "roundMoney 0 = 0"
  by (simp add: roundMoney_def toPrecision15_def)

lemma roundMoney_uminus: "roundMoney (- n) = - roundMoney n"
  by (cases "n = 0") (auto simp: roundMoney_def toPrecision15_def)

lemma whole_paise_round: "whole_paise (roundMoney n)"
proof -
  have "\<exists>k :: int. roundMoney n = of_int k / 100"
    by (rule exI [of _ "(if n < 0 then -1 else 1) * js_round (toPrecision15 (\<bar>n\<bar> * 100))"])
       (simp add: roundMoney_def)
  then show ?thesis by (simp add: whole_paise_def)
qed

lemma js_round_le: "x \<le> of_int k \<Longrightarrow> js_round x \<le> k"
  using js_round_mono [of x "of_int k"] by simp

lemma js_round_ge: "of_int k \<le> x \<Longrightarrow> k \<le> js_round x"
  using js_round_mono [of "of_int k" x] by simp

lemma roundMoney_le:
  assumes "0 \<le> x" and "money_range x" and "x \<le> y" and "whole_paise y"
  shows "roundMoney x \<le> y"
proof -
  obtain k where k: "y = of_int k / 100" using assms(4) by (auto simp: whole_paise_def)
  have "toPrecision15 (x * 100) \<le> of_int k"
    using assms k by (intro toPrecision15_le) (auto simp: money_range_def)
  then have "js_round (toPrecision15 (x * 100)) \<le> k" by (rule js_round_le)
  then show ?thesis using k by (simp add: roundMoney_nonneg [OF assms(1)] divide_right_mono)
qed

lemma roundMoney_ge:
  assumes "0 \<le> x" and "money_range x" and "y \<le> x" and "whole_paise y"
  shows "y \<le> roundMoney x"
proof -
  obtain k where k: "y = of_int k / 100" using assms(4) by (auto simp: whole_paise_def)
  have "of_int k \<le> toPrecision15 (x * 100)"
    using assms k by (intro toPrecision15_ge) (auto simp: money_range_def)
  then have "k \<le> js_round (toPrecision15 (x * 100))" by (rule js_round_ge)
  then show ?thesis using k by (simp add: roundMoney_nonneg [OF assms(1)] divide_right_mono)
qed

lemma whole_paise_0 [simp]: "whole_paise 0"
  by (auto simp: whole_paise_def intro: exI [of _ 0])

lemma roundMoney_exact_nonneg: "0 \<le> x \<Longrightarrow> money_range x \<Longrightarrow> whole_paise x \<Longrightarrow> roundMoney x = x"
  by (intro antisym roundMoney_le roundMoney_ge) auto

lemma whole_paise_uminus [simp]: "whole_paise (- x) \<longleftrightarrow> whole_paise x"
proof -
  have "whole_paise x \<Longrightarrow> whole_paise (- x)" for x
    by (auto simp: whole_paise_def) (metis minus_divide_left of_int_minus)
  from this [of x] this [of "- x"] show ?thesis by auto
qed

lemma roundMoney_exact:
  assumes "money_range x" and "whole_paise x"
  shows "roundMoney x = x"
proof (cases "0 \<le> x")
  case False
  then have "roundMoney (- x) = - x" using assms by (intro roundMoney_exact_nonneg) (auto simp: money_range_def)
  then show ?thesis by (simp add: roundMoney_uminus)
qed (use assms roundMoney_exact_nonneg in blast)

lemma roundMoney_nonneg_ge0: "0 \<le> x \<Longrightarrow> money_range x \<Longrightarrow> 0 \<le> roundMoney x"
  by (rule roundMoney_ge) auto

lemma roundMoney_within:
  assumes "money_range x"
  shows "\<bar>roundMoney x - x\<bar> < 1 / 100"
proof -
  have pos: "\<bar>roundMoney y - y\<bar> < 1 / 100" if y: "0 \<le> y" "money_range y" for y
  proof -
    define lo hi where "lo = of_int \<lfloor>y * 100\<rfloor> / (100 :: rat)" and "hi = of_int \<lceil>y * 100\<rceil> / (100 :: rat)"
    have p: "whole_paise lo" "whole_paise hi" by (auto simp: whole_paise_def lo_def hi_def)
    have "of_int \<lfloor>y * 100\<rfloor> \<le> y * 100" "y * 100 < of_int \<lfloor>y * 100\<rfloor> + 1"
      "y * 100 \<le> of_int \<lceil>y * 100\<rceil>" "of_int \<lceil>y * 100\<rceil> < y * 100 + 1"
      by (linarith | rule ceiling_correct [THEN conjunct1])+
    then have "lo \<le> y" "y \<le> hi" "y < lo + 1 / 100" "hi < y + 1 / 100" by (auto simp: lo_def hi_def field_simps)
    with roundMoney_ge [OF y \<open>lo \<le> y\<close> p(1)] roundMoney_le [OF y \<open>y \<le> hi\<close> p(2)]
    show ?thesis by linarith
  qed
  show ?thesis
  proof (cases "0 \<le> x")
    case False
    with pos [of "- x"] assms show ?thesis by (simp add: roundMoney_uminus money_range_def abs_minus_commute)
  qed (use pos assms in blast)
qed

lemma roundMoney_half_up:
  assumes "0 \<le> x" and "toPrecision15 (x * 100) = x * 100"
  shows "roundMoney x = of_int \<lfloor>x * 100 + 1 / 2\<rfloor> / 100"
  using assms by (simp add: roundMoney_nonneg js_round_def)

lemma whole_paise_add: "whole_paise x \<Longrightarrow> whole_paise y \<Longrightarrow> whole_paise (x + y)"
  by (auto simp: whole_paise_def) (metis add_divide_distrib of_int_add)

lemma whole_paise_diff: "whole_paise x \<Longrightarrow> whole_paise y \<Longrightarrow> whole_paise (x - y)"
  using whole_paise_add [of x "- y"] by simp

lemma whole_paise_min: "whole_paise x \<Longrightarrow> whole_paise y \<Longrightarrow> whole_paise (min x y)"
  by (simp add: min_def)

lemma whole_paise_max: "whole_paise x \<Longrightarrow> whole_paise y \<Longrightarrow> whole_paise (max x y)"
  by (simp add: max_def)

lemmas paise_intros = whole_paise_add whole_paise_diff whole_paise_min whole_paise_max whole_paise_round

section \<open>Lemmas on withholding\<close>

lemma number_max_range: "number_or_zero v \<le> 10 ^ 12 \<Longrightarrow> money_range (max 0 (number_or_zero v))"
  by (auto simp: money_range_def max_def)

lemma round_max_range:
  assumes "number_or_zero v \<le> 10 ^ 12"
  shows "0 \<le> roundMoney (max 0 (number_or_zero v)) \<and> roundMoney (max 0 (number_or_zero v)) \<le> 10 ^ 12"
proof
  show "0 \<le> roundMoney (max 0 (number_or_zero v))"
    using number_max_range [OF assms] by (intro roundMoney_nonneg_ge0) auto
  have "whole_paise (10 ^ 12)" by (auto simp: whole_paise_def intro: exI [of _ "100 * 10 ^ 12"])
  then show "roundMoney (max 0 (number_or_zero v)) \<le> 10 ^ 12"
    using number_max_range [OF assms] assms by (intro roundMoney_le) auto
qed

text \<open>
  The figures of one deduction inside the range of the columns: fees and tax of a year below one lakh
  crore, a rate of at most one hundred percent.
\<close>

definition tds_input_ok :: "Tds194jInput \<Rightarrow> bool" where
  "tds_input_ok i \<longleftrightarrow> number_or_zero (tds_gross i) \<le> 10 ^ 12 \<and> number_or_zero (fyGrossBefore i) \<le> 10 ^ 12
     \<and> number_or_zero (fyTdsBefore i) \<le> 10 ^ 12 \<and> number_or_zero (ratePct i) \<le> 100"

abbreviation tds_fee :: "Tds194jInput \<Rightarrow> rat" where
  "tds_fee i \<equiv> roundMoney (max 0 (number_or_zero (tds_gross i)))"

abbreviation tds_before :: "Tds194jInput \<Rightarrow> rat" where
  "tds_before i \<equiv> roundMoney (max 0 (number_or_zero (fyGrossBefore i)))"

abbreviation tds_withheld :: "Tds194jInput \<Rightarrow> rat" where
  "tds_withheld i \<equiv> roundMoney (max 0 (number_or_zero (fyTdsBefore i)))"

abbreviation tds_rate :: "Tds194jInput \<Rightarrow> rat" where
  "tds_rate i \<equiv> max 0 (number_or_zero (ratePct i)) / 100"

abbreviation tds_threshold :: "Tds194jInput \<Rightarrow> rat" where
  "tds_threshold i \<equiv> max 0 (number_or_zero (thresholdRupees i))"

lemma tds_including:
  assumes "tds_input_ok i"
  shows "roundMoney (tds_before i + tds_fee i) = tds_before i + tds_fee i"
proof (rule roundMoney_exact)
  show "money_range (tds_before i + tds_fee i)"
    using round_max_range [of "tds_gross i"] round_max_range [of "fyGrossBefore i"] assms
    by (auto simp: tds_input_ok_def money_range_def)
qed (intro paise_intros)

lemma tds_cases:
  assumes "tds_input_ok i"
  shows "tds194jDeduction i =
    (if tds_threshold i \<le> 0
     then \<lparr> tds = roundMoney (tds_fee i * tds_rate i), basis = NO_THRESHOLD, fyGrossIncluding = tds_before i + tds_fee i \<rparr>
     else if tds_before i + tds_fee i \<le> tds_threshold i
     then \<lparr> tds = 0, basis = BELOW_THRESHOLD, fyGrossIncluding = tds_before i + tds_fee i \<rparr>
     else \<lparr> tds = min (tds_fee i) (max 0 (roundMoney ((tds_before i + tds_fee i) * tds_rate i - tds_withheld i))),
            basis = (if tds_before i > tds_threshold i then ABOVE else CROSSED),
            fyGrossIncluding = tds_before i + tds_fee i \<rparr>)"
proof -
  let ?due = "roundMoney ((tds_before i + tds_fee i) * tds_rate i - tds_withheld i)"
  have fee: "0 \<le> tds_fee i" "tds_fee i \<le> 10 ^ 12"
    using round_max_range [of "tds_gross i"] assms by (auto simp: tds_input_ok_def)
  have "roundMoney (min (tds_fee i) (max 0 ?due)) = min (tds_fee i) (max 0 ?due)"
  proof (rule roundMoney_exact)
    show "money_range (min (tds_fee i) (max 0 ?due))" using fee by (auto simp: money_range_def min_def max_def)
  qed (intro paise_intros whole_paise_0)
  then show ?thesis
    unfolding tds194jDeduction_def Let_def tds_including [OF assms] by (simp only:)
qed

lemma range_diff: "0 \<le> y \<Longrightarrow> y \<le> a \<Longrightarrow> a \<le> 2 * 10 ^ 12 \<Longrightarrow> 0 \<le> w \<Longrightarrow> w \<le> 10 ^ 12 \<Longrightarrow> money_range (y - w)"
  by (simp add: money_range_def abs_less_iff)

lemma tds_rate_le1: "tds_input_ok i \<Longrightarrow> 0 \<le> tds_rate i \<and> tds_rate i \<le> 1"
  by (auto simp: tds_input_ok_def max_def)

lemma flat_tds_bounds:
  assumes "tds_input_ok i"
  shows "0 \<le> roundMoney (tds_fee i * tds_rate i) \<and> roundMoney (tds_fee i * tds_rate i) \<le> tds_fee i"
proof -
  have fee: "0 \<le> tds_fee i" "tds_fee i \<le> 10 ^ 12"
    using round_max_range [of "tds_gross i"] assms by (auto simp: tds_input_ok_def)
  have le: "tds_fee i * tds_rate i \<le> tds_fee i" and ge: "0 \<le> tds_fee i * tds_rate i"
    using tds_rate_le1 [OF assms] fee mult_left_le [of "tds_rate i" "tds_fee i"] by auto
  with fee have "money_range (tds_fee i * tds_rate i)" by (auto simp: money_range_def)
  with le ge show ?thesis
    using roundMoney_le roundMoney_nonneg_ge0 whole_paise_round by blast
qed

section \<open>Lemmas on invoice numbers\<close>

lemma digits_value_append: "digits_value (xs @ ys) acc = digits_value ys (digits_value xs acc)"
  by (induction xs arbitrary: acc) auto

lemma digits_value_nat_digits: "digits_value (nat_digits n) 0 = n"
proof (induction n rule: nat_digits.induct)
  case (1 n)
  then show ?case by (cases "n < 10") (simp_all add: nat_digits.simps [of n] digits_value_append)
qed

lemma digits_value_zeros: "digits_value (replicate k CHR ''0'' @ s) 0 = digits_value s 0"
  by (induction k) (simp_all add: digit_value_def code_def)

lemma digits_value_pad: "digits_value (pad_start k CHR ''0'' (nat_digits n)) 0 = n"
  by (simp add: pad_start_def digits_value_zeros digits_value_nat_digits)

lemma length_nat_digits: "n < 10 ^ k \<Longrightarrow> 0 < k \<Longrightarrow> length (nat_digits n) \<le> k"
proof (induction n arbitrary: k rule: nat_digits.induct)
  case (1 n)
  show ?case
  proof (cases "n < 10")
    case False
    with 1(2,3) obtain k' where k: "k = Suc k'" "0 < k'"
      by (metis gr0_conv_Suc neq0_conv not_gr0 not_less power_one_right Suc_lessI less_one linorder_not_le not_less_eq)
    with 1(2) have "n div 10 < 10 ^ k'" by (simp add: div_less_iff_less_mult mult.commute)
    with 1(1) [OF False] k show ?thesis using False by (simp add: nat_digits.simps [of n])
  qed (use 1 in \<open>simp add: nat_digits.simps [of n]\<close>)
qed

lemma set_pad: "c \<in> set (pad_start k CHR ''0'' (nat_digits n)) \<Longrightarrow> is_digit c"
  by (auto simp: pad_start_def is_digit_def code_def dest: set_nat_digits)

lemma pad2_digits: "length (pad2 n) = 2 \<and> list_all is_digit (pad2 n)"
proof -
  have "nat (n mod 100) < 10 ^ 2" by simp
  then have "length (nat_digits (nat (n mod 100))) \<le> 2" by (rule length_nat_digits) simp
  then show ?thesis by (auto simp: pad2_def length_pad_start list_all_iff dest: set_pad)
qed

lemma fy_label_ok: "is_fy_label (pad2 a @ ''-'' @ pad2 b)"
proof -
  obtain a1 a2 b1 b2 where "pad2 a = [a1, a2]" "pad2 b = [b1, b2]"
    using pad2_digits [of a] pad2_digits [of b] by (auto simp: length_Suc_conv numeral_2_eq_2)
  with pad2_digits [of a] pad2_digits [of b] show ?thesis by (simp add: is_fy_label_def)
qed

lemma serial_digits:
  assumes "1 \<le> serial" and "serial \<le> CLIENT_INVOICE_SERIAL_MAX"
  shows "length (pad_start 6 CHR ''0'' (nat_digits (nat serial))) = 6"
proof -
  have "nat serial < 10 ^ 6" using assms by (simp add: CLIENT_INVOICE_SERIAL_MAX_def)
  then have "length (nat_digits (nat serial)) \<le> 6" by (rule length_nat_digits) simp
  then show ?thesis by (rule length_pad_start)
qed

lemma format_Inr:
  "formatClientInvoiceNumber l s = Inr n \<longleftrightarrow>
     is_fy_label l \<and> 1 \<le> s \<and> s \<le> CLIENT_INVOICE_SERIAL_MAX
     \<and> n = ''INV/'' @ l @ ''/'' @ pad_start 6 CHR ''0'' (nat_digits (nat s))"
  by (auto simp: formatClientInvoiceNumber_def)

lemma format_inject:
  assumes "formatClientInvoiceNumber l s = Inr n" and "formatClientInvoiceNumber l' s' = Inr n"
  shows "l = l' \<and> s = s'"
proof -
  let ?d = "\<lambda>k. pad_start 6 CHR ''0'' (nat_digits (nat k))"
  have "n = ''INV/'' @ l @ ''/'' @ ?d s" and "n = ''INV/'' @ l' @ ''/'' @ ?d s'"
    and len: "length l = length l'" and pos: "1 \<le> s" "1 \<le> s'"
    using assms by (simp_all only: format_Inr is_fy_label_def)
  then have "l @ ''/'' @ ?d s = l' @ ''/'' @ ?d s'" by simp
  with len have "l = l'" and "?d s = ?d s'" by (simp_all only: append_eq_append_conv simp_thms)
  then have "digits_value (?d s) 0 = digits_value (?d s') 0" by simp
  then have "nat s = nat s'" by (simp only: digits_value_pad)
  with pos \<open>l = l'\<close> show ?thesis by simp
qed

section \<open>Properties\<close>

text \<open>
  C39. \<^verbatim>\<open>roundMoney\<close> rounds to paise: within ten lakh crore rupees the result is a whole number of paise
  less than one paisa away, a figure that is already in whole paise is returned unchanged, so rounding
  twice is rounding once; a credit rounds to the same size as the charge it reverses; and a figure whose
  paise have at most fifteen significant digits goes to the nearest paisa, a half going up in size.
\<close>

theorem roundMoney_correct:
  assumes "money_range x"
  shows "whole_paise (roundMoney x) \<and> \<bar>roundMoney x - x\<bar> < 1 / 100
    \<and> (whole_paise x \<longrightarrow> roundMoney x = x)
    \<and> (\<bar>x\<bar> \<le> 10 ^ 12 \<longrightarrow> roundMoney (roundMoney x) = roundMoney x)
    \<and> roundMoney (- x) = - roundMoney x
    \<and> (0 \<le> x \<and> toPrecision15 (x * 100) = x * 100 \<longrightarrow> roundMoney x = of_int \<lfloor>x * 100 + 1 / 2\<rfloor> / 100)"
proof (intro conjI impI)
  show "roundMoney (roundMoney x) = roundMoney x" if "\<bar>x\<bar> \<le> 10 ^ 12"
  proof (rule roundMoney_exact [OF _ whole_paise_round])
    have "\<bar>roundMoney x\<bar> < 10 ^ 12 + 1 / 100" using that roundMoney_within [OF assms] by linarith
    then show "money_range (roundMoney x)" by (simp add: money_range_def)
  qed
  show "roundMoney x = of_int \<lfloor>x * 100 + 1 / 2\<rfloor> / 100" if "0 \<le> x \<and> toPrecision15 (x * 100) = x * 100"
    using that by (intro roundMoney_half_up) auto
  show "\<bar>roundMoney x - x\<bar> < 1 / 100" by (rule roundMoney_within [OF assms])
qed (use assms in \<open>simp_all add: whole_paise_round roundMoney_exact roundMoney_uminus\<close>)

theorem roundMoney_correct_witness:
  "roundMoney (1005 / 1000) = 101 / 100 \<and> roundMoney (- 1005 / 1000) = - 101 / 100"
proof -
  have "money_range (1005 / 1000)" by (simp add: money_range_def)
  moreover have "exp_up (201 / 2) = 2"
    by (simp add: exp_up.simps [of "201 / 2"] exp_up.simps [of "201 / 20"] exp_up.simps [of "201 / 200"])
  then have "toPrecision15 (1005 / 1000 * 100) = 1005 / 1000 * 100"
    by (simp add: toPrecision15_def precision_scale_def js_round_def floor_unique)
  ultimately have "roundMoney (1005 / 1000) = of_int \<lfloor>1005 / 1000 * 100 + 1 / 2 :: rat\<rfloor> / 100"
    and "roundMoney (- (1005 / 1000)) = - roundMoney (1005 / 1000)"
    using roundMoney_correct [of "1005 / 1000"] by auto
  then show ?thesis by simp
qed

text \<open>
  C38. Withholding under s.194J: on figures inside the range, the tax withheld from a payable is never
  negative and never more than the payable, nothing is withheld while the year's fees stay at or under
  the threshold, and once they are past it and the amount due is neither negative nor more than the
  payable, the tax of the whole year after this payable is within a paisa of the rate applied to the
  whole year's fees, whatever was withheld before.
\<close>

theorem tds_correct:
  assumes "tds_input_ok i"
  shows "0 \<le> tds (tds194jDeduction i) \<and> tds (tds194jDeduction i) \<le> tds_fee i
    \<and> (0 < tds_threshold i \<and> tds_before i + tds_fee i \<le> tds_threshold i \<longrightarrow> tds (tds194jDeduction i) = 0)
    \<and> (0 < tds_threshold i \<and> tds_threshold i < tds_before i + tds_fee i
        \<and> 0 \<le> roundMoney ((tds_before i + tds_fee i) * tds_rate i - tds_withheld i)
        \<and> roundMoney ((tds_before i + tds_fee i) * tds_rate i - tds_withheld i) \<le> tds_fee i \<longrightarrow>
        \<bar>tds_withheld i + tds (tds194jDeduction i) - (tds_before i + tds_fee i) * tds_rate i\<bar> < 1 / 100)"
proof (intro conjI impI)
  let ?due = "(tds_before i + tds_fee i) * tds_rate i - tds_withheld i"
  have fee: "0 \<le> tds_fee i" "tds_fee i \<le> 10 ^ 12" "0 \<le> tds_before i" "tds_before i \<le> 10 ^ 12"
    "0 \<le> tds_withheld i" "tds_withheld i \<le> 10 ^ 12"
    using round_max_range [of "tds_gross i"] round_max_range [of "fyGrossBefore i"]
      round_max_range [of "fyTdsBefore i"] assms by (auto simp: tds_input_ok_def)
  show "0 \<le> tds (tds194jDeduction i)" "tds (tds194jDeduction i) \<le> tds_fee i"
    using fee flat_tds_bounds [OF assms] by (auto simp: tds_cases [OF assms])
  show "tds (tds194jDeduction i) = 0"
    if "0 < tds_threshold i \<and> tds_before i + tds_fee i \<le> tds_threshold i"
    using that unfolding tds_cases [OF assms]
    by (simp only: not_le [symmetric] if_False if_True simp_thms Tds194jOutcome.simps)
  assume past: "0 < tds_threshold i \<and> tds_threshold i < tds_before i + tds_fee i
        \<and> 0 \<le> roundMoney ?due \<and> roundMoney ?due \<le> tds_fee i"
  then have "tds (tds194jDeduction i) = min (tds_fee i) (max 0 (roundMoney ?due))"
    unfolding tds_cases [OF assms]
    by (simp only: not_le [symmetric] if_False if_True simp_thms Tds194jOutcome.simps)
  with past have "tds (tds194jDeduction i) = roundMoney ?due" by simp
  moreover have "\<bar>roundMoney ?due - ?due\<bar> < 1 / 100"
  proof (rule roundMoney_within)
    have "(tds_before i + tds_fee i) * tds_rate i \<le> tds_before i + tds_fee i"
      "0 \<le> (tds_before i + tds_fee i) * tds_rate i"
      using tds_rate_le1 [OF assms] fee mult_left_le [of "tds_rate i" "tds_before i + tds_fee i"] by auto
    moreover have "tds_before i + tds_fee i \<le> 2 * 10 ^ 12" using fee by linarith
    ultimately show "money_range ?due" using fee(5,6) by (intro range_diff)
  qed
  ultimately show "\<bar>tds_withheld i + tds (tds194jDeduction i) - (tds_before i + tds_fee i) * tds_rate i\<bar> < 1 / 100"
    by linarith
qed

definition sample_tds :: Tds194jInput where
  "sample_tds = \<lparr> tds_gross = Num 30000, ratePct = Num 10, thresholdRupees = Num 50000,
     fyGrossBefore = Num 40000, fyTdsBefore = NaN \<rparr>"

theorem tds_correct_witness:
  "\<bar>tds_withheld sample_tds + tds (tds194jDeduction sample_tds) - 7000\<bar> < 1 / 100"
proof -
  have p: "whole_paise (of_nat n)" for n :: nat
    by (auto simp: whole_paise_def intro: exI [of _ "100 * int n"])
  have r: "roundMoney 30000 = 30000" "roundMoney 40000 = 40000" "roundMoney 7000 = 7000"
    using p [of 30000] p [of 40000] p [of 7000] by (simp_all add: roundMoney_exact money_range_def)
  have "tds_input_ok sample_tds" by (simp add: tds_input_ok_def sample_tds_def)
  from tds_correct [OF this] r show ?thesis by (simp add: sample_tds_def)
qed

text \<open>
  Client invoice numbers: a number is made exactly for a financial-year label and a serial from 1 to
  999999; it has sixteen characters and the published pattern; two different year labels or serials never
  give the same number; and the label of every financial year the system computes is accepted.
\<close>

theorem invoice_number_correct:
  "((\<exists>n. formatClientInvoiceNumber l s = Inr n) \<longleftrightarrow> is_fy_label l \<and> 1 \<le> s \<and> s \<le> 999999)
   \<and> (\<forall>n. formatClientInvoiceNumber l s = Inr n \<longrightarrow> CLIENT_INVOICE_NUMBER_PATTERN n)
   \<and> (\<forall>n. formatClientInvoiceNumber l s = Inr n \<and> formatClientInvoiceNumber l' s' = Inr n \<longrightarrow> l = l' \<and> s = s')
   \<and> (\<forall>f. indianFinancialYear indian_day v = Inr f \<longrightarrow> is_fy_label (fy_label f))"
proof (intro conjI allI impI)
  show "(\<exists>n. formatClientInvoiceNumber l s = Inr n) \<longleftrightarrow> is_fy_label l \<and> 1 \<le> s \<and> s \<le> 999999"
    by (simp add: format_Inr CLIENT_INVOICE_SERIAL_MAX_def)
next
  fix n assume "formatClientInvoiceNumber l s = Inr n"
  then have n: "is_fy_label l" "length l = 5" "length (pad_start 6 CHR ''0'' (nat_digits (nat s))) = 6"
    "n = ''INV/'' @ l @ ''/'' @ pad_start 6 CHR ''0'' (nat_digits (nat s))"
    using serial_digits by (auto simp: format_Inr is_fy_label_def)
  then show "CLIENT_INVOICE_NUMBER_PATTERN n"
    by (auto simp: CLIENT_INVOICE_NUMBER_PATTERN_def nth_append list_all_iff dest: set_pad)
next
  fix n assume "formatClientInvoiceNumber l s = Inr n \<and> formatClientInvoiceNumber l' s' = Inr n"
  then show "l = l'" "s = s'" using format_inject by blast+
next
  fix f assume "indianFinancialYear indian_day v = Inr f"
  then obtain a where "fy_label f = pad2 a @ ''-'' @ pad2 (a + 1)"
    unfolding indianFinancialYear_def Let_def by (auto split: option.splits)
  then show "is_fy_label (fy_label f)" by (simp only: fy_label_ok)
qed

theorem invoice_number_correct_witness:
  "\<exists>n. formatClientInvoiceNumber ''25-26'' 123 = Inr n \<and> CLIENT_INVOICE_NUMBER_PATTERN n"
proof -
  have "is_fy_label ''25-26''" by (simp add: is_fy_label_def is_digit_def code_def)
  then obtain n where "formatClientInvoiceNumber ''25-26'' 123 = Inr n"
    using invoice_number_correct [of "''25-26''" 123 "[]" 0 "\<lambda>_. None" "[]"] by auto
  then show ?thesis using invoice_number_correct [of "''25-26''" 123 "[]" 0 "\<lambda>_. None" "[]"] by blast
qed

end
