(* ===== verification/Business_Calendar.thy ===== *)
theory Business_Calendar
  imports Money_Rules
begin

text \<open>
  The business day: \<^verbatim>\<open>businessDateKey\<close> of \<^verbatim>\<open>packages/shared/src/labels.ts\<close> and \<^verbatim>\<open>istDayStartIso\<close> of
  \<^verbatim>\<open>assignment-capabilities.ts\<close>. A \<^verbatim>\<open>Date\<close> is invalid or a number of milliseconds since 1970 (earlier
  instants are left out); India keeps one offset from UTC, five hours and thirty minutes. Keys are
  compared, as in the source, as strings. The results show that comparing keys is comparing days and
  that the start of a day is the first instant that has its key.
\<close>

section \<open>Comparing strings\<close>

fun js_less :: "string \<Rightarrow> string \<Rightarrow> bool" where
  "js_less xs [] = False"
| "js_less [] (y # ys) = True"
| "js_less (x # xs) (y # ys) = (code x < code y \<or> x = y \<and> js_less xs ys)"

lemma js_less_irrefl [simp]: "\<not> js_less s s"
  by (induction s) auto

lemma js_less_trans: "js_less a b \<Longrightarrow> js_less b c \<Longrightarrow> js_less a c"
proof (induction a c arbitrary: b rule: js_less.induct)
  case (2 y ys)
  then show ?case by simp
next
  case (3 x xs y ys)
  then show ?case by (cases b) auto
qed (metis js_less.simps(1))

lemma js_less_linear: "js_less a b \<or> a = b \<or> js_less b a"
proof (induction a b rule: js_less.induct)
  case (1 xs)
  then show ?case by (cases xs) auto
next
  case (3 x xs y ys)
  have "code x < code y \<or> x = y \<or> code y < code x" using linorder_less_linear [of "code x" "code y"] by auto
  with 3 show ?case by auto
qed simp

lemma js_less_append:
  "length a = length b \<Longrightarrow> js_less (a @ c) (b @ d) \<longleftrightarrow> js_less a b \<or> a = b \<and> js_less c d"
  by (induction a b rule: list_induct2) auto

section \<open>The calendar\<close>

definition leap_year :: "nat \<Rightarrow> bool" where
  "leap_year y \<longleftrightarrow> (4 dvd y \<and> \<not> 100 dvd y) \<or> 400 dvd y"

definition year_days :: "nat \<Rightarrow> nat" where
  "year_days y = (if leap_year y then 366 else 365)"

definition month_days :: "nat \<Rightarrow> nat \<Rightarrow> nat" where
  "month_days y m = (if m = 2 then (if leap_year y then 29 else 28)
     else if m \<in> {4, 6, 9, 11} then 30 else 31)"

lemma year_days_pos [simp]: "0 < year_days y"
  by (simp add: year_days_def)

lemma month_days_pos [simp]: "0 < month_days y m"
  by (simp add: month_days_def)

lemma month_days_le: "month_days y m \<le> 31"
  by (simp add: month_days_def)

function civil_year :: "nat \<Rightarrow> nat \<Rightarrow> nat \<times> nat" where
  "civil_year y n = (if n < year_days y then (y, n) else civil_year (Suc y) (n - year_days y))"
  by pat_completeness auto
termination civil_year
  by (relation "measure snd") (auto simp: year_days_def)

function civil_month :: "nat \<Rightarrow> nat \<Rightarrow> nat \<Rightarrow> nat \<times> nat" where
  "civil_month y m n = (if n < month_days y m \<or> 12 \<le> m then (m, n) else civil_month y (Suc m) (n - month_days y m))"
  by pat_completeness auto
termination civil_month
  by (relation "measure (\<lambda>(y, m, n). n)") (auto simp: month_days_def)

declare civil_year.simps [simp del] civil_month.simps [simp del]

text \<open>Year, month and day of the month of the \<open>n\<close>th day after 1 January 1970.\<close>

definition civil_date :: "nat \<Rightarrow> nat \<times> nat \<times> nat" where
  "civil_date n = (let (y, k) = civil_year 1970 n; (m, d) = civil_month y 1 k in (y, m, d + 1))"

definition days_of_civil :: "nat \<Rightarrow> nat \<Rightarrow> nat \<Rightarrow> nat" where
  "days_of_civil y m d = (\<Sum>i = 1970..<y. year_days i) + (\<Sum>i = 1..<m. month_days y i) + (d - 1)"

section \<open>Keys and instants\<close>

datatype js_date = InvalidDate | Instant nat

definition DAY_MS :: nat where
  "DAY_MS = 86400000"

definition IST_OFFSET_MS :: nat where
  "IST_OFFSET_MS = 19800000"

definition ist_day :: "nat \<Rightarrow> nat" where
  "ist_day t = (t + IST_OFFSET_MS) div DAY_MS"

definition two_digits :: "nat \<Rightarrow> string" where
  "two_digits n = pad_start 2 CHR ''0'' (nat_digits n)"

definition date_key :: "nat \<Rightarrow> string" where
  "date_key n = (case civil_date n of (y, m, d) \<Rightarrow> nat_digits y @ ''-'' @ two_digits m @ ''-'' @ two_digits d)"

fun businessDateKey :: "js_date \<Rightarrow> string" where
  "businessDateKey InvalidDate = []"
| "businessDateKey (Instant t) = date_key (ist_day t)"

text \<open>
  \<^verbatim>\<open>istDayStartIso\<close> reads the key back and answers midnight at the start of that Indian day; the instant
  itself stands for its ISO text. The subtraction is the offset of five and a half hours.
\<close>

definition istDayStartIso :: "string \<Rightarrow> nat" where
  "istDayStartIso key =
     days_of_civil (digits_value (take 4 key) 0) (digits_value (take 2 (drop 5 key)) 0)
       (digits_value (take 2 (drop 8 key)) 0) * DAY_MS - IST_OFFSET_MS"

section \<open>The calendar is exact\<close>

lemma civil_year_sound:
  "civil_year y n = (y', k) \<Longrightarrow> y \<le> y' \<and> k < year_days y' \<and> n = (\<Sum>i = y..<y'. year_days i) + k"
proof (induction y n rule: civil_year.induct)
  case (1 y n)
  show ?case
  proof (cases "n < year_days y")
    case False
    with 1 have "Suc y \<le> y' \<and> k < year_days y' \<and> n - year_days y = (\<Sum>i = Suc y..<y'. year_days i) + k"
      by (simp add: civil_year.simps [of y n])
    with False show ?thesis by (auto simp: sum.atLeast_Suc_lessThan)
  qed (use 1 in \<open>simp add: civil_year.simps [of y n]\<close>)
qed

lemma months_of_year: "(\<Sum>i = 1..<13. month_days y i) = year_days y"
  by (simp add: numeral_eq_Suc month_days_def year_days_def)

lemma civil_month_sound:
  assumes "civil_month y m n = (m', k)" and "m \<le> 12" and "n < (\<Sum>i = m..<13. month_days y i)"
  shows "m \<le> m' \<and> m' \<le> 12 \<and> k < month_days y m' \<and> n = (\<Sum>i = m..<m'. month_days y i) + k"
  using assms
proof (induction y m n rule: civil_month.induct)
  case (1 y m n)
  show ?case
  proof (cases "n < month_days y m \<or> 12 \<le> m")
    case True
    with 1 have "m' = m" "k = n" by (simp_all add: civil_month.simps [of y m n])
    moreover have "n < month_days y m"
    proof (cases "m = 12")
      case True
      then show ?thesis using 1(4) by (simp add: numeral_eq_Suc)
    qed (use True 1 in auto)
    ultimately show ?thesis using 1 by simp
  next
    case False
    have "n - month_days y m < (\<Sum>i = Suc m..<13. month_days y i)"
      using 1(4) False by (auto simp: sum.atLeast_Suc_lessThan [of m 13])
    with 1 False have *: "Suc m \<le> m' \<and> m' \<le> 12 \<and> k < month_days y m'
        \<and> n - month_days y m = (\<Sum>i = Suc m..<m'. month_days y i) + k"
      by (simp add: civil_month.simps [of y m n])
    with False show ?thesis by (auto simp: sum.atLeast_Suc_lessThan)
  qed
qed

lemma civil_date_sound:
  assumes "civil_date n = (y, m, d)"
  shows "1970 \<le> y \<and> 1 \<le> m \<and> m \<le> 12 \<and> 1 \<le> d \<and> d \<le> month_days y m \<and> days_of_civil y m d = n"
proof -
  obtain k where k: "civil_year 1970 n = (y, k)" and md: "civil_month y 1 k = (m, d - 1)" and d: "1 \<le> d"
    using assms by (auto simp: civil_date_def Let_def split: prod.splits)
  note Y = civil_year_sound [OF k]
  have "k < (\<Sum>i = 1..<13. month_days y i)" using Y by (simp only: months_of_year)
  from civil_month_sound [OF md _ this] Y d show ?thesis
    by (auto simp: days_of_civil_def)
qed

lemma month_offset_less:
  assumes "1 \<le> m" "m \<le> 12" "d \<le> month_days y m" "1 \<le> d"
  shows "(\<Sum>i = 1..<m. month_days y i) + (d - 1) < (\<Sum>i = 1..<Suc m. month_days y i)"
  using assms by simp

lemma month_offset_in_year:
  assumes "1 \<le> m" "m \<le> 12" "d \<le> month_days y m" "1 \<le> d"
  shows "(\<Sum>i = 1..<m. month_days y i) + (d - 1) < year_days y"
proof -
  have "(\<Sum>i = 1..<Suc m. month_days y i) \<le> (\<Sum>i = 1..<13. month_days y i)"
    using assms by (intro sum_mono2) auto
  with month_offset_less [OF assms] show ?thesis by (simp only: months_of_year)
qed

lemma days_of_civil_mono:
  assumes "1970 \<le> y" "1 \<le> m" "m \<le> 12" "1 \<le> d" "d \<le> month_days y m"
    and "1 \<le> m'" "m' \<le> 12" "1 \<le> d'" "d' \<le> month_days y' m'"
    and less: "y < y' \<or> y = y' \<and> (m < m' \<or> m = m' \<and> d < d')"
  shows "days_of_civil y m d < days_of_civil y' m' d'"
proof -
  consider "y < y'" | "y = y'" "m < m'" | "y = y'" "m = m'" "d < d'" using less by auto
  then show ?thesis
  proof cases
    case 1
    have "(\<Sum>i = 1970..<Suc y. year_days i) \<le> (\<Sum>i = 1970..<y'. year_days i)"
      using 1 by (intro sum_mono2) auto
    with month_offset_in_year [of m d y] assms show ?thesis by (simp add: days_of_civil_def)
  next
    case 2
    have "(\<Sum>i = 1..<Suc m. month_days y i) \<le> (\<Sum>i = 1..<m'. month_days y i)"
      using 2 by (intro sum_mono2) auto
    with month_offset_less [of m d y] 2 assms show ?thesis by (simp add: days_of_civil_def)
  next
    case 3
    then show ?thesis using assms by (simp add: days_of_civil_def)
  qed
qed

section \<open>Comparing keys is comparing days\<close>

lemma digits_value_acc: "digits_value s acc = acc * 10 ^ length s + digits_value s 0"
proof (induction s arbitrary: acc)
  case (Cons c s)
  show ?case
    using Cons [of "acc * 10 + digit_value c"] Cons [of "digit_value c"] by (simp add: algebra_simps)
qed simp

lemma digits_value_bound: "list_all is_digit s \<Longrightarrow> digits_value s 0 < 10 ^ length s"
proof (induction s)
  case (Cons c s)
  then have "digit_value c + 1 \<le> 10" by (simp add: Suc_le_eq)
  then have "(digit_value c + 1) * 10 ^ length s \<le> 10 * 10 ^ length s" by (rule mult_right_mono) simp
  then have "digit_value c * 10 ^ length s + 10 ^ length s \<le> 10 * 10 ^ length s" unfolding add_mult_distrib by simp
  moreover have "digits_value s 0 < 10 ^ length s" using Cons by simp
  ultimately have "digit_value c * 10 ^ length s + digits_value s 0 < 10 * 10 ^ length s" by linarith
  then show ?case by (simp add: digits_value_acc [of s "digit_value c"])
qed simp

lemma lex_arith:
  fixes a b u v p :: nat
  assumes "u < p" "v < p"
  shows "a * p + u < b * p + v \<longleftrightarrow> a < b \<or> a = b \<and> u < v"
proof -
  have "a * p + u < b * p + v" if "a < b"
  proof -
    have "(a + 1) * p \<le> b * p" using that by (intro mult_right_mono) auto
    with assms show ?thesis by simp
  qed
  moreover have "b * p + v < a * p + u" if "b < a"
  proof -
    have "(b + 1) * p \<le> a * p" using that by (intro mult_right_mono) auto
    with assms show ?thesis by simp
  qed
  ultimately show ?thesis by (metis add_less_cancel_left linorder_less_linear not_less_iff_gr_or_eq)
qed

lemma js_less_digits:
  assumes "length a = length b" and "list_all is_digit a" and "list_all is_digit b"
  shows "js_less a b \<longleftrightarrow> digits_value a 0 < digits_value b 0"
  using assms
proof (induction a b rule: list_induct2)
  case (Cons x xs y ys)
  have "code x < code y \<longleftrightarrow> digit_value x < digit_value y" using Cons(3,4)
    by (auto simp: digit_value_def is_digit_def)
  moreover have "x = y \<longleftrightarrow> digit_value x = digit_value y" using Cons(3,4)
    by (simp add: digit_value_inject)
  ultimately show ?case
    using Cons digits_value_bound [of xs] digits_value_bound [of ys]
    by (simp add: digits_value_acc [of xs "digit_value x"] digits_value_acc [of ys "digit_value y"] lex_arith)
qed simp

lemma nat_digits_digits: "list_all is_digit (nat_digits n)"
  by (auto simp: list_all_iff dest: set_nat_digits)

lemma two_digits_facts: "n < 100 \<Longrightarrow> length (two_digits n) = 2 \<and> list_all is_digit (two_digits n) \<and> digits_value (two_digits n) 0 = n"
  using length_nat_digits [of n 2]
  by (auto simp: two_digits_def length_pad_start digits_value_pad list_all_iff dest: set_pad)

lemma two_digits_less: "m < 100 \<Longrightarrow> n < 100 \<Longrightarrow> js_less (two_digits m) (two_digits n) \<longleftrightarrow> m < n"
  using js_less_digits [of "two_digits m" "two_digits n"] by (simp add: two_digits_facts)

lemma two_digits_inject: "m < 100 \<Longrightarrow> n < 100 \<Longrightarrow> two_digits m = two_digits n \<longleftrightarrow> m = n"
  by (metis two_digits_facts)

lemma length_nat_digits_step: "10 \<le> n \<Longrightarrow> length (nat_digits n) = Suc (length (nat_digits (n div 10)))"
  by (subst nat_digits.simps) simp

lemma nat_digits_four:
  assumes "1000 \<le> y" "y \<le> 9999"
  shows "length (nat_digits y) = 4"
proof -
  have "100 \<le> y div 10" "y div 10 \<le> 999" using assms by linarith+
  then have "10 \<le> y div 10 div 10" "y div 10 div 10 \<le> 99" by linarith+
  then have "y div 10 div 10 div 10 < 10" by linarith
  then have "length (nat_digits (y div 10 div 10 div 10)) = 1" by (subst nat_digits.simps) simp
  then show ?thesis
    using assms \<open>100 \<le> y div 10\<close> \<open>10 \<le> y div 10 div 10\<close> by (simp only: length_nat_digits_step)
qed

lemma nat_digits_inject: "nat_digits m = nat_digits n \<longleftrightarrow> m = n"
  by (metis digits_value_nat_digits)

text \<open>The days whose year has four digits: up to 31 December 9999.\<close>

definition four_digit_year :: "nat \<Rightarrow> bool" where
  "four_digit_year n \<longleftrightarrow> fst (civil_date n) \<le> 9999"

lemma date_key_less:
  assumes "four_digit_year a" "four_digit_year b"
  shows "js_less (date_key a) (date_key b) \<longleftrightarrow> a < b"
proof -
  obtain y m d where a: "civil_date a = (y, m, d)" using prod_cases3 by blast
  obtain y' m' d' where b: "civil_date b = (y', m', d')" using prod_cases3 by blast
  note A = civil_date_sound [OF a] and B = civil_date_sound [OF b]
  have le: "y \<le> 9999" "y' \<le> 9999" using assms a b by (simp_all add: four_digit_year_def)
  have small: "m < 100" "m' < 100" "d < 100" "d' < 100"
    using A B month_days_le [of y m] month_days_le [of y' m'] by simp_all
  have len: "length (nat_digits y) = 4" "length (nat_digits y') = 4"
    using A B le nat_digits_four [of y] nat_digits_four [of y'] by auto
  have "js_less (date_key a) (date_key b) \<longleftrightarrow> y < y' \<or> y = y' \<and> (m < m' \<or> m = m' \<and> d < d')"
    using small len js_less_digits [of "nat_digits y" "nat_digits y'"]
    by (simp add: date_key_def a b js_less_append two_digits_facts two_digits_less two_digits_inject
        nat_digits_digits digits_value_nat_digits nat_digits_inject)
  also have "\<dots> \<longleftrightarrow> a < b"
    using days_of_civil_mono [of y m d m' d' y'] days_of_civil_mono [of y' m' d' m d y] A B
    by (metis linorder_less_linear order_less_asym)
  finally show ?thesis .
qed

lemma date_key_inject:
  "four_digit_year a \<Longrightarrow> four_digit_year b \<Longrightarrow> date_key a = date_key b \<longleftrightarrow> a = b"
  by (metis date_key_less js_less_irrefl linorder_less_linear)

lemma date_key_not_Nil [simp]: "date_key n \<noteq> []"
  by (auto simp: date_key_def split: prod.splits)

lemma date_key_take: "four_digit_year n \<Longrightarrow> take 10 (date_key n) = date_key n"
proof -
  assume "four_digit_year n"
  obtain y m d where a: "civil_date n = (y, m, d)" using prod_cases3 by blast
  note A = civil_date_sound [OF a]
  have "length (nat_digits y) = 4" "m < 100" "d < 100"
    using A \<open>four_digit_year n\<close> nat_digits_four [of y] month_days_le [of y m] by (simp_all add: four_digit_year_def a)
  then show ?thesis by (simp add: date_key_def a two_digits_facts)
qed

lemma four_digit_year_mono: "a \<le> b \<Longrightarrow> four_digit_year b \<Longrightarrow> four_digit_year a"
proof -
  assume le: "a \<le> b" and b4: "four_digit_year b"
  obtain y m d where a: "civil_date a = (y, m, d)" using prod_cases3 by blast
  obtain y' m' d' where b: "civil_date b = (y', m', d')" using prod_cases3 by blast
  have "\<not> y' < y"
    using days_of_civil_mono [of y' m' d' m d y] civil_date_sound [OF a] civil_date_sound [OF b] le by auto
  with b4 a b show ?thesis by (simp add: four_digit_year_def)
qed

lemma istDayStart_key:
  assumes "four_digit_year n"
  shows "istDayStartIso (date_key n) = n * DAY_MS - IST_OFFSET_MS"
proof -
  obtain y m d where a: "civil_date n = (y, m, d)" using prod_cases3 by blast
  note A = civil_date_sound [OF a]
  have len: "length (nat_digits y) = 4"
    using A assms a nat_digits_four [of y] by (simp add: four_digit_year_def)
  have "m < 100" "d < 100" using A month_days_le [of y m] by simp_all
  then have "take 4 (date_key n) = nat_digits y" "take 2 (drop 5 (date_key n)) = two_digits m"
    "take 2 (drop 8 (date_key n)) = two_digits d"
    using len by (simp_all add: date_key_def a two_digits_facts)
  with \<open>m < 100\<close> \<open>d < 100\<close> A show ?thesis
    by (simp add: istDayStartIso_def digits_value_nat_digits two_digits_facts)
qed

text \<open>Except on the first day of 1970, the start of a day is the first instant with its key.\<close>

lemma ist_day_start:
  assumes "0 < n"
  shows "n * DAY_MS - IST_OFFSET_MS \<le> t \<longleftrightarrow> n \<le> ist_day t"
proof -
  have "n * DAY_MS - IST_OFFSET_MS \<le> t \<longleftrightarrow> n * DAY_MS \<le> t + IST_OFFSET_MS" by (simp add: le_diff_conv)
  also have "\<dots> \<longleftrightarrow> n \<le> ist_day t"
    by (simp add: ist_day_def DAY_MS_def less_eq_div_iff_mult_less_eq)
  finally show ?thesis .
qed

end
