(* ===== verification/Check_In_Rules.thy ===== *)
theory Check_In_Rules
  imports Business_Calendar
begin

text \<open>
  \<^verbatim>\<open>packages/shared/src/check-in-rules.ts\<close>: the zone around a branch and the clock an arrival is
  written in, with \<^verbatim>\<open>calculateHaversineDistance\<close> of \<^verbatim>\<open>utils.ts\<close>. Coordinates and metres are exact numbers;
  the distance is the real number the formula denotes. Instants are milliseconds.
\<close>

section \<open>The zone\<close>

text \<open>\<^verbatim>\<open>Math.atan2\<close>, without the signed zeros.\<close>

definition js_atan2 :: "real \<Rightarrow> real \<Rightarrow> real" where
  "js_atan2 y x =
    (if 0 < x then arctan (y / x)
     else if x = 0 then (if 0 < y then pi / 2 else if y < 0 then - pi / 2 else 0)
     else if 0 \<le> y then arctan (y / x) + pi else arctan (y / x) - pi)"

definition haversine :: "real \<Rightarrow> real \<Rightarrow> real \<Rightarrow> real \<Rightarrow> real" where
  "haversine lat1 lon1 lat2 lon2 =
    (let dLat = (lat2 - lat1) * pi / 180;
         dLon = (lon2 - lon1) * pi / 180
     in sin (dLat / 2) * sin (dLat / 2)
        + cos (lat1 * pi / 180) * cos (lat2 * pi / 180) * sin (dLon / 2) * sin (dLon / 2))"

definition calculateHaversineDistance :: "real \<Rightarrow> real \<Rightarrow> real \<Rightarrow> real \<Rightarrow> real" where
  "calculateHaversineDistance lat1 lon1 lat2 lon2 =
    (let a = haversine lat1 lon1 lat2 lon2 in 6371 * (2 * js_atan2 (sqrt a) (sqrt (1 - a))))"

definition MAX_DEVICE_ACCURACY_ALLOWANCE_M :: rat where
  "MAX_DEVICE_ACCURACY_ALLOWANCE_M = 1000"

definition accuracy_metres :: "js_number option \<Rightarrow> rat" where
  "accuracy_metres n = max 0 (number_or_zero (nullish_value n (Num 0)))"

definition checkInAllowanceMeters :: "rat \<Rightarrow> js_number option \<Rightarrow> js_number option \<Rightarrow> rat" where
  "checkInAllowanceMeters geofenceMeters deviceAccuracyMeters branchAccuracyMeters =
    geofenceMeters + min (accuracy_metres deviceAccuracyMeters) MAX_DEVICE_ACCURACY_ALLOWANCE_M
      + accuracy_metres branchAccuracyMeters"

record geo_point =
  latitude :: rat
  longitude :: rat

definition usableBranchPoint :: "js_number option \<Rightarrow> js_number option \<Rightarrow> geo_point option" where
  "usableBranchPoint lat lng =
    (case (lat, lng) of
       (Some (Num x), Some (Num y)) \<Rightarrow>
         (if x = 0 \<and> y = 0 then None else Some \<lparr> latitude = x, longitude = y \<rparr>)
     | _ \<Rightarrow> None)"

definition metersFromBranch :: "geo_point \<Rightarrow> geo_point \<Rightarrow> int" where
  "metersFromBranch f b =
    \<lfloor>calculateHaversineDistance (of_rat (latitude f)) (of_rat (longitude f))
        (of_rat (latitude b)) (of_rat (longitude b)) * 1000 + 1 / 2\<rfloor>"

section \<open>The time of an arrival\<close>

datatype CheckInTimeSource = SERVER | DEVICE

datatype CheckInArrivalOutcome =
    ACCEPTED | NOT_SENT | UNREADABLE | IN_FUTURE | DIFFERENT_DAY | TOO_OLD
  | NO_BRANCH_LOCATION | NO_TRAIL_EVIDENCE | NOT_FROM_ASSAYER

definition CHECK_IN_ARRIVAL_CLOCK_SKEW_MS :: nat where
  "CHECK_IN_ARRIVAL_CLOCK_SKEW_MS = 2 * 60000"

record TrailFix =
  fix_latitude :: js_number
  fix_longitude :: js_number
  accuracyMeters :: "js_number option"
  recordedAt :: js_date
  isMocked :: bool

record CheckInTimeDecision =
  decidedAt :: nat
  decided_source :: CheckInTimeSource
  decided_outcome :: CheckInArrivalOutcome
  claimedArrivalAt :: "nat option"

text \<open>
  What the request carried as \<^verbatim>\<open>arrivedAt\<close>: nothing (undefined, null or the empty string), something
  that is neither a string nor a \<^verbatim>\<open>Date\<close>, or a string or \<^verbatim>\<open>Date\<close> as \<^verbatim>\<open>new Date\<close> reads it.
\<close>

datatype sent_arrival = NothingSent | OtherValue | DateLike js_date

record CheckInTimeInput =
  receivedAt :: nat
  arrivedAt :: sent_arrival
  fromAssignedAssayer :: bool
  maxAgeHours :: rat
  trailWindowMinutes :: rat
  geofenceMeters :: rat
  zone_branch :: "geo_point option"
  branchAccuracyMeters :: "js_number option"
  trail_fixes :: "TrailFix list"
  businessDayOf :: "nat \<Rightarrow> string"

fun readable_date :: "js_date \<Rightarrow> nat option" where
  "readable_date InvalidDate = None"
| "readable_date (Instant t) = Some t"

fun claimed_date :: "sent_arrival \<Rightarrow> js_date option" where
  "claimed_date NothingSent = None"
| "claimed_date OtherValue = Some InvalidDate"
| "claimed_date (DateLike d) = Some d"

definition fix_corroborates :: "CheckInTimeInput \<Rightarrow> geo_point \<Rightarrow> nat \<Rightarrow> TrailFix \<Rightarrow> bool" where
  "fix_corroborates i b claimed f =
    (if isMocked f then False
     else case readable_date (recordedAt f) of
       None \<Rightarrow> False
     | Some at_ms \<Rightarrow>
        if of_int \<bar>int at_ms - int claimed\<bar> > max 0 (trailWindowMinutes i) * 60000 then False
        else case (fix_latitude f, fix_longitude f) of
          (Num lat, Num lng) \<Rightarrow>
            of_int (metersFromBranch \<lparr> latitude = lat, longitude = lng \<rparr> b)
              \<le> checkInAllowanceMeters (geofenceMeters i) (accuracyMeters f) (branchAccuracyMeters i)
        | _ \<Rightarrow> False)"

definition server_time :: "CheckInTimeInput \<Rightarrow> CheckInArrivalOutcome \<Rightarrow> nat option \<Rightarrow> CheckInTimeDecision" where
  "server_time i outc claimed =
    \<lparr> decidedAt = receivedAt i, decided_source = SERVER, decided_outcome = outc, claimedArrivalAt = claimed \<rparr>"

definition decideCheckInTime :: "CheckInTimeInput \<Rightarrow> CheckInTimeDecision" where
  "decideCheckInTime i =
    (let now = receivedAt i; sent = claimed_date (arrivedAt i);
         readable = Option.bind sent readable_date
     in if \<not> fromAssignedAssayer i then server_time i NOT_FROM_ASSAYER readable
        else if sent = None then server_time i NOT_SENT None
        else case readable of
          None \<Rightarrow> server_time i UNREADABLE None
        | Some claimed \<Rightarrow>
           if claimed > now + CHECK_IN_ARRIVAL_CLOCK_SKEW_MS then server_time i IN_FUTURE (Some claimed)
           else if businessDayOf i claimed \<noteq> businessDayOf i now then server_time i DIFFERENT_DAY (Some claimed)
           else if of_int (int now - int claimed) > max 0 (maxAgeHours i) * 3600000
             then server_time i TOO_OLD (Some claimed)
           else case zone_branch i of
             None \<Rightarrow> server_time i NO_BRANCH_LOCATION (Some claimed)
           | Some b \<Rightarrow>
              if \<not> list_ex (fix_corroborates i b claimed) (trail_fixes i)
              then server_time i NO_TRAIL_EVIDENCE (Some claimed)
              else \<lparr> decidedAt = min claimed now, decided_source = DEVICE, decided_outcome = ACCEPTED,
                     claimedArrivalAt = Some claimed \<rparr>)"

section \<open>The distance\<close>

lemma cauchy_two: "(a::real)\<^sup>2 + b\<^sup>2 = 1 \<Longrightarrow> c\<^sup>2 + d\<^sup>2 = 1 \<Longrightarrow> \<bar>a * c\<bar> + \<bar>b * d\<bar> \<le> 1"
  using sum_squares_bound [of "\<bar>a\<bar>" "\<bar>c\<bar>"] sum_squares_bound [of "\<bar>b\<bar>" "\<bar>d\<bar>"] by (simp add: abs_mult)

lemma half_sine: "sin ((x::real) / 2) * sin (x / 2) = (1 - cos x) / 2"
  using cos_double_sin [of "x / 2"] by (simp add: power2_eq_square)

lemma haversine_spherical:
  "haversine p l q m =
     (1 - (sin (p * pi / 180) * sin (q * pi / 180)
           + cos (p * pi / 180) * cos (q * pi / 180) * cos ((m - l) * pi / 180))) / 2"
proof -
  have "cos ((q - p) * pi / 180) = cos (q * pi / 180 - p * pi / 180)"
    by (simp add: algebra_simps diff_divide_distrib)
  then have c: "cos ((q - p) * pi / 180)
      = cos (q * pi / 180) * cos (p * pi / 180) + sin (q * pi / 180) * sin (p * pi / 180)"
    by (simp add: cos_diff)
  have "haversine p l q m = (1 - cos ((q - p) * pi / 180)) / 2
      + cos (p * pi / 180) * cos (q * pi / 180) * ((1 - cos ((m - l) * pi / 180)) / 2)"
    unfolding haversine_def Let_def by (simp only: half_sine mult.assoc)
  then show ?thesis unfolding c by (simp add: field_simps)
qed

lemma haversine_bounds: "0 \<le> haversine p l q m \<and> haversine p l q m \<le> 1"
proof -
  let ?s = "sin (p * pi / 180) * sin (q * pi / 180)" and ?c = "cos (p * pi / 180) * cos (q * pi / 180)"
  have "\<bar>?c * cos ((m - l) * pi / 180)\<bar> \<le> \<bar>?c\<bar>"
    by (simp add: abs_mult mult_left_le)
  with cauchy_two [of "sin (p * pi / 180)" "cos (p * pi / 180)" "sin (q * pi / 180)" "cos (q * pi / 180)"]
  have "\<bar>?s + ?c * cos ((m - l) * pi / 180)\<bar> \<le> 1" by simp
  then show ?thesis unfolding haversine_spherical by (simp add: abs_le_iff)
qed

lemma js_atan2_quadrant: "0 \<le> y \<Longrightarrow> 0 \<le> x \<Longrightarrow> 0 \<le> js_atan2 y x \<and> js_atan2 y x \<le> pi / 2"
  using arctan_ubound [of "y / x"] by (auto simp: js_atan2_def less_imp_le)

lemma haversine_sym: "haversine p l q m = haversine q m p l"
proof -
  have "cos ((m - l) * pi / 180) = cos (- ((l - m) * pi / 180))" by (simp add: algebra_simps diff_divide_distrib)
  then have "cos ((m - l) * pi / 180) = cos ((l - m) * pi / 180)" by simp
  then show ?thesis unfolding haversine_spherical by (simp only: mult.commute)
qed

lemma distance_same_point: "calculateHaversineDistance p l p l = 0"
  by (simp add: calculateHaversineDistance_def haversine_def js_atan2_def)

lemma meters_same_point [simp]: "metersFromBranch p p = 0"
  by (simp add: metersFromBranch_def distance_same_point)

lemma distance_bounds:
  "0 \<le> calculateHaversineDistance p l q m \<and> calculateHaversineDistance p l q m \<le> 6371 * pi"
  using js_atan2_quadrant [of "sqrt (haversine p l q m)" "sqrt (1 - haversine p l q m)"] haversine_bounds [of p l q m]
  by (simp add: calculateHaversineDistance_def Let_def)

lemma distance_sym: "calculateHaversineDistance p l q m = calculateHaversineDistance q m p l"
  unfolding calculateHaversineDistance_def Let_def haversine_sym [of p l q m] ..

text \<open>
  The measure of the zone is a sound distance: never negative, at most half the circumference of
  the earth (so the two square roots in the formula are always of numbers in range), the same in both
  directions, and nothing at the pin itself. The allowance is never less than the configured geofence,
  and a device can stretch it by at most a kilometre however poor the accuracy it states.
\<close>

theorem zone_measure_sound:
  "0 \<le> metersFromBranch f b \<and> of_int (metersFromBranch f b) \<le> 6371000 * pi + 1 / 2
   \<and> metersFromBranch f b = metersFromBranch b f \<and> metersFromBranch b b = 0
   \<and> g \<le> checkInAllowanceMeters g dev bra
   \<and> checkInAllowanceMeters g dev bra \<le> checkInAllowanceMeters g None bra + 1000"
proof (intro conjI)
  let ?d = "calculateHaversineDistance (of_rat (latitude f)) (of_rat (longitude f))
        (of_rat (latitude b)) (of_rat (longitude b))"
  have d: "0 \<le> ?d" "?d \<le> 6371 * pi" using distance_bounds by blast+
  then have "0 \<le> ?d * 1000 + 1 / 2" "?d * 1000 + 1 / 2 \<le> 6371000 * pi + 1 / 2" by simp_all
  then show "0 \<le> metersFromBranch f b" "of_int (metersFromBranch f b) \<le> 6371000 * pi + 1 / 2"
    unfolding metersFromBranch_def by (simp, linarith)
  show "metersFromBranch f b = metersFromBranch b f"
    unfolding metersFromBranch_def distance_sym [of "of_rat (latitude f)"] ..
qed (auto simp: checkInAllowanceMeters_def accuracy_metres_def MAX_DEVICE_ACCURACY_ALLOWANCE_M_def)

section \<open>Which clock\<close>

text \<open>
  When the phone's own time may stand, after the header comment of the source and without its helpers. A
  fix vouches for an arrival when it is not mocked, has a time within the window around the claim, and its
  distance from the branch is at most the geofence, the accuracy the device states (a kilometre at most)
  and the accuracy of the branch's own pin taken together.
\<close>

fun stated_accuracy :: "js_number option \<Rightarrow> rat" where
  "stated_accuracy (Some (Num x)) = max 0 x"
| "stated_accuracy _ = 0"

definition vouches :: "CheckInTimeInput \<Rightarrow> geo_point \<Rightarrow> nat \<Rightarrow> TrailFix \<Rightarrow> bool" where
  "vouches i b t f \<longleftrightarrow> \<not> isMocked f \<and>
     (\<exists>s lat lng. recordedAt f = Instant s \<and> of_int \<bar>int s - int t\<bar> \<le> max 0 (trailWindowMinutes i) * 60000
        \<and> fix_latitude f = Num lat \<and> fix_longitude f = Num lng
        \<and> of_int (metersFromBranch \<lparr> latitude = lat, longitude = lng \<rparr> b)
            \<le> geofenceMeters i + min 1000 (stated_accuracy (accuracyMeters f)) + stated_accuracy (branchAccuracyMeters i))"

definition arrival_acceptable :: "CheckInTimeInput \<Rightarrow> nat \<Rightarrow> bool" where
  "arrival_acceptable i t \<longleftrightarrow>
     fromAssignedAssayer i \<and> arrivedAt i = DateLike (Instant t)
     \<and> t \<le> receivedAt i + 120000
     \<and> businessDayOf i t = businessDayOf i (receivedAt i)
     \<and> of_int (int (receivedAt i) - int t) \<le> max 0 (maxAgeHours i) * 3600000
     \<and> (\<exists>b. zone_branch i = Some b \<and> (\<exists>f \<in> set (trail_fixes i). vouches i b t f))"

lemma stated_accuracy_code: "accuracy_metres n = stated_accuracy n"
  by (cases n rule: stated_accuracy.cases)
     (simp_all add: accuracy_metres_def max.commute)

lemma readable_iff: "readable_date d = Some s \<longleftrightarrow> d = Instant s"
  by (cases d) simp_all

text \<open>The source's test of a fix, with its early exits, is that rule.\<close>

lemma corroborates_vouches: "fix_corroborates i b t f \<longleftrightarrow> vouches i b t f"
proof (cases "readable_date (recordedAt f)")
  case None
  then show ?thesis by (cases "recordedAt f") (simp_all add: fix_corroborates_def vouches_def)
next
  case (Some s)
  then show ?thesis
    by (cases "fix_latitude f"; cases "fix_longitude f")
       (auto simp: fix_corroborates_def vouches_def checkInAllowanceMeters_def stated_accuracy_code
          MAX_DEVICE_ACCURACY_ALLOWANCE_M_def readable_iff min.commute not_less)
qed

lemma skew_value: "CHECK_IN_ARRIVAL_CLOCK_SKEW_MS = 120000"
  by (simp add: CHECK_IN_ARRIVAL_CLOCK_SKEW_MS_def)

lemma any_vouches: "list_ex (fix_corroborates i b t) fs \<longleftrightarrow> (\<exists>f \<in> set fs. vouches i b t f)"
  by (simp add: list_ex_iff corroborates_vouches)

text \<open>Fixes that vouch for nothing can be dropped from the trail without changing the decision.\<close>

lemma trail_only_vouching:
  assumes "\<And>f b t. f \<in> set (trail_fixes i) \<Longrightarrow> vouches i b t f \<Longrightarrow> P f"
  shows "decideCheckInTime (i\<lparr> trail_fixes := filter P (trail_fixes i) \<rparr>) = decideCheckInTime i"
proof -
  let ?j = "i\<lparr> trail_fixes := filter P (trail_fixes i) \<rparr>"
  have "vouches ?j b t f = vouches i b t f" for b t f by (simp add: vouches_def)
  with assms have "list_ex (fix_corroborates ?j b t) (trail_fixes ?j) = list_ex (fix_corroborates i b t) (trail_fixes i)" for b t
    by (auto simp: any_vouches)
  then show ?thesis unfolding decideCheckInTime_def Let_def by (simp add: server_time_def cong: option.case_cong if_cong)
qed

lemma claimed_readable:
  "Option.bind (claimed_date a) readable_date = Some t \<longleftrightarrow> a = DateLike (Instant t)"
  by (cases a; cases "claimed_date a"; auto elim: readable_date.elims)

lemma decide_device:
  assumes "arrival_acceptable i t"
  shows "decideCheckInTime i = \<lparr> decidedAt = min t (receivedAt i), decided_source = DEVICE,
     decided_outcome = ACCEPTED, claimedArrivalAt = Some t \<rparr>"
  using assms by (auto simp: arrival_acceptable_def decideCheckInTime_def Let_def any_vouches skew_value)

lemma decide_server:
  assumes "\<And>t. \<not> arrival_acceptable i t"
  shows "decideCheckInTime i = server_time i (decided_outcome (decideCheckInTime i))
       (claimedArrivalAt (decideCheckInTime i)) \<and> decided_outcome (decideCheckInTime i) \<noteq> ACCEPTED"
proof (cases "Option.bind (claimed_date (arrivedAt i)) readable_date")
  case None
  then show ?thesis by (auto simp: decideCheckInTime_def Let_def server_time_def)
next
  case (Some t)
  then have "arrivedAt i = DateLike (Instant t)" by (simp add: claimed_readable)
  with assms [of t] show ?thesis
    by (auto simp: decideCheckInTime_def Let_def server_time_def arrival_acceptable_def any_vouches skew_value not_le
        split: option.splits)
qed

text \<open>
  C34. Which clock a check-in is written in. The phone's time is used exactly when the assayer's own
  phone sent a readable time, at most two minutes ahead of the server, on the same business day, within
  the allowed age, at a branch with coordinates, and a fix of the trail vouches for it: a fix that is not
  mocked, was taken within the window around the claimed time, and lies no further from the branch than
  the geofence and the two stated accuracies allow, the device's counting for a kilometre at most. What is
  recorded is then the earlier of the claim and the receipt; in every other case the time of receipt is
  recorded. So no check-in is ever recorded as later than the server received it, nor earlier than the
  permitted age allows; and mocked fixes, and fixes without a readable time, never make a difference.
\<close>

theorem arrival_clock_decision:
  assumes d: "d = decideCheckInTime i"
  shows "(decided_source d = DEVICE \<longleftrightarrow> (\<exists>t. arrival_acceptable i t))
     \<and> (decided_outcome d = ACCEPTED \<longleftrightarrow> decided_source d = DEVICE)
     \<and> (arrival_acceptable i t \<longrightarrow> decidedAt d = min t (receivedAt i) \<and> claimedArrivalAt d = Some t)
     \<and> (decided_source d = SERVER \<longrightarrow> decidedAt d = receivedAt i)
     \<and> decidedAt d \<le> receivedAt i
     \<and> of_nat (receivedAt i - decidedAt d) \<le> max 0 (maxAgeHours i) * 3600000
     \<and> businessDayOf i (decidedAt d) = businessDayOf i (receivedAt i)
     \<and> decideCheckInTime (i\<lparr> trail_fixes := filter (\<lambda>f. \<not> isMocked f \<and> recordedAt f \<noteq> InvalidDate) (trail_fixes i) \<rparr>) = d"
proof -
  have honest: "decideCheckInTime (i\<lparr> trail_fixes := filter (\<lambda>f. \<not> isMocked f \<and> recordedAt f \<noteq> InvalidDate) (trail_fixes i) \<rparr>) = d"
    unfolding d by (rule trail_only_vouching) (auto simp: vouches_def)
  show ?thesis
  proof (cases "\<exists>t. arrival_acceptable i t")
    case True
    then obtain u where u: "arrival_acceptable i u" ..
    have uniq: "t = u" if "arrival_acceptable i t" using that u by (simp add: arrival_acceptable_def)
    have age: "of_nat (receivedAt i - min u (receivedAt i)) \<le> max 0 (maxAgeHours i) * 3600000"
    proof (cases "u \<le> receivedAt i")
      case True
      then have "of_nat (receivedAt i - u) = (of_int (int (receivedAt i) - int u) :: rat)"
        by (simp add: of_nat_diff)
      with True u show ?thesis by (simp add: arrival_acceptable_def min_def)
    qed (simp add: min_def)
    have "businessDayOf i (min u (receivedAt i)) = businessDayOf i (receivedAt i)"
      using u by (simp add: arrival_acceptable_def min_def)
    with age u uniq honest show ?thesis unfolding d decide_device [OF u] by auto
  next
    case False
    then have "\<And>t. \<not> arrival_acceptable i t" by blast
    from decide_server [OF this]
    obtain oc cl where s: "decideCheckInTime i = server_time i oc cl" and "oc \<noteq> ACCEPTED" by blast
    with False honest show ?thesis unfolding d s by (auto simp: server_time_def)
  qed
qed

theorem arrival_clock_decision_witness:
  "let i = \<lparr> receivedAt = 10000000, arrivedAt = DateLike (Instant 9000000), fromAssignedAssayer = True,
             maxAgeHours = 4, trailWindowMinutes = 15, geofenceMeters = 2000,
             zone_branch = Some \<lparr> latitude = 19, longitude = 73 \<rparr>, branchAccuracyMeters = None,
             trail_fixes = [\<lparr> fix_latitude = Num 19, fix_longitude = Num 73, accuracyMeters = Some (Num 12),
               recordedAt = Instant 9300000, isMocked = False \<rparr>],
             businessDayOf = (\<lambda>t. businessDateKey (Instant t)) \<rparr>
   in decided_source (decideCheckInTime i) = DEVICE \<and> decidedAt (decideCheckInTime i) = 9000000"
proof -
  define i where "i = \<lparr> receivedAt = 10000000, arrivedAt = DateLike (Instant 9000000), fromAssignedAssayer = True,
             maxAgeHours = 4, trailWindowMinutes = 15, geofenceMeters = 2000,
             zone_branch = Some \<lparr> latitude = 19, longitude = 73 \<rparr>, branchAccuracyMeters = None,
             trail_fixes = [\<lparr> fix_latitude = Num 19, fix_longitude = Num 73, accuracyMeters = Some (Num 12),
               recordedAt = Instant 9300000, isMocked = False \<rparr>],
             businessDayOf = (\<lambda>t. businessDateKey (Instant t)) \<rparr>"
  have "arrival_acceptable i 9000000"
    by (simp add: i_def arrival_acceptable_def vouches_def ist_day_def IST_OFFSET_MS_def DAY_MS_def)
  with arrival_clock_decision [of "decideCheckInTime i" i 9000000, OF refl]
  show ?thesis unfolding Let_def i_def [symmetric] by (auto simp: i_def)
qed

end
