(* ===== verification/Assignment_Machine.thy ===== *)
theory Assignment_Machine
  imports Transition_Tables
begin

text \<open>
  \<^verbatim>\<open>packages/backend/src/modules/assignment/assignment.state-machine.ts\<close>: the moves of an assignment
  and the evidence a completion needs. The record has the columns the machine reads or writes;
  instants are numbers. Each operation returns the changed entity with its note, or the refusal the
  source throws.
\<close>

section \<open>Operations\<close>

record AssignmentEntity =
  as_status :: AssignmentStatus
  checkedInAt :: "nat option"
  checkedOutAt :: "nat option"
  rejectReason :: "string option"
  cancelReason :: "string option"
  completionDate :: "nat option"
  completedWithoutCheckInReason :: "string option"
  completedWithoutCheckOutReason :: "string option"
  as_remarks :: "string option"

datatype assignment_refusal =
    InvalidAssignmentTransition AssignmentStatus AssignmentStatus
  | NoCheckInNoReason
  | NoCheckOutNoReason
  | CannotReopenFrom AssignmentStatus
  | ReopenReasonRequired

type_synonym assignment_result =
  "(assignment_refusal, AssignmentEntity \<times> AssignmentStatus transition_note) result"

definition validateTransition :: "AssignmentStatus \<Rightarrow> AssignmentStatus \<Rightarrow> assignment_refusal option" where
  "validateTransition current target =
     (if canTransitionAssignment current target then None
      else Some (InvalidAssignmentTransition current target))"

definition as_note :: "string \<Rightarrow> AssignmentStatus \<Rightarrow> AssignmentEntity \<Rightarrow> string
    \<Rightarrow> AssignmentEntity \<times> AssignmentStatus transition_note" where
  "as_note kind prev e userId =
     (e, \<lparr> note_kind = kind, note_id = [], previousState = prev, newState = as_status e, note_userId = userId \<rparr>)"

definition checkIn :: "AssignmentEntity \<Rightarrow> string \<Rightarrow> assignment_result" where
  "checkIn e userId =
    (case validateTransition (as_status e) AS_CHECKED_IN of
       Some r \<Rightarrow> Inl r
     | None \<Rightarrow> Inr (as_note ''checkIn'' (as_status e) (e\<lparr> as_status := AS_CHECKED_IN \<rparr>) userId))"

definition reassign :: "AssignmentEntity \<Rightarrow> string \<Rightarrow> assignment_result" where
  "reassign e userId =
    (case validateTransition (as_status e) AS_PENDING of
       Some r \<Rightarrow> Inl r
     | None \<Rightarrow> Inr (as_note ''reassign'' (as_status e) (e\<lparr> as_status := AS_PENDING \<rparr>) userId))"

definition acceptOffer :: "AssignmentEntity \<Rightarrow> string \<Rightarrow> assignment_result" where
  "acceptOffer e userId =
    (case validateTransition (as_status e) AS_ACCEPTED of
       Some r \<Rightarrow> Inl r
     | None \<Rightarrow> Inr (as_note ''acceptOffer'' (as_status e) (e\<lparr> as_status := AS_ACCEPTED \<rparr>) userId))"

definition rejectOffer :: "AssignmentEntity \<Rightarrow> string \<Rightarrow> string option \<Rightarrow> assignment_result" where
  "rejectOffer e userId reason =
    (case validateTransition (as_status e) AS_REJECTED of
       Some r \<Rightarrow> Inl r
     | None \<Rightarrow> Inr (as_note ''rejectOffer'' (as_status e)
         (e\<lparr> as_status := AS_REJECTED, rejectReason := Some (nullish_value reason ''Rejected'') \<rparr>) userId))"

definition cancel :: "AssignmentEntity \<Rightarrow> string \<Rightarrow> string option \<Rightarrow> assignment_result" where
  "cancel e userId reason =
    (case validateTransition (as_status e) AS_CANCELLED of
       Some r \<Rightarrow> Inl r
     | None \<Rightarrow> Inr (as_note ''cancel'' (as_status e)
         (e\<lparr> as_status := AS_CANCELLED, cancelReason := Some (nullish_value reason ''Cancelled'') \<rparr>) userId))"

definition startWork :: "AssignmentEntity \<Rightarrow> string \<Rightarrow> assignment_result" where
  "startWork e userId =
    (case validateTransition (as_status e) AS_IN_PROGRESS of
       Some r \<Rightarrow> Inl r
     | None \<Rightarrow> Inr (as_note ''startWork'' (as_status e) (e\<lparr> as_status := AS_IN_PROGRESS \<rparr>) userId))"

definition completeAudit :: "AssignmentEntity \<Rightarrow> string \<Rightarrow> string option \<Rightarrow> assignment_result" where
  "completeAudit e userId reason =
    (case validateTransition (as_status e) AS_COMPLETED of
       Some r \<Rightarrow> Inl r
     | None \<Rightarrow>
        (let attended = (checkedInAt e \<noteq> None);
             departed = (checkedOutAt e \<noteq> None);
             stated = js_trim (nullish_value reason [])
         in if \<not> attended \<and> stated = [] then Inl NoCheckInNoReason
            else if attended \<and> \<not> departed \<and> stated = [] then Inl NoCheckOutNoReason
            else let e1 = (if \<not> attended then e\<lparr> completedWithoutCheckInReason := Some stated \<rparr>
                           else if \<not> departed then e\<lparr> completedWithoutCheckOutReason := Some stated \<rparr>
                           else e)
                 in Inr (as_note ''completeAudit'' (as_status e) (e1\<lparr> as_status := AS_COMPLETED \<rparr>) userId)))"

definition reopen :: "AssignmentEntity \<Rightarrow> string \<Rightarrow> string option \<Rightarrow> assignment_result" where
  "reopen e userId reason =
    (if as_status e \<noteq> AS_COMPLETED then Inl (CannotReopenFrom (as_status e))
     else if js_trim (nullish_value reason []) = [] then Inl ReopenReasonRequired
     else Inr (as_note ''reopen'' (as_status e)
       (e\<lparr> as_status := (if checkedInAt e \<noteq> None then AS_CHECKED_IN else AS_ACCEPTED),
           completionDate := None, completedWithoutCheckInReason := None,
           completedWithoutCheckOutReason := None \<rparr>) userId))"

datatype assignment_command =
    CheckIn | Reassign | AcceptOffer | RejectOffer "string option" | Cancel "string option"
  | StartWork | CompleteAudit "string option" | Reopen "string option"

fun assignment_op :: "string \<Rightarrow> assignment_command \<Rightarrow> AssignmentEntity \<Rightarrow> assignment_result" where
  "assignment_op u CheckIn e = checkIn e u"
| "assignment_op u Reassign e = reassign e u"
| "assignment_op u AcceptOffer e = acceptOffer e u"
| "assignment_op u (RejectOffer r) e = rejectOffer e u r"
| "assignment_op u (Cancel r) e = cancel e u r"
| "assignment_op u StartWork e = startWork e u"
| "assignment_op u (CompleteAudit r) e = completeAudit e u r"
| "assignment_op u (Reopen r) e = reopen e u r"

declare validateTransition_def [machine_defs] as_note_def [machine_defs] checkIn_def [machine_defs]
  reassign_def [machine_defs] acceptOffer_def [machine_defs] rejectOffer_def [machine_defs]
  cancel_def [machine_defs] startWork_def [machine_defs] completeAudit_def [machine_defs]
  reopen_def [machine_defs] Let_def [machine_defs]

section \<open>The machine and the table\<close>

primrec command_target :: "assignment_command \<Rightarrow> AssignmentStatus option" where
  "command_target CheckIn = Some AS_CHECKED_IN"
| "command_target Reassign = Some AS_PENDING"
| "command_target AcceptOffer = Some AS_ACCEPTED"
| "command_target (RejectOffer r) = Some AS_REJECTED"
| "command_target (Cancel r) = Some AS_CANCELLED"
| "command_target StartWork = Some AS_IN_PROGRESS"
| "command_target (CompleteAudit r) = Some AS_COMPLETED"
| "command_target (Reopen r) = None"

text \<open>The moves of the machine: the table, and the one back-office move out of a completion.\<close>

definition assignment_edge :: "AssignmentStatus \<Rightarrow> AssignmentStatus \<Rightarrow> bool" where
  "assignment_edge s t \<longleftrightarrow> canTransitionAssignment s t \<or> (s = AS_COMPLETED \<and> t \<in> {AS_CHECKED_IN, AS_ACCEPTED})"

lemma assignment_announces:
  "assignment_op u c e = Inr (e', ev) \<Longrightarrow>
    previousState ev = as_status e \<and> newState ev = as_status e' \<and> assignment_edge (as_status e) (as_status e')"
  by (cases c) (auto simp: machine_defs assignment_edge_def split: if_splits)

interpretation assignment_machine: announcing_machine "assignment_op u" as_status assignment_edge
  by unfold_locales (rule assignment_announces)

lemma op_target:
  "command_target c = Some t \<Longrightarrow> assignment_op u c e = Inr (e', ev) \<Longrightarrow>
   canTransitionAssignment (as_status e) t \<and> as_status e' = t"
  by (cases c) (auto simp: machine_defs split: if_splits)

lemma op_refused_path:
  "command_target c = Some t \<Longrightarrow> \<not> canTransitionAssignment (as_status e) t \<Longrightarrow>
   assignment_op u c e = Inl (InvalidAssignmentTransition (as_status e) t)"
  by (cases c) (auto simp: machine_defs)

lemma worked_gate:
  "assignment_edge s t \<Longrightarrow> t \<in> {AS_CHECKED_IN, AS_IN_PROGRESS, AS_COMPLETED} \<Longrightarrow>
   s \<notin> {AS_CHECKED_IN, AS_IN_PROGRESS, AS_COMPLETED} \<Longrightarrow> s = AS_ACCEPTED"
  by (cases s; cases t) (simp_all add: assignment_edge_def table_defs)

lemma progress_gate: "assignment_edge s AS_IN_PROGRESS \<Longrightarrow> s \<noteq> AS_IN_PROGRESS \<Longrightarrow> s = AS_CHECKED_IN"
  by (cases s) (simp_all add: assignment_edge_def table_defs)

lemma cancelled_final: "\<not> assignment_edge AS_CANCELLED t"
  by (simp add: assignment_edge_def table_defs)

lemma accepted_seen:
  "as_status e \<notin> {AS_CHECKED_IN, AS_IN_PROGRESS, AS_COMPLETED} \<Longrightarrow>
   as_status (run_commands (silent (assignment_op u)) cs e) \<in> {AS_CHECKED_IN, AS_IN_PROGRESS, AS_COMPLETED} \<Longrightarrow>
   \<exists>s \<in> set (statuses_of_run (silent (assignment_op u)) as_status cs e). s = AS_ACCEPTED"
  by (rule assignment_machine.gate_seen [where T = "\<lambda>t. t \<in> {AS_CHECKED_IN, AS_IN_PROGRESS, AS_COMPLETED}"])
     (rule worked_gate)

lemma arrival_seen:
  "as_status e \<noteq> AS_IN_PROGRESS \<Longrightarrow>
   as_status (run_commands (silent (assignment_op u)) cs e) = AS_IN_PROGRESS \<Longrightarrow>
   \<exists>s \<in> set (statuses_of_run (silent (assignment_op u)) as_status cs e). s = AS_CHECKED_IN"
  by (rule assignment_machine.gate_seen [where T = "\<lambda>t. t = AS_IN_PROGRESS"]) (use progress_gate in auto)

section \<open>Evidence behind a completion\<close>

definition stated_reason :: "string option \<Rightarrow> bool" where
  "stated_reason r \<longleftrightarrow> (case r of None \<Rightarrow> False | Some s \<Rightarrow> s \<noteq> [] \<and> js_trim s = s)"

definition completion_evidence :: "AssignmentEntity \<Rightarrow> bool" where
  "completion_evidence e \<longleftrightarrow>
    (if as_status e = AS_COMPLETED
     then (if checkedInAt e = None then stated_reason (completedWithoutCheckInReason e)
           else checkedOutAt e \<noteq> None \<or> stated_reason (completedWithoutCheckOutReason e))
     else completedWithoutCheckInReason e = None \<and> completedWithoutCheckOutReason e = None)"

lemma evidence_step:
  "completion_evidence e \<Longrightarrow> assignment_op u c e = Inr (e', ev) \<Longrightarrow> completion_evidence e'"
  by (cases c)
     (auto simp: machine_defs completion_evidence_def stated_reason_def table_defs split: if_splits)

lemma evidence_run:
  "completion_evidence e \<Longrightarrow> completion_evidence (run_commands (silent (assignment_op u)) cs e)"
  by (induction cs arbitrary: e) (auto simp: map_sum_def split: sum.splits dest: evidence_step)

definition fresh_offer :: AssignmentEntity where
  "fresh_offer = \<lparr> as_status = AS_PENDING, checkedInAt = None, checkedOutAt = None, rejectReason = None,
     cancelReason = None, completionDate = None, completedWithoutCheckInReason = None,
     completedWithoutCheckOutReason = None, as_remarks = None \<rparr>"

section \<open>What carrying out a command means\<close>

text \<open>
  A carried-out command leaves the assignment in the given status, notes the move under the given user,
  and keeps the arrival, the departure and the office's remarks.
\<close>

definition carried_to :: "AssignmentStatus \<Rightarrow> string \<Rightarrow> AssignmentEntity \<Rightarrow> assignment_result \<Rightarrow> bool" where
  "carried_to t u e r \<longleftrightarrow>
     (\<exists>e' ev. r = Inr (e', ev) \<and> as_status e' = t
        \<and> previousState ev = as_status e \<and> newState ev = t \<and> note_userId ev = u
        \<and> checkedInAt e' = checkedInAt e \<and> checkedOutAt e' = checkedOutAt e \<and> as_remarks e' = as_remarks e)"

definition completion_excused :: "AssignmentEntity \<Rightarrow> string option \<Rightarrow> bool" where
  "completion_excused e r \<longleftrightarrow> (checkedInAt e \<noteq> None \<and> checkedOutAt e \<noteq> None) \<or> js_trim (nullish_value r []) \<noteq> []"

lemma op_carried:
  "command_target c = Some t \<Longrightarrow> canTransitionAssignment (as_status e) t \<Longrightarrow>
   (\<And>r. c = CompleteAudit r \<Longrightarrow> completion_excused e r) \<Longrightarrow> carried_to t u e (assignment_op u c e)"
  by (cases c) (auto simp: machine_defs carried_to_def completion_excused_def)

lemma completion_unexcused:
  "\<not> completion_excused e r \<Longrightarrow> refused (assignment_op u (CompleteAudit r) e)"
  by (auto simp: machine_defs completion_excused_def refused_def)

definition reopened_status :: "AssignmentEntity \<Rightarrow> AssignmentStatus" where
  "reopened_status e = (if checkedInAt e \<noteq> None then AS_CHECKED_IN else AS_ACCEPTED)"

lemma reopen_carried:
  "as_status e = AS_COMPLETED \<Longrightarrow> js_trim (nullish_value r []) \<noteq> [] \<Longrightarrow>
   carried_to (reopened_status e) u e (reopen e u r)"
  by (auto simp: machine_defs carried_to_def reopened_status_def)

lemma reopen_refused:
  "as_status e \<noteq> AS_COMPLETED \<or> js_trim (nullish_value r []) = [] \<Longrightarrow> refused (reopen e u r)"
  by (auto simp: machine_defs refused_def)

text \<open>The statuses a list of commands takes an assignment through, when every one of them is carried out.\<close>

fun visit_trace :: "string \<Rightarrow> assignment_command list \<Rightarrow> AssignmentEntity \<Rightarrow> AssignmentStatus list option" where
  "visit_trace u [] e = Some []"
| "visit_trace u (c # cs) e =
    (case assignment_op u c e of
       Inl _ \<Rightarrow> None
     | Inr (e', ev) \<Rightarrow> map_option ((#) (as_status e')) (visit_trace u cs e'))"

text \<open>A route through the table, with the way back out of a completion that fits the recorded arrival.\<close>

definition visit_move :: "bool \<Rightarrow> AssignmentStatus \<Rightarrow> AssignmentStatus \<Rightarrow> bool" where
  "visit_move attended s t \<longleftrightarrow>
     canTransitionAssignment s t \<or> (s = AS_COMPLETED \<and> t = (if attended then AS_CHECKED_IN else AS_ACCEPTED))"

fun visit_route :: "bool \<Rightarrow> AssignmentStatus \<Rightarrow> AssignmentStatus list \<Rightarrow> bool" where
  "visit_route attended s [] = True"
| "visit_route attended s (t # ts) = (visit_move attended s t \<and> visit_route attended t ts)"

lemma command_moves:
  "assignment_op u c e = Inr (e', ev) \<Longrightarrow>
   visit_move (checkedInAt e \<noteq> None) (as_status e) (as_status e') \<and> checkedInAt e' = checkedInAt e"
  by (cases c) (auto simp: machine_defs visit_move_def split: if_splits)

lemma table_command: "\<exists>c. command_target c = Some t \<and> (\<forall>r. c = CompleteAudit r \<longrightarrow> r = Some ''x'')"
proof (cases t)
  case AS_PENDING then show ?thesis by (intro exI [of _ Reassign]) simp
next
  case AS_ACCEPTED then show ?thesis by (intro exI [of _ AcceptOffer]) simp
next
  case AS_REJECTED then show ?thesis by (intro exI [of _ "RejectOffer None"]) simp
next
  case AS_CHECKED_IN then show ?thesis by (intro exI [of _ CheckIn]) simp
next
  case AS_IN_PROGRESS then show ?thesis by (intro exI [of _ StartWork]) simp
next
  case AS_COMPLETED then show ?thesis by (intro exI [of _ "CompleteAudit (Some ''x'')"]) simp
next
  case AS_CANCELLED then show ?thesis by (intro exI [of _ "Cancel None"]) simp
qed

lemma stated_x: "js_trim ''x'' \<noteq> []"
  by (simp add: js_trim_def js_ws_def code_def)

lemma move_has_command:
  assumes "visit_move (checkedInAt e \<noteq> None) (as_status e) t"
  shows "\<exists>c e' ev. assignment_op u c e = Inr (e', ev) \<and> as_status e' = t \<and> checkedInAt e' = checkedInAt e"
proof (cases "canTransitionAssignment (as_status e) t")
  case True
  obtain c where c: "command_target c = Some t" "\<And>r. c = CompleteAudit r \<Longrightarrow> r = Some ''x''"
    using table_command by blast
  then have "carried_to t u e (assignment_op u c e)"
    using True stated_x by (intro op_carried) (auto simp: completion_excused_def)
  then show ?thesis unfolding carried_to_def by blast
next
  case False
  with assms have "carried_to t u e (assignment_op u (Reopen (Some ''x'')) e)"
    using reopen_carried [of e "Some ''x''" u] stated_x by (simp add: visit_move_def reopened_status_def)
  then show ?thesis unfolding carried_to_def by blast
qed

lemma trace_is_route:
  "visit_trace u cs e = Some ts \<Longrightarrow> visit_route (checkedInAt e \<noteq> None) (as_status e) ts"
proof (induction cs arbitrary: e ts)
  case (Cons c cs)
  obtain e' ev us where step: "assignment_op u c e = Inr (e', ev)" and us: "visit_trace u cs e' = Some us"
      and ts: "ts = as_status e' # us"
    using Cons.prems by (auto split: sum.splits)
  show ?case using command_moves [OF step] Cons.IH [OF us] by (simp add: ts)
qed simp

lemma route_has_trace:
  "visit_route (checkedInAt e \<noteq> None) (as_status e) ts \<Longrightarrow> \<exists>cs. visit_trace u cs e = Some ts"
proof (induction ts arbitrary: e)
  case Nil
  show ?case by (intro exI [of _ "[]"]) simp
next
  case (Cons t ts)
  then obtain c e' ev where step: "assignment_op u c e = Inr (e', ev)" "as_status e' = t" "checkedInAt e' = checkedInAt e"
    using move_has_command [of e t u] by auto
  obtain cs where "visit_trace u cs e' = Some ts" using Cons.IH [of e'] Cons.prems step by auto
  with step show ?case by (intro exI [of _ "c # cs"]) simp
qed

section \<open>Properties\<close>

text \<open>
  C36. The machine enforces the table exactly. A command that aims at a status takes the assignment to
  that status, keeping its arrival, departure and remarks, if and only if the table has the edge and, for
  a completion, the visit is evidenced (an arrival and a departure) or a non-blank reason is stated;
  otherwise it is refused, and without the edge with the transition error. Reopening takes a completed
  job, given a non-blank reason, to the checked-in status when an arrival is recorded and to the accepted
  one when not, and refuses everything else. Over runs: a list of statuses can be gone through by commands
  that are all carried out exactly when it is a route through the table and that one way back.
\<close>

theorem assignment_machine_exact:
  "(command_target c = Some t \<longrightarrow>
      (if canTransitionAssignment (as_status e) t \<and> (\<forall>r. c = CompleteAudit r \<longrightarrow> completion_excused e r)
       then carried_to t u e (assignment_op u c e) else refused (assignment_op u c e))
      \<and> (\<not> canTransitionAssignment (as_status e) t \<longrightarrow>
           assignment_op u c e = Inl (InvalidAssignmentTransition (as_status e) t)))
   \<and> (if as_status e = AS_COMPLETED \<and> js_trim (nullish_value r []) \<noteq> []
       then carried_to (if checkedInAt e \<noteq> None then AS_CHECKED_IN else AS_ACCEPTED) u e (reopen e u r)
       else refused (reopen e u r))
   \<and> ((\<exists>cs. visit_trace u cs e = Some ts) \<longleftrightarrow> visit_route (checkedInAt e \<noteq> None) (as_status e) ts)"
proof (intro conjI impI)
  assume t: "command_target c = Some t"
  show "if canTransitionAssignment (as_status e) t \<and> (\<forall>r. c = CompleteAudit r \<longrightarrow> completion_excused e r)
       then carried_to t u e (assignment_op u c e) else refused (assignment_op u c e)"
    using op_carried [OF t, of e u] op_refused_path [OF t, of e u] completion_unexcused [of e _ u]
    by (auto simp: refused_def)
  show "assignment_op u c e = Inl (InvalidAssignmentTransition (as_status e) t)"
    if "\<not> canTransitionAssignment (as_status e) t"
    using t that by (rule op_refused_path)
next
  show "if as_status e = AS_COMPLETED \<and> js_trim (nullish_value r []) \<noteq> []
       then carried_to (if checkedInAt e \<noteq> None then AS_CHECKED_IN else AS_ACCEPTED) u e (reopen e u r)
       else refused (reopen e u r)"
    using reopen_carried [of e r u] reopen_refused [of e r u] by (auto simp: reopened_status_def)
  show "(\<exists>cs. visit_trace u cs e = Some ts) \<longleftrightarrow> visit_route (checkedInAt e \<noteq> None) (as_status e) ts"
    using trace_is_route route_has_trace by blast
qed

theorem assignment_machine_exact_witness:
  "refused (assignment_op ''u'' StartWork fresh_offer)
   \<and> carried_to AS_ACCEPTED ''u'' fresh_offer (assignment_op ''u'' AcceptOffer fresh_offer)
   \<and> refused (reopen fresh_offer ''u'' (Some ''again''))
   \<and> (\<exists>cs. visit_trace ''u'' cs fresh_offer = Some [AS_ACCEPTED, AS_COMPLETED, AS_ACCEPTED, AS_CHECKED_IN])"
  using assignment_machine_exact [of StartWork AS_IN_PROGRESS fresh_offer "''u''" "Some ''again''"
      "[AS_ACCEPTED, AS_COMPLETED, AS_ACCEPTED, AS_CHECKED_IN]"]
    assignment_machine_exact [of AcceptOffer AS_ACCEPTED fresh_offer "''u''" None "[]"]
  by (simp add: fresh_offer_def table_defs visit_move_def refused_def)

text \<open>
  C2. No completion without evidence: after any sequence of commands, refused or not, on an offer, a
  completed job either has an arrival and a departure, or carries a non-blank reason for the missing
  arrival (or for the missing departure); and a job that is not completed carries no such reason, so
  reopening never leaves an old excuse behind.
\<close>

theorem completion_always_evidenced:
  assumes "completion_evidence e"
  shows "completion_evidence (run_commands (silent (assignment_op u)) cs e) \<and> completion_evidence fresh_offer"
proof
  show "completion_evidence (run_commands (silent (assignment_op u)) cs e)" by (rule evidence_run [OF assms])
  show "completion_evidence fresh_offer" by (simp add: completion_evidence_def fresh_offer_def)
qed

theorem completion_always_evidenced_witness:
  "let e = run_commands (silent (assignment_op ''desk'')) [AcceptOffer, CompleteAudit (Some '' ''), CompleteAudit (Some '' phone dead '')]
       fresh_offer
   in completion_evidence e \<and> as_status e = AS_COMPLETED \<and> completedWithoutCheckInReason e = Some ''phone dead''"
proof -
  let ?e = "run_commands (silent (assignment_op ''desk'')) [AcceptOffer, CompleteAudit (Some '' ''), CompleteAudit (Some '' phone dead '')]
       fresh_offer"
  have "completion_evidence fresh_offer" by (simp add: completion_evidence_def fresh_offer_def)
  then have "completion_evidence ?e" using completion_always_evidenced by blast
  moreover have "as_status ?e = AS_COMPLETED \<and> completedWithoutCheckInReason ?e = Some ''phone dead''"
    by (simp add: machine_defs fresh_offer_def table_defs js_trim_def js_ws_def code_def)
  ultimately show ?thesis by (simp only: Let_def simp_thms)
qed

text \<open>
  Nothing is worked, and so nothing is billed, on an offer nobody accepted: every sequence of
  commands that takes an open offer into \<^verbatim>\<open>CHECKED_IN\<close>, \<^verbatim>\<open>IN_PROGRESS\<close> or \<^verbatim>\<open>COMPLETED\<close> passes through
  \<^verbatim>\<open>ACCEPTED\<close>, one that reaches \<^verbatim>\<open>IN_PROGRESS\<close> passes through \<^verbatim>\<open>CHECKED_IN\<close>, and no sequence of
  commands changes a cancelled job.
\<close>

theorem no_work_before_acceptance:
  assumes "as_status e \<in> {AS_PENDING, AS_REJECTED}"
  shows "(as_status (run_commands (silent (assignment_op u)) cs e) \<in> {AS_CHECKED_IN, AS_IN_PROGRESS, AS_COMPLETED} \<longrightarrow>
       AS_ACCEPTED \<in> set (statuses_of_run (silent (assignment_op u)) as_status cs e))
    \<and> (as_status (run_commands (silent (assignment_op u)) cs e) = AS_IN_PROGRESS \<longrightarrow>
       AS_CHECKED_IN \<in> set (statuses_of_run (silent (assignment_op u)) as_status cs e))
    \<and> (\<forall>e'. as_status e' = AS_CANCELLED \<longrightarrow> run_commands (silent (assignment_op u)) cs e' = e')"
proof (intro conjI impI allI)
  let ?run = "run_commands (silent (assignment_op u)) cs e"
  show "AS_ACCEPTED \<in> set (statuses_of_run (silent (assignment_op u)) as_status cs e)"
    if "as_status ?run \<in> {AS_CHECKED_IN, AS_IN_PROGRESS, AS_COMPLETED}"
    using accepted_seen [of e u cs] assms that by auto
  show "AS_CHECKED_IN \<in> set (statuses_of_run (silent (assignment_op u)) as_status cs e)"
    if "as_status ?run = AS_IN_PROGRESS"
    using arrival_seen [of e u cs] assms that by auto
  show "run_commands (silent (assignment_op u)) cs e' = e'" if "as_status e' = AS_CANCELLED" for e'
    by (rule assignment_machine.terminal_absorbs) (simp add: that cancelled_final)
qed

theorem no_work_before_acceptance_witness:
  "AS_ACCEPTED \<in> set (statuses_of_run (silent (assignment_op ''u'')) as_status
     [CheckIn, AcceptOffer, CheckIn, StartWork] fresh_offer)"
proof -
  have "as_status fresh_offer \<in> {AS_PENDING, AS_REJECTED}" by (simp add: fresh_offer_def)
  moreover have "as_status (run_commands (silent (assignment_op ''u'')) [CheckIn, AcceptOffer, CheckIn, StartWork] fresh_offer)
      = AS_IN_PROGRESS"
    by (simp add: machine_defs fresh_offer_def table_defs)
  ultimately show ?thesis
    using no_work_before_acceptance [of fresh_offer "''u''" "[CheckIn, AcceptOffer, CheckIn, StartWork]"] by simp
qed

text \<open>
  Reopening matches the evidence and keeps it: the job goes back to \<^verbatim>\<open>CHECKED_IN\<close> exactly when an
  arrival is on record and to \<^verbatim>\<open>ACCEPTED\<close> otherwise, arrival, departure and the office's remarks stay
  as they were, and a job whose visit is fully evidenced can be completed again without a reason.
\<close>

theorem reopen_keeps_visit:
  assumes "reopen e u r = Inr (e', ev)"
  shows "(as_status e' = AS_CHECKED_IN \<longleftrightarrow> checkedInAt e \<noteq> None) \<and> (as_status e' = AS_ACCEPTED \<longleftrightarrow> checkedInAt e = None)
    \<and> checkedInAt e' = checkedInAt e \<and> checkedOutAt e' = checkedOutAt e \<and> as_remarks e' = as_remarks e
    \<and> completionDate e' = None
    \<and> (checkedInAt e \<noteq> None \<and> checkedOutAt e \<noteq> None \<longrightarrow> \<not> refused (completeAudit e' u None))"
  using assms by (auto simp: machine_defs refused_def table_defs split: if_splits)

theorem reopen_keeps_visit_witness:
  "let e = fresh_offer\<lparr> as_status := AS_COMPLETED, checkedInAt := Some 1, checkedOutAt := Some 2 \<rparr>
   in \<exists>e' ev. reopen e ''u'' (Some ''redo'') = Inr (e', ev) \<and> as_status e' = AS_CHECKED_IN"
proof -
  let ?e = "fresh_offer\<lparr> as_status := AS_COMPLETED, checkedInAt := Some 1, checkedOutAt := Some 2 \<rparr>"
  obtain e' ev where run: "reopen ?e ''u'' (Some ''redo'') = Inr (e', ev)"
    by (simp add: machine_defs js_trim_def js_ws_def code_def)
  with reopen_keeps_visit [OF run] show ?thesis by (simp add: Let_def)
qed

end
