(* ===== verification/Assignment_Money.thy ===== *)
theory Assignment_Money
  imports Money_Rules Enums
begin

text \<open>
  What an assignment is worth: the fee a screen shows (\<^verbatim>\<open>packages/shared/src/assignment-fee.ts\<close>), the
  formula that books it (\<^verbatim>\<open>packages/backend/src/modules/billing-engine/assignment-money.ts\<close>), and which
  rows still stand for money (\<^verbatim>\<open>packages/shared/src/billing-liveness.ts\<close>).

  A stored amount arrives as a number, a text, or nothing. The sentences shown to people are left out;
  every figure they are made of is kept.
\<close>

section \<open>The fee a screen shows\<close>

datatype raw_amount = Missing | EmptyText | Unparsable | Amount rat

fun fee_num :: "raw_amount \<Rightarrow> rat option" where
  "fee_num (Amount x) = Some x"
| "fee_num _ = None"

record AssignmentFeeInput =
  proposedFee :: raw_amount
  agreedFee :: raw_amount
  quotedBaseFee :: raw_amount
  quotedTravelFee :: raw_amount
  counterTravelFee :: raw_amount

datatype FeeSource = FS_AGREED | FS_PROPOSED | FS_NONE

datatype FeeSplitSource = QUOTED | COUNTERED | LEGACY_UNSPLIT | SPLIT_NONE

record AssignmentFeeView =
  total :: "rat option"
  settled :: bool
  fee_source :: FeeSource
  base :: "rat option"
  travel :: "rat option"
  quotedTravel :: "rat option"
  splitSource :: FeeSplitSource
  inconsistent :: bool

definition MONEY_EPSILON :: rat where
  "MONEY_EPSILON = 1 / 100"

definition blank_fee :: AssignmentFeeView where
  "blank_fee = \<lparr> total = None, settled = False, fee_source = FS_NONE, base = None, travel = None,
     quotedTravel = None, splitSource = SPLIT_NONE, inconsistent = False \<rparr>"

fun positive :: "rat option \<Rightarrow> bool" where
  "positive None = False"
| "positive (Some x) = (0 < x)"

definition fee_total :: "AssignmentFeeInput \<Rightarrow> (rat \<times> FeeSource \<times> bool) option" where
  "fee_total a =
    (if positive (fee_num (agreedFee a)) then Some (roundMoney (the (fee_num (agreedFee a))), FS_AGREED, True)
     else if positive (fee_num (proposedFee a)) then Some (roundMoney (the (fee_num (proposedFee a))), FS_PROPOSED, False)
     else None)"

definition fee_travel :: "AssignmentFeeInput \<Rightarrow> rat option \<times> FeeSplitSource" where
  "fee_travel a =
    (case fee_num (counterTravelFee a) of
       Some c \<Rightarrow> (Some (roundMoney c), COUNTERED)
     | None \<Rightarrow> (case map_option roundMoney (fee_num (quotedTravelFee a)) of
                  Some q \<Rightarrow> (Some q, QUOTED)
                | None \<Rightarrow> (None, LEGACY_UNSPLIT)))"

definition fee_base :: "AssignmentFeeInput \<Rightarrow> rat \<Rightarrow> rat option \<Rightarrow> FeeSplitSource \<Rightarrow> rat option" where
  "fee_base a tot trav split =
    (if split = LEGACY_UNSPLIT then None
     else case fee_num (quotedBaseFee a) of
            Some b \<Rightarrow> Some (roundMoney b)
          | None \<Rightarrow> Some (roundMoney (max 0 (tot - nullish_value trav 0))))"

definition describeAssignmentFee :: "AssignmentFeeInput option \<Rightarrow> AssignmentFeeView" where
  "describeAssignmentFee input =
    (case input of
       None \<Rightarrow> blank_fee
     | Some a \<Rightarrow>
        (case fee_total a of
           None \<Rightarrow> blank_fee
         | Some (tot, source, sett) \<Rightarrow>
            (let quoted = map_option roundMoney (fee_num (quotedTravelFee a));
                 (trav, split) = fee_travel a;
                 bas = fee_base a tot trav split
             in \<lparr> total = Some tot, settled = sett, fee_source = source, base = bas, travel = trav,
                  quotedTravel = quoted, splitSource = split,
                  inconsistent = (case (bas, trav) of
                     (Some b, Some t) \<Rightarrow> MONEY_EPSILON < \<bar>b + t - tot\<bar>
                   | _ \<Rightarrow> False) \<rparr>)))"

section \<open>Typing a travel figure\<close>

datatype fee_change_error = NoAuditFee | EnterTravel | EnterTravelInRupees

datatype FeeChangePreview = Refuse fee_change_error | Preview (preview_travel: rat) (preview_newTotal: rat)

text \<open>
  The characters the input may carry for looks are dropped: white space and the comma of the digit
  groups (the rupee sign is outside the represented characters).
\<close>

definition strip_looks :: "string \<Rightarrow> string" where
  "strip_looks s = filter (\<lambda>c. \<not> js_ws c \<and> c \<noteq> CHR '','') (js_trim s)"

text \<open>The regular expression \<^verbatim>\<open>^\d+(\.\d{1,2})?$\<close> and the number it denotes.\<close>

definition rupee_number :: "string \<Rightarrow> rat option" where
  "rupee_number raw =
    (let whole = takeWhile is_digit raw; rest = dropWhile is_digit raw
     in if whole = [] then None
        else if rest = [] then Some (of_nat (digits_value whole 0))
        else if hd rest = CHR ''.'' \<and> length (tl rest) \<in> {1, 2} \<and> list_all is_digit (tl rest)
        then Some (of_nat (digits_value whole 0) + of_nat (digits_value (tl rest) 0) / 10 ^ length (tl rest))
        else None)"

definition previewFeeChange :: "AssignmentFeeView \<Rightarrow> string \<Rightarrow> FeeChangePreview" where
  "previewFeeChange view travelInput =
    (case base view of
       None \<Rightarrow> Refuse NoAuditFee
     | Some b \<Rightarrow>
        (let raw = strip_looks travelInput
         in if raw = [] then Refuse EnterTravel
            else case rupee_number raw of
                   None \<Rightarrow> Refuse EnterTravelInRupees
                 | Some x \<Rightarrow> (let t = roundMoney x in Preview t (roundMoney (b + t)))))"

section \<open>The formula that books it\<close>

fun money_num :: "raw_amount \<Rightarrow> rat" where
  "money_num (Amount x) = x"
| "money_num _ = 0"

record ResolvedAssignmentFee =
  fee_amount :: rat
  fee_settled :: bool
  fee_from :: FeeSource

definition assignmentFee :: "AssignmentFeeInput \<Rightarrow> ResolvedAssignmentFee" where
  "assignmentFee a =
    (let v = describeAssignmentFee (Some a)
     in \<lparr> fee_amount = nullish_value (total v) 0, fee_settled = settled v, fee_from = fee_source v \<rparr>)"

record TaxOutcome =
  taxAmount :: rat
  tdsAmount :: rat
  totalAmount :: rat

definition applyTaxes :: "rat \<Rightarrow> rat \<Rightarrow> rat \<Rightarrow> TaxOutcome" where
  "applyTaxes taxable taxRate tdsRate =
    (let b = roundMoney taxable;
         tax = roundMoney (b * (taxRate / 100));
         t = roundMoney (b * (tdsRate / 100))
     in \<lparr> taxAmount = tax, tdsAmount = t, totalAmount = roundMoney (b + tax - t) \<rparr>)"

record MoneyContext =
  clientRate :: "rat option"
  rechargeTravel :: bool
  gstRate :: rat
  clientTdsRate :: rat
  assayerTdsRate :: rat
  legacyTravelReimbursement :: raw_amount
  adjustmentAmount :: raw_amount

datatype PricedFrom = CLIENT_RATE | PASS_THROUGH

record AssayerSide =
  as_base :: rat
  as_travel :: rat
  as_gross :: rat
  as_tds :: rat
  as_net :: rat

record ClientSide =
  cl_base :: rat
  cl_travel :: rat
  cl_adjustment :: rat
  cl_taxable :: rat
  cl_gst :: rat
  cl_tds :: rat
  cl_total :: rat
  pricedFrom :: PricedFrom

record AssignmentMoney =
  fee :: ResolvedAssignmentFee
  assayer_side :: AssayerSide
  client_side :: ClientSide

definition present :: "raw_amount \<Rightarrow> rat option" where
  "present r = (if r = Missing then None else Some (money_num r))"

definition owed_travel :: "AssignmentFeeInput \<Rightarrow> rat option" where
  "owed_travel a = nullish (present (counterTravelFee a)) (present (quotedTravelFee a))"

definition carve :: "AssignmentFeeInput \<Rightarrow> MoneyContext \<Rightarrow> rat \<Rightarrow> rat \<times> rat" where
  "carve a ctx amount =
    (case present (quotedBaseFee a) of
       Some quotedBase \<Rightarrow>
         (let b = roundMoney (min (max 0 quotedBase) amount) in (b, roundMoney (amount - b)))
     | None \<Rightarrow>
        (case owed_travel a of
           Some quotedTrav \<Rightarrow>
             (let t = roundMoney (min (max 0 quotedTrav) amount) in (roundMoney (amount - t), t))
         | None \<Rightarrow> (roundMoney amount, roundMoney (max 0 (money_num (legacyTravelReimbursement ctx))))))"

definition carved :: "AssignmentFeeInput \<Rightarrow> bool" where
  "carved a \<longleftrightarrow> present (quotedBaseFee a) \<noteq> None \<or> owed_travel a \<noteq> None"

definition assignmentMoney :: "AssignmentFeeInput \<Rightarrow> MoneyContext \<Rightarrow> AssignmentMoney" where
  "assignmentMoney a ctx =
    (let f = assignmentFee a;
         amount = fee_amount f;
         (assayerBase, assayerTravel) = carve a ctx amount;
         assayerGross = roundMoney (assayerBase + assayerTravel);
         assayerTaxes = applyTaxes assayerGross 0 (assayerTdsRate ctx);
         priced = (if positive (clientRate ctx) then CLIENT_RATE else PASS_THROUGH);
         clientBase = (if priced = CLIENT_RATE then roundMoney (the (clientRate ctx))
                       else if carved a then roundMoney (max 0 (amount - assayerTravel))
                       else roundMoney amount);
         clientTravel = (if rechargeTravel ctx then assayerTravel else 0);
         adjustment = roundMoney (money_num (adjustmentAmount ctx));
         taxable = roundMoney (clientBase + clientTravel + adjustment);
         clientTaxes = applyTaxes taxable (gstRate ctx) (clientTdsRate ctx)
     in \<lparr> fee = f,
          assayer_side = \<lparr> as_base = assayerBase, as_travel = assayerTravel, as_gross = assayerGross,
             as_tds = tdsAmount assayerTaxes, as_net = totalAmount assayerTaxes \<rparr>,
          client_side = \<lparr> cl_base = clientBase, cl_travel = clientTravel, cl_adjustment = adjustment,
             cl_taxable = taxable, cl_gst = taxAmount clientTaxes, cl_tds = tdsAmount clientTaxes,
             cl_total = totalAmount clientTaxes, pricedFrom = priced \<rparr> \<rparr>)"

section \<open>Reading money back\<close>

record PayableLike =
  baseAmount :: raw_amount
  travelAmount :: raw_amount
  base_amount :: raw_amount
  travel_amount :: raw_amount

record EntryLike =
  taxableAmount :: raw_amount
  entry_baseAmount :: raw_amount
  taxable_amount :: raw_amount
  entry_base_amount :: raw_amount

fun or_else :: "raw_amount \<Rightarrow> raw_amount \<Rightarrow> raw_amount" where
  "or_else Missing y = y"
| "or_else x y = x"

definition payableCost :: "PayableLike \<Rightarrow> rat" where
  "payableCost p = roundMoney (money_num (or_else (baseAmount p) (base_amount p))
     + money_num (or_else (travelAmount p) (travel_amount p)))"

definition entryRevenue :: "EntryLike \<Rightarrow> rat" where
  "entryRevenue e =
    (let taxable = or_else (taxableAmount e) (taxable_amount e)
     in if taxable \<noteq> Missing then roundMoney (money_num taxable)
        else roundMoney (money_num (or_else (entry_baseAmount e) (entry_base_amount e))))"

definition totalPayableCost :: "PayableLike list \<Rightarrow> rat" where
  "totalPayableCost payables = roundMoney (foldl (\<lambda>sum p. sum + payableCost p) 0 payables)"

definition totalEntryRevenue :: "EntryLike list \<Rightarrow> rat" where
  "totalEntryRevenue entries = roundMoney (foldl (\<lambda>sum e. sum + entryRevenue e) 0 entries)"

definition margin :: "rat \<Rightarrow> rat \<Rightarrow> rat \<times> rat option" where
  "margin revenue cost =
    (roundMoney (revenue - cost),
     if 0 < revenue then Some (roundMoney ((revenue - cost) / revenue * 100)) else None)"

section \<open>Rows that still stand for money\<close>

definition DEAD_PAYABLE_STATUSES :: "AssayerPayableStatus list" where
  "DEAD_PAYABLE_STATUSES = [AP_VOIDED]"

definition DEAD_BILLING_STATES :: "BillingState list" where
  "DEAD_BILLING_STATES = [BS_CANCELLED]"

definition isLivePayable :: "AssayerPayableStatus option \<Rightarrow> bool" where
  "isLivePayable status \<longleftrightarrow> (case status of None \<Rightarrow> False | Some s \<Rightarrow> s \<notin> set DEAD_PAYABLE_STATUSES)"

definition isLiveBillingEntry :: "BillingState option \<Rightarrow> bool" where
  "isLiveBillingEntry state \<longleftrightarrow> (case state of None \<Rightarrow> False | Some s \<Rightarrow> s \<notin> set DEAD_BILLING_STATES)"

section \<open>The reason of a rejection by the head of department\<close>

definition HOD_REJECT_REASON_MIN :: nat where
  "HOD_REJECT_REASON_MIN = 10"

definition HOD_REJECT_REASON_MAX :: nat where
  "HOD_REJECT_REASON_MAX = 1000"

datatype reject_reason_problem = SayWhy | KeepShorter

definition hodRejectReasonProblem :: "string option \<Rightarrow> reject_reason_problem option" where
  "hodRejectReasonProblem reason =
    (let t = js_trim (nullish_value reason [])
     in if length t < HOD_REJECT_REASON_MIN then Some SayWhy
        else if HOD_REJECT_REASON_MAX < length t then Some KeepShorter
        else None)"

section \<open>Lemmas\<close>

text \<open>Fees as the columns hold them: a number or nothing, below one lakh crore rupees.\<close>

fun stored_amount :: "raw_amount \<Rightarrow> bool" where
  "stored_amount Missing = True"
| "stored_amount (Amount x) = (\<bar>x\<bar> \<le> 10 ^ 12)"
| "stored_amount _ = False"

definition stored_fee :: "AssignmentFeeInput \<Rightarrow> bool" where
  "stored_fee a \<longleftrightarrow> stored_amount (proposedFee a) \<and> stored_amount (agreedFee a) \<and> stored_amount (quotedBaseFee a)
     \<and> stored_amount (quotedTravelFee a) \<and> stored_amount (counterTravelFee a)"

definition money_amount :: "rat \<Rightarrow> bool" where
  "money_amount x \<longleftrightarrow> 0 \<le> x \<and> x \<le> 10 ^ 12 \<and> whole_paise x"

lemma money_amount_range: "money_amount x \<Longrightarrow> money_range x"
  by (simp add: money_amount_def money_range_def)

lemma whole_paise_1e12: "whole_paise (10 ^ 12)"
  by (auto simp: whole_paise_def intro: exI [of _ "100 * 10 ^ 12"])

lemma money_amount_round: "0 \<le> x \<Longrightarrow> x \<le> 10 ^ 12 \<Longrightarrow> money_amount (roundMoney x)"
  using roundMoney_le [of x "10 ^ 12"] roundMoney_nonneg_ge0 [of x] whole_paise_round whole_paise_1e12
  by (simp add: money_amount_def money_range_def)

lemma money_amount_0 [simp]: "money_amount 0"
  by (simp add: money_amount_def)

lemma fee_total_amount: "stored_fee a \<Longrightarrow> fee_total a = Some (tot, s, b) \<Longrightarrow> money_amount tot"
  by (cases "agreedFee a"; cases "proposedFee a")
     (auto simp: fee_total_def stored_fee_def intro!: money_amount_round split: if_splits)

lemma describe_total:
  "total (describeAssignmentFee (Some a)) = map_option fst (fee_total a)
   \<and> settled (describeAssignmentFee (Some a)) = (case fee_total a of None \<Rightarrow> False | Some (x, s, b) \<Rightarrow> b)
   \<and> fee_source (describeAssignmentFee (Some a)) = (case fee_total a of None \<Rightarrow> FS_NONE | Some (x, s, b) \<Rightarrow> s)"
  by (simp add: describeAssignmentFee_def blank_fee_def Let_def split: option.split prod.split)

lemma fee_amount_ok: "stored_fee a \<Longrightarrow> money_amount (fee_amount (assignmentFee a))"
  using fee_total_amount [of a]
  by (cases "fee_total a") (auto simp: assignmentFee_def describe_total Let_def)

lemma clamp_ok:
  assumes "money_amount m"
  shows "money_amount (roundMoney (min (max 0 q) m)) \<and> roundMoney (min (max 0 q) m) \<le> m
    \<and> money_amount (m - roundMoney (min (max 0 q) m))
    \<and> roundMoney (m - roundMoney (min (max 0 q) m)) = m - roundMoney (min (max 0 q) m)"
proof -
  let ?c = "min (max 0 q) m"
  have c: "0 \<le> ?c" "?c \<le> m" "m \<le> 10 ^ 12" "whole_paise m" using assms by (auto simp: money_amount_def)
  then have "money_range ?c" by (auto simp: money_range_def)
  with c have le: "roundMoney ?c \<le> m" by (intro roundMoney_le)
  moreover have r: "money_amount (roundMoney ?c)" using c by (intro money_amount_round) auto
  ultimately have "money_amount (m - roundMoney ?c)"
    using c by (auto simp: money_amount_def intro: whole_paise_diff)
  with le r show ?thesis using roundMoney_exact money_amount_range by (auto simp: money_amount_def)
qed

lemma carve_sound:
  assumes "money_amount amount" and "carved a" and "carve a ctx amount = (b, t)"
  shows "money_amount b \<and> money_amount t \<and> b + t = amount"
  using assms clamp_ok [OF assms(1)]
  by (auto simp: carve_def carved_def Let_def split: option.splits)

lemma round_negative: "q < 0 \<Longrightarrow> money_range q \<Longrightarrow> roundMoney q \<le> 0"
  using roundMoney_nonneg_ge0 [of "- q"] by (simp add: roundMoney_uminus money_range_def)

lemma clamp_round:
  assumes "money_amount m" and "\<bar>q\<bar> \<le> 10 ^ 12" and "0 \<le> roundMoney q" and "roundMoney q \<le> m"
  shows "roundMoney (min (max 0 q) m) = roundMoney q"
proof (cases "q < 0")
  case True
  have "money_range q" using assms(2) by (simp add: money_range_def)
  with round_negative True assms(3) have "roundMoney q = 0" by force
  with True assms(1) show ?thesis by (simp add: money_amount_def)
next
  case False
  have q: "money_range q" using assms(2) by (simp add: money_range_def)
  show ?thesis
  proof (cases "q \<le> m")
    case False
    then have "m \<le> roundMoney q" using \<open>\<not> q < 0\<close> q assms(1) by (intro roundMoney_ge) (auto simp: money_amount_def)
    with assms(4) have "roundMoney q = m" by simp
    moreover have "roundMoney m = m" using assms(1) by (simp add: roundMoney_exact money_amount_range money_amount_def)
    ultimately show ?thesis using False \<open>\<not> q < 0\<close> by (simp add: min_def max_def)
  qed (use False in \<open>simp add: min_def max_def\<close>)
qed

lemma tax_bounds:
  assumes "money_amount g" and "0 \<le> r" and "r \<le> 100"
  shows "money_amount (roundMoney (g * (r / 100))) \<and> roundMoney (g * (r / 100)) \<le> g"
proof -
  have g: "0 \<le> g" "g \<le> 10 ^ 12" "whole_paise g" using assms(1) by (auto simp: money_amount_def)
  have "g * (r / 100) \<le> g" "0 \<le> g * (r / 100)"
    using assms g mult_left_le [of "r / 100" g] by auto
  moreover from this g have "money_range (g * (r / 100))" by (simp add: money_range_def)
  ultimately show ?thesis using roundMoney_le g by (auto intro: money_amount_round)
qed

lemma assayer_taxes:
  assumes "money_amount g" and "0 \<le> r" and "r \<le> 100"
  shows "tdsAmount (applyTaxes g 0 r) = roundMoney (g * (r / 100))
    \<and> totalAmount (applyTaxes g 0 r) = g - roundMoney (g * (r / 100))"
proof -
  have g: "roundMoney g = g" using assms(1) by (simp add: roundMoney_exact money_amount_range money_amount_def)
  have "money_range (g - roundMoney (g * (r / 100)))" "whole_paise (g - roundMoney (g * (r / 100)))"
    using tax_bounds [OF assms] assms(1) whole_paise_diff by (auto simp: money_amount_def money_range_def)
  then have "roundMoney (g - roundMoney (g * (r / 100))) = g - roundMoney (g * (r / 100))"
    by (intro roundMoney_exact)
  with g show ?thesis by (simp add: applyTaxes_def Let_def)
qed

lemma sides_of_money:
  assumes "carve a ctx (fee_amount (assignmentFee a)) = (b, t)"
  shows "as_base (assayer_side (assignmentMoney a ctx)) = b
    \<and> as_travel (assayer_side (assignmentMoney a ctx)) = t
    \<and> as_gross (assayer_side (assignmentMoney a ctx)) = roundMoney (b + t)
    \<and> as_tds (assayer_side (assignmentMoney a ctx)) = tdsAmount (applyTaxes (roundMoney (b + t)) 0 (assayerTdsRate ctx))
    \<and> as_net (assayer_side (assignmentMoney a ctx)) = totalAmount (applyTaxes (roundMoney (b + t)) 0 (assayerTdsRate ctx))
    \<and> cl_travel (client_side (assignmentMoney a ctx)) = (if rechargeTravel ctx then t else 0)
    \<and> (\<not> positive (clientRate ctx) \<and> carved a \<longrightarrow>
         cl_base (client_side (assignmentMoney a ctx)) = roundMoney (max 0 (fee_amount (assignmentFee a) - t)))"
  using assms by (simp add: assignmentMoney_def Let_def)

lemma describe_split:
  assumes "total (describeAssignmentFee (Some a)) = Some tot"
  shows "travel (describeAssignmentFee (Some a)) = fst (fee_travel a)
    \<and> splitSource (describeAssignmentFee (Some a)) = snd (fee_travel a)
    \<and> base (describeAssignmentFee (Some a)) = fee_base a tot (fst (fee_travel a)) (snd (fee_travel a))
    \<and> fee_amount (assignmentFee a) = tot"
proof -
  obtain s b where "fee_total a = Some (tot, s, b)" using assms by (auto simp: describe_total)
  then show ?thesis
    by (simp add: assignmentFee_def describeAssignmentFee_def Let_def split: prod.split)
qed

lemma stored_present:
  "stored_amount r \<Longrightarrow> present r = fee_num r \<and> (\<forall>x. fee_num r = Some x \<longrightarrow> \<bar>x\<bar> \<le> 10 ^ 12)"
  by (cases r) (simp_all add: present_def)

text \<open>The same split on the screen and in the books, when the screen's split adds up.\<close>

lemma carve_as_displayed:
  assumes st: "stored_fee a" and m: "money_amount tot"
    and split: "fee_travel a = (Some t, sp)" "fee_base a tot (Some t) sp = Some b"
    and adds: "b + t = tot" "0 \<le> b" "0 \<le> t"
  shows "carve a ctx tot = (b, t)"
proof -
  have tot: "roundMoney tot = tot" using m by (simp add: roundMoney_exact money_amount_range money_amount_def)
  have trav: "owed_travel a = Some c \<and> t = roundMoney c \<and> \<bar>c\<bar> \<le> 10 ^ 12" if "fee_num (counterTravelFee a) = Some c
      \<or> fee_num (counterTravelFee a) = None \<and> fee_num (quotedTravelFee a) = Some c" for c
    using that split(1) st stored_present [of "counterTravelFee a"] stored_present [of "quotedTravelFee a"]
    by (auto simp: owed_travel_def fee_travel_def stored_fee_def split: option.splits)
  have base: "present (quotedBaseFee a) = fee_num (quotedBaseFee a)" "\<forall>x. fee_num (quotedBaseFee a) = Some x \<longrightarrow> \<bar>x\<bar> \<le> 10 ^ 12"
    using st stored_present [of "quotedBaseFee a"] by (auto simp: stored_fee_def)
  have nl: "sp \<noteq> LEGACY_UNSPLIT" using split(2) by (auto simp: fee_base_def)
  have exact: "roundMoney (tot - b) = t" "roundMoney (tot - t) = b"
  proof -
    have "whole_paise t" using split(1) by (auto simp: fee_travel_def whole_paise_round split: option.splits)
    moreover have "whole_paise b" using split(2) nl by (auto simp: fee_base_def whole_paise_round split: option.splits)
    ultimately have "roundMoney t = t" "roundMoney b = b"
      using adds m by (auto intro!: roundMoney_exact simp: money_amount_def money_range_def)
    then show "roundMoney (tot - b) = t" "roundMoney (tot - t) = b" using adds by (auto simp flip: adds(1))
  qed
  show ?thesis
  proof (cases "fee_num (quotedBaseFee a)")
    case (Some qb)
    then have "b = roundMoney qb" using split(2) nl by (simp add: fee_base_def)
    with Some base adds m have "roundMoney (min (max 0 qb) tot) = b" by (intro clamp_round [THEN trans]) auto
    with Some base exact show ?thesis by (simp add: carve_def Let_def)
  next
    case None
    obtain c where c: "fee_num (counterTravelFee a) = Some c
        \<or> fee_num (counterTravelFee a) = None \<and> fee_num (quotedTravelFee a) = Some c"
      using split(1) by (auto simp: fee_travel_def split: option.splits)
    from trav [OF c] have o: "owed_travel a = Some c" "t = roundMoney c" "\<bar>c\<bar> \<le> 10 ^ 12" by auto
    then have "roundMoney (min (max 0 c) tot) = t" using adds m by (intro clamp_round [THEN trans]) auto
    with None base o exact show ?thesis by (simp add: carve_def Let_def)
  qed
qed

lemma rupee_number_paise: "rupee_number raw = Some x \<Longrightarrow> whole_paise x \<and> 0 \<le> x"
proof -
  assume r: "rupee_number raw = Some x"
  obtain w k and f :: nat where x: "x = of_nat w + of_nat k / 10 ^ f" "f \<in> {0, 1, 2}"
  proof (cases "dropWhile is_digit raw = []")
    case True
    then show ?thesis using r that [of "digits_value (takeWhile is_digit raw) 0" 0 0]
      by (auto simp: rupee_number_def Let_def split: if_splits)
  next
    case False
    then show ?thesis
      using r that [of "digits_value (takeWhile is_digit raw) 0" "digits_value (tl (dropWhile is_digit raw)) 0"
          "length (tl (dropWhile is_digit raw))"]
      by (auto simp: rupee_number_def Let_def split: if_splits)
  qed
  then have "x = of_int (int (w * 100 + k * 10 ^ (2 - f))) / 100" by (auto simp: field_simps)
  then have "whole_paise x" unfolding whole_paise_def by blast
  moreover have "0 \<le> x" using x by auto
  ultimately show "whole_paise x \<and> 0 \<le> x" by blast
qed

section \<open>Properties\<close>

text \<open>A figure in whole paise that the fee covers is booked as it was quoted.\<close>

lemma carve_as_quoted:
  assumes "money_amount amount" and "carve a ctx amount = (b, t)" and "0 \<le> q" "q \<le> amount" "whole_paise q"
  shows "quotedBaseFee a = Amount q \<Longrightarrow> b = q"
    and "quotedBaseFee a = Missing \<Longrightarrow> counterTravelFee a = Amount q \<Longrightarrow> t = q"
proof -
  have "roundMoney q = q" using assms by (auto intro!: roundMoney_exact simp: money_range_def money_amount_def)
  then show "quotedBaseFee a = Amount q \<Longrightarrow> b = q"
    and "quotedBaseFee a = Missing \<Longrightarrow> counterTravelFee a = Amount q \<Longrightarrow> t = q"
    using assms by (auto simp: carve_def owed_travel_def present_def Let_def)
qed

text \<open>
  C1. The carve: for an assignment whose stored fees fit their columns, a withholding rate between 0 and
  100 per cent, and an offer that carries a quoted base or a travel figure, the booked base and travel
  are non-negative whole-paise amounts that add up to the fee exactly, so gross is the fee and travel is
  never paid on top; a quoted base in whole paise that the fee covers is booked as the base, and without
  a quoted base a countered travel in whole paise that the fee covers is booked as the travel; the tax
  withheld is in whole paise, lies between nothing and the gross, and the net is the gross less that tax;
  and a client without a rate who is recharged travel is billed exactly the fee.
\<close>

theorem booking_carves_exactly:
  assumes "stored_fee a" and "carved a" and "0 \<le> assayerTdsRate ctx" and "assayerTdsRate ctx \<le> 100"
  shows "let m = assignmentMoney a ctx; s = assayer_side m; c = client_side m; amount = fee_amount (fee m)
    in as_base s + as_travel s = amount \<and> 0 \<le> as_base s \<and> 0 \<le> as_travel s \<and> as_gross s = amount
       \<and> whole_paise (as_base s) \<and> whole_paise (as_travel s) \<and> whole_paise (as_tds s) \<and> whole_paise (as_net s)
       \<and> (\<forall>q. 0 \<le> q \<and> q \<le> amount \<and> whole_paise q \<longrightarrow>
              (quotedBaseFee a = Amount q \<longrightarrow> as_base s = q)
            \<and> (quotedBaseFee a = Missing \<and> counterTravelFee a = Amount q \<longrightarrow> as_travel s = q))
       \<and> 0 \<le> as_tds s \<and> as_tds s \<le> as_gross s \<and> as_net s = as_gross s - as_tds s
       \<and> (\<not> positive (clientRate ctx) \<and> rechargeTravel ctx \<longrightarrow> cl_base c + cl_travel c = amount)"
proof -
  let ?amount = "fee_amount (assignmentFee a)"
  obtain b t where bt: "carve a ctx ?amount = (b, t)" by fastforce
  have amount: "money_amount ?amount" by (rule fee_amount_ok [OF assms(1)])
  have c: "money_amount b" "money_amount t" "b + t = ?amount" using carve_sound [OF amount assms(2) bt] by auto
  have g: "roundMoney (b + t) = ?amount"
    using amount c(3) by (simp add: roundMoney_exact money_amount_range money_amount_def)
  have whole: "roundMoney (max 0 (?amount - t)) = b"
    using c by (auto simp: roundMoney_exact money_amount_range money_amount_def simp flip: c(3))
  let ?m = "assignmentMoney a ctx" and ?tds = "roundMoney (?amount * (assayerTdsRate ctx / 100))"
  have f: "fee ?m = assignmentFee a" by (simp add: assignmentMoney_def Let_def split: prod.split)
  have tds: "money_amount ?tds" "?tds \<le> ?amount" using tax_bounds [OF amount assms(3,4)] by auto
  have side: "as_base (assayer_side ?m) = b" "as_travel (assayer_side ?m) = t" "as_gross (assayer_side ?m) = ?amount"
      "as_tds (assayer_side ?m) = ?tds" "as_net (assayer_side ?m) = ?amount - ?tds"
    using sides_of_money [OF bt] assayer_taxes [OF amount assms(3,4)] g by simp_all
  have client: "\<not> positive (clientRate ctx) \<and> rechargeTravel ctx
      \<longrightarrow> cl_base (client_side ?m) + cl_travel (client_side ?m) = ?amount"
    using sides_of_money [OF bt] assms(2) whole c(3) by simp
  have net: "whole_paise (?amount - ?tds)" using amount tds(1) by (simp add: whole_paise_diff money_amount_def)
  have quoted: "\<forall>q. 0 \<le> q \<and> q \<le> ?amount \<and> whole_paise q \<longrightarrow>
      (quotedBaseFee a = Amount q \<longrightarrow> b = q) \<and> (quotedBaseFee a = Missing \<and> counterTravelFee a = Amount q \<longrightarrow> t = q)"
    using carve_as_quoted [OF amount bt] by blast
  have parts: "0 \<le> b" "0 \<le> t" "whole_paise b" "whole_paise t" "0 \<le> ?tds" "whole_paise ?tds"
    using c(1,2) tds(1) by (simp_all add: money_amount_def)
  show ?thesis
    unfolding Let_def f side
    by (intro conjI) (rule c(3) parts tds(2) net quoted client refl)+
qed

definition sample_fee :: AssignmentFeeInput where
  "sample_fee = \<lparr> proposedFee = Amount 1900, agreedFee = Amount 2000, quotedBaseFee = Amount 1250,
     quotedTravelFee = Amount 650, counterTravelFee = Missing \<rparr>"

definition sample_ctx :: MoneyContext where
  "sample_ctx = \<lparr> clientRate = None, rechargeTravel = True, gstRate = 18, clientTdsRate = 10, assayerTdsRate = 10,
     legacyTravelReimbursement = Missing, adjustmentAmount = Missing \<rparr>"

lemma round_nat: "n \<le> 10 ^ 12 \<Longrightarrow> roundMoney (of_nat n) = of_nat n"
proof (rule roundMoney_exact)
  assume "n \<le> 10 ^ 12"
  then have "(of_nat n :: rat) \<le> of_nat (10 ^ 12)" by (simp only: of_nat_le_iff)
  then show "money_range (of_nat n)" by (simp add: money_range_def)
  show "whole_paise (of_nat n)" by (auto simp: whole_paise_def intro: exI [of _ "100 * int n"])
qed

lemma sample_rounds:
  "roundMoney 2000 = 2000" "roundMoney 1250 = 1250" "roundMoney 650 = 650" "roundMoney 750 = 750" "roundMoney 1900 = 1900"
  using round_nat [of 2000] round_nat [of 1250] round_nat [of 650] round_nat [of 750] round_nat [of 1900] by simp_all

lemma sample_total: "total (describeAssignmentFee (Some sample_fee)) = Some 2000"
  by (simp add: describe_total fee_total_def sample_fee_def sample_rounds)

theorem booking_carves_exactly_witness:
  "let m = assignmentMoney sample_fee sample_ctx
   in as_base (assayer_side m) + as_travel (assayer_side m) = 2000 \<and> as_gross (assayer_side m) = 2000"
proof -
  have "stored_fee sample_fee" "carved sample_fee" "0 \<le> assayerTdsRate sample_ctx" "assayerTdsRate sample_ctx \<le> 100"
    by (simp_all add: stored_fee_def carved_def present_def sample_fee_def sample_ctx_def)
  moreover have "fee_amount (fee (assignmentMoney sample_fee sample_ctx)) = 2000"
    using sample_total by (simp add: assignmentMoney_def assignmentFee_def Let_def split: prod.split)
  ultimately show ?thesis using booking_carves_exactly [of sample_fee sample_ctx] unfolding Let_def by simp
qed

text \<open>
  The screen and the books agree whenever the screen's split adds up: for stored fees, if the view
  shows a non-negative base and travel whose sum is the shown total, those are the base and the travel
  that are booked.
\<close>

theorem booked_split_is_displayed_split:
  assumes "stored_fee a" and "view = describeAssignmentFee (Some a)"
    and "total view = Some tot" and "base view = Some b" and "travel view = Some t"
    and "b + t = tot" and "0 \<le> b" and "0 \<le> t"
  shows "as_base (assayer_side (assignmentMoney a ctx)) = b \<and> as_travel (assayer_side (assignmentMoney a ctx)) = t"
proof -
  note tot = assms(3) [unfolded assms(2)]
  have "money_amount tot" using fee_amount_ok [OF assms(1)] describe_split [OF tot] by simp
  moreover have "fee_travel a = (Some t, snd (fee_travel a))"
    using describe_split [OF tot] assms(2,5) by (metis prod.collapse)
  moreover have "fee_base a tot (Some t) (snd (fee_travel a)) = Some b"
    using describe_split [OF tot] assms(2,4,5) by simp
  ultimately have "carve a ctx tot = (b, t)" using carve_as_displayed assms by blast
  then show ?thesis using sides_of_money [of a ctx b t] describe_split [OF tot] by simp
qed

theorem booked_split_is_displayed_split_witness:
  "as_travel (assayer_side (assignmentMoney (sample_fee\<lparr> agreedFee := Missing \<rparr>) sample_ctx)) = 650"
proof -
  let ?a = "sample_fee\<lparr> agreedFee := Missing \<rparr>"
  have t: "total (describeAssignmentFee (Some ?a)) = Some 1900"
    by (simp add: describe_total fee_total_def sample_fee_def sample_rounds)
  moreover have "base (describeAssignmentFee (Some ?a)) = Some 1250" "travel (describeAssignmentFee (Some ?a)) = Some 650"
    using describe_split [OF t] by (simp_all add: fee_base_def fee_travel_def sample_fee_def sample_rounds)
  moreover have "stored_fee ?a" by (simp add: stored_fee_def sample_fee_def)
  ultimately show ?thesis using booked_split_is_displayed_split [of ?a _ 1900 1250 650] by simp
qed

text \<open>
  Where they part: when the desk agrees a total of 2000 on an offer quoted at 1250 plus 650, the view
  reports travel 650 and a data fault, while the books hold the base and pay travel 750.
\<close>

theorem retotalled_offer_view_differs:
  "travel (describeAssignmentFee (Some sample_fee)) = Some 650
   \<and> inconsistent (describeAssignmentFee (Some sample_fee))
   \<and> as_base (assayer_side (assignmentMoney sample_fee ctx)) = 1250
   \<and> as_travel (assayer_side (assignmentMoney sample_fee ctx)) = 750"
proof -
  have "fee_total sample_fee = Some (2000, FS_AGREED, True)"
    by (simp add: fee_total_def sample_fee_def sample_rounds)
  then have "inconsistent (describeAssignmentFee (Some sample_fee))"
    by (simp add: describeAssignmentFee_def fee_travel_def fee_base_def sample_fee_def sample_rounds MONEY_EPSILON_def)
  moreover have "carve sample_fee ctx 2000 = (1250, 750)"
    by (simp add: carve_def present_def sample_fee_def sample_rounds Let_def)
  ultimately show ?thesis
    using describe_split [OF sample_total] sides_of_money [of sample_fee ctx 1250 750]
    by (simp add: fee_travel_def sample_fee_def sample_rounds)
qed

text \<open>
  What counts as a fee: the view has a total exactly when an agreed or a proposed fee above zero is
  stored, the agreed one wins, and a stored zero is never shown as a fee; typing a travel figure on an
  offer with a known base gives exactly base plus the typed figure, zero included, and is refused on an
  offer whose base is unknown.
\<close>

theorem fee_view_and_preview:
  "(total (describeAssignmentFee (Some a)) = None \<longleftrightarrow>
      \<not> positive (fee_num (agreedFee a)) \<and> \<not> positive (fee_num (proposedFee a)))
   \<and> (fee_source (describeAssignmentFee (Some a)) = FS_AGREED \<longleftrightarrow> positive (fee_num (agreedFee a)))
   \<and> (settled (describeAssignmentFee (Some a)) \<longleftrightarrow> positive (fee_num (agreedFee a)))
   \<and> (base view = None \<longrightarrow> previewFeeChange view s = Refuse NoAuditFee)
   \<and> (\<forall>b x. base view = Some b \<and> money_amount b \<and> strip_looks s \<noteq> [] \<and> rupee_number (strip_looks s) = Some x
        \<and> x \<le> 10 ^ 12 \<longrightarrow> previewFeeChange view s = Preview x (b + x))"
proof (intro conjI allI impI)
  fix b x
  assume h: "base view = Some b \<and> money_amount b \<and> strip_looks s \<noteq> [] \<and> rupee_number (strip_looks s) = Some x \<and> x \<le> 10 ^ 12"
  then have x: "whole_paise x" "0 \<le> x" "x \<le> 10 ^ 12" using rupee_number_paise by auto
  then have "roundMoney x = x" by (intro roundMoney_exact) (simp_all add: money_range_def)
  moreover have "roundMoney (b + x) = b + x"
    using x h by (intro roundMoney_exact whole_paise_add) (auto simp: money_range_def money_amount_def)
  ultimately show "previewFeeChange view s = Preview x (b + x)" using h by (simp add: previewFeeChange_def Let_def)
qed (auto simp: describe_total fee_total_def previewFeeChange_def split: if_splits)

theorem fee_view_and_preview_witness:
  "previewFeeChange (blank_fee\<lparr> base := Some 1250 \<rparr>) '' 1,200 '' = Preview 1200 2450
   \<and> previewFeeChange blank_fee ''650'' = Refuse NoAuditFee
   \<and> total (describeAssignmentFee (Some (sample_fee\<lparr> agreedFee := Amount 0, proposedFee := Missing \<rparr>))) = None"
proof -
  have s: "strip_looks '' 1,200 '' = ''1200''"
    by (simp add: strip_looks_def js_trim_def js_ws_def code_def)
  have "rupee_number ''1200'' = Some 1200" by (simp add: rupee_number_def is_digit_def digit_value_def code_def)
  moreover have "money_amount 1250" using money_amount_round [of 1250] by (simp add: sample_rounds)
  ultimately show ?thesis
    using fee_view_and_preview [of sample_fee "blank_fee\<lparr> base := Some 1250 \<rparr>" "'' 1,200 ''"]
      fee_view_and_preview [of "sample_fee\<lparr> agreedFee := Amount 0, proposedFee := Missing \<rparr>" blank_fee "''650''"]
    unfolding s by (simp add: blank_fee_def)
qed

end
