(* ===== verification/Assignment_Capabilities.thy ===== *)
theory Assignment_Capabilities
  imports Check_In_Rules Assignment_Machine Assignment_Money
begin

text \<open>
  \<^verbatim>\<open>packages/backend/src/modules/assignment/assignment-capabilities.ts\<close>: one evaluator per action of an
  assayer on an assignment, and the list sent to the field app, with the shapes of
  \<^verbatim>\<open>packages/shared/src/record-capabilities.ts\<close>. A gate carries its machine code; the sentence shown
  beside the code, and with it the audience it is voiced for, is not represented.
\<close>

section \<open>Shapes\<close>

datatype AssignmentAction = ACCEPT | DECLINE | CHECK_IN | CHECK_OUT | SUBMIT_RETURN | CLAIM_EXPENSE | REPORT_ISSUE

datatype gate_code =
    NOT_YOUR_ASSIGNMENT | ASSAYER_NOT_ACTIVE | ASSAYER_COMPLIANCE_BLOCKED | INVALID_ASSIGNMENT_TRANSITION
  | ASSAYER_ON_LEAVE | ASSIGNMENT_CANCELLED | ASSIGNMENT_COMPLETED | INVALID_STATE_FOR_CHECK_IN
  | NOT_SCHEDULED_TODAY | TOO_FAR_FROM_BRANCH | NOT_CHECKED_IN | ASSIGNMENT_CLOSED | COMPLETION_BY_OFFICE
  | NOT_CHECKED_OUT | EXPENSE_VISIT_NOT_STARTED | EXPENSE_JOB_ALREADY_BILLED | EXPENSE_PAYOUT_ALREADY_APPROVED
  | EXPENSE_APPROVAL_ASSIGNMENT_CANCELLED | EXPENSE_APPROVAL_ASSAYER_REASSIGNED | EXPENSE_APPROVAL_JOB_ON_SENT_BILL

record Gate =
  gate_action :: AssignmentAction
  allowed :: bool
  gate_code :: "gate_code option"
  opensAt :: "nat option"

record CheckInZone =
  zone_latitude :: rat
  zone_longitude :: rat
  radiusMeters :: rat
  arrivalRadiusMeters :: "rat option"

record AssignmentCapabilities =
  cap_actions :: "Gate list"
  checkInZone :: "CheckInZone option"

definition gateFor :: "Gate list option \<Rightarrow> AssignmentAction \<Rightarrow> Gate" where
  "gateFor gates action =
    nullish_value (Option.bind gates (List.find (\<lambda>g. gate_action g = action)))
      \<lparr> gate_action = action, allowed = False, gate_code = None, opensAt = None \<rparr>"

record branch_pin =
  pin_latitude :: "js_number option"
  pin_longitude :: "js_number option"
  geoAccuracyMeters :: "js_number option"

record CapabilityAssignment =
  ca_status :: AssignmentStatus
  ca_assayerId :: "string option"
  ca_checkedInAt :: "nat option"
  ca_checkedOutAt :: "nat option"
  scheduledDate :: "js_date option"
  ca_branch :: "branch_pin option"

type_synonym leave_range = "string option \<times> string option"

record CapabilityAssayer =
  cy_status :: "AssayerStatus option"
  cy_isActive :: "bool option"
  leaves :: "leave_range list option"

record CapabilityFeePayable =
  fp_status :: AssayerPayableStatus
  assayerInvoiceId :: "string option"

definition allow :: "AssignmentAction \<Rightarrow> Gate" where
  "allow a = \<lparr> gate_action = a, allowed = True, gate_code = None, opensAt = None \<rparr>"

definition refuse :: "AssignmentAction \<Rightarrow> gate_code \<Rightarrow> nat option \<Rightarrow> Gate" where
  "refuse a c opens = \<lparr> gate_action = a, allowed = False, gate_code = Some c, opensAt = opens \<rparr>"

section \<open>Ownership, accepting and declining\<close>

fun leave_scan :: "string \<Rightarrow> leave_range list \<Rightarrow> (string \<times> string) option" where
  "leave_scan key [] = None"
| "leave_scan key (l # ls) =
    (let start = take 10 (nullish_value (fst l) []); upto = take 10 (nullish_value (snd l) [])
     in if start \<noteq> [] \<and> upto \<noteq> [] \<and> \<not> js_less key start \<and> \<not> js_less upto key then Some (start, upto)
        else leave_scan key ls)"

definition leaveCovering :: "leave_range list option \<Rightarrow> js_date option \<Rightarrow> (string \<times> string) option" where
  "leaveCovering lvs day =
    (case (day, lvs) of
       (Some d, Some ls) \<Rightarrow>
         if ls = [] then None else if businessDateKey d = [] then None else leave_scan (businessDateKey d) ls
     | _ \<Rightarrow> None)"

definition evaluateOwnership :: "AssignmentAction \<Rightarrow> CapabilityAssignment option \<Rightarrow> string option \<Rightarrow> Gate" where
  "evaluateOwnership action a caller =
    (case (a, caller) of
       (Some x, Some c) \<Rightarrow>
         if c = [] \<or> ca_assayerId x \<noteq> Some c then refuse action NOT_YOUR_ASSIGNMENT None else allow action
     | _ \<Rightarrow> refuse action NOT_YOUR_ASSIGNMENT None)"

definition evaluateAcceptOffer :: "CapabilityAssignment \<Rightarrow> CapabilityAssayer option \<Rightarrow> string list \<Rightarrow> bool
    \<Rightarrow> js_date option \<Rightarrow> Gate" where
  "evaluateAcceptOffer a assayer complianceBlockers leaveRuleSuspended onDate =
    (if (case assayer of None \<Rightarrow> False
         | Some y \<Rightarrow> cy_status y \<noteq> None \<and> (cy_status y \<noteq> Some AY_ACTIVE \<or> cy_isActive y = Some False))
     then refuse ACCEPT ASSAYER_NOT_ACTIVE None
     else if complianceBlockers \<noteq> [] then refuse ACCEPT ASSAYER_COMPLIANCE_BLOCKED None
     else if \<not> canTransitionAssignment (ca_status a) AS_ACCEPTED
     then refuse ACCEPT INVALID_ASSIGNMENT_TRANSITION None
     else if \<not> leaveRuleSuspended \<and> leaveCovering (Option.bind assayer leaves) (nullish onDate (scheduledDate a)) \<noteq> None
     then refuse ACCEPT ASSAYER_ON_LEAVE None
     else allow ACCEPT)"

definition evaluateDeclineOffer :: "CapabilityAssignment \<Rightarrow> Gate" where
  "evaluateDeclineOffer a =
    (if \<not> canTransitionAssignment (ca_status a) AS_REJECTED then refuse DECLINE INVALID_ASSIGNMENT_TRANSITION None
     else allow DECLINE)"

section \<open>Check-in\<close>

definition evaluateCheckInNotClosed :: "AssignmentStatus \<Rightarrow> Gate" where
  "evaluateCheckInNotClosed s =
    (if s = AS_CANCELLED then refuse CHECK_IN ASSIGNMENT_CANCELLED None
     else if s = AS_COMPLETED then refuse CHECK_IN ASSIGNMENT_COMPLETED None
     else allow CHECK_IN)"

definition evaluateCheckInState :: "AssignmentStatus \<Rightarrow> Gate" where
  "evaluateCheckInState s =
    (let closed = evaluateCheckInNotClosed s
     in if \<not> allowed closed then closed
        else if \<not> canTransitionAssignment s AS_CHECKED_IN then refuse CHECK_IN INVALID_STATE_FOR_CHECK_IN None
        else allow CHECK_IN)"

definition evaluateFieldWorkStanding :: "CapabilityAssayer option \<Rightarrow> Gate" where
  "evaluateFieldWorkStanding assayer =
    (case assayer of
       None \<Rightarrow> refuse CHECK_IN ASSAYER_NOT_ACTIVE None
     | Some y \<Rightarrow> if cy_status y \<noteq> Some AY_ACTIVE \<or> cy_isActive y = Some False
                 then refuse CHECK_IN ASSAYER_NOT_ACTIVE None else allow CHECK_IN)"

text \<open>The second component is \<^verbatim>\<open>mismatch\<close>: today's key and the scheduled one, when a bypass was used.\<close>

definition evaluateCheckInDay :: "js_date option \<Rightarrow> js_date \<Rightarrow> bool \<Rightarrow> Gate \<times> (string \<times> string) option" where
  "evaluateCheckInDay scheduled now dayRuleSuspended =
    (case scheduled of
       None \<Rightarrow> (allow CHECK_IN, None)
     | Some d \<Rightarrow>
        (let today = businessDateKey now; scheduledKey = businessDateKey d
         in if today = scheduledKey then (allow CHECK_IN, None)
            else if dayRuleSuspended then (allow CHECK_IN, Some (today, scheduledKey))
            else let early = js_less today scheduledKey
                 in (refuse CHECK_IN NOT_SCHEDULED_TODAY
                      (if early \<and> scheduledKey \<noteq> [] then Some (istDayStartIso scheduledKey) else None), None)))"

definition branch_point :: "branch_pin option \<Rightarrow> geo_point option" where
  "branch_point b = usableBranchPoint (Option.bind b pin_latitude) (Option.bind b pin_longitude)"

definition checkInZoneFor :: "branch_pin option \<Rightarrow> rat \<Rightarrow> js_number option \<Rightarrow> CheckInZone option" where
  "checkInZoneFor branch geofence arrivalRadius =
    (case branch_point branch of
       None \<Rightarrow> None
     | Some p \<Rightarrow> Some \<lparr> zone_latitude = latitude p, zone_longitude = longitude p, radiusMeters = geofence,
         arrivalRadiusMeters = (case arrivalRadius of
            Some (Num r) \<Rightarrow> if 0 < r then Some (min r geofence) else None | _ \<Rightarrow> None) \<rparr>)"

definition evaluateCheckInPosition :: "geo_point \<Rightarrow> js_number option \<Rightarrow> branch_pin option \<Rightarrow> rat
    \<Rightarrow> Gate \<times> int option" where
  "evaluateCheckInPosition f deviceAccuracyMeters branch geofence =
    (case branch_point branch of
       None \<Rightarrow> (allow CHECK_IN, None)
     | Some p \<Rightarrow>
        (let distanceMeters = metersFromBranch f p;
             branchAccuracy = accuracy_metres (Option.bind branch geoAccuracyMeters);
             allowance = checkInAllowanceMeters geofence deviceAccuracyMeters (Some (Num branchAccuracy))
         in if of_int distanceMeters \<le> allowance then (allow CHECK_IN, Some distanceMeters)
            else (refuse CHECK_IN TOO_FAR_FROM_BRANCH None, Some distanceMeters)))"

section \<open>Check-out, the return, a problem\<close>

definition evaluateCheckOutNotClosed :: "AssignmentStatus \<Rightarrow> Gate" where
  "evaluateCheckOutNotClosed s =
    (if s = AS_CANCELLED then refuse CHECK_OUT ASSIGNMENT_CANCELLED None
     else if s = AS_COMPLETED then refuse CHECK_OUT ASSIGNMENT_COMPLETED None
     else allow CHECK_OUT)"

definition evaluateCheckOut :: "CapabilityAssignment \<Rightarrow> Gate" where
  "evaluateCheckOut a =
    (let closed = evaluateCheckOutNotClosed (ca_status a)
     in if \<not> allowed closed then closed
        else if ca_checkedInAt a = None then refuse CHECK_OUT NOT_CHECKED_IN None
        else allow CHECK_OUT)"

definition ASSIGNMENT_TERMINAL_STATUSES :: "AssignmentStatus list" where
  "ASSIGNMENT_TERMINAL_STATUSES = [AS_COMPLETED, AS_REJECTED, AS_CANCELLED]"

definition isAssignmentTerminal :: "AssignmentStatus option \<Rightarrow> bool" where
  "isAssignmentTerminal s \<longleftrightarrow> (case s of None \<Rightarrow> False | Some x \<Rightarrow> x \<in> set ASSIGNMENT_TERMINAL_STATUSES)"

definition evaluateSubmitReturn :: "CapabilityAssignment \<Rightarrow> Gate" where
  "evaluateSubmitReturn a =
    (if isAssignmentTerminal (Some (ca_status a)) then refuse SUBMIT_RETURN ASSIGNMENT_CLOSED None
     else allow SUBMIT_RETURN)"

definition evaluateSubmitReturnForAssayer :: "CapabilityAssignment \<Rightarrow> Gate" where
  "evaluateSubmitReturnForAssayer a =
    (let route = evaluateSubmitReturn a
     in if \<not> allowed route then route
        else if ca_checkedInAt a = None then refuse SUBMIT_RETURN COMPLETION_BY_OFFICE None
        else if ca_checkedOutAt a = None then refuse SUBMIT_RETURN NOT_CHECKED_OUT None
        else allow SUBMIT_RETURN)"

definition evaluateReportIssue :: "CapabilityAssignment \<Rightarrow> Gate" where
  "evaluateReportIssue a =
    (if ca_status a = AS_COMPLETED then refuse REPORT_ISSUE ASSIGNMENT_COMPLETED None
     else if isAssignmentTerminal (Some (ca_status a)) then refuse REPORT_ISSUE ASSIGNMENT_CLOSED None
     else allow REPORT_ISSUE)"

section \<open>Expenses\<close>

definition EXPENSE_CLAIMABLE_STATUSES :: "AssignmentStatus list" where
  "EXPENSE_CLAIMABLE_STATUSES = [AS_CHECKED_IN, AS_IN_PROGRESS, AS_COMPLETED]"

definition PAY_SETTLED_STATUSES :: "AssayerPayableStatus list" where
  "PAY_SETTLED_STATUSES = [AP_APPROVED, AP_PAID]"

definition liveFeeBillId :: "CapabilityFeePayable option \<Rightarrow> string option" where
  "liveFeeBillId fp =
    (case fp of
       None \<Rightarrow> None
     | Some p \<Rightarrow> if \<not> isLivePayable (Some (fp_status p)) then None
                 else if assayerInvoiceId p = Some [] then None else assayerInvoiceId p)"

definition evaluateExpenseClaim :: "CapabilityAssignment \<Rightarrow> CapabilityFeePayable option \<Rightarrow> Gate" where
  "evaluateExpenseClaim a fp =
    (if ca_status a \<notin> set EXPENSE_CLAIMABLE_STATUSES then refuse CLAIM_EXPENSE EXPENSE_VISIT_NOT_STARTED None
     else if liveFeeBillId fp \<noteq> None then refuse CLAIM_EXPENSE EXPENSE_JOB_ALREADY_BILLED None
     else if (case fp of None \<Rightarrow> False
              | Some p \<Rightarrow> isLivePayable (Some (fp_status p)) \<and> fp_status p \<in> set PAY_SETTLED_STATUSES)
     then refuse CLAIM_EXPENSE EXPENSE_PAYOUT_ALREADY_APPROVED None
     else allow CLAIM_EXPENSE)"

definition SENT_BILL_STATUSES :: "AssayerInvoiceStatus list" where
  "SENT_BILL_STATUSES = [AI_SUBMITTED, AI_APPROVED, AI_HOD_APPROVED, AI_PAID]"

record ExpenseApprovalDecision =
  approval_allowed :: bool
  blocks :: "gate_code list"
  approval_code :: "gate_code option"

definition evaluateExpenseApproval :: "CapabilityAssignment \<Rightarrow> string \<Rightarrow> CapabilityFeePayable option
    \<Rightarrow> AssayerInvoiceStatus option \<Rightarrow> ExpenseApprovalDecision" where
  "evaluateExpenseApproval a claimAssayerId fp billStatus =
    (let bs = (if ca_status a = AS_CANCELLED then [EXPENSE_APPROVAL_ASSIGNMENT_CANCELLED] else [])
            @ (if ca_assayerId a \<noteq> Some claimAssayerId then [EXPENSE_APPROVAL_ASSAYER_REASSIGNED] else [])
            @ (if liveFeeBillId fp \<noteq> None \<and> (case billStatus of None \<Rightarrow> False | Some s \<Rightarrow> s \<in> set SENT_BILL_STATUSES)
               then [EXPENSE_APPROVAL_JOB_ON_SENT_BILL] else [])
     in if bs = [] then \<lparr> approval_allowed = True, blocks = [], approval_code = None \<rparr>
        else \<lparr> approval_allowed = False, blocks = bs, approval_code = Some (hd bs) \<rparr>)"

section \<open>The list the field app receives\<close>

definition relevantActions :: "CapabilityAssignment \<Rightarrow> AssignmentAction list" where
  "relevantActions a =
    (if ca_status a = AS_PENDING then [ACCEPT, DECLINE, REPORT_ISSUE]
     else if ca_status a \<in> {AS_ACCEPTED, AS_CHECKED_IN, AS_IN_PROGRESS} then
       (if ca_checkedInAt a = None then [CHECK_IN] else if ca_checkedOutAt a = None then [CHECK_OUT] else [])
       @ [SUBMIT_RETURN, CLAIM_EXPENSE, REPORT_ISSUE]
     else if ca_status a = AS_COMPLETED then [CLAIM_EXPENSE]
     else [])"

record CapabilityContext =
  callerAssayerId :: string
  ctx_assayer :: "CapabilityAssayer option"
  complianceBlockers :: "string list"
  ctx_now :: js_date
  dayRuleSuspended :: bool
  ctx_geofenceMeters :: rat
  ctx_arrivalRadiusMeters :: "js_number option"
  feePayable :: "CapabilityFeePayable option"
  leaveRuleSuspended :: "bool option"

text \<open>\<^verbatim>\<open>stripInternal\<close> keeps the keys of the contract, which are the fields of \<open>Gate\<close>.\<close>

definition stripInternal :: "Gate \<times> (string \<times> string) option \<Rightarrow> Gate" where
  "stripInternal g = fst g"

definition first_refusal :: "Gate list \<Rightarrow> Gate \<Rightarrow> Gate" where
  "first_refusal gs d = nullish_value (List.find (\<lambda>g. \<not> allowed g) gs) d"

definition evaluateAction :: "CapabilityAssignment \<Rightarrow> CapabilityContext \<Rightarrow> AssignmentAction \<Rightarrow> Gate" where
  "evaluateAction a ctx action =
    (let owned = evaluateOwnership action (Some a) (Some (callerAssayerId ctx))
     in if \<not> allowed owned then owned
        else case action of
          ACCEPT \<Rightarrow> evaluateAcceptOffer a (ctx_assayer ctx) (complianceBlockers ctx)
                      (nullish_value (leaveRuleSuspended ctx) False) None
        | DECLINE \<Rightarrow> evaluateDeclineOffer a
        | CHECK_IN \<Rightarrow> first_refusal
            [evaluateCheckInState (ca_status a), evaluateFieldWorkStanding (ctx_assayer ctx),
             stripInternal (evaluateCheckInDay (scheduledDate a) (ctx_now ctx) (dayRuleSuspended ctx))]
            (allow action)
        | CHECK_OUT \<Rightarrow> evaluateCheckOut a
        | SUBMIT_RETURN \<Rightarrow> evaluateSubmitReturnForAssayer a
        | CLAIM_EXPENSE \<Rightarrow> evaluateExpenseClaim a (feePayable ctx)
        | REPORT_ISSUE \<Rightarrow> evaluateReportIssue a)"

definition buildAssignmentCapabilities :: "CapabilityAssignment \<Rightarrow> CapabilityContext \<Rightarrow> AssignmentCapabilities" where
  "buildAssignmentCapabilities a ctx =
    (let actions = relevantActions a
     in \<lparr> cap_actions = map (evaluateAction a ctx) actions,
          checkInZone = (if CHECK_IN \<in> set actions
            then checkInZoneFor (ca_branch a) (ctx_geofenceMeters ctx) (ctx_arrivalRadiusMeters ctx) else None) \<rparr>)"

lemmas gate_defs = evaluateOwnership_def evaluateAcceptOffer_def evaluateDeclineOffer_def evaluateCheckInDay_def
  evaluateCheckInNotClosed_def evaluateCheckInState_def evaluateFieldWorkStanding_def evaluateCheckOutNotClosed_def
  evaluateCheckOut_def evaluateSubmitReturn_def evaluateSubmitReturnForAssayer_def evaluateReportIssue_def
  evaluateExpenseClaim_def Let_def

section \<open>What each gate means\<close>

lemma allow_simps [simp]: "allowed (allow a)" "gate_action (allow a) = a" "opensAt (allow a) = None"
  by (simp_all add: allow_def)

lemma refuse_simps [simp]: "\<not> allowed (refuse a c d)" "gate_action (refuse a c d) = a"
  "gate_code (refuse a c d) = Some c" "opensAt (refuse a c d) = d"
  by (simp_all add: refuse_def)

lemma ownership_iff:
  "allowed (evaluateOwnership act (Some a) (Some c)) \<longleftrightarrow> c \<noteq> [] \<and> ca_assayerId a = Some c"
  by (auto simp: evaluateOwnership_def)

lemma check_in_state_iff: "allowed (evaluateCheckInState s) \<longleftrightarrow> canTransitionAssignment s AS_CHECKED_IN"
  by (cases s) (simp_all add: evaluateCheckInState_def evaluateCheckInNotClosed_def Let_def table_defs)

lemma check_out_iff:
  "allowed (evaluateCheckOut a) \<longleftrightarrow> ca_status a \<notin> {AS_CANCELLED, AS_COMPLETED} \<and> ca_checkedInAt a \<noteq> None"
  by (auto simp: evaluateCheckOut_def evaluateCheckOutNotClosed_def Let_def)

lemma return_iff:
  "allowed (evaluateSubmitReturnForAssayer a) \<longleftrightarrow>
     ca_status a \<notin> {AS_COMPLETED, AS_REJECTED, AS_CANCELLED} \<and> ca_checkedInAt a \<noteq> None \<and> ca_checkedOutAt a \<noteq> None"
  by (auto simp: evaluateSubmitReturnForAssayer_def evaluateSubmitReturn_def isAssignmentTerminal_def
      ASSIGNMENT_TERMINAL_STATUSES_def Let_def)

lemma report_iff: "allowed (evaluateReportIssue a) \<longleftrightarrow> ca_status a \<notin> {AS_COMPLETED, AS_REJECTED, AS_CANCELLED}"
  by (auto simp: evaluateReportIssue_def isAssignmentTerminal_def ASSIGNMENT_TERMINAL_STATUSES_def)

lemma first_refusal_allowed:
  "allowed d \<Longrightarrow> allowed (first_refusal gs d) \<longleftrightarrow> (\<forall>g \<in> set gs. allowed g)"
  by (induction gs) (auto simp: first_refusal_def)

definition leave_covers :: "string \<Rightarrow> leave_range \<Rightarrow> bool" where
  "leave_covers key l \<longleftrightarrow>
     (let start = take 10 (nullish_value (fst l) []); upto = take 10 (nullish_value (snd l) [])
      in start \<noteq> [] \<and> upto \<noteq> [] \<and> \<not> js_less key start \<and> \<not> js_less upto key)"

definition on_leave :: "leave_range list option \<Rightarrow> js_date option \<Rightarrow> bool" where
  "on_leave lvs day \<longleftrightarrow> (\<exists>d ls. day = Some d \<and> lvs = Some ls \<and> businessDateKey d \<noteq> []
      \<and> list_ex (leave_covers (businessDateKey d)) ls)"

lemma leave_scan_iff: "leave_scan key ls = None \<longleftrightarrow> \<not> list_ex (leave_covers key) ls"
  by (induction ls) (auto simp: Let_def leave_covers_def)

lemma leaveCovering_iff: "leaveCovering lvs day = None \<longleftrightarrow> \<not> on_leave lvs day"
proof (cases "\<exists>d ls. day = Some d \<and> lvs = Some ls \<and> businessDateKey d \<noteq> []")
  case True
  then obtain d ls where "day = Some d" "lvs = Some ls" "businessDateKey d \<noteq> []" by blast
  then show ?thesis by (auto simp: leaveCovering_def on_leave_def leave_scan_iff)
next
  case False
  then show ?thesis by (auto simp: leaveCovering_def on_leave_def split: option.splits)
qed

definition standing_ok :: "CapabilityAssayer option \<Rightarrow> bool" where
  "standing_ok y \<longleftrightarrow> (\<forall>x. y = Some x \<longrightarrow> cy_status x = None \<or> cy_status x = Some AY_ACTIVE \<and> cy_isActive x \<noteq> Some False)"

lemma accept_iff:
  "allowed (evaluateAcceptOffer a y bl sus d) \<longleftrightarrow>
     standing_ok y \<and> bl = [] \<and> canTransitionAssignment (ca_status a) AS_ACCEPTED
     \<and> (sus \<or> \<not> on_leave (Option.bind y leaves) (nullish d (scheduledDate a)))"
  by (auto simp: evaluateAcceptOffer_def standing_ok_def leaveCovering_iff split: option.splits)

lemma field_standing_iff:
  "allowed (evaluateFieldWorkStanding y) \<longleftrightarrow> (\<exists>x. y = Some x \<and> cy_status x = Some AY_ACTIVE \<and> cy_isActive x \<noteq> Some False)"
  by (auto simp: evaluateFieldWorkStanding_def split: option.splits)

lemma claim_iff:
  "allowed (evaluateExpenseClaim a fp) \<longleftrightarrow> ca_status a \<in> {AS_CHECKED_IN, AS_IN_PROGRESS, AS_COMPLETED}
     \<and> (\<forall>p. fp = Some p \<longrightarrow> fp_status p = AP_VOIDED
             \<or> fp_status p = AP_PENDING \<and> (assayerInvoiceId p = None \<or> assayerInvoiceId p = Some []))"
proof (cases fp)
  case (Some p)
  show ?thesis by (cases "fp_status p")
    (auto simp: Some evaluateExpenseClaim_def EXPENSE_CLAIMABLE_STATUSES_def PAY_SETTLED_STATUSES_def liveFeeBillId_def
      isLivePayable_def DEAD_PAYABLE_STATUSES_def)
qed (simp add: evaluateExpenseClaim_def EXPENSE_CLAIMABLE_STATUSES_def liveFeeBillId_def)

lemma first_refusal_cases: "first_refusal gs d = d \<or> first_refusal gs d \<in> set gs"
  by (induction gs) (auto simp: first_refusal_def)

text \<open>A gate is well formed for an action when it answers that action and a refusal says why.\<close>

definition gate_for :: "AssignmentAction \<Rightarrow> Gate \<Rightarrow> bool" where
  "gate_for x g \<longleftrightarrow> gate_action g = x \<and> (allowed g \<longleftrightarrow> gate_code g = None)
     \<and> (opensAt g \<noteq> None \<longrightarrow> x = CHECK_IN \<and> gate_code g = Some NOT_SCHEDULED_TODAY)"

lemma gate_for_intros [simp]: "gate_for x (allow x)" "gate_for x (refuse x c None)"
  "gate_for CHECK_IN (refuse CHECK_IN NOT_SCHEDULED_TODAY d)"
  by (simp_all add: gate_for_def allow_def refuse_def)

lemma evaluators_well_formed:
  "gate_for x (evaluateOwnership x as c)" "gate_for ACCEPT (evaluateAcceptOffer a y bl sus d)"
  "gate_for DECLINE (evaluateDeclineOffer a)" "gate_for CHECK_IN (evaluateCheckInState s)"
  "gate_for CHECK_IN (evaluateFieldWorkStanding y)" "gate_for CHECK_IN (fst (evaluateCheckInDay sd now sus))"
  "gate_for CHECK_OUT (evaluateCheckOut a)" "gate_for SUBMIT_RETURN (evaluateSubmitReturnForAssayer a)"
  "gate_for CLAIM_EXPENSE (evaluateExpenseClaim a fp)" "gate_for REPORT_ISSUE (evaluateReportIssue a)"
  by (auto simp: gate_defs split: option.splits)

lemma evaluateAction_well_formed: "gate_for x (evaluateAction a ctx x)"
proof (cases "allowed (evaluateOwnership x (Some a) (Some (callerAssayerId ctx)))")
  case True
  have "gate_for CHECK_IN (first_refusal [evaluateCheckInState (ca_status a), evaluateFieldWorkStanding (ctx_assayer ctx),
             stripInternal (evaluateCheckInDay (scheduledDate a) (ctx_now ctx) (dayRuleSuspended ctx))] (allow CHECK_IN))"
    (is "gate_for _ (first_refusal ?gs _)")
    using first_refusal_cases [of ?gs "allow CHECK_IN"] by (auto simp: stripInternal_def evaluators_well_formed)
  with True show ?thesis
    by (cases x) (simp_all add: evaluateAction_def evaluators_well_formed)
next
  case False
  then show ?thesis by (simp add: evaluateAction_def Let_def evaluators_well_formed)
qed

lemma evaluateAction_owned:
  "allowed (evaluateAction a ctx x) \<Longrightarrow> ca_assayerId a = Some (callerAssayerId ctx)"
  using ownership_iff [of x a "callerAssayerId ctx"] by (auto simp: evaluateAction_def Let_def split: if_splits)

lemma evaluateAction_check_in:
  "allowed (evaluateAction a ctx CHECK_IN) \<Longrightarrow> canTransitionAssignment (ca_status a) AS_CHECKED_IN"
  by (auto simp: evaluateAction_def Let_def first_refusal_allowed check_in_state_iff split: if_splits)

lemma completeAudit_no_reason:
  "refused (completeAudit e u None) \<longleftrightarrow>
     \<not> canTransitionAssignment (as_status e) AS_COMPLETED \<or> checkedInAt e = None \<or> checkedOutAt e = None"
  by (auto simp: refused_def completeAudit_def validateTransition_def Let_def)

lemma simple_moves_refused:
  "refused (acceptOffer e u) \<longleftrightarrow> \<not> canTransitionAssignment (as_status e) AS_ACCEPTED"
  "refused (rejectOffer e u r) \<longleftrightarrow> \<not> canTransitionAssignment (as_status e) AS_REJECTED"
  "refused (checkIn e u) \<longleftrightarrow> \<not> canTransitionAssignment (as_status e) AS_CHECKED_IN"
  by (auto simp: refused_def acceptOffer_def rejectOffer_def checkIn_def validateTransition_def)

section \<open>Properties\<close>

text \<open>The entity the machine moves has the facts the evaluators read.\<close>

definition same_job :: "CapabilityAssignment \<Rightarrow> AssignmentEntity \<Rightarrow> bool" where
  "same_job a e \<longleftrightarrow> as_status e = ca_status a \<and> checkedInAt e = ca_checkedInAt a \<and> checkedOutAt e = ca_checkedOutAt a"

text \<open>
  C5. What the field app is offered, the server does. An action the list sends as allowed belongs to the
  caller's own assignment, and the state machine accepts the move behind it: accepting, declining and
  checking in are not refused, and a return that is offered closes the job although the phone can state
  no reason. Checking out is offered only between arrival and departure, a problem can be reported only
  on an open job.
\<close>

theorem capabilities_match_machine:
  assumes g: "g \<in> set (cap_actions (buildAssignmentCapabilities a ctx))" and ok: "allowed g" and e: "same_job a e"
  shows "ca_assayerId a = Some (callerAssayerId ctx)
    \<and> (case gate_action g of
         ACCEPT \<Rightarrow> \<not> refused (acceptOffer e u)
       | DECLINE \<Rightarrow> \<not> refused (rejectOffer e u r)
       | CHECK_IN \<Rightarrow> \<not> refused (checkIn e u) \<and> checkedInAt e = None
       | CHECK_OUT \<Rightarrow> checkedInAt e \<noteq> None \<and> checkedOutAt e = None
       | SUBMIT_RETURN \<Rightarrow> \<not> refused (completeAudit e u None)
       | CLAIM_EXPENSE \<Rightarrow> as_status e \<in> {AS_CHECKED_IN, AS_IN_PROGRESS, AS_COMPLETED}
       | REPORT_ISSUE \<Rightarrow> \<not> isAssignmentTerminal (Some (as_status e)))"
proof -
  obtain x where x: "x \<in> set (relevantActions a)" and gx: "g = evaluateAction a ctx x"
    using g by (auto simp: buildAssignmentCapabilities_def Let_def)
  have act: "gate_action g = x" using evaluateAction_well_formed [of x a ctx] by (simp add: gx gate_for_def)
  have owned: "ca_assayerId a = Some (callerAssayerId ctx)" using ok unfolding gx by (rule evaluateAction_owned)
  have own: "allowed (evaluateOwnership x (Some a) (Some (callerAssayerId ctx)))"
    using ok by (auto simp: gx evaluateAction_def Let_def split: if_splits)
  have "case x of
         ACCEPT \<Rightarrow> \<not> refused (acceptOffer e u)
       | DECLINE \<Rightarrow> \<not> refused (rejectOffer e u r)
       | CHECK_IN \<Rightarrow> \<not> refused (checkIn e u) \<and> checkedInAt e = None
       | CHECK_OUT \<Rightarrow> checkedInAt e \<noteq> None \<and> checkedOutAt e = None
       | SUBMIT_RETURN \<Rightarrow> \<not> refused (completeAudit e u None)
       | CLAIM_EXPENSE \<Rightarrow> as_status e \<in> {AS_CHECKED_IN, AS_IN_PROGRESS, AS_COMPLETED}
       | REPORT_ISSUE \<Rightarrow> \<not> isAssignmentTerminal (Some (as_status e))"
  proof (cases x)
    case SUBMIT_RETURN
    then have "ca_status a \<in> {AS_ACCEPTED, AS_CHECKED_IN, AS_IN_PROGRESS}"
      using x by (auto simp: relevantActions_def split: if_splits)
    with SUBMIT_RETURN ok own e show ?thesis
      by (auto simp: gx evaluateAction_def return_iff same_job_def completeAudit_no_reason table_defs)
  qed (use ok own e x evaluateAction_check_in [of a ctx] in \<open>auto simp: gx evaluateAction_def accept_iff
      evaluateDeclineOffer_def check_out_iff claim_iff report_iff simple_moves_refused same_job_def
      relevantActions_def isAssignmentTerminal_def ASSIGNMENT_TERMINAL_STATUSES_def split: if_splits\<close>)
  with owned act show ?thesis by simp
qed

theorem capabilities_match_machine_witness:
  "let a = \<lparr> ca_status = AS_CHECKED_IN, ca_assayerId = Some ''a1'', ca_checkedInAt = Some 5, ca_checkedOutAt = Some 9,
             scheduledDate = None, ca_branch = None \<rparr>;
       ctx = \<lparr> callerAssayerId = ''a1'', ctx_assayer = None, complianceBlockers = [], ctx_now = Instant 10,
               dayRuleSuspended = False, ctx_geofenceMeters = 2000, ctx_arrivalRadiusMeters = None,
               feePayable = None, leaveRuleSuspended = None \<rparr>;
       e = \<lparr> as_status = AS_CHECKED_IN, checkedInAt = Some 5, checkedOutAt = Some 9, rejectReason = None,
             cancelReason = None, completionDate = None, completedWithoutCheckInReason = None,
             completedWithoutCheckOutReason = None, as_remarks = None \<rparr>
   in allow SUBMIT_RETURN \<in> set (cap_actions (buildAssignmentCapabilities a ctx)) \<and> \<not> refused (completeAudit e ''a1'' None)"
proof -
  define a where "a = \<lparr> ca_status = AS_CHECKED_IN, ca_assayerId = Some ''a1'', ca_checkedInAt = Some 5, ca_checkedOutAt = Some 9,
             scheduledDate = None, ca_branch = None \<rparr>"
  define ctx where "ctx = \<lparr> callerAssayerId = ''a1'', ctx_assayer = None, complianceBlockers = [], ctx_now = Instant 10,
               dayRuleSuspended = False, ctx_geofenceMeters = 2000, ctx_arrivalRadiusMeters = None,
               feePayable = None, leaveRuleSuspended = None \<rparr>"
  define e where "e = \<lparr> as_status = AS_CHECKED_IN, checkedInAt = Some 5, checkedOutAt = Some 9, rejectReason = None,
             cancelReason = None, completionDate = None, completedWithoutCheckInReason = None,
             completedWithoutCheckOutReason = None, as_remarks = None \<rparr>"
  have l: "allow SUBMIT_RETURN \<in> set (cap_actions (buildAssignmentCapabilities a ctx))"
    by (simp add: a_def ctx_def buildAssignmentCapabilities_def relevantActions_def evaluateAction_def gate_defs
        isAssignmentTerminal_def ASSIGNMENT_TERMINAL_STATUSES_def)
  have "same_job a e" by (simp add: same_job_def a_def e_def)
  from capabilities_match_machine [OF l _ this, of "''a1''" None] l
  show ?thesis unfolding Let_def a_def [symmetric] ctx_def [symmetric] e_def [symmetric] by simp
qed

text \<open>
  The shape of the list. Every listed action is listed once, each gate answers its own action, a
  refusal always carries a code and only a check-in refused for its day says when it opens; nothing is
  offered on a declined or cancelled job; looking up an action that is not listed says no.
\<close>

theorem capability_list_shape:
  "map gate_action (cap_actions (buildAssignmentCapabilities a ctx)) = relevantActions a
   \<and> distinct (relevantActions a)
   \<and> (\<forall>g \<in> set (cap_actions (buildAssignmentCapabilities a ctx)). gate_for (gate_action g) g)
   \<and> (relevantActions a = [] \<longleftrightarrow> ca_status a \<in> {AS_REJECTED, AS_CANCELLED})
   \<and> (allowed (gateFor (Some (cap_actions (buildAssignmentCapabilities a ctx))) x)
        \<longleftrightarrow> x \<in> set (relevantActions a) \<and> allowed (evaluateAction a ctx x))"
proof (intro conjI)
  have act: "gate_action (evaluateAction a ctx y) = y" for y
    using evaluateAction_well_formed [of y a ctx] by (simp add: gate_for_def)
  then show "map gate_action (cap_actions (buildAssignmentCapabilities a ctx)) = relevantActions a"
    by (simp add: buildAssignmentCapabilities_def Let_def comp_def)
  show "distinct (relevantActions a)" by (simp add: relevantActions_def)
  show "relevantActions a = [] \<longleftrightarrow> ca_status a \<in> {AS_REJECTED, AS_CANCELLED}"
    by (cases "ca_status a") (simp_all add: relevantActions_def)
  show "\<forall>g \<in> set (cap_actions (buildAssignmentCapabilities a ctx)). gate_for (gate_action g) g"
    using evaluateAction_well_formed act by (auto simp: buildAssignmentCapabilities_def Let_def)
  have "List.find (\<lambda>g. gate_action g = x) (map (evaluateAction a ctx) xs)
      = (if x \<in> set xs then Some (evaluateAction a ctx x) else None)" for xs
    by (induction xs) (auto simp: act)
  then show "allowed (gateFor (Some (cap_actions (buildAssignmentCapabilities a ctx))) x)
        \<longleftrightarrow> x \<in> set (relevantActions a) \<and> allowed (evaluateAction a ctx x)"
    by (simp add: gateFor_def buildAssignmentCapabilities_def Let_def)
qed

theorem capability_list_shape_witness:
  "\<not> allowed (gateFor (Some (cap_actions (buildAssignmentCapabilities
      \<lparr> ca_status = AS_CANCELLED, ca_assayerId = Some ''a1'', ca_checkedInAt = None, ca_checkedOutAt = None,
        scheduledDate = None, ca_branch = None \<rparr>
      \<lparr> callerAssayerId = ''a1'', ctx_assayer = None, complianceBlockers = [], ctx_now = Instant 10,
        dayRuleSuspended = False, ctx_geofenceMeters = 2000, ctx_arrivalRadiusMeters = None,
        feePayable = None, leaveRuleSuspended = None \<rparr>))) CHECK_IN)"
  by (subst capability_list_shape [THEN conjunct2, THEN conjunct2, THEN conjunct2, THEN conjunct2])
    (simp add: relevantActions_def)

text \<open>
  When check-in opens. A check-in before the scheduled day is refused, and the instant it names as its
  opening is in the future and exact: from that instant, for the twenty-four hours of the scheduled
  Indian day and at no other time, the day no longer stands in the way.
\<close>

theorem check_in_opens_exactly:
  assumes early: "ist_day now < ist_day s" and y: "four_digit_year (ist_day s)"
  shows "\<exists>opening. fst (evaluateCheckInDay (Some (Instant s)) (Instant now) False)
            = refuse CHECK_IN NOT_SCHEDULED_TODAY (Some opening)
          \<and> now < opening
          \<and> (\<forall>t. four_digit_year (ist_day t) \<longrightarrow>
                (allowed (fst (evaluateCheckInDay (Some (Instant s)) (Instant t) False))
                   \<longleftrightarrow> opening \<le> t \<and> t < opening + DAY_MS))"
proof (intro exI conjI allI impI)
  let ?n = "ist_day s"
  let ?o = "?n * DAY_MS - IST_OFFSET_MS"
  have n: "0 < ?n" using early by simp
  have yn: "four_digit_year (ist_day now)" using four_digit_year_mono [of "ist_day now" ?n] early y by simp
  show "fst (evaluateCheckInDay (Some (Instant s)) (Instant now) False)
            = refuse CHECK_IN NOT_SCHEDULED_TODAY (Some ?o)"
    using early y yn by (simp add: evaluateCheckInDay_def Let_def date_key_inject date_key_less istDayStart_key)
  show "now < ?o" using ist_day_start [OF n, of now] early by (simp add: not_le [symmetric])
  fix t
  assume t: "four_digit_year (ist_day t)"
  have next_day: "?o + DAY_MS = Suc ?n * DAY_MS - IST_OFFSET_MS"
    using n by (simp add: DAY_MS_def IST_OFFSET_MS_def)
  have "allowed (fst (evaluateCheckInDay (Some (Instant s)) (Instant t) False)) \<longleftrightarrow> ist_day t = ?n"
    using t y by (simp add: evaluateCheckInDay_def Let_def date_key_inject)
  also have "\<dots> \<longleftrightarrow> ?n \<le> ist_day t \<and> \<not> Suc ?n \<le> ist_day t" by auto
  also have "\<dots> \<longleftrightarrow> ?o \<le> t \<and> t < ?o + DAY_MS"
    unfolding next_day using ist_day_start [OF n, of t] ist_day_start [of "Suc ?n" t] by auto
  finally show "allowed (fst (evaluateCheckInDay (Some (Instant s)) (Instant t) False)) \<longleftrightarrow> ?o \<le> t \<and> t < ?o + DAY_MS" .
qed

theorem check_in_opens_exactly_witness:
  "\<exists>opening. fst (evaluateCheckInDay (Some (Instant (20000 * 86400000))) (Instant (19998 * 86400000)) False)
            = refuse CHECK_IN NOT_SCHEDULED_TODAY (Some opening) \<and> 19998 * 86400000 < opening"
proof -
  have "ist_day (19998 * 86400000) = 19998" "ist_day (20000 * 86400000) = 20000"
    by (simp_all add: ist_day_def DAY_MS_def IST_OFFSET_MS_def)
  moreover have "four_digit_year 20000"
    by (simp add: four_digit_year_def civil_date_def civil_year.simps year_days_def leap_year_def Let_def split_def)
  ultimately show ?thesis
    using check_in_opens_exactly [of "19998 * 86400000" "20000 * 86400000"] by auto
qed

lemma accuracy_idem [simp]: "accuracy_metres (Some (Num (accuracy_metres x))) = accuracy_metres x"
  by (simp add: accuracy_metres_def)

lemma position_iff:
  "branch_point b = Some p \<Longrightarrow> allowed (fst (evaluateCheckInPosition f acc b g)) \<longleftrightarrow>
     of_int (metersFromBranch f p) \<le> checkInAllowanceMeters g acc (Option.bind b geoAccuracyMeters)"
  by (simp add: evaluateCheckInPosition_def Let_def checkInAllowanceMeters_def)

lemma allowance_ge: "g \<le> checkInAllowanceMeters g acc ba"
  by (simp add: checkInAllowanceMeters_def accuracy_metres_def MAX_DEVICE_ACCURACY_ALLOWANCE_M_def)

text \<open>
  One zone, one answer. At a branch with usable coordinates the position check of the route lets a fix
  through exactly when the same fix in the trail would confirm an arrival; a fix within the radius sent
  to the phone is always let through, and the smaller arrival circle never reaches past that radius. A
  branch without coordinates is not measured at all.
\<close>

theorem position_and_trail_agree:
  assumes zone: "z = checkInZoneFor b g ar"
  shows "(branch_point b = Some p \<longrightarrow> geofenceMeters i = g \<longrightarrow> branchAccuracyMeters i = Option.bind b geoAccuracyMeters \<longrightarrow>
     (allowed (fst (evaluateCheckInPosition f acc b g)) \<longleftrightarrow>
        fix_corroborates i p t \<lparr> fix_latitude = Num (latitude f), fix_longitude = Num (longitude f),
          accuracyMeters = acc, recordedAt = Instant t, isMocked = False \<rparr>))
   \<and> (branch_point b = None \<longleftrightarrow> z = None)
   \<and> (z = None \<longrightarrow> evaluateCheckInPosition f acc b g = (allow CHECK_IN, None))
   \<and> (z = Some zz \<longrightarrow>
        (of_int (metersFromBranch f \<lparr> latitude = zone_latitude zz, longitude = zone_longitude zz \<rparr>) \<le> radiusMeters zz
           \<longrightarrow> allowed (fst (evaluateCheckInPosition f acc b g)))
        \<and> (\<forall>r. arrivalRadiusMeters zz = Some r \<longrightarrow> r \<le> radiusMeters zz))"
proof (cases "branch_point b")
  case None
  then show ?thesis by (simp add: zone checkInZoneFor_def evaluateCheckInPosition_def)
next
  case (Some q)
  have f: "\<lparr> latitude = latitude f, longitude = longitude f \<rparr> = f" and q: "\<lparr> latitude = latitude q, longitude = longitude q \<rparr> = q"
    by simp_all
  show ?thesis
    using Some position_iff [OF Some, of f acc g] allowance_ge [of g acc "Option.bind b geoAccuracyMeters"]
    by (auto simp: zone checkInZoneFor_def fix_corroborates_def f q split: option.splits js_number.splits if_splits)
qed

theorem position_and_trail_agree_witness:
  "let b = Some \<lparr> pin_latitude = Some (Num 19), pin_longitude = Some (Num 73), geoAccuracyMeters = None \<rparr>;
       f = \<lparr> latitude = 19, longitude = 73 \<rparr>
   in allowed (fst (evaluateCheckInPosition f None b 2000))
      \<and> checkInZoneFor b 2000 (Some (Num 3000)) = Some \<lparr> zone_latitude = 19, zone_longitude = 73,
          radiusMeters = 2000, arrivalRadiusMeters = Some 2000 \<rparr>"
proof -
  let ?b = "Some \<lparr> pin_latitude = Some (Num 19), pin_longitude = Some (Num 73), geoAccuracyMeters = None \<rparr>"
  let ?z = "\<lparr> zone_latitude = 19, zone_longitude = 73, radiusMeters = 2000, arrivalRadiusMeters = Some 2000 \<rparr>"
  have z: "checkInZoneFor ?b 2000 (Some (Num 3000)) = Some ?z"
    by (simp add: checkInZoneFor_def branch_point_def usableBranchPoint_def)
  with position_and_trail_agree [OF refl, where b = ?b and g = 2000 and ar = "Some (Num 3000)"
      and f = "\<lparr> latitude = 19, longitude = 73 \<rparr>" and acc = None and zz = ?z]
  show ?thesis by (simp add: Let_def)
qed

text \<open>
  Who can accept which job. An offer can be accepted exactly when the assayer is in standing, no
  compliance hold is open, the table allows the move and the date of the job is not on recorded leave.
  For leave written with calendar keys, as stored, the comparison of keys is the comparison of days, both
  ends included.
\<close>

theorem accept_gate_exact:
  assumes "four_digit_year l" "four_digit_year u" "four_digit_year (ist_day s)"
    and y: "y = Some \<lparr> cy_status = st, cy_isActive = act, leaves = Some [(Some (date_key l), Some (date_key u))] \<rparr>"
  shows "allowed (evaluateAcceptOffer a y bl sus (Some (Instant s))) \<longleftrightarrow>
      (st = None \<or> st = Some AY_ACTIVE \<and> act \<noteq> Some False) \<and> bl = []
      \<and> ca_status a \<in> {AS_PENDING, AS_ACCEPTED}
      \<and> (sus \<or> ist_day s < l \<or> u < ist_day s)"
proof -
  have "on_leave (Some [(Some (date_key l), Some (date_key u))]) (Some (Instant s)) \<longleftrightarrow> l \<le> ist_day s \<and> ist_day s \<le> u"
    using assms(1-3) by (simp add: on_leave_def leave_covers_def Let_def date_key_take date_key_less not_less)
  moreover have "canTransitionAssignment (ca_status a) AS_ACCEPTED \<longleftrightarrow> ca_status a \<in> {AS_PENDING, AS_ACCEPTED}"
    by (cases "ca_status a") (simp_all add: table_defs)
  ultimately show ?thesis
    unfolding accept_iff y by (auto simp: standing_ok_def)
qed

theorem accept_gate_exact_witness:
  "let y = Some \<lparr> cy_status = Some AY_ACTIVE, cy_isActive = Some True, leaves = Some [(Some (date_key 20000), Some (date_key 20002))] \<rparr>;
       a = \<lparr> ca_status = AS_PENDING, ca_assayerId = None, ca_checkedInAt = None, ca_checkedOutAt = None,
             scheduledDate = None, ca_branch = None \<rparr>
   in \<not> allowed (evaluateAcceptOffer a y [] False (Some (Instant (20002 * 86400000))))
      \<and> allowed (evaluateAcceptOffer a y [] False (Some (Instant (20003 * 86400000))))"
proof -
  have y: "four_digit_year 20010"
    by (simp add: four_digit_year_def civil_date_def civil_year.simps year_days_def leap_year_def Let_def split_def)
  have "four_digit_year 20000" "four_digit_year 20002" "four_digit_year 20003" by (rule four_digit_year_mono [OF _ y], simp)+
  moreover have "ist_day (20002 * 86400000) = 20002" "ist_day (20003 * 86400000) = 20003"
    by (simp_all add: ist_day_def DAY_MS_def IST_OFFSET_MS_def)
  ultimately show ?thesis
    using accept_gate_exact [of 20000 20002 "20002 * 86400000", OF _ _ _ refl]
      accept_gate_exact [of 20000 20002 "20003 * 86400000", OF _ _ _ refl] by (simp add: Let_def)
qed

text \<open>
  Claims before billing. A claim is allowed exactly on a visit that has begun whose live fee is
  neither on a bill nor approved or paid; a voided fee of an earlier completion never stands in the way.
  The desk can approve a claim exactly when the job is not cancelled, the claimant still holds it and it
  is not on a bill already sent; every obstacle is listed and the first gives the code. A claim the
  holder may make can always be approved at once.
\<close>

theorem expense_rules_exact:
  "(allowed (evaluateExpenseClaim a fp) \<longleftrightarrow> ca_status a \<in> {AS_CHECKED_IN, AS_IN_PROGRESS, AS_COMPLETED}
      \<and> (case fp of None \<Rightarrow> True | Some p \<Rightarrow> fp_status p = AP_VOIDED
             \<or> fp_status p = AP_PENDING \<and> (assayerInvoiceId p = None \<or> assayerInvoiceId p = Some [])))
   \<and> (approval_allowed (evaluateExpenseApproval a cl fp bill) \<longleftrightarrow>
        ca_status a \<noteq> AS_CANCELLED \<and> ca_assayerId a = Some cl
        \<and> \<not> (liveFeeBillId fp \<noteq> None \<and> bill \<in> Some ` {AI_SUBMITTED, AI_APPROVED, AI_HOD_APPROVED, AI_PAID}))
   \<and> approval_code (evaluateExpenseApproval a cl fp bill) =
        (case blocks (evaluateExpenseApproval a cl fp bill) of [] \<Rightarrow> None | c # cs \<Rightarrow> Some c)
   \<and> (approval_allowed (evaluateExpenseApproval a cl fp bill) \<longleftrightarrow> blocks (evaluateExpenseApproval a cl fp bill) = [])
   \<and> (if allowed (evaluateExpenseClaim a fp) \<and> ca_assayerId a = Some cl
      then approval_allowed (evaluateExpenseApproval a cl fp bill) else True)"
proof (intro conjI)
  show appr: "approval_allowed (evaluateExpenseApproval a cl fp bill) \<longleftrightarrow>
        ca_status a \<noteq> AS_CANCELLED \<and> ca_assayerId a = Some cl
        \<and> \<not> (liveFeeBillId fp \<noteq> None \<and> bill \<in> Some ` {AI_SUBMITTED, AI_APPROVED, AI_HOD_APPROVED, AI_PAID})"
    by (auto simp: evaluateExpenseApproval_def Let_def SENT_BILL_STATUSES_def split: option.splits)
  show "if allowed (evaluateExpenseClaim a fp) \<and> ca_assayerId a = Some cl
      then approval_allowed (evaluateExpenseApproval a cl fp bill) else True"
    unfolding appr by (auto simp: evaluateExpenseClaim_def EXPENSE_CLAIMABLE_STATUSES_def split: if_splits)
qed (auto simp: claim_iff evaluateExpenseApproval_def Let_def split: option.splits list.splits)

text \<open>
  The comment on \<^verbatim>\<open>relevantActions\<close> says that an action whose answer can only be no is not listed. On an
  accepted job the expense claim is listed, and its answer there is always no.
\<close>

lemma claim_listed_yet_never_allowed:
  "ca_status a = AS_ACCEPTED \<Longrightarrow> CLAIM_EXPENSE \<in> set (relevantActions a) \<and> \<not> allowed (evaluateExpenseClaim a fp)"
  by (simp add: relevantActions_def claim_iff)

end
