(* ===== verification/Client_Invoices.thy ===== *)
theory Client_Invoices
  imports Assignment_Money "HOL-Library.List_Lexorder" "HOL-Library.Char_ord"
begin

text \<open>
  The client's side of the ledger in \<^verbatim>\<open>modules/billing-engine/billing-engine.service.ts\<close>: making an
  invoice from completed work, the final approval by the head of department, sending it, collecting and
  reversing payments, and cancelling it. The tables are lists in the order of insertion; each operation
  is the body of one transaction, so a refusal or a failing write leaves the tables as they were. Only
  the record of a refused or warned self-approval is written outside the transaction and stays. Dates
  other than the issue date, currency, notes and names are left out, and so is the announcement of the
  change. The payments are the inbound rows of \<^verbatim>\<open>billing_payments\<close>.
\<close>

section \<open>Tables\<close>

datatype InvoiceStatus = IV_DRAFT | IV_AWAITING_HOD | IV_HOD_APPROVED | IV_ISSUED | IV_PAID | IV_CANCELLED

primrec invoiceStatusValue :: "InvoiceStatus \<Rightarrow> string" where
  "invoiceStatusValue IV_DRAFT = ''DRAFT''"
| "invoiceStatusValue IV_AWAITING_HOD = ''AWAITING_HOD''"
| "invoiceStatusValue IV_HOD_APPROVED = ''HOD_APPROVED''"
| "invoiceStatusValue IV_ISSUED = ''ISSUED''"
| "invoiceStatusValue IV_PAID = ''PAID''"
| "invoiceStatusValue IV_CANCELLED = ''CANCELLED''"

record BillingEntryEntity =
  en_id :: string
  en_assignmentId :: string
  en_clientId :: string
  en_state :: BillingState
  en_onHold :: bool
  en_isActive :: bool
  en_base :: rat
  en_travel :: rat
  en_adjustment :: rat
  en_taxRate :: rat
  en_tdsRate :: rat
  en_taxable :: rat
  en_tax :: rat
  en_tds :: rat
  en_total :: rat
  en_paid :: rat
  en_outstanding :: rat
  en_invoiceId :: "string option"

record BillingInvoiceEntity =
  iv_id :: string
  iv_number :: string
  iv_clientId :: string
  iv_status :: InvoiceStatus
  iv_issueDate :: string
  iv_subtotal :: rat
  iv_tax :: rat
  iv_tds :: rat
  iv_total :: rat
  iv_paid :: rat
  iv_outstanding :: rat
  iv_createdBy :: "string option"
  hodRequestedBy :: "string option"
  hodApprovedBy :: "string option"
  hodRejectedBy :: "string option"
  hodRejectReason :: "string option"

record BillingPaymentEntity =
  pm_id :: string
  pm_invoiceId :: string
  pm_reference :: string
  pm_amount :: rat
  pm_isActive :: bool

record billing_history =
  bh_entityType :: string
  bh_entityId :: string
  bh_action :: string
  bh_fromState :: "string option"
  bh_toState :: "string option"
  bh_reason :: "string option"
  bh_userId :: string

record billing_audit =
  ba_eventType :: string
  ba_entityId :: string
  ba_previousState :: "string option"
  ba_newState :: "string option"
  ba_userId :: string

record billing_db =
  db_entries :: "BillingEntryEntity list"
  db_invoices :: "BillingInvoiceEntity list"
  db_payments :: "BillingPaymentEntity list"
  number_series :: "string \<rightharpoonup> nat"
  db_history :: "billing_history list"
  db_audit :: "billing_audit list"

datatype sod_mode = SOD_off | SOD_warn | SOD_enforce

text \<open>
  What a call gets from outside: a fresh identifier, today's key, the reading of a date that is no key,
  the saved mode of the segregation of duties (none when the settings cannot be read), whether the separate audit write works, and the error of the
  first failing write of the transaction, if one fails.
\<close>

record billing_env =
  be_newId :: string
  be_today :: string
  be_indianDay :: "string \<Rightarrow> string option"
  be_sodSetting :: "string option"
  be_auditWorks :: bool
  be_writeFault :: "string option"

text \<open>The mode in force: anything but a saved warn or off enforces; the shipped default is to enforce.\<close>

definition sodMode :: "string option \<Rightarrow> sod_mode" where
  "sodMode setting =
    (let mode = nullish_value setting ''enforce''
     in if mode = ''warn'' then SOD_warn else if mode = ''off'' then SOD_off else SOD_enforce)"

abbreviation be_sodMode :: "billing_env \<Rightarrow> sod_mode" where
  "be_sodMode env \<equiv> sodMode (be_sodSetting env)"

datatype billing_refusal =
    PickAtLeastOne
  | NoClientLine "string list"
  | DifferentClient nat
  | LinesOnHold "string list"
  | AlreadyInvoiced "string list"
  | InvoiceNotFound string
  | AwaitingHod InvoiceStatus
  | WrongInvoiceStatus InvoiceStatus
  | SegregationOfDuties
  | RejectReasonProblem reject_reason_problem
  | SayWhyCancelled
  | CollectedAgainst rat
  | AmountNotPositive
  | NotSentYet
  | ExceedsOutstanding rat rat
  | SayWhyReversed
  | PaymentNotFound string
  | AlreadyReversed
  | BillingThrown string

type_synonym ('a) billing_result = "billing_db \<times> (billing_refusal, 'a) result"

section \<open>Reading and writing rows\<close>

definition lockInvoice :: "billing_db \<Rightarrow> string \<Rightarrow> BillingInvoiceEntity option" where
  "lockInvoice db i = List.find (\<lambda>v. iv_id v = i) (db_invoices db)"

definition lockEntriesByInvoice :: "billing_db \<Rightarrow> string \<Rightarrow> BillingEntryEntity list" where
  "lockEntriesByInvoice db i = sort_key en_id (filter (\<lambda>e. en_invoiceId e = Some i) (db_entries db))"

definition save_invoice :: "BillingInvoiceEntity \<Rightarrow> billing_db \<Rightarrow> billing_db" where
  "save_invoice v db = db\<lparr> db_invoices := map (\<lambda>w. if iv_id w = iv_id v then v else w) (db_invoices db) \<rparr>"

definition save_entries :: "BillingEntryEntity list \<Rightarrow> billing_db \<Rightarrow> billing_db" where
  "save_entries es db = db\<lparr> db_entries :=
     map (\<lambda>e. nullish_value (List.find (\<lambda>f. en_id f = en_id e) es) e) (db_entries db) \<rparr>"

definition add_history :: "billing_history list \<Rightarrow> billing_db \<Rightarrow> billing_db" where
  "add_history hs db = db\<lparr> db_history := db_history db @ hs \<rparr>"

definition add_audit :: "billing_audit \<Rightarrow> billing_db \<Rightarrow> billing_db" where
  "add_audit a db = db\<lparr> db_audit := db_audit db @ [a] \<rparr>"

text \<open>
  The transaction. The column type \<^verbatim>\<open>decimal(14,2)\<close> holds numbers below \<open>10 ^ 12\<close>; a larger one makes the
  write throw, as does a second row with the same primary key, or a payment whose amount is not positive.
\<close>

definition inTx :: "billing_env \<Rightarrow> billing_db \<Rightarrow> (billing_refusal, billing_db \<times> 'a) result \<Rightarrow> 'a billing_result" where
  "inTx env db work =
    (case work of
       Inl err \<Rightarrow> (db, Inl err)
     | Inr (db', v) \<Rightarrow> (case be_writeFault env of Some err \<Rightarrow> (db, Inl (BillingThrown err)) | None \<Rightarrow> (db', Inr v)))"

definition fits_decimal :: "rat \<Rightarrow> bool" where
  "fits_decimal x \<longleftrightarrow> \<bar>x\<bar> < 10 ^ 12"

definition invoice_history :: "BillingInvoiceEntity \<Rightarrow> string \<Rightarrow> InvoiceStatus option \<Rightarrow> InvoiceStatus \<Rightarrow> string option
    \<Rightarrow> string \<Rightarrow> billing_history" where
  "invoice_history v action prev next why userId =
    \<lparr> bh_entityType = ''INVOICE'', bh_entityId = iv_id v, bh_action = action,
      bh_fromState = map_option invoiceStatusValue prev, bh_toState = Some (invoiceStatusValue next),
      bh_reason = why, bh_userId = userId \<rparr>"

definition entry_history :: "BillingEntryEntity \<Rightarrow> string \<Rightarrow> BillingState \<Rightarrow> BillingState \<Rightarrow> string option \<Rightarrow> string
    \<Rightarrow> billing_history" where
  "entry_history e action prev next why userId =
    \<lparr> bh_entityType = ''ENTRY'', bh_entityId = en_id e, bh_action = action,
      bh_fromState = Some (billingStateValue prev), bh_toState = Some (billingStateValue next),
      bh_reason = why, bh_userId = userId \<rparr>"

definition payment_history :: "string \<Rightarrow> string \<Rightarrow> InvoiceStatus \<Rightarrow> InvoiceStatus \<Rightarrow> string option \<Rightarrow> string
    \<Rightarrow> billing_history" where
  "payment_history i action prev next why userId =
    \<lparr> bh_entityType = ''PAYMENT'', bh_entityId = i, bh_action = action,
      bh_fromState = Some (invoiceStatusValue prev), bh_toState = Some (invoiceStatusValue next),
      bh_reason = why, bh_userId = userId \<rparr>"

definition status_audit :: "string \<Rightarrow> string \<Rightarrow> InvoiceStatus \<Rightarrow> InvoiceStatus \<Rightarrow> string \<Rightarrow> billing_audit" where
  "status_audit kind i prev next userId =
    \<lparr> ba_eventType = kind, ba_entityId = i, ba_previousState = Some (invoiceStatusValue prev),
      ba_newState = Some (invoiceStatusValue next), ba_userId = userId \<rparr>"

section \<open>Making an invoice\<close>

definition nextClientInvoiceNumber :: "billing_env \<Rightarrow> billing_db \<Rightarrow> string
    \<Rightarrow> (billing_refusal, billing_db \<times> string) result" where
  "nextClientInvoiceNumber env db issueDate =
    (case indianFinancialYear (be_indianDay env) issueDate of
       Inl err \<Rightarrow> Inl (BillingThrown err)
     | Inr fy \<Rightarrow>
        (let serial = Suc (nullish_value (number_series db (fy_label fy)) 0)
         in case formatClientInvoiceNumber (fy_label fy) (int serial) of
              Inl _ \<Rightarrow> Inl (BillingThrown ''Invoice serial is outside the series'')
            | Inr number \<Rightarrow> Inr (db\<lparr> number_series := (number_series db)(fy_label fy \<mapsto> serial) \<rparr>, number)))"

definition js_dedupe :: "string list \<Rightarrow> string list" where
  "js_dedupe xs = rev (remdups (rev xs))"

definition lines_for :: "billing_db \<Rightarrow> string list \<Rightarrow> BillingEntryEntity list" where
  "lines_for db ids = sort_key en_id
     (filter (\<lambda>e. en_assignmentId e \<in> set ids \<and> en_isActive e \<and> isLiveBillingEntry (Some (en_state e))) (db_entries db))"

definition create_refusal :: "string \<Rightarrow> string list \<Rightarrow> BillingEntryEntity list \<Rightarrow> billing_refusal option" where
  "create_refusal clientId ids es =
    (if length es \<noteq> length ids
     then Some (NoClientLine (filter (\<lambda>i. i \<notin> en_assignmentId ` set es) ids))
     else if list_ex (\<lambda>e. en_clientId e \<noteq> clientId) es
     then Some (DifferentClient (length (filter (\<lambda>e. en_clientId e \<noteq> clientId) es)))
     else if list_ex en_onHold es then Some (LinesOnHold (map en_id (filter en_onHold es)))
     else if list_ex (\<lambda>e. en_state e \<noteq> BS_UNBILLED \<or> en_invoiceId e \<noteq> None) es
     then Some (AlreadyInvoiced (map en_id (filter (\<lambda>e. en_state e \<noteq> BS_UNBILLED \<or> en_invoiceId e \<noteq> None) es)))
     else None)"

definition invoice_of_lines :: "string \<Rightarrow> string \<Rightarrow> string \<Rightarrow> string \<Rightarrow> BillingEntryEntity list \<Rightarrow> string \<Rightarrow> BillingInvoiceEntity" where
  "invoice_of_lines newId number clientId issueDate es userId =
    (let t = roundMoney (sum_list (map en_total es))
     in \<lparr> iv_id = newId, iv_number = number, iv_clientId = clientId, iv_status = IV_DRAFT, iv_issueDate = issueDate,
          iv_subtotal = roundMoney (sum_list (map en_taxable es)), iv_tax = roundMoney (sum_list (map en_tax es)),
          iv_tds = roundMoney (sum_list (map en_tds es)), iv_total = t, iv_paid = 0, iv_outstanding = t,
          iv_createdBy = Some userId, hodRequestedBy = None, hodApprovedBy = None, hodRejectedBy = None,
          hodRejectReason = None \<rparr>)"

definition createInvoice :: "billing_env \<Rightarrow> string \<Rightarrow> string list \<Rightarrow> string option \<Rightarrow> string \<Rightarrow> billing_db
    \<Rightarrow> BillingInvoiceEntity billing_result" where
  "createInvoice env clientId assignmentIds issueDate userId db =
    (let ids = js_dedupe assignmentIds in
     if ids = [] then (db, Inl PickAtLeastOne)
     else inTx env db
      (let es = lines_for db ids in
       case create_refusal clientId ids es of
         Some err \<Rightarrow> Inl err
       | None \<Rightarrow>
          (let issued = nullish_value issueDate (be_today env) in
           case nextClientInvoiceNumber env db issued of
             Inl err \<Rightarrow> Inl err
           | Inr (db1, number) \<Rightarrow>
              (let v = invoice_of_lines (be_newId env) number clientId issued es userId in
               if be_newId env \<in> iv_id ` set (db_invoices db) \<or> \<not> fits_decimal (iv_total v)
                  \<or> \<not> fits_decimal (iv_subtotal v) \<or> \<not> fits_decimal (iv_tax v) \<or> \<not> fits_decimal (iv_tds v)
               then Inl (BillingThrown ''insert failed'')
               else let es' = map (\<lambda>e. e\<lparr> en_invoiceId := Some (iv_id v), en_state := BS_INVOICED,
                                         en_outstanding := en_total e \<rparr>) es
                    in Inr (add_history (map (\<lambda>e. entry_history e ''ENTRY_INVOICED'' BS_UNBILLED BS_INVOICED None userId) es
                              @ [invoice_history v ''INVOICE_CREATED'' None IV_DRAFT None userId])
                            (save_entries es' (db1\<lparr> db_invoices := db_invoices db1 @ [v] \<rparr>)), v)))))"

section \<open>Collecting\<close>

definition settle_invoice :: "BillingInvoiceEntity \<Rightarrow> BillingInvoiceEntity" where
  "settle_invoice v =
    (let out0 = roundMoney (iv_total v - roundMoney (iv_paid v));
         out = (if \<bar>out0\<bar> < MONEY_EPSILON then 0 else out0)
     in v\<lparr> iv_outstanding := out,
           iv_status := (if out \<le> 0 \<and> iv_status v = IV_ISSUED then IV_PAID else iv_status v) \<rparr>)"

text \<open>The share of a line, before and after it is clamped, and the line with what was collected on it.\<close>

definition line_paid :: "rat \<Rightarrow> rat \<Rightarrow> rat \<Rightarrow> bool \<Rightarrow> rat \<Rightarrow> rat" where
  "line_paid tot paid allocated is_last lineTotal =
    (let share = (if is_last then roundMoney (paid - allocated)
                  else if 0 < tot then roundMoney (lineTotal / tot * paid) else 0)
     in min (max 0 share) (max 0 lineTotal))"

definition collect_line :: "bool \<Rightarrow> rat \<Rightarrow> BillingEntryEntity \<Rightarrow> BillingEntryEntity" where
  "collect_line isPaid linePaid e =
    (let out0 = roundMoney (en_total e - linePaid);
         out = (if out0 < MONEY_EPSILON then 0 else out0)
     in e\<lparr> en_paid := linePaid, en_outstanding := out,
           en_state := (if out \<le> 0 \<and> (0 < en_total e \<or> isPaid) then BS_PAID else BS_INVOICED) \<rparr>)"

primrec spread_lines :: "rat \<Rightarrow> rat \<Rightarrow> bool \<Rightarrow> rat \<Rightarrow> BillingEntryEntity list \<Rightarrow> BillingEntryEntity list" where
  "spread_lines tot paid isPaid allocated [] = []"
| "spread_lines tot paid isPaid allocated (e # es) =
    (let linePaid = line_paid tot paid allocated (es = []) (en_total e)
     in collect_line isPaid linePaid e # spread_lines tot paid isPaid (roundMoney (allocated + linePaid)) es)"

definition applyInvoiceCollection :: "BillingInvoiceEntity \<Rightarrow> billing_db \<Rightarrow> BillingInvoiceEntity \<times> billing_db" where
  "applyInvoiceCollection v db =
    (let v' = settle_invoice v
     in (v', save_entries (spread_lines (iv_total v) (roundMoney (iv_paid v)) (iv_status v' = IV_PAID) 0
                (lockEntriesByInvoice db (iv_id v)))
              (save_invoice v' db)))"

definition recordPayment :: "billing_env \<Rightarrow> string \<Rightarrow> string \<Rightarrow> js_number \<Rightarrow> string option \<Rightarrow> string \<Rightarrow> billing_db
    \<Rightarrow> BillingPaymentEntity billing_result" where
  "recordPayment env invoiceId reference amt notes userId db =
    (if \<not> 0 < number_or_zero amt then (db, Inl AmountNotPositive)
     else inTx env db
      (let amount = roundMoney (number_or_zero amt) in
       case lockInvoice db invoiceId of
         None \<Rightarrow> Inl (InvoiceNotFound invoiceId)
       | Some v \<Rightarrow>
        (case List.find (\<lambda>p. pm_invoiceId p = iv_id v \<and> pm_reference p = reference \<and> pm_isActive p) (db_payments db) of
           Some p \<Rightarrow> Inr (db, p)
         | None \<Rightarrow>
            if iv_status v \<noteq> IV_ISSUED
            then Inl (if iv_status v \<in> {IV_DRAFT, IV_AWAITING_HOD, IV_HOD_APPROVED} then NotSentYet
                      else WrongInvoiceStatus (iv_status v))
            else if roundMoney (iv_outstanding v - amount) < - MONEY_EPSILON
            then Inl (ExceedsOutstanding amount (iv_outstanding v))
            else if be_newId env \<in> pm_id ` set (db_payments db) \<or> \<not> 0 < amount \<or> \<not> fits_decimal amount
                    \<or> \<not> fits_decimal (roundMoney (iv_paid v + amount))
            then Inl (BillingThrown ''insert failed'')
            else let p = \<lparr> pm_id = be_newId env, pm_invoiceId = iv_id v, pm_reference = reference,
                           pm_amount = amount, pm_isActive = True \<rparr>;
                     (v', db') = applyInvoiceCollection (v\<lparr> iv_paid := roundMoney (iv_paid v + amount) \<rparr>)
                                   (db\<lparr> db_payments := db_payments db @ [p] \<rparr>)
                 in Inr (add_audit (status_audit ''PAYMENT_RECEIVED'' (pm_id p) (iv_status v) (iv_status v') userId)
                          (add_history [payment_history (pm_id p) ''PAYMENT_RECEIVED'' (iv_status v) (iv_status v') notes userId] db'), p))))"

definition active_sum :: "BillingPaymentEntity list \<Rightarrow> string \<Rightarrow> rat" where
  "active_sum ps i = sum_list (map pm_amount (filter (\<lambda>p. pm_invoiceId p = i \<and> pm_isActive p) ps))"

text \<open>\<^verbatim>\<open>reversePayment\<close> for money received: the branch for an inbound payment of an invoice.\<close>

definition reverseInboundPayment :: "billing_env \<Rightarrow> string \<Rightarrow> string option \<Rightarrow> string \<Rightarrow> billing_db
    \<Rightarrow> BillingPaymentEntity billing_result" where
  "reverseInboundPayment env paymentId reason userId db =
    (let why = js_trim (nullish_value reason []) in
     if why = [] then (db, Inl SayWhyReversed)
     else inTx env db
      (case List.find (\<lambda>p. pm_id p = paymentId) (db_payments db) of
         None \<Rightarrow> Inl (PaymentNotFound paymentId)
       | Some p \<Rightarrow>
        (case lockInvoice db (pm_invoiceId p) of
           None \<Rightarrow> Inl (InvoiceNotFound (pm_invoiceId p))
         | Some v \<Rightarrow>
            if \<not> pm_isActive p then Inl AlreadyReversed
            else let ps = map (\<lambda>q. if pm_id q = paymentId then q\<lparr> pm_isActive := False \<rparr> else q) (db_payments db);
                     v1 = v\<lparr> iv_paid := roundMoney (active_sum ps (iv_id v)),
                            iv_status := (if iv_status v = IV_PAID then IV_ISSUED else iv_status v) \<rparr>;
                     (v', db') = applyInvoiceCollection v1 (db\<lparr> db_payments := ps \<rparr>)
                 in Inr (add_audit (status_audit ''PAYMENT_REVERSED'' paymentId (iv_status v) (iv_status v') userId)
                          (add_history [payment_history paymentId ''PAYMENT_REVERSED'' (iv_status v) (iv_status v') (Some why) userId] db'),
                         p\<lparr> pm_isActive := False \<rparr>))))"

section \<open>The final approval, sending and cancelling\<close>

definition requestInvoiceFinalApproval :: "billing_env \<Rightarrow> string \<Rightarrow> string \<Rightarrow> billing_db \<Rightarrow> BillingInvoiceEntity billing_result" where
  "requestInvoiceFinalApproval env invoiceId userId db = inTx env db
    (case lockInvoice db invoiceId of
       None \<Rightarrow> Inl (InvoiceNotFound invoiceId)
     | Some v \<Rightarrow>
        if iv_status v = IV_AWAITING_HOD then Inr (db, v)
        else if iv_status v \<noteq> IV_DRAFT then Inl (WrongInvoiceStatus (iv_status v))
        else let v' = v\<lparr> iv_status := IV_AWAITING_HOD, hodRequestedBy := Some userId, hodApprovedBy := None \<rparr>
             in Inr (add_audit (status_audit ''INVOICE_SENT_FOR_FINAL_APPROVAL'' (iv_id v) IV_DRAFT IV_AWAITING_HOD userId)
                      (add_history [invoice_history v ''INVOICE_SENT_FOR_FINAL_APPROVAL'' (Some IV_DRAFT) IV_AWAITING_HOD None userId]
                        (save_invoice v' db)), v'))"

text \<open>Whether the call may go on; the attempt of one person on both sides is noted in any mode but off.\<close>

definition assertSegregationOfDuties :: "billing_env \<Rightarrow> string \<Rightarrow> string option \<Rightarrow> string \<Rightarrow> billing_db \<Rightarrow> billing_db \<times> bool" where
  "assertSegregationOfDuties env actorId otherPartyId subject db =
    (if otherPartyId = None \<or> otherPartyId = Some [] \<or> otherPartyId \<noteq> Some actorId then (db, True)
     else if be_sodMode env = SOD_off then (db, True)
     else let kind = (if be_sodMode env = SOD_enforce then ''SEGREGATION_OF_DUTIES_REFUSED''
                      else ''SEGREGATION_OF_DUTIES_WARNED'');
              note = \<lparr> ba_eventType = kind, ba_entityId = subject, ba_previousState = None, ba_newState = None,
                       ba_userId = actorId \<rparr>
          in (if be_auditWorks env then add_audit note db else db, be_sodMode env \<noteq> SOD_enforce))"

definition hodApproveInvoice :: "billing_env \<Rightarrow> string \<Rightarrow> string \<Rightarrow> billing_db \<Rightarrow> BillingInvoiceEntity billing_result" where
  "hodApproveInvoice env invoiceId userId db =
    (case lockInvoice db invoiceId of
       None \<Rightarrow> (db, Inl (InvoiceNotFound invoiceId))
     | Some v \<Rightarrow>
        if iv_status v = IV_HOD_APPROVED then (db, Inr v)
        else if iv_status v \<noteq> IV_AWAITING_HOD then (db, Inl (WrongInvoiceStatus (iv_status v)))
        else let (db1, maker_ok) = assertSegregationOfDuties env userId (iv_createdBy v) (iv_id v) db in
             if \<not> maker_ok then (db1, Inl SegregationOfDuties)
             else let (db2, sender_ok) = assertSegregationOfDuties env userId (hodRequestedBy v) (iv_id v) db1 in
             if \<not> sender_ok then (db2, Inl SegregationOfDuties)
             else let v' = v\<lparr> iv_status := IV_HOD_APPROVED, hodApprovedBy := Some userId \<rparr>
                  in inTx env db2
                      (Inr (add_audit (status_audit ''INVOICE_HOD_APPROVED'' (iv_id v) IV_AWAITING_HOD IV_HOD_APPROVED userId)
                             (add_history [invoice_history v ''INVOICE_HOD_APPROVED'' (Some IV_AWAITING_HOD) IV_HOD_APPROVED None userId]
                               (save_invoice v' db2)), v')))"

definition hodRejectInvoice :: "billing_env \<Rightarrow> string \<Rightarrow> string option \<Rightarrow> string \<Rightarrow> billing_db \<Rightarrow> BillingInvoiceEntity billing_result" where
  "hodRejectInvoice env invoiceId reason userId db =
    (case hodRejectReasonProblem reason of
       Some p \<Rightarrow> (db, Inl (RejectReasonProblem p))
     | None \<Rightarrow> inTx env db
        (let why = js_trim (nullish_value reason []) in
         case lockInvoice db invoiceId of
           None \<Rightarrow> Inl (InvoiceNotFound invoiceId)
         | Some v \<Rightarrow>
            if iv_status v \<noteq> IV_AWAITING_HOD then Inl (WrongInvoiceStatus (iv_status v))
            else let v' = v\<lparr> iv_status := IV_DRAFT, hodRequestedBy := None, hodRejectedBy := Some userId,
                            hodRejectReason := Some why \<rparr>
                 in Inr (add_audit (status_audit ''INVOICE_HOD_REJECTED'' (iv_id v) IV_AWAITING_HOD IV_DRAFT userId)
                          (add_history [invoice_history v ''INVOICE_HOD_REJECTED'' (Some IV_AWAITING_HOD) IV_DRAFT (Some why) userId]
                            (save_invoice v' db)), v')))"

definition sendInvoice :: "billing_env \<Rightarrow> string \<Rightarrow> string \<Rightarrow> billing_db \<Rightarrow> BillingInvoiceEntity billing_result" where
  "sendInvoice env invoiceId userId db = inTx env db
    (case lockInvoice db invoiceId of
       None \<Rightarrow> Inl (InvoiceNotFound invoiceId)
     | Some v \<Rightarrow>
        if iv_status v = IV_ISSUED then Inr (db, v)
        else if iv_status v \<in> {IV_DRAFT, IV_AWAITING_HOD} then Inl (AwaitingHod (iv_status v))
        else if iv_status v \<noteq> IV_HOD_APPROVED then Inl (WrongInvoiceStatus (iv_status v))
        else let v1 = v\<lparr> iv_status := IV_ISSUED,
                        iv_issueDate := (if iv_issueDate v = [] then be_today env else iv_issueDate v) \<rparr>;
                 db1 = add_history [invoice_history v ''INVOICE_STATUS_CHANGED'' (Some (iv_status v)) IV_ISSUED None userId]
                         (save_invoice v1 db);
                 (v2, db2) = (if roundMoney (iv_total v1 - iv_paid v1) \<le> 0 then applyInvoiceCollection v1 db1 else (v1, db1));
                 db3 = (if iv_status v2 = IV_PAID
                        then add_history [invoice_history v ''INVOICE_STATUS_CHANGED'' (Some IV_ISSUED) IV_PAID
                               (Some ''Nothing to collect'') userId] db2
                        else db2)
             in Inr (add_audit (status_audit ''INVOICE_ISSUED'' (iv_id v) (iv_status v) IV_ISSUED userId) db3, v2))"

definition cancelInvoice :: "billing_env \<Rightarrow> string \<Rightarrow> string option \<Rightarrow> string \<Rightarrow> billing_db \<Rightarrow> BillingInvoiceEntity billing_result" where
  "cancelInvoice env invoiceId reason userId db =
    (let why = js_trim (nullish_value reason []) in
     if why = [] then (db, Inl SayWhyCancelled)
     else inTx env db
      (case lockInvoice db invoiceId of
         None \<Rightarrow> Inl (InvoiceNotFound invoiceId)
       | Some v \<Rightarrow>
          if iv_status v = IV_CANCELLED then Inr (db, v)
          else if iv_status v = IV_PAID \<or> 0 < iv_paid v then Inl (CollectedAgainst (iv_paid v))
          else let es = lockEntriesByInvoice db (iv_id v);
                   v' = v\<lparr> iv_status := IV_CANCELLED, iv_outstanding := 0 \<rparr>;
                   es' = map (\<lambda>e. e\<lparr> en_invoiceId := None, en_state := BS_UNBILLED, en_paid := 0, en_outstanding := 0 \<rparr>) es
               in Inr (add_audit (status_audit ''INVOICE_CANCELLED'' (iv_id v) (iv_status v) IV_CANCELLED userId)
                        (add_history (map (\<lambda>e. entry_history e ''ENTRY_UNINVOICED'' BS_INVOICED BS_UNBILLED (Some why) userId) es
                           @ [invoice_history v ''INVOICE_STATUS_CHANGED'' (Some (iv_status v)) IV_CANCELLED (Some why) userId])
                          (save_entries es' (save_invoice v' db))), v')))"

section \<open>Histories of calls\<close>

datatype billing_call =
    CreateInvoice billing_env string "string list" "string option" string
  | RequestApproval billing_env string string
  | HodApprove billing_env string string
  | HodReject billing_env string "string option" string
  | SendInvoice billing_env string string
  | CancelInvoice billing_env string "string option" string
  | RecordPayment billing_env string string js_number "string option" string
  | ReversePayment billing_env string "string option" string

fun billing_step :: "billing_call \<Rightarrow> billing_db \<Rightarrow> billing_db" where
  "billing_step (CreateInvoice env c ids d u) db = fst (createInvoice env c ids d u db)"
| "billing_step (RequestApproval env i u) db = fst (requestInvoiceFinalApproval env i u db)"
| "billing_step (HodApprove env i u) db = fst (hodApproveInvoice env i u db)"
| "billing_step (HodReject env i r u) db = fst (hodRejectInvoice env i r u db)"
| "billing_step (SendInvoice env i u) db = fst (sendInvoice env i u db)"
| "billing_step (CancelInvoice env i r u) db = fst (cancelInvoice env i r u db)"
| "billing_step (RecordPayment env i ref a n u) db = fst (recordPayment env i ref a n u db)"
| "billing_step (ReversePayment env p r u) db = fst (reverseInboundPayment env p r u db)"

definition run_billing :: "billing_call list \<Rightarrow> billing_db \<Rightarrow> billing_db" where
  "run_billing calls db = fold billing_step calls db"

section \<open>The calls as steps of the ledger\<close>

text \<open>
  What a call can do to invoices, payments and number series, each kind of change with the guards under
  which the code makes it. The flag says whether segregation of duties is enforced.
\<close>

inductive invoice_move :: "bool \<Rightarrow> BillingInvoiceEntity \<Rightarrow> BillingInvoiceEntity \<Rightarrow> bool" where
  requested: "iv_status v = IV_DRAFT \<Longrightarrow>
    invoice_move strict v (v\<lparr> iv_status := IV_AWAITING_HOD, hodRequestedBy := Some u, hodApprovedBy := None \<rparr>)"
| approved: "iv_status v = IV_AWAITING_HOD \<Longrightarrow>
    (strict \<Longrightarrow> iv_createdBy v \<noteq> Some u \<and> hodRequestedBy v \<noteq> Some u) \<Longrightarrow>
    invoice_move strict v (v\<lparr> iv_status := IV_HOD_APPROVED, hodApprovedBy := Some u \<rparr>)"
| rejected: "iv_status v = IV_AWAITING_HOD \<Longrightarrow>
    invoice_move strict v (v\<lparr> iv_status := IV_DRAFT, hodRequestedBy := None, hodRejectedBy := Some u, hodRejectReason := Some why \<rparr>)"
| sent: "iv_status v = IV_HOD_APPROVED \<Longrightarrow> v1 = v\<lparr> iv_status := IV_ISSUED, iv_issueDate := d \<rparr> \<Longrightarrow>
    invoice_move strict v (if roundMoney (iv_total v1 - iv_paid v1) \<le> 0 then settle_invoice v1 else v1)"
| cancelled: "iv_status v \<noteq> IV_PAID \<Longrightarrow> iv_paid v \<le> 0 \<Longrightarrow>
    invoice_move strict v (v\<lparr> iv_status := IV_CANCELLED, iv_outstanding := 0 \<rparr>)"

definition replaced :: "BillingInvoiceEntity \<Rightarrow> BillingInvoiceEntity list \<Rightarrow> BillingInvoiceEntity list" where
  "replaced v vs = map (\<lambda>w. if iv_id w = iv_id v then v else w) vs"

inductive ledger_step :: "bool \<Rightarrow> billing_db \<Rightarrow> billing_db \<Rightarrow> bool" where
  quiet: "db_invoices db' = db_invoices db \<Longrightarrow> db_payments db' = db_payments db \<Longrightarrow>
    number_series db' = number_series db \<Longrightarrow> ledger_step strict db db'"
| created: "iv_id v \<notin> iv_id ` set (db_invoices db) \<Longrightarrow> is_fy_label l \<Longrightarrow>
    formatClientInvoiceNumber l (int (Suc (nullish_value (number_series db l) 0))) = Inr (iv_number v) \<Longrightarrow>
    v = invoice_of_lines i number c d es u \<Longrightarrow> fits_decimal (iv_total v) \<Longrightarrow>
    db_invoices db' = db_invoices db @ [v] \<Longrightarrow> db_payments db' = db_payments db \<Longrightarrow>
    number_series db' = (number_series db)(l \<mapsto> Suc (nullish_value (number_series db l) 0)) \<Longrightarrow> ledger_step strict db db'"
| moved: "lockInvoice db i = Some v \<Longrightarrow> invoice_move strict v v' \<Longrightarrow> db_invoices db' = replaced v' (db_invoices db) \<Longrightarrow>
    db_payments db' = db_payments db \<Longrightarrow> number_series db' = number_series db \<Longrightarrow> ledger_step strict db db'"
| collected: "lockInvoice db i = Some v \<Longrightarrow> iv_status v = IV_ISSUED \<Longrightarrow> 0 < a \<Longrightarrow> fits_decimal a \<Longrightarrow>
    whole_paise a \<Longrightarrow> fits_decimal (roundMoney (iv_paid v + a)) \<Longrightarrow>
    - MONEY_EPSILON \<le> roundMoney (iv_outstanding v - a) \<Longrightarrow>
    pm_invoiceId p = iv_id v \<Longrightarrow> pm_amount p = a \<Longrightarrow> pm_isActive p \<Longrightarrow> pm_id p \<notin> pm_id ` set (db_payments db) \<Longrightarrow>
    db_invoices db' = replaced (settle_invoice (v\<lparr> iv_paid := roundMoney (iv_paid v + a) \<rparr>)) (db_invoices db) \<Longrightarrow>
    db_payments db' = db_payments db @ [p] \<Longrightarrow> number_series db' = number_series db \<Longrightarrow> ledger_step strict db db'"
| reversed: "List.find (\<lambda>q. pm_id q = k) (db_payments db) = Some p \<Longrightarrow> pm_isActive p \<Longrightarrow> lockInvoice db (pm_invoiceId p) = Some v \<Longrightarrow>
    db_payments db' = map (\<lambda>q. if pm_id q = k then q\<lparr> pm_isActive := False \<rparr> else q) (db_payments db) \<Longrightarrow>
    db_invoices db' = replaced (settle_invoice (v\<lparr> iv_paid := roundMoney (active_sum (db_payments db') (iv_id v)),
        iv_status := (if iv_status v = IV_PAID then IV_ISSUED else iv_status v) \<rparr>)) (db_invoices db) \<Longrightarrow>
    number_series db' = number_series db \<Longrightarrow> ledger_step strict db db'"

fun strict_call :: "billing_call \<Rightarrow> bool" where
  "strict_call (HodApprove env i u) \<longleftrightarrow> be_sodMode env = SOD_enforce \<and> u \<noteq> []"
| "strict_call _ \<longleftrightarrow> True"

lemma save_simps [simp]:
  "db_invoices (save_invoice v db) = replaced v (db_invoices db)" "db_payments (save_invoice v db) = db_payments db"
  "number_series (save_invoice v db) = number_series db"
  "db_invoices (save_entries es db) = db_invoices db" "db_payments (save_entries es db) = db_payments db"
  "number_series (save_entries es db) = number_series db"
  "db_invoices (add_history hs db) = db_invoices db" "db_payments (add_history hs db) = db_payments db"
  "number_series (add_history hs db) = number_series db"
  "db_invoices (add_audit x db) = db_invoices db" "db_payments (add_audit x db) = db_payments db"
  "number_series (add_audit x db) = number_series db"
  by (simp_all add: save_invoice_def save_entries_def add_history_def add_audit_def replaced_def)

lemma settle_id [simp]: "iv_id (settle_invoice v) = iv_id v" "iv_number (settle_invoice v) = iv_number v"
  "iv_total (settle_invoice v) = iv_total v" "iv_paid (settle_invoice v) = iv_paid v"
  "iv_createdBy (settle_invoice v) = iv_createdBy v" "hodRequestedBy (settle_invoice v) = hodRequestedBy v"
  "hodApprovedBy (settle_invoice v) = hodApprovedBy v"
  by (simp_all add: settle_invoice_def Let_def)

lemma collection_simps [simp]:
  "fst (applyInvoiceCollection v db) = settle_invoice v"
  "db_invoices (snd (applyInvoiceCollection v db)) = replaced (settle_invoice v) (db_invoices db)"
  "db_payments (snd (applyInvoiceCollection v db)) = db_payments db"
  "number_series (snd (applyInvoiceCollection v db)) = number_series db"
  by (simp_all add: applyInvoiceCollection_def Let_def)

lemma inTx_cases:
  "fst (inTx env db w) = db \<or> (\<exists>db' v. w = Inr (db', v) \<and> fst (inTx env db w) = db')"
  by (auto simp: inTx_def split: sum.splits option.splits)

lemma inTx_step:
  assumes "\<And>db' v. w = Inr (db', v) \<Longrightarrow> ledger_step strict db db'"
  shows "ledger_step strict db (fst (inTx env db w))"
  using inTx_cases [of env db w] assms by (auto intro: ledger_step.quiet)

lemma lockInvoice_Some: "lockInvoice db i = Some v \<Longrightarrow> v \<in> set (db_invoices db) \<and> iv_id v = i"
  by (auto simp: lockInvoice_def find_Some_iff)

lemma request_step: "ledger_step strict db (fst (requestInvoiceFinalApproval env i u db))"
  unfolding requestInvoiceFinalApproval_def
  by (rule inTx_step)
     (auto simp: Let_def split: option.splits if_splits intro: ledger_step.quiet ledger_step.moved invoice_move.requested)

lemma reject_step: "ledger_step strict db (fst (hodRejectInvoice env i r u db))"
  unfolding hodRejectInvoice_def
  by (auto simp: Let_def split: option.splits if_splits intro!: inTx_step
      intro: ledger_step.quiet ledger_step.moved invoice_move.rejected)

lemma cancel_step: "ledger_step strict db (fst (cancelInvoice env i r u db))"
  unfolding cancelInvoice_def Let_def
  by (auto simp: Let_def not_less split: option.splits if_splits intro!: inTx_step
      intro: ledger_step.quiet ledger_step.moved invoice_move.cancelled)

lemma sod_result:
  "assertSegregationOfDuties env u other s db = (db1, ok) \<Longrightarrow>
     db_invoices db1 = db_invoices db \<and> db_payments db1 = db_payments db \<and> number_series db1 = number_series db
     \<and> db_entries db1 = db_entries db
     \<and> (ok \<and> be_sodMode env = SOD_enforce \<and> u \<noteq> [] \<longrightarrow> other \<noteq> Some u)"
  by (auto simp: assertSegregationOfDuties_def add_audit_def Let_def split: if_splits)

lemma approve_step:
  assumes "strict \<Longrightarrow> be_sodMode env = SOD_enforce \<and> u \<noteq> []"
  shows "ledger_step strict db (fst (hodApproveInvoice env i u db))"
proof (cases "lockInvoice db i")
  case None
  then show ?thesis by (simp add: hodApproveInvoice_def ledger_step.quiet)
next
  case (Some v)
  show ?thesis
  proof (cases "iv_status v = IV_AWAITING_HOD")
    case False
    with Some show ?thesis by (auto simp: hodApproveInvoice_def intro: ledger_step.quiet)
  next
    case True
    obtain db1 ok1 where s1: "assertSegregationOfDuties env u (iv_createdBy v) (iv_id v) db = (db1, ok1)" by fastforce
    obtain db2 ok2 where s2: "assertSegregationOfDuties env u (hodRequestedBy v) (iv_id v) db1 = (db2, ok2)" by fastforce
    note S = sod_result [OF s1] sod_result [OF s2]
    have "ok1 \<Longrightarrow> ok2 \<Longrightarrow> invoice_move strict v (v\<lparr> iv_status := IV_HOD_APPROVED, hodApprovedBy := Some u \<rparr>)"
      using S True assms by (intro invoice_move.approved) auto
    then have move: "ok1 \<Longrightarrow> ok2 \<Longrightarrow> ledger_step strict db (add_audit x (add_history hs
         (save_invoice (v\<lparr> iv_status := IV_HOD_APPROVED, hodApprovedBy := Some u \<rparr>) db2)))" for x hs
      using S Some by (intro ledger_step.moved [of db i v]) auto
    have quiet: "ledger_step strict db db1" "ledger_step strict db db2"
      using S by (auto intro: ledger_step.quiet)
    show ?thesis using move quiet True
      by (auto simp: hodApproveInvoice_def Some s1 s2 Let_def inTx_def split: option.splits)
  qed
qed

lemma send_step: "ledger_step strict db (fst (sendInvoice env i u db))"
  unfolding sendInvoice_def
proof (rule inTx_step, goal_cases)
  case (1 db' v')
  then obtain v where v: "lockInvoice db i = Some v" by (auto split: option.splits)
  show ?case
  proof (cases "iv_status v = IV_HOD_APPROVED")
    case True
    define v1 where "v1 = v\<lparr> iv_status := IV_ISSUED, iv_issueDate := (if iv_issueDate v = [] then be_today env else iv_issueDate v) \<rparr>"
    have same: "replaced a (replaced v1 vs) = replaced a vs" if "iv_id a = iv_id v1" for a vs
      using that by (auto simp: replaced_def)
    have "db_invoices db' = replaced (if roundMoney (iv_total v1 - iv_paid v1) \<le> 0 then settle_invoice v1 else v1) (db_invoices db)"
      "db_payments db' = db_payments db" "number_series db' = number_series db"
      using 1 True by (auto simp: v v1_def [symmetric] Let_def same split_def split: if_splits)
    then show ?thesis
      by (rule ledger_step.moved [OF v invoice_move.sent [OF True v1_def]])
  qed (use 1 in \<open>auto simp: v split: if_splits intro: ledger_step.quiet\<close>)
qed

lemma payment_step: "ledger_step strict db (fst (recordPayment env i ref a n u db))"
proof (cases "0 < number_or_zero a")
  case True
  show ?thesis unfolding recordPayment_def using True
  proof (simp only: not_True_eq_False if_False, intro inTx_step, goal_cases)
    case (1 db' p)
    then obtain v where v: "lockInvoice db i = Some v" by (auto simp: Let_def split: option.splits)
    show ?case
    proof (cases "db' = db")
      case False
      let ?a = "roundMoney (number_or_zero a)"
      have "iv_status v = IV_ISSUED \<and> 0 < ?a \<and> fits_decimal ?a \<and> fits_decimal (roundMoney (iv_paid v + ?a))
          \<and> - MONEY_EPSILON \<le> roundMoney (iv_outstanding v - ?a)
          \<and> pm_invoiceId p = iv_id v \<and> pm_amount p = ?a \<and> pm_isActive p
          \<and> pm_id p \<notin> pm_id ` set (db_payments db)
          \<and> db_invoices db' = replaced (settle_invoice (v\<lparr> iv_paid := roundMoney (iv_paid v + ?a) \<rparr>)) (db_invoices db)
          \<and> db_payments db' = db_payments db @ [p] \<and> number_series db' = number_series db"
        using 1 v False by (auto simp: Let_def split_def not_less split: option.splits if_splits)
      then show ?thesis using ledger_step.collected [OF v _ _ _ whole_paise_round, of "number_or_zero a" p db'] by blast
    qed (simp add: ledger_step.quiet)
  qed
qed (simp add: recordPayment_def ledger_step.quiet)

lemma reverse_step: "ledger_step strict db (fst (reverseInboundPayment env k r u db))"
  unfolding reverseInboundPayment_def Let_def
  by (auto simp: Let_def split_def split: option.splits if_splits intro!: inTx_step
      intro: ledger_step.quiet ledger_step.reversed)

lemma fy_label_of_date: "indianFinancialYear d s = Inr f \<Longrightarrow> is_fy_label (fy_label f)"
  by (auto simp: indianFinancialYear_def Let_def fy_label_ok [simplified] split: option.splits)

lemma next_number:
  "nextClientInvoiceNumber env db d = Inr (db1, number) \<Longrightarrow>
   \<exists>l. is_fy_label l \<and> formatClientInvoiceNumber l (int (Suc (nullish_value (number_series db l) 0))) = Inr number
     \<and> db1 = db\<lparr> number_series := (number_series db)(l \<mapsto> Suc (nullish_value (number_series db l) 0)) \<rparr>"
  using fy_label_of_date [of "be_indianDay env" d]
  by (auto simp: nextClientInvoiceNumber_def Let_def split: sum.splits)

lemma create_step: "ledger_step strict db (fst (createInvoice env c ids d u db))"
proof (cases "js_dedupe ids = []")
  case False
  show ?thesis unfolding createInvoice_def Let_def if_not_P [OF False]
  proof (rule inTx_step, goal_cases)
    case (1 db' v)
    then obtain db1 number where n: "nextClientInvoiceNumber env db (nullish_value d (be_today env)) = Inr (db1, number)"
      by (auto split: option.splits sum.splits prod.splits)
    from next_number [OF n] obtain l where l: "is_fy_label l"
      "formatClientInvoiceNumber l (int (Suc (nullish_value (number_series db l) 0))) = Inr number"
      "db1 = db\<lparr> number_series := (number_series db)(l \<mapsto> Suc (nullish_value (number_series db l) 0)) \<rparr>" by blast
    have v: "v = invoice_of_lines (be_newId env) number c (nullish_value d (be_today env)) (lines_for db (js_dedupe ids)) u"
      and fresh: "iv_id v \<notin> iv_id ` set (db_invoices db)" and fits: "fits_decimal (iv_total v)"
      and db': "db_invoices db' = db_invoices db @ [v]" "db_payments db' = db_payments db"
        "number_series db' = number_series db1"
      using 1 n l(3) by (auto simp: invoice_of_lines_def Let_def split: option.splits if_splits)
    have "iv_number v = number" by (simp add: v invoice_of_lines_def Let_def)
    with l v fresh fits db' show ?case
      by (intro ledger_step.created [OF fresh l(1) _ v fits db'(1,2)]) simp_all
  qed
qed (simp add: createInvoice_def ledger_step.quiet)

theorem billing_calls_are_steps:
  "(strict \<Longrightarrow> strict_call c) \<Longrightarrow> ledger_step strict db (billing_step c db)"
  by (cases c) (auto intro: create_step request_step approve_step reject_step send_step cancel_step payment_step reverse_step)

lemma run_billing_invariant:
  assumes "I db" and "\<And>a b. I a \<Longrightarrow> ledger_step strict a b \<Longrightarrow> I b" and "strict \<Longrightarrow> list_all strict_call calls"
  shows "I (run_billing calls db)"
  using assms(1,3) unfolding run_billing_def
proof (induction calls arbitrary: db)
  case (Cons c calls)
  have "ledger_step strict db (billing_step c db)" using Cons by (intro billing_calls_are_steps) auto
  with Cons assms(2) show ?case by auto
qed simp

section \<open>Exact figures\<close>

lemma whole_small: "whole_paise x \<Longrightarrow> \<bar>x\<bar> < 1 / 100 \<Longrightarrow> x = 0"
proof -
  assume "whole_paise x" "\<bar>x\<bar> < 1 / 100"
  then obtain k :: int where k: "x = of_int k / 100" and "\<bar>of_int k :: rat\<bar> < 1" by (auto simp: whole_paise_def)
  then have "\<bar>k\<bar> < 1" by linarith
  then show "x = 0" using k by simp
qed

lemma settle_exact:
  assumes "whole_paise (iv_total v)" "whole_paise (iv_paid v)" "fits_decimal (iv_total v)" "fits_decimal (iv_paid v)"
  shows "settle_invoice v = v\<lparr> iv_outstanding := iv_total v - iv_paid v,
      iv_status := (if iv_total v \<le> iv_paid v \<and> iv_status v = IV_ISSUED then IV_PAID else iv_status v) \<rparr>"
proof -
  have p: "roundMoney (iv_paid v) = iv_paid v"
    using assms by (intro roundMoney_exact) (auto simp: fits_decimal_def money_range_def)
  have "whole_paise (iv_total v - iv_paid v)" using assms by (intro whole_paise_diff)
  moreover from this have "roundMoney (iv_total v - iv_paid v) = iv_total v - iv_paid v"
    using assms by (intro roundMoney_exact) (auto simp: fits_decimal_def money_range_def)
  moreover have "\<bar>iv_total v - iv_paid v\<bar> < 1 / 100 \<Longrightarrow> iv_total v - iv_paid v = 0"
    using calculation(1) by (rule whole_small)
  ultimately show ?thesis by (auto simp: settle_invoice_def p Let_def MONEY_EPSILON_def)
qed

lemma exact_difference:
  assumes "whole_paise x" "whole_paise y" "fits_decimal x" "fits_decimal y"
  shows "roundMoney (x - y) = x - y" "roundMoney (x + y) = x + y"
  using assms by (auto intro!: roundMoney_exact whole_paise_diff whole_paise_add simp: fits_decimal_def money_range_def)

section \<open>A sample ledger\<close>

definition sample_billing_env :: billing_env where
  "sample_billing_env = \<lparr> be_newId = ''iv-1'', be_today = ''2026-05-10'', be_indianDay = (\<lambda>_. None), be_sodSetting = Some ''enforce'',
     be_auditWorks = True, be_writeFault = None \<rparr>"

definition sample_line :: BillingEntryEntity where
  "sample_line = \<lparr> en_id = ''en-1'', en_assignmentId = ''as-1'', en_clientId = ''cl-1'', en_state = BS_UNBILLED, en_onHold = False,
     en_isActive = True, en_base = 1000, en_travel = 0, en_adjustment = 0, en_taxRate = 18, en_tdsRate = 0, en_taxable = 1000, en_tax = 180, en_tds = 0, en_total = 1180, en_paid = 0, en_outstanding = 0,
     en_invoiceId = None \<rparr>"

definition sample_ledger :: billing_db where
  "sample_ledger = \<lparr> db_entries = [sample_line], db_invoices = [], db_payments = [], number_series = Map.empty,
     db_history = [], db_audit = [] \<rparr>"

definition sample_calls :: "billing_call list" where
  "sample_calls = [CreateInvoice sample_billing_env ''cl-1'' [''as-1''] None ''u1'', RequestApproval sample_billing_env ''iv-1'' ''u1'',
     HodApprove sample_billing_env ''iv-1'' ''u1'', HodApprove sample_billing_env ''iv-1'' ''u2'', SendInvoice sample_billing_env ''iv-1'' ''u1'',
     RecordPayment sample_billing_env ''iv-1'' ''r1'' (Num 500) None ''u1'']"

lemma sample_run:
  "db_invoices (run_billing sample_calls sample_ledger) =
    [\<lparr> iv_id = ''iv-1'', iv_number = ''INV/26-27/000001'', iv_clientId = ''cl-1'', iv_status = IV_ISSUED,
       iv_issueDate = ''2026-05-10'', iv_subtotal = 1000, iv_tax = 180, iv_tds = 0, iv_total = 1180, iv_paid = 500,
       iv_outstanding = 680, iv_createdBy = Some ''u1'', hodRequestedBy = Some ''u1'', hodApprovedBy = Some ''u2'',
       hodRejectedBy = None, hodRejectReason = None \<rparr>]"
  by code_simp

lemma sample_first: "snd (createInvoice sample_billing_env ''cl-1'' [''as-1''] None ''u1'' sample_ledger) =
    Inr \<lparr> iv_id = ''iv-1'', iv_number = ''INV/26-27/000001'', iv_clientId = ''cl-1'', iv_status = IV_DRAFT,
       iv_issueDate = ''2026-05-10'', iv_subtotal = 1000, iv_tax = 180, iv_tds = 0, iv_total = 1180, iv_paid = 0,
       iv_outstanding = 1180, iv_createdBy = Some ''u1'', hodRequestedBy = None, hodApprovedBy = None,
       hodRejectedBy = None, hodRejectReason = None \<rparr>"
  by code_simp

end
