(* ===== verification/Invoice_Ledger.thy ===== *)
theory Invoice_Ledger
  imports Client_Invoices
begin

text \<open>
  What every history of calls keeps true of the client's ledger: the numbers of a financial year have no
  gap and no duplicate, what an invoice says was collected is what its payments say, and nothing is sent
  out that a second person did not approve.
\<close>

section \<open>Invariants of the ledger\<close>

lemma move_keeps:
  "invoice_move strict v v' \<Longrightarrow> iv_id v' = iv_id v \<and> iv_number v' = iv_number v \<and> iv_total v' = iv_total v
     \<and> iv_paid v' = iv_paid v \<and> iv_createdBy v' = iv_createdBy v"
  by (induction rule: invoice_move.induct) auto

lemma replaced_map:
  assumes "distinct (map iv_id vs)" "v \<in> set vs" "iv_id v' = iv_id v" "f v' = f v"
  shows "map f (replaced v' vs) = map f vs"
proof -
  have "f (if iv_id w = iv_id v' then v' else w) = f w" if "w \<in> set vs" for w
  proof (cases "iv_id w = iv_id v")
    case True
    then have "w = v" using that assms(1,2) by (auto simp: distinct_map dest: inj_onD)
    then show ?thesis using assms by simp
  qed (use assms in simp)
  then show ?thesis by (simp add: replaced_def)
qed

text \<open>
  The rows other than the replaced one keep what they satisfy, so a statement about every invoice holds
  after a change if the changed row satisfies it.
\<close>

lemma replaced_all:
  "(\<And>w. w \<in> set vs \<Longrightarrow> iv_id w \<noteq> iv_id v' \<Longrightarrow> P w) \<Longrightarrow> P v' \<Longrightarrow> \<forall>w \<in> set (replaced v' vs). P w"
  by (auto simp: replaced_def)

definition numbering_ok :: "billing_db \<Rightarrow> bool" where
  "numbering_ok db \<longleftrightarrow> distinct (map iv_id (db_invoices db)) \<and> distinct (map iv_number (db_invoices db))
     \<and> (\<forall>l. is_fy_label l \<longrightarrow>
          {s. \<exists>v \<in> set (db_invoices db). formatClientInvoiceNumber l s = Inr (iv_number v)}
            = {1..int (nullish_value (number_series db l) 0)})"

lemma numbers_of_map:
  "{s. \<exists>v \<in> set vs. formatClientInvoiceNumber l s = Inr (iv_number v)}
     = {s. \<exists>n \<in> set (map iv_number vs). formatClientInvoiceNumber l s = Inr n}"
  by auto

lemma numbering_replaced:
  assumes "numbering_ok db" "v \<in> set (db_invoices db)" "iv_id v' = iv_id v" "iv_number v' = iv_number v"
    and "db_invoices db' = replaced v' (db_invoices db)" "number_series db' = number_series db"
  shows "numbering_ok db'"
  using assms replaced_map [of "db_invoices db" v v' iv_number] replaced_map [of "db_invoices db" v v' iv_id]
  by (simp only: numbering_ok_def numbers_of_map) simp

lemma numbering_created:
  assumes ok: "numbering_ok db" and fresh: "iv_id v \<notin> iv_id ` set (db_invoices db)" and l: "is_fy_label l"
    and n: "formatClientInvoiceNumber l (int (Suc (nullish_value (number_series db l) 0))) = Inr (iv_number v)"
    and db': "db_invoices db' = db_invoices db @ [v]"
      "number_series db' = (number_series db)(l \<mapsto> Suc (nullish_value (number_series db l) 0))"
  shows "numbering_ok db'"
proof -
  let ?k = "nullish_value (number_series db l) 0"
  have new: "formatClientInvoiceNumber m s = Inr (iv_number v) \<longleftrightarrow> m = l \<and> s = int (Suc ?k)" for m s
    using n format_inject by metis
  have "iv_number v \<notin> iv_number ` set (db_invoices db)"
  proof
    assume "iv_number v \<in> iv_number ` set (db_invoices db)"
    then have "int (Suc ?k) \<in> {s. \<exists>v \<in> set (db_invoices db). formatClientInvoiceNumber l s = Inr (iv_number v)}"
      using n by auto
    with ok l show False by (simp add: numbering_ok_def)
  qed
  moreover have "{s. \<exists>w \<in> set (db_invoices db'). formatClientInvoiceNumber m s = Inr (iv_number w)}
      = {1..int (nullish_value (number_series db' m) 0)}" if "is_fy_label m" for m
  proof -
    have "{s. \<exists>w \<in> set (db_invoices db'). formatClientInvoiceNumber m s = Inr (iv_number w)}
        = {1..int (nullish_value (number_series db m) 0)} \<union> {s. m = l \<and> s = int (Suc ?k)}"
    proof -
      have "{s. \<exists>w \<in> set (db_invoices db). formatClientInvoiceNumber m s = Inr (iv_number w)}
          = {1..int (nullish_value (number_series db m) 0)}"
        using ok that by (simp add: numbering_ok_def)
      then show ?thesis by (auto simp: new db' simp del: atLeastAtMost_iff)
    qed
    also have "\<dots> = {1..int (nullish_value (number_series db' m) 0)}"
      by (cases "m = l") (auto simp: db')
    finally show ?thesis .
  qed
  ultimately show ?thesis using ok fresh by (auto simp: numbering_ok_def db')
qed

lemma numbering_step: "numbering_ok db \<Longrightarrow> ledger_step strict db db' \<Longrightarrow> numbering_ok db'"
proof (erule ledger_step.cases, goal_cases)
  case 1
  then show ?case by (simp add: numbering_ok_def)
next
  case (2 v a l i number c d es u b)
  then show ?case using numbering_created [of db v l db'] by simp
next
  case (3 a i v s v' b)
  then show ?case using numbering_replaced [of db v v' db'] lockInvoice_Some [of db i v] move_keeps [of s v v'] by simp
next
  case (4 a i v x p b s)
  then show ?case
    using numbering_replaced [of db v "settle_invoice (v\<lparr> iv_paid := roundMoney (iv_paid v + x) \<rparr>)" db']
      lockInvoice_Some [of db i v] by simp
next
  case (5 k a p v b s)
  let ?w = "v\<lparr> iv_paid := roundMoney (active_sum (db_payments b) (iv_id v)),
    iv_status := if iv_status v = IV_PAID then IV_ISSUED else iv_status v \<rparr>"
  from 5 show ?case
    using numbering_replaced [of db v "settle_invoice ?w" db'] lockInvoice_Some [of db _ v] by simp
qed

section \<open>What was collected\<close>

definition invoice_settled :: "BillingPaymentEntity list \<Rightarrow> BillingInvoiceEntity \<Rightarrow> bool" where
  "invoice_settled ps v \<longleftrightarrow> whole_paise (iv_total v) \<and> fits_decimal (iv_total v) \<and> fits_decimal (iv_paid v)
     \<and> iv_paid v = active_sum ps (iv_id v)
     \<and> iv_outstanding v = (if iv_status v = IV_CANCELLED then 0 else iv_total v - iv_paid v)
     \<and> (0 < iv_paid v \<longrightarrow> iv_status v \<in> {IV_ISSUED, IV_PAID} \<and> iv_paid v \<le> iv_total v + 1 / 100)
     \<and> (iv_status v = IV_ISSUED \<longrightarrow> iv_paid v < iv_total v)
     \<and> (iv_status v = IV_PAID \<longrightarrow> iv_total v \<le> iv_paid v)"

definition books_ok :: "billing_db \<Rightarrow> bool" where
  "books_ok db \<longleftrightarrow> distinct (map iv_id (db_invoices db)) \<and> distinct (map pm_id (db_payments db))
     \<and> (\<forall>p \<in> set (db_payments db). whole_paise (pm_amount p) \<and> 0 < pm_amount p
          \<and> pm_invoiceId p \<in> iv_id ` set (db_invoices db))
     \<and> (\<forall>v \<in> set (db_invoices db). invoice_settled (db_payments db) v)"

lemma replaced_ids [simp]: "map iv_id (replaced v vs) = map iv_id vs" "iv_id ` set (replaced v vs) = iv_id ` set vs"
proof -
  show ids: "map iv_id (replaced v vs) = map iv_id vs" by (auto simp: replaced_def)
  show "iv_id ` set (replaced v vs) = iv_id ` set vs" using arg_cong [OF ids, of set] by simp
qed

lemma active_sum_append [simp]:
  "active_sum (ps @ [p]) i = active_sum ps i + (if pm_invoiceId p = i \<and> pm_isActive p then pm_amount p else 0)"
  by (simp add: active_sum_def)

lemma active_sum_Nil [simp]: "active_sum [] i = 0"
  by (simp add: active_sum_def)

lemma active_sum_Cons [simp]:
  "active_sum (p # ps) i = (if pm_invoiceId p = i \<and> pm_isActive p then pm_amount p else 0) + active_sum ps i"
  by (simp add: active_sum_def)

lemma active_sum_whole: "(\<And>p. p \<in> set ps \<Longrightarrow> whole_paise (pm_amount p)) \<Longrightarrow> whole_paise (active_sum ps i)"
  by (induction ps) (auto intro: whole_paise_add)

lemma active_sum_nonneg: "(\<And>p. p \<in> set ps \<Longrightarrow> 0 < pm_amount p) \<Longrightarrow> 0 \<le> active_sum ps i"
  by (induction ps) (auto simp: less_imp_le)

lemma active_sum_absent: "i \<notin> pm_invoiceId ` set ps \<Longrightarrow> active_sum ps i = 0"
  by (induction ps) auto

definition reverse_rows :: "string \<Rightarrow> BillingPaymentEntity list \<Rightarrow> BillingPaymentEntity list" where
  "reverse_rows k ps = map (\<lambda>q. if pm_id q = k then q\<lparr> pm_isActive := False \<rparr> else q) ps"

lemma reverse_rows_set:
  "q \<in> set (reverse_rows k ps) \<Longrightarrow> \<exists>p \<in> set ps. pm_amount q = pm_amount p \<and> pm_invoiceId q = pm_invoiceId p"
  by (auto simp: reverse_rows_def)

lemma reverse_rows_ids [simp]: "map pm_id (reverse_rows k ps) = map pm_id ps"
  by (auto simp: reverse_rows_def)

lemma reverse_rows_absent: "k \<notin> pm_id ` set ps \<Longrightarrow> reverse_rows k ps = ps"
  by (auto simp: reverse_rows_def intro!: map_idI)

lemma active_sum_reversed:
  "distinct (map pm_id ps) \<Longrightarrow> p \<in> set ps \<Longrightarrow> pm_id p = k \<Longrightarrow> pm_isActive p \<Longrightarrow>
   active_sum (reverse_rows k ps) i = active_sum ps i - (if pm_invoiceId p = i then pm_amount p else 0)"
proof (induction ps)
  case (Cons q ps)
  show ?case
  proof (cases "q = p")
    case True
    then have "reverse_rows k ps = ps" using Cons.prems by (intro reverse_rows_absent) auto
    then show ?thesis using True Cons.prems by (simp add: reverse_rows_def)
  next
    case False
    then have "p \<in> set ps" "pm_id q \<noteq> k" using Cons.prems by auto
    then show ?thesis using Cons by (simp add: reverse_rows_def)
  qed
qed simp

lemma settled_move:
  assumes "invoice_settled ps v" "invoice_move strict v v'" "whole_paise (iv_paid v)" "0 \<le> iv_paid v"
  shows "invoice_settled ps v'"
  using assms(2,1,3,4)
proof (cases rule: invoice_move.cases)
  case (sent v1 d)
  have "iv_paid v = 0" using assms sent by (auto simp: invoice_settled_def)
  moreover have "roundMoney (iv_total v) = iv_total v"
    using assms by (intro roundMoney_exact) (auto simp: invoice_settled_def fits_decimal_def money_range_def)
  moreover have "settle_invoice v1 = v1\<lparr> iv_outstanding := iv_total v1 - iv_paid v1,
      iv_status := (if iv_total v1 \<le> iv_paid v1 \<and> iv_status v1 = IV_ISSUED then IV_PAID else iv_status v1) \<rparr>"
    using assms sent by (intro settle_exact) (auto simp: invoice_settled_def)
  ultimately show ?thesis using assms(1) sent by (auto simp: invoice_settled_def)
qed (auto simp: invoice_settled_def)

lemma settled_collected:
  assumes "invoice_settled ps v" "iv_status v = IV_ISSUED" "0 < a" "fits_decimal a" "whole_paise a"
    "fits_decimal (roundMoney (iv_paid v + a))" "- MONEY_EPSILON \<le> roundMoney (iv_outstanding v - a)"
    "whole_paise (iv_paid v)" "0 \<le> iv_paid v" "pm_invoiceId p = iv_id v" "pm_amount p = a" "pm_isActive p"
  shows "invoice_settled (ps @ [p]) (settle_invoice (v\<lparr> iv_paid := roundMoney (iv_paid v + a) \<rparr>))"
proof -
  have v: "whole_paise (iv_total v)" "fits_decimal (iv_total v)" "fits_decimal (iv_paid v)"
    "iv_outstanding v = iv_total v - iv_paid v" "iv_paid v < iv_total v" "iv_paid v = active_sum ps (iv_id v)"
    using assms(1,2) by (auto simp: invoice_settled_def)
  have paid: "roundMoney (iv_paid v + a) = iv_paid v + a" using v assms by (intro exact_difference)
  have out: "whole_paise (iv_total v - iv_paid v)" "fits_decimal (iv_total v - iv_paid v)"
    using v assms by (auto intro: whole_paise_diff simp: fits_decimal_def)
  have "roundMoney (iv_outstanding v - a) = iv_total v - iv_paid v - a"
    using exact_difference(1) [OF out(1) assms(5) out(2) assms(4)] v(4) by simp
  then have "iv_paid v + a \<le> iv_total v + 1 / 100" using assms(7) by (simp add: MONEY_EPSILON_def)
  moreover have "settle_invoice (v\<lparr> iv_paid := iv_paid v + a \<rparr>) = v\<lparr> iv_paid := iv_paid v + a,
      iv_outstanding := iv_total v - (iv_paid v + a), iv_status := (if iv_total v \<le> iv_paid v + a then IV_PAID else IV_ISSUED) \<rparr>"
    using v assms paid by (subst settle_exact) (auto intro: whole_paise_add)
  ultimately show ?thesis using v assms paid by (simp add: invoice_settled_def)
qed

lemma settled_reversed:
  assumes "invoice_settled ps v" "whole_paise (active_sum ps' (iv_id v))" "0 \<le> active_sum ps' (iv_id v)"
    "active_sum ps' (iv_id v) < iv_paid v"
  shows "invoice_settled ps' (settle_invoice (v\<lparr> iv_paid := roundMoney (active_sum ps' (iv_id v)),
            iv_status := (if iv_status v = IV_PAID then IV_ISSUED else iv_status v) \<rparr>))"
proof -
  let ?x = "active_sum ps' (iv_id v)"
  have v: "whole_paise (iv_total v)" "fits_decimal (iv_total v)" "fits_decimal (iv_paid v)"
    "iv_status v = IV_ISSUED \<or> iv_status v = IV_PAID" "iv_paid v \<le> iv_total v + 1 / 100"
    using assms by (auto simp: invoice_settled_def)
  have x: "fits_decimal ?x" using assms v by (auto simp: fits_decimal_def)
  then have r: "roundMoney ?x = ?x"
    using assms by (intro roundMoney_exact) (auto simp: fits_decimal_def money_range_def)
  let ?w = "v\<lparr> iv_paid := ?x, iv_status := (if iv_status v = IV_PAID then IV_ISSUED else iv_status v) \<rparr>"
  have "settle_invoice ?w = ?w\<lparr> iv_outstanding := iv_total v - ?x, iv_status := (if iv_total v \<le> ?x then IV_PAID else IV_ISSUED) \<rparr>"
    using v assms x by (subst settle_exact) auto
  then show ?thesis using v x assms r by (auto simp: invoice_settled_def)
qed

lemma books_facts:
  assumes "books_ok db" "lockInvoice db i = Some v"
  shows "v \<in> set (db_invoices db)" "invoice_settled (db_payments db) v" "whole_paise (iv_paid v)" "0 \<le> iv_paid v"
proof -
  show v: "v \<in> set (db_invoices db)" using lockInvoice_Some [OF assms(2)] by simp
  show s: "invoice_settled (db_payments db) v" using v assms(1) by (simp add: books_ok_def)
  then have "iv_paid v = active_sum (db_payments db) (iv_id v)" by (simp add: invoice_settled_def)
  then show "whole_paise (iv_paid v)" "0 \<le> iv_paid v"
    using assms(1) by (auto simp: books_ok_def intro: active_sum_whole active_sum_nonneg)
qed

lemma books_replaced:
  assumes "books_ok db" "iv_id v' \<in> iv_id ` set (db_invoices db)" "db_invoices db' = replaced v' (db_invoices db)"
    and "distinct (map pm_id (db_payments db'))"
    and "\<forall>p \<in> set (db_payments db'). whole_paise (pm_amount p) \<and> 0 < pm_amount p \<and> pm_invoiceId p \<in> iv_id ` set (db_invoices db)"
    and "\<And>j. j \<noteq> iv_id v' \<Longrightarrow> active_sum (db_payments db') j = active_sum (db_payments db) j"
    and "invoice_settled (db_payments db') v'"
  shows "books_ok db'"
proof -
  have "\<forall>w \<in> set (replaced v' (db_invoices db)). invoice_settled (db_payments db') w"
  proof (rule replaced_all)
    fix w assume w: "w \<in> set (db_invoices db)" "iv_id w \<noteq> iv_id v'"
    then have "invoice_settled (db_payments db) w" using assms(1) by (simp add: books_ok_def)
    then show "invoice_settled (db_payments db') w" unfolding invoice_settled_def assms(6) [OF w(2)] .
  qed (rule assms(7))
  moreover have "distinct (map iv_id (db_invoices db))" using assms(1) by (simp add: books_ok_def)
  ultimately show ?thesis using assms(3,4,5) by (simp only: books_ok_def replaced_ids)
qed

lemma books_step: "books_ok db \<Longrightarrow> ledger_step strict db db' \<Longrightarrow> books_ok db'"
proof (erule ledger_step.cases, goal_cases)
  case 1
  then show ?case by (simp add: books_ok_def)
next
  case (2 v a l i number c d es u b)
  have "active_sum (db_payments db) (iv_id v) = 0"
    using 2 by (intro active_sum_absent) (auto simp: books_ok_def)
  then have "invoice_settled (db_payments db) v"
    using 2 by (auto simp: invoice_settled_def invoice_of_lines_def Let_def whole_paise_round fits_decimal_def)
  then show ?case using 2 by (auto simp: books_ok_def)
next
  case (3 a i v s v' b)
  note facts = books_facts [of db i v] settled_move [of "db_payments db" v s v'] move_keeps [of s v v']
  from 3 show ?case using facts
    by (intro books_replaced [of db v' db']) (auto simp: books_ok_def)
next
  case (4 a i v x p b s)
  note facts = books_facts [of db i v] settled_collected [of "db_payments db" v x p]
  from 4 show ?case using facts
    by (intro books_replaced [of db "settle_invoice (v\<lparr> iv_paid := roundMoney (iv_paid v + x) \<rparr>)" db'])
       (auto simp: books_ok_def)
next
  case (5 k a p v b s)
  let ?w = "v\<lparr> iv_paid := roundMoney (active_sum (db_payments b) (iv_id v)),
    iv_status := if iv_status v = IV_PAID then IV_ISSUED else iv_status v \<rparr>"
  have p: "p \<in> set (db_payments db)" "pm_id p = k" "pm_invoiceId p = iv_id v" "0 < pm_amount p"
    using 5 lockInvoice_Some [of db "pm_invoiceId p" v] by (auto simp: find_Some_iff books_ok_def)
  have rows: "db_payments b = reverse_rows k (db_payments db)" using 5 by (simp add: reverse_rows_def)
  then have sums: "active_sum (db_payments b) j = active_sum (db_payments db) j - (if iv_id v = j then pm_amount p else 0)" for j
    using 5 p active_sum_reversed [of "db_payments db" p k j] by (simp add: books_ok_def)
  have good: "whole_paise (pm_amount q) \<and> 0 < pm_amount q \<and> pm_invoiceId q \<in> iv_id ` set (db_invoices db)"
    if "q \<in> set (db_payments b)" for q
    using that 5 reverse_rows_set [of q k "db_payments db"] unfolding rows by (auto simp: books_ok_def)
  have facts: "v \<in> set (db_invoices db)" "invoice_settled (db_payments db) v" using books_facts [of db _ v] 5 by auto
  have "invoice_settled (db_payments b) (settle_invoice ?w)"
    using facts p good sums by (intro settled_reversed active_sum_whole active_sum_nonneg) (auto simp: invoice_settled_def)
  moreover have "distinct (map pm_id (db_payments b))" unfolding rows using 5 by (simp add: books_ok_def)
  moreover have "db_invoices b = replaced (settle_invoice ?w) (db_invoices db)" using 5 by blast
  moreover have "iv_id (settle_invoice ?w) \<in> iv_id ` set (db_invoices db)" using facts by simp
  moreover have "active_sum (db_payments b) j = active_sum (db_payments db) j" if "j \<noteq> iv_id (settle_invoice ?w)" for j
    using that sums by simp
  ultimately have "books_ok b" using 5(1) good by (intro books_replaced [of db "settle_invoice ?w" b]) blast+
  then show ?case using 5 by simp
qed

section \<open>Laws of a single invoice\<close>

text \<open>
  A statement about one invoice that holds when it is made and survives each kind of change holds of
  every invoice after every history of calls.
\<close>

locale invoice_law =
  fixes strict :: bool and P :: "BillingInvoiceEntity \<Rightarrow> bool"
  assumes made: "P (invoice_of_lines i n c d es u)"
    and moved: "P v \<Longrightarrow> invoice_move strict v v' \<Longrightarrow> P v'"
    and collected: "P v \<Longrightarrow> iv_status v = IV_ISSUED \<Longrightarrow> P (settle_invoice (v\<lparr> iv_paid := x \<rparr>))"
    and reversed: "P v \<Longrightarrow> P (settle_invoice (v\<lparr> iv_paid := x, iv_status := (if iv_status v = IV_PAID then IV_ISSUED else iv_status v) \<rparr>))"
begin

lemma kept_by_replacement:
  "\<forall>w \<in> set vs. P w \<Longrightarrow> P v' \<Longrightarrow> \<forall>w \<in> set (replaced v' vs). P w"
  by (rule replaced_all) auto

lemma kept_by_step:
  assumes "\<forall>v \<in> set (db_invoices db). P v" "ledger_step strict db db'"
  shows "\<forall>v \<in> set (db_invoices db'). P v"
  using assms(2,1)
proof (cases rule: ledger_step.cases)
  case (moved i v v')
  have "P v" using assms(1) lockInvoice_Some [OF moved(1)] by blast
  then have "P v'" by (rule invoice_law.moved [OF invoice_law_axioms _ moved(2)])
  from kept_by_replacement [OF assms(1) this] show ?thesis by (simp only: moved)
next
  case (collected i v a p)
  have "P v" using assms(1) lockInvoice_Some [OF collected(1)] by blast
  then have "P (settle_invoice (v\<lparr> iv_paid := roundMoney (iv_paid v + a) \<rparr>))"
    by (rule invoice_law.collected [OF invoice_law_axioms _ collected(2)])
  from kept_by_replacement [OF assms(1) this] show ?thesis by (simp only: collected)
next
  case (reversed k p v)
  have "P v" using assms(1) lockInvoice_Some [OF reversed(3)] by blast
  from kept_by_replacement [OF assms(1) invoice_law.reversed [OF invoice_law_axioms this]] show ?thesis
    by (simp only: reversed)
qed (auto simp: made)

lemma kept_by_run:
  assumes "\<forall>v \<in> set (db_invoices db). P v" "strict \<Longrightarrow> list_all strict_call calls"
  shows "\<forall>v \<in> set (db_invoices (run_billing calls db)). P v"
  using assms(1) kept_by_step assms(2)
  by (rule run_billing_invariant [where I = "\<lambda>db. \<forall>v \<in> set (db_invoices db). P v"])

end

definition second_person :: "BillingInvoiceEntity \<Rightarrow> bool" where
  "second_person v \<longleftrightarrow> iv_status v \<in> {IV_HOD_APPROVED, IV_ISSUED, IV_PAID} \<longrightarrow>
     (case hodApprovedBy v of None \<Rightarrow> False | Some u \<Rightarrow> iv_createdBy v \<noteq> Some u \<and> hodRequestedBy v \<noteq> Some u)"

lemma settle_status:
  "iv_status (settle_invoice v) = iv_status v \<or> iv_status v = IV_ISSUED \<and> iv_status (settle_invoice v) = IV_PAID"
  by (simp add: settle_invoice_def Let_def)

lemma second_person_settle:
  "second_person v \<Longrightarrow> second_person (settle_invoice v)"
  using settle_status [of v] by (auto simp: second_person_def split: option.splits)

interpretation approval: invoice_law True second_person
proof
  fix v v' assume "second_person v" "invoice_move True v v'"
  from this(2,1) show "second_person v'"
    by cases (auto simp: second_person_def intro!: second_person_settle split: option.splits if_splits)
next
  fix v x assume "second_person v"
  then show "second_person (settle_invoice (v\<lparr> iv_paid := x, iv_status := (if iv_status v = IV_PAID then IV_ISSUED else iv_status v) \<rparr>))"
    by (intro second_person_settle) (auto simp: second_person_def split: option.splits)
next
  fix v x assume "second_person v"
  then show "second_person (settle_invoice (v\<lparr> iv_paid := x \<rparr>))"
    by (intro second_person_settle) (auto simp: second_person_def split: option.splits)
qed (simp add: second_person_def invoice_of_lines_def Let_def)

section \<open>After every history of calls\<close>

text \<open>
  C16. The numbers of the clients' invoices have no duplicate and no gap: after any history of calls,
  whatever each of them is refused or fails at, the serials in use in a financial year are exactly
  1 up to the last one handed out.
\<close>

theorem invoice_numbers_gapless:
  assumes "numbering_ok db" and "is_fy_label l"
  shows "distinct (map iv_number (db_invoices (run_billing calls db)))
    \<and> {s. \<exists>v \<in> set (db_invoices (run_billing calls db)). formatClientInvoiceNumber l s = Inr (iv_number v)}
        = {1..int (nullish_value (number_series (run_billing calls db) l) 0)}"
proof -
  have "numbering_ok (run_billing calls db)"
    by (rule run_billing_invariant [where strict = False and I = numbering_ok, OF assms(1)]) (auto intro: numbering_step)
  then show ?thesis using assms(2) by (simp add: numbering_ok_def)
qed

lemma sample_numbering: "numbering_ok sample_ledger"
  by (simp add: numbering_ok_def sample_ledger_def)

theorem invoice_numbers_gapless_witness:
  "''INV/26-27/000001'' \<in> iv_number ` set (db_invoices (run_billing sample_calls sample_ledger))
   \<and> {s. \<exists>v \<in> set (db_invoices (run_billing sample_calls sample_ledger)). formatClientInvoiceNumber ''26-27'' s = Inr (iv_number v)}
        = {1..int (nullish_value (number_series (run_billing sample_calls sample_ledger) ''26-27'') 0)}"
proof -
  have "is_fy_label ''26-27''" by code_simp
  then show ?thesis using invoice_numbers_gapless [OF sample_numbering, of "''26-27''" sample_calls] by (simp add: sample_run)
qed

text \<open>
  C8. What an invoice says of its money is what its payments say: after any history of calls its paid
  amount is the sum of its payments that were not reversed, no more than a paisa above its total, and
  its outstanding is the difference unless it was cancelled. Money is on it only while it is issued or
  paid, and it says PAID exactly when nothing is left of an invoice that was sent.
\<close>

theorem collected_is_what_was_paid:
  assumes "books_ok db" and "v \<in> set (db_invoices (run_billing calls db))"
  shows "iv_paid v = active_sum (db_payments (run_billing calls db)) (iv_id v) \<and> 0 \<le> iv_paid v
    \<and> (0 < iv_paid v \<longrightarrow> iv_status v \<in> {IV_ISSUED, IV_PAID} \<and> iv_paid v \<le> iv_total v + 1 / 100)
    \<and> iv_outstanding v = (if iv_status v = IV_CANCELLED then 0 else iv_total v - iv_paid v)
    \<and> (iv_status v \<in> {IV_ISSUED, IV_PAID} \<longrightarrow> (iv_status v = IV_PAID \<longleftrightarrow> iv_total v \<le> iv_paid v))"
proof -
  have ok: "books_ok (run_billing calls db)"
    by (rule run_billing_invariant [where strict = False and I = books_ok, OF assms(1)]) (auto intro: books_step)
  then have "invoice_settled (db_payments (run_billing calls db)) v" using assms(2) by (simp add: books_ok_def)
  moreover have "0 \<le> active_sum (db_payments (run_billing calls db)) (iv_id v)"
    using ok by (intro active_sum_nonneg) (auto simp: books_ok_def)
  ultimately show ?thesis by (auto simp: invoice_settled_def)
qed

lemma sample_books: "books_ok sample_ledger"
  by (simp add: books_ok_def sample_ledger_def)

theorem collected_is_what_was_paid_witness:
  "\<exists>v \<in> set (db_invoices (run_billing sample_calls sample_ledger)). iv_paid v = 500
     \<and> active_sum (db_payments (run_billing sample_calls sample_ledger)) (iv_id v) = 500 \<and> iv_outstanding v = 680"
  using collected_is_what_was_paid [OF sample_books, of _ sample_calls] by (auto simp: sample_run)

text \<open>
  C9. With segregation of duties enforced, no invoice is approved, sent or paid unless a person other
  than the one who made it and the one who asked for the approval approved it, after any history of
  calls by any users.
\<close>

theorem invoice_needs_second_person:
  assumes "list_all strict_call calls" "list_all second_person (db_invoices db)"
    and "v \<in> set (db_invoices (run_billing calls db))" "iv_status v \<in> {IV_HOD_APPROVED, IV_ISSUED, IV_PAID}"
  shows "\<exists>u. hodApprovedBy v = Some u \<and> iv_createdBy v \<noteq> Some u \<and> hodRequestedBy v \<noteq> Some u"
proof -
  have "second_person v"
    using approval.kept_by_run [of db calls] assms(1-3) by (simp add: list_all_iff)
  then show ?thesis using assms(4) by (auto simp: second_person_def split: option.splits)
qed

theorem invoice_needs_second_person_witness:
  "list_all strict_call sample_calls \<and> (\<exists>v \<in> set (db_invoices (run_billing sample_calls sample_ledger)).
     \<exists>u. hodApprovedBy v = Some u \<and> iv_createdBy v \<noteq> Some u \<and> hodRequestedBy v \<noteq> Some u)"
proof -
  have "list_all strict_call sample_calls" by (simp add: sample_calls_def sample_billing_env_def sodMode_def)
  moreover have "list_all second_person (db_invoices sample_ledger)" by (simp add: sample_ledger_def)
  ultimately show ?thesis using invoice_needs_second_person [of sample_calls sample_ledger] by (simp add: sample_run)
qed

end
