(* ===== verification/Invoice_Lines.thy ===== *)
theory Invoice_Lines
  imports Client_Invoices
begin

text \<open>
  The lines of an invoice: how what was collected is spread over them, and that an assignment is on one
  invoice at a time.
\<close>

section \<open>Spreading a collection\<close>

lemma spread_ids [simp]: "map en_id (spread_lines tot paid isPaid a es) = map en_id es"
  by (induction es arbitrary: a) (simp_all add: Let_def collect_line_def)

lemma spread_id_set [simp]: "en_id ` set (spread_lines tot paid isPaid a es) = en_id ` set es"
  by (metis spread_ids set_map)













definition invoiced_line :: "string \<Rightarrow> BillingEntryEntity \<Rightarrow> BillingEntryEntity" where
  "invoiced_line i e = e\<lparr> en_invoiceId := Some i, en_state := BS_INVOICED, en_outstanding := en_total e \<rparr>"



section \<open>One invoice at a time\<close>

text \<open>
  The unique indices of \<^verbatim>\<open>billing_entries\<close>: the primary key, and one live line for an assignment.
\<close>

definition line_keys_ok :: "BillingEntryEntity list \<Rightarrow> bool" where
  "line_keys_ok es \<longleftrightarrow> distinct (map en_id es)
     \<and> distinct (map en_assignmentId (filter (\<lambda>e. en_isActive e \<and> isLiveBillingEntry (Some (en_state e))) es))"

lemma lines_for_set:
  "e \<in> set (lines_for db ids) \<longleftrightarrow> e \<in> set (db_entries db) \<and> en_assignmentId e \<in> set ids
     \<and> en_isActive e \<and> isLiveBillingEntry (Some (en_state e))"
  by (auto simp: lines_for_def)

lemma js_dedupe_props [simp]: "set (js_dedupe xs) = set xs" "distinct (js_dedupe xs)"
  by (simp_all add: js_dedupe_def)

lemma lines_cover:
  assumes "line_keys_ok (db_entries db)" "length (lines_for db ids) = length ids" "distinct ids"
  shows "en_assignmentId ` set (lines_for db ids) = set ids"
proof -
  let ?live = "filter (\<lambda>e. en_isActive e \<and> isLiveBillingEntry (Some (en_state e))) (db_entries db)"
  have inj: "inj_on en_assignmentId (set ?live)" and "distinct (db_entries db)"
    using assms(1) by (auto simp: line_keys_ok_def distinct_map)
  then have "distinct (lines_for db ids)" by (simp add: lines_for_def)
  moreover have "inj_on en_assignmentId (set (lines_for db ids))"
    by (rule inj_on_subset [OF inj]) (auto simp: lines_for_set)
  ultimately have "card (en_assignmentId ` set (lines_for db ids)) = card (set ids)"
    using assms(2,3) by (simp add: card_image distinct_card)
  moreover have "en_assignmentId ` set (lines_for db ids) \<subseteq> set ids" by (auto simp: lines_for_set)
  ultimately show ?thesis by (intro card_subset_eq) auto
qed

lemma create_refusal_None:
  "create_refusal c ids es = None \<longleftrightarrow> length es = length ids
     \<and> (\<forall>e \<in> set es. en_clientId e = c \<and> \<not> en_onHold e \<and> en_state e = BS_UNBILLED \<and> en_invoiceId e = None)"
  by (auto simp: create_refusal_def list_ex_iff)

lemma createInvoice_success:
  assumes "createInvoice env c ids d u db = (db', Inr v)"
  shows "create_refusal c (js_dedupe ids) (lines_for db (js_dedupe ids)) = None
    \<and> db_entries db' = db_entries (save_entries (map (invoiced_line (iv_id v)) (lines_for db (js_dedupe ids))) db)
    \<and> iv_total v = roundMoney (sum_list (map en_total (lines_for db (js_dedupe ids)))) \<and> iv_status v = IV_DRAFT
    \<and> iv_paid v = 0 \<and> iv_outstanding v = iv_total v \<and> iv_clientId v = c \<and> v \<in> set (db_invoices db')"
proof -
  obtain db1 number where n: "nextClientInvoiceNumber env db (nullish_value d (be_today env)) = Inr (db1, number)"
    and ok: "create_refusal c (js_dedupe ids) (lines_for db (js_dedupe ids)) = None"
    using assms by (auto simp: createInvoice_def inTx_def Let_def split: option.splits sum.splits prod.splits if_splits)
  from next_number [OF n] have same: "db_entries db1 = db_entries db" "db_invoices db1 = db_invoices db" by auto
  show ?thesis using assms ok same
    by (auto simp: createInvoice_def inTx_def Let_def n invoice_of_lines_def invoiced_line_def [abs_def] save_entries_def add_history_def
        split: option.splits if_splits)
qed

lemma saved_line:
  assumes "distinct (map en_id es)" "e \<in> set es" "set ls \<subseteq> set es" "e \<in> set ls" "db_entries db = es"
    and "\<And>x. en_id (f x) = en_id x"
  shows "f e \<in> set (db_entries (save_entries (map f ls) db))"
proof -
  have "List.find (\<lambda>x. en_id x = en_id e) (map f ls) = Some (f e)"
  proof (cases "List.find (\<lambda>x. en_id x = en_id e) (map f ls)")
    case None
    then show ?thesis using assms by (auto simp: find_None_iff)
  next
    case (Some y)
    then obtain x where "x \<in> set ls" "y = f x" "en_id x = en_id e"
      using assms(6) by (auto simp: find_Some_iff) (metis nth_mem)
    then have "x = e" using assms by (auto simp: distinct_map dest: inj_onD)
    then show ?thesis using Some \<open>y = f x\<close> by simp
  qed
  then show ?thesis using assms(2,5) by (force simp: save_entries_def)
qed

text \<open>
  C18. Work is put on an invoice once: an invoice is made only from one live line of each chosen
  assignment, all of that client's, unbilled, on no invoice and not on hold; its total is the rounded
  sum of theirs, and afterwards each of these lines carries the invoice. A second invoice that names any
  of these assignments is then refused and changes nothing.
\<close>

theorem work_is_invoiced_once:
  assumes keys: "line_keys_ok (db_entries db)" and made: "createInvoice env c ids d u db = (db', Inr v)"
  shows "iv_total v = roundMoney (sum_list (map en_total (lines_for db (js_dedupe ids))))
    \<and> en_assignmentId ` set (lines_for db (js_dedupe ids)) = set ids
    \<and> list_all (\<lambda>e. en_clientId e = c \<and> en_state e = BS_UNBILLED \<and> en_invoiceId e = None \<and> \<not> en_onHold e
                   \<and> invoiced_line (iv_id v) e \<in> set (db_entries db')) (lines_for db (js_dedupe ids))
    \<and> (set ids \<inter> set ids2 \<noteq> {} \<longrightarrow> (\<exists>err. createInvoice env2 c2 ids2 d2 u2 db' = (db', Inl err)))"
proof -
  let ?es = "lines_for db (js_dedupe ids)"
  note s = createInvoice_success [OF made]
  have cover: "en_assignmentId ` set ?es = set ids"
    using lines_cover [OF keys, of "js_dedupe ids"] s by (simp add: create_refusal_None)
  have put: "invoiced_line (iv_id v) x \<in> set (db_entries db')" if "x \<in> set ?es" for x
  proof -
    have "invoiced_line (iv_id v) x \<in> set (db_entries (save_entries (map (invoiced_line (iv_id v)) ?es) db))"
      using keys that by (intro saved_line [of "db_entries db"]) (auto simp: line_keys_ok_def lines_for_set invoiced_line_def)
    then show ?thesis using s by simp
  qed
  then have lines: "list_all (\<lambda>e. en_clientId e = c \<and> en_state e = BS_UNBILLED \<and> en_invoiceId e = None
      \<and> \<not> en_onHold e \<and> invoiced_line (iv_id v) e \<in> set (db_entries db')) ?es"
    using s by (simp add: create_refusal_None list_all_iff)
  have again: "\<exists>err. createInvoice env2 c2 ids2 d2 u2 db' = (db', Inl err)" if i: "i \<in> set ids" "i \<in> set ids2" for i
  proof -
    obtain x where x: "x \<in> set ?es" "en_assignmentId x = i" using cover i(1) by (metis imageE)
    have "invoiced_line (iv_id v) x \<in> set (lines_for db' (js_dedupe ids2))"
      using put [OF x(1)] x i(2)
      by (auto simp: lines_for_set invoiced_line_def isLiveBillingEntry_def DEAD_BILLING_STATES_def)
    then have "create_refusal c2 (js_dedupe ids2) (lines_for db' (js_dedupe ids2)) \<noteq> None"
      unfolding create_refusal_None
      by (auto simp: invoiced_line_def intro!: bexI [of _ "invoiced_line (iv_id v) x"])
    then show ?thesis by (auto simp: createInvoice_def inTx_def Let_def)
  qed
  from s cover lines again show ?thesis by blast
qed

theorem work_is_invoiced_once_witness:
  "\<exists>err. createInvoice sample_billing_env ''cl-1'' [''as-2'', ''as-1''] None ''u2''
      (fst (createInvoice sample_billing_env ''cl-1'' [''as-1''] None ''u1'' sample_ledger))
    = (fst (createInvoice sample_billing_env ''cl-1'' [''as-1''] None ''u1'' sample_ledger), Inl err)"
proof -
  have keys: "line_keys_ok (db_entries sample_ledger)" by (simp add: line_keys_ok_def sample_ledger_def)
  obtain db' v where "createInvoice sample_billing_env ''cl-1'' [''as-1''] None ''u1'' sample_ledger = (db', Inr v)"
    using sample_first by (cases "createInvoice sample_billing_env ''cl-1'' [''as-1''] None ''u1'' sample_ledger") auto
  from work_is_invoiced_once [OF keys this, of "[''as-2'', ''as-1'']" sample_billing_env "''cl-1''" None "''u2''"] this
  show ?thesis by simp
qed

end
