(* ===== verification/Identity_Numbers.thy ===== *)
theory Identity_Numbers
  imports Prelude
begin

text \<open>
  The validation of identity numbers in \<^verbatim>\<open>identity-validation.ts\<close> of the shared package: PAN, IFSC, GSTIN
  with its checksum, Aadhaar with the Verhoeff digit, mobile numbers and bank account numbers. A value of
  unknown type is a text, a number given by its printed form, or something else. The regular
  expressions are lists of character classes.
\<close>

datatype js_unknown = Text string | Printed string | Other

section \<open>Patterns\<close>

definition letter_i :: "char \<Rightarrow> bool" where
  "letter_i c \<longleftrightarrow> is_upper c \<or> is_lower c"

definition alnum_i :: "char \<Rightarrow> bool" where
  "alnum_i c \<longleftrightarrow> is_digit c \<or> letter_i c"

abbreviation matches :: "(char \<Rightarrow> bool) list \<Rightarrow> string \<Rightarrow> bool" where
  "matches ps s \<equiv> list_all2 (\<lambda>p c. p c) ps s"

definition PAN_PATTERN :: "(char \<Rightarrow> bool) list" where
  "PAN_PATTERN = replicate 5 letter_i @ replicate 4 is_digit @ [letter_i]"

definition GSTIN_PATTERN :: "(char \<Rightarrow> bool) list" where
  "GSTIN_PATTERN = replicate 2 is_digit @ replicate 5 letter_i @ replicate 4 is_digit
     @ [letter_i, \<lambda>c. alnum_i c \<and> c \<noteq> CHR ''0'', \<lambda>c. upper_char c = CHR ''Z'', alnum_i]"

definition IFSC_PATTERN :: "(char \<Rightarrow> bool) list" where
  "IFSC_PATTERN = replicate 4 letter_i @ [\<lambda>c. c = CHR ''0''] @ replicate 6 alnum_i"

definition AADHAAR_PATTERN :: "(char \<Rightarrow> bool) list" where
  "AADHAAR_PATTERN = replicate 12 is_digit"

section \<open>The Verhoeff digit\<close>

definition VERHOEFF_D :: "nat list list" where
  "VERHOEFF_D =
    [[0, 1, 2, 3, 4, 5, 6, 7, 8, 9],
     [1, 2, 3, 4, 0, 6, 7, 8, 9, 5],
     [2, 3, 4, 0, 1, 7, 8, 9, 5, 6],
     [3, 4, 0, 1, 2, 8, 9, 5, 6, 7],
     [4, 0, 1, 2, 3, 9, 5, 6, 7, 8],
     [5, 9, 8, 7, 6, 0, 4, 3, 2, 1],
     [6, 5, 9, 8, 7, 1, 0, 4, 3, 2],
     [7, 6, 5, 9, 8, 2, 1, 0, 4, 3],
     [8, 7, 6, 5, 9, 3, 2, 1, 0, 4],
     [9, 8, 7, 6, 5, 4, 3, 2, 1, 0]]"

definition VERHOEFF_P :: "nat list list" where
  "VERHOEFF_P =
    [[0, 1, 2, 3, 4, 5, 6, 7, 8, 9],
     [1, 5, 7, 6, 2, 8, 3, 0, 9, 4],
     [5, 8, 0, 3, 7, 9, 6, 1, 4, 2],
     [8, 9, 1, 6, 0, 4, 3, 5, 2, 7],
     [9, 4, 5, 3, 1, 2, 6, 8, 7, 0],
     [4, 2, 8, 6, 5, 7, 3, 9, 0, 1],
     [2, 7, 9, 3, 8, 0, 6, 4, 1, 5],
     [7, 0, 4, 6, 9, 1, 3, 2, 5, 8]]"

definition VERHOEFF_INV :: "nat list" where
  "VERHOEFF_INV = [0, 4, 3, 2, 1, 5, 6, 7, 8, 9]"

definition digitsOf :: "string \<Rightarrow> nat list option" where
  "digitsOf s = (if s \<noteq> [] \<and> list_all is_digit s then Some (map digit_value s) else None)"

text \<open>A loop that carries a value through the positions of a list.\<close>

primrec check_loop :: "(nat \<Rightarrow> 'a \<Rightarrow> 'd \<Rightarrow> 'a) \<Rightarrow> nat \<Rightarrow> 'a \<Rightarrow> 'd list \<Rightarrow> 'a" where
  "check_loop step i a [] = a"
| "check_loop step i a (d # ds) = check_loop step (Suc i) (step i a d) ds"

definition verhoeff_step :: "nat \<Rightarrow> nat \<Rightarrow> nat \<Rightarrow> nat" where
  "verhoeff_step i c d = VERHOEFF_D ! c ! (VERHOEFF_P ! (i mod 8) ! d)"

definition verhoeffValidates :: "string \<Rightarrow> bool" where
  "verhoeffValidates digits =
    (case digitsOf digits of None \<Rightarrow> False | Some ds \<Rightarrow> check_loop verhoeff_step 0 0 (rev ds) = 0)"

definition verhoeffCheckDigit :: "string \<Rightarrow> (string, nat) result" where
  "verhoeffCheckDigit payload =
    (case digitsOf payload of
       None \<Rightarrow> Inl ''verhoeffCheckDigit needs digits only''
     | Some ds \<Rightarrow> Inr (VERHOEFF_INV ! check_loop verhoeff_step 1 0 (rev ds)))"

section \<open>The check character of a GSTIN\<close>

definition GSTIN_ALPHABET :: string where
  "GSTIN_ALPHABET = ''0123456789ABCDEFGHIJKLMNOPQRSTUVWXYZ''"

primrec alphabet_indexOf :: "string \<Rightarrow> char \<Rightarrow> nat option" where
  "alphabet_indexOf [] c = None"
| "alphabet_indexOf (x # xs) c = (if x = c then Some 0 else map_option Suc (alphabet_indexOf xs c))"

definition gstin_fold :: "nat \<Rightarrow> nat" where
  "gstin_fold doubled = doubled div 36 + doubled mod 36"

text \<open>The loop over the characters from the right, with the factor and the sum it carries.\<close>

primrec gstin_sum :: "nat \<Rightarrow> nat \<Rightarrow> string \<Rightarrow> nat option" where
  "gstin_sum factor so_far [] = Some so_far"
| "gstin_sum factor so_far (c # cs) =
    (case alphabet_indexOf GSTIN_ALPHABET c of
       None \<Rightarrow> None
     | Some codePoint \<Rightarrow> gstin_sum (if factor = 2 then 1 else 2) (so_far + gstin_fold (factor * codePoint)) cs)"

definition gstinCheckDigit :: "string \<Rightarrow> (string, char) result" where
  "gstinCheckDigit payload =
    (case gstin_sum 2 0 (rev (js_upper payload)) of
       None \<Rightarrow> Inl ''gstinCheckDigit needs GSTIN alphabet characters (0-9, A-Z) only''
     | Some t \<Rightarrow> Inr (GSTIN_ALPHABET ! ((36 - t mod 36) mod 36)))"

section \<open>The validators\<close>

definition isValidPan :: "js_unknown \<Rightarrow> bool" where
  "isValidPan value = (case value of Text s \<Rightarrow> matches PAN_PATTERN (js_trim s) | _ \<Rightarrow> False)"

definition isValidIfsc :: "js_unknown \<Rightarrow> bool" where
  "isValidIfsc value = (case value of Text s \<Rightarrow> matches IFSC_PATTERN (js_trim s) | _ \<Rightarrow> False)"

definition isValidGstin :: "js_unknown \<Rightarrow> bool" where
  "isValidGstin value =
    (case value of
       Text v \<Rightarrow>
        (let s = js_trim v
         in matches GSTIN_PATTERN s \<and> gstinCheckDigit (take 14 s) = Inr (upper_char (s ! 14)))
     | _ \<Rightarrow> False)"

definition isGstinOrPan :: "js_unknown \<Rightarrow> bool" where
  "isGstinOrPan value =
    (case value of Text s \<Rightarrow> js_trim s = [] \<or> isValidGstin value \<or> isValidPan value | _ \<Rightarrow> False)"

definition isPlaceholderAadhaar :: "js_unknown \<Rightarrow> bool" where
  "isPlaceholderAadhaar value =
    (case value of
       Text v \<Rightarrow> (case js_trim v of [] \<Rightarrow> False | c # cs \<Rightarrow> is_digit c \<and> cs = replicate 11 c)
     | _ \<Rightarrow> False)"

definition isValidAadhaar :: "js_unknown \<Rightarrow> bool" where
  "isValidAadhaar value =
    (case value of
       Text v \<Rightarrow>
        (let s = js_trim v
         in matches AADHAAR_PATTERN s \<and> \<not> isPlaceholderAadhaar (Text s) \<and> verhoeffValidates s)
     | _ \<Rightarrow> False)"

definition phone_separator :: "char \<Rightarrow> bool" where
  "phone_separator c \<longleftrightarrow> js_ws c \<or> c \<in> {CHR ''-'', CHR ''('', CHR '')''}"

definition strip_plus :: "string \<Rightarrow> string" where
  "strip_plus s = (case s of c # cs \<Rightarrow> if c = CHR ''+'' then cs else s | [] \<Rightarrow> [])"

definition national_part :: "string \<Rightarrow> string" where
  "national_part s =
    (if length s = 12 \<and> take 2 s = ''91'' then drop 2 s
     else if length s = 11 \<and> take 1 s = ''0'' then drop 1 s else s)"

definition mobile_shape :: "string \<Rightarrow> bool" where
  "mobile_shape s \<longleftrightarrow> matches ((\<lambda>c. 54 \<le> code c \<and> code c \<le> 57) # replicate 9 is_digit) s"

definition normalisePhone :: "js_unknown \<Rightarrow> string option" where
  "normalisePhone value =
    (case (case value of Text v \<Rightarrow> Some v | Printed v \<Rightarrow> Some v | Other \<Rightarrow> None) of
       None \<Rightarrow> None
     | Some v \<Rightarrow>
        (let s = strip_plus (filter (\<lambda>c. \<not> phone_separator c) (js_trim v))
         in if \<not> (s \<noteq> [] \<and> list_all is_digit s) then None
            else if mobile_shape (national_part s) then Some (national_part s) else None))"

definition toE164IndianMobile :: "js_unknown \<Rightarrow> string option" where
  "toE164IndianMobile value =
    (case normalisePhone value of
       None \<Rightarrow> None
     | Some national \<Rightarrow> if national = [] then None else Some (''+91'' @ national))"

definition normaliseBankAccountNumber :: "string option \<Rightarrow> string" where
  "normaliseBankAccountNumber value =
    filter (\<lambda>c. \<not> (js_ws c \<or> c \<in> {CHR ''.'', CHR ''-''})) (nullish_value value [])"

definition isBankAccountNumber :: "string \<Rightarrow> bool" where
  "isBankAccountNumber value =
    (let s = normaliseBankAccountNumber (Some value) in list_all is_digit s \<and> 9 \<le> length s \<and> length s \<le> 18)"

section \<open>Walks that notice a slip\<close>

text \<open>
  What makes a checksum notice the slips of a typist: a step never forgets what it carried, tells any two
  symbols apart, and tells two neighbours from the same two the other way round, save for the pairs it
  is allowed to confuse.
\<close>

locale check_walk =
  fixes A :: "'a set" and D :: "'d set" and step :: "nat \<Rightarrow> 'a \<Rightarrow> 'd \<Rightarrow> 'a" and confused :: "'d \<Rightarrow> 'd \<Rightarrow> bool"
  assumes closed: "a \<in> A \<Longrightarrow> d \<in> D \<Longrightarrow> step i a d \<in> A"
    and remembers: "a \<in> A \<Longrightarrow> b \<in> A \<Longrightarrow> d \<in> D \<Longrightarrow> step i a d = step i b d \<Longrightarrow> a = b"
    and tells_apart: "a \<in> A \<Longrightarrow> d \<in> D \<Longrightarrow> e \<in> D \<Longrightarrow> step i a d = step i a e \<Longrightarrow> d = e"
    and order_matters: "a \<in> A \<Longrightarrow> d \<in> D \<Longrightarrow> e \<in> D \<Longrightarrow> d \<noteq> e \<Longrightarrow> \<not> confused d e \<Longrightarrow>
      step (Suc i) (step i a d) e \<noteq> step (Suc i) (step i a e) d"
begin

lemma walk_closed: "a \<in> A \<Longrightarrow> set ds \<subseteq> D \<Longrightarrow> check_loop step i a ds \<in> A"
  by (induction ds arbitrary: i a) (auto simp: closed)

lemma walk_remembers:
  "a \<in> A \<Longrightarrow> b \<in> A \<Longrightarrow> set ds \<subseteq> D \<Longrightarrow> check_loop step i a ds = check_loop step i b ds \<Longrightarrow> a = b"
proof (induction ds arbitrary: i a b)
  case (Cons d ds)
  have "step i a d = step i b d"
    by (rule Cons.IH [of _ _ "Suc i"]) (use Cons.prems in \<open>auto simp: closed\<close>)
  then show ?case using Cons.prems by (auto dest: remembers)
qed simp

lemma one_slip:
  assumes "a \<in> A" "set xs \<subseteq> D" "set ys \<subseteq> D" "d \<in> D" "e \<in> D" "d \<noteq> e"
  shows "check_loop step i a (xs @ d # ys) \<noteq> check_loop step i a (xs @ e # ys)"
  using assms
proof (induction xs arbitrary: i a)
  case Nil
  then show ?case using walk_remembers [of "step i a d" "step i a e" ys "Suc i"] tells_apart [of a d e i]
    by (auto simp: closed)
qed (simp add: closed)

lemma one_swap:
  assumes "a \<in> A" "set xs \<subseteq> D" "set ys \<subseteq> D" "d \<in> D" "e \<in> D" "d \<noteq> e" "\<not> confused d e"
  shows "check_loop step i a (xs @ d # e # ys) \<noteq> check_loop step i a (xs @ e # d # ys)"
  using assms
proof (induction xs arbitrary: i a)
  case Nil
  then show ?case
    using walk_remembers [of "step (Suc i) (step i a d) e" "step (Suc i) (step i a e) d" ys "Suc (Suc i)"]
      order_matters [of a d e i]
    by (auto simp: closed)
qed (simp add: closed)

end

section \<open>The Verhoeff walk\<close>

lemma below: "(\<forall>a<n. P a) \<longleftrightarrow> list_all P [0..<n]"
  by (auto simp: list_all_iff)

lemma d5_closed: "\<forall>a<10. \<forall>b<10. VERHOEFF_D ! a ! b < 10"
  unfolding below by code_simp

lemma d5_assoc: "\<forall>a<10. \<forall>b<10. \<forall>c<10. VERHOEFF_D ! (VERHOEFF_D ! a ! b) ! c = VERHOEFF_D ! a ! (VERHOEFF_D ! b ! c)"
  unfolding below by code_simp

lemma d5_unit: "\<forall>a<10. VERHOEFF_D ! 0 ! a = a \<and> VERHOEFF_D ! a ! 0 = a"
  unfolding below by code_simp

lemma d5_inverse: "\<forall>a<10. VERHOEFF_INV ! a < 10 \<and> VERHOEFF_D ! (VERHOEFF_INV ! a) ! a = 0 \<and> VERHOEFF_D ! a ! (VERHOEFF_INV ! a) = 0"
  unfolding below by code_simp

lemma permutation_rows: "\<forall>i<8. \<forall>a<10. VERHOEFF_P ! i ! a < 10 \<and> (\<forall>b<10. VERHOEFF_P ! i ! a = VERHOEFF_P ! i ! b \<longrightarrow> a = b)"
  unfolding below by code_simp

lemma permutation_first: "\<forall>a<10. VERHOEFF_P ! 0 ! a = a"
  unfolding below by code_simp

lemma permutation_swap:
  "\<forall>i<8. \<forall>a<10. \<forall>b<10. a \<noteq> b \<longrightarrow> VERHOEFF_D ! (VERHOEFF_P ! i ! a) ! (VERHOEFF_P ! (Suc i mod 8) ! b)
      \<noteq> VERHOEFF_D ! (VERHOEFF_P ! i ! b) ! (VERHOEFF_P ! (Suc i mod 8) ! a)"
  unfolding below by code_simp

lemma d5_cancel_left:
  assumes "a < 10" "b < 10" "c < 10" "VERHOEFF_D ! a ! b = VERHOEFF_D ! a ! c"
  shows "b = c"
proof -
  have "VERHOEFF_D ! (VERHOEFF_INV ! a) ! (VERHOEFF_D ! a ! x) = x" if "x < 10" for x
    using that assms(1) d5_assoc d5_inverse d5_unit by metis
  then show ?thesis using assms by metis
qed

lemma d5_cancel_right:
  assumes "a < 10" "b < 10" "c < 10" "VERHOEFF_D ! a ! c = VERHOEFF_D ! b ! c"
  shows "a = b"
proof -
  have "VERHOEFF_D ! (VERHOEFF_D ! x ! c) ! (VERHOEFF_INV ! c) = x" if "x < 10" for x
    using that assms(3) d5_assoc d5_inverse d5_unit by metis
  then show ?thesis using assms by metis
qed

lemma verhoeff_bounds: "c < 10 \<Longrightarrow> d < 10 \<Longrightarrow> VERHOEFF_P ! (i mod 8) ! d < 10 \<and> verhoeff_step i c d < 10"
  using permutation_rows d5_closed by (simp add: verhoeff_step_def)

interpretation verhoeff: check_walk "{..<10}" "{..<10}" verhoeff_step "\<lambda>_ _. False"
proof
  fix a d i :: nat assume "a \<in> {..<10}" "d \<in> {..<10}"
  then show "verhoeff_step i a d \<in> {..<10}" using verhoeff_bounds by simp
next
  fix a b d i :: nat assume "a \<in> {..<10}" "b \<in> {..<10}" "d \<in> {..<10}" "verhoeff_step i a d = verhoeff_step i b d"
  then show "a = b" using verhoeff_bounds [of a d i] by (auto simp: verhoeff_step_def intro: d5_cancel_right)
next
  fix a d e i :: nat assume h: "a \<in> {..<10}" "d \<in> {..<10}" "e \<in> {..<10}" "verhoeff_step i a d = verhoeff_step i a e"
  then have "VERHOEFF_P ! (i mod 8) ! d = VERHOEFF_P ! (i mod 8) ! e"
    using verhoeff_bounds [of a] by (auto simp: verhoeff_step_def intro: d5_cancel_left)
  then show "d = e" using h permutation_rows by (metis lessThan_iff mod_less_divisor zero_less_numeral)
next
  fix a d e i :: nat assume h: "a \<in> {..<10}" "d \<in> {..<10}" "e \<in> {..<10}" "d \<noteq> e"
  let ?p = "\<lambda>i d. VERHOEFF_P ! (i mod 8) ! d"
  have two: "verhoeff_step (Suc i) (verhoeff_step i a x) y = VERHOEFF_D ! a ! (VERHOEFF_D ! ?p i x ! ?p (Suc i) y)"
    if "x < 10" "y < 10" for x y
    using that h verhoeff_bounds [of a x i] verhoeff_bounds [of a y "Suc i"] d5_assoc by (simp add: verhoeff_step_def)
  have "VERHOEFF_D ! ?p i d ! ?p (Suc i) e \<noteq> VERHOEFF_D ! ?p i e ! ?p (Suc i) d"
    using permutation_swap h by (metis lessThan_iff mod_Suc_eq mod_less_divisor zero_less_numeral)
  then show "verhoeff_step (Suc i) (verhoeff_step i a d) e \<noteq> verhoeff_step (Suc i) (verhoeff_step i a e) d"
    using h two d5_closed verhoeff_bounds d5_cancel_left by (metis lessThan_iff)
qed

lemma walk_from: "c < 10 \<Longrightarrow> set ds \<subseteq> {..<10} \<Longrightarrow> check_loop verhoeff_step i c ds = VERHOEFF_D ! c ! check_loop verhoeff_step i 0 ds"
proof (induction ds arbitrary: i c)
  case (Cons d ds)
  let ?p = "VERHOEFF_P ! (i mod 8) ! d"
  have p: "?p < 10" "verhoeff_step i c d < 10" "verhoeff_step i 0 d < 10" using verhoeff_bounds Cons.prems by auto
  have w: "check_loop verhoeff_step (Suc i) 0 ds < 10" using verhoeff.walk_closed [of 0 ds "Suc i"] Cons.prems by simp
  have "check_loop verhoeff_step i c (d # ds) = VERHOEFF_D ! verhoeff_step i c d ! check_loop verhoeff_step (Suc i) 0 ds"
    using Cons.IH [OF p(2), of "Suc i"] Cons.prems(2) by simp
  also have "\<dots> = VERHOEFF_D ! c ! (VERHOEFF_D ! ?p ! check_loop verhoeff_step (Suc i) 0 ds)"
    by (simp only: verhoeff_step_def [of i c d] d5_assoc [rule_format, OF Cons.prems(1) p(1) w])
  also have "VERHOEFF_D ! ?p ! check_loop verhoeff_step (Suc i) 0 ds = check_loop verhoeff_step i 0 (d # ds)"
    using Cons.IH [OF p(3), of "Suc i"] Cons.prems(2) p(1) d5_unit by (simp add: verhoeff_step_def [of i 0 d])
  finally show ?case .
qed (simp add: d5_unit)

lemma digitsOf_digits: "list_all is_digit s \<Longrightarrow> s \<noteq> [] \<Longrightarrow> digitsOf s = Some (map digit_value s)"
  by (simp add: digitsOf_def)

lemma digit_values_below: "list_all is_digit s \<Longrightarrow> digit_value ` set s \<subseteq> {..<10}"
  by (auto simp: list_all_iff)

text \<open>
  The check digit is the one digit that validates: appended to a payload of digits, the number
  passes exactly when the appended digit is the computed one, whatever the length; and a payload that
  holds anything but digits, or nothing, is refused with an error.
\<close>

theorem check_digit_is_the_one:
  "(if payload \<noteq> [] \<and> list_all is_digit payload
    then \<exists>k<10. verhoeffCheckDigit payload = Inr k
           \<and> (\<forall>c. verhoeffValidates (payload @ [c]) \<longleftrightarrow> c = digit_char k)
    else refused (verhoeffCheckDigit payload))"
proof (cases "payload \<noteq> [] \<and> list_all is_digit payload")
  case True
  let ?ds = "rev (map digit_value payload)"
  let ?w = "check_loop verhoeff_step 1 0 ?ds"
  have ds: "set ?ds \<subseteq> {..<10}" using digit_values_below True by auto
  then have w: "?w < 10" using verhoeff.walk_closed [of 0 ?ds 1] by simp
  have k: "VERHOEFF_INV ! ?w < 10" using d5_inverse w by blast
  have "verhoeffValidates (payload @ [c]) \<longleftrightarrow> c = digit_char (VERHOEFF_INV ! ?w)" for c
  proof (cases "is_digit c")
    case dig: True
    have c: "digit_value c < 10" using dig by simp
    have "verhoeffValidates (payload @ [c]) \<longleftrightarrow> check_loop verhoeff_step 1 (verhoeff_step 0 0 (digit_value c)) ?ds = 0"
      using True dig by (simp add: verhoeffValidates_def digitsOf_digits)
    also have "verhoeff_step 0 0 (digit_value c) = digit_value c"
      using c d5_unit permutation_first by (simp add: verhoeff_step_def)
    also have "check_loop verhoeff_step 1 (digit_value c) ?ds = 0 \<longleftrightarrow> VERHOEFF_D ! digit_value c ! ?w = 0"
      using walk_from [OF c ds] by simp
    also have "\<dots> \<longleftrightarrow> digit_value c = VERHOEFF_INV ! ?w"
      using d5_inverse w k c d5_cancel_right by metis
    also have "\<dots> \<longleftrightarrow> c = digit_char (VERHOEFF_INV ! ?w)"
      using dig k by (metis digit_char_digit_value digit_value_digit_char)
    finally show ?thesis .
  next
    case False
    then show ?thesis using k by (auto simp: verhoeffValidates_def digitsOf_def)
  qed
  then show ?thesis using True k by (auto simp: verhoeffCheckDigit_def digitsOf_digits)
qed (auto simp: verhoeffCheckDigit_def digitsOf_def refused_def)

lemma js_trim_same_length:
  assumes "length (js_trim s) = length s"
  shows "js_trim s = s"
proof -
  have le: "length (dropWhile P xs) \<le> length xs" for P and xs :: string by (rule length_dropWhile_le)
  have all: "dropWhile P xs = xs" if "length (dropWhile P xs) = length xs" for P and xs :: string
    using that by (metis append_same_eq append_self_conv2 length_0_conv length_append self_append_conv2 takeWhile_dropWhile_id add_cancel_left_left)
  let ?t = "dropWhile js_ws s"
  have "length (dropWhile js_ws (rev ?t)) = length s" using assms by (simp add: js_trim_def)
  then have "length ?t = length s" "length (dropWhile js_ws (rev ?t)) = length (rev ?t)"
    using le [of js_ws "rev ?t"] le [of js_ws s] by auto
  then have "?t = s" "dropWhile js_ws (rev ?t) = rev ?t" using all [of js_ws s] all [of js_ws "rev ?t"] by blast+
  then show ?thesis by (simp add: js_trim_def)
qed

lemma aadhaar_shape: "matches AADHAAR_PATTERN s \<longleftrightarrow> length s = 12 \<and> list_all is_digit s"
  by (auto simp: AADHAAR_PATTERN_def list_all2_conv_all_nth list_all_length)

lemma aadhaar_digits:
  assumes "isValidAadhaar (Text s)" "js_trim s = s"
  shows "length s = 12 \<and> list_all is_digit s \<and> check_loop verhoeff_step 0 0 (rev (map digit_value s)) = 0"
  using assms by (auto simp: isValidAadhaar_def aadhaar_shape verhoeffValidates_def digitsOf_def Let_def split: if_splits)

lemma aadhaar_trimmed: "isValidAadhaar (Text s) \<Longrightarrow> length s = 12 \<Longrightarrow> js_trim s = s"
  by (rule js_trim_same_length) (simp add: isValidAadhaar_def aadhaar_shape Let_def)

text \<open>
  C21. A valid Aadhaar number is twelve digits, and both slips a clerk makes with it are caught: with any
  one digit replaced by another character, or two different neighbours swapped, it is refused.
\<close>

theorem aadhaar_slips_caught:
  assumes "isValidAadhaar (Text (xs @ a # ys))" "js_trim (xs @ a # ys) = xs @ a # ys"
  shows "length (xs @ a # ys) = 12 \<and> list_all is_digit (xs @ a # ys)
    \<and> (b \<noteq> a \<longrightarrow> \<not> isValidAadhaar (Text (xs @ b # ys)))
    \<and> (ys = b # zs \<and> b \<noteq> a \<longrightarrow> \<not> isValidAadhaar (Text (xs @ b # a # zs)))"
proof -
  note v = aadhaar_digits [OF assms]
  have below: "digit_value ` set xs \<subseteq> {..<10}" "digit_value ` set ys \<subseteq> {..<10}" "is_digit a"
    using v digit_values_below by (auto simp: list_all_append)
  have one: "\<not> isValidAadhaar (Text (xs @ b # ys))" if "b \<noteq> a"
  proof
    assume w: "isValidAadhaar (Text (xs @ b # ys))"
    then have t: "js_trim (xs @ b # ys) = xs @ b # ys" using v by (intro aadhaar_trimmed) auto
    have b: "is_digit b" "check_loop verhoeff_step 0 0 (rev (map digit_value (xs @ b # ys))) = 0"
      using aadhaar_digits [OF w t] by auto
    then have "digit_value a \<noteq> digit_value b" using that below by (simp add: digit_value_inject)
    from verhoeff.one_slip [OF _ _ _ _ _ this, of 0 "rev (map digit_value ys)" "rev (map digit_value xs)" 0]
    show False using b v below by auto
  qed
  have two: "\<not> isValidAadhaar (Text (xs @ b # a # zs))" if "ys = b # zs" "b \<noteq> a"
  proof
    assume w: "isValidAadhaar (Text (xs @ b # a # zs))"
    then have t: "js_trim (xs @ b # a # zs) = xs @ b # a # zs" using v that by (intro aadhaar_trimmed) auto
    have b: "is_digit b" "check_loop verhoeff_step 0 0 (rev (map digit_value (xs @ b # a # zs))) = 0"
      using aadhaar_digits [OF w t] by auto
    then have "digit_value a \<noteq> digit_value b" using that below by (simp add: digit_value_inject)
    from verhoeff.one_swap [OF _ _ _ _ _ this, of 0 "rev (map digit_value zs)" "rev (map digit_value xs)" 0]
    show False using b v below that by auto
  qed
  show ?thesis using v one two by blast
qed

theorem aadhaar_slips_caught_witness:
  "isValidAadhaar (Text ''234123412346'') \<and> \<not> isValidAadhaar (Text ''235123412346'')
    \<and> \<not> isValidAadhaar (Text ''243123412346'')"
proof -
  have "isValidAadhaar (Text ''234123412346'')" by code_simp
  moreover have "js_trim ''234123412346'' = ''234123412346''" by code_simp
  ultimately show ?thesis
    using aadhaar_slips_caught [of "''23''" "CHR ''4''" "''123412346''" "CHR ''5''"]
      aadhaar_slips_caught [of "''2''" "CHR ''3''" "''4123412346''" "CHR ''4''" "''123412346''"] by simp
qed

section \<open>The check character of a GSTIN\<close>

definition gst_index :: "char \<Rightarrow> nat" where
  "gst_index c = (if is_digit (upper_char c) then code (upper_char c) - 48 else code (upper_char c) - 55)"

definition gstin_step :: "nat \<Rightarrow> nat \<Rightarrow> nat \<Rightarrow> nat" where
  "gstin_step i a p = (a + gstin_fold ((if even i then 2 else 1) * p)) mod 36"

definition zero_and_z :: "nat \<Rightarrow> nat \<Rightarrow> bool" where
  "zero_and_z p q \<longleftrightarrow> {p, q} = {0, 35}"

lemma fold_inject: "\<forall>p<36. \<forall>q<36. gstin_fold (2 * p) mod 36 = gstin_fold (2 * q) mod 36 \<longrightarrow> p = q"
  unfolding below by code_simp

lemma fold_one: "p < 36 \<Longrightarrow> gstin_fold p = p"
  by (simp add: gstin_fold_def)

lemma fold_swap: "\<forall>p<36. \<forall>q<36. p \<noteq> q \<longrightarrow> (gstin_fold (2 * p) + q) mod 36 = (gstin_fold (2 * q) + p) mod 36 \<longrightarrow> (p = 0 \<and> q = 35 \<or> p = 35 \<and> q = 0)"
  unfolding below by code_simp

lemma add_mod_cancel:
  fixes a x y :: nat
  assumes "(a + x) mod 36 = (a + y) mod 36"
  shows "x mod 36 = y mod 36"
proof -
  have "int (a + x) mod 36 = int (a + y) mod 36" using assms by (metis of_nat_mod of_nat_numeral)
  then have "36 dvd int x - int y" by (simp add: mod_eq_dvd_iff)
  then have "int x mod 36 = int y mod 36" by (simp add: mod_eq_dvd_iff)
  then show ?thesis by (metis of_nat_eq_iff of_nat_mod of_nat_numeral)
qed

lemma add_mod_cancel_right: "(x + a) mod 36 = (y + a) mod 36 \<Longrightarrow> x mod 36 = y mod (36 :: nat)"
  using add_mod_cancel [of a x y] by (simp only: add.commute)

lemma add_mod_nested:
  fixes a x y :: nat
  shows "((a + x) mod 36 + y) mod 36 = (a + (x + y)) mod 36" "((a + x) mod 36 + y) mod 36 = (a + (y + x)) mod 36"
  using mod_add_left_eq [of "a + x" 36 y] by (simp_all only: add.assoc add.commute [of y x])

interpretation gstin: check_walk "{..<36}" "{..<36}" gstin_step zero_and_z
proof
  fix a d i :: nat assume "a \<in> {..<36}" "d \<in> {..<36}"
  then show "gstin_step i a d \<in> {..<36}" by (simp add: gstin_step_def)
next
  fix a b d i :: nat assume "a \<in> {..<36}" "b \<in> {..<36}" "gstin_step i a d = gstin_step i b d"
  then show "a = b" using add_mod_cancel_right [of a _ b] by (auto simp: gstin_step_def)
next
  fix a d e i :: nat assume h: "d \<in> {..<36}" "e \<in> {..<36}" "gstin_step i a d = gstin_step i a e"
  from h(3) have "gstin_fold ((if even i then 2 else 1) * d) mod 36 = gstin_fold ((if even i then 2 else 1) * e) mod 36"
    unfolding gstin_step_def by (rule add_mod_cancel)
  then show "d = e" using h(1,2) fold_inject [rule_format, of d e] by (simp add: fold_one split: if_splits)
next
  fix a d e i :: nat assume h: "d \<in> {..<36}" "e \<in> {..<36}" "d \<noteq> e" "\<not> zero_and_z d e"
  have two: "gstin_step (Suc i) (gstin_step i a x) y
      = (a + (if even i then gstin_fold (2 * x) + y else gstin_fold (2 * y) + x)) mod 36" if "x < 36" "y < 36" for x y
  proof (cases "even i")
    case True
    then show ?thesis using that by (simp add: gstin_step_def fold_one add_mod_nested(1))
  next
    case False
    then show ?thesis using that by (simp add: gstin_step_def fold_one add_mod_nested(2))
  qed
  show "gstin_step (Suc i) (gstin_step i a d) e \<noteq> gstin_step (Suc i) (gstin_step i a e) d"
  proof
    assume same: "gstin_step (Suc i) (gstin_step i a d) e = gstin_step (Suc i) (gstin_step i a e) d"
    have "(if even i then gstin_fold (2 * d) + e else gstin_fold (2 * e) + d) mod 36
        = (if even i then gstin_fold (2 * e) + d else gstin_fold (2 * d) + e) mod 36"
      by (rule add_mod_cancel [of a]) (use same h two in auto)
    then show False using h fold_swap [rule_format, of d e] by (auto simp: zero_and_z_def split: if_splits)
  qed
qed

lemma indexOf_Some: "alphabet_indexOf xs c = Some k \<Longrightarrow> k < length xs \<and> xs ! k = c"
  by (induction xs arbitrary: k) (auto split: if_splits)

lemma indexOf_None: "c \<notin> set xs \<Longrightarrow> alphabet_indexOf xs c = None"
  by (induction xs) auto

lemma alphabet_nth: "k < 36 \<Longrightarrow> alphabet_indexOf GSTIN_ALPHABET (GSTIN_ALPHABET ! k) = Some k"
proof -
  have "list_all (\<lambda>k. alphabet_indexOf GSTIN_ALPHABET (GSTIN_ALPHABET ! k) = Some k) [0..<36]" by code_simp
  then show "k < 36 \<Longrightarrow> ?thesis" by (simp add: list_all_iff)
qed

lemma alphabet_code: "k < 36 \<Longrightarrow> code (GSTIN_ALPHABET ! k) = (if k < 10 then 48 + k else 55 + k)"
proof -
  have "list_all (\<lambda>k. code (GSTIN_ALPHABET ! k) = (if k < 10 then 48 + k else 55 + k)) [0..<36]" by code_simp
  then show "k < 36 \<Longrightarrow> ?thesis" by (simp add: list_all_iff)
qed

lemma indexOf_alphabet:
  "alphabet_indexOf GSTIN_ALPHABET c = (if is_digit c then Some (code c - 48) else if is_upper c then Some (code c - 55) else None)"
proof (cases "is_digit c \<or> is_upper c")
  case True
  define k where "k = (if is_digit c then code c - 48 else code c - 55)"
  have k: "k < 36" using True by (auto simp: k_def is_digit_def is_upper_def)
  have "code (GSTIN_ALPHABET ! k) = code c"
    unfolding alphabet_code [OF k] using True by (auto simp: k_def is_digit_def is_upper_def)
  then have "GSTIN_ALPHABET ! k = c" by simp
  then show ?thesis using alphabet_nth [OF k] True by (simp add: k_def split: if_splits)
next
  case False
  have "length GSTIN_ALPHABET = 36" by (simp add: GSTIN_ALPHABET_def)
  then have "c \<notin> set GSTIN_ALPHABET"
    using False alphabet_code by (auto simp: in_set_conv_nth is_digit_def is_upper_def split: if_splits)
  then show ?thesis using False by (simp add: indexOf_None)
qed

lemma upper_digit [simp]: "is_digit c \<Longrightarrow> upper_char c = c"
  by (simp add: upper_char_def is_lower_def is_digit_def)

lemma upper_letter: "letter_i c \<Longrightarrow> is_upper (upper_char c) \<and> \<not> is_digit (upper_char c)"
  by (auto simp: letter_i_def upper_char_def is_lower_def is_upper_def is_digit_def)

lemma alnum_index: "alnum_i c \<Longrightarrow> alphabet_indexOf GSTIN_ALPHABET (upper_char c) = Some (gst_index c) \<and> gst_index c < 36"
  using upper_letter [of c]
  by (auto simp: alnum_i_def indexOf_alphabet gst_index_def is_digit_def is_upper_def)

lemma gst_index_inject: "alnum_i c \<Longrightarrow> alnum_i d \<Longrightarrow> gst_index c = gst_index d \<longleftrightarrow> upper_char c = upper_char d"
  using upper_letter [of c] upper_letter [of d] code_inject [of "upper_char c" "upper_char d"]
  by (auto simp: alnum_i_def gst_index_def is_digit_def is_upper_def eq_diff_iff)

lemma gstin_sum_walk:
  "list_all alnum_i cs \<Longrightarrow> \<exists>t. gstin_sum (if even i then 2 else 1) s (js_upper cs) = Some t
     \<and> t mod 36 = check_loop gstin_step i (s mod 36) (map gst_index cs)"
proof (induction cs arbitrary: i s)
  case (Cons c cs)
  then have "alnum_i c" by simp
  have m: "(s + x) mod 36 = (s mod 36 + x) mod 36" for x by (simp add: mod_add_left_eq)
  from Cons.IH [of "Suc i" "s + gstin_fold ((if even i then 2 else 1) * gst_index c)"] Cons.prems
  show ?case using alnum_index [OF \<open>alnum_i c\<close>] m by (auto simp: gstin_step_def)
qed simp

definition gst_walk :: "string \<Rightarrow> nat" where
  "gst_walk xs = check_loop gstin_step 0 0 (rev (map gst_index xs))"

lemma gst_walk_below: "list_all alnum_i xs \<Longrightarrow> gst_walk xs < 36"
  using gstin.walk_closed [of 0 "rev (map gst_index xs)" 0] alnum_index
  by (auto simp: gst_walk_def list_all_iff)

lemma gstinCheckDigit_walk:
  assumes "list_all alnum_i xs"
  shows "gstinCheckDigit xs = Inr (GSTIN_ALPHABET ! ((36 - gst_walk xs) mod 36))"
  using gstin_sum_walk [of "rev xs" 0 0] assms
  by (auto simp: gstinCheckDigit_def gst_walk_def rev_map)

lemma gstin_shape:
  assumes "matches GSTIN_PATTERN s"
  shows "length s = 15" "list_all alnum_i s"
proof -
  show "length s = 15" using list_all2_lengthD [OF assms] by (simp add: GSTIN_PATTERN_def)
  have z: "upper_char c = CHR ''Z'' \<Longrightarrow> letter_i c" for c
    by (auto simp: upper_char_def letter_i_def is_upper_def code_def split: if_splits)
  have "\<forall>k<15. (GSTIN_PATTERN ! k) c \<longrightarrow> alnum_i c" for c
    unfolding below by (auto simp: GSTIN_PATTERN_def alnum_i_def eval_nat_numeral dest: z)
  then show "list_all alnum_i s" using assms \<open>length s = 15\<close>
    by (auto simp: list_all2_conv_all_nth list_all_length)
qed

lemma gstin_valid_iff:
  assumes "js_trim s = s"
  shows "isValidGstin (Text s) \<longleftrightarrow> matches GSTIN_PATTERN s \<and> gst_index (s ! 14) = (36 - gst_walk (take 14 s)) mod 36"
proof (cases "matches GSTIN_PATTERN s")
  case True
  have a: "list_all alnum_i (take 14 s)" "alnum_i (s ! 14)"
    using gstin_shape [OF True] by (auto simp: list_all_iff dest: in_set_takeD)
  let ?k = "(36 - gst_walk (take 14 s)) mod 36"
  have "GSTIN_ALPHABET ! ?k = upper_char (s ! 14) \<longleftrightarrow> gst_index (s ! 14) = ?k"
    using alphabet_nth [of ?k] alnum_index [OF a(2)] indexOf_Some [of GSTIN_ALPHABET "upper_char (s ! 14)"] by auto
  then show ?thesis using True assms by (simp add: isValidGstin_def gstinCheckDigit_walk [OF a(1)])
qed (simp add: isValidGstin_def assms)

lemma gstin_trimmed: "isValidGstin (Text s) \<Longrightarrow> length s = 15 \<Longrightarrow> js_trim s = s"
  by (rule js_trim_same_length) (auto simp: isValidGstin_def Let_def gstin_shape)

lemma gst_walk_split:
  "gst_walk (xs @ zs @ ys) = check_loop gstin_step 0 0 (rev (map gst_index ys) @ rev (map gst_index zs) @ rev (map gst_index xs))"
  by (simp add: gst_walk_def)

lemma gst_check_inject: "a < 36 \<Longrightarrow> b < 36 \<Longrightarrow> (36 - a) mod 36 = (36 - b) mod 36 \<longleftrightarrow> a = (b :: nat)"
  by (cases "a = 0"; cases "b = 0") (auto simp: mod_if)

lemma gst_indices: "list_all alnum_i xs \<Longrightarrow> gst_index ` set xs \<subseteq> {..<36}"
  using alnum_index by (auto simp: list_all_iff)

text \<open>The walks of two payloads that differ in one character, or in the order of two neighbours.\<close>

lemma gst_walk_slip:
  assumes "list_all alnum_i (xs @ a # ys)" "alnum_i b" "upper_char a \<noteq> upper_char b"
  shows "gst_walk (xs @ a # ys) \<noteq> gst_walk (xs @ b # ys)"
  using gstin.one_slip [of 0 "rev (map gst_index ys)" "rev (map gst_index xs)" "gst_index a" "gst_index b" 0]
    gst_indices [of "xs @ a # ys"] alnum_index [OF assms(2)] gst_index_inject [of a b] assms
  by (auto simp: gst_walk_def)

lemma gst_walk_swap:
  assumes "list_all alnum_i (xs @ a # b # ys)" "upper_char a \<noteq> upper_char b"
    and "{upper_char a, upper_char b} \<noteq> {CHR ''0'', CHR ''Z''}"
  shows "gst_walk (xs @ a # b # ys) \<noteq> gst_walk (xs @ b # a # ys)"
proof -
  have ab: "alnum_i a" "alnum_i b" using assms by auto
  have z: "alnum_i (CHR ''0'')" "alnum_i (CHR ''Z'')" "gst_index (CHR ''0'') = 0" "gst_index (CHR ''Z'') = 35"
    "upper_char (CHR ''0'') = CHR ''0''" "upper_char (CHR ''Z'') = CHR ''Z''" by code_simp+
  have "\<not> zero_and_z (gst_index b) (gst_index a)"
    using assms(3) gst_index_inject [OF ab(1) z(1)] gst_index_inject [OF ab(1) z(2)]
      gst_index_inject [OF ab(2) z(1)] gst_index_inject [OF ab(2) z(2)]
    by (auto simp: zero_and_z_def z doubleton_eq_iff)
  then show ?thesis
    using gstin.one_swap [of 0 "rev (map gst_index ys)" "rev (map gst_index xs)" "gst_index b" "gst_index a" 0]
      gst_indices [of "xs @ a # b # ys"] gst_index_inject [OF ab] assms
    by (auto simp: gst_walk_def)
qed

text \<open>Where a zero and a Z could stand side by side, the shape gives them away.\<close>

lemma shape_parts:
  assumes "matches GSTIN_PATTERN s"
  shows "k < 14 \<Longrightarrow> (GSTIN_PATTERN ! k) (s ! k) \<and> (GSTIN_PATTERN ! Suc k) (s ! Suc k)"
  using assms by (auto simp: list_all2_conv_all_nth GSTIN_PATTERN_def)

lemma zero_z_positions:
  "k < 13 \<Longrightarrow> (GSTIN_PATTERN ! k) a \<Longrightarrow> (GSTIN_PATTERN ! Suc k) b \<Longrightarrow> (GSTIN_PATTERN ! k) b \<Longrightarrow> (GSTIN_PATTERN ! Suc k) a
    \<Longrightarrow> {upper_char a, upper_char b} \<noteq> {CHR ''0'', CHR ''Z''}"
proof -
  have l: "letter_i c \<Longrightarrow> upper_char c \<noteq> CHR ''0''" for c
    using upper_letter [of c] by (auto simp: is_upper_def code_def)
  have z: "upper_char c = CHR ''0'' \<longleftrightarrow> c = CHR ''0''" for c
  proof (cases "is_lower c")
    case True
    then have "letter_i c" by (simp add: letter_i_def)
    moreover from True have "c \<noteq> CHR ''0''" by (auto simp: is_lower_def code_def)
    ultimately show ?thesis using l by simp
  qed (simp add: upper_char_def)
  have d: "is_digit c \<Longrightarrow> upper_char c \<noteq> CHR ''Z''" for c
    by (auto simp: is_digit_def code_def)
  have n: "\<not> letter_i (CHR ''0'')" by code_simp
  note up = l z d n
  have "list_all (\<lambda>k. (GSTIN_PATTERN ! k) a \<longrightarrow> (GSTIN_PATTERN ! Suc k) b \<longrightarrow> (GSTIN_PATTERN ! k) b \<longrightarrow> (GSTIN_PATTERN ! Suc k) a
      \<longrightarrow> {upper_char a, upper_char b} \<noteq> {CHR ''0'', CHR ''Z''}) [0..<13]"
    using up by (auto simp: GSTIN_PATTERN_def doubleton_eq_iff eval_nat_numeral)
  then show "k < 13 \<Longrightarrow> (GSTIN_PATTERN ! k) a \<Longrightarrow> (GSTIN_PATTERN ! Suc k) b \<Longrightarrow> (GSTIN_PATTERN ! k) b \<Longrightarrow>
      (GSTIN_PATTERN ! Suc k) a \<Longrightarrow> ?thesis" by (simp add: list_all_iff)
qed

lemma gstin_valid_parts:
  assumes "isValidGstin (Text s)" "length s = 15"
  shows "matches GSTIN_PATTERN s" "gst_index (s ! 14) = (36 - gst_walk (take 14 s)) mod 36"
    "list_all alnum_i (take 14 s)" "gst_walk (take 14 s) < 36"
proof -
  show shape: "matches GSTIN_PATTERN s" and "gst_index (s ! 14) = (36 - gst_walk (take 14 s)) mod 36"
    using assms gstin_valid_iff [OF gstin_trimmed [OF assms]] by auto
  show "list_all alnum_i (take 14 s)" using gstin_shape [OF shape] by (auto simp: list_all_iff dest: in_set_takeD)
  then show "gst_walk (take 14 s) < 36" by (rule gst_walk_below)
qed

lemma gstin_same_walk:
  assumes "isValidGstin (Text s)" "length s = 15" "isValidGstin (Text t)" "length t = 15" "t ! 14 = s ! 14"
  shows "gst_walk (take 14 s) = gst_walk (take 14 t)"
  using gstin_valid_parts [OF assms(1,2)] gstin_valid_parts [OF assms(3,4)] assms(5) gst_check_inject by metis

lemma gstin_one_slip:
  assumes s: "isValidGstin (Text s)" "length s = 15" and k: "k < 15" "upper_char c \<noteq> upper_char (s ! k)"
  shows "\<not> isValidGstin (Text (s[k := c]))"
proof
  assume v: "isValidGstin (Text (s[k := c]))"
  have l: "length (s[k := c]) = 15" using s(2) by simp
  have "s[k := c] ! k = c" using k(1) s(2) by simp
  then have c: "alnum_i c" "alnum_i (s ! k)"
    using gstin_shape(2) [OF gstin_valid_parts(1) [OF v l]] gstin_shape(2) [OF gstin_valid_parts(1) [OF s]] k(1) s(2)
    by (auto simp: list_all_length)
  show False
  proof (cases "k = 14")
    case True
    then show False
      using gstin_valid_parts(2) [OF v l] gstin_valid_parts(2) [OF s] k s(2) gst_index_inject [OF c] by simp
  next
    case False
    then have k14: "k < length (take 14 s)" using k s(2) by simp
    let ?xs = "take k (take 14 s)" and ?ys = "drop (Suc k) (take 14 s)"
    have parts: "take 14 s = ?xs @ s ! k # ?ys" "(take 14 s)[k := c] = ?xs @ c # ?ys"
      using id_take_nth_drop [OF k14] upd_conv_take_nth_drop [OF k14, of c] k14 by simp_all
    have "list_all alnum_i (?xs @ s ! k # ?ys)" using gstin_valid_parts(3) [OF s] parts(1) by metis
    from gst_walk_slip [OF this c(1)] have "gst_walk (take 14 s) \<noteq> gst_walk ((take 14 s)[k := c])"
      using k(2) parts by metis
    then show False using gstin_same_walk [OF s v l] False k by (auto simp: take_update_swap)
  qed
qed

lemma gstin_one_swap:
  assumes s: "isValidGstin (Text s)" "length s = 15" and k: "k < 14" "upper_char (s ! k) \<noteq> upper_char (s ! Suc k)"
  shows "\<not> isValidGstin (Text (s[k := s ! Suc k, Suc k := s ! k]))"
proof
  let ?t = "s[k := s ! Suc k, Suc k := s ! k]"
  assume v: "isValidGstin (Text ?t)"
  have l: "length ?t = 15" using s(2) by simp
  have p: "(GSTIN_PATTERN ! k) (s ! k)" "(GSTIN_PATTERN ! Suc k) (s ! Suc k)"
    "(GSTIN_PATTERN ! k) (s ! Suc k)" "(GSTIN_PATTERN ! Suc k) (s ! k)"
    using shape_parts [OF gstin_valid_parts(1) [OF s] k(1)] shape_parts [OF gstin_valid_parts(1) [OF v l] k(1)] k(1) s(2)
    by auto
  show False
  proof (cases "k = 13")
    case True
    have "GSTIN_PATTERN ! 13 = (\<lambda>c. upper_char c = CHR ''Z'')" by (simp add: GSTIN_PATTERN_def nth_append)
    then show False using p(1,3) k(2) True by simp
  next
    case False
    define zs where "zs = drop (Suc (Suc k)) (take 14 s)"
    have parts: "take 14 s = take k s @ s ! k # s ! Suc k # zs" "take 14 ?t = take k s @ s ! Suc k # s ! k # zs"
      using False k(1) s(2) unfolding zs_def
      by (auto intro!: nth_equalityI arg_cong [of _ _ "(!) s"] simp: nth_append nth_Cons' nth_list_update)
    have "list_all alnum_i (take k s @ s ! k # s ! Suc k # zs)" using gstin_valid_parts(3) [OF s] unfolding parts(1) .
    moreover have "{upper_char (s ! k), upper_char (s ! Suc k)} \<noteq> {CHR ''0'', CHR ''Z''}"
      using False k(1) p by (intro zero_z_positions [of k]) auto
    ultimately have "gst_walk (take 14 s) \<noteq> gst_walk (take 14 ?t)"
      unfolding parts by (intro gst_walk_swap [OF _ k(2)])
    then show False using gstin_same_walk [OF s v l] False k(1) s(2) by auto
  qed
qed

text \<open>
  C22. A valid GSTIN is caught by its shape or its check character when it is mistyped: with any one
  character replaced by one that is not the same in upper case, or any two neighbours that differ in
  upper case swapped, it is refused. The checksum alone would not tell a zero next to a Z from a Z
  next to a zero; the shape of a GSTIN never has room for both orders.
\<close>

theorem gstin_slips_caught:
  assumes "isValidGstin (Text s)" and "js_trim s = s"
  shows "length s = 15
    \<and> (k < 15 \<and> upper_char c \<noteq> upper_char (s ! k) \<longrightarrow> \<not> isValidGstin (Text (s[k := c])))
    \<and> (k < 14 \<and> upper_char (s ! k) \<noteq> upper_char (s ! Suc k) \<longrightarrow>
         \<not> isValidGstin (Text (s[k := s ! Suc k, Suc k := s ! k])))"
proof -
  have "length s = 15" using assms gstin_valid_iff gstin_shape by blast
  then show ?thesis using gstin_one_slip [OF assms(1)] gstin_one_swap [OF assms(1)] by blast
qed

theorem gstin_slips_caught_witness:
  "isValidGstin (Text ''27AAPFU0939F1ZV'') \<and> \<not> isValidGstin (Text ''27AAPFU0938F1ZV'')
    \<and> \<not> isValidGstin (Text ''27AAPFU0399F1ZV'')"
proof -
  have "isValidGstin (Text ''27AAPFU0939F1ZV'')" "js_trim ''27AAPFU0939F1ZV'' = ''27AAPFU0939F1ZV''" by code_simp+
  moreover have "upper_char (CHR ''8'') \<noteq> upper_char (CHR ''9'')" "upper_char (CHR ''9'') \<noteq> upper_char (CHR ''3'')" by code_simp+
  ultimately show ?thesis
    using gstin_slips_caught [of "''27AAPFU0939F1ZV''" 10 "CHR ''8''"] gstin_slips_caught [of "''27AAPFU0939F1ZV''" 8]
    by (simp add: eval_nat_numeral)
qed

section \<open>Mobile numbers\<close>

lemma mobile_shape_digits:
  assumes "mobile_shape p"
  shows "length p = 10 \<and> list_all is_digit p"
proof -
  from assms obtain c cs where "p = c # cs" "54 \<le> code c \<and> code c \<le> 57" "list_all2 (\<lambda>p c. p c) (replicate 9 is_digit) cs"
    unfolding mobile_shape_def list_all2_Cons1 by blast
  then have "length cs = 9" "list_all is_digit cs" "is_digit c"
    by (auto simp: list_all2_conv_all_nth list_all_length is_digit_def)
  then show ?thesis using \<open>p = c # cs\<close> by simp
qed

lemma digits_plain:
  assumes "list_all is_digit p"
  shows "js_trim p = p" "filter (\<lambda>c. \<not> phone_separator c) p = p" "strip_plus p = p"
proof -
  have d: "is_digit c \<Longrightarrow> \<not> phone_separator c \<and> c \<noteq> CHR ''+''" for c
    using is_digit_not_ws [of c] by (auto simp: phone_separator_def is_digit_def code_def)
  show "js_trim p = p" using assms is_digit_not_ws by (intro js_trim_no_ws) (auto simp: list_all_iff)
  show "filter (\<lambda>c. \<not> phone_separator c) p = p" using assms d by (auto simp: list_all_iff)
  show "strip_plus p = p" using assms d by (cases p) (auto simp: strip_plus_def)
qed

text \<open>
  A number that is accepted as an Indian mobile is ten digits that begin with 6 to 9; reading the
  result again, or the international form made from it, gives the same ten digits.
\<close>

theorem mobile_normal_form:
  assumes "normalisePhone v = Some p"
  shows "length p = 10 \<and> list_all is_digit p \<and> 54 \<le> code (hd p) \<and> normalisePhone (Text p) = Some p
    \<and> toE164IndianMobile v = Some (''+91'' @ p) \<and> normalisePhone (Text (''+91'' @ p)) = Some p"
proof -
  have m: "mobile_shape p" using assms by (auto simp: normalisePhone_def Let_def split: option.splits if_splits)
  then have p: "length p = 10" "list_all is_digit p" "54 \<le> code (hd p)" "p \<noteq> []"
    using mobile_shape_digits [OF m] by (auto simp: mobile_shape_def list_all2_Cons1)
  have n: "national_part p = p" "national_part (''91'' @ p) = p" using p(1) by (simp_all add: national_part_def)
  have d: "list_all is_digit (''91'' @ p)" using p(2) by (simp add: is_digit_def code_def)
  have plus: "js_trim (''+91'' @ p) = ''+91'' @ p"
    using p(2) is_digit_not_ws by (intro js_trim_no_ws) (auto simp: list_all_iff js_ws_def code_def)
  have "filter (\<lambda>c. \<not> phone_separator c) (''+91'' @ p) = ''+91'' @ p"
    using digits_plain(2) [OF p(2)] by (simp add: phone_separator_def js_ws_def code_def)
  then have "normalisePhone (Text (''+91'' @ p)) = Some p"
    using plus d m n p by (simp add: normalisePhone_def Let_def strip_plus_def)
  then show ?thesis using p m n digits_plain [OF p(2)] assms
    by (simp add: normalisePhone_def toE164IndianMobile_def Let_def)
qed

theorem mobile_normal_form_witness:
  "normalisePhone (Text '' +91 98765-43210'') = Some ''9876543210'' \<and> normalisePhone (Text ''+919876543210'') = Some ''9876543210''"
proof -
  have "normalisePhone (Text '' +91 98765-43210'') = Some ''9876543210''" by code_simp
  then show ?thesis using mobile_normal_form by fastforce
qed

end
