(* ===== verification/Text_Distance.thy ===== *)
theory Text_Distance
  imports Prelude
begin

text \<open>
  The bounded edit distance of \<^verbatim>\<open>text-distance.ts\<close>: two rolling rows, an early exit once a whole row is
  above the ceiling, and adjacent transpositions on demand. The reference is the least number of edits
  that turn one text into the other; the rows are lists and the loops recursions over their indices.
\<close>

section \<open>The routine\<close>

definition edit_cell :: "bool \<Rightarrow> string \<Rightarrow> string \<Rightarrow> nat list \<Rightarrow> nat list \<Rightarrow> nat list \<Rightarrow> nat \<Rightarrow> nat \<Rightarrow> nat" where
  "edit_cell transpositions a b beforePrev prev cur i j =
    (let cost = (if a ! (i - 1) = b ! (j - 1) then 0 else 1);
         cell = min (min (cur ! (j - 1) + 1) (prev ! j + 1)) (prev ! (j - 1) + cost)
     in if transpositions \<and> 1 < i \<and> 1 < j \<and> a ! (i - 1) = b ! (j - 2) \<and> a ! (i - 2) = b ! (j - 1)
        then min cell (beforePrev ! (j - 2) + 1) else cell)"

text \<open>The row after the cells up to an index were set, and the least of its cells.\<close>

primrec edit_row :: "bool \<Rightarrow> string \<Rightarrow> string \<Rightarrow> nat list \<Rightarrow> nat list \<Rightarrow> nat \<Rightarrow> nat \<Rightarrow> nat list" where
  "edit_row t a b beforePrev prev i 0 = [i]"
| "edit_row t a b beforePrev prev i (Suc j) =
    (let cur = edit_row t a b beforePrev prev i j
     in cur @ [edit_cell t a b beforePrev prev cur i (Suc j)])"

definition row_best :: "nat list \<Rightarrow> nat" where
  "row_best cur = fold min (tl cur) (hd cur)"

primrec edit_rows :: "bool \<Rightarrow> string \<Rightarrow> string \<Rightarrow> nat \<Rightarrow> nat list \<Rightarrow> nat list \<Rightarrow> nat list \<Rightarrow> nat" where
  "edit_rows t a b ceil beforePrev prev [] = prev ! length b"
| "edit_rows t a b ceil beforePrev prev (i # is) =
    (let cur = edit_row t a b beforePrev prev i (length b)
     in if ceil < row_best cur then ceil + 1 else edit_rows t a b ceil prev cur is)"

definition editDistance :: "string \<Rightarrow> string \<Rightarrow> nat \<Rightarrow> bool \<Rightarrow> nat" where
  "editDistance a b ceil transpositions =
    (if a = b then 0
     else if ceil < (if length a < length b then length b - length a else length a - length b) then ceil + 1
     else edit_rows transpositions a b ceil [] [0..<Suc (length b)] [1..<Suc (length a)])"

section \<open>Edits\<close>

text \<open>
  Turning one text into another with a number of edits: keep, replace, insert or drop a character at
  the end, or, where that counts as one edit, swap the last two.
\<close>

inductive edits :: "bool \<Rightarrow> nat \<Rightarrow> 'a list \<Rightarrow> 'a list \<Rightarrow> bool" for t where
  nothing: "edits t 0 [] []"
| keep: "edits t n xs ys \<Longrightarrow> edits t n (xs @ [x]) (ys @ [x])"
| replace: "edits t n xs ys \<Longrightarrow> edits t (Suc n) (xs @ [x]) (ys @ [y])"
| insert: "edits t n xs ys \<Longrightarrow> edits t (Suc n) xs (ys @ [y])"
| drop: "edits t n xs ys \<Longrightarrow> edits t (Suc n) (xs @ [x]) ys"
| swap: "t \<Longrightarrow> edits t n xs ys \<Longrightarrow> edits t (Suc n) (xs @ [x, y]) (ys @ [y, x])"

inductive_cases edits_endE: "edits t n (xs @ [x]) (ys @ [y])"
inductive_cases edits_leftE: "edits t n [] (ys @ [y])"
inductive_cases edits_rightE: "edits t n (xs @ [x]) []"

lemma edits_same: "edits t 0 xs xs"
  by (induction xs rule: rev_induct) (auto intro: edits.intros)

lemma edits_length: "edits t n xs ys \<Longrightarrow> length xs \<le> length ys + n \<and> length ys \<le> length xs + n"
  by (induction rule: edits.induct) auto

lemma edits_from_empty: "edits t (length ys) [] ys"
  by (induction ys rule: rev_induct) (auto intro: edits.intros)

lemma edits_to_empty: "edits t (length xs) xs []"
  by (induction xs rule: rev_induct) (auto intro: edits.intros)

section \<open>The table\<close>

fun table :: "bool \<Rightarrow> string \<Rightarrow> string \<Rightarrow> nat \<Rightarrow> nat \<Rightarrow> nat" where
  "table t a b 0 j = j"
| "table t a b (Suc i) 0 = Suc i"
| "table t a b (Suc i) (Suc j) =
    (let cell = min (min (table t a b (Suc i) j + 1) (table t a b i (Suc j) + 1))
                    (table t a b i j + (if a ! i = b ! j then 0 else 1))
     in if t \<and> 0 < i \<and> 0 < j \<and> a ! i = b ! (j - 1) \<and> a ! (i - 1) = b ! j
        then min cell (table t a b (i - 1) (j - 1) + 1) else cell)"

declare table.simps(3) [simp del]

lemma table_zero [simp]: "table t a b i 0 = i"
  by (cases i) auto

lemma table_reached:
  "i \<le> length a \<Longrightarrow> j \<le> length b \<Longrightarrow> edits t (table t a b i j) (take i a) (take j b)"
proof (induction t a b i j rule: table.induct)
  case (1 t a b j)
  then show ?case using edits_from_empty [of t "take j b"] by simp
next
  case (2 t a b i)
  then show ?case using edits_to_empty [of t "take (Suc i) a"] by (simp add: min.absorb2)
next
  case (3 t a b i j)
  let ?c = "min (min (table t a b (Suc i) j + 1) (table t a b i (Suc j) + 1)) (table t a b i j + (if a ! i = b ! j then 0 else 1))"
  have ai: "take (Suc i) a = take i a @ [a ! i]" and bj: "take (Suc j) b = take j b @ [b ! j]"
    using 3 by (simp_all add: take_Suc_conv_app_nth)
  have "edits t (table t a b (Suc i) j + 1) (take (Suc i) a) (take (Suc j) b)"
    using 3 edits.insert [of t _ "take (Suc i) a" "take j b"] by (simp add: bj)
  moreover have "edits t (table t a b i (Suc j) + 1) (take (Suc i) a) (take (Suc j) b)"
    using 3 edits.drop [of t _ "take i a" "take (Suc j) b"] by (simp add: ai)
  moreover have "edits t (table t a b i j + (if a ! i = b ! j then 0 else 1)) (take (Suc i) a) (take (Suc j) b)"
    using 3 edits.keep [of t _ "take i a" "take j b"] edits.replace [of t _ "take i a" "take j b"] by (simp add: ai bj)
  ultimately have cell: "edits t ?c (take (Suc i) a) (take (Suc j) b)" by (auto simp: min_def)
  show ?case
  proof (cases "t \<and> 0 < i \<and> 0 < j \<and> a ! i = b ! (j - 1) \<and> a ! (i - 1) = b ! j")
    case True
    then obtain i' j' where ij: "i = Suc i'" "j = Suc j'" by (metis gr0_implies_Suc)
    have "edits t (Suc (table t a b i' j')) (take i' a @ [a ! i', a ! i]) (take j' b @ [a ! i, a ! i'])"
      using 3 True ij by (intro edits.swap) auto
    moreover have "take (Suc i) a = take i' a @ [a ! i', a ! i]" "take (Suc j) b = take j' b @ [b ! j', b ! j]"
      using 3 ij by (simp_all add: take_Suc_conv_app_nth)
    ultimately have "edits t (table t a b (i - 1) (j - 1) + 1) (take (Suc i) a) (take (Suc j) b)"
      using True ij by simp
    moreover have "table t a b (Suc i) (Suc j) = min ?c (table t a b (i - 1) (j - 1) + 1)"
      unfolding table.simps(3) Let_def using True by (simp only: if_P simp_thms)
    ultimately show ?thesis using cell by (simp only: min_def split: if_split) blast
  qed (use cell in \<open>simp only: table.simps(3) Let_def if_False\<close>)
qed

lemma table_moves:
  "a ! i = b ! j \<Longrightarrow> table t a b (Suc i) (Suc j) \<le> table t a b i j"
  "table t a b (Suc i) (Suc j) \<le> Suc (table t a b i j)"
  "table t a b i (Suc j) \<le> Suc (table t a b i j)"
  "table t a b (Suc i) j \<le> Suc (table t a b i j)"
  "t \<Longrightarrow> a ! Suc i = b ! j \<Longrightarrow> a ! i = b ! Suc j \<Longrightarrow> table t a b (Suc (Suc i)) (Suc (Suc j)) \<le> Suc (table t a b i j)"
proof -
  show "table t a b i (Suc j) \<le> Suc (table t a b i j)" by (cases i) (auto simp: table.simps(3) Let_def min_le_iff_disj)
  show "table t a b (Suc i) j \<le> Suc (table t a b i j)" by (cases j) (auto simp: table.simps(3) Let_def min_le_iff_disj)
next
  assume "t" "a ! Suc i = b ! j" "a ! i = b ! Suc j"
  then show "table t a b (Suc (Suc i)) (Suc (Suc j)) \<le> Suc (table t a b i j)"
    unfolding table.simps(3) [of t a b "Suc i" "Suc j"] Let_def by simp
qed (auto simp: table.simps(3) Let_def min_le_iff_disj)

lemma table_least:
  "edits t n xs ys \<Longrightarrow> i \<le> length a \<Longrightarrow> j \<le> length b \<Longrightarrow> xs = take i a \<Longrightarrow> ys = take j b \<Longrightarrow> table t a b i j \<le> n"
proof (induction arbitrary: i j rule: edits.induct)
  case nothing
  then show ?case by auto
next
  case (keep n xs ys x)
  then obtain i' j' where ij: "i = Suc i'" "j = Suc j'" by (cases i; cases j) auto
  with keep have "table t a b i' j' \<le> n" "a ! i' = b ! j'" by (auto simp: take_Suc_conv_app_nth)
  then show ?case using table_moves(1) [of a i' b j' t] ij by simp
next
  case (replace n xs ys x y)
  then obtain i' j' where ij: "i = Suc i'" "j = Suc j'" by (cases i; cases j) auto
  with replace have "table t a b i' j' \<le> n" by (auto simp: take_Suc_conv_app_nth)
  then show ?case using table_moves(2) [of t a b i' j'] ij by simp
next
  case (insert n xs ys y)
  then obtain j' where j: "j = Suc j'" by (cases j) auto
  with insert have "table t a b i j' \<le> n" by (auto simp: take_Suc_conv_app_nth)
  then show ?case using table_moves(3) [of t a b i j'] j by simp
next
  case (drop n xs ys x)
  then obtain i' where i: "i = Suc i'" by (cases i) auto
  with drop have "table t a b i' j \<le> n" by (auto simp: take_Suc_conv_app_nth)
  then show ?case using table_moves(4) [of t a b i' j] i by simp
next
  case (swap n xs ys x y)
  have "i = length (xs @ [x, y])" "j = length (ys @ [y, x])" using swap.prems by (simp_all only: length_take min.absorb2)
  then obtain i' j' where ij: "i = Suc (Suc i')" "j = Suc (Suc j')" by simp
  have "take i a = take i' a @ [a ! i', a ! Suc i']" "take j b = take j' b @ [b ! j', b ! Suc j']"
    using swap.prems(1,2) ij by (simp_all add: take_Suc_conv_app_nth)
  with swap have "table t a b i' j' \<le> n" "a ! Suc i' = b ! j'" "a ! i' = b ! Suc j'" using ij by auto
  then show ?case using table_moves(5) [of t a i' b j'] swap.hyps ij by simp
qed

section \<open>The rows are the table\<close>

lemma edit_row_table:
  assumes "prev = map (table t a b i) [0..<Suc (length b)]"
    and "0 < i \<Longrightarrow> beforePrev = map (table t a b (i - 1)) [0..<Suc (length b)]"
  shows "n \<le> length b \<Longrightarrow> edit_row t a b beforePrev prev (Suc i) n = map (table t a b (Suc i)) [0..<Suc n]"
proof (induction n)
  case (Suc n)
  let ?cur = "map (table t a b (Suc i)) [0..<Suc n]"
  have nth: "map f [0..<Suc m] ! k = f k" if "k \<le> m" for f :: "nat \<Rightarrow> nat" and k m
    using that nth_map_upt [of k "Suc m" 0 f] by simp
  have "edit_cell t a b beforePrev prev ?cur (Suc i) (Suc n) = table t a b (Suc i) (Suc n)"
    using assms Suc.prems by (cases "0 < i") (auto simp: edit_cell_def table.simps(3) Let_def nth simp del: upt_Suc)
  then show ?case using Suc by (simp add: Let_def)
qed simp

lemma fold_min: "fold min xs (x :: nat) \<le> c \<longleftrightarrow> (\<exists>y \<in> set (x # xs). y \<le> c)"
  by (induction xs arbitrary: x) (auto simp: min_le_iff_disj)

lemma row_best_le: "row_best (map f [0..<Suc n]) \<le> c \<longleftrightarrow> (\<exists>j\<le>n. f j \<le> c)"
proof -
  have ne: "map f [0..<Suc n] \<noteq> []" by simp
  have "row_best (map f [0..<Suc n]) \<le> c \<longleftrightarrow> (\<exists>y \<in> set (map f [0..<Suc n]). y \<le> c)"
    unfolding row_best_def fold_min by (simp only: list.collapse [OF ne])
  then show ?thesis by (auto simp: less_Suc_eq_le simp del: upt_Suc)
qed

text \<open>Once a whole row is above the ceiling, every later one is: a swap reaches back two rows, but the
  row between is at most one edit above the first.\<close>

lemma hopeless_row:
  assumes "\<forall>j\<le>n. c < table t a b i j"
  shows "i \<le> k \<Longrightarrow> j \<le> n \<Longrightarrow> c < table t a b k j"
proof -
  have step: "\<forall>j\<le>n. c < table t a b (Suc k) j" if row: "\<forall>j\<le>n. c < table t a b k j" for k
  proof (intro allI impI)
    fix j assume "j \<le> n"
    then show "c < table t a b (Suc k) j"
    proof (induction j)
      case 0
      then show ?case using row by force
    next
      case (Suc j)
      have "c \<le> table t a b (k - 1) (j - 1)" if "0 < k"
      proof -
        have "c < table t a b k (j - 1)" using row Suc.prems by simp
        then show ?thesis using table_moves(4) [of t a b "k - 1" "j - 1"] that by simp
      qed
      then show ?case using Suc row [rule_format, of j] row [rule_format, of "Suc j"] by (auto simp: table.simps(3) Let_def)
    qed
  qed
  have "\<forall>j\<le>n. c < table t a b k j" if "i \<le> k" for k
    using that by (induction k rule: dec_induct) (use assms step in auto)
  then show "i \<le> k \<Longrightarrow> j \<le> n \<Longrightarrow> c < table t a b k j" by blast
qed

lemma edit_rows_table:
  assumes "prev = map (table t a b i) [0..<Suc (length b)]"
    and "0 < i \<Longrightarrow> beforePrev = map (table t a b (i - 1)) [0..<Suc (length b)]"
    and "i \<le> length a"
  shows "let r = edit_rows t a b c beforePrev prev [Suc i..<Suc (length a)]; d = table t a b (length a) (length b)
         in r = d \<or> r = Suc c \<and> c < d"
  using assms
proof (induction "length a - i" arbitrary: i prev beforePrev)
  case 0
  then show ?case by (simp add: Let_def nth_append)
next
  case (Suc m)
  let ?cur = "map (table t a b (Suc i)) [0..<Suc (length b)]"
  have ups: "[Suc i..<Suc (length a)] = Suc i # [Suc (Suc i)..<Suc (length a)]" using Suc.hyps(2) by (subst upt_conv_Cons) auto
  have row: "edit_row t a b beforePrev prev (Suc i) (length b) = ?cur"
    using Suc.prems by (intro edit_row_table) auto
  have rest: "let r = edit_rows t a b c prev ?cur [Suc (Suc i)..<Suc (length a)]; d = table t a b (length a) (length b)
         in r = d \<or> r = Suc c \<and> c < d"
    using Suc by (intro Suc.hyps(1)) auto
  show ?case
  proof (cases "c < row_best ?cur")
    case True
    then have "\<forall>j\<le>length b. c < table t a b (Suc i) j" using row_best_le by (metis leD leI)
    from hopeless_row [OF this] have "c < table t a b (length a) (length b)" using Suc.hyps(2) by simp
    then show ?thesis using True by (simp add: ups row Let_def del: upt_Suc)
  next
    case False
    then show ?thesis using rest by (simp add: ups row Let_def del: upt_Suc)
  qed
qed

lemma distance_exact:
  "(editDistance a b c t \<le> c \<longleftrightarrow> (\<exists>n\<le>c. edits t n a b))
   \<and> (editDistance a b c t \<le> c \<longrightarrow> edits t (editDistance a b c t) a b \<and> (\<forall>n < editDistance a b c t. \<not> edits t n a b))"
proof -
  define r where "r = editDistance a b c t"
  let ?d = "table t a b (length a) (length b)"
  have reach: "edits t ?d a b" using table_reached [of "length a" a "length b" b t] by simp
  have least: "edits t n a b \<Longrightarrow> ?d \<le> n" for n using table_least [of t n a b "length a" a "length b" b] by simp
  have "r = ?d \<or> r = Suc c \<and> c < ?d"
  proof (cases "a = b")
    case True
    then have "edits t 0 a b" using edits_same by simp
    then show ?thesis using least [of 0] True by (simp add: r_def editDistance_def)
  next
    case False
    then show ?thesis
      using edits_length [OF reach] edit_rows_table [of "[0..<Suc (length b)]" t a b 0 "[]" c]
      by (auto simp: r_def editDistance_def Let_def map_idI simp del: upt_Suc)
  qed
  then show ?thesis unfolding r_def [symmetric] using reach least by (metis Suc_n_not_le_n leD le_trans)
qed

text \<open>
  C30. The bounded routine agrees with the least number of edits: its answer is within the ceiling
  exactly when that many edits suffice, and then it is the least number that does, with and without
  transpositions, whatever the early exits cut off.
\<close>

theorem editDistance_correct:
  "(editDistance a b c t \<le> c \<longleftrightarrow> (\<exists>n\<le>c. edits t n a b))
   \<and> (editDistance a b c t \<le> c \<longrightarrow> edits t (editDistance a b c t) a b \<and> (\<forall>n < editDistance a b c t. \<not> edits t n a b))"
  by (rule distance_exact)

theorem editDistance_correct_witness:
  "editDistance ''Prakash'' ''Parkash'' 1 True = 1 \<and> edits True 1 ''Prakash'' ''Parkash''
   \<and> \<not> (\<exists>n\<le>1. edits False n ''Prakash'' ''Parkash'')"
proof -
  have "editDistance ''Prakash'' ''Parkash'' 1 True = 1" "editDistance ''Prakash'' ''Parkash'' 1 False = 2" by code_simp+
  then show ?thesis
    using editDistance_correct [of "''Prakash''" "''Parkash''" 1 True] editDistance_correct [of "''Prakash''" "''Parkash''" 1 False]
    by simp
qed

end
