(* ===== verification/Circuit_Breaker.thy ===== *)
theory Circuit_Breaker
  imports Prelude
begin

text \<open>
  The circuit breaker of \<^verbatim>\<open>infrastructure/resilience/circuit-breaker.ts\<close>, which stands between the backend
  and a dependency that may be down. A call is two moments, the check on arrival and the settling of the
  dependency's answer, and calls may overlap. Clock readings are arguments; the registry for the metrics
  and the log lines are left out.
\<close>

section \<open>The breaker\<close>

datatype CircuitState = CLOSED | OPEN | HALF_OPEN

record CircuitBreakerOptions =
  failureThreshold :: "int option"
  opt_cooldownMs :: "int option"

record CircuitBreaker =
  cb_state :: CircuitState
  cb_failures :: int
  openedAt :: int
  cb_threshold :: int
  cooldownMs :: int

definition new_breaker :: "CircuitBreakerOptions \<Rightarrow> CircuitBreaker" where
  "new_breaker opts = \<lparr> cb_state = CLOSED, cb_failures = 0, openedAt = 0,
     cb_threshold = nullish_value (failureThreshold opts) 5, cooldownMs = nullish_value (opt_cooldownMs opts) 30000 \<rparr>"

fun stateCode :: "CircuitState \<Rightarrow> nat" where
  "stateCode CLOSED = 0"
| "stateCode HALF_OPEN = 1"
| "stateCode OPEN = 2"

definition tripped :: "int \<Rightarrow> CircuitBreaker \<Rightarrow> CircuitBreaker \<times> bool" where
  "tripped now br =
    (if cb_state br = OPEN
     then if cooldownMs br \<le> now - openedAt br then (br\<lparr> cb_state := HALF_OPEN \<rparr>, False) else (br, True)
     else (br, False))"

definition onSuccess :: "CircuitBreaker \<Rightarrow> CircuitBreaker" where
  "onSuccess br = br\<lparr> cb_failures := 0, cb_state := CLOSED \<rparr>"

definition onFailure :: "int \<Rightarrow> CircuitBreaker \<Rightarrow> CircuitBreaker" where
  "onFailure now br =
    (let br = br\<lparr> cb_failures := cb_failures br + 1 \<rparr>
     in if cb_state br = HALF_OPEN \<or> cb_threshold br \<le> cb_failures br
        then br\<lparr> cb_state := OPEN, openedAt := now \<rparr> else br)"

text \<open>
  \<^verbatim>\<open>run\<close> with no other call in between: the clock on arrival and when a failure settles, what the
  dependency answers, what the fallback answers. The last component says whether the dependency was called.
\<close>

definition run_call :: "int \<Rightarrow> int \<Rightarrow> 'e + 'a \<Rightarrow> 'a \<Rightarrow> CircuitBreaker \<Rightarrow> CircuitBreaker \<times> 'a \<times> bool" where
  "run_call arrived failed_at fn fallback br =
    (let (br1, skip) = tripped arrived br
     in if skip then (br1, fallback, False)
        else case fn of
               Inr v \<Rightarrow> (onSuccess br1, v, True)
             | Inl _ \<Rightarrow> (onFailure failed_at br1, fallback, True))"

section \<open>Overlapping calls\<close>

datatype breaker_event = Arrive int | Settle bool int

text \<open>The breaker with the number of calls that are under way, and what an event does to them.\<close>

fun breaker_step :: "breaker_event \<Rightarrow> CircuitBreaker \<times> nat \<Rightarrow> CircuitBreaker \<times> nat" where
  "breaker_step (Arrive now) (br, n) = (let (br', skip) = tripped now br in (br', if skip then n else Suc n))"
| "breaker_step (Settle ok now) (br, 0) = (br, 0)"
| "breaker_step (Settle ok now) (br, Suc n) = (if ok then onSuccess br else onFailure now br, n)"

definition run_events :: "breaker_event list \<Rightarrow> CircuitBreaker \<times> nat \<Rightarrow> CircuitBreaker \<times> nat" where
  "run_events es s = fold breaker_step es s"

definition breaker_ok :: "CircuitBreaker \<Rightarrow> bool" where
  "breaker_ok br \<longleftrightarrow> 0 \<le> cb_failures br \<and> (cb_state br = CLOSED \<longrightarrow> cb_failures br < cb_threshold br)
     \<and> (cb_state br \<noteq> CLOSED \<longrightarrow> 0 < cb_failures br)"

lemma breaker_ok_step: "breaker_ok (fst s) \<Longrightarrow> 0 < cb_threshold (fst s) \<Longrightarrow>
    breaker_ok (fst (breaker_step e s)) \<and> cb_threshold (fst (breaker_step e s)) = cb_threshold (fst s)
    \<and> cooldownMs (fst (breaker_step e s)) = cooldownMs (fst s)"
  by (cases "(e, s)" rule: breaker_step.cases)
     (auto simp: breaker_ok_def tripped_def onSuccess_def onFailure_def Let_def)

lemma breaker_ok_events: "breaker_ok (fst s) \<Longrightarrow> 0 < cb_threshold (fst s) \<Longrightarrow>
    breaker_ok (fst (run_events es s)) \<and> cb_threshold (fst (run_events es s)) = cb_threshold (fst s)
    \<and> cooldownMs (fst (run_events es s)) = cooldownMs (fst s)"
  unfolding run_events_def
proof (induction es arbitrary: s)
  case (Cons e es)
  then show ?case using breaker_ok_step [of s e] by simp
qed simp

text \<open>
  However calls overlap, starting from a new breaker with a positive threshold: a call is kept from
  the dependency exactly when the circuit is open and has not cooled down; the circuit is closed only
  while fewer failures than the threshold were counted; a call that arrives after the cooldown goes
  through, and its success closes the circuit and clears the count.
\<close>

theorem breaker_overlapping_calls:
  assumes "0 < nullish_value (failureThreshold opts) 5" and "(br, n) = run_events es (new_breaker opts, 0)"
  shows "(snd (breaker_step (Arrive now) (br, n)) = n \<longleftrightarrow>
           cb_state br = OPEN \<and> now - openedAt br < nullish_value (opt_cooldownMs opts) 30000)
    \<and> (cb_state br = CLOSED \<longrightarrow> cb_failures br < nullish_value (failureThreshold opts) 5)
    \<and> (cb_state br = OPEN \<and> nullish_value (opt_cooldownMs opts) 30000 \<le> now - openedAt br \<longrightarrow>
         (let (br', m) = run_events [Arrive now, Settle True later] (br, n)
          in cb_state br' = CLOSED \<and> cb_failures br' = 0 \<and> m = n))"
proof -
  have "breaker_ok br \<and> cb_threshold br = nullish_value (failureThreshold opts) 5
      \<and> cooldownMs br = nullish_value (opt_cooldownMs opts) 30000"
    using breaker_ok_events [of "(new_breaker opts, 0)" es] assms
    by (cases "run_events es (new_breaker opts, 0)") (auto simp: new_breaker_def breaker_ok_def)
  then show ?thesis
    by (auto simp: breaker_ok_def tripped_def onSuccess_def run_events_def Let_def not_le)
qed

definition sample_options :: CircuitBreakerOptions where
  "sample_options = \<lparr> failureThreshold = Some 2, opt_cooldownMs = Some 100 \<rparr>"

theorem breaker_overlapping_calls_witness:
  "(0 :: int) < nullish_value (failureThreshold sample_options) 5
   \<and> snd (breaker_step (Arrive 50) (run_events [Arrive 1, Arrive 2, Settle False 3, Settle False 4] (new_breaker sample_options, 0)))
     = snd (run_events [Arrive 1, Arrive 2, Settle False 3, Settle False 4] (new_breaker sample_options, 0))"
proof -
  let ?es = "[Arrive 1, Arrive 2, Settle False 3, Settle False 4]"
  obtain br n where s: "(br, n) = run_events ?es (new_breaker sample_options, 0)" by (metis surj_pair)
  have "cb_state br = OPEN \<and> openedAt br = 4"
    using s by (simp add: run_events_def new_breaker_def sample_options_def tripped_def onFailure_def Let_def)
  then show ?thesis
    using breaker_overlapping_calls [OF _ s, of 50] s [symmetric] by (simp add: sample_options_def)
qed

text \<open>
  Between the arrival of the trial call and its answer the circuit is half open, and a half-open circuit
  holds nobody back: every call that arrives meanwhile reaches the dependency too.
\<close>

lemma half_open_admits_all:
  "cb_state br = HALF_OPEN \<Longrightarrow> run_events (map Arrive ts) (br, n) = (br, n + length ts)"
  by (induction ts arbitrary: n) (simp_all add: run_events_def tripped_def)

text \<open>An answer to a call made before the circuit opened closes it at once.\<close>

lemma late_success_closes:
  "cb_state (fst (run_events [Settle True later] (br, Suc n))) = CLOSED"
  by (simp add: run_events_def onSuccess_def)

section \<open>One call at a time\<close>

text \<open>
  What the breaker promises a caller that waits for each answer: a streak of failures and the time of
  the last one. A call is skipped when the streak reached the threshold and the last failure is younger
  than the cooldown.
\<close>

definition streak_call :: "int \<Rightarrow> int \<Rightarrow> int \<Rightarrow> int \<Rightarrow> bool \<Rightarrow> nat \<times> int \<Rightarrow> (nat \<times> int) \<times> bool" where
  "streak_call threshold cooldown arrived failed_at ok s =
    (if threshold \<le> int (fst s) \<and> arrived - snd s < cooldown then (s, False)
     else if ok then ((0, snd s), True) else ((Suc (fst s), failed_at), True))"

primrec run_calls :: "(int \<times> int \<times> ('e + 'a)) list \<Rightarrow> 'a \<Rightarrow> CircuitBreaker \<Rightarrow> bool list" where
  "run_calls [] fallback br = []"
| "run_calls (c # cs) fallback br =
    (case run_call (fst c) (fst (snd c)) (snd (snd c)) fallback br of (br', v, called) \<Rightarrow> called # run_calls cs fallback br')"

primrec streak_calls :: "int \<Rightarrow> int \<Rightarrow> (int \<times> int \<times> ('e + 'a)) list \<Rightarrow> nat \<times> int \<Rightarrow> bool list" where
  "streak_calls threshold cooldown [] s = []"
| "streak_calls threshold cooldown (c # cs) s =
    (case streak_call threshold cooldown (fst c) (fst (snd c)) (\<not> refused (snd (snd c))) s of
       (s', called) \<Rightarrow> called # streak_calls threshold cooldown cs s')"

definition streak_rel :: "CircuitBreaker \<Rightarrow> nat \<times> int \<Rightarrow> bool" where
  "streak_rel br s \<longleftrightarrow> cb_failures br = int (fst s)
     \<and> (if cb_threshold br \<le> int (fst s) then cb_state br = OPEN \<and> openedAt br = snd s else cb_state br = CLOSED)"

lemma streak_simulation:
  assumes "streak_rel br s" "0 < cb_threshold br"
  shows "case run_call t1 t2 fn fallback br of (br', v, called) \<Rightarrow>
    (case streak_call (cb_threshold br) (cooldownMs br) t1 t2 (\<not> refused fn) s of (s', called') \<Rightarrow>
       called = called' \<and> streak_rel br' s' \<and> cb_threshold br' = cb_threshold br \<and> cooldownMs br' = cooldownMs br
       \<and> (v = fallback \<or> called \<and> fn = Inr v))"
  using assms
  by (auto simp: run_call_def tripped_def onSuccess_def onFailure_def streak_call_def streak_rel_def refused_def Let_def
      split: sum.splits if_splits)

text \<open>
  C31. For a caller that waits for each answer the breaker is a streak counter: for every sequence of
  calls, answers and clock readings, the dependency is called on exactly the calls that a counter of
  consecutive failures with the time of the last one lets through.
\<close>

theorem breaker_is_streak_counter:
  assumes "0 < nullish_value (failureThreshold opts) 5"
  shows "run_calls cs fallback (new_breaker opts)
    = streak_calls (nullish_value (failureThreshold opts) 5) (nullish_value (opt_cooldownMs opts) 30000) cs (0, 0)"
proof -
  have sim: "streak_rel br s \<Longrightarrow> 0 < cb_threshold br \<Longrightarrow>
      run_calls cs fallback br = streak_calls (cb_threshold br) (cooldownMs br) cs s" for br s
  proof (induction cs arbitrary: br s)
    case (Cons c cs)
    obtain br' v called where r: "run_call (fst c) (fst (snd c)) (snd (snd c)) fallback br = (br', v, called)"
      by (metis surj_pair)
    obtain s' called' where q: "streak_call (cb_threshold br) (cooldownMs br) (fst c) (fst (snd c)) (\<not> refused (snd (snd c))) s
        = (s', called')" by (metis surj_pair)
    from streak_simulation [OF Cons.prems, where ?t1.0 = "fst c" and ?t2.0 = "fst (snd c)" and fn = "snd (snd c)" and fallback = fallback] Cons.IH [of br' s'] Cons.prems(2)
    show ?case by (simp add: r q)
  qed simp
  show ?thesis using sim [of "new_breaker opts" "(0, 0)"] assms by (simp add: streak_rel_def new_breaker_def)
qed

theorem breaker_is_streak_counter_witness:
  "run_calls [(1, 2, Inl ()), (3, 4, Inl ()), (50, 51, Inr 7), (104, 105, Inr 7)] (0 :: nat) (new_breaker sample_options)
    = [True, True, False, True]"
proof -
  have "(0 :: int) < nullish_value (failureThreshold sample_options) 5" by (simp add: sample_options_def)
  from breaker_is_streak_counter [OF this, of "[(1, 2, Inl ()), (3, 4, Inl ()), (50, 51, Inr 7), (104, 105, Inr 7)]" "0 :: nat"]
  show ?thesis by (simp add: sample_options_def streak_call_def refused_def)
qed

end
