(* ===== verification/Event_Outbox.thy ===== *)
theory Event_Outbox
  imports Prelude
begin

text \<open>
  How a change tells the rest of the system about itself: the unit of work that stages events and writes
  them with the change (\<^verbatim>\<open>infrastructure/persistence/typeorm-unit-of-work.ts\<close>), the publisher that hands an
  event to its listeners (\<^verbatim>\<open>core/events/domain-event.publisher.ts\<close>), the relay that retries what the
  publisher did not get rid of (\<^verbatim>\<open>outbox.relay.ts\<close>) and the return of an abandoned event
  (\<^verbatim>\<open>outbox-dead-letter.service.ts\<close>). What a listener does with a payload, clock readings, fresh
  identifiers and the places where the process dies or a write fails are arguments. Beside the table the
  model keeps a log of what the publisher handed over, by whom and to how many named subscribers, which
  the program does not store.
\<close>

section \<open>The publisher\<close>

type_synonym listener = "string \<Rightarrow> string option"

record DomainEventPublisher =
  listeners :: "string \<Rightarrow> listener list"
  globalCallbacks :: "(string \<Rightarrow> listener) list"

record DeliveryCount =
  dc_named :: nat
  dc_global :: nat

primrec first_error :: "string option list \<Rightarrow> string option" where
  "first_error [] = None"
| "first_error (r # rs) = (case r of Some err \<Rightarrow> Some err | None \<Rightarrow> first_error rs)"

definition deliverLocallyAsync :: "DomainEventPublisher \<Rightarrow> string \<Rightarrow> string \<Rightarrow> (string, DeliveryCount) result" where
  "deliverLocallyAsync pub eventName payload =
    (case first_error (map (\<lambda>cb. cb payload) (listeners pub eventName)
                        @ map (\<lambda>cb. cb eventName payload) (globalCallbacks pub)) of
       Some err \<Rightarrow> Inl err
     | None \<Rightarrow> Inr \<lparr> dc_named = length (listeners pub eventName), dc_global = length (globalCallbacks pub) \<rparr>)"

text \<open>The copy sent to other processes is not awaited and its failure is swallowed.\<close>

definition publishAsync :: "DomainEventPublisher \<Rightarrow> string \<Rightarrow> string \<Rightarrow> (string, DeliveryCount) result" where
  "publishAsync pub eventName payload = deliverLocallyAsync pub eventName payload"

definition EVENTS_REQUIRING_A_NAMED_SUBSCRIBER :: "string list" where
  "EVENTS_REQUIRING_A_NAMED_SUBSCRIBER =
    [''assignment:status-changed'', ''assignment:fee-updated'', ''assayer:created'', ''assayer:updated'',
     ''assayer:deleted'', ''user:updated'', ''user:role-changed'', ''user:password-changed'']"

section \<open>The table\<close>

record OutboxEntity =
  ob_id :: string
  eventName :: string
  ob_payload :: string
  occurredAt :: int
  dispatchedAt :: "int option"
  attempts :: nat
  lastError :: "string option"
  failedAt :: "int option"
  replayedAt :: "int option"
  replayedBy :: "string option"

text \<open>One entry of the log: the event, who handed it over and how many named subscribers took it.\<close>

datatype handed_by = AfterCommit | ByRelay

record handover =
  ho_id :: string
  ho_name :: string
  ho_by :: handed_by
  ho_named :: nat

record outbox =
  rows :: "OutboxEntity list"
  handed :: "handover list"

definition update_row :: "string \<Rightarrow> (OutboxEntity \<Rightarrow> OutboxEntity) \<Rightarrow> outbox \<Rightarrow> outbox" where
  "update_row i f box = box\<lparr> rows := map (\<lambda>r. if ob_id r = i then f r else r) (rows box) \<rparr>"

definition hand_over :: "handover \<Rightarrow> outbox \<Rightarrow> outbox" where
  "hand_over h box = box\<lparr> handed := handed box @ [h] \<rparr>"

section \<open>The unit of work\<close>

record StagedEvent =
  st_id :: string
  st_name :: string
  st_payload :: string

definition toRow :: "int \<Rightarrow> StagedEvent \<Rightarrow> OutboxEntity" where
  "toRow now ev = \<lparr> ob_id = st_id ev, eventName = st_name ev, ob_payload = st_payload ev, occurredAt = now,
     dispatchedAt = None, attempts = 0, lastError = None, failedAt = None, replayedAt = None, replayedBy = None \<rparr>"

text \<open>What can go wrong with one event of the loop after the commit.\<close>

datatype dispatch_fault = NoFault | MarkFails | DiesBefore | DiesAfter

primrec dispatch :: "DomainEventPublisher \<Rightarrow> int \<Rightarrow> (StagedEvent \<times> dispatch_fault) list \<Rightarrow> outbox \<Rightarrow> outbox" where
  "dispatch pub now [] box = box"
| "dispatch pub now (e # es) box =
    (if snd e = DiesBefore then box
     else case publishAsync pub (st_name (fst e)) (st_payload (fst e)) of
            Inl err \<Rightarrow> dispatch pub now es box
          | Inr count \<Rightarrow>
             (let box1 = hand_over \<lparr> ho_id = st_id (fst e), ho_name = st_name (fst e), ho_by = AfterCommit,
                           ho_named = dc_named count \<rparr> box in
              if snd e = DiesAfter then box1
              else if snd e = MarkFails then dispatch pub now es box1
              else dispatch pub now es (update_row (st_id (fst e)) (\<lambda>r. r\<lparr> dispatchedAt := Some now \<rparr>) box1)))"

text \<open>
  \<^verbatim>\<open>run\<close>: the work on the database with the events it stages, each with its fault in the loop, and
  whether the commit fails. A second row with a known identifier makes the insert fail.
\<close>

definition uow_run :: "DomainEventPublisher \<Rightarrow> int \<Rightarrow> bool \<Rightarrow> ('db \<Rightarrow> ('err, 'db \<times> (StagedEvent \<times> dispatch_fault) list \<times> 'a) result)
    \<Rightarrow> 'db \<times> outbox \<Rightarrow> ('db \<times> outbox) \<times> ('err option, 'a) result" where
  "uow_run pub now commit_fails work s =
    (case work (fst s) of
       Inl err \<Rightarrow> (s, Inl (Some err))
     | Inr (db', staged, v) \<Rightarrow>
        (if commit_fails \<or> \<not> distinct (map (st_id \<circ> fst) staged) \<or> list_ex (\<lambda>e. st_id (fst e) \<in> ob_id ` set (rows (snd s))) staged
         then (s, Inl None)
         else ((db', dispatch pub now staged ((snd s)\<lparr> rows := rows (snd s) @ map (toRow now \<circ> fst) staged \<rparr>)), Inr v)))"

section \<open>The relay\<close>

definition FAST_PATH_GRACE_MS :: int where
  "FAST_PATH_GRACE_MS = 30000"

definition BATCH_SIZE :: nat where
  "BATCH_SIZE = 200"

definition MAX_ATTEMPTS :: nat where
  "MAX_ATTEMPTS = 15"

definition is_pending :: "OutboxEntity \<Rightarrow> bool" where
  "is_pending r \<longleftrightarrow> dispatchedAt r = None \<and> failedAt r = None"

definition due_rows :: "int \<Rightarrow> outbox \<Rightarrow> OutboxEntity list" where
  "due_rows now box = take BATCH_SIZE
     (sort_key occurredAt (filter (\<lambda>r. is_pending r \<and> occurredAt r < now - FAST_PATH_GRACE_MS) (rows box)))"

definition relay_publish :: "DomainEventPublisher \<Rightarrow> OutboxEntity \<Rightarrow> string option" where
  "relay_publish pub r =
    (case publishAsync pub (eventName r) (ob_payload r) of
       Inl err \<Rightarrow> Some err
     | Inr count \<Rightarrow>
        (if dc_named count = 0 \<and> eventName r \<in> set EVENTS_REQUIRING_A_NAMED_SUBSCRIBER
         then Some ''no subscriber is registered'' else None))"

definition relay_hand :: "DomainEventPublisher \<Rightarrow> OutboxEntity \<Rightarrow> handover" where
  "relay_hand pub r = \<lparr> ho_id = ob_id r, ho_name = eventName r, ho_by = ByRelay,
     ho_named = length (listeners pub (eventName r)) \<rparr>"

definition note_failure :: "int \<Rightarrow> string \<Rightarrow> nat \<Rightarrow> OutboxEntity \<Rightarrow> OutboxEntity" where
  "note_failure now message tries r =
    r\<lparr> attempts := tries, lastError := Some message,
       failedAt := (if MAX_ATTEMPTS \<le> tries then Some now else failedAt r) \<rparr>"

text \<open>
  The loop over the batch: the identifiers it got rid of, or none of them if the process dies on the way
  (after a given number of rows).
\<close>

primrec relay_loop :: "DomainEventPublisher \<Rightarrow> int \<Rightarrow> nat option \<Rightarrow> OutboxEntity list \<Rightarrow> outbox \<Rightarrow> outbox \<times> string list option" where
  "relay_loop pub now dies [] box = (box, Some [])"
| "relay_loop pub now dies (r # rs) box =
    (if dies = Some 0 then (box, None)
     else (let dies' = map_option (\<lambda>n. n - 1) dies in
       case relay_publish pub r of
         None \<Rightarrow> (case relay_loop pub now dies' rs (hand_over (relay_hand pub r) box) of
                    (box', ids) \<Rightarrow> (box', map_option (Cons (ob_id r)) ids))
       | Some message \<Rightarrow> relay_loop pub now dies' rs (update_row (ob_id r) (note_failure now message (attempts r + 1)) box)))"

definition mark_dispatched :: "int \<Rightarrow> string list \<Rightarrow> outbox \<Rightarrow> outbox" where
  "mark_dispatched now ids box = box\<lparr> rows :=
     map (\<lambda>r. if ob_id r \<in> set ids then r\<lparr> dispatchedAt := Some now, lastError := None \<rparr> else r) (rows box) \<rparr>"

definition drainOnce :: "DomainEventPublisher \<Rightarrow> int \<Rightarrow> nat option \<Rightarrow> bool \<Rightarrow> outbox \<Rightarrow> outbox" where
  "drainOnce pub now dies mark_fails box =
    (case relay_loop pub now dies (due_rows now box) box of
       (box', None) \<Rightarrow> box'
     | (box', Some ids) \<Rightarrow> if mark_fails then box' else mark_dispatched now ids box')"

section \<open>Dead letters\<close>

datatype replay_refusal = OutboxEventNotFound | AlreadyDelivered int | StillRetrying nat

definition dead_letters :: "outbox \<Rightarrow> OutboxEntity list" where
  "dead_letters box = filter (\<lambda>r. dispatchedAt r = None \<and> failedAt r \<noteq> None) (rows box)"

definition replay :: "string \<Rightarrow> string option \<Rightarrow> int \<Rightarrow> outbox \<Rightarrow> outbox \<times> (replay_refusal, nat) result" where
  "replay i userId now box =
    (case List.find (\<lambda>r. ob_id r = i) (rows box) of
       None \<Rightarrow> (box, Inl OutboxEventNotFound)
     | Some r \<Rightarrow>
        (case dispatchedAt r of
           Some t \<Rightarrow> (box, Inl (AlreadyDelivered t))
         | None \<Rightarrow>
            (if failedAt r = None then (box, Inl (StillRetrying (attempts r)))
             else (update_row i (\<lambda>r. r\<lparr> failedAt := None, attempts := 0, replayedAt := Some now, replayedBy := userId \<rparr>) box,
                   Inr (attempts r)))))"

section \<open>Histories\<close>

datatype 'db outbox_call =
    Work DomainEventPublisher int bool "'db \<Rightarrow> (string, 'db \<times> (StagedEvent \<times> dispatch_fault) list) result"
  | Drain DomainEventPublisher int "nat option" bool
  | Replay string "string option" int

fun outbox_step :: "'db outbox_call \<Rightarrow> 'db \<times> outbox \<Rightarrow> 'db \<times> outbox" where
  "outbox_step (Work pub now cf work) s =
     fst (uow_run pub now cf (\<lambda>db. case work db of Inl err \<Rightarrow> Inl err | Inr (db', es) \<Rightarrow> Inr (db', es, ())) s)"
| "outbox_step (Drain pub now dies mf) s = (fst s, drainOnce pub now dies mf (snd s))"
| "outbox_step (Replay i u now) s = (fst s, fst (replay i u now (snd s)))"

definition run_outbox :: "'db outbox_call list \<Rightarrow> 'db \<times> outbox \<Rightarrow> 'db \<times> outbox" where
  "run_outbox cs s = fold outbox_step cs s"

section \<open>What a pass of the relay does\<close>

definition tried :: "DomainEventPublisher \<Rightarrow> int \<Rightarrow> OutboxEntity list \<Rightarrow> OutboxEntity \<Rightarrow> OutboxEntity" where
  "tried pub now ps r =
    (if r \<in> set ps
     then case relay_publish pub r of None \<Rightarrow> r | Some message \<Rightarrow> note_failure now message (attempts r + 1) r
     else r)"

lemma note_failure_id [simp]: "ob_id (note_failure now m n r) = ob_id r" "eventName (note_failure now m n r) = eventName r"
  "ob_payload (note_failure now m n r) = ob_payload r" "dispatchedAt (note_failure now m n r) = dispatchedAt r"
  "occurredAt (note_failure now m n r) = occurredAt r" "attempts (note_failure now m n r) = n"
  by (simp_all add: note_failure_def)

lemma same_row: "distinct (map ob_id rs) \<Longrightarrow> r \<in> set rs \<Longrightarrow> q \<in> set rs \<Longrightarrow> ob_id r = ob_id q \<Longrightarrow> r = q"
  by (auto simp: distinct_map dest: inj_onD)

definition reached :: "nat option \<Rightarrow> 'a list \<Rightarrow> 'a list" where
  "reached dies rs = (case dies of None \<Rightarrow> rs | Some n \<Rightarrow> take n rs)"

lemma rows_untouched:
  assumes "set rs \<subseteq> set (rows box)" "i \<notin> ob_id ` set rs"
  shows "set rs \<subseteq> set (rows (update_row i f box))"
proof
  fix q assume "q \<in> set rs"
  then have "q \<in> set (rows box)" "ob_id q \<noteq> i" using assms by auto
  then show "q \<in> set (rows (update_row i f box))" by (simp add: update_row_def image_iff)
qed

lemma tried_step:
  assumes d: "distinct (map ob_id (rows box))" and r: "r \<in> set (rows box)" "ob_id r \<notin> ob_id ` set ps"
    and m: "relay_publish pub r = Some m"
  shows "map (tried pub now ps) (rows (update_row (ob_id r) (note_failure now m (attempts r + 1)) box))
    = map (tried pub now (r # ps)) (rows box)"
proof -
  let ?g = "\<lambda>q. if ob_id q = ob_id r then note_failure now m (attempts r + 1) q else q"
  have fresh: "note_failure now m (attempts r + 1) r \<notin> set ps"
  proof
    assume "note_failure now m (attempts r + 1) r \<in> set ps"
    then have "ob_id (note_failure now m (attempts r + 1) r) \<in> ob_id ` set ps" by blast
    then show False using r(2) by simp
  qed
  have "tried pub now ps (?g q) = tried pub now (r # ps) q" if "q \<in> set (rows box)" for q
  proof (cases "q = r")
    case False
    then have "ob_id q \<noteq> ob_id r" using same_row [OF d that r(1)] by blast
    then show ?thesis using False by (simp add: tried_def)
  qed (use fresh m in \<open>simp add: tried_def\<close>)
  then have "map (\<lambda>q. tried pub now ps (?g q)) (rows box) = map (tried pub now (r # ps)) (rows box)"
    by (rule map_cong [OF refl])
  moreover have "rows (update_row (ob_id r) (note_failure now m (attempts r + 1)) box) = map ?g (rows box)"
    by (simp add: update_row_def)
  ultimately show ?thesis by (simp only: map_map o_def)
qed

lemma relay_loop_effect:
  assumes "relay_loop pub now dies rs box = (box', res)" "distinct (map ob_id (rows box))"
    and "distinct (map ob_id rs)" "set rs \<subseteq> set (rows box)"
  shows "rows box' = map (tried pub now (reached dies rs)) (rows box)
    \<and> handed box' = handed box @ map (relay_hand pub) (filter (\<lambda>r. relay_publish pub r = None) (reached dies rs))
    \<and> (\<forall>ids. res = Some ids \<longrightarrow> reached dies rs = rs \<and> ids = map ob_id (filter (\<lambda>r. relay_publish pub r = None) rs))
    \<and> (dies = None \<longrightarrow> res \<noteq> None)"
  using assms
proof (induction rs arbitrary: box box' res dies)
  case Nil
  then show ?case by (auto simp: tried_def reached_def map_idI split: option.splits)
next
  case (Cons r rs)
  show ?case
  proof (cases "dies = Some 0")
    case True
    then show ?thesis using Cons.prems(1) by (auto simp: tried_def reached_def map_idI)
  next
    case False
    let ?d = "map_option (\<lambda>n. n - 1) dies"
    let ?ps = "reached ?d rs"
    have ps: "reached dies (r # rs) = r # ?ps"
      using False by (auto simp: reached_def take_Cons' split: option.splits)
    have sub: "set ?ps \<subseteq> set rs" by (auto simp: reached_def split: option.splits dest: in_set_takeD)
    show ?thesis
    proof (cases "relay_publish pub r")
      case None
      then obtain ids where l: "relay_loop pub now ?d rs (hand_over (relay_hand pub r) box) = (box', ids)" "res = map_option (Cons (ob_id r)) ids"
        using Cons.prems(1) False by (auto simp: Let_def split: prod.splits)
      have "tried pub now (r # ?ps) q = tried pub now ?ps q" for q using None by (simp add: tried_def)
      then show ?thesis using Cons.IH [OF l(1)] Cons.prems l(2) None unfolding ps
        by (auto simp: hand_over_def)
    next
      case (Some m)
      let ?box = "update_row (ob_id r) (note_failure now m (attempts r + 1)) box"
      have l: "relay_loop pub now ?d rs ?box = (box', res)"
        using Cons.prems(1) False Some by (simp add: Let_def)
      have "map ob_id (rows ?box) = map ob_id (rows box)" by (simp add: update_row_def)
      moreover have "set rs \<subseteq> set (rows ?box)" using Cons.prems(3,4) by (intro rows_untouched) auto
      ultimately have ih: "rows box' = map (tried pub now ?ps) (rows ?box)
          \<and> handed box' = handed ?box @ map (relay_hand pub) (filter (\<lambda>r. relay_publish pub r = None) ?ps)
          \<and> (\<forall>ids. res = Some ids \<longrightarrow> ?ps = rs \<and> ids = map ob_id (filter (\<lambda>r. relay_publish pub r = None) rs))
          \<and> (?d = None \<longrightarrow> res \<noteq> None)"
        using Cons.IH [OF l] Cons.prems(2,3) by simp
      have "map (tried pub now ?ps) (rows ?box) = map (tried pub now (r # ?ps)) (rows box)"
        using Cons.prems(2-4) sub Some by (intro tried_step) auto
      then show ?thesis using ih Some unfolding ps by (auto simp: update_row_def)
    qed
  qed
qed

lemma due_rows_props:
  assumes "distinct (map ob_id (rows box))"
  shows "distinct (map ob_id (due_rows now box))" "set (due_rows now box) \<subseteq> set (rows box)"
    "r \<in> set (due_rows now box) \<Longrightarrow> is_pending r"
proof -
  have inj: "inj_on ob_id (set (rows box))" "distinct (rows box)" using assms by (auto simp: distinct_map)
  show sub: "set (due_rows now box) \<subseteq> set (rows box)" by (auto simp: due_rows_def dest: in_set_takeD)
  have "distinct (due_rows now box)" using inj(2) by (simp add: due_rows_def)
  then show "distinct (map ob_id (due_rows now box))" using inj(1) sub by (auto simp: distinct_map intro: inj_on_subset)
  show "r \<in> set (due_rows now box) \<Longrightarrow> is_pending r" by (auto simp: due_rows_def dest: in_set_takeD)
qed

section \<open>No event is lost\<close>

text \<open>
  An event that needs a handler of its own is heard when some named subscriber took it. The relay hands
  nothing over unheard.
\<close>

definition heard :: "handover \<Rightarrow> bool" where
  "heard h \<longleftrightarrow> (ho_name h \<in> set EVENTS_REQUIRING_A_NAMED_SUBSCRIBER \<longrightarrow> 0 < ho_named h)"

definition hand_ok :: "handover \<Rightarrow> bool" where
  "hand_ok h \<longleftrightarrow> ho_by h = ByRelay \<longrightarrow> heard h"

lemma relay_needs_subscriber:
  "relay_publish pub r = None \<Longrightarrow> eventName r \<in> set EVENTS_REQUIRING_A_NAMED_SUBSCRIBER \<Longrightarrow> listeners pub (eventName r) \<noteq> []"
  by (auto simp: relay_publish_def publishAsync_def deliverLocallyAsync_def split: option.splits sum.splits if_splits)

lemma relay_heard: "relay_publish pub r = None \<Longrightarrow> heard (relay_hand pub r)"
  using relay_needs_subscriber [of pub r] by (auto simp: heard_def relay_hand_def)

definition row_ok :: "handover list \<Rightarrow> OutboxEntity \<Rightarrow> bool" where
  "row_ok hs r \<longleftrightarrow>
     (dispatchedAt r \<noteq> None \<longrightarrow> (\<exists>h \<in> set hs. ho_id h = ob_id r \<and> ho_name h = eventName r \<and> hand_ok h)) \<and> (failedAt r \<noteq> None \<longrightarrow> MAX_ATTEMPTS \<le> attempts r)
     \<and> (is_pending r \<longrightarrow> attempts r < MAX_ATTEMPTS)"

definition outbox_ok :: "outbox \<Rightarrow> bool" where
  "outbox_ok box \<longleftrightarrow> distinct (map ob_id (rows box)) \<and> (\<forall>r \<in> set (rows box). row_ok (handed box) r)"

text \<open>A step keeps every row, in place, with its identity and contents; the list of what was handed over only grows.\<close>

definition kept :: "outbox \<Rightarrow> outbox \<Rightarrow> bool" where
  "kept box box' \<longleftrightarrow> (\<exists>new f. rows box' = map f (rows box) @ new \<and> (\<forall>r. ob_id (f r) = ob_id r \<and> eventName (f r) = eventName r
       \<and> ob_payload (f r) = ob_payload r)) \<and> set (handed box) \<subseteq> set (handed box')"

lemma kept_refl: "kept box box"
  unfolding kept_def by (intro conjI exI [of _ "[]"] exI [of _ id]) auto

lemma kept_trans:
  assumes "kept a b" "kept b c"
  shows "kept a c"
proof -
  obtain n1 f1 n2 f2 where "rows b = map f1 (rows a) @ n1" "rows c = map f2 (rows b) @ n2"
    "\<forall>r. ob_id (f1 r) = ob_id r \<and> eventName (f1 r) = eventName r \<and> ob_payload (f1 r) = ob_payload r"
    "\<forall>r. ob_id (f2 r) = ob_id r \<and> eventName (f2 r) = eventName r \<and> ob_payload (f2 r) = ob_payload r"
    "set (handed a) \<subseteq> set (handed b)" "set (handed b) \<subseteq> set (handed c)"
    using assms unfolding kept_def by blast
  then show ?thesis unfolding kept_def
    by (intro conjI exI [of _ "map f2 n1 @ n2"] exI [of _ "f2 \<circ> f1"]) auto
qed

lemma kept_update:
  "\<forall>r. ob_id (f r) = ob_id r \<and> eventName (f r) = eventName r \<and> ob_payload (f r) = ob_payload r \<Longrightarrow> kept box (update_row i f box)"
  unfolding kept_def update_row_def by (intro conjI exI [of _ "[]"] exI [of _ "\<lambda>r. if ob_id r = i then f r else r"]) auto

lemma kept_hand_over: "kept box (hand_over h box)"
  unfolding kept_def hand_over_def by (intro conjI exI [of _ "[]"] exI [of _ id]) auto

lemma kept_mark: "kept box (mark_dispatched now ids box)"
  unfolding kept_def mark_dispatched_def
  by (intro conjI exI [of _ "[]"]
      exI [of _ "\<lambda>r. if ob_id r \<in> set ids then r\<lparr> dispatchedAt := Some now, lastError := None \<rparr> else r"]) auto

lemma row_ok_more: "row_ok hs r \<Longrightarrow> set hs \<subseteq> set hs' \<Longrightarrow> row_ok hs' r"
  unfolding row_ok_def by blast

lemma outbox_ok_hand_over: "outbox_ok box \<Longrightarrow> outbox_ok (hand_over h box)"
  by (auto simp: outbox_ok_def hand_over_def intro: row_ok_more)

lemma outbox_okI:
  "map ob_id (rows b) = map ob_id (rows a) \<Longrightarrow> outbox_ok a \<Longrightarrow> (\<And>r. r \<in> set (rows b) \<Longrightarrow> row_ok (handed b) r) \<Longrightarrow> outbox_ok b"
  unfolding outbox_ok_def by metis

lemma outbox_ok_update:
  assumes "outbox_ok box" "\<And>r. ob_id (f r) = ob_id r"
    and "\<And>r. r \<in> set (rows box) \<Longrightarrow> ob_id r = i \<Longrightarrow> row_ok (handed box) (f r)"
  shows "outbox_ok (update_row i f box)"
proof -
  have ids: "map ob_id (rows (update_row i f box)) = map ob_id (rows box)" using assms(2) by (simp add: update_row_def)
  have "row_ok (handed (update_row i f box)) r" if "r \<in> set (rows (update_row i f box))" for r
    using that assms by (auto simp: outbox_ok_def update_row_def split: if_splits)
  then show ?thesis by (rule outbox_okI [OF ids assms(1)])
qed

definition names_fit :: "(StagedEvent \<times> 'f) list \<Rightarrow> outbox \<Rightarrow> bool" where
  "names_fit es box \<longleftrightarrow> (\<forall>e \<in> set es. \<forall>r \<in> set (rows box). ob_id r = st_id (fst e) \<longrightarrow> eventName r = st_name (fst e))"

lemma dispatch_keeps:
  "outbox_ok box \<Longrightarrow> names_fit es box \<Longrightarrow> outbox_ok (dispatch pub now es box) \<and> kept box (dispatch pub now es box)"
proof (induction es arbitrary: box)
  case (Cons e es)
  let ?h = "\<lambda>count. \<lparr> ho_id = st_id (fst e), ho_name = st_name (fst e), ho_by = AfterCommit, ho_named = dc_named count \<rparr>"
  let ?b = "\<lambda>count. hand_over (?h count) box"
  let ?m = "\<lambda>count. update_row (st_id (fst e)) (\<lambda>r. r\<lparr> dispatchedAt := Some now \<rparr>) (?b count)"
  have b: "outbox_ok (?b c)" "kept box (?b c)" for c using Cons.prems by (auto intro: outbox_ok_hand_over kept_hand_over)
  have m: "outbox_ok (?m c)" for c
  proof (rule outbox_ok_update [OF b(1)])
    fix r assume r: "r \<in> set (rows (?b c))" "ob_id r = st_id (fst e)"
    then have "eventName r = st_name (fst e)" using Cons.prems(2) by (simp add: names_fit_def hand_over_def)
    moreover have "row_ok (handed (?b c)) r" using r(1) b(1) [of c] unfolding outbox_ok_def by blast
    ultimately show "row_ok (handed (?b c)) (r\<lparr> dispatchedAt := Some now \<rparr>)"
      using r(2) by (simp add: row_ok_def is_pending_def hand_over_def hand_ok_def)
  qed simp
  have fit: "names_fit es box" "names_fit es (?b c)" "names_fit es (?m c)" for c
    using Cons.prems(2) by (auto simp: names_fit_def hand_over_def update_row_def split: if_splits)
  have k: "kept box (?m c)" for c by (rule kept_trans [OF b(2)], rule kept_update) simp
  show ?case
  proof (cases "publishAsync pub (st_name (fst e)) (st_payload (fst e))")
    case (Inl err)
    then show ?thesis using Cons.IH [OF Cons.prems(1) fit(1)] Cons.prems(1) kept_refl by simp
  next
    case (Inr c)
    have "outbox_ok (dispatch pub now es (?b c))" "kept box (dispatch pub now es (?b c))"
      using Cons.IH [OF b(1) fit(2), of c] kept_trans [OF b(2)] by blast+
    moreover have "outbox_ok (dispatch pub now es (?m c))" "kept box (dispatch pub now es (?m c))"
      using Cons.IH [OF m fit(3), of c] kept_trans [OF k] by blast+
    ultimately show ?thesis using Inr b [of c] Cons.prems(1) kept_refl by (simp add: Let_def)
  qed
qed (simp add: kept_refl)

lemma fresh_row_ok: "row_ok hs (toRow now ev)"
  by (simp add: row_ok_def toRow_def is_pending_def MAX_ATTEMPTS_def)

lemma tried_id [simp]: "ob_id (tried pub now ps r) = ob_id r" "eventName (tried pub now ps r) = eventName r"
  "ob_payload (tried pub now ps r) = ob_payload r" "dispatchedAt (tried pub now ps r) = dispatchedAt r"
  by (simp_all add: tried_def split: option.splits)

lemma tried_ok: "row_ok hs r \<Longrightarrow> (\<And>p. p \<in> set ps \<Longrightarrow> is_pending p) \<Longrightarrow> row_ok hs (tried pub now ps r)"
  by (auto simp: tried_def note_failure_def row_ok_def is_pending_def MAX_ATTEMPTS_def split: option.splits)

lemma drain_keeps:
  assumes "outbox_ok box"
  shows "outbox_ok (drainOnce pub now dies mf box) \<and> kept box (drainOnce pub now dies mf box)"
proof -
  have d: "distinct (map ob_id (rows box))" using assms by (simp add: outbox_ok_def)
  note due = due_rows_props [OF d, where now = now]
  obtain b res where l: "relay_loop pub now dies (due_rows now box) box = (b, res)" by (metis surj_pair)
  note eff = relay_loop_effect [OF l d due(1,2)]
  have pend: "p \<in> set (reached dies (due_rows now box)) \<Longrightarrow> is_pending p" for p
    using due(3) by (auto simp: reached_def split: option.splits dest: in_set_takeD)
  have b: "outbox_ok b" "kept box b"
  proof -
    have ids: "map ob_id (rows b) = map ob_id (rows box)" using eff by simp
    have "row_ok (handed b) r" if "r \<in> set (rows b)" for r
    proof -
      from that eff obtain q where "q \<in> set (rows box)" "r = tried pub now (reached dies (due_rows now box)) q" by auto
      then have "row_ok (handed box) r" using assms pend by (auto simp: outbox_ok_def intro: tried_ok)
      then show ?thesis using eff by (auto intro: row_ok_more)
    qed
    then show "outbox_ok b" by (rule outbox_okI [OF ids assms])
    show "kept box b" unfolding kept_def using eff
      by (intro conjI exI [of _ "[]"] exI [of _ "tried pub now (reached dies (due_rows now box))"]) auto
  qed
  have "outbox_ok (mark_dispatched now ids b)" if "res = Some ids" for ids
  proof -
    have entry: "\<exists>h \<in> set (handed b). ho_id h = ob_id r \<and> ho_name h = eventName r \<and> hand_ok h"
      if r: "r \<in> set (rows b)" "ob_id r \<in> set ids" for r
    proof -
      obtain p where p: "p \<in> set (rows box)" "ob_id r = ob_id p" "eventName r = eventName p" using r(1) eff by auto
      obtain q where q: "q \<in> set (due_rows now box)" "relay_publish pub q = None" "ob_id r = ob_id q"
        using r(2) eff \<open>res = Some ids\<close> by auto
      have "p = q" using same_row [OF d p(1), of q] due(2) q p(2) by auto
      moreover have "relay_hand pub q \<in> set (handed b)" using eff \<open>res = Some ids\<close> q by auto
      ultimately show ?thesis using p(3) q relay_heard [OF q(2)]
        by (intro bexI [of _ "relay_hand pub q"]) (auto simp: relay_hand_def hand_ok_def)
    qed
    have same: "map ob_id (rows (mark_dispatched now ids b)) = map ob_id (rows b)" by (simp add: mark_dispatched_def)
    have "row_ok (handed b) (r\<lparr> dispatchedAt := Some now, lastError := None \<rparr>)"
      if "r \<in> set (rows b)" "ob_id r \<in> set ids" for r
      using entry [OF that] b(1) that(1) by (auto simp: outbox_ok_def row_ok_def is_pending_def)
    then show ?thesis using b(1)
      by (intro outbox_okI [OF same b(1)]) (auto simp: outbox_ok_def mark_dispatched_def)
  qed
  then show ?thesis using b kept_trans [OF b(2) kept_mark] by (auto simp: drainOnce_def l split: option.splits)
qed

lemma replay_keeps:
  assumes "outbox_ok box"
  shows "outbox_ok (fst (replay i u now box)) \<and> kept box (fst (replay i u now box))"
proof (cases "\<exists>r. List.find (\<lambda>r. ob_id r = i) (rows box) = Some r \<and> dispatchedAt r = None \<and> failedAt r \<noteq> None")
  case True
  then obtain r where r: "List.find (\<lambda>r. ob_id r = i) (rows box) = Some r" "dispatchedAt r = None" "failedAt r \<noteq> None" by blast
  then have in_r: "r \<in> set (rows box)" "ob_id r = i" by (auto simp: find_Some_iff)
  let ?f = "\<lambda>r. r\<lparr> failedAt := None, attempts := 0, replayedAt := Some now, replayedBy := u \<rparr>"
  have "outbox_ok (update_row i ?f box)"
  proof (rule outbox_ok_update [OF assms])
    fix q assume "q \<in> set (rows box)" "ob_id q = i"
    then have "q = r" using assms in_r by (auto simp: outbox_ok_def dest: same_row)
    then show "row_ok (handed box) (?f q)" using r by (simp add: row_ok_def is_pending_def MAX_ATTEMPTS_def)
  qed simp
  moreover have "fst (replay i u now box) = update_row i ?f box" using r by (auto simp: replay_def)
  ultimately show ?thesis using kept_update [of ?f box i] by simp
next
  case False
  then have "fst (replay i u now box) = box" by (auto simp: replay_def split: option.splits)
  then show ?thesis using assms kept_refl by simp
qed

lemma work_keeps:
  assumes "outbox_ok (snd s)"
  shows "outbox_ok (snd (fst (uow_run pub now cf work s))) \<and> kept (snd s) (snd (fst (uow_run pub now cf work s)))"
proof (cases "work (fst s)")
  case (Inr x)
  obtain db' staged v where x: "x = (db', staged, v)" by (metis prod_cases3)
  let ?new = "(snd s)\<lparr> rows := rows (snd s) @ map (toRow now \<circ> fst) staged \<rparr>"
  have k: "kept (snd s) ?new" unfolding kept_def
    by (intro conjI exI [of _ "map (toRow now \<circ> fst) staged"] exI [of _ id]) auto
  have ok: "outbox_ok ?new"
    if "distinct (map (st_id \<circ> fst) staged)" "\<not> list_ex (\<lambda>e. st_id (fst e) \<in> ob_id ` set (rows (snd s))) staged"
  proof -
    have "ob_id ` set (rows (snd s)) \<inter> set (map (st_id \<circ> fst) staged) = {}"
    proof -
      have out: "st_id (fst e) \<notin> ob_id ` set (rows (snd s))" if "e \<in> set staged" for e
        using that \<open>\<not> list_ex _ staged\<close> unfolding list_ex_iff by blast
      show ?thesis
      proof (rule equals0I)
        fix x assume x: "x \<in> ob_id ` set (rows (snd s)) \<inter> set (map (st_id \<circ> fst) staged)"
        then obtain e where "e \<in> set staged" "x = st_id (fst e)" by (auto simp only: Int_iff set_map o_apply image_iff)
        then show False using out x by (simp only: Int_iff simp_thms)
      qed
    qed
    then have "distinct (map ob_id (rows ?new))"
    proof -
      have "map ob_id (rows ?new) = map ob_id (rows (snd s)) @ map (st_id \<circ> fst) staged" by (simp add: toRow_def)
      moreover have "distinct (map ob_id (rows (snd s)))" using assms by (simp add: outbox_ok_def)
      ultimately show ?thesis using that(1) \<open>_ = {}\<close> by (simp only: distinct_append set_map simp_thms)
    qed
    then show ?thesis using assms fresh_row_ok by (auto simp: outbox_ok_def)
  qed
  have fit: "names_fit staged ?new"
    if "distinct (map (st_id \<circ> fst) staged)" "\<not> list_ex (\<lambda>e. st_id (fst e) \<in> ob_id ` set (rows (snd s))) staged"
  proof -
    have "eventName q = st_name (fst e)" if e: "e \<in> set staged" "q \<in> set (rows ?new)" "ob_id q = st_id (fst e)" for e q
    proof -
      have "st_id (fst e) \<notin> ob_id ` set (rows (snd s))" using e(1) \<open>\<not> list_ex _ staged\<close> unfolding list_ex_iff by blast
      then obtain f where f: "f \<in> set staged" "q = toRow now (fst f)" using e(2,3) by force
      then have "st_id (fst f) = st_id (fst e)" using e(3) by (simp add: toRow_def)
      then have "f = e" using f(1) e(1) \<open>distinct _\<close> inj_onD [of "st_id \<circ> fst" "set staged" f e] by (simp add: distinct_map)
      then show ?thesis using f by (simp add: toRow_def)
    qed
    then show ?thesis unfolding names_fit_def by blast
  qed
  show ?thesis using ok fit k dispatch_keeps [of ?new staged pub now] assms kept_refl kept_trans [OF k]
    by (auto simp: uow_run_def Inr x)
qed (simp add: uow_run_def assms kept_refl)

lemma outbox_step_keeps:
  "outbox_ok (snd s) \<Longrightarrow> outbox_ok (snd (outbox_step c s)) \<and> kept (snd s) (snd (outbox_step c s))"
  by (cases c) (simp_all add: work_keeps drain_keeps replay_keeps)

lemma run_outbox_keeps:
  "outbox_ok (snd s) \<Longrightarrow> outbox_ok (snd (run_outbox cs s)) \<and> kept (snd s) (snd (run_outbox cs s))"
  unfolding run_outbox_def
proof (induction cs arbitrary: s)
  case (Cons c cs)
  then show ?case using outbox_step_keeps [of s c] Cons.IH [of "outbox_step c s"]
      kept_trans [of "snd s" "snd (outbox_step c s)"] by simp
qed (simp add: kept_refl)

text \<open>What a history adds to the log of handed-over events.\<close>

definition staffed :: "DomainEventPublisher \<Rightarrow> bool" where
  "staffed pub \<longleftrightarrow> list_all (\<lambda>name. listeners pub name \<noteq> []) EVENTS_REQUIRING_A_NAMED_SUBSCRIBER"

fun staffed_call :: "'db outbox_call \<Rightarrow> bool" where
  "staffed_call (Work pub now cf work) = staffed pub"
| "staffed_call _ = True"

definition added :: "(handover \<Rightarrow> bool) \<Rightarrow> outbox \<Rightarrow> outbox \<Rightarrow> bool" where
  "added P box box' \<longleftrightarrow> (\<exists>hs. handed box' = handed box @ hs \<and> list_all P hs)"

lemma added_refl: "handed box' = handed box \<Longrightarrow> added P box box'"
  by (simp add: added_def)

lemma added_trans: "added P a b \<Longrightarrow> added P b c \<Longrightarrow> added P a c"
  unfolding added_def by (metis append.assoc list_all_append)

lemma added_hand: "P h \<Longrightarrow> added P box (hand_over h box)"
  by (simp add: added_def hand_over_def)

lemma handed_update [simp]: "handed (update_row i f box) = handed box" "handed (mark_dispatched now ids box) = handed box"
  by (simp_all add: update_row_def mark_dispatched_def)

lemma staffed_heard: "staffed pub \<Longrightarrow> publishAsync pub name payload = Inr c \<Longrightarrow>
    heard \<lparr> ho_id = i, ho_name = name, ho_by = by_whom, ho_named = dc_named c \<rparr>"
  by (auto simp: heard_def staffed_def list_all_iff publishAsync_def deliverLocallyAsync_def split: option.splits)

definition fair :: "bool \<Rightarrow> handover \<Rightarrow> bool" where
  "fair all_staffed h \<longleftrightarrow> hand_ok h \<and> (all_staffed \<longrightarrow> heard h)"

lemma dispatch_added: "(st \<longrightarrow> staffed pub) \<Longrightarrow> added (fair st) box (dispatch pub now es box)"
proof (induction es arbitrary: box)
  case (Cons e es)
  show ?case
  proof (cases "publishAsync pub (st_name (fst e)) (st_payload (fst e))")
    case (Inl err)
    then show ?thesis using Cons.IH [OF Cons.prems, of box] by (simp add: added_refl)
  next
    case (Inr c)
    let ?h = "\<lparr> ho_id = st_id (fst e), ho_name = st_name (fst e), ho_by = AfterCommit, ho_named = dc_named c \<rparr>"
    have "fair st ?h" using Cons.prems staffed_heard [OF _ Inr] by (auto simp: fair_def hand_ok_def)
    then have h: "added (fair st) box (hand_over ?h box)" by (rule added_hand)
    have u: "added (fair st) box (update_row i f (hand_over ?h box))" for i f
      using h by (simp add: added_def)
    show ?thesis
      using h Inr added_trans [OF h Cons.IH [OF Cons.prems]] added_trans [OF u Cons.IH [OF Cons.prems]]
      by (simp add: Let_def added_refl)
  qed
qed (simp add: added_refl)

lemma drain_added:
  assumes "outbox_ok box"
  shows "added (fair st) box (drainOnce pub now dies mf box)"
proof -
  have d: "distinct (map ob_id (rows box))" using assms by (simp add: outbox_ok_def)
  obtain b res where l: "relay_loop pub now dies (due_rows now box) box = (b, res)" by (metis surj_pair)
  have "added (fair st) box b"
    using relay_loop_effect [OF l d due_rows_props(1,2) [OF d]] relay_heard [of pub]
    by (auto simp: added_def list_all_iff fair_def hand_ok_def)
  then show ?thesis by (auto simp: drainOnce_def l added_def split: option.splits)
qed

lemma step_added:
  "outbox_ok (snd s) \<Longrightarrow> (st \<longrightarrow> staffed_call c) \<Longrightarrow> added (fair st) (snd s) (snd (outbox_step c s))"
proof (cases c)
  case (Work pub now cf work)
  assume "st \<longrightarrow> staffed_call c"
  then have "added (fair st) (snd s) (dispatch pub now es ((snd s)\<lparr> rows := rs \<rparr>))" for es rs
    using dispatch_added [of st pub "(snd s)\<lparr> rows := rs \<rparr>"] Work by (simp add: added_def)
  then show ?thesis using Work by (auto simp: uow_run_def added_refl split: sum.splits prod.splits)
next
  case (Replay i u now)
  then show ?thesis by (auto simp: replay_def added_refl split: option.splits)
qed (simp add: drain_added)

lemma run_added:
  "outbox_ok (snd s) \<Longrightarrow> (st \<longrightarrow> list_all staffed_call cs) \<Longrightarrow> added (fair st) (snd s) (snd (run_outbox cs s))"
  unfolding run_outbox_def
proof (induction cs arbitrary: s)
  case (Cons c cs)
  then show ?case using step_added [of s st c] outbox_step_keeps [of s c] Cons.IH [of "outbox_step c s"]
      added_trans [of "fair st" "snd s" "snd (outbox_step c s)"] by simp
qed (simp add: added_refl)

text \<open>
  C19. Once a change is committed with its events, none of them is forgotten: after any history of
  transactions, relay passes and replays, whatever the listeners throw and wherever the process dies or
  a write fails, the row of the event is still there with its name and payload, and it was handed over
  and says so, or the relay still retries it with attempts left, or it is listed as a dead letter. Handed
  over is not always heard. For an event on the list of those that need a named subscriber, whatever the
  relay handed over reached at least one; the loop after the commit, which does not look, gives that only
  when the listed events have a subscriber in every process that commits (lemma
  \<open>fast_path_needs_no_subscriber\<close> shows it marking such an event as dispatched with nobody listening).
\<close>

theorem events_never_lost:
  assumes "outbox_ok (snd s)" and "r0 \<in> set (rows (snd s))" and "fin = run_outbox cs s"
  shows "(\<exists>r \<in> set (rows (snd fin)). ob_id r = ob_id r0 \<and> eventName r = eventName r0 \<and> ob_payload r = ob_payload r0
    \<and> (dispatchedAt r \<noteq> None
         \<and> (\<exists>h \<in> set (handed (snd fin)). ho_id h = ob_id r \<and> ho_name h = eventName r
              \<and> (eventName r \<in> set EVENTS_REQUIRING_A_NAMED_SUBSCRIBER \<longrightarrow> 0 < ho_named h \<or> ho_by h = AfterCommit))
       \<or> is_pending r \<and> attempts r < MAX_ATTEMPTS
       \<or> r \<in> set (dead_letters (snd fin))))
    \<and> (\<exists>hs. handed (snd fin) = handed (snd s) @ hs
         \<and> (\<forall>h \<in> set hs. ho_name h \<in> set EVENTS_REQUIRING_A_NAMED_SUBSCRIBER
              \<and> (ho_by h = ByRelay \<or> list_all staffed_call cs) \<longrightarrow> 0 < ho_named h))"
proof
  have k: "outbox_ok (snd fin)" "kept (snd s) (snd fin)"
    using run_outbox_keeps [OF assms(1)] assms(3) by auto
  then obtain f new where f: "rows (snd fin) = map f (rows (snd s)) @ new"
    "ob_id (f r0) = ob_id r0 \<and> eventName (f r0) = eventName r0 \<and> ob_payload (f r0) = ob_payload r0"
    unfolding kept_def by blast
  then have m: "f r0 \<in> set (rows (snd fin))" using assms(2) by simp
  then have "row_ok (handed (snd fin)) (f r0)" using k(1) by (simp add: outbox_ok_def)
  then have "dispatchedAt (f r0) \<noteq> None \<and> (\<exists>h \<in> set (handed (snd fin)). ho_id h = ob_id (f r0) \<and> ho_name h = eventName (f r0) \<and> hand_ok h)
      \<or> is_pending (f r0) \<and> attempts (f r0) < MAX_ATTEMPTS \<or> f r0 \<in> set (dead_letters (snd fin))"
    using m by (auto simp: row_ok_def is_pending_def dead_letters_def)
  moreover have "hand_ok h \<Longrightarrow> ho_name h \<in> set EVENTS_REQUIRING_A_NAMED_SUBSCRIBER \<Longrightarrow> 0 < ho_named h \<or> ho_by h = AfterCommit" for h
    by (cases "ho_by h") (auto simp: hand_ok_def heard_def)
  ultimately show "\<exists>r \<in> set (rows (snd fin)). ob_id r = ob_id r0 \<and> eventName r = eventName r0 \<and> ob_payload r = ob_payload r0
    \<and> (dispatchedAt r \<noteq> None
         \<and> (\<exists>h \<in> set (handed (snd fin)). ho_id h = ob_id r \<and> ho_name h = eventName r
              \<and> (eventName r \<in> set EVENTS_REQUIRING_A_NAMED_SUBSCRIBER \<longrightarrow> 0 < ho_named h \<or> ho_by h = AfterCommit))
       \<or> is_pending r \<and> attempts r < MAX_ATTEMPTS
       \<or> r \<in> set (dead_letters (snd fin)))"
    using f(2) by (intro bexI [OF _ m]) metis
  obtain hs where "handed (snd fin) = handed (snd s) @ hs" "list_all (fair (list_all staffed_call cs)) hs"
    using run_added [OF assms(1), of "list_all staffed_call cs" cs] assms(3) by (auto simp: added_def)
  then show "\<exists>hs. handed (snd fin) = handed (snd s) @ hs
         \<and> (\<forall>h \<in> set hs. ho_name h \<in> set EVENTS_REQUIRING_A_NAMED_SUBSCRIBER
              \<and> (ho_by h = ByRelay \<or> list_all staffed_call cs) \<longrightarrow> 0 < ho_named h)"
    by (auto simp: list_all_iff fair_def hand_ok_def heard_def)
qed

definition sample_row :: OutboxEntity where
  "sample_row = \<lparr> ob_id = ''e1'', eventName = ''user:updated'', ob_payload = ''{}'', occurredAt = 0, dispatchedAt = None,
     attempts = 14, lastError = None, failedAt = None, replayedAt = None, replayedBy = None \<rparr>"

definition sample_outbox :: outbox where
  "sample_outbox = \<lparr> rows = [sample_row], handed = [] \<rparr>"

definition deaf_publisher :: DomainEventPublisher where
  "deaf_publisher = \<lparr> listeners = (\<lambda>_. []), globalCallbacks = [\<lambda>_ _. None] \<rparr>"

lemma sample_outbox_ok: "outbox_ok sample_outbox"
  by (simp add: outbox_ok_def sample_outbox_def sample_row_def row_ok_def is_pending_def MAX_ATTEMPTS_def)

theorem events_never_lost_witness:
  "\<exists>r \<in> set (dead_letters (snd (run_outbox [Drain deaf_publisher 50000 None False] ((), sample_outbox)))).
     ob_id r = ''e1'' \<and> eventName r = ''user:updated''"
proof -
  let ?s = "run_outbox [Drain deaf_publisher 50000 None False] ((), sample_outbox)"
  have rows: "rows (snd ?s) = [note_failure 50000 ''no subscriber is registered'' 15 sample_row]" by code_simp
  obtain r where r: "r \<in> set (rows (snd ?s))" "ob_id r = ob_id sample_row" "eventName r = eventName sample_row"
      "dispatchedAt r \<noteq> None \<or> is_pending r \<or> r \<in> set (dead_letters (snd ?s))"
    using events_never_lost [of "((), sample_outbox)" sample_row ?s "[Drain deaf_publisher 50000 None False]"] sample_outbox_ok
    by (auto simp: sample_outbox_def)
  moreover have "dispatchedAt r = None" "failedAt r \<noteq> None"
    using r(1) unfolding rows by (simp_all add: note_failure_def sample_row_def MAX_ATTEMPTS_def)
  ultimately show ?thesis by (auto simp: sample_row_def is_pending_def)
qed

text \<open>
  The events and the change they describe succeed or fail together: a transaction that is refused
  or cannot commit leaves the database and the table of events as they were, and one that commits leaves
  a row for every event it staged, even if the process dies during the publishing that follows.
\<close>

theorem events_with_the_change:
  assumes "outbox_ok (snd s)"
  shows "case uow_run pub now cf work s of
      (s', Inl _) \<Rightarrow> s' = s
    | (s', Inr v) \<Rightarrow> (case work (fst s) of
         Inl _ \<Rightarrow> False
       | Inr (db', staged, w) \<Rightarrow> w = v \<and> fst s' = db' \<and> outbox_ok (snd s')
           \<and> map ob_id (rows (snd s')) = map ob_id (rows (snd s)) @ map (st_id \<circ> fst) staged)"
proof (cases "uow_run pub now cf work s")
  case (Pair s' res)
  show ?thesis
  proof (cases res)
    case (Inl e)
    then show ?thesis using Pair by (auto simp: uow_run_def split: sum.splits prod.splits if_splits)
  next
    case (Inr v)
    obtain db' staged where w: "work (fst s) = Inr (db', staged, v)"
      using Pair Inr by (auto simp: uow_run_def split: sum.splits prod.splits if_splits)
    have ids: "map ob_id (rows (dispatch pub now es box)) = map ob_id (rows box)" for es box
      by (induction es arbitrary: box) (simp_all add: Let_def hand_over_def update_row_def split: sum.splits)
    have "outbox_ok (snd s')" using work_keeps [OF assms, of pub now cf work] Pair by simp
    moreover have "s' = (db', dispatch pub now staged ((snd s)\<lparr> rows := rows (snd s) @ map (toRow now \<circ> fst) staged \<rparr>))"
      using Pair Inr w by (auto simp: uow_run_def split: if_splits)
    ultimately show ?thesis using Pair Inr w by (simp add: ids toRow_def)
  qed
qed

definition sample_work :: "dispatch_fault \<Rightarrow> nat \<Rightarrow> (string, nat \<times> (StagedEvent \<times> dispatch_fault) list \<times> unit) result" where
  "sample_work f db = Inr (Suc db, [(\<lparr> st_id = ''e2'', st_name = ''n'', st_payload = ''{}'' \<rparr>, f)], ())"

theorem events_with_the_change_witness:
  "outbox_ok sample_outbox
   \<and> fst (uow_run deaf_publisher 7 True (sample_work NoFault) (0, sample_outbox)) = (0, sample_outbox)
   \<and> map ob_id (rows (snd (fst (uow_run deaf_publisher 7 False (sample_work DiesBefore) (0, sample_outbox))))) = [''e1'', ''e2'']"
proof -
  let ?a = "uow_run deaf_publisher 7 True (sample_work NoFault) (0, sample_outbox)"
  let ?b = "uow_run deaf_publisher 7 False (sample_work DiesBefore) (0, sample_outbox)"
  have ok: "outbox_ok (snd (0 :: nat, sample_outbox))" by (simp add: sample_outbox_ok)
  have res: "snd ?a = Inl None" "snd ?b = Inr ()" by code_simp+
  obtain a b where ab: "?a = (a, Inl None)" "?b = (b, Inr ())" using res by (metis prod.collapse)
  have "a = (0, sample_outbox)"
    using events_with_the_change [OF ok, where pub = deaf_publisher and now = 7 and cf = True and work = "sample_work NoFault"]
    unfolding ab(1) by simp
  moreover have "map ob_id (rows (snd b)) = [''e1'', ''e2'']"
    using events_with_the_change [OF ok, where pub = deaf_publisher and now = 7 and cf = False and work = "sample_work DiesBefore"]
    unfolding ab(2) by (simp add: sample_work_def sample_outbox_def sample_row_def)
  ultimately show ?thesis using ab sample_outbox_ok by simp
qed

section \<open>The queue empties\<close>

definition drained :: "DomainEventPublisher \<Rightarrow> int \<Rightarrow> OutboxEntity list \<Rightarrow> OutboxEntity \<Rightarrow> OutboxEntity" where
  "drained pub now ps r =
    (if r \<in> set ps
     then case relay_publish pub r of
            None \<Rightarrow> r\<lparr> dispatchedAt := Some now, lastError := None \<rparr>
          | Some message \<Rightarrow> note_failure now message (attempts r + 1) r
     else r)"

lemma drain_exact:
  assumes "distinct (map ob_id (rows box))"
  shows "rows (drainOnce pub now None False box) = map (drained pub now (due_rows now box)) (rows box)"
proof -
  note due = due_rows_props [OF assms, where now = now]
  obtain b res where l: "relay_loop pub now None (due_rows now box) box = (b, res)" by (metis surj_pair)
  note eff = relay_loop_effect [OF l assms due(1,2)]
  then obtain ids where res: "res = Some ids" "ids = map ob_id (filter (\<lambda>r. relay_publish pub r = None) (due_rows now box))"
  proof -
    have "res \<noteq> None" using eff by blast
    then obtain ids where "res = Some ids" by blast
    moreover have "ids = map ob_id (filter (\<lambda>r. relay_publish pub r = None) (due_rows now box))" using eff calculation by blast
    ultimately show ?thesis using that by blast
  qed
  have member: "ob_id r \<in> set ids \<longleftrightarrow> r \<in> set (due_rows now box) \<and> relay_publish pub r = None" if "r \<in> set (rows box)" for r
  proof
    assume "ob_id r \<in> set ids"
    then obtain q where q: "q \<in> set (due_rows now box)" "relay_publish pub q = None" "ob_id r = ob_id q"
      unfolding res(2) by auto
    then have "r = q" using same_row [OF assms that] due(2) by blast
    then show "r \<in> set (due_rows now box) \<and> relay_publish pub r = None" using q by simp
  qed (simp add: res(2))
  have "(if ob_id (tried pub now (due_rows now box) r) \<in> set ids
      then (tried pub now (due_rows now box) r)\<lparr> dispatchedAt := Some now, lastError := None \<rparr> else tried pub now (due_rows now box) r)
      = drained pub now (due_rows now box) r" if "r \<in> set (rows box)" for r
    using member [OF that]
    by (cases "r \<in> set (due_rows now box)"; cases "relay_publish pub r") (simp_all add: tried_def drained_def)
  then show ?thesis using eff by (simp add: drainOnce_def l res(1) mark_dispatched_def reached_def)
qed

definition attempts_left :: "outbox \<Rightarrow> nat" where
  "attempts_left box = sum_list (map (\<lambda>r. if is_pending r then MAX_ATTEMPTS - attempts r else 0) (rows box))"

definition all_due :: "int \<Rightarrow> outbox \<Rightarrow> bool" where
  "all_due now box \<longleftrightarrow> list_all (\<lambda>r. is_pending r \<longrightarrow> occurredAt r < now - FAST_PATH_GRACE_MS) (rows box)"

lemma sum_list_less:
  assumes "\<And>x. x \<in> set xs \<Longrightarrow> f x \<le> (g x :: nat)" "x \<in> set xs" "f x < g x"
  shows "sum_list (map f xs) < sum_list (map g xs)"
  using assms
proof (induction xs)
  case (Cons y ys)
  have le: "sum_list (map f ys) \<le> sum_list (map g ys)" using Cons.prems(1) by (intro sum_list_mono) auto
  show ?case
  proof (cases "x = y")
    case True
    then show ?thesis using le Cons.prems(3) by simp
  next
    case False
    then have "sum_list (map f ys) < sum_list (map g ys)" using Cons by auto
    then show ?thesis using Cons.prems(1) [of y] by simp
  qed
qed simp

lemma due_nonempty:
  assumes "all_due now box" "r \<in> set (rows box)" "is_pending r"
  shows "\<exists>q. q \<in> set (due_rows now box)"
proof -
  let ?l = "sort_key occurredAt (filter (\<lambda>r. is_pending r \<and> occurredAt r < now - FAST_PATH_GRACE_MS) (rows box))"
  have "r \<in> set ?l" using assms by (auto simp: all_due_def list_all_iff)
  then have "due_rows now box \<noteq> []" by (cases ?l) (auto simp: due_rows_def BATCH_SIZE_def)
  then show ?thesis by (cases "due_rows now box") auto
qed

lemma drain_progress:
  assumes ok: "outbox_ok box" and due: "all_due now box" and r: "r \<in> set (rows box)" "is_pending r"
  shows "attempts_left (drainOnce pub now None False box) < attempts_left box"
proof -
  let ?ps = "due_rows now box"
  let ?m = "\<lambda>r. if is_pending r then MAX_ATTEMPTS - attempts r else 0"
  have d: "distinct (map ob_id (rows box))" using ok by (simp add: outbox_ok_def)
  have step: "?m (drained pub now ?ps q) \<le> ?m q \<and> (q \<in> set ?ps \<longrightarrow> ?m (drained pub now ?ps q) < ?m q)" if "q \<in> set (rows box)" for q
  proof (cases "q \<in> set ?ps")
    case True
    then have "is_pending q" "attempts q < MAX_ATTEMPTS"
      using due_rows_props(3) [OF d True] ok that by (auto simp: outbox_ok_def row_ok_def)
    then show ?thesis using True by (auto simp: drained_def note_failure_def is_pending_def split: option.splits)
  qed (simp add: drained_def)
  obtain q where "q \<in> set ?ps" using due_nonempty [OF due r] by blast
  moreover have "q \<in> set (rows box)" using calculation due_rows_props(2) [OF d] by blast
  ultimately have "sum_list (map (\<lambda>q. ?m (drained pub now ?ps q)) (rows box)) < sum_list (map ?m (rows box))"
    using step by (intro sum_list_less [of _ _ _ q]) auto
  then show ?thesis by (simp add: attempts_left_def drain_exact [OF d] o_def)
qed

lemma drain_all_due: "outbox_ok box \<Longrightarrow> all_due now box \<Longrightarrow> all_due now (drainOnce pub now None False box)"
proof -
  assume ok: "outbox_ok box" and due: "all_due now box"
  have "is_pending (drained pub now ps r) \<Longrightarrow> is_pending r \<and> occurredAt (drained pub now ps r) = occurredAt r" for ps r
    by (auto simp: drained_def note_failure_def is_pending_def split: option.splits if_splits)
  then show ?thesis using ok due by (auto simp: outbox_ok_def all_due_def list_all_iff drain_exact)
qed

text \<open>A pass that dies or cannot write its marks does not set the queue back.\<close>

lemma drain_map:
  assumes "outbox_ok box"
  shows "\<exists>f. rows (drainOnce pub now dies mf box) = map f (rows box)
    \<and> (\<forall>q. is_pending (f q) \<longrightarrow> is_pending q \<and> occurredAt (f q) = occurredAt q \<and> attempts q \<le> attempts (f q))"
proof -
  have d: "distinct (map ob_id (rows box))" using assms by (simp add: outbox_ok_def)
  obtain b res where l: "relay_loop pub now dies (due_rows now box) box = (b, res)" by (metis surj_pair)
  let ?t = "tried pub now (reached dies (due_rows now box))"
  have b: "rows b = map ?t (rows box)" using relay_loop_effect [OF l d due_rows_props(1,2) [OF d]] by simp
  have t: "is_pending (?t q) \<Longrightarrow> is_pending q \<and> occurredAt (?t q) = occurredAt q \<and> attempts q \<le> attempts (?t q)" for q
    by (auto simp: tried_def note_failure_def is_pending_def split: option.splits if_splits)
  let ?g = "\<lambda>ids (r :: OutboxEntity). if ob_id r \<in> set ids then r\<lparr> dispatchedAt := Some now, lastError := None \<rparr> else r"
  have g: "is_pending (?g ids q) \<Longrightarrow> ?g ids q = q" for ids q by (auto simp: is_pending_def split: if_splits)
  show ?thesis
  proof (cases "mf \<or> res = None")
    case True
    then have "drainOnce pub now dies mf box = b" by (auto simp: drainOnce_def l split: option.splits)
    then show ?thesis using b t by (intro exI [of _ ?t]) simp
  next
    case False
    then obtain ids where "res = Some ids" "\<not> mf" by blast
    then have "rows (drainOnce pub now dies mf box) = map (?g ids \<circ> ?t) (rows box)"
      using b by (simp add: drainOnce_def l mark_dispatched_def)
    moreover have "is_pending ((?g ids \<circ> ?t) q) \<Longrightarrow> is_pending q \<and> occurredAt ((?g ids \<circ> ?t) q) = occurredAt q
        \<and> attempts q \<le> attempts ((?g ids \<circ> ?t) q)" for q
      using t [of q] g [where ids = ids and q = "?t q"] by (simp only: comp_apply)
    ultimately show ?thesis by blast
  qed
qed

lemma drain_sets_nothing_back:
  assumes "outbox_ok box"
  shows "attempts_left (drainOnce pub now dies mf box) \<le> attempts_left box"
    and "all_due start box \<Longrightarrow> all_due start (drainOnce pub now dies mf box)"
proof -
  obtain f where f: "rows (drainOnce pub now dies mf box) = map f (rows box)"
    "\<And>q. is_pending (f q) \<Longrightarrow> is_pending q \<and> occurredAt (f q) = occurredAt q \<and> attempts q \<le> attempts (f q)"
    using drain_map [OF assms, of pub now dies mf] by blast
  show "attempts_left (drainOnce pub now dies mf box) \<le> attempts_left box"
    unfolding attempts_left_def f(1) map_map comp_apply by (rule sum_list_mono) (use f(2) in \<open>auto simp: diff_le_mono2\<close>)
  show "all_due start box \<Longrightarrow> all_due start (drainOnce pub now dies mf box)"
    using f by (auto simp: all_due_def list_all_iff)
qed

lemma all_due_later: "all_due start box \<Longrightarrow> start \<le> now \<Longrightarrow> all_due now box"
  by (auto simp: all_due_def list_all_iff)

lemma sum_zero: "sum_list (map f xs) = (0 :: nat) \<longleftrightarrow> (\<forall>x \<in> set xs. f x = 0)"
  by (induction xs) auto

lemma no_attempts_left: "outbox_ok box \<Longrightarrow> attempts_left box = 0 \<longleftrightarrow> list_all (\<lambda>r. \<not> is_pending r) (rows box)"
proof -
  assume ok: "outbox_ok box"
  have "attempts_left box = 0 \<longleftrightarrow> (\<forall>r \<in> set (rows box). is_pending r \<longrightarrow> MAX_ATTEMPTS - attempts r = 0)"
    unfolding attempts_left_def sum_zero by (simp split: if_splits)
  moreover have "\<forall>r \<in> set (rows box). is_pending r \<longrightarrow> MAX_ATTEMPTS - attempts r \<noteq> 0"
    using ok unfolding outbox_ok_def row_ok_def by fastforce
  ultimately show ?thesis unfolding list_all_iff by blast
qed

text \<open>A pass of the relay: its publisher, its time, where the process dies and whether the last write fails.\<close>

type_synonym relay_pass = "DomainEventPublisher \<times> int \<times> nat option \<times> bool"

definition relay_pass :: "relay_pass \<Rightarrow> outbox \<Rightarrow> outbox" where
  "relay_pass p box = (case p of (pub, now, dies, mf) \<Rightarrow> drainOnce pub now dies mf box)"

definition undisturbed :: "relay_pass \<Rightarrow> bool" where
  "undisturbed p \<longleftrightarrow> (case p of (pub, now, dies, mf) \<Rightarrow> dies = None \<and> \<not> mf)"

lemma relay_pass_progress:
  assumes "outbox_ok box" "all_due start box" "start \<le> fst (snd p)"
  shows "attempts_left (relay_pass p box) \<le> attempts_left box - (if undisturbed p then 1 else 0)"
proof (cases "undisturbed p \<and> 0 < attempts_left box")
  case True
  then obtain pub now where p: "p = (pub, now, None, False)" by (cases p) (auto simp: undisturbed_def)
  obtain r where "r \<in> set (rows box)" "is_pending r" using True no_attempts_left [OF assms(1)] by (auto simp: list_all_iff)
  then show ?thesis
    using drain_progress [OF assms(1) all_due_later [OF assms(2)], of now r pub] assms(3) True by (simp add: p relay_pass_def)
next
  case False
  then show ?thesis using drain_sets_nothing_back(1) [OF assms(1)] by (cases p) (auto simp: relay_pass_def)
qed

text \<open>
  C20. Relay passes end the waiting. Take a table in which every waiting event is past the grace the relay
  leaves to the loop after the commit, and any passes of the relay from then on, at whatever times and
  however the listeners behave on each; some of them may die on the way or fail to write their marks. Once
  as many passes as there are attempts left ran to their end with their writes done, no event is waiting
  any more: each of them was marked dispatched or is a dead letter. (An event younger than the grace, or
  one whose every pass is cut off, can wait longer.)
\<close>

theorem relay_empties_queue:
  "outbox_ok box \<Longrightarrow> all_due start box \<Longrightarrow> list_all (\<lambda>p. start \<le> fst (snd p)) passes \<Longrightarrow>
   attempts_left box \<le> length (filter undisturbed passes) \<Longrightarrow>
   list_all (\<lambda>r. dispatchedAt r \<noteq> None \<or> r \<in> set (dead_letters (fold relay_pass passes box))) (rows (fold relay_pass passes box))"
proof (induction passes arbitrary: box)
  case Nil
  then show ?case using no_attempts_left [OF Nil.prems(1)] by (auto simp: list_all_iff is_pending_def dead_letters_def)
next
  case (Cons p passes)
  let ?b = "relay_pass p box"
  have "outbox_ok ?b" "all_due start ?b"
    using Cons.prems(1,2) drain_keeps drain_sets_nothing_back(2) by (auto simp: relay_pass_def split: prod.splits)
  moreover have "attempts_left ?b \<le> length (filter undisturbed passes)"
    using relay_pass_progress [OF Cons.prems(1,2), of p] Cons.prems(3,4) by (auto split: if_splits)
  ultimately show ?case using Cons.IH [of ?b] Cons.prems(3) by simp
qed

theorem relay_empties_queue_witness:
  "let box = fold relay_pass [(deaf_publisher, 50000, Some 0, False), (deaf_publisher, 60000, None, False)] sample_outbox
   in list_all (\<lambda>r. dispatchedAt r \<noteq> None \<or> r \<in> set (dead_letters box)) (rows box)"
  unfolding Let_def
  by (rule relay_empties_queue [OF sample_outbox_ok, of 50000])
     (simp_all add: all_due_def attempts_left_def sample_outbox_def sample_row_def is_pending_def FAST_PATH_GRACE_MS_def
        MAX_ATTEMPTS_def undisturbed_def)

section \<open>Events that need a handler of their own\<close>

text \<open>
  The relay does not call such an event delivered when nobody is subscribed to it; the loop after the
  commit does.
\<close>

lemma fast_path_needs_no_subscriber:
  "map dispatchedAt (rows (snd (fst (uow_run deaf_publisher 7 False
     (\<lambda>db. Inr (db, [(\<lparr> st_id = ''e2'', st_name = ''user:updated'', st_payload = ''{}'' \<rparr>, NoFault)], ())) ((), \<lparr> rows = [], handed = [] \<rparr>)))))
   = [Some 7]"
  by code_simp

end
