(* ===== verification/Gst_Words.thy ===== *)
theory Gst_Words
  imports Prelude Money_Rules
begin

text \<open>
  The helpers of the printed invoice in \<^verbatim>\<open>gst.ts\<close> of the shared package: which state a party is in, by the
  prefix of its GSTIN or by a typed name, and a rupee amount in words in the Indian system.
\<close>

section \<open>State codes\<close>

definition GST_STATE_CODES :: "(string \<times> string) list" where
  "GST_STATE_CODES =
    [(''01'', ''Jammu and Kashmir''), (''02'', ''Himachal Pradesh''), (''03'', ''Punjab''), (''04'', ''Chandigarh''),
     (''05'', ''Uttarakhand''), (''06'', ''Haryana''), (''07'', ''Delhi''), (''08'', ''Rajasthan''),
     (''09'', ''Uttar Pradesh''), (''10'', ''Bihar''), (''11'', ''Sikkim''), (''12'', ''Arunachal Pradesh''),
     (''13'', ''Nagaland''), (''14'', ''Manipur''), (''15'', ''Mizoram''), (''16'', ''Tripura''),
     (''17'', ''Meghalaya''), (''18'', ''Assam''), (''19'', ''West Bengal''), (''20'', ''Jharkhand''),
     (''21'', ''Odisha''), (''22'', ''Chhattisgarh''), (''23'', ''Madhya Pradesh''), (''24'', ''Gujarat''),
     (''25'', ''Daman and Diu''), (''26'', ''Dadra and Nagar Haveli and Daman and Diu''), (''27'', ''Maharashtra''),
     (''28'', ''Andhra Pradesh''), (''29'', ''Karnataka''), (''30'', ''Goa''), (''31'', ''Lakshadweep''),
     (''32'', ''Kerala''), (''33'', ''Tamil Nadu''), (''34'', ''Puducherry''), (''35'', ''Andaman and Nicobar Islands''),
     (''36'', ''Telangana''), (''37'', ''Andhra Pradesh''), (''38'', ''Ladakh''), (''97'', ''Other Territory''),
     (''99'', ''Centre Jurisdiction'')]"

definition normalize :: "string \<Rightarrow> string" where
  "normalize s = filter is_lower (concat (map (\<lambda>c. if c = CHR ''&'' then ''and'' else [c]) (js_lower s)))"

text \<open>
  The two tables are plain objects; their lookups are modelled on the properties the source sets. The
  property \<^verbatim>\<open>constructor\<close>, which every object inherits, is left out: a party whose state is typed as that word
  is outside the model.
\<close>

text \<open>Setting a property of an object, and the object built by setting the codes from low to high.\<close>

definition set_prop :: "string \<Rightarrow> string \<Rightarrow> (string \<rightharpoonup> string) \<Rightarrow> (string \<rightharpoonup> string)" where
  "set_prop k v m = m(k \<mapsto> v)"

definition NAME_TO_CODE :: "string \<rightharpoonup> string" where
  "NAME_TO_CODE =
    set_prop (normalize ''New Delhi'') ''07'' (set_prop (normalize ''NCT of Delhi'') ''07''
    (set_prop (normalize ''Pondicherry'') ''34'' (set_prop (normalize ''Orissa'') ''21''
    (fold (\<lambda>(c, name) m. set_prop (normalize name) c m) GST_STATE_CODES Map.empty))))"

definition gstStateCodeToName :: "string option \<Rightarrow> string option" where
  "gstStateCodeToName given =
    (case given of
       None \<Rightarrow> None
     | Some c \<Rightarrow> if c = [] then None else map_of GST_STATE_CODES (pad_start 2 (CHR ''0'') (js_trim c)))"

definition gstinStateCode :: "string option \<Rightarrow> string option" where
  "gstinStateCode gstin =
    (case gstin of
       None \<Rightarrow> None
     | Some v \<Rightarrow>
        (let g = js_upper (js_trim v); c = take 2 g
         in if v = [] \<or> \<not> (length g = 15 \<and> list_all is_digit (take 2 g) \<and> list_all (\<lambda>c. is_upper c \<or> is_digit c) (drop 2 g))
            then None
            else if map_of GST_STATE_CODES c = None then None else Some c))"

definition gstStateNameToCode :: "string option \<Rightarrow> string option" where
  "gstStateNameToCode stateName =
    (case stateName of None \<Rightarrow> None | Some n \<Rightarrow> if n = [] then None else NAME_TO_CODE (normalize n))"

definition resolveGstStateCode :: "string option \<Rightarrow> string option \<Rightarrow> string option" where
  "resolveGstStateCode gstin stateName = nullish (gstinStateCode gstin) (gstStateNameToCode stateName)"

section \<open>Amounts in words\<close>

definition ONES :: "string list" where
  "ONES = ['''', ''One'', ''Two'', ''Three'', ''Four'', ''Five'', ''Six'', ''Seven'', ''Eight'', ''Nine'', ''Ten'',
     ''Eleven'', ''Twelve'', ''Thirteen'', ''Fourteen'', ''Fifteen'', ''Sixteen'', ''Seventeen'', ''Eighteen'', ''Nineteen'']"

definition TENS :: "string list" where
  "TENS = ['''', '''', ''Twenty'', ''Thirty'', ''Forty'', ''Fifty'', ''Sixty'', ''Seventy'', ''Eighty'', ''Ninety'']"

definition below_hundred :: "nat \<Rightarrow> string list" where
  "below_hundred n =
    (if 20 \<le> n then TENS ! (n div 10) # (if n mod 10 \<noteq> 0 then [ONES ! (n mod 10)] else [])
     else if 0 < n then [ONES ! n] else [])"

definition underThousand :: "nat \<Rightarrow> string" where
  "underThousand n = js_join '' ''
    ((if 100 \<le> n then [ONES ! (n div 100) @ '' Hundred''] else []) @ below_hundred (if 100 \<le> n then n mod 100 else n))"

function integerToIndianWords :: "nat \<Rightarrow> string" where
  "integerToIndianWords n =
    (if n = 0 then ''Zero''
     else
      (let crore = n div 10000000; n1 = n mod 10000000;
           lakh = n1 div 100000; n2 = n1 mod 100000;
           thousand = n2 div 1000; n3 = n2 mod 1000
       in js_join '' ''
           ((if 0 < crore then [integerToIndianWords crore @ '' Crore''] else [])
            @ (if 0 < lakh then [underThousand lakh @ '' Lakh''] else [])
            @ (if 0 < thousand then [underThousand thousand @ '' Thousand''] else [])
            @ (if 0 < n3 then [underThousand n3] else []))))"
  by pat_completeness auto
termination
  by (relation "measure id") auto

definition numberToIndianWords :: "js_number \<Rightarrow> string" where
  "numberToIndianWords amount =
    (case amount of
       NaN \<Rightarrow> ''Indian Rupees Zero Only''
     | Num num \<Rightarrow>
        (let sign = (if num < 0 then ''Minus '' else '''');
             rupees = \<lfloor>\<bar>num\<bar>\<rfloor>;
             paise = js_round ((\<bar>num\<bar> - of_int rupees) * 100);
             rupeeWords = ''Indian Rupees '' @ integerToIndianWords (nat rupees);
             paiseWords = (if 0 < paise then '' and '' @ underThousand (nat paise) @ '' Paise'' else '''')
         in sign @ rupeeWords @ paiseWords @ '' Only''))"

declare integerToIndianWords.simps [simp del]

section \<open>Reading the words back\<close>

text \<open>
  A reader of amounts in words. Number words add up; a hundred multiplies what was read since the
  last larger scale, a thousand and a lakh move it to the tot, and a crore multiplies everything
  read so far, since the source words the number of crores by the same function. A word that is neither
  a number nor a scale makes the text unreadable.
\<close>

fun split_words :: "string \<Rightarrow> string list" where
  "split_words [] = [[]]"
| "split_words (c # cs) =
    (if c = CHR '' '' then [] # split_words cs
     else (case split_words cs of [] \<Rightarrow> [[c]] | w # ws \<Rightarrow> (c # w) # ws))"

text \<open>
  The English number words, written out here and not taken from the source's tables, so that a word in
  the wrong place of those tables is misread.
\<close>

definition word_values :: "(string \<times> nat) list" where
  "word_values =
    [(''Zero'', 0), (''One'', 1), (''Two'', 2), (''Three'', 3), (''Four'', 4), (''Five'', 5), (''Six'', 6), (''Seven'', 7),
     (''Eight'', 8), (''Nine'', 9), (''Ten'', 10), (''Eleven'', 11), (''Twelve'', 12), (''Thirteen'', 13),
     (''Fourteen'', 14), (''Fifteen'', 15), (''Sixteen'', 16), (''Seventeen'', 17), (''Eighteen'', 18),
     (''Nineteen'', 19), (''Twenty'', 20), (''Thirty'', 30), (''Forty'', 40), (''Fifty'', 50), (''Sixty'', 60),
     (''Seventy'', 70), (''Eighty'', 80), (''Ninety'', 90)]"

text \<open>What was read so far: the finished part and the part since the last scale, or nothing after an unknown word.\<close>

type_synonym reading = "(nat \<times> nat) option"

definition read_word :: "string \<Rightarrow> reading \<Rightarrow> reading" where
  "read_word w st =
    (case st of
       None \<Rightarrow> None
     | Some (tot, grp) \<Rightarrow>
        if w = ''Hundred'' then Some (tot, grp * 100)
        else if w = ''Thousand'' then Some (tot + grp * 1000, 0)
        else if w = ''Lakh'' then Some (tot + grp * 100000, 0)
        else if w = ''Crore'' then Some ((tot + grp) * 10000000, 0)
        else map_option (\<lambda>k. (tot, grp + k)) (map_of word_values w))"

definition read_from :: "string \<Rightarrow> reading \<Rightarrow> reading" where
  "read_from s st = fold read_word (split_words s) st"

definition read_amount :: "string \<Rightarrow> nat option" where
  "read_amount s = map_option (\<lambda>(tot, grp). tot + grp) (read_from s (Some (0, 0)))"

lemma split_words_Nonempty [simp]: "split_words s \<noteq> []"
  by (induction s) (auto split: list.splits)

lemma split_words_space: "split_words (s @ CHR '' '' # t) = split_words s @ split_words t"
  by (induction s) (auto split: list.splits)

lemma read_from_space [simp]: "read_from (s @ CHR '' '' # t) st = read_from t (read_from s st)"
  by (simp add: read_from_def split_words_space)

text \<open>Words joined by single spaces are read one after the other.\<close>

lemma read_from_join:
  "xs \<noteq> [] \<Longrightarrow> read_from (js_join '' '' xs) st = fold read_from xs st"
  by (induction "'' ''" xs arbitrary: st rule: js_join.induct) (auto simp: read_from_def split_words_space)

lemma scale_words [simp]:
  "read_from ''Hundred'' (Some (t, g)) = Some (t, g * 100)"
  "read_from ''Thousand'' (Some (t, g)) = Some (t + g * 1000, 0)"
  "read_from ''Lakh'' (Some (t, g)) = Some (t + g * 100000, 0)"
  "read_from ''Crore'' (Some (t, g)) = Some ((t + g) * 10000000, 0)"
  by (simp_all add: read_from_def read_word_def)

definition word_value :: "string \<Rightarrow> nat" where
  "word_value w = the (map_of word_values w)"

definition number_word :: "string \<Rightarrow> bool" where
  "number_word w \<longleftrightarrow> split_words w = [w] \<and> w \<notin> {''Hundred'', ''Thousand'', ''Lakh'', ''Crore''} \<and> map_of word_values w \<noteq> None"

lemma read_number_words:
  "list_all number_word ws \<Longrightarrow> fold read_from ws (Some (tot, grp)) = Some (tot, grp + sum_list (map word_value ws))"
  by (induction ws arbitrary: grp) (auto simp: number_word_def read_from_def read_word_def word_value_def)

lemma below_hundred_all:
  "list_all (\<lambda>n. list_all number_word (below_hundred n) \<and> sum_list (map word_value (below_hundred n)) = n
      \<and> below_hundred n \<noteq> []) [1..<100]"
  by code_simp

lemma below_hundred_word:
  assumes "0 < n" "n < 100"
  shows "fold read_from (below_hundred n) (Some (tot, grp)) = Some (tot, grp + n)" "below_hundred n \<noteq> []"
proof -
  have "list_all number_word (below_hundred n)" "sum_list (map word_value (below_hundred n)) = n" "below_hundred n \<noteq> []"
    using bspec [OF below_hundred_all [unfolded list_all_iff], of n] assms by (simp_all add: list_all_iff)
  then show "fold read_from (below_hundred n) (Some (tot, grp)) = Some (tot, grp + n)" "below_hundred n \<noteq> []"
    by (simp_all add: read_number_words)
qed

lemma hundreds_all:
  "list_all (\<lambda>d. number_word (ONES ! d) \<and> word_value (ONES ! d) = d) [1..<10]"
  by code_simp

lemma hundreds_word:
  assumes "0 < d" "d < 10"
  shows "read_from (ONES ! d @ '' Hundred'') (Some (tot, 0)) = Some (tot, 100 * d)"
proof -
  have "number_word (ONES ! d)" and "word_value (ONES ! d) = d"
    using hundreds_all assms by (auto simp: list_all_iff)
  then have "read_from (ONES ! d) (Some (tot, 0)) = Some (tot, d)"
    using read_number_words [of "[ONES ! d]" tot 0] by simp
  then show ?thesis by simp
qed

lemma underThousand_word:
  assumes "0 < n" "n < 1000"
  shows "read_from (underThousand n) (Some (tot, 0)) = Some (tot, n)"
proof (cases "100 \<le> n")
  case True
  have "0 < n div 100" "n div 100 < 10" using True assms by (simp_all add: div_greater_zero_iff)
  then have h: "read_from (ONES ! (n div 100) @ '' Hundred'') (Some (tot, 0)) = Some (tot, 100 * (n div 100))"
    by (rule hundreds_word)
  have "fold read_from (below_hundred (n mod 100)) (Some (tot, 100 * (n div 100))) = Some (tot, n)"
    using below_hundred_word(1) [of "n mod 100" tot "100 * (n div 100)"] mult_div_mod_eq [of 100 n]
    by (cases "n mod 100 = 0") (auto simp: below_hundred_def)
  then show ?thesis
    using True h by (simp add: underThousand_def read_from_join)
next
  case False
  then show ?thesis
    using assms by (simp add: underThousand_def read_from_join below_hundred_word)
qed

lemma segment_words:
  "l < 1000 \<Longrightarrow> fold read_from (if 0 < l then [underThousand l @ '' Lakh''] else []) (Some (t, 0)) = Some (t + l * 100000, 0)"
  "l < 1000 \<Longrightarrow> fold read_from (if 0 < l then [underThousand l @ '' Thousand''] else []) (Some (t, 0)) = Some (t + l * 1000, 0)"
  "l < 1000 \<Longrightarrow> fold read_from (if 0 < l then [underThousand l] else []) (Some (t, 0)) = Some (t, l)"
  by (auto simp: underThousand_word)

lemma indian_digits:
  fixes n :: nat
  shows "n div 10000000 * 10000000 + n mod 10000000 div 100000 * 100000
    + n mod 10000000 mod 100000 div 1000 * 1000 + n mod 10000000 mod 100000 mod 1000 = n"
  by presburger

lemma integer_words_read: "read_amount (integerToIndianWords n) = Some n"
proof (induction n rule: less_induct)
  case (less n)
  show ?case
  proof (cases "n = 0")
    case True
    then show ?thesis by (simp add: integerToIndianWords.simps) code_simp
  next
    case False
    define c l t u where "c = n div 10000000" and "l = n mod 10000000 div 100000"
      and "t = n mod 10000000 mod 100000 div 1000" and "u = n mod 10000000 mod 100000 mod 1000"
    note parts = c_def l_def t_def u_def
    have crore: "fold read_from (if 0 < c then [integerToIndianWords c @ '' Crore''] else []) (Some (0, 0)) = Some (c * 10000000, 0)"
      using less [of c] False by (auto simp: read_amount_def c_def split: prod.splits option.splits)
    have small: "l < 1000" "t < 1000" "u < 1000" by (simp_all add: parts less_mult_imp_div_less)
    have n: "n = c * 10000000 + l * 100000 + t * 1000 + u"
      using indian_digits [of n] by (simp add: parts)
    define ps where "ps = (if 0 < c then [integerToIndianWords c @ '' Crore''] else [])
        @ (if 0 < l then [underThousand l @ '' Lakh''] else [])
        @ (if 0 < t then [underThousand t @ '' Thousand''] else [])
        @ (if 0 < u then [underThousand u] else [])"
    have w: "integerToIndianWords n = js_join '' '' ps"
      using False by (subst integerToIndianWords.simps) (simp only: ps_def parts Let_def if_False)
    have "ps \<noteq> []" using False n by (auto simp: ps_def)
    then have "read_from (integerToIndianWords n) (Some (0, 0)) = fold read_from ps (Some (0, 0))"
      by (simp only: w read_from_join not_False_eq_True)
    also have "\<dots> = Some (c * 10000000 + l * 100000 + t * 1000, u)"
      unfolding ps_def fold_append comp_apply crore segment_words(1) [OF small(1)]
        segment_words(2) [OF small(2)] segment_words(3) [OF small(3)] ..
    finally show ?thesis using n by (simp add: read_amount_def)
  qed
qed

lemma underThousand_read: "0 < n \<Longrightarrow> n < 1000 \<Longrightarrow> read_amount (underThousand n) = Some n"
  by (simp add: read_amount_def underThousand_word)

section \<open>What the printed invoice says\<close>

lemma whole_paise_parts:
  fixes p :: nat
  shows "\<lfloor>of_nat p / (100 :: rat)\<rfloor> = int (p div 100)"
    "js_round ((of_nat p / 100 - of_int (int (p div 100))) * 100) = int (p mod 100)"
proof -
  show "\<lfloor>of_nat p / (100 :: rat)\<rfloor> = int (p div 100)"
    using floor_divide_of_nat_eq [of p 100, where ?'a = rat] by simp
  have "of_nat p = (of_nat (p div 100) * 100 + of_nat (p mod 100) :: rat)"
    by (metis div_mult_mod_eq of_nat_add of_nat_mult of_nat_numeral)
  then have "(of_nat p / 100 - of_int (int (p div 100))) * 100 = (of_int (int (p mod 100)) :: rat)"
    by (simp add: field_simps)
  then show "js_round ((of_nat p / 100 - of_int (int (p div 100))) * 100) = int (p mod 100)"
    by (simp only: js_round_int)
qed

text \<open>
  C32. The words at the foot of an invoice say its total: for an amount of p paise, of either sign, they are
  the rupees in words and, when there are any, the paise in words, and reading those words back, with the
  English number words and the Indian scales written out independently of the source's tables and an
  unknown word refused, gives p div 100 and p mod 100.
\<close>

theorem amount_words_read_back:
  "\<exists>rupees paise. read_amount rupees = Some (p div 100) \<and> (p mod 100 = 0 \<or> read_amount paise = Some (p mod 100))
     \<and> (let body = ''Indian Rupees '' @ rupees @ (if p mod 100 = 0 then '''' else '' and '' @ paise @ '' Paise'') @ '' Only''
         in numberToIndianWords (Num (of_nat p / 100)) = body
            \<and> numberToIndianWords (Num (- (of_nat p / 100))) = (if p = 0 then '''' else ''Minus '') @ body)"
proof (intro exI conjI)
  show "read_amount (integerToIndianWords (p div 100)) = Some (p div 100)" by (rule integer_words_read)
  show "p mod 100 = 0 \<or> read_amount (underThousand (p mod 100)) = Some (p mod 100)"
    using underThousand_read [of "p mod 100"] by (cases "p mod 100 = 0") auto
  show "let body = ''Indian Rupees '' @ integerToIndianWords (p div 100)
            @ (if p mod 100 = 0 then '''' else '' and '' @ underThousand (p mod 100) @ '' Paise'') @ '' Only''
         in numberToIndianWords (Num (of_nat p / 100)) = body
            \<and> numberToIndianWords (Num (- (of_nat p / 100))) = (if p = 0 then '''' else ''Minus '') @ body"
    using whole_paise_parts [of p] by (simp add: numberToIndianWords_def Let_def)
qed

text \<open>An amount that is not a whole number of paise can be worded with a hundred paise.\<close>

lemma hundred_paise_worded:
  "numberToIndianWords (Num (1999 / 1000)) = ''Indian Rupees One and One Hundred Paise Only''"
proof -
  have "integerToIndianWords 1 = ''One''"
    by (subst integerToIndianWords.simps) (simp add: underThousand_def below_hundred_def ONES_def)
  moreover have "underThousand 100 = ''One Hundred''"
    by (simp add: underThousand_def below_hundred_def ONES_def)
  moreover have "\<lfloor>1999 / 1000 :: rat\<rfloor> = 1" and "\<lfloor>502 / 5 :: rat\<rfloor> = 100"
    by (simp_all add: floor_unique)
  ultimately show ?thesis
    by (simp add: numberToIndianWords_def js_round_def Let_def)
qed

text \<open>Every entry of the table leads back to itself through its name, but for the older code of Andhra Pradesh.\<close>

definition normalised_names :: "string list" where
  "normalised_names =
    [''jammuandkashmir'', ''himachalpradesh'', ''punjab'', ''chandigarh'', ''uttarakhand'', ''haryana'',
     ''delhi'', ''rajasthan'', ''uttarpradesh'', ''bihar'', ''sikkim'', ''arunachalpradesh'', ''nagaland'',
     ''manipur'', ''mizoram'', ''tripura'', ''meghalaya'', ''assam'', ''westbengal'', ''jharkhand'',
     ''odisha'', ''chhattisgarh'', ''madhyapradesh'', ''gujarat'', ''damananddiu'',
     ''dadraandnagarhavelianddamananddiu'', ''maharashtra'', ''andhrapradesh'', ''karnataka'', ''goa'',
     ''lakshadweep'', ''kerala'', ''tamilnadu'', ''puducherry'', ''andamanandnicobarislands'', ''telangana'',
     ''andhrapradesh'', ''ladakh'', ''otherterritory'', ''centrejurisdiction'']"

lemma normalised_names: "map (normalize \<circ> snd) GST_STATE_CODES = normalised_names"
  by (simp add: GST_STATE_CODES_def normalised_names_def normalize_def letters)

definition name_table :: "(string \<times> string) list" where
  "name_table = [(''newdelhi'', ''07''), (''nctofdelhi'', ''07''), (''pondicherry'', ''34''), (''orissa'', ''21'')]
     @ rev (zip normalised_names (map fst GST_STATE_CODES))"

lemma fold_set_prop:
  "fold (\<lambda>(c, name) m. set_prop (f name) c m) xs m = m ++ map_of (rev (zip (map (f \<circ> snd) xs) (map fst xs)))"
  by (induction xs arbitrary: m) (auto simp: set_prop_def map_add_def fun_eq_iff split: option.splits)

lemma NAME_TO_CODE_table: "NAME_TO_CODE = map_of name_table"
proof -
  have "normalize ''New Delhi'' = ''newdelhi''" "normalize ''NCT of Delhi'' = ''nctofdelhi''"
    "normalize ''Pondicherry'' = ''pondicherry''" "normalize ''Orissa'' = ''orissa''"
    by (simp_all add: normalize_def letters)
  then show ?thesis
    unfolding NAME_TO_CODE_def name_table_def fold_set_prop normalised_names by (simp add: set_prop_def)
qed

lemma table_round_trip_list:
  "list_all (\<lambda>(k, c, name). map_of name_table k = Some (if c = ''28'' then ''37'' else c)
     \<and> map_of GST_STATE_CODES (if c = ''28'' then ''37'' else c) = Some name
     \<and> length c = 2 \<and> list_all is_digit c \<and> k \<noteq> []) (zip normalised_names GST_STATE_CODES)"
  by code_simp

lemma table_round_tripD:
  assumes "map_of GST_STATE_CODES c = Some name"
  shows "NAME_TO_CODE (normalize name) = Some (if c = ''28'' then ''37'' else c)"
    "map_of GST_STATE_CODES (if c = ''28'' then ''37'' else c) = Some name"
    "length c = 2" "list_all is_digit c" "normalize name \<noteq> []"
proof -
  have "(normalize name, c, name) \<in> set (zip normalised_names GST_STATE_CODES)"
    using map_of_SomeD [OF assms] by (force simp flip: normalised_names simp: zip_map1 zip_same_conv_map)
  then have "map_of name_table (normalize name) = Some (if c = ''28'' then ''37'' else c)
     \<and> map_of GST_STATE_CODES (if c = ''28'' then ''37'' else c) = Some name
     \<and> length c = 2 \<and> list_all is_digit c \<and> normalize name \<noteq> []"
    using bspec [OF table_round_trip_list [unfolded list_all_iff], of "(normalize name, c, name)"] by (simp add: list_all_iff)
  then show "NAME_TO_CODE (normalize name) = Some (if c = ''28'' then ''37'' else c)"
    "map_of GST_STATE_CODES (if c = ''28'' then ''37'' else c) = Some name"
    "length c = 2" "list_all is_digit c" "normalize name \<noteq> []"
    by (simp_all only: NAME_TO_CODE_table not_False_eq_True)
qed

lemma code_to_name:
  assumes "map_of GST_STATE_CODES c = Some name"
  shows "gstStateCodeToName (Some c) = Some name"
proof -
  note c = table_round_tripD [OF assms]
  then have "js_trim c = c" by (intro js_trim_no_ws) (auto simp: list_all_iff is_digit_not_ws)
  then show ?thesis using c(3) assms by (auto simp: gstStateCodeToName_def pad_start_def)
qed

lemma gstin_state_code:
  assumes "gstinStateCode (Some gstin) = Some d"
  shows "d = take 2 (js_upper (js_trim gstin))" "map_of GST_STATE_CODES d \<noteq> None"
  using assms by (auto simp: gstinStateCode_def Let_def split: if_splits)

text \<open>
  The state of a party: the name of every code of the table, in any spelling the normaliser
  identifies with it, leads back to that code, for Andhra Pradesh to the newer of its two, and the code
  back to the name, so the two never disagree; when the GSTIN carries a known prefix, that prefix is
  the answer whatever name was typed, and it has a name.
\<close>

theorem gst_state_resolved:
  assumes "map_of GST_STATE_CODES c = Some name" and "normalize typed = normalize name"
    and "gstinStateCode (Some gstin) = Some d"
  shows "resolveGstStateCode None (Some typed) = Some (if c = ''28'' then ''37'' else c)
    \<and> gstStateCodeToName (resolveGstStateCode None (Some typed)) = Some name
    \<and> resolveGstStateCode (Some gstin) (Some typed) = Some d
    \<and> d = take 2 (js_upper (js_trim gstin)) \<and> gstStateCodeToName (Some d) \<noteq> None"
proof -
  have "typed \<noteq> []"
    using assms(2) table_round_tripD(5) [OF assms(1)] by (auto simp: normalize_def)
  then have "resolveGstStateCode None (Some typed) = Some (if c = ''28'' then ''37'' else c)"
    using table_round_tripD(1) [OF assms(1)] assms(2)
    by (simp add: resolveGstStateCode_def gstinStateCode_def gstStateNameToCode_def)
  moreover have "gstStateCodeToName (Some d) \<noteq> None"
    using gstin_state_code(2) [OF assms(3)] code_to_name by auto
  ultimately show ?thesis
    using gstin_state_code(1) [OF assms(3)] code_to_name [OF table_round_tripD(2) [OF assms(1)]] assms(3)
    by (simp add: resolveGstStateCode_def)
qed

theorem gst_state_resolved_witness:
  "map_of GST_STATE_CODES ''01'' = Some ''Jammu and Kashmir''
   \<and> normalize ''JAMMU & Kashmir.'' = normalize ''Jammu and Kashmir''
   \<and> gstinStateCode (Some '' 27aapfu0939f1zv'') = Some ''27''
   \<and> resolveGstStateCode None (Some ''JAMMU & Kashmir.'') = Some ''01''
   \<and> resolveGstStateCode (Some '' 27aapfu0939f1zv'') (Some ''JAMMU & Kashmir.'') = Some ''27''"
proof -
  have h: "map_of GST_STATE_CODES ''01'' = Some ''Jammu and Kashmir''"
    "normalize ''JAMMU & Kashmir.'' = normalize ''Jammu and Kashmir''"
    "gstinStateCode (Some '' 27aapfu0939f1zv'') = Some ''27''"
    by (simp add: GST_STATE_CODES_def) (simp add: normalize_def letters, code_simp)
  show ?thesis using gst_state_resolved [OF h] h by simp
qed

end
