(* ===== verification/Branch_Clusters.thy ===== *)
theory Branch_Clusters
  imports Check_In_Rules "HOL-Library.Multiset"
begin

text \<open>
  Which branches make one day: the first half of \<^verbatim>\<open>day-planner.service.ts\<close>, from the branches that wait
  for an assayer to clusters of a day's work, and what the plan says about each branch. Hours and
  coordinates are rationals, the distance is the real number of \<open>Check_In_Rules\<close>; the clustering takes
  the comparison with the radius as an argument, so that it computes.
\<close>

section \<open>Hours of a branch\<close>

definition MAX_DAILY_WORK_HOURS :: rat where
  "MAX_DAILY_WORK_HOURS = 10"

definition CLUSTER_RADIUS_KM :: real where
  "CLUSTER_RADIUS_KM = 80"

definition DEFAULT_MINUTES_PER_PACKET :: rat where
  "DEFAULT_MINUTES_PER_PACKET = 15"

definition DEFAULT_AUDIT_HOURS :: rat where
  "DEFAULT_AUDIT_HOURS = 4"

definition UNDERUTILIZED_IDLE_HOURS_THRESHOLD :: rat where
  "UNDERUTILIZED_IDLE_HOURS_THRESHOLD = 3"

text \<open>\<^verbatim>\<open>parseFloat(x.toFixed(n))\<close> for numbers that are not negative.\<close>

definition to_fixed :: "nat \<Rightarrow> rat \<Rightarrow> rat" where
  "to_fixed n x = of_int (js_round (x * 10 ^ n)) / 10 ^ n"

record ProjectBranch =
  pb_id :: string
  pb_branchId :: string
  pb_packetCount :: "int option"
  pb_estimatedDurationHours :: js_number
  pb_latitude :: "rat option"
  pb_longitude :: "rat option"

definition number_or :: "js_number \<Rightarrow> rat \<Rightarrow> rat" where
  "number_or n d = (case n of NaN \<Rightarrow> d | Num x \<Rightarrow> if x = 0 then d else x)"

definition minutesPerPacket :: "js_number \<Rightarrow> rat" where
  "minutesPerPacket pref = number_or pref DEFAULT_MINUTES_PER_PACKET"

definition resolveAuditHours :: "ProjectBranch \<Rightarrow> rat \<Rightarrow> rat \<times> int option \<times> bool" where
  "resolveAuditHours pb minutes =
    (case pb_packetCount pb of
       Some k \<Rightarrow> if 0 < k then (to_fixed 2 (of_int k * minutes / 60), Some k, False)
                 else (number_or (pb_estimatedDurationHours pb) DEFAULT_AUDIT_HOURS, Some k, True)
     | None \<Rightarrow> (number_or (pb_estimatedDurationHours pb) DEFAULT_AUDIT_HOURS, None, True))"

section \<open>Clusters\<close>

record ClusterMember =
  cm_id :: string
  cm_branchId :: string
  cm_latitude :: rat
  cm_longitude :: rat
  cm_packetCount :: "int option"
  cm_hours :: rat
  cm_fromStatic :: bool

definition truthy :: "rat option \<Rightarrow> bool" where
  "truthy v = (case v of None \<Rightarrow> False | Some x \<Rightarrow> x \<noteq> 0)"

definition located :: "ProjectBranch \<Rightarrow> bool" where
  "located pb \<longleftrightarrow> truthy (pb_latitude pb) \<and> truthy (pb_longitude pb)"

definition cluster_member :: "(ProjectBranch \<Rightarrow> rat) \<Rightarrow> ProjectBranch \<Rightarrow> ClusterMember" where
  "cluster_member minutesFor pb =
    (case resolveAuditHours pb (minutesFor pb) of
       (hours, packets, static) \<Rightarrow>
         \<lparr> cm_id = pb_id pb, cm_branchId = pb_branchId pb, cm_latitude = the (pb_latitude pb),
           cm_longitude = the (pb_longitude pb), cm_packetCount = packets, cm_hours = hours, cm_fromStatic = static \<rparr>)"

definition branchesWithCoords :: "(ProjectBranch \<Rightarrow> rat) \<Rightarrow> ProjectBranch list \<Rightarrow> ClusterMember list" where
  "branchesWithCoords minutesFor pbs =
     sort_key (\<lambda>b. - cm_hours b) (map (cluster_member minutesFor) (filter located pbs))"

definition within_radius :: "ClusterMember \<Rightarrow> ClusterMember \<Rightarrow> bool" where
  "within_radius m b \<longleftrightarrow> calculateHaversineDistance (of_rat (cm_latitude m)) (of_rat (cm_longitude m))
     (of_rat (cm_latitude b)) (of_rat (cm_longitude b)) \<le> CLUSTER_RADIUS_KM"

text \<open>One pass of the \<^verbatim>\<open>while (expanded)\<close> loop: the members, the visited identifiers, and whether it added one.\<close>

primrec absorb :: "(ClusterMember \<Rightarrow> ClusterMember \<Rightarrow> bool) \<Rightarrow> ClusterMember list
    \<Rightarrow> ClusterMember list \<times> string set \<times> bool \<Rightarrow> ClusterMember list \<times> string set \<times> bool" where
  "absorb near [] st = st"
| "absorb near (b # bs) st =
    (case st of (ms, visited, expanded) \<Rightarrow>
       if cm_id b \<in> visited then absorb near bs st
       else if list_ex (\<lambda>m. near m b) ms then absorb near bs (ms @ [b], insert (cm_id b) visited, True)
       else absorb near bs st)"

definition unvisited :: "ClusterMember list \<Rightarrow> string set \<Rightarrow> nat" where
  "unvisited bs visited = length (filter (\<lambda>b. cm_id b \<notin> visited) bs)"

lemma unvisited_mono: "visited \<subseteq> visited' \<Longrightarrow> unvisited bs visited' \<le> unvisited bs visited"
  unfolding unvisited_def by (induction bs) auto

lemma absorb_visited: "absorb near bs (ms, visited, e) = (ms', visited', e') \<Longrightarrow> visited \<subseteq> visited'"
  by (induction bs arbitrary: ms visited e) (auto split: if_splits)

lemma unvisited_insert:
  "b \<in> set bs \<Longrightarrow> cm_id b \<notin> visited \<Longrightarrow> unvisited bs (insert (cm_id b) visited) < unvisited bs visited"
proof (induction bs)
  case (Cons a bs)
  show ?case
  proof (cases "a = b")
    case True
    then show ?thesis
      using Cons.prems(2) unvisited_mono [of visited "insert (cm_id b) visited" bs]
      by (auto simp: unvisited_def less_Suc_eq_le)
  next
    case False
    then show ?thesis using Cons by (auto simp: unvisited_def)
  qed
qed simp

lemma absorb_expanded:
  assumes "absorb near bs (ms, visited, False) = (ms', visited', True)" and "set bs \<subseteq> set all"
  shows "unvisited all visited' < unvisited all visited"
  using assms
proof (induction bs)
  case (Cons b bs)
  show ?case
  proof (cases "cm_id b \<notin> visited \<and> list_ex (\<lambda>m. near m b) ms")
    case True
    then have "absorb near bs (ms @ [b], insert (cm_id b) visited, True) = (ms', visited', True)"
      using Cons.prems(1) by simp
    then have "unvisited all visited' \<le> unvisited all (insert (cm_id b) visited)"
      by (intro unvisited_mono) (rule absorb_visited)
    also have "\<dots> < unvisited all visited" using True Cons.prems(2) by (intro unvisited_insert) auto
    finally show ?thesis .
  next
    case False
    then show ?thesis using Cons by (auto split: if_splits)
  qed
qed simp

function grow :: "(ClusterMember \<Rightarrow> ClusterMember \<Rightarrow> bool) \<Rightarrow> ClusterMember list
    \<Rightarrow> ClusterMember list \<Rightarrow> string set \<Rightarrow> ClusterMember list \<times> string set" where
  "grow near bs ms visited =
    (case absorb near bs (ms, visited, False) of
       (ms', visited', expanded) \<Rightarrow> if expanded then grow near bs ms' visited' else (ms', visited'))"
  by pat_completeness auto
termination
  by (relation "measure (\<lambda>(near, bs, ms, visited). unvisited bs visited)")
    (auto dest: absorb_expanded [OF sym] sym)

declare grow.simps [simp del]

definition load :: "ClusterMember list \<Rightarrow> rat" where
  "load ms = sum_list (map cm_hours ms)"

primrec first_fit :: "ClusterMember \<Rightarrow> ClusterMember list list \<Rightarrow> ClusterMember list list" where
  "first_fit b [] = [[b]]"
| "first_fit b (sub # subs) =
    (if load sub + cm_hours b \<le> MAX_DAILY_WORK_HOURS then (sub @ [b]) # subs else sub # first_fit b subs)"

definition splitInfeasibleCluster :: "ClusterMember list \<Rightarrow> ClusterMember list list" where
  "splitInfeasibleCluster ms = fold first_fit (sort_key (\<lambda>b. - cm_hours b) ms) []"

primrec cluster_loop :: "(ClusterMember \<Rightarrow> ClusterMember \<Rightarrow> bool) \<Rightarrow> ClusterMember list \<Rightarrow> ClusterMember list
    \<Rightarrow> string set \<Rightarrow> ClusterMember list list" where
  "cluster_loop near all [] visited = []"
| "cluster_loop near all (b # bs) visited =
    (if cm_id b \<in> visited then cluster_loop near all bs visited
     else (case grow near all [b] (insert (cm_id b) visited) of
       (ms, visited') \<Rightarrow>
         (if load ms \<le> MAX_DAILY_WORK_HOURS then [ms] else splitInfeasibleCluster ms)
           @ cluster_loop near all bs visited'))"

text \<open>The centre and the radius of a cluster, which only the map draws, are left out.\<close>

record BranchCluster =
  clusterId :: string
  cl_branches :: "ClusterMember list"
  cl_totalPackets :: int
  cl_totalAuditHours :: rat
  feasibleForOneDay :: bool

definition buildCluster :: "nat \<Rightarrow> ClusterMember list \<Rightarrow> BranchCluster" where
  "buildCluster index members =
    \<lparr> clusterId = ''CLU-'' @ pad_start 3 (CHR ''0'') (nat_digits (index + 1)), cl_branches = members,
      cl_totalPackets = sum_list (map (\<lambda>b. nullish_value (cm_packetCount b) 0) members),
      cl_totalAuditHours = to_fixed 1 (load members),
      feasibleForOneDay = (load members \<le> MAX_DAILY_WORK_HOURS) \<rparr>"

definition clusterBranches :: "(ClusterMember \<Rightarrow> ClusterMember \<Rightarrow> bool) \<Rightarrow> (ProjectBranch \<Rightarrow> rat)
    \<Rightarrow> ProjectBranch list \<Rightarrow> BranchCluster list" where
  "clusterBranches near minutesFor pbs =
    (let bs = branchesWithCoords minutesFor pbs
     in map (\<lambda>(i, ms). buildCluster i ms) (enumerate 0 (cluster_loop near bs bs {})))"

text \<open>What the plan says of a cluster: the first half of the loop of \<^verbatim>\<open>generateDayPlans\<close>.\<close>

datatype day_fate = MultiDay int | Unclustered | Underutilized rat | Unreported | PlanTogether

definition cluster_fate :: "BranchCluster \<Rightarrow> day_fate" where
  "cluster_fate cl =
    (if \<not> feasibleForOneDay cl
     then if length (cl_branches cl) = 1 then MultiDay \<lceil>cl_totalAuditHours cl / MAX_DAILY_WORK_HOURS\<rceil> else Unclustered
     else if length (cl_branches cl) \<le> 1
     then let idle = max 0 (MAX_DAILY_WORK_HOURS - cl_totalAuditHours cl)
          in if UNDERUTILIZED_IDLE_HOURS_THRESHOLD \<le> idle then Underutilized (to_fixed 1 idle) else Unreported
     else PlanTogether)"

section \<open>Groups of neighbours\<close>

text \<open>The groups before those that are too large are split.\<close>

primrec groups :: "(ClusterMember \<Rightarrow> ClusterMember \<Rightarrow> bool) \<Rightarrow> ClusterMember list \<Rightarrow> ClusterMember list
    \<Rightarrow> string set \<Rightarrow> ClusterMember list list" where
  "groups near all [] visited = []"
| "groups near all (b # bs) visited =
    (if cm_id b \<in> visited then groups near all bs visited
     else (case grow near all [b] (insert (cm_id b) visited) of
       (ms, visited') \<Rightarrow> ms # groups near all bs visited'))"

definition day_sized :: "ClusterMember list \<Rightarrow> ClusterMember list list" where
  "day_sized ms = (if load ms \<le> MAX_DAILY_WORK_HOURS then [ms] else splitInfeasibleCluster ms)"

lemma cluster_loop_groups: "cluster_loop near all bs visited = concat (map day_sized (groups near all bs visited))"
  by (induction bs arbitrary: visited) (auto simp: day_sized_def split: prod.split)

text \<open>A chain of neighbours among the branches of the run.\<close>

definition joined :: "(ClusterMember \<Rightarrow> ClusterMember \<Rightarrow> bool) \<Rightarrow> ClusterMember list \<Rightarrow> ClusterMember \<Rightarrow> ClusterMember \<Rightarrow> bool" where
  "joined near all = (\<lambda>x y. near x y \<and> y \<in> set all)\<^sup>*\<^sup>*"

lemma joined_trans: "joined near all x y \<Longrightarrow> joined near all y z \<Longrightarrow> joined near all x z"
  unfolding joined_def by (rule rtranclp_trans)

lemma joined_refl [simp]: "joined near all x x"
  by (simp add: joined_def)

lemma joined_step: "near x y \<Longrightarrow> y \<in> set all \<Longrightarrow> joined near all x y"
  unfolding joined_def by (rule r_into_rtranclp) simp

lemma joined_mem: "joined near all x y \<Longrightarrow> x \<in> set all \<Longrightarrow> y \<in> set all"
  unfolding joined_def by (induction rule: rtranclp_induct) auto

lemma joined_sym:
  assumes "symp near" "joined near all x y" "x \<in> set all"
  shows "joined near all y x"
  using assms(2) unfolding joined_def
proof (induction rule: rtranclp_induct)
  case (step y z)
  have "y \<in> set all" using step.hyps(1) joined_mem assms(3) unfolding joined_def by fast
  then have "near z y \<and> y \<in> set all" using step.hyps(2) assms(1) by (blast dest: sympD)
  then show ?case using step.IH by (rule converse_rtranclp_into_rtranclp)
qed simp

text \<open>What a pass, and then the loop, adds to a group.\<close>

definition extends :: "(ClusterMember \<Rightarrow> ClusterMember \<Rightarrow> bool) \<Rightarrow> ClusterMember list \<Rightarrow> ClusterMember list
    \<Rightarrow> string set \<Rightarrow> ClusterMember list \<Rightarrow> string set \<Rightarrow> ClusterMember list \<Rightarrow> bool" where
  "extends near bs ms visited ms' visited' new \<longleftrightarrow>
     ms' = ms @ new \<and> visited' = visited \<union> cm_id ` set new \<and> set new \<subseteq> set bs
     \<and> distinct (map cm_id new) \<and> cm_id ` set new \<inter> visited = {}
     \<and> (\<forall>b\<in>set new. \<exists>m\<in>set ms. joined near bs m b)"

lemma extends_refl [simp]: "extends near bs ms visited ms visited []"
  by (simp add: extends_def)

lemma extends_trans:
  assumes "extends near bs ms v ms1 v1 new" and "extends near bs ms1 v1 ms2 v2 new'"
  shows "extends near bs ms v ms2 v2 (new @ new')"
proof -
  have "\<exists>m\<in>set ms. joined near bs m b" if "b \<in> set new'" for b
  proof -
    have "\<exists>m\<in>set ms1. joined near bs m b" and "set ms1 = set ms \<union> set new"
      using assms that by (simp_all add: extends_def)
    then obtain m where "m \<in> set ms \<or> m \<in> set new" "joined near bs m b" by blast
    then show ?thesis using assms(1) unfolding extends_def by (meson joined_trans)
  qed
  then show ?thesis using assms by (auto simp: extends_def)
qed

lemma absorb_extends:
  "absorb near bs (ms, visited, e) = (ms', visited', e') \<Longrightarrow> set bs \<subseteq> set all \<Longrightarrow>
     \<exists>new. extends near all ms visited ms' visited' new \<and> e' = (e \<or> new \<noteq> [])
       \<and> (new = [] \<longrightarrow> (\<forall>b\<in>set bs. cm_id b \<in> visited \<or> \<not> (\<exists>m\<in>set ms. near m b)))"
proof (induction bs arbitrary: ms visited e)
  case (Cons b bs)
  show ?case
  proof (cases "cm_id b \<notin> visited \<and> list_ex (\<lambda>m. near m b) ms")
    case True
    then have step: "absorb near bs (ms @ [b], insert (cm_id b) visited, True) = (ms', visited', e')"
      using Cons.prems(1) by simp
    obtain new where new: "extends near all (ms @ [b]) (insert (cm_id b) visited) ms' visited' new" "e'"
      using Cons.IH [OF step] Cons.prems(2) by auto
    have "extends near all ms visited (ms @ [b]) (insert (cm_id b) visited) [b]"
      using True Cons.prems(2) by (auto simp: extends_def list_ex_iff intro: joined_step)
    then have "extends near all ms visited ms' visited' ([b] @ new)" using new(1) by (rule extends_trans)
    then show ?thesis using new(2) by (intro exI [of _ "[b] @ new"]) simp
  next
    case False
    then have "absorb near bs (ms, visited, e) = (ms', visited', e')"
      using Cons.prems(1) by (auto split: if_splits)
    then show ?thesis using Cons False by (fastforce simp: list_ex_iff)
  qed
qed (auto intro: exI [of _ "[]"])

lemma grow_extends:
  "grow near all ms visited = (ms', visited') \<Longrightarrow>
     \<exists>new. extends near all ms visited ms' visited' new
       \<and> (\<forall>b\<in>set all. cm_id b \<in> visited' \<or> \<not> (\<exists>m\<in>set ms'. near m b))"
proof (induction near all ms visited rule: grow.induct)
  case (1 near all ms visited)
  obtain ms1 v1 e1 where a: "absorb near all (ms, visited, False) = (ms1, v1, e1)" by (cases "absorb near all (ms, visited, False)")
  obtain new where new: "extends near all ms visited ms1 v1 new" "e1 = (new \<noteq> [])"
    "new = [] \<longrightarrow> (\<forall>b\<in>set all. cm_id b \<in> visited \<or> \<not> (\<exists>m\<in>set ms. near m b))"
    using absorb_extends [OF a order.refl] by auto
  show ?case
  proof (cases e1)
    case True
    then have "grow near all ms1 v1 = (ms', visited')"
      using 1(2) a by (simp add: grow.simps [of near all ms])
    then show ?thesis
      using 1(1) [OF a [symmetric] refl True] extends_trans [OF new(1)] by blast
  next
    case False
    then show ?thesis
      using 1(2) a new by (intro exI [of _ new]) (auto simp: grow.simps [of near all ms] extends_def)
  qed
qed

lemma group_of_seed:
  assumes "grow near all [b] (insert (cm_id b) visited) = (ms, visited')" "b \<in> set all" "cm_id b \<notin> visited"
  shows "b \<in> set ms" "set ms \<subseteq> set all" "distinct (map cm_id ms)" "cm_id ` set ms \<inter> visited = {}"
    "visited' = visited \<union> cm_id ` set ms" "\<forall>m\<in>set ms. joined near all b m"
    "\<forall>m\<in>set ms. \<forall>a\<in>set all. cm_id a \<notin> visited' \<longrightarrow> \<not> near m a"
proof -
  obtain new where new: "extends near all [b] (insert (cm_id b) visited) ms visited' new"
    and closed: "\<forall>b\<in>set all. cm_id b \<in> visited' \<or> \<not> (\<exists>m\<in>set ms. near m b)"
    using grow_extends [OF assms(1)] by blast
  show "\<forall>m\<in>set ms. \<forall>a\<in>set all. cm_id a \<notin> visited' \<longrightarrow> \<not> near m a" using closed by blast
  show "b \<in> set ms" "set ms \<subseteq> set all" "distinct (map cm_id ms)" "cm_id ` set ms \<inter> visited = {}"
    "visited' = visited \<union> cm_id ` set ms" "\<forall>m\<in>set ms. joined near all b m"
    using new assms(2,3) by (auto simp: extends_def)
qed

lemma groups_correct:
  assumes ids: "distinct (map cm_id all)" and "set bs \<subseteq> set all" "\<forall>a\<in>set all. cm_id a \<in> visited \<or> a \<in> set bs"
  shows "set (concat (groups near all bs visited)) = {a \<in> set all. cm_id a \<notin> visited}
    \<and> distinct (map cm_id (concat (groups near all bs visited)))
    \<and> sorted_wrt (\<lambda>g h. \<forall>x\<in>set g. \<forall>y\<in>set h. \<not> near x y) (groups near all bs visited)
    \<and> (\<forall>g\<in>set (groups near all bs visited). \<exists>seed\<in>set g. \<forall>m\<in>set g. joined near all seed m)"
  using assms(2,3)
proof (induction bs arbitrary: visited)
  case (Cons b bs)
  show ?case
  proof (cases "cm_id b \<in> visited")
    case True
    then show ?thesis using Cons.IH [of visited] Cons.prems by fastforce
  next
    case False
    obtain ms v' where g: "grow near all [b] (insert (cm_id b) visited) = (ms, v')"
      by (cases "grow near all [b] (insert (cm_id b) visited)")
    note seed = group_of_seed [OF g _ False]
    have b: "b \<in> set all" using Cons.prems(1) by simp
    have "\<forall>a\<in>set all. cm_id a \<in> v' \<or> a \<in> set bs"
      using Cons.prems(2) seed(1,5) [OF b] by auto
    note rest = Cons.IH [OF _ this]
    let ?rest = "groups near all bs v'"
    have rest: "set (concat ?rest) = {a \<in> set all. cm_id a \<notin> v'}" "distinct (map cm_id (concat ?rest))"
      "sorted_wrt (\<lambda>g h. \<forall>x\<in>set g. \<forall>y\<in>set h. \<not> near x y) ?rest"
      "\<forall>g\<in>set ?rest. \<exists>seed\<in>set g. \<forall>m\<in>set g. joined near all seed m"
      using Cons.IH [of v'] Cons.prems seed(1,5) [OF b] by auto
    have mem: "a \<in> set ms \<longleftrightarrow> cm_id a \<in> cm_id ` set ms" if "a \<in> set all" for a
      using ids that seed(2) [OF b] by (auto simp: distinct_map dest: inj_onD)
    have all_set: "set ms \<union> set (concat ?rest) = {a \<in> set all. cm_id a \<notin> visited}"
      using rest(1) seed(2,4,5) [OF b] mem by auto
    moreover have "cm_id ` set ms \<inter> cm_id ` set (concat ?rest) = {}"
      using rest(1) seed(5) [OF b] by auto (metis imageI)
    moreover have "\<forall>x\<in>set ms. \<forall>h\<in>set ?rest. \<forall>y\<in>set h. \<not> near x y"
      using rest(1) seed(7) [OF b] by auto
    ultimately show ?thesis
      using False g rest(2-4) seed(1,3,6) [OF b] by (simp add: image_UN [symmetric]) blast
  qed
qed auto

section \<open>Days of a large group\<close>

text \<open>
  First fit, largest first: the invariant of the bins says what fits, that nothing is empty or lost, and
  that two days never fit into one.
\<close>

definition bins_ok :: "ClusterMember list list \<Rightarrow> bool" where
  "bins_ok bins \<longleftrightarrow>
     (\<forall>d\<in>set bins. d \<noteq> [] \<and> (\<forall>b\<in>set d. 0 \<le> cm_hours b) \<and> (load d \<le> MAX_DAILY_WORK_HOURS \<or> length d = 1))
     \<and> sorted_wrt (\<lambda>d e. MAX_DAILY_WORK_HOURS < load d + load e) bins"

lemma load_simps [simp]: "load [] = 0" "load (b # bs) = cm_hours b + load bs" "load (xs @ ys) = load xs + load ys"
  by (simp_all add: load_def)

lemma mset_first_fit: "mset (concat (first_fit b bins)) = add_mset b (mset (concat bins))"
  by (induction bins) auto

lemma mset_splitInfeasible: "mset (concat (splitInfeasibleCluster ms)) = mset ms"
proof -
  have "mset (concat (fold first_fit bs bins)) = mset (concat bins) + mset bs" for bs bins
    by (induction bs arbitrary: bins) (auto simp: mset_first_fit)
  then show ?thesis by (simp add: splitInfeasibleCluster_def)
qed

lemma first_fit_above:
  assumes "0 \<le> cm_hours b" "c < x + cm_hours b"
  shows "\<forall>d\<in>set bins. c < x + load d \<Longrightarrow> \<forall>d\<in>set (first_fit b bins). c < x + load d"
  using assms by (induction bins) auto

lemma bins_ok_Cons:
  "bins_ok (d # ds) \<longleftrightarrow> d \<noteq> [] \<and> (\<forall>b\<in>set d. 0 \<le> cm_hours b) \<and> (load d \<le> MAX_DAILY_WORK_HOURS \<or> length d = 1)
     \<and> (\<forall>e\<in>set ds. MAX_DAILY_WORK_HOURS < load d + load e) \<and> bins_ok ds"
  by (auto simp: bins_ok_def)

lemma first_fit_ok:
  assumes "bins_ok bins" "0 \<le> cm_hours b"
  shows "bins_ok (first_fit b bins)"
  using assms(1)
proof (induction bins)
  case Nil
  then show ?case using assms(2) by (simp add: bins_ok_def)
next
  case (Cons d ds)
  show ?case
  proof (cases "load d + cm_hours b \<le> MAX_DAILY_WORK_HOURS")
    case True
    have "MAX_DAILY_WORK_HOURS < load d + cm_hours b + load e" if "e \<in> set ds" for e
      using Cons.prems that assms(2) by (auto simp: bins_ok_Cons dest!: bspec)
    then show ?thesis using Cons.prems True assms(2) by (simp add: bins_ok_Cons add.assoc)
  next
    case False
    have "\<forall>e\<in>set (first_fit b ds). MAX_DAILY_WORK_HOURS < load d + load e"
      using False assms(2) Cons.prems by (intro first_fit_above) (simp_all add: bins_ok_Cons)
    then show ?thesis using Cons.prems Cons.IH False by (simp add: bins_ok_Cons)
  qed
qed

lemma split_ok:
  assumes "\<forall>b\<in>set ms. 0 \<le> cm_hours b"
  shows "bins_ok (splitInfeasibleCluster ms)"
proof -
  have "bins_ok bins \<Longrightarrow> \<forall>b\<in>set bs. 0 \<le> cm_hours b \<Longrightarrow> bins_ok (fold first_fit bs bins)" for bs bins
    by (induction bs arbitrary: bins) (auto simp: first_fit_ok)
  from this [of "[]" "sort_key (\<lambda>b. - cm_hours b) ms"] show ?thesis
    using assms by (simp add: splitInfeasibleCluster_def) (simp add: bins_ok_def)
qed

lemma pairwise_above_half:
  fixes c :: rat
  shows "sorted_wrt (\<lambda>x y. c < x + y) ls \<Longrightarrow> 2 \<le> length ls \<Longrightarrow> c * of_nat (length ls) < 2 * sum_list ls"
proof (induction ls rule: induct_list012)
  case (3 x y zs)
  show ?case
  proof (cases zs)
    case Nil
    then show ?thesis using 3 by simp
  next
    case (Cons z zs')
    show ?thesis
    proof (cases zs')
      case Nil
      then show ?thesis using 3 Cons by simp
    next
      case (Cons w ws)
      then have "c * of_nat (length zs) < 2 * sum_list zs"
        using 3 \<open>zs = z # zs'\<close> by simp
      moreover have "c < x + y" using 3 by simp
      ultimately show ?thesis by (simp add: algebra_simps)
    qed
  qed
qed auto

lemma load_concat: "load (concat ds) = sum_list (map load ds)"
  by (induction ds) auto

lemma days_at_least:
  assumes "\<forall>d\<in>set days. load d \<le> c"
  shows "load (concat days) \<le> c * of_nat (length days)"
  using assms by (induction days) (auto simp: algebra_simps intro: add_mono)

lemma load_mset: "mset xs = mset ys \<Longrightarrow> load xs = load ys"
  unfolding load_def by (metis mset_map sum_mset_sum_list)

section \<open>Every branch has one place\<close>

lemma distinct_sort_key_map: "distinct (map f (sort_key k xs)) \<longleftrightarrow> distinct (map f xs)"
proof -
  have "mset (map f (sort_key k xs)) = mset (map f xs)" by simp
  then show ?thesis by (rule mset_eq_imp_distinct_iff)
qed

lemma cm_id_member [simp]: "cm_id (cluster_member minutesFor pb) = pb_id pb"
  by (simp add: cluster_member_def split: prod.split)

lemma cm_hours_member [simp]: "cm_hours (cluster_member minutesFor pb) = fst (resolveAuditHours pb (minutesFor pb))"
  by (simp add: cluster_member_def split: prod.split)

lemma branches_distinct: "distinct (map pb_id pbs) \<Longrightarrow> distinct (map cm_id (branchesWithCoords minutesFor pbs))"
  by (simp add: branchesWithCoords_def distinct_sort_key_map comp_def distinct_map_filter)

lemma buildCluster_simps [simp]:
  "cl_branches (buildCluster i ms) = ms" "feasibleForOneDay (buildCluster i ms) = (load ms \<le> MAX_DAILY_WORK_HOURS)"
  by (simp_all add: buildCluster_def)

lemma cluster_lists:
  "map cl_branches (clusterBranches near minutesFor pbs)
     = concat (map day_sized (groups near (branchesWithCoords minutesFor pbs) (branchesWithCoords minutesFor pbs) {}))"
proof -
  have "map cl_branches (map (\<lambda>(i, ms). buildCluster i ms) (enumerate 0 xs)) = xs" for xs
    unfolding map_map comp_def split_def buildCluster_simps by (rule map_snd_enumerate)
  then show ?thesis by (simp only: clusterBranches_def Let_def cluster_loop_groups)
qed

definition run_ok :: "(ProjectBranch \<Rightarrow> rat) \<Rightarrow> ProjectBranch list \<Rightarrow> bool" where
  "run_ok minutesFor pbs \<longleftrightarrow> distinct (map pb_id pbs)
     \<and> list_all (\<lambda>pb. 0 \<le> fst (resolveAuditHours pb (minutesFor pb))) pbs"

lemma run_hours:
  assumes "run_ok minutesFor pbs" "b \<in> set (branchesWithCoords minutesFor pbs)"
  shows "0 \<le> cm_hours b"
  using assms by (auto simp: run_ok_def branchesWithCoords_def list_all_iff)

lemma groups_of_run:
  fixes near minutesFor pbs
  defines "bs \<equiv> branchesWithCoords minutesFor pbs"
  assumes "run_ok minutesFor pbs"
  shows "mset (concat (groups near bs bs {})) = mset bs"
    and "sorted_wrt (\<lambda>g h. \<forall>x\<in>set g. \<forall>y\<in>set h. \<not> near x y) (groups near bs bs {})"
    and "\<forall>g\<in>set (groups near bs bs {}). \<exists>seed\<in>set g. \<forall>m\<in>set g. joined near bs seed m"
    and "\<forall>g\<in>set (groups near bs bs {}). set g \<subseteq> set bs \<and> distinct g"
proof -
  have d: "distinct (map cm_id bs)" using assms by (simp add: run_ok_def branches_distinct)
  note c = groups_correct [OF d order.refl, of "{}" near]
  then have "set (concat (groups near bs bs {})) = set bs" "distinct (concat (groups near bs bs {}))"
    by (auto simp: distinct_map)
  then show "mset (concat (groups near bs bs {})) = mset bs"
    using d by (metis distinct_map set_eq_iff_mset_eq_distinct)
  show "\<forall>g\<in>set (groups near bs bs {}). set g \<subseteq> set bs \<and> distinct g"
    using c by (auto simp: distinct_map distinct_concat_iff)
  show "sorted_wrt (\<lambda>g h. \<forall>x\<in>set g. \<forall>y\<in>set h. \<not> near x y) (groups near bs bs {})"
    "\<forall>g\<in>set (groups near bs bs {}). \<exists>seed\<in>set g. \<forall>m\<in>set g. joined near bs seed m"
    using c by auto
qed

lemma mset_day_sized: "mset (concat (day_sized ms)) = mset ms"
  by (simp add: day_sized_def mset_splitInfeasible)

lemma day_sized_ok:
  assumes "\<forall>b\<in>set ms. 0 \<le> cm_hours b" "ms \<noteq> []" "d \<in> set (day_sized ms)"
  shows "d \<noteq> [] \<and> (load d \<le> MAX_DAILY_WORK_HOURS \<or> length d = 1)"
  using split_ok [OF assms(1)] assms(2,3) by (auto simp: day_sized_def bins_ok_def split: if_splits)

lemma clusters_hold_branches:
  assumes "run_ok minutesFor pbs"
  shows "mset (concat (map cl_branches (clusterBranches near minutesFor pbs)))
      = mset (map (cluster_member minutesFor) (filter located pbs))"
proof -
  define bs where "bs = branchesWithCoords minutesFor pbs"
  have parts: "mset (concat (concat (map day_sized gs))) = mset (concat gs)" for gs
    by (induction gs) (simp_all add: mset_day_sized)
  have "mset bs = mset (map (cluster_member minutesFor) (filter located pbs))"
    by (simp add: bs_def branchesWithCoords_def)
  then show ?thesis
    using groups_of_run(1) [OF assms, of near] unfolding cluster_lists bs_def [symmetric] parts by simp
qed

lemma clusters_day_sized:
  assumes "run_ok minutesFor pbs" "cl \<in> set (clusterBranches near minutesFor pbs)"
  shows "cl_branches cl \<noteq> [] \<and> (feasibleForOneDay cl \<or> length (cl_branches cl) = 1)"
proof -
  define bs where "bs = branchesWithCoords minutesFor pbs"
  note run = groups_of_run [OF assms(1), of near, folded bs_def]
  obtain i ms where cl: "cl = buildCluster i ms" using assms(2) by (auto simp: clusterBranches_def Let_def)
  have "ms \<in> set (map cl_branches (clusterBranches near minutesFor pbs))" using assms(2) cl by force
  then obtain g where g: "g \<in> set (groups near bs bs {})" "ms \<in> set (day_sized g)"
    unfolding cluster_lists bs_def [symmetric] by auto
  have "g \<noteq> []" "\<forall>b\<in>set g. 0 \<le> cm_hours b"
    using g(1) run(3,4) run_hours [OF assms(1)] unfolding bs_def by fastforce+
  from day_sized_ok [OF this(2,1) g(2)] show ?thesis by (simp add: cl)
qed

text \<open>
  C26. No branch is lost and none is planned twice: the clusters of a run hold exactly the branches that
  have coordinates, each once and with the hours of this cycle, no cluster is empty, and a cluster that is
  too large for a day is always a single branch, so the list of branches that could not be clustered is
  never filled.
\<close>

theorem clusters_partition_branches:
  assumes "run_ok minutesFor pbs"
  shows "mset (concat (map cl_branches (clusterBranches near minutesFor pbs)))
      = mset (map (cluster_member minutesFor) (filter located pbs))
    \<and> list_all (\<lambda>cl. cl_branches cl \<noteq> [] \<and> (feasibleForOneDay cl \<or> length (cl_branches cl) = 1)
        \<and> cluster_fate cl \<noteq> Unclustered) (clusterBranches near minutesFor pbs)"
  using clusters_hold_branches [OF assms] clusters_day_sized [OF assms]
  by (auto simp: list_all_iff cluster_fate_def Let_def)

section \<open>Neighbours share a day\<close>

lemma group_is_neighbourhood:
  fixes near minutesFor pbs
  defines "bs \<equiv> branchesWithCoords minutesFor pbs"
  assumes "run_ok minutesFor pbs" "symp near" "g \<in> set (groups near bs bs {})" "x \<in> set g"
  shows "mset g = mset (filter (joined near bs x) bs)"
proof -
  note run = groups_of_run [OF assms(2), of near, folded bs_def]
  obtain seed where seed: "seed \<in> set g" "\<forall>m\<in>set g. joined near bs seed m" using run(3) assms(4) by blast
  have sub: "set g \<subseteq> set bs" using run(4) assms(4) by blast
  have closed: "y \<in> set g" if "near m y" "y \<in> set bs" "m \<in> set g" for m y
  proof -
    have "y \<in> set (concat (groups near bs bs {}))" using run(1) that(2) by (metis set_mset_mset)
    then obtain h where h: "h \<in> set (groups near bs bs {})" "y \<in> set h" by auto
    show ?thesis
    proof (rule ccontr)
      assume "y \<notin> set g"
      then have "h \<noteq> g" using h(2) by blast
      moreover obtain i j where ij: "i < length (groups near bs bs {})" "j < length (groups near bs bs {})"
        "groups near bs bs {} ! i = g" "groups near bs bs {} ! j = h"
        using assms(4) h(1) by (metis in_set_conv_nth)
      ultimately have "i < j \<or> j < i" by (metis linorder_neqE_nat)
      then have "\<not> near m y \<or> \<not> near y m"
        using run(2) ij that(3) h(2) unfolding sorted_wrt_iff_nth_less by metis
      then show False using assms(3) that(1) by (blast dest: sympD)
    qed
  qed
  have "joined near bs x y \<longleftrightarrow> y \<in> set g" if "y \<in> set bs" for y
  proof
    assume "y \<in> set g"
    moreover have "joined near bs x seed" using seed assms(3,5) sub joined_sym by blast
    ultimately show "joined near bs x y" using seed(2) joined_trans by blast
  next
    assume "joined near bs x y"
    then show "y \<in> set g"
      unfolding joined_def by (induction rule: rtranclp_induct) (use assms(5) closed in auto)
  qed
  then have "set g = set (filter (joined near bs x) bs)" using sub by auto
  moreover have "distinct g" using run(4) assms(4) by blast
  moreover have "distinct bs"
    using branches_distinct [of pbs minutesFor] assms(2) by (simp add: run_ok_def bs_def distinct_map)
  ultimately show ?thesis by (metis distinct_filter set_eq_iff_mset_eq_distinct)
qed

lemma day_sized_few:
  assumes "\<forall>b\<in>set ms. 0 \<le> cm_hours b" "ms \<noteq> []"
    and "mset (concat days) = mset ms" "\<forall>d\<in>set days. load d \<le> MAX_DAILY_WORK_HOURS"
  shows "length (day_sized ms) < 2 * length days"
proof -
  have "days \<noteq> []" using assms(2,3) by auto
  have "load ms \<le> MAX_DAILY_WORK_HOURS * of_nat (length days)"
    using days_at_least [OF assms(4)] load_mset [OF assms(3)] by simp
  moreover have "MAX_DAILY_WORK_HOURS * of_nat (length (day_sized ms)) < 2 * load ms" if "2 \<le> length (day_sized ms)"
  proof -
    have "bins_ok (day_sized ms)" using that split_ok [OF assms(1)] by (auto simp: day_sized_def split: if_splits)
    then have "sorted_wrt (\<lambda>x y. MAX_DAILY_WORK_HOURS < x + y) (map load (day_sized ms))"
      by (simp add: bins_ok_def sorted_wrt_map)
    then show ?thesis
      using pairwise_above_half [of MAX_DAILY_WORK_HOURS "map load (day_sized ms)"] that
        load_concat [of "day_sized ms"] load_mset [OF mset_day_sized [of ms]] by simp
  qed
  ultimately have "of_nat (length (day_sized ms)) < (2 * of_nat (length days) :: rat)" if "2 \<le> length (day_sized ms)"
    using that by (simp add: MAX_DAILY_WORK_HOURS_def)
  then have "length (day_sized ms) < 2 * length days" if "2 \<le> length (day_sized ms)"
    using that by (metis of_nat_less_iff of_nat_mult of_nat_numeral)
  then show ?thesis using \<open>days \<noteq> []\<close> by (cases days; cases "2 \<le> length (day_sized ms)") auto
qed

lemma within_radius_sym: "symp within_radius"
  by (auto simp: symp_def within_radius_def distance_sym)

text \<open>
  Neighbours share a day whenever their work fits one: take any branch and all branches of the run that
  a chain of steps of at most 80 km joins to it. If their hours fit a working day they are one cluster;
  otherwise they are dealt to clusters of their own, with no other branch among them, and to fewer than
  twice as many days as any way of dealing them to full days needs.
\<close>

theorem neighbourhood_planned_together:
  fixes minutesFor pbs
  defines "bs \<equiv> branchesWithCoords minutesFor pbs"
  assumes "run_ok minutesFor pbs" "x \<in> set bs"
    and "mset (concat days) = mset (filter (joined within_radius bs x) bs)"
    and "list_all (\<lambda>d. load d \<le> MAX_DAILY_WORK_HOURS) days"
  shows "\<exists>ds. set ds \<subseteq> set (map cl_branches (clusterBranches within_radius minutesFor pbs))
    \<and> mset (concat ds) = mset (filter (joined within_radius bs x) bs)
    \<and> (load (filter (joined within_radius bs x) bs) \<le> MAX_DAILY_WORK_HOURS \<longrightarrow> length ds = 1)
    \<and> length ds < 2 * length days"
proof -
  note run = groups_of_run [OF assms(2), of within_radius, folded bs_def]
  have "x \<in> set (concat (groups within_radius bs bs {}))" using run(1) assms(3) by (metis set_mset_mset)
  then obtain g where g: "g \<in> set (groups within_radius bs bs {})" "x \<in> set g" by auto
  have eq: "mset g = mset (filter (joined within_radius bs x) bs)"
    unfolding bs_def by (rule group_is_neighbourhood [OF assms(2) within_radius_sym]) (use g bs_def in auto)
  have hours: "\<forall>b\<in>set g. 0 \<le> cm_hours b" using run(4) g(1) run_hours [OF assms(2)] unfolding bs_def by blast
  show ?thesis
  proof (intro exI conjI)
    show "set (day_sized g) \<subseteq> set (map cl_branches (clusterBranches within_radius minutesFor pbs))"
      unfolding cluster_lists using g(1) bs_def by auto
    show "mset (concat (day_sized g)) = mset (filter (joined within_radius bs x) bs)"
      by (simp add: mset_day_sized eq)
    show "load (filter (joined within_radius bs x) bs) \<le> MAX_DAILY_WORK_HOURS \<longrightarrow> length (day_sized g) = 1"
      using load_mset [OF eq] by (simp add: day_sized_def)
    show "length (day_sized g) < 2 * length days"
      using day_sized_few [OF hours] g(2) assms(4,5) eq by (fastforce simp: list_all_iff)
  qed
qed

section \<open>Two branches of one town, and one far away\<close>

definition sample_branch :: "string \<Rightarrow> int \<Rightarrow> rat \<Rightarrow> ProjectBranch" where
  "sample_branch i packets lat = \<lparr> pb_id = i, pb_branchId = ''b'' @ i, pb_packetCount = Some packets,
     pb_estimatedDurationHours = Num 8, pb_latitude = Some lat, pb_longitude = Some 77 \<rparr>"

definition sample_branches :: "ProjectBranch list" where
  "sample_branches = [sample_branch ''1'' 12 19, sample_branch ''2'' 16 19, sample_branch ''3'' 32 28]"

definition quarter_hours :: "ProjectBranch \<Rightarrow> rat" where
  "quarter_hours pb = 15"

lemma sample_branches_ok: "run_ok quarter_hours sample_branches"
  by (simp add: run_ok_def sample_branches_def sample_branch_def resolveAuditHours_def quarter_hours_def to_fixed_def js_round_def)

definition sample_near :: "ClusterMember \<Rightarrow> ClusterMember \<Rightarrow> bool" where
  "sample_near m b \<longleftrightarrow> \<bar>cm_latitude m - cm_latitude b\<bar> \<le> 1"

lemma sample_clusters:
  "map (\<lambda>cl. (map cm_id (cl_branches cl), cl_totalAuditHours cl, cluster_fate cl)) (clusterBranches sample_near quarter_hours sample_branches)
     = [([''3''], 8, Unreported), ([''2'', ''1''], 7, PlanTogether)]"
  by code_simp

theorem clusters_partition_branches_witness:
  "run_ok quarter_hours sample_branches
   \<and> size (mset (concat (map cl_branches (clusterBranches sample_near quarter_hours sample_branches)))) = 3"
proof -
  have "mset (concat (map cl_branches (clusterBranches sample_near quarter_hours sample_branches)))
      = mset (map (cluster_member quarter_hours) (filter located sample_branches))"
    using clusters_partition_branches [OF sample_branches_ok, of sample_near] by simp
  then show ?thesis
    using sample_branches_ok by (simp add: sample_branches_def sample_branch_def located_def truthy_def)
qed

lemma same_place_within: "cm_latitude m = cm_latitude b \<Longrightarrow> cm_longitude m = cm_longitude b \<Longrightarrow> within_radius m b"
  by (simp add: within_radius_def calculateHaversineDistance_def haversine_def js_atan2_def CLUSTER_RADIUS_KM_def)

theorem neighbourhood_planned_together_witness:
  "run_ok quarter_hours (take 2 sample_branches)
   \<and> (\<exists>cl\<in>set (clusterBranches within_radius quarter_hours (take 2 sample_branches)).
        mset (cl_branches cl) = mset (map (cluster_member quarter_hours) (take 2 sample_branches)))"
proof -
  define bs where "bs = branchesWithCoords quarter_hours (take 2 sample_branches)"
  let ?a = "cluster_member quarter_hours (sample_branch ''2'' 16 19)"
  let ?b = "cluster_member quarter_hours (sample_branch ''1'' 12 19)"
  have bs: "bs = [?a, ?b]" unfolding bs_def by code_simp
  have ok: "run_ok quarter_hours (take 2 sample_branches)"
    using sample_branches_ok by (simp add: run_ok_def sample_branches_def)
  have "joined within_radius bs ?a ?b"
    by (rule joined_step) (simp_all add: bs same_place_within cluster_member_def sample_branch_def split: prod.split)
  then have all: "filter (joined within_radius bs ?a) bs = [?a, ?b]" by (simp add: bs)
  have "load [?a, ?b] \<le> MAX_DAILY_WORK_HOURS" by code_simp
  then obtain ds where "set ds \<subseteq> set (map cl_branches (clusterBranches within_radius quarter_hours (take 2 sample_branches)))"
    "mset (concat ds) = mset [?a, ?b]" "length ds = 1"
    using neighbourhood_planned_together [OF ok, folded bs_def, of ?a "[[?a, ?b]]"] all by (auto simp: bs)
  then show ?thesis
    using ok by (auto simp: length_Suc_conv sample_branches_def add_mset_commute)
qed

text \<open>A branch slightly larger than a day is reported as one that needs a single assayer-day.\<close>

lemma multi_day_of_one_day:
  "map cluster_fate (clusterBranches sample_near (\<lambda>pb. 1) [sample_branch ''1'' 601 19]) = [MultiDay 1]"
  by code_simp

end
