(* ===== verification/Day_Plan_Assignment.thy ===== *)
theory Day_Plan_Assignment
  imports Prelude "HOL-Library.Product_Lexorder" "HOL-Library.List_Lexorder" "HOL-Library.Char_ord"
begin

text \<open>
  Who goes where on one day: \<^verbatim>\<open>globalOptimizeAssignments\<close> and \<^verbatim>\<open>greedyAssignment\<close> of
  \<^verbatim>\<open>day-planner.service.ts\<close>. Every cluster of branches has a ranked list of candidate plans, an assayer
  covers at most one cluster, and the sum of the scores is to be as large as possible. The search is
  exact up to a budget of nodes and falls back to a greedy assignment beyond it. Scores and costs are
  rationals.
\<close>

section \<open>Candidates and their ranking\<close>

record DayPlanStop =
  ds_order :: nat
  ds_branchId :: string
  ds_auditHours :: rat
  ds_travelKm :: rat
  ds_travelMinutes :: rat
  estimatedArrival :: string
  estimatedDeparture :: string

record DayPlanCandidate =
  dp_assayerId :: string
  overallScore :: rat
  dp_totalBranches :: nat
  dp_totalAuditHours :: rat
  dp_totalTravelKm :: rat
  dp_totalTravelMinutes :: rat
  totalDayHours :: rat
  estimatedBaseFee :: rat
  estimatedTravelFee :: rat
  estimatedTotalCost :: rat
  dayStartTime :: string
  dayEndTime :: string
  utilizationPercent :: rat
  dp_totalPackets :: int
  costPerPacket :: "rat option"
  idleHours :: rat
  stops :: "DayPlanStop list"
  existingSameDayJobs :: "nat \<times> rat"
  exceedsWorkingDay :: bool

definition rank_plans :: "DayPlanCandidate list \<Rightarrow> DayPlanCandidate list" where
  "rank_plans = sort_key (\<lambda>p. (- overallScore p, estimatedTotalCost p))"

definition top_plans :: "DayPlanCandidate list \<Rightarrow> DayPlanCandidate list" where
  "top_plans ps = take 5 (rank_plans ps)"

section \<open>The exact search\<close>

record search =
  nodes :: nat
  exhausted :: bool
  bestScore :: rat
  bestAssignment :: "DayPlanCandidate option list"

text \<open>The upper bound of every suffix of the clusters, the empty one included.\<close>

primrec maxRemaining :: "DayPlanCandidate list list \<Rightarrow> rat list" where
  "maxRemaining [] = [0]"
| "maxRemaining (c # cs) = (let r = maxRemaining cs in
     (hd r + (case c of [] \<Rightarrow> 0 | p # ps \<Rightarrow> overallScore p)) # r)"

text \<open>
  \<^verbatim>\<open>dfs\<close> at a cluster, with the clusters and bounds that remain, and its loop over the candidates of
  one cluster, which ends by leaving the cluster without an assayer.
\<close>

function dfs :: "nat \<Rightarrow> DayPlanCandidate list list \<Rightarrow> rat list \<Rightarrow> string set \<Rightarrow> rat
    \<Rightarrow> DayPlanCandidate option list \<Rightarrow> search \<Rightarrow> search"
  and try_plans :: "nat \<Rightarrow> DayPlanCandidate list \<Rightarrow> DayPlanCandidate list list \<Rightarrow> rat list \<Rightarrow> string set \<Rightarrow> rat
    \<Rightarrow> DayPlanCandidate option list \<Rightarrow> search \<Rightarrow> search" where
  "dfs budget cs bounds assigned current asg st =
    (if exhausted st then st
     else
      (let st1 = st\<lparr> nodes := nodes st + 1 \<rparr>
       in if budget < nodes st1 then st1\<lparr> exhausted := True \<rparr>
          else if current + hd bounds \<le> bestScore st1 then st1
          else case cs of
                 [] \<Rightarrow> st1\<lparr> bestScore := current, bestAssignment := asg \<rparr>
               | c # cs' \<Rightarrow> try_plans budget c cs' (tl bounds) assigned current asg st1))"
| "try_plans budget [] cs bounds assigned current asg st =
     dfs budget cs bounds assigned current (asg @ [None]) st"
| "try_plans budget (p # ps) cs bounds assigned current asg st =
    (if dp_assayerId p \<in> assigned then try_plans budget ps cs bounds assigned current asg st
     else
      (let st1 = dfs budget cs bounds (insert (dp_assayerId p) assigned) (current + overallScore p) (asg @ [Some p]) st
       in if exhausted st1 then st1 else try_plans budget ps cs bounds assigned current asg st1))"
  by pat_completeness auto
termination
  by (relation "measures
    [\<lambda>x. case x of Inl (_, cs, _) \<Rightarrow> length cs | Inr (_, _, cs, _) \<Rightarrow> length cs,
     \<lambda>x. case x of Inl _ \<Rightarrow> 0 | Inr (_, ps, _) \<Rightarrow> Suc (length ps)]") auto

section \<open>The greedy assignment\<close>

definition candidate_pairs :: "DayPlanCandidate list list \<Rightarrow> (nat \<times> DayPlanCandidate) list" where
  "candidate_pairs candidates = concat (map (\<lambda>(i, l). map (Pair i) l) (enumerate 0 candidates))"

definition greedy_order :: "nat \<times> DayPlanCandidate \<Rightarrow> rat \<times> nat \<times> string" where
  "greedy_order x = (- overallScore (snd x), fst x, dp_assayerId (snd x))"

definition greedy_step :: "nat \<times> DayPlanCandidate \<Rightarrow> DayPlanCandidate option list \<times> string set
    \<Rightarrow> DayPlanCandidate option list \<times> string set" where
  "greedy_step x st =
    (if fst st ! fst x \<noteq> None \<or> dp_assayerId (snd x) \<in> snd st then st
     else ((fst st)[fst x := Some (snd x)], insert (dp_assayerId (snd x)) (snd st)))"

definition greedyAssignment :: "DayPlanCandidate list list \<Rightarrow> DayPlanCandidate option list" where
  "greedyAssignment candidates =
     fst (fold greedy_step (sort_key greedy_order (candidate_pairs candidates))
       (replicate (length candidates) None, {}))"

section \<open>The assignment of the day\<close>

definition plan_score :: "DayPlanCandidate option \<Rightarrow> rat" where
  "plan_score x = (case x of None \<Rightarrow> 0 | Some p \<Rightarrow> overallScore p)"

definition total_score :: "DayPlanCandidate option list \<Rightarrow> rat" where
  "total_score xs = sum_list (map plan_score xs)"

definition DAY_PLAN_SEARCH_NODE_BUDGET :: nat where
  "DAY_PLAN_SEARCH_NODE_BUDGET = 200000"

record assignment_outcome =
  bestPlans :: "DayPlanCandidate option list"
  exact :: bool
  visited :: nat

definition globalOptimizeAssignments :: "DayPlanCandidate list list \<Rightarrow> nat \<Rightarrow> assignment_outcome" where
  "globalOptimizeAssignments dayPlans nodeBudget =
    (let candidates = map (filter (\<lambda>p. 0 < overallScore p)) dayPlans;
         st = dfs nodeBudget candidates (maxRemaining candidates) {} 0 []
           \<lparr> nodes = 0, exhausted = False, bestScore = -1, bestAssignment = replicate (length dayPlans) None \<rparr>;
         greedy = greedyAssignment candidates
     in \<lparr> bestPlans = (if exhausted st \<and> bestScore st < total_score greedy then greedy else bestAssignment st),
          exact = (\<not> exhausted st), visited = min (nodes st) nodeBudget \<rparr>)"

declare dfs.simps [simp del] try_plans.simps [simp del]

section \<open>What an assignment is\<close>

text \<open>One answer per cluster, taken from its candidates, with no assayer twice and none of a given set.\<close>

fun plan_ok :: "DayPlanCandidate list list \<Rightarrow> string set \<Rightarrow> DayPlanCandidate option list \<Rightarrow> bool" where
  "plan_ok [] used [] \<longleftrightarrow> True"
| "plan_ok (c # cs) used (None # xs) \<longleftrightarrow> plan_ok cs used xs"
| "plan_ok (c # cs) used (Some p # xs) \<longleftrightarrow>
     p \<in> set c \<and> dp_assayerId p \<notin> used \<and> plan_ok cs (insert (dp_assayerId p) used) xs"
| "plan_ok _ used _ \<longleftrightarrow> False"

lemma total_score_simps [simp]:
  "total_score [] = 0" "total_score (x # xs) = plan_score x + total_score xs"
  "total_score (xs @ ys) = total_score xs + total_score ys"
  by (simp_all add: total_score_def)

lemma plan_score_simps [simp]: "plan_score None = 0" "plan_score (Some p) = overallScore p"
  by (simp_all add: plan_score_def)

lemma plan_ok_none: "plan_ok cs used (replicate (length cs) None)"
  by (induction cs) auto

lemma total_score_none [simp]: "total_score (replicate n None) = 0"
  by (induction n) auto

section \<open>The search is exact\<close>

text \<open>Candidates in the order of their scores, none of them zero or less.\<close>

definition ranked :: "DayPlanCandidate list \<Rightarrow> bool" where
  "ranked ps \<longleftrightarrow> sorted_wrt (\<lambda>p q. overallScore q \<le> overallScore p) ps \<and> (\<forall>p\<in>set ps. 0 < overallScore p)"

lemma bound_above:
  assumes "\<forall>c\<in>set cs. ranked c" and "plan_ok cs used xs"
  shows "total_score xs \<le> hd (maxRemaining cs)"
  using assms
proof (induction cs used xs rule: plan_ok.induct)
  case (2 c cs used xs)
  then show ?case by (auto simp: ranked_def Let_def split: list.split)
next
  case (3 c cs used p xs)
  then have "overallScore p \<le> (case c of [] \<Rightarrow> 0 | q # qs \<Rightarrow> overallScore q)"
    by (auto simp: ranked_def split: list.split)
  with 3 show ?case by (auto simp: Let_def intro: add_mono)
qed auto

text \<open>
  What a call of the search changes: the best assignment, if it changes, becomes a completion of the
  choices made so far; the score never falls; and unless the budget ran out, every completion has been
  beaten or matched.
\<close>

definition improves :: "DayPlanCandidate list list \<Rightarrow> string set \<Rightarrow> rat \<Rightarrow> DayPlanCandidate option list \<Rightarrow> search \<Rightarrow> search \<Rightarrow> bool" where
  "improves cs used current asg st st' \<longleftrightarrow>
     bestScore st \<le> bestScore st'
     \<and> (bestScore st' = bestScore st \<and> bestAssignment st' = bestAssignment st
        \<or> (\<exists>xs. plan_ok cs used xs \<and> bestAssignment st' = asg @ xs \<and> bestScore st' = current + total_score xs))"

definition covers :: "DayPlanCandidate list list \<Rightarrow> string set \<Rightarrow> rat \<Rightarrow> search \<Rightarrow> bool" where
  "covers cs used current st \<longleftrightarrow> exhausted st \<or> (\<forall>xs. plan_ok cs used xs \<longrightarrow> current + total_score xs \<le> bestScore st)"

lemma improves_refl: "bestScore st' = bestScore st \<Longrightarrow> bestAssignment st' = bestAssignment st \<Longrightarrow> improves cs used cur asg st st'"
  by (simp add: improves_def)

lemma improves_trans:
  "improves cs used cur asg st st1 \<Longrightarrow> improves cs used cur asg st1 st2 \<Longrightarrow> improves cs used cur asg st st2"
  by (auto simp: improves_def)

lemma improves_none:
  "improves cs used cur (asg @ [None]) st st' \<Longrightarrow> improves (ps # cs) used cur asg st st'"
  unfolding improves_def by (metis append_Cons append_assoc append_Nil plan_ok.simps(2) plan_score_simps(1) total_score_simps(2) add_0)

lemma improves_some:
  assumes "improves cs (insert (dp_assayerId p) used) (cur + overallScore p) (asg @ [Some p]) st st'"
    and "dp_assayerId p \<notin> used"
  shows "improves ((p # ps) # cs) used cur asg st st'"
proof -
  have "plan_ok ((p # ps) # cs) used (Some p # xs)" if "plan_ok cs (insert (dp_assayerId p) used) xs" for xs
    using that assms(2) by simp
  then show ?thesis
    using assms(1) unfolding improves_def
    by (metis append_Cons append_assoc append_Nil plan_score_simps(2) total_score_simps(2) add.assoc)
qed

lemma plan_ok_more: "plan_ok (ps # cs) used xs \<Longrightarrow> plan_ok ((p # ps) # cs) used xs"
  by (cases xs; cases "hd xs") auto

lemma improves_more: "improves (ps # cs) used cur asg st st' \<Longrightarrow> improves ((p # ps) # cs) used cur asg st st'"
  unfolding improves_def using plan_ok_more by blast

lemma plan_ok_cons_cases:
  assumes "plan_ok ((p # ps) # cs) used xs"
  obtains (here) ys where "xs = Some p # ys" "dp_assayerId p \<notin> used" "plan_ok cs (insert (dp_assayerId p) used) ys"
    | (later) "plan_ok (ps # cs) used xs"
  using assms by (cases xs; cases "hd xs") auto

lemma covers_mono: "covers cs used cur st \<Longrightarrow> improves cs' used' cur' asg st st' \<Longrightarrow> \<not> exhausted st \<Longrightarrow> covers cs used cur st'"
  unfolding covers_def improves_def by (meson order.trans)

lemma covers_none:
  assumes "covers cs used cur st"
  shows "covers ([] # cs) used cur st"
proof -
  have "total_score xs = total_score (tl xs) \<and> plan_ok cs used (tl xs)" if "plan_ok ([] # cs) used xs" for xs
    using that by (cases xs; cases "hd xs") auto
  then show ?thesis using assms by (auto simp: covers_def)
qed

lemma covers_cons:
  assumes "dp_assayerId p \<in> used \<or> covers cs (insert (dp_assayerId p) used) (cur + overallScore p) st"
    and "covers (ps # cs) used cur st"
  shows "covers ((p # ps) # cs) used cur st"
proof (cases "exhausted st")
  case False
  have "cur + total_score xs \<le> bestScore st" if "plan_ok ((p # ps) # cs) used xs" for xs
    using that
  proof (cases rule: plan_ok_cons_cases)
    case (here ys)
    then show ?thesis using assms(1) False by (auto simp: covers_def add.assoc)
  next
    case later
    then show ?thesis using assms(2) False by (auto simp: covers_def)
  qed
  then show ?thesis by (simp add: covers_def)
qed (simp add: covers_def)

lemma search_stuck [simp]: "exhausted st \<Longrightarrow> dfs budget cs bounds used cur asg st = st"
  by (simp add: dfs.simps)

lemma search_correct:
  "\<not> exhausted st \<Longrightarrow> bounds = maxRemaining cs \<Longrightarrow> \<forall>c\<in>set cs. ranked c \<Longrightarrow>
     improves cs used cur asg st (dfs budget cs bounds used cur asg st)
     \<and> covers cs used cur (dfs budget cs bounds used cur asg st)"
  "\<not> exhausted st \<Longrightarrow> bounds = maxRemaining cs \<Longrightarrow> \<forall>c\<in>set cs. ranked c \<Longrightarrow>
     improves (ps # cs) used cur asg st (try_plans budget ps cs bounds used cur asg st)
     \<and> covers (ps # cs) used cur (try_plans budget ps cs bounds used cur asg st)"
proof (induction budget cs bounds used cur asg st and budget ps cs bounds used cur asg st rule: dfs_try_plans.induct)
  case (1 budget cs bounds used cur asg st)
  let ?st1 = "st\<lparr> nodes := nodes st + 1 \<rparr>"
  consider "budget < nodes ?st1" | "\<not> budget < nodes ?st1" "cur + hd bounds \<le> bestScore ?st1"
    | "\<not> budget < nodes ?st1" "\<not> cur + hd bounds \<le> bestScore ?st1" by blast
  then show ?case
  proof cases
    case 1
    then show ?thesis using \<open>\<not> exhausted st\<close>
      by (auto simp: dfs.simps Let_def covers_def intro: improves_refl)
  next
    case 2
    have "cur + total_score xs \<le> bestScore st" if "plan_ok cs used xs" for xs
      using bound_above [OF 1(4) that] 1(3) 2(2) by simp
    then show ?thesis using 2 \<open>\<not> exhausted st\<close>
      by (auto simp: dfs.simps Let_def covers_def intro: improves_refl)
  next
    case 3
    show ?thesis
    proof (cases cs)
      case Nil
      then have "plan_ok cs used xs \<longleftrightarrow> xs = []" for xs by (cases xs) auto
      with Nil 3 \<open>\<not> exhausted st\<close> 1(3) show ?thesis
        by (auto simp: dfs.simps Let_def covers_def improves_def)
    next
      case (Cons c cs')
      then have "improves (c # cs') used cur asg ?st1 (try_plans budget c cs' (tl bounds) used cur asg ?st1)
         \<and> covers (c # cs') used cur (try_plans budget c cs' (tl bounds) used cur asg ?st1)"
        using 1(1) [OF 1(2) refl _ _ Cons] 3 1(2,3,4) by (simp add: Let_def)
      then show ?thesis using Cons 3 \<open>\<not> exhausted st\<close>
        by (simp add: dfs.simps Let_def improves_def)
    qed
  qed
next
  case (2 budget cs bounds used cur asg st)
  then show ?case by (auto simp: try_plans.simps intro: improves_none covers_none)
next
  case (3 budget p ps cs bounds used cur asg st)
  show ?case
  proof (cases "dp_assayerId p \<in> used")
    case True
    then show ?thesis using 3 by (auto simp: try_plans.simps intro: improves_more covers_cons)
  next
    case False
    let ?st1 = "dfs budget cs bounds (insert (dp_assayerId p) used) (cur + overallScore p) (asg @ [Some p]) st"
    have here: "improves ((p # ps) # cs) used cur asg st ?st1"
      "covers cs (insert (dp_assayerId p) used) (cur + overallScore p) ?st1"
      using 3(2) [OF False] 3(4-6) improves_some False by blast+
    show ?thesis
    proof (cases "exhausted ?st1")
      case True
      then show ?thesis using False here(1) by (simp add: try_plans.simps covers_def)
    next
      case open_: False
      let ?st2 = "try_plans budget ps cs bounds used cur asg ?st1"
      have rest: "improves (ps # cs) used cur asg ?st1 ?st2" "covers (ps # cs) used cur ?st2"
        using 3(3) [OF False refl open_] 3(5,6) open_ by blast+
      have "improves ((p # ps) # cs) used cur asg st ?st2"
        using here(1) improves_more [OF rest(1)] by (rule improves_trans)
      moreover have "covers ((p # ps) # cs) used cur ?st2"
        using covers_cons covers_mono [OF here(2) rest(1) open_] rest(2) by blast
      ultimately show ?thesis using False open_ by (simp add: try_plans.simps Let_def)
    qed
  qed
qed

section \<open>The greedy assignment\<close>

lemma plan_ok_iff:
  "plan_ok cs used xs \<longleftrightarrow> length xs = length cs
     \<and> (\<forall>i<length cs. \<forall>p. xs ! i = Some p \<longrightarrow> p \<in> set (cs ! i) \<and> dp_assayerId p \<notin> used)
     \<and> (\<forall>j<length cs. \<forall>i<j. \<forall>p q. xs ! i = Some p \<and> xs ! j = Some q \<longrightarrow> dp_assayerId p \<noteq> dp_assayerId q)"
proof (induction cs used xs rule: plan_ok.induct)
  case (2 c cs used xs)
  then show ?case by (auto simp: less_Suc_eq_0_disj nth_Cons split: nat.splits)
next
  case (3 c cs used p xs)
  show ?case
    unfolding plan_ok.simps 3 by (simp add: All_less_Suc2) auto
qed auto

lemma candidate_pairs_iff: "(i, p) \<in> set (candidate_pairs cs) \<longleftrightarrow> i < length cs \<and> p \<in> set (cs ! i)"
  by (force simp: candidate_pairs_def in_set_enumerate_eq image_iff)

text \<open>
  The state of the greedy loop after some pairs: the answers chosen so far stand for pairs it has seen,
  and every pair seen was chosen or lost its cluster or its assayer to one that scores at least as much.
\<close>

definition greedy_inv :: "nat \<Rightarrow> (nat \<times> DayPlanCandidate) set \<Rightarrow> DayPlanCandidate option list \<times> string set \<Rightarrow> bool" where
  "greedy_inv n seen st \<longleftrightarrow> length (fst st) = n
     \<and> snd st = {dp_assayerId p |i p. i < n \<and> fst st ! i = Some p}
     \<and> (\<forall>i<n. \<forall>p. fst st ! i = Some p \<longrightarrow> (i, p) \<in> seen)
     \<and> (\<forall>j<n. \<forall>i<j. \<forall>p q. fst st ! i = Some p \<and> fst st ! j = Some q \<longrightarrow> dp_assayerId p \<noteq> dp_assayerId q)
     \<and> (\<forall>(i, p)\<in>seen. \<exists>j<n. \<exists>q. fst st ! j = Some q \<and> overallScore p \<le> overallScore q
          \<and> (j = i \<or> dp_assayerId q = dp_assayerId p))"

lemma greedy_inv_step:
  assumes inv: "greedy_inv n seen st" and "fst x < n"
    and top: "\<forall>y\<in>seen. overallScore (snd x) \<le> overallScore (snd y)"
  shows "greedy_inv n (insert x seen) (greedy_step x st)"
proof -
  obtain out used where st: "st = (out, used)" by (cases st)
  obtain i p where x: "x = (i, p)" by (cases x)
  have len: "length out = n" and used: "used = {dp_assayerId p |i p. i < n \<and> out ! i = Some p}"
    and src: "\<forall>i<n. \<forall>p. out ! i = Some p \<longrightarrow> (i, p) \<in> seen"
    and dist: "\<forall>j<n. \<forall>i<j. \<forall>p q. out ! i = Some p \<and> out ! j = Some q \<longrightarrow> dp_assayerId p \<noteq> dp_assayerId q"
    and beaten: "\<forall>(i, p)\<in>seen. \<exists>j<n. \<exists>q. out ! j = Some q \<and> overallScore p \<le> overallScore q
          \<and> (j = i \<or> dp_assayerId q = dp_assayerId p)"
    using inv by (auto simp: greedy_inv_def st)
  have "i < n" using assms(2) x by simp
  show ?thesis
  proof (cases "out ! i \<noteq> None \<or> dp_assayerId p \<in> used")
    case True
    then obtain j q where "j < n" "out ! j = Some q" "j = i \<or> dp_assayerId q = dp_assayerId p"
      using used \<open>i < n\<close> by auto
    moreover from this have "overallScore p \<le> overallScore q"
      using src top x by fastforce
    ultimately have "\<exists>j<n. \<exists>q. out ! j = Some q \<and> overallScore p \<le> overallScore q
          \<and> (j = i \<or> dp_assayerId q = dp_assayerId p)" by blast
    moreover have "greedy_step x st = st" using True x st by (simp add: greedy_step_def)
    ultimately show ?thesis using inv unfolding greedy_inv_def st x by auto
  next
    case False
    then have free: "out ! i = None" and fresh: "\<forall>j<n. \<forall>q. out ! j = Some q \<longrightarrow> dp_assayerId q \<noteq> dp_assayerId p"
      using used by auto
    let ?out = "out[i := Some p]"
    have step: "greedy_step x st = (?out, insert (dp_assayerId p) used)"
      using False x st by (simp add: greedy_step_def)
    have at: "?out ! j = (if j = i then Some p else out ! j)" if "j < n" for j
      using that len by (simp add: nth_list_update)
    have "insert (dp_assayerId p) used = {dp_assayerId p |i p. i < n \<and> ?out ! i = Some p}"
      using used free \<open>i < n\<close> at by (auto split: if_splits) (metis option.distinct(1))+
    moreover have "\<forall>j<n. \<forall>q. ?out ! j = Some q \<longrightarrow> (j, q) \<in> insert x seen"
      using src at x by auto
    moreover have "\<forall>j<n. \<forall>i<j. \<forall>p q. ?out ! i = Some p \<and> ?out ! j = Some q \<longrightarrow> dp_assayerId p \<noteq> dp_assayerId q"
      using dist fresh at by (auto split: if_splits) (metis order.strict_trans)+
    moreover have "\<forall>(k, r)\<in>insert x seen. \<exists>j<n. \<exists>q. ?out ! j = Some q \<and> overallScore r \<le> overallScore q
          \<and> (j = k \<or> dp_assayerId q = dp_assayerId r)"
    proof (clarify)
      fix k r assume kr: "(k, r) \<in> insert x seen"
      show "\<exists>j<n. \<exists>q. ?out ! j = Some q \<and> overallScore r \<le> overallScore q \<and> (j = k \<or> dp_assayerId q = dp_assayerId r)"
      proof (cases "(k, r) = x")
        case True
        then show ?thesis using x at [OF \<open>i < n\<close>] \<open>i < n\<close> by auto
      next
        case False
        then obtain j q where "j < n" "out ! j = Some q" "overallScore r \<le> overallScore q" "j = k \<or> dp_assayerId q = dp_assayerId r"
          using kr beaten by blast
        moreover from this have "?out ! j = Some q" using at free by auto
        ultimately show ?thesis by blast
      qed
    qed
    ultimately show ?thesis using len unfolding greedy_inv_def step by simp
  qed
qed

lemma greedy_inv_fold:
  assumes "sorted_wrt (\<lambda>x y. overallScore (snd y) \<le> overallScore (snd x)) xs" and "\<forall>x\<in>set xs. fst x < n"
    and "\<forall>y\<in>seen. \<forall>x\<in>set xs. overallScore (snd x) \<le> overallScore (snd y)" and "greedy_inv n seen st"
  shows "greedy_inv n (seen \<union> set xs) (fold greedy_step xs st)"
  using assms
proof (induction xs arbitrary: seen st)
  case (Cons x xs)
  have "greedy_inv n (insert x seen) (greedy_step x st)"
    using Cons.prems by (intro greedy_inv_step) auto
  then have "greedy_inv n (insert x seen \<union> set xs) (fold greedy_step xs (greedy_step x st))"
    using Cons.prems by (intro Cons.IH) auto
  then show ?case by simp
qed simp

lemma sorted_wrt_greedy_order:
  "sorted_wrt (\<lambda>x y. overallScore (snd y) \<le> overallScore (snd x)) (sort_key greedy_order xs)"
proof -
  have "sorted (map greedy_order (sort_key greedy_order xs))" by simp
  then have "sorted_wrt (\<lambda>x y. greedy_order x \<le> greedy_order y) (sort_key greedy_order xs)"
    by (simp add: sorted_wrt_map)
  then show ?thesis
    by (rule sorted_wrt_mono_rel [rotated]) (auto simp: greedy_order_def less_eq_prod_def)
qed

lemma greedy_correct:
  fixes cs
  defines "out \<equiv> greedyAssignment cs"
  shows "plan_ok cs {} out"
    and "i < length cs \<Longrightarrow> p \<in> set (cs ! i) \<Longrightarrow>
      \<exists>j<length cs. \<exists>q. out ! j = Some q \<and> overallScore p \<le> overallScore q \<and> (j = i \<or> dp_assayerId q = dp_assayerId p)"
proof -
  let ?xs = "sort_key greedy_order (candidate_pairs cs)"
  have "greedy_inv (length cs) {} (replicate (length cs) None, {})"
    by (auto simp: greedy_inv_def)
  then have inv: "greedy_inv (length cs) (set (candidate_pairs cs)) (fold greedy_step ?xs (replicate (length cs) None, {}))"
    using greedy_inv_fold [OF sorted_wrt_greedy_order, of "candidate_pairs cs" "length cs" "{}"
        "(replicate (length cs) None, {})"]
    by (force simp: candidate_pairs_iff)
  then show "plan_ok cs {} out"
    unfolding plan_ok_iff greedy_inv_def out_def greedyAssignment_def by (simp add: candidate_pairs_iff)
  show "\<exists>j<length cs. \<exists>q. out ! j = Some q \<and> overallScore p \<le> overallScore q \<and> (j = i \<or> dp_assayerId q = dp_assayerId p)"
    if "i < length cs" "p \<in> set (cs ! i)"
  proof -
    have "(i, p) \<in> set (candidate_pairs cs)" using that by (simp add: candidate_pairs_iff)
    then show ?thesis
      using inv unfolding greedy_inv_def out_def greedyAssignment_def by fast
  qed
qed

lemma total_score_nth: "total_score xs = (\<Sum>i<length xs. plan_score (xs ! i))"
  by (simp add: total_score_def sum_list_sum_nth atLeast0LessThan)

lemma plan_scores_pos:
  assumes "\<forall>c\<in>set cs. ranked c" "plan_ok cs used xs" "i < length cs"
  shows "0 \<le> plan_score (xs ! i)"
proof (cases "xs ! i")
  case (Some p)
  then have "p \<in> set (cs ! i)" using assms(2,3) by (auto simp: plan_ok_iff)
  then show ?thesis using Some assms(1,3) by (fastforce simp: ranked_def intro: less_imp_le)
qed simp

text \<open>
  No assignment is worth more than twice the greedy one: a pair of the better assignment that the greedy
  one lacks lost its cluster or its assayer to a pair that scores at least as much.
\<close>

lemma greedy_half:
  assumes ranked: "\<forall>c\<in>set cs. ranked c" and ok: "plan_ok cs {} xs"
  shows "total_score xs \<le> 2 * total_score (greedyAssignment cs)"
proof -
  define out n where "out = greedyAssignment cs" and "n = length cs"
  have len: "length xs = n" "length out = n"
    using ok greedy_correct(1) [of cs] by (auto simp: plan_ok_iff out_def n_def)
  have pos: "0 \<le> plan_score (out ! j)" if "j < n" for j
    using plan_scores_pos [OF ranked greedy_correct(1)] that by (simp add: out_def n_def)
  define taken where "taken i j \<longleftrightarrow> j < n \<and> (\<exists>p q. xs ! i = Some p \<and> out ! j = Some q
      \<and> dp_assayerId q = dp_assayerId p \<and> overallScore p \<le> overallScore q)" for i j
  define I where "I = {i. i < n \<and> (\<exists>j. taken i j)}"
  have "\<forall>i\<in>I. \<exists>j. taken i j" by (simp add: I_def)
  then obtain g where g: "\<And>i. i \<in> I \<Longrightarrow> taken i (g i)"
    by (elim bchoice [THEN exE]) auto
  have "inj_on g I"
  proof (rule inj_onI)
    fix i k assume ik: "i \<in> I" "k \<in> I" "g i = g k"
    then obtain p q where "xs ! i = Some p" "xs ! k = Some q" "dp_assayerId p = dp_assayerId q"
      using g [of i] g [of k] unfolding taken_def by auto
    then show "i = k"
      using ok ik(1,2) unfolding plan_ok_iff I_def n_def by (metis (no_types, lifting) linorder_neqE_nat mem_Collect_eq)
  qed
  have each: "plan_score (xs ! i) \<le> plan_score (out ! i) + (if i \<in> I then plan_score (out ! g i) else 0)" if "i < n" for i
  proof (cases "xs ! i")
    case None
    then show ?thesis using pos that g [of i] by (auto simp: taken_def)
  next
    case (Some p)
    have "i < length cs" using that by (simp add: n_def)
    moreover have "p \<in> set (cs ! i)" using Some ok calculation by (auto simp: plan_ok_iff)
    ultimately obtain j q where j: "j < n" "out ! j = Some q" "overallScore p \<le> overallScore q" "j = i \<or> dp_assayerId q = dp_assayerId p"
      using greedy_correct(2) unfolding out_def n_def by blast
    show ?thesis
    proof (cases "i \<in> I")
      case True
      then show ?thesis using g [OF True] pos [OF that] Some by (auto simp: taken_def)
    next
      case False
      then have "j = i" using j Some that unfolding I_def taken_def by auto
      then show ?thesis using j Some False by simp
    qed
  qed
  have "total_score xs = (\<Sum>i<n. plan_score (xs ! i))" by (simp add: total_score_nth len)
  also have "\<dots> \<le> (\<Sum>i<n. plan_score (out ! i) + (if i \<in> I then plan_score (out ! g i) else 0))"
    using each by (intro sum_mono) auto
  also have "\<dots> = (\<Sum>i<n. plan_score (out ! i)) + (\<Sum>i\<in>I. plan_score (out ! g i))"
    by (simp add: sum.distrib sum.If_cases I_def Int_def lessThan_def)
  also have "(\<Sum>i\<in>I. plan_score (out ! g i)) = (\<Sum>j\<in>g ` I. plan_score (out ! j))"
    using \<open>inj_on g I\<close> by (simp add: sum.reindex)
  also have "\<dots> \<le> (\<Sum>j<n. plan_score (out ! j))"
    using g pos by (intro sum_mono2) (auto simp: taken_def)
  finally show ?thesis using len(2) by (simp add: total_score_nth len(1) out_def)
qed

section \<open>The budget\<close>

text \<open>The search visits at most one node more than its budget, the one that shows it ran out.\<close>

lemma search_nodes:
  "nodes st \<le> Suc budget \<Longrightarrow> (budget < nodes st \<longrightarrow> exhausted st) \<Longrightarrow>
     (let st' = dfs budget cs bounds used cur asg st in nodes st' \<le> Suc budget \<and> (budget < nodes st' \<longrightarrow> exhausted st'))"
  "nodes st \<le> Suc budget \<Longrightarrow> (budget < nodes st \<longrightarrow> exhausted st) \<Longrightarrow>
     (let st' = try_plans budget ps cs bounds used cur asg st in nodes st' \<le> Suc budget \<and> (budget < nodes st' \<longrightarrow> exhausted st'))"
proof (induction budget cs bounds used cur asg st and budget ps cs bounds used cur asg st rule: dfs_try_plans.induct)
  case (1 budget cs bounds used cur asg st)
  then show ?case by (auto simp: dfs.simps [of budget cs] Let_def not_less split: list.split)
next
  case (3 budget p ps cs bounds used cur asg st)
  then show ?case by (auto simp: try_plans.simps Let_def)
qed (simp add: try_plans.simps)

section \<open>The plan of the day\<close>

definition eligible :: "DayPlanCandidate list list \<Rightarrow> DayPlanCandidate list list" where
  "eligible dayPlans = map (filter (\<lambda>p. 0 < overallScore p)) dayPlans"

lemma eligible_ranked: "\<forall>c\<in>set (eligible (map top_plans found)). ranked c"
proof -
  have "sorted_wrt (\<lambda>p q. overallScore q \<le> overallScore p) (rank_plans ps)" for ps
  proof -
    have "sorted (map (\<lambda>p. (- overallScore p, estimatedTotalCost p)) (rank_plans ps))" by (simp add: rank_plans_def)
    then show ?thesis unfolding sorted_wrt_map
      by (rule sorted_wrt_mono_rel [rotated]) (auto simp: less_eq_prod_def)
  qed
  then show ?thesis
    by (auto simp: eligible_def ranked_def top_plans_def sorted_wrt_take intro: sorted_wrt_filter)
qed

lemma assignment_facts:
  shows "let r = globalOptimizeAssignments (map top_plans found) budget in
     plan_ok (eligible (map top_plans found)) {} (bestPlans r)
     \<and> (\<forall>other. plan_ok (eligible (map top_plans found)) {} other \<longrightarrow>
           (exact r \<longrightarrow> total_score other \<le> total_score (bestPlans r))
           \<and> total_score other \<le> 2 * total_score (bestPlans r))"
proof -
  define cs where "cs = eligible (map top_plans found)"
  define st0 where "st0 = \<lparr> nodes = 0, exhausted = False, bestScore = -1, bestAssignment = replicate (length found) None \<rparr>"
  define st where "st = dfs budget cs (maxRemaining cs) {} 0 [] st0"
  note ranked = eligible_ranked [of found, folded cs_def]
  have imp: "improves cs {} 0 [] st0 st" and cov: "covers cs {} 0 st"
    using search_correct(1) [OF _ refl ranked, of st0 "{}" 0 "[]" budget] by (simp_all add: st_def st0_def)
  have best: "plan_ok cs {} (bestAssignment st)" "bestScore st \<le> total_score (bestAssignment st)"
    using imp plan_ok_none [of cs "{}"] by (auto simp: improves_def st0_def cs_def eligible_def)
  define greedy where "greedy = greedyAssignment cs"
  have "plan_ok cs {} greedy" and half: "\<forall>other. plan_ok cs {} other \<longrightarrow> total_score other \<le> 2 * total_score greedy"
    using greedy_correct(1) greedy_half [OF ranked] by (simp_all add: greedy_def)
  moreover have "\<forall>other. plan_ok cs {} other \<longrightarrow> total_score other \<le> bestScore st" if "\<not> exhausted st"
    using cov that by (simp add: covers_def)
  moreover have "0 \<le> total_score (bestAssignment st)"
    unfolding total_score_nth using plan_scores_pos [OF ranked best(1)] best(1)
    by (auto simp: plan_ok_iff intro!: sum_nonneg)
  moreover have "globalOptimizeAssignments (map top_plans found) budget =
      \<lparr> bestPlans = (if exhausted st \<and> bestScore st < total_score greedy then greedy else bestAssignment st),
         exact = (\<not> exhausted st), visited = min (nodes st) budget \<rparr>"
    by (simp add: globalOptimizeAssignments_def Let_def st_def st0_def cs_def eligible_def greedy_def)
  ultimately show ?thesis
    using best unfolding cs_def [symmetric] Let_def by (cases "exhausted st") fastforce+
qed

text \<open>
  C25. The plan of the day, for any ranked lists of candidates and any budget of nodes: every cluster gets
  nobody or one of its candidates with a score above zero, and nobody gets two clusters. While the budget lasts no assignment has a larger sum of scores, and
  when it runs out none has more than twice the sum of the one chosen.
\<close>

theorem day_plan_near_best:
  assumes "plan_ok (eligible (map top_plans found)) {} other"
  shows "let r = globalOptimizeAssignments (map top_plans found) budget in
     plan_ok (eligible (map top_plans found)) {} (bestPlans r)
     \<and> (exact r \<longrightarrow> total_score other \<le> total_score (bestPlans r))
     \<and> total_score other \<le> 2 * total_score (bestPlans r)"
  using assignment_facts [of found budget] assms by (auto simp: Let_def)

text \<open>Two clusters want the same assayer; the better sum gives the first cluster its second choice.\<close>

definition sample_plan :: "string \<Rightarrow> rat \<Rightarrow> rat \<Rightarrow> DayPlanCandidate" where
  "sample_plan a score cost = \<lparr> dp_assayerId = a, overallScore = score, dp_totalBranches = 2, dp_totalAuditHours = 8,
     dp_totalTravelKm = 50, dp_totalTravelMinutes = 90, totalDayHours = 19 / 2, estimatedBaseFee = cost, estimatedTravelFee = 0,
     estimatedTotalCost = cost, dayStartTime = ''09:00'', dayEndTime = ''18:30'', utilizationPercent = 84, dp_totalPackets = 40,
     costPerPacket = None, idleHours = 1 / 2, stops = [], existingSameDayJobs = (0, 0), exceedsWorkingDay = False \<rparr>"

definition sample_found :: "DayPlanCandidate list list" where
  "sample_found = [[sample_plan ''B'' 85 900, sample_plan ''A'' 90 1000, sample_plan ''C'' 0 10], [sample_plan ''A'' 88 700]]"

lemma sample_optimum:
  "globalOptimizeAssignments (map top_plans sample_found) 20 =
     \<lparr> bestPlans = [Some (sample_plan ''B'' 85 900), Some (sample_plan ''A'' 88 700)], exact = True, visited = 7 \<rparr>"
  by code_simp

theorem day_plan_near_best_witness:
  "plan_ok (eligible (map top_plans sample_found)) {} [Some (sample_plan ''A'' 90 1000), None]
   \<and> total_score [Some (sample_plan ''A'' 90 1000), None]
       \<le> total_score (bestPlans (globalOptimizeAssignments (map top_plans sample_found) 20))
   \<and> total_score (bestPlans (globalOptimizeAssignments (map top_plans sample_found) 20)) = 173"
proof -
  have ok: "plan_ok (eligible (map top_plans sample_found)) {} [Some (sample_plan ''A'' 90 1000), None]"
    by code_simp
  show ?thesis
    using day_plan_near_best [OF ok, of 20] ok by (simp add: Let_def sample_optimum) (simp add: sample_plan_def)
qed

end
