(* ===== verification/Day_Plan_Candidates.thy ===== *)
theory Day_Plan_Candidates
  imports Branch_Clusters Day_Plan_Assignment
begin

text \<open>
  The plans an assayer is offered for a cluster: \<^verbatim>\<open>resolveMinDistanceKm\<close>, \<^verbatim>\<open>generateClusterDayPlans\<close> and the
  second half of \<^verbatim>\<open>generateDayPlans\<close> in \<^verbatim>\<open>day-planner.service.ts\<close>. What the recommendation engine answers
  per branch, the distances from home, the optimised route, the jobs already booked and the fee quote are
  parts of an environment.
\<close>

section \<open>The environment\<close>

record Client =
  client_id :: string
  client_minDistanceKm :: js_number
  client_maxDistanceKm :: js_number

record route_step =
  step_branchId :: string
  step_km :: rat
  step_minutes :: rat

record RouteResult =
  rt_steps :: "route_step list"
  rt_totalKm :: rat
  rt_totalMinutes :: rat

record FeeRequest =
  fq_assayerId :: string
  fq_clientId :: "string option"
  fq_distanceKm :: rat
  fq_branchCount :: nat
  fq_place :: "string option"

record Assayer =
  as_id :: string
  as_home :: "(rat \<times> rat) option"

text \<open>The answer of the engine for a branch: who is ranked with which score, and who is out for which reason.\<close>

record Recommendation =
  rec_ranked :: "(string \<times> rat) list"
  rec_excluded :: "(string \<times> string) list"

record planner_env =
  env_recommend :: "string \<Rightarrow> Recommendation option"
  env_km :: "Assayer \<Rightarrow> ClusterMember \<Rightarrow> rat"
  env_route :: "Assayer \<Rightarrow> ClusterMember list \<Rightarrow> RouteResult"
  env_existing :: "string \<Rightarrow> nat \<times> rat"
  env_quote :: "FeeRequest \<Rightarrow> rat \<times> rat"
  env_clientOf :: "string \<Rightarrow> Client option"
  env_client :: "Client option"

section \<open>Distance rules\<close>

definition positive_number :: "js_number \<Rightarrow> rat option" where
  "positive_number n = (case n of NaN \<Rightarrow> None | Num x \<Rightarrow> if 0 < x then Some x else None)"

definition stricter :: "rat option \<Rightarrow> rat option \<Rightarrow> rat option" where
  "stricter a b = (case (a, b) of (None, y) \<Rightarrow> y | (x, None) \<Rightarrow> x | (Some x, Some y) \<Rightarrow> Some (max x y))"

definition resolveMinDistanceKm :: "Client option \<Rightarrow> js_number option \<Rightarrow> rat option" where
  "resolveMinDistanceKm client manual =
     stricter (case manual of None \<Rightarrow> None | Some n \<Rightarrow> positive_number n)
       (case client of None \<Rightarrow> None | Some c \<Rightarrow> positive_number (client_minDistanceKm c))"

definition effectiveMinDistanceKm :: "Client list \<Rightarrow> js_number option \<Rightarrow> rat option" where
  "effectiveMinDistanceKm clients manual =
     fold (\<lambda>c strictest. case resolveMinDistanceKm (Some c) manual of
         None \<Rightarrow> strictest
       | Some r \<Rightarrow> (case strictest of None \<Rightarrow> Some r | Some s \<Rightarrow> Some (max s r))) clients (resolveMinDistanceKm None manual)"

definition client_of :: "planner_env \<Rightarrow> ClusterMember \<Rightarrow> Client option" where
  "client_of env b = nullish (env_clientOf env (cm_id b)) (env_client env)"

definition clusterClients :: "planner_env \<Rightarrow> ClusterMember list \<Rightarrow> Client list" where
  "clusterClients env bs = List.map_filter (client_of env) bs"

text \<open>\<^verbatim>\<open>Number(limit) || Infinity\<close>, no limit being \<open>None\<close>.\<close>

definition limit_of :: "js_number \<Rightarrow> rat option" where
  "limit_of n = (case n of NaN \<Rightarrow> None | Num x \<Rightarrow> if x = 0 then None else Some x)"

definition maxDistKm :: "planner_env \<Rightarrow> bool \<Rightarrow> ClusterMember list \<Rightarrow> rat option" where
  "maxDistKm env relaxDistance bs =
    (if relaxDistance then None
     else fold (\<lambda>c strictest. case limit_of (client_maxDistanceKm c) of
         None \<Rightarrow> strictest
       | Some r \<Rightarrow> (case strictest of None \<Rightarrow> Some r | Some s \<Rightarrow> Some (min s r))) (clusterClients env bs) None)"

section \<open>The schedule of a day\<close>

definition DAY_START_HOUR :: rat where
  "DAY_START_HOUR = 9"

definition minutesToTime :: "rat \<Rightarrow> string" where
  "minutesToTime minutes =
    (let h = \<lfloor>minutes / 60\<rfloor>; m = js_round (minutes - of_int (h * 60))
     in pad_start 2 (CHR ''0'') (nat_digits (nat h)) @ '':'' @ pad_start 2 (CHR ''0'') (nat_digits (nat m)))"

text \<open>The stops in the order of the route, and the minute at which the last one is left.\<close>

primrec build_stops :: "ClusterMember list \<Rightarrow> nat \<Rightarrow> route_step list \<Rightarrow> rat \<Rightarrow> DayPlanStop list \<times> rat" where
  "build_stops bs i [] now = ([], now)"
| "build_stops bs i (s # ss) now =
    (case List.find (\<lambda>b. cm_branchId b = step_branchId s) bs of
       None \<Rightarrow> build_stops bs (Suc i) ss now
     | Some b \<Rightarrow>
        (let arrive = now + step_minutes s; leave = arrive + cm_hours b * 60
         in case build_stops bs (Suc i) ss leave of
              (sts, done) \<Rightarrow>
                (\<lparr> ds_order = i + 1, ds_branchId = cm_branchId b, ds_auditHours = cm_hours b,
                   ds_travelKm = to_fixed 1 (step_km s), ds_travelMinutes = to_fixed 0 (step_minutes s),
                   estimatedArrival = minutesToTime arrive, estimatedDeparture = minutesToTime leave \<rparr> # sts, done)))"

section \<open>One assayer\<close>

datatype day_refusal = NotEligible string | HomeNotLocated | TooFar rat | TooClose rat | DayTooLong rat | LowUtilization rat

text \<open>The first branch whose answer does not rank the assayer; a branch without an answer is passed over.\<close>

fun not_eligible :: "planner_env \<Rightarrow> string \<Rightarrow> ClusterMember list \<Rightarrow> day_refusal option" where
  "not_eligible env a [] = None"
| "not_eligible env a (b # bs) =
    (case env_recommend env (cm_branchId b) of
       None \<Rightarrow> not_eligible env a bs
     | Some r \<Rightarrow>
        (if list_ex (\<lambda>x. fst x = a) (rec_ranked r) then not_eligible env a bs
         else Some (NotEligible (case map_of (rec_excluded r) a of None \<Rightarrow> ''Not eligible'' | Some why \<Rightarrow> why))))"

definition score_at :: "planner_env \<Rightarrow> string \<Rightarrow> ClusterMember \<Rightarrow> rat" where
  "score_at env a b =
    (case env_recommend env (cm_branchId b) of
       None \<Rightarrow> 0 | Some r \<Rightarrow> (case map_of (rec_ranked r) a of None \<Rightarrow> 0 | Some s \<Rightarrow> s))"

definition max_of :: "rat list \<Rightarrow> rat" where
  "max_of xs = fold max (tl xs) (hd xs)"

definition min_of :: "rat list \<Rightarrow> rat" where
  "min_of xs = fold min (tl xs) (hd xs)"

definition first_stop :: "ClusterMember list \<Rightarrow> RouteResult \<Rightarrow> ClusterMember" where
  "first_stop bs rt =
    (case rt_steps rt of
       [] \<Rightarrow> hd bs
     | s # _ \<Rightarrow> (case List.find (\<lambda>b. cm_branchId b = step_branchId s) bs of None \<Rightarrow> hd bs | Some b \<Rightarrow> b))"

text \<open>The base fee per branch and the travel fee of the day.\<close>

definition day_fees :: "planner_env \<Rightarrow> string \<Rightarrow> ClusterMember list \<Rightarrow> RouteResult \<Rightarrow> rat \<times> rat" where
  "day_fees env a bs rt =
    (let first = first_stop bs rt;
         ids = map (\<lambda>b. map_option client_id (client_of env b)) bs
     in if length (remdups ids) \<le> 1
        then env_quote env \<lparr> fq_assayerId = a, fq_clientId = hd ids, fq_distanceKm = rt_totalKm rt,
               fq_branchCount = length bs, fq_place = Some (cm_branchId first) \<rparr>
        else let quotes = map (\<lambda>b. env_quote env \<lparr> fq_assayerId = a, fq_clientId = map_option client_id (client_of env b),
                   fq_distanceKm = (if b = first then rt_totalKm rt else 0), fq_branchCount = 1,
                   fq_place = (if b = first then Some (cm_branchId first) else None) \<rparr>) bs
             in (of_int (js_round (sum_list (map fst quotes) / of_nat (max 1 (length quotes)))), sum_list (map snd quotes)))"

definition plan_for_assayer :: "planner_env \<Rightarrow> BranchCluster \<Rightarrow> rat option \<Rightarrow> bool \<Rightarrow> Assayer \<Rightarrow> (day_refusal, DayPlanCandidate) result" where
  "plan_for_assayer env cl floorKm relaxDistance assayer =
    (let bs = cl_branches cl; a = as_id assayer;
         kms = map (env_km env assayer) bs; ceilingKm = maxDistKm env relaxDistance bs
     in case not_eligible env a bs of
          Some why \<Rightarrow> Inl why
        | None \<Rightarrow>
          if as_home assayer = None then Inl HomeNotLocated
          else if (case ceilingKm of None \<Rightarrow> False | Some c \<Rightarrow> c < max_of kms) then Inl (TooFar (max_of kms))
          else if (case floorKm of None \<Rightarrow> False | Some f \<Rightarrow> min_of kms < f) then Inl (TooClose (min_of kms))
          else
           (let rt = env_route env assayer bs;
                (sts, leave) = build_stops bs 0 (rt_steps rt) (DAY_START_HOUR * 60);
                existing = env_existing env a;
                audit = cl_totalAuditHours cl;
                dayHours = audit + rt_totalMinutes rt / 60 + snd existing
            in if MAX_DAILY_WORK_HOURS + 2 < dayHours then Inl (DayTooLong dayHours)
               else
                (let back = rt_totalMinutes rt - sum_list (map step_minutes (rt_steps rt));
                     (base, travel) = day_fees env a bs rt;
                     cost = base * of_nat (length bs) + travel;
                     score = (if bs = [] then 0 else to_fixed 1 (sum_list (map (score_at env a) bs) / of_nat (length bs)));
                     routeHours = audit + rt_totalMinutes rt / 60;
                     used = (if 0 < routeHours then to_fixed 1 (audit / routeHours * 100) else 0)
                 in if used < 60 then Inl (LowUtilization used)
                    else Inr \<lparr> dp_assayerId = a, overallScore = score, dp_totalBranches = length bs,
                        dp_totalAuditHours = to_fixed 1 audit, dp_totalTravelKm = to_fixed 1 (rt_totalKm rt),
                        dp_totalTravelMinutes = to_fixed 0 (rt_totalMinutes rt), totalDayHours = to_fixed 1 dayHours,
                        estimatedBaseFee = base * of_nat (length bs), estimatedTravelFee = travel, estimatedTotalCost = cost,
                        dayStartTime = minutesToTime (DAY_START_HOUR * 60), dayEndTime = minutesToTime (leave + max 0 back),
                        utilizationPercent = used, dp_totalPackets = cl_totalPackets cl,
                        costPerPacket = (if 0 < cl_totalPackets cl then Some (to_fixed 2 (cost / of_int (cl_totalPackets cl))) else None),
                        idleHours = to_fixed 1 (max 0 (MAX_DAILY_WORK_HOURS - dayHours)), stops = sts,
                        existingSameDayJobs = (fst existing, to_fixed 1 (snd existing)),
                        exceedsWorkingDay = (MAX_DAILY_WORK_HOURS < dayHours) \<rparr>)))"

section \<open>One cluster and the whole day\<close>

definition generateClusterDayPlans :: "planner_env \<Rightarrow> Assayer list \<Rightarrow> BranchCluster \<Rightarrow> rat option \<Rightarrow> bool
    \<Rightarrow> DayPlanCandidate list \<times> (string \<times> day_refusal) list" where
  "generateClusterDayPlans env assayers cl floorKm relaxDistance =
    (rank_plans (List.map_filter (\<lambda>a. case plan_for_assayer env cl floorKm relaxDistance a of Inl _ \<Rightarrow> None | Inr p \<Rightarrow> Some p) assayers),
     List.map_filter (\<lambda>a. case plan_for_assayer env cl floorKm relaxDistance a of Inl w \<Rightarrow> Some (as_id a, w) | Inr _ \<Rightarrow> None) assayers)"

definition cluster_plans :: "planner_env \<Rightarrow> Assayer list \<Rightarrow> rat option \<Rightarrow> BranchCluster \<Rightarrow> DayPlanCandidate list" where
  "cluster_plans env assayers floorKm cl =
    (let plans = fst (generateClusterDayPlans env assayers cl floorKm False)
     in take 5 (if plans = [] then fst (generateClusterDayPlans env assayers cl floorKm True) else plans))"

record ProjectDayPlan =
  pl_clusters :: "(BranchCluster \<times> DayPlanCandidate list \<times> DayPlanCandidate option) list"
  pl_unclustered :: "string list"
  pl_underutilized :: "(string \<times> rat) list"
  pl_multiDay :: "(string \<times> int) list"
  sum_branchesCovered :: nat
  sum_assayersNeeded :: nat
  sum_totalCost :: rat
  sum_totalPackets :: int

definition planned_clusters :: "BranchCluster list \<Rightarrow> BranchCluster list" where
  "planned_clusters cls = filter (\<lambda>cl. cluster_fate cl = PlanTogether) cls"

definition plan_day :: "planner_env \<Rightarrow> Assayer list \<Rightarrow> rat option \<Rightarrow> BranchCluster list \<Rightarrow> nat \<Rightarrow> ProjectDayPlan" where
  "plan_day env assayers floorKm cls nodeBudget =
    (let together = planned_clusters cls;
         plans = map (cluster_plans env assayers floorKm) together;
         best = bestPlans (globalOptimizeAssignments plans nodeBudget);
         chosen = List.map_filter id best
     in \<lparr> pl_clusters = zip together (zip plans best),
          pl_unclustered = concat (map (\<lambda>cl. if cluster_fate cl = Unclustered then map cm_branchId (cl_branches cl) else []) cls),
          pl_underutilized = concat (map (\<lambda>cl. case cluster_fate cl of
              Underutilized idle \<Rightarrow> map (\<lambda>b. (cm_branchId b, idle)) (cl_branches cl) | _ \<Rightarrow> []) cls),
          pl_multiDay = concat (map (\<lambda>cl. case cluster_fate cl of
              MultiDay days \<Rightarrow> map (\<lambda>b. (cm_branchId b, days)) (cl_branches cl) | _ \<Rightarrow> []) cls),
          sum_branchesCovered = sum_list (map dp_totalBranches chosen),
          sum_assayersNeeded = length (remdups (map dp_assayerId chosen)),
          sum_totalCost = sum_list (map estimatedTotalCost chosen),
          sum_totalPackets = sum_list (map dp_totalPackets chosen) \<rparr>)"

definition generateDayPlans :: "planner_env \<Rightarrow> (ClusterMember \<Rightarrow> ClusterMember \<Rightarrow> bool) \<Rightarrow> (ProjectBranch \<Rightarrow> rat) \<Rightarrow> Client list
    \<Rightarrow> js_number option \<Rightarrow> Assayer list \<Rightarrow> ProjectBranch list \<Rightarrow> ProjectDayPlan" where
  "generateDayPlans env near minutesFor clients manual assayers unassigned =
     plan_day env assayers (effectiveMinDistanceKm clients manual) (clusterBranches near minutesFor unassigned) DAY_PLAN_SEARCH_NODE_BUDGET"

section \<open>The distance rules hold for every plan\<close>

lemma stricter_floor:
  "stricter a b = Some f \<Longrightarrow> (a = Some x \<longrightarrow> x \<le> f) \<and> (b = Some y \<longrightarrow> y \<le> f)"
  by (auto simp: stricter_def split: option.splits)

lemma stricter_None: "stricter a b = None \<longleftrightarrow> a = None \<and> b = None"
  by (auto simp: stricter_def split: option.splits)

definition floor_fold :: "js_number option \<Rightarrow> Client \<Rightarrow> rat option \<Rightarrow> rat option" where
  "floor_fold manual c strictest =
     (case resolveMinDistanceKm (Some c) manual of
        None \<Rightarrow> strictest
      | Some r \<Rightarrow> (case strictest of None \<Rightarrow> Some r | Some s \<Rightarrow> Some (max s r)))"

lemma floor_fold_above:
  "fold (floor_fold manual) cs start = result \<Longrightarrow>
     (\<forall>x. start = Some x \<longrightarrow> (\<exists>f. result = Some f \<and> x \<le> f))
     \<and> (\<forall>c\<in>set cs. \<forall>x. resolveMinDistanceKm (Some c) manual = Some x \<longrightarrow> (\<exists>f. result = Some f \<and> x \<le> f))"
proof (induction cs arbitrary: start)
  case (Cons c cs)
  have step: "\<exists>f. floor_fold manual c start = Some f \<and> x \<le> f" if "start = Some x" for x
    using that by (auto simp: floor_fold_def split: option.splits)
  have here: "\<exists>f. floor_fold manual c start = Some f \<and> x \<le> f" if "resolveMinDistanceKm (Some c) manual = Some x" for x
    using that by (auto simp: floor_fold_def split: option.splits)
  have rest: "(\<forall>x. floor_fold manual c start = Some x \<longrightarrow> (\<exists>f. result = Some f \<and> x \<le> f))
     \<and> (\<forall>c\<in>set cs. \<forall>x. resolveMinDistanceKm (Some c) manual = Some x \<longrightarrow> (\<exists>f. result = Some f \<and> x \<le> f))"
    using Cons by simp
  then show ?case using step here by (auto intro: order_trans)
qed auto

lemma effective_floor:
  assumes "c \<in> set clients" "positive_number (client_minDistanceKm c) = Some m"
  shows "\<exists>f. effectiveMinDistanceKm clients manual = Some f \<and> m \<le> f"
proof -
  obtain r where "resolveMinDistanceKm (Some c) manual = Some r" "m \<le> r"
    using assms(2) stricter_None stricter_floor unfolding resolveMinDistanceKm_def
    by (cases "stricter (case manual of None \<Rightarrow> None | Some n \<Rightarrow> positive_number n) (positive_number (client_minDistanceKm c))") auto
  moreover have "effectiveMinDistanceKm clients manual = fold (floor_fold manual) clients (resolveMinDistanceKm None manual)"
    by (simp add: effectiveMinDistanceKm_def floor_fold_def [abs_def])
  ultimately show ?thesis using floor_fold_above assms(1) by (metis order_trans)
qed

lemma fold_max_above: "(x :: rat) \<le> fold max xs x" "y \<in> set xs \<Longrightarrow> y \<le> fold max xs x"
  by (induction xs arbitrary: x) (auto intro: order_trans [OF max.cobounded2] order_trans [OF max.cobounded1] simp: max.coboundedI1)

lemma max_of_above: "y \<in> set xs \<Longrightarrow> y \<le> max_of xs"
  by (cases xs) (auto simp: max_of_def fold_max_above)

lemma fold_min_below: "fold min xs x \<le> (x :: rat)" "y \<in> set xs \<Longrightarrow> fold min xs x \<le> y"
  by (induction xs arbitrary: x) (auto intro: order_trans [OF _ min.cobounded2] order_trans [OF _ min.cobounded1])

lemma min_of_below: "y \<in> set xs \<Longrightarrow> min_of xs \<le> y"
  by (cases xs) (auto simp: min_of_def fold_min_below)

section \<open>What an offered plan promises\<close>

definition ranked_for :: "planner_env \<Rightarrow> string \<Rightarrow> ClusterMember \<Rightarrow> bool" where
  "ranked_for env a b =
    (case env_recommend env (cm_branchId b) of None \<Rightarrow> True | Some r \<Rightarrow> list_ex (\<lambda>x. fst x = a) (rec_ranked r))"

lemma not_eligible_None: "not_eligible env a bs = None \<longleftrightarrow> list_all (ranked_for env a) bs"
  by (induction bs) (auto simp: ranked_for_def split: option.splits)

definition promised :: "planner_env \<Rightarrow> BranchCluster \<Rightarrow> rat option \<Rightarrow> Assayer \<Rightarrow> DayPlanCandidate \<Rightarrow> bool" where
  "promised env cl floorKm assayer p \<longleftrightarrow>
     dp_assayerId p = as_id assayer \<and> as_home assayer \<noteq> None
     \<and> list_all (ranked_for env (as_id assayer)) (cl_branches cl)
     \<and> (\<forall>f. floorKm = Some f \<longrightarrow> list_all (\<lambda>b. f \<le> env_km env assayer b) (cl_branches cl))
     \<and> cl_totalAuditHours cl + rt_totalMinutes (env_route env assayer (cl_branches cl)) / 60
         + snd (env_existing env (as_id assayer)) \<le> MAX_DAILY_WORK_HOURS + 2
     \<and> 60 \<le> utilizationPercent p
     \<and> estimatedTotalCost p = estimatedBaseFee p + estimatedTravelFee p
     \<and> stops p = fst (build_stops (cl_branches cl) 0 (rt_steps (env_route env assayer (cl_branches cl))) 540)"

lemma offered_promised:
  assumes "plan_for_assayer env cl floorKm relaxDistance a = Inr p"
  shows "promised env cl floorKm a p"
proof -
  obtain sts leave where st: "build_stops (cl_branches cl) 0 (rt_steps (env_route env a (cl_branches cl))) (DAY_START_HOUR * 60) = (sts, leave)"
    by (cases "build_stops (cl_branches cl) 0 (rt_steps (env_route env a (cl_branches cl))) (DAY_START_HOUR * 60)")
  obtain base travel where fees: "day_fees env (as_id a) (cl_branches cl) (env_route env a (cl_branches cl)) = (base, travel)"
    by (cases "day_fees env (as_id a) (cl_branches cl) (env_route env a (cl_branches cl))")
  have eligible: "not_eligible env (as_id a) (cl_branches cl) = None"
    using assms by (auto simp: plan_for_assayer_def Let_def split: option.splits)
  have near: "\<not> (case floorKm of None \<Rightarrow> False | Some f \<Rightarrow> min_of (map (env_km env a) (cl_branches cl)) < f)"
    using assms eligible by (auto simp: plan_for_assayer_def Let_def split: if_splits)
  have "list_all (\<lambda>b. f \<le> env_km env a b) (cl_branches cl)" if "floorKm = Some f" for f
    using near that min_of_below [of _ "map (env_km env a) (cl_branches cl)"] by (fastforce simp: list_all_iff not_less)
  then show ?thesis
    using assms eligible st fees
    by (auto simp add: plan_for_assayer_def Let_def promised_def not_eligible_None DAY_START_HOUR_def split: if_splits)
qed

section \<open>The whole day\<close>

definition offers :: "planner_env \<Rightarrow> Assayer list \<Rightarrow> rat option \<Rightarrow> BranchCluster \<Rightarrow> bool \<Rightarrow> DayPlanCandidate list" where
  "offers env assayers floorKm cl relaxDistance =
     List.map_filter (\<lambda>a. case plan_for_assayer env cl floorKm relaxDistance a of Inl _ \<Rightarrow> None | Inr p \<Rightarrow> Some p) assayers"

lemma rank_plans_Nil [simp]: "rank_plans ps = [] \<longleftrightarrow> ps = []"
  by (metis length_0_conv length_sort rank_plans_def)

lemma set_rank_plans [simp]: "set (rank_plans ps) = set ps"
  by (simp add: rank_plans_def)

lemma cluster_plans_top:
  "cluster_plans env assayers floorKm cl = top_plans (if offers env assayers floorKm cl False = [] then offers env assayers floorKm cl True
      else offers env assayers floorKm cl False)"
  by (simp add: cluster_plans_def generateClusterDayPlans_def offers_def top_plans_def Let_def)

lemma offers_promised: "p \<in> set (offers env assayers floorKm cl relaxDistance) \<Longrightarrow> \<exists>a\<in>set assayers. promised env cl floorKm a p"
  by (auto simp: offers_def List.map_filter_def split: sum.splits dest!: offered_promised)

lemma cluster_plans_promised: "p \<in> set (cluster_plans env assayers floorKm cl) \<Longrightarrow> \<exists>a\<in>set assayers. promised env cl floorKm a p"
  unfolding cluster_plans_top top_plans_def
  by (auto dest!: in_set_takeD intro: offers_promised split: if_splits)

lemma best_plans_valid:
  "plan_ok (eligible (map (cluster_plans env assayers floorKm) cls)) {}
     (bestPlans (globalOptimizeAssignments (map (cluster_plans env assayers floorKm) cls) budget))"
proof -
  have "map (cluster_plans env assayers floorKm) cls = map top_plans
    (map (\<lambda>cl. if offers env assayers floorKm cl False = [] then offers env assayers floorKm cl True
      else offers env assayers floorKm cl False) cls)"
    by (simp add: cluster_plans_top [abs_def] comp_def)
  then show ?thesis using assignment_facts [of _ budget] by (metis (no_types, lifting))
qed

lemma plan_ok_distinct:
  "plan_ok cs used xs \<Longrightarrow> distinct (map dp_assayerId (List.map_filter id xs)) \<and> dp_assayerId ` set (List.map_filter id xs) \<inter> used = {}"
  by (induction cs used xs rule: plan_ok.induct) (auto simp: map_filter_simps)

lemma booked_plan:
  assumes "(cl, plans, Some p) \<in> set (pl_clusters (plan_day env assayers floorKm cls budget))"
  shows "cl \<in> set cls \<and> cluster_fate cl = PlanTogether \<and> (\<exists>a\<in>set assayers. promised env cl floorKm a p)"
proof -
  define together where "together = planned_clusters cls"
  define lists where "lists = map (cluster_plans env assayers floorKm) together"
  define best where "best = bestPlans (globalOptimizeAssignments lists budget)"
  have ok: "plan_ok (eligible lists) {} best" by (simp add: lists_def best_def best_plans_valid)
  have "pl_clusters (plan_day env assayers floorKm cls budget) = zip together (zip lists best)"
    by (simp add: plan_day_def Let_def together_def lists_def best_def)
  then obtain i where i: "i < length together" "together ! i = cl" "best ! i = Some p"
    using assms by (auto simp: in_set_zip)
  then have "p \<in> set (eligible lists ! i)"
    using ok by (auto simp: plan_ok_iff eligible_def lists_def)
  then have "p \<in> set (cluster_plans env assayers floorKm cl)" using i by (simp add: eligible_def lists_def)
  moreover have "cl \<in> set together" using i by auto
  ultimately show ?thesis
    using cluster_plans_promised by (auto simp: together_def planned_clusters_def)
qed

lemma manual_floor:
  assumes "manual = Some n" "positive_number n = Some m"
  shows "\<exists>f. effectiveMinDistanceKm clients manual = Some f \<and> m \<le> f"
proof -
  have "resolveMinDistanceKm None manual = Some m" using assms by (simp add: resolveMinDistanceKm_def stricter_def)
  moreover have "effectiveMinDistanceKm clients manual = fold (floor_fold manual) clients (resolveMinDistanceKm None manual)"
    by (simp add: effectiveMinDistanceKm_def floor_fold_def [abs_def])
  ultimately show ?thesis using floor_fold_above by metis
qed

text \<open>
  C23. Whoever the plan of a day sends to a cluster may go there, in every run: they have a home on the
  map, were ranked by the engine for every branch of the cluster that it answered for, and the day, with
  their journeys and what they already have booked, is at most twelve hours; the cluster has at least two
  branches, which fit a working day. They live at least the minimum distance of every client of the run
  that sets one from each branch, and at least the operator's own when one is set, even after the maximum
  distance was relaxed.
\<close>

theorem day_plan_respects_rules:
  assumes "(cl, plans, Some p) \<in> set (pl_clusters (generateDayPlans env near minutesFor clients manual assayers unassigned))"
  shows "\<exists>a\<in>set assayers. as_id a = dp_assayerId p \<and> as_home a \<noteq> None
     \<and> list_all (ranked_for env (as_id a)) (cl_branches cl)
     \<and> cl_totalAuditHours cl + rt_totalMinutes (env_route env a (cl_branches cl)) / 60 + snd (env_existing env (as_id a)) \<le> 12
     \<and> 2 \<le> length (cl_branches cl) \<and> load (cl_branches cl) \<le> 10
     \<and> (\<forall>c\<in>set clients. \<forall>m. positive_number (client_minDistanceKm c) = Some m
          \<longrightarrow> list_all (\<lambda>b. m \<le> env_km env a b) (cl_branches cl))
     \<and> (\<forall>n m. manual = Some n \<longrightarrow> positive_number n = Some m \<longrightarrow> list_all (\<lambda>b. m \<le> env_km env a b) (cl_branches cl))"
proof -
  have b: "cl \<in> set (clusterBranches near minutesFor unassigned)" "cluster_fate cl = PlanTogether"
    "\<exists>a\<in>set assayers. promised env cl (effectiveMinDistanceKm clients manual) a p"
    using booked_plan [OF assms(1) [unfolded generateDayPlans_def]] by auto
  then obtain a where a: "a \<in> set assayers" "promised env cl (effectiveMinDistanceKm clients manual) a p" by blast
  have floor: "list_all (\<lambda>b. m \<le> env_km env a b) (cl_branches cl)"
    if low: "\<exists>f. effectiveMinDistanceKm clients manual = Some f \<and> m \<le> f" for m
  proof -
    obtain f where "m \<le> f" "list_all (\<lambda>b. f \<le> env_km env a b) (cl_branches cl)"
      using a(2) low unfolding promised_def by blast
    then show ?thesis by (auto simp: list_all_iff intro: order_trans)
  qed
  have "feasibleForOneDay cl" "2 \<le> length (cl_branches cl)"
    using b(2) by (auto simp: cluster_fate_def Let_def split: if_splits)
  moreover have "feasibleForOneDay cl = (load (cl_branches cl) \<le> MAX_DAILY_WORK_HOURS)"
    using b(1) by (auto simp: clusterBranches_def Let_def)
  ultimately have size: "2 \<le> length (cl_branches cl)" "load (cl_branches cl) \<le> 10"
    by (simp_all add: MAX_DAILY_WORK_HOURS_def)
  show ?thesis
    using a size floor [OF effective_floor] floor [OF manual_floor]
    by (intro bexI [of _ a] conjI ballI allI impI) (simp_all add: promised_def MAX_DAILY_WORK_HOURS_def)
qed

text \<open>
  C24. A day is booked once: no assayer of the plan has two clusters, the number of assayers it needs is the
  number of clusters it covers, no branch is in two clusters, and the cost and the branches it adds up are
  those of the plans it chose.
\<close>

theorem day_plan_books_once:
  assumes "run_ok minutesFor unassigned"
  shows "let r = generateDayPlans env near minutesFor clients manual assayers unassigned;
       chosen = List.map_filter (\<lambda>(cl, plans, best). best) (pl_clusters r)
     in distinct (map dp_assayerId chosen) \<and> sum_assayersNeeded r = length chosen
        \<and> distinct (concat (map (\<lambda>(cl, plans, best). map cm_id (cl_branches cl)) (pl_clusters r)))
        \<and> sum_totalCost r = sum_list (map estimatedTotalCost chosen)
        \<and> sum_branchesCovered r = sum_list (map dp_totalBranches chosen)
        \<and> pl_unclustered r = []"
proof -
  define cls where "cls = clusterBranches near minutesFor unassigned"
  define fl where "fl = effectiveMinDistanceKm clients manual"
  define together where "together = planned_clusters cls"
  define lists where "lists = map (cluster_plans env assayers fl) together"
  define best where "best = bestPlans (globalOptimizeAssignments lists DAY_PLAN_SEARCH_NODE_BUDGET)"
  have ok: "plan_ok (eligible lists) {} best" by (simp add: lists_def best_def best_plans_valid)
  then have len: "length best = length together" by (simp add: plan_ok_iff eligible_def lists_def)
  have chosen: "List.map_filter (\<lambda>(cl, plans, best). best) (zip together (zip lists best)) = List.map_filter id best"
    using len unfolding lists_def
    by (induction together best rule: list_induct2') (simp_all add: map_filter_simps split: option.split)
  have dist: "distinct (map dp_assayerId (List.map_filter id best))" using plan_ok_distinct [OF ok] by simp
  have parts: "mset (concat (map cl_branches cls)) = mset (map (cluster_member minutesFor) (filter located unassigned))"
    unfolding cls_def using clusters_hold_branches [OF assms] by simp
  have "distinct (map cm_id (map (cluster_member minutesFor) (filter located unassigned)))"
    using assms by (simp add: run_ok_def comp_def distinct_map_filter)
  then have "distinct (map cm_id (concat (map cl_branches cls)))"
    using arg_cong [OF parts, of "image_mset cm_id"] by (metis mset_eq_imp_distinct_iff mset_map)
  then have "distinct (concat (map (map cm_id \<circ> cl_branches) cls))" by (simp add: map_concat comp_def)
  then have "distinct (concat (map (map cm_id \<circ> cl_branches) together))"
    unfolding together_def planned_clusters_def by (induction cls) auto
  moreover have "map (\<lambda>(cl, plans, best). map cm_id (cl_branches cl)) (zip together (zip lists best)) = map (map cm_id \<circ> cl_branches) together"
    using len unfolding lists_def by (induction together best rule: list_induct2') simp_all
  moreover have "cluster_fate cl \<noteq> Unclustered" if "cl \<in> set cls" for cl
    using clusters_day_sized [OF assms] that unfolding cls_def by (auto simp: cluster_fate_def Let_def)
  ultimately show ?thesis
    unfolding generateDayPlans_def plan_day_def Let_def
    by (auto simp: chosen dist distinct_remdups_id simp flip: cls_def fl_def together_def lists_def best_def)
qed

section \<open>A day with one cluster\<close>

definition planner_sample :: planner_env where
  "planner_sample = \<lparr> env_recommend = (\<lambda>b. Some \<lparr> rec_ranked = [(''A'', 82), (''B'', 64)], rec_excluded = [(''C'', ''On leave'')] \<rparr>),
     env_km = (\<lambda>a b. if as_id a = ''B'' then 3 else 40),
     env_route = (\<lambda>a bs. \<lparr> rt_steps = [\<lparr> step_branchId = ''b2'', step_km = 40, step_minutes = 50 \<rparr>,
         \<lparr> step_branchId = ''b1'', step_km = 1, step_minutes = 5 \<rparr>], rt_totalKm = 80, rt_totalMinutes = 105 \<rparr>),
     env_existing = (\<lambda>a. (0, 0)), env_quote = (\<lambda>q. (1500, 640)), env_clientOf = (\<lambda>i. None),
     env_client = Some \<lparr> client_id = ''bank'', client_minDistanceKm = Num 5, client_maxDistanceKm = Num 200 \<rparr> \<rparr>"

definition sample_client :: Client where
  "sample_client = \<lparr> client_id = ''bank'', client_minDistanceKm = Num 5, client_maxDistanceKm = Num 200 \<rparr>"

definition sample_assayers :: "Assayer list" where
  "sample_assayers = map (\<lambda>i. \<lparr> as_id = i, as_home = Some (19, 76) \<rparr>) [''A'', ''B'', ''C'']"

definition sample_cluster :: BranchCluster where
  "sample_cluster = hd (tl (clusterBranches sample_near quarter_hours sample_branches))"

lemma sample_refusals:
  "map (\<lambda>a. case plan_for_assayer planner_sample sample_cluster (Some 5) False a of Inl w \<Rightarrow> Some w | Inr p \<Rightarrow> None) sample_assayers
     = [None, Some (TooClose 3), Some (NotEligible ''On leave'')]"
  by code_simp

lemma sample_day:
  "case cluster_plans planner_sample sample_assayers (Some 5) sample_cluster of
     [p] \<Rightarrow> dp_assayerId p = ''A'' \<and> overallScore p = 82 \<and> estimatedTotalCost p = 3640
       \<and> map (\<lambda>s. (ds_branchId s, estimatedArrival s, estimatedDeparture s)) (stops p)
           = [(''b2'', ''09:50'', ''13:50''), (''b1'', ''13:55'', ''16:55'')] \<and> dayEndTime p = ''17:45''
   | _ \<Rightarrow> False"
  by code_simp

lemma single_assignment:
  assumes "0 < overallScore p"
  shows "bestPlans (globalOptimizeAssignments [[p]] DAY_PLAN_SEARCH_NODE_BUDGET) = [Some p]"
  using assms by (simp add: globalOptimizeAssignments_def DAY_PLAN_SEARCH_NODE_BUDGET_def dfs.simps try_plans.simps)

lemma sample_booked:
  "\<exists>cl plans p. (cl, plans, Some p) \<in> set (pl_clusters (generateDayPlans planner_sample sample_near quarter_hours [sample_client]
      (Some (Num 2)) sample_assayers sample_branches))"
proof -
  obtain p where p: "cluster_plans planner_sample sample_assayers (Some 5) sample_cluster = [p]" "overallScore p = 82"
    using sample_day by (auto split: list.splits)
  have "planned_clusters (clusterBranches sample_near quarter_hours sample_branches) = [sample_cluster]"
    by code_simp
  moreover have "effectiveMinDistanceKm [sample_client] (Some (Num 2)) = Some 5" by code_simp
  ultimately have "pl_clusters (generateDayPlans planner_sample sample_near quarter_hours [sample_client]
      (Some (Num 2)) sample_assayers sample_branches) = [(sample_cluster, [p], Some p)]"
    using p single_assignment [of p] by (simp add: generateDayPlans_def plan_day_def Let_def)
  then show ?thesis by auto
qed

theorem day_plan_respects_rules_witness:
  "\<exists>cl plans p a. (cl, plans, Some p) \<in> set (pl_clusters (generateDayPlans planner_sample sample_near quarter_hours [sample_client]
      (Some (Num 2)) sample_assayers sample_branches))
     \<and> a \<in> set sample_assayers \<and> as_id a = dp_assayerId p \<and> list_all (\<lambda>b. 5 \<le> env_km planner_sample a b) (cl_branches cl)"
proof -
  obtain cl plans p where b: "(cl, plans, Some p) \<in> set (pl_clusters (generateDayPlans planner_sample sample_near quarter_hours
      [sample_client] (Some (Num 2)) sample_assayers sample_branches))"
    using sample_booked by blast
  have "positive_number (client_minDistanceKm sample_client) = Some 5" by code_simp
  then show ?thesis
    using day_plan_respects_rules [OF b] b by (force simp: list_all_iff)
qed

theorem day_plan_books_once_witness:
  "run_ok quarter_hours sample_branches
   \<and> (let r = generateDayPlans planner_sample sample_near quarter_hours [sample_client] (Some (Num 2)) sample_assayers sample_branches
      in pl_unclustered r = [] \<and> sum_assayersNeeded r = length (List.map_filter (\<lambda>(cl, plans, best). best) (pl_clusters r)))"
  using sample_branches_ok
    day_plan_books_once [OF sample_branches_ok, of planner_sample sample_near "[sample_client]" "Some (Num 2)" sample_assayers]
  by (simp add: Let_def)

section \<open>The times of a day\<close>

text \<open>A minute that rounds up to sixty is printed as sixty.\<close>

lemma minutes_can_be_sixty: "minutesToTime (5997 / 10) = ''09:60''"
  by code_simp

text \<open>The last stop is left after all journeys to a stop and all audits of the route.\<close>

lemma schedule_adds_up:
  "list_all (\<lambda>s. List.find (\<lambda>b. cm_branchId b = step_branchId s) bs \<noteq> None) ss \<Longrightarrow>
     snd (build_stops bs i ss now) = now + sum_list (map step_minutes ss)
       + 60 * sum_list (map (\<lambda>s. cm_hours (the (List.find (\<lambda>b. cm_branchId b = step_branchId s) bs))) ss)
     \<and> length (fst (build_stops bs i ss now)) = length ss"
  by (induction ss arbitrary: i now) (auto simp: Let_def case_prod_beta algebra_simps)

text \<open>Everybody is answered: an assayer is among the plans of a cluster or among the refusals, with the reason.\<close>

lemma everybody_answered:
  assumes "a \<in> set assayers"
  shows "case generateClusterDayPlans env assayers cl floorKm relaxDistance of
     (plans, turned_down) \<Rightarrow> as_id a \<in> set (map dp_assayerId plans) \<or> as_id a \<in> set (map fst turned_down)"
proof (cases "plan_for_assayer env cl floorKm relaxDistance a")
  case (Inl w)
  then show ?thesis using assms by (force simp: generateClusterDayPlans_def List.map_filter_def)
next
  case (Inr p)
  moreover have "dp_assayerId p = as_id a" using offered_promised [OF Inr] by (simp add: promised_def)
  ultimately show ?thesis using assms by (force simp: generateClusterDayPlans_def List.map_filter_def)
qed

text \<open>
  With branches of several clients the base fee is a rounded average, so the cost the plan shows can be off
  the sum of the quotes by up to half a rupee a branch.
\<close>

lemma average_fee_off:
  assumes "quotes \<noteq> []"
  shows "\<bar>of_int (js_round (sum_list quotes / of_nat (length quotes))) * of_nat (length quotes) - sum_list quotes\<bar>
    \<le> of_nat (length quotes) / (2 :: rat)"
proof -
  let ?n = "of_nat (length quotes) :: rat" and ?x = "sum_list quotes / of_nat (length quotes)"
  have n: "0 < ?n" using assms by simp
  have "\<bar>of_int (js_round ?x) - ?x\<bar> \<le> 1 / 2"
    unfolding js_round_def by linarith
  then have "\<bar>of_int (js_round ?x) - ?x\<bar> * ?n \<le> 1 / 2 * ?n" using n by (intro mult_right_mono) auto
  also have "\<bar>of_int (js_round ?x) - ?x\<bar> * ?n = \<bar>(of_int (js_round ?x) - ?x) * ?n\<bar>"
    using n by (simp add: abs_mult)
  also have "(of_int (js_round ?x) - ?x) * ?n = of_int (js_round ?x) * ?n - sum_list quotes"
    using n by (simp add: left_diff_distrib)
  finally show ?thesis by simp
qed

end
