(* ===== verification/Payout_Rows.thy ===== *)
theory Payout_Rows
  imports Client_Invoices Identity_Numbers
begin

text \<open>
  What the assayer's side of the ledger is made of: payables, the bills assayers confirm, the payments
  made, the account money goes to (\<^verbatim>\<open>payout-destination.ts\<close>) and the tax withheld over a financial year
  (\<^verbatim>\<open>billing-engine.service.ts\<close>). Rows are never deleted or made inactive by the code, so the column
  \<^verbatim>\<open>is_active\<close> is left out, as are moments that only label a screen and sentences the code composes.
\<close>

section \<open>Where money goes\<close>

record PayoutAssayer =
  pa_id :: string
  pa_accountNumber :: "string option"
  pa_fingerprint :: "string option"
  pa_ifsc :: "string option"
  pa_bankName :: "string option"
  pa_legalName :: "string option"
  pa_displayName :: "string option"
  pa_pan :: "string option"
  pa_identityVerifiedAt :: "nat option"
  pa_isActive :: bool

record PayoutDestinationBankDocument =
  bd_verified :: bool
  bd_verifiedAt :: "nat option"
  bd_currentVersionId :: "string option"

datatype PayoutDestinationEvidence = BANK_PASSBOOK | IDENTITY_DOCUMENT

record PayoutDestinationSnapshot =
  destinationBankAccountNumber :: string
  destinationIfsc :: string
  destinationBankName :: "string option"
  destinationAccountHolderName :: "string option"
  payoutEvidenceVersionId :: "string option"
  destinationVerifiedAt :: "nat option"
  destinationVerifiedSource :: "PayoutDestinationEvidence option"

text \<open>\<^verbatim>\<open>v?.trim() || null\<close>.\<close>

definition trimmed :: "string option \<Rightarrow> string option" where
  "trimmed v = (let t = js_trim (nullish_value v []) in if t = [] then None else Some t)"

definition resolvePayoutDestination :: "PayoutAssayer \<Rightarrow> PayoutDestinationBankDocument option \<Rightarrow> PayoutDestinationSnapshot" where
  "resolvePayoutDestination assayer bankDoc =
    (let base = \<lparr> destinationBankAccountNumber = js_trim (nullish_value (pa_accountNumber assayer) []),
           destinationIfsc = js_upper (js_trim (nullish_value (pa_ifsc assayer) [])),
           destinationBankName = trimmed (pa_bankName assayer),
           destinationAccountHolderName = nullish (trimmed (pa_legalName assayer)) (trimmed (pa_displayName assayer)),
           payoutEvidenceVersionId = None, destinationVerifiedAt = None, destinationVerifiedSource = None \<rparr>
     in case bankDoc of
          Some d \<Rightarrow>
            if bd_verified d \<and> bd_verifiedAt d \<noteq> None
            then base\<lparr> payoutEvidenceVersionId := bd_currentVersionId d, destinationVerifiedAt := bd_verifiedAt d,
                   destinationVerifiedSource := Some BANK_PASSBOOK \<rparr>
            else if pa_identityVerifiedAt assayer \<noteq> None
            then base\<lparr> destinationVerifiedAt := pa_identityVerifiedAt assayer,
                   destinationVerifiedSource := Some IDENTITY_DOCUMENT \<rparr>
            else base
        | None \<Rightarrow>
            if pa_identityVerifiedAt assayer \<noteq> None
            then base\<lparr> destinationVerifiedAt := pa_identityVerifiedAt assayer,
                   destinationVerifiedSource := Some IDENTITY_DOCUMENT \<rparr>
            else base)"

text \<open>
  Whether another active assayer has the same account: by the keyed fingerprint of the number when the
  deployment has a key, by the number itself otherwise. SQL strips and trims by its own classes.
\<close>

definition sql_space :: "char \<Rightarrow> bool" where
  "sql_space c \<longleftrightarrow> code c = 32 \<or> 9 \<le> code c \<and> code c \<le> 13"

definition sql_trim :: "string \<Rightarrow> string" where
  "sql_trim s = rev (dropWhile (\<lambda>c. c = CHR '' '') (rev (dropWhile (\<lambda>c. c = CHR '' '') s)))"

definition sql_account :: "string option \<Rightarrow> string" where
  "sql_account v = filter (\<lambda>c. \<not> (sql_space c \<or> c \<in> {CHR ''.'', CHR ''-''})) (nullish_value v [])"

definition destinationSharedWithAnother :: "(string \<Rightarrow> string option) \<Rightarrow> PayoutAssayer list \<Rightarrow> string
    \<Rightarrow> string option \<Rightarrow> string option \<Rightarrow> bool" where
  "destinationSharedWithAnother fingerprint roster assayerId accountNumber ifsc =
    (let account = normaliseBankAccountNumber accountNumber;
         ifscCode = js_upper (js_trim (nullish_value ifsc []))
     in account \<noteq> [] \<and> ifscCode \<noteq> [] \<and>
        list_ex (\<lambda>r. (case fingerprint account of
                        Some f \<Rightarrow> pa_fingerprint r = Some f
                      | None \<Rightarrow> sql_account (pa_accountNumber r) = account)
            \<and> (case pa_ifsc r of None \<Rightarrow> False | Some i \<Rightarrow> js_upper (sql_trim i) = ifscCode)
            \<and> pa_id r \<noteq> assayerId \<and> pa_isActive r) roster)"

section \<open>Tables\<close>

record AssayerPayableEntity =
  py_id :: string
  py_assayerId :: string
  py_clientId :: "string option"
  py_assignmentId :: string
  py_expenseId :: "string option"
  py_status :: AssayerPayableStatus
  py_onHold :: bool
  py_holdReason :: "string option"
  py_base :: rat
  py_travel :: rat
  py_tds :: rat
  py_total :: rat
  py_paid :: rat
  py_tdsRate :: "js_number option"
  py_tdsPanBasis :: "string option"
  py_billId :: "string option"
  py_preInvoicingEra :: bool
  py_bookedOn :: string
  py_approvedBy :: "string option"
  py_hodApprovedAt :: "nat option"
  py_hodApprovedBy :: "string option"
  py_hodRejectedBy :: "string option"
  py_hodRejectReason :: "string option"
  py_paidBy :: "string option"
  py_destination :: "PayoutDestinationSnapshot option"

record AssayerInvoiceEntity =
  bl_id :: string
  bl_number :: string
  bl_assayerId :: string
  bl_status :: AssayerInvoiceStatus
  bl_invitedBy :: string
  bl_submittedRequestId :: "string option"
  bl_approvedBy :: "string option"
  bl_hodApprovedAt :: "nat option"
  bl_hodApprovedBy :: "string option"
  bl_hodRejectedBy :: "string option"
  bl_hodRejectReason :: "string option"
  bl_cancelReason :: "string option"
  bl_lineCount :: nat
  bl_base :: rat
  bl_travel :: rat
  bl_tds :: rat
  bl_total :: rat
  bl_paidBy :: "string option"
  bl_revision :: nat
  bl_supersedes :: "string option"
  bl_supersededBy :: "string option"
  bl_confirmedVersion :: "nat option"

record outbound_payment =
  op_id :: string
  op_payableId :: string
  op_reference :: string
  op_amount :: rat
  op_isActive :: bool
  op_destination :: "PayoutDestinationSnapshot option"
  op_paidBy :: string

record payout_db =
  po_books :: billing_db
  po_payables :: "AssayerPayableEntity list"
  po_bills :: "AssayerInvoiceEntity list"
  po_payments :: "outbound_payment list"

text \<open>
  What a call reads from outside: the environment of the client's ledger (fresh identifier, today, mode of
  the segregation of duties, failing writes), a fresh bill number, the clock, the assayers on record with
  their passbook documents, the key of the account fingerprint, the assignments, and the settings of the
  withholding with the terms of a client.
\<close>

record billed_job =
  jb_status :: AssignmentStatus
  jb_assayerId :: "string option"
  jb_clientId :: "string option"
  jb_createdBy :: "string option"
  jb_fee :: AssignmentFeeInput

record payout_env =
  pe_billing :: billing_env
  pe_number :: string
  pe_entryId :: string
  pe_now :: nat
  pe_roster :: "PayoutAssayer list"
  pe_passbook :: "string \<Rightarrow> PayoutDestinationBankDocument option"
  pe_fingerprint :: "string \<Rightarrow> string option"
  pe_job :: "string \<Rightarrow> billed_job option"
  pe_normalTdsRate :: rat
  pe_noPanTdsRate :: rat
  pe_tdsThreshold :: rat
  pe_terms :: "string \<Rightarrow> string \<Rightarrow> MoneyContext"

datatype payout_refusal =
    PayableNotFound string
  | BillNotFound string
  | WrongPayableStatus AssayerPayableStatus
  | WrongBillStatus AssayerInvoiceStatus
  | PayoutOnHold string
  | AwaitingBill string
  | OnBill string
  | SayWhyDirect
  | SayWhyHeld
  | SayWhyVoided
  | SayWhyReversedPayout
  | SayWhyBillCancelled
  | SayWhyRevised
  | SayWhyOnBehalf
  | RejectReason reject_reason_problem
  | SameAccountOnBothSides
  | BankDetailsMissing
  | PanMissing
  | DestinationShared
  | AwaitingFinalApproval
  | HasFinalApproval
  | PartPaid rat
  | FullyPaid
  | PayoutAmountNotPositive
  | ExceedsOwed rat rat
  | OutboundPaymentNotFound string
  | PayoutAlreadyReversed
  | BillStands string
  | NothingEligible
  | NoInvitation
  | SubmittedElsewhere
  | NotConfirmed nat "nat option"
  | LinesHeld "string list"
  | BillDrifted rat rat
  | TaxMoved rat rat
  | MoneyMoved "string list"
  | NoLine
  | LineNotOpen BillingState
  | NotANumber
  | SayWhyAdjusted
  | CreditExceedsLine rat
  | SayWhyLineHeld
  | DuplicatePayable
  | PayoutThrown string

section \<open>The transaction\<close>

text \<open>
  A transaction answers the notes on self-approval, which are written on a connection of their own and
  stay whatever happens, and either a refusal or the tables as they would be committed.
\<close>

type_synonym 'a payout_work = "billing_audit list \<times> (payout_refusal, payout_db \<times> 'a) result"

definition on_books :: "(billing_db \<Rightarrow> billing_db) \<Rightarrow> payout_db \<Rightarrow> payout_db" where
  "on_books f db = db\<lparr> po_books := f (po_books db) \<rparr>"

definition keep_notes :: "billing_audit list \<Rightarrow> payout_db \<Rightarrow> payout_db" where
  "keep_notes ns db = on_books (\<lambda>b. b\<lparr> db_audit := db_audit b @ ns \<rparr>) db"

definition payout_tx :: "payout_env \<Rightarrow> payout_db \<Rightarrow> 'a payout_work \<Rightarrow> payout_db \<times> (payout_refusal, 'a) result" where
  "payout_tx env db work =
    (case work of
       (ns, Inl err) \<Rightarrow> (keep_notes ns db, Inl err)
     | (ns, Inr (db', v)) \<Rightarrow>
        (case be_writeFault (pe_billing env) of
           Some err \<Rightarrow> (keep_notes ns db, Inl (PayoutThrown err))
         | None \<Rightarrow> (keep_notes ns db', Inr v)))"

definition no_books :: billing_db where
  "no_books = \<lparr> db_entries = [], db_invoices = [], db_payments = [], number_series = Map.empty, db_history = [], db_audit = [] \<rparr>"

definition two_hands :: "payout_env \<Rightarrow> string \<Rightarrow> string option \<Rightarrow> string \<Rightarrow> billing_audit list \<times> bool" where
  "two_hands env actorId otherPartyId subject =
    (case assertSegregationOfDuties (pe_billing env) actorId otherPartyId subject no_books of (b, ok) \<Rightarrow> (db_audit b, ok))"

definition lockPayable :: "payout_db \<Rightarrow> string \<Rightarrow> AssayerPayableEntity option" where
  "lockPayable db i = List.find (\<lambda>p. py_id p = i) (po_payables db)"

definition find_bill :: "payout_db \<Rightarrow> string \<Rightarrow> AssayerInvoiceEntity option" where
  "find_bill db i = List.find (\<lambda>b. bl_id b = i) (po_bills db)"

definition save_payable :: "AssayerPayableEntity \<Rightarrow> payout_db \<Rightarrow> payout_db" where
  "save_payable p db = db\<lparr> po_payables := map (\<lambda>q. if py_id q = py_id p then p else q) (po_payables db) \<rparr>"

definition save_bill :: "AssayerInvoiceEntity \<Rightarrow> payout_db \<Rightarrow> payout_db" where
  "save_bill b db = db\<lparr> po_bills := map (\<lambda>c. if bl_id c = bl_id b then b else c) (po_bills db) \<rparr>"

definition isApprovedBill :: "AssayerInvoiceStatus \<Rightarrow> bool" where
  "isApprovedBill s \<longleftrightarrow> s = AI_APPROVED \<or> s = AI_HOD_APPROVED"

definition live_payable :: "AssayerPayableEntity \<Rightarrow> bool" where
  "live_payable p \<longleftrightarrow> isLivePayable (Some (py_status p))"

text \<open>Rows of the history and of the audit trail.\<close>

definition payable_log :: "string \<Rightarrow> AssayerPayableEntity \<Rightarrow> string \<Rightarrow> AssayerPayableStatus option \<Rightarrow> AssayerPayableStatus option
    \<Rightarrow> string option \<Rightarrow> string \<Rightarrow> payout_db \<Rightarrow> payout_db" where
  "payable_log kind p action prev next why userId =
    on_books (add_history [\<lparr> bh_entityType = kind, bh_entityId = py_id p, bh_action = action,
      bh_fromState = map_option assayerPayableStatusValue prev, bh_toState = map_option assayerPayableStatusValue next,
      bh_reason = why, bh_userId = userId \<rparr>])"

definition bill_log :: "AssayerInvoiceEntity \<Rightarrow> string \<Rightarrow> AssayerInvoiceStatus option \<Rightarrow> AssayerInvoiceStatus option
    \<Rightarrow> string option \<Rightarrow> string \<Rightarrow> payout_db \<Rightarrow> payout_db" where
  "bill_log b action prev next why userId =
    on_books (add_history [\<lparr> bh_entityType = ''ASSAYER_INVOICE'', bh_entityId = bl_id b, bh_action = action,
      bh_fromState = map_option assayerInvoiceStatusValue prev, bh_toState = map_option assayerInvoiceStatusValue next,
      bh_reason = why, bh_userId = userId \<rparr>])"

definition payout_audit :: "string \<Rightarrow> string \<Rightarrow> string option \<Rightarrow> string option \<Rightarrow> string \<Rightarrow> payout_db \<Rightarrow> payout_db" where
  "payout_audit kind i prev next userId =
    on_books (add_audit \<lparr> ba_eventType = kind, ba_entityId = i, ba_previousState = prev, ba_newState = next, ba_userId = userId \<rparr>)"

abbreviation payable_state :: "AssayerPayableStatus \<Rightarrow> string option" where
  "payable_state s \<equiv> Some (assayerPayableStatusValue s)"

abbreviation bill_state :: "AssayerInvoiceStatus \<Rightarrow> string option" where
  "bill_state s \<equiv> Some (assayerInvoiceStatusValue s)"

section \<open>Tax withheld over a financial year\<close>

text \<open>
  The other live fee payables of the assayer booked in the financial year. A day is compared as its key,
  which sorts as the day does.
\<close>

definition fees_of_year :: "payout_db \<Rightarrow> string \<Rightarrow> IndianFinancialYear \<Rightarrow> string option \<Rightarrow> AssayerPayableEntity list" where
  "fees_of_year db assayerId fy excluded =
    filter (\<lambda>p. py_assayerId p = assayerId \<and> py_expenseId p = None \<and> live_payable p
        \<and> fy_from fy \<le> py_bookedOn p \<and> py_bookedOn p \<le> fy_to fy \<and> Some (py_id p) \<noteq> excluded) (po_payables db)"

definition assayerFeeTds :: "payout_env \<Rightarrow> payout_db \<Rightarrow> string \<Rightarrow> rat \<Rightarrow> rat \<Rightarrow> string \<Rightarrow> string option
    \<Rightarrow> (payout_refusal, Tds194jOutcome) result" where
  "assayerFeeTds env db assayerId gross rate bookedOn excluded =
    (case indianFinancialYear (be_indianDay (pe_billing env)) bookedOn of
       Inl err \<Rightarrow> Inl (PayoutThrown err)
     | Inr fy \<Rightarrow>
        if \<not> 0 < pe_tdsThreshold env
        then Inr (tds194jDeduction \<lparr> tds_gross = Num gross, ratePct = Num rate, thresholdRupees = Num 0,
                    fyGrossBefore = Num 0, fyTdsBefore = Num 0 \<rparr>)
        else let rows = fees_of_year db assayerId fy excluded
             in Inr (tds194jDeduction \<lparr> tds_gross = Num gross, ratePct = Num rate, thresholdRupees = Num (pe_tdsThreshold env),
                    fyGrossBefore = Num (roundMoney (sum_list (map (\<lambda>p. py_base p + py_travel p) rows))),
                    fyTdsBefore = Num (roundMoney (sum_list (map py_tds rows))) \<rparr>))"

definition retaxed :: "rat \<Rightarrow> rat \<Rightarrow> string \<Rightarrow> AssayerPayableEntity \<Rightarrow> AssayerPayableEntity" where
  "retaxed withheld rate panBasis p = p\<lparr> py_tds := withheld,
     py_total := roundMoney (roundMoney (py_base p + py_travel p) - withheld),
     py_tdsRate := Some (Num rate), py_tdsPanBasis := Some panBasis \<rparr>"

text \<open>A figure the column cannot hold makes the write that follows throw.\<close>

definition recomputeTdsAtApproval :: "payout_env \<Rightarrow> payout_db \<Rightarrow> AssayerPayableEntity
    \<Rightarrow> (payout_refusal, AssayerPayableEntity) result" where
  "recomputeTdsAtApproval env db p =
    (if py_expenseId p \<noteq> None \<or> py_assayerId p = [] then Inr p
     else case py_tdsRate p of
       None \<Rightarrow> Inr p
     | Some NaN \<Rightarrow> Inr p
     | Some (Num bookedRate) \<Rightarrow>
        (let bookedWithoutPan = (py_tdsPanBasis p = Some ''NO_PAN''
               \<or> py_tdsPanBasis p = None \<and> pe_normalTdsRate env < pe_noPanTdsRate env \<and> bookedRate = pe_noPanTdsRate env);
             rate = (if bookedWithoutPan then pe_normalTdsRate env else bookedRate);
             gross = roundMoney (py_base p + py_travel p)
         in case assayerFeeTds env db (py_assayerId p) gross rate (py_bookedOn p) (Some (py_id p)) of
              Inl err \<Rightarrow> Inl err
            | Inr d \<Rightarrow>
               if \<bar>roundMoney (py_tds p) - tds d\<bar> \<le> MONEY_EPSILON / 2 \<and> bookedRate = rate then Inr p
               else if \<not> fits_decimal (tds d) \<or> \<not> fits_decimal (roundMoney (gross - tds d)) then Inl (PayoutThrown ''update failed'')
               else Inr (retaxed (tds d) rate (if bookedWithoutPan then ''PAN'' else nullish_value (py_tdsPanBasis p) ''PAN'') p)))"

text \<open>The rate of a new booking: the higher one while the assayer has no PAN on record.\<close>

definition assayer_tds_rate :: "payout_env \<Rightarrow> string \<Rightarrow> rat \<times> bool" where
  "assayer_tds_rate env assayerId =
    (let hasPan = (case List.find (\<lambda>r. pa_id r = assayerId) (pe_roster env) of
                     None \<Rightarrow> True | Some r \<Rightarrow> nullish_value (pa_pan r) [] \<noteq> [])
     in (if hasPan then pe_normalTdsRate env
         else max (pe_normalTdsRate env) (if pe_noPanTdsRate env = 0 then 20 else pe_noPanTdsRate env), hasPan))"

end
