(* ===== verification/Payout_Operations.thy ===== *)
theory Payout_Operations
  imports Payout_Rows
begin

text \<open>
  The life of a payable in \<^verbatim>\<open>billing-engine.service.ts\<close>: the office's approval, the final approval of the
  head of department, sending a payout back, holding, voiding, paying and reversing a payment, with what
  each does to the bill the payable rides on. Each is the body of one transaction.
\<close>

section \<open>A bill follows its lines\<close>

definition bill_lines :: "payout_db \<Rightarrow> string \<Rightarrow> AssayerPayableEntity list" where
  "bill_lines db i = filter (\<lambda>p. py_billId p = Some i) (po_payables db)"

definition bill_figures :: "AssayerPayableEntity list \<Rightarrow> AssayerInvoiceEntity \<Rightarrow> AssayerInvoiceEntity" where
  "bill_figures ls b = b\<lparr> bl_lineCount := length ls,
     bl_base := roundMoney (sum_list (map py_base ls)), bl_travel := roundMoney (sum_list (map py_travel ls)),
     bl_tds := roundMoney (sum_list (map py_tds ls)), bl_total := roundMoney (sum_list (map py_total ls)) \<rparr>"

definition recomputeAssayerInvoice :: "string \<Rightarrow> string \<Rightarrow> AssayerInvoiceEntity \<Rightarrow> payout_db \<Rightarrow> payout_db" where
  "recomputeAssayerInvoice userId why b db =
    (let ls = filter live_payable (bill_lines db (bl_id b));
         b1 = bill_figures ls b
     in if ls = []
        then let b2 = b1\<lparr> bl_status := AI_CANCELLED, bl_cancelReason := Some ''all lines removed'' \<rparr>
             in payout_audit ''ASSAYER_INVOICE_CANCELLED'' (bl_id b) (bill_state (bl_status b)) (bill_state AI_CANCELLED) userId
                 (bill_log b ''ASSAYER_INVOICE_CANCELLED'' (Some (bl_status b)) (Some AI_CANCELLED) (Some ''all lines removed'') userId
                   (save_bill b2 db))
        else bill_log b ''ASSAYER_INVOICE_RECOMPUTED'' None None (Some why) userId (save_bill b1 db))"

definition settleAssayerInvoiceIfPaid :: "string \<Rightarrow> string \<Rightarrow> payout_db \<Rightarrow> payout_db" where
  "settleAssayerInvoiceIfPaid userId i db =
    (if list_ex (\<lambda>p. py_status p \<noteq> AP_PAID \<and> live_payable p) (bill_lines db i) then db
     else if \<not> list_ex (\<lambda>p. py_status p = AP_PAID) (bill_lines db i) then db
     else case find_bill db i of
       None \<Rightarrow> db
     | Some b \<Rightarrow>
        if \<not> isApprovedBill (bl_status b) then db
        else payout_audit ''ASSAYER_INVOICE_PAID'' i (bill_state (bl_status b)) (bill_state AI_PAID) userId
              (bill_log b ''ASSAYER_INVOICE_PAID'' (Some (bl_status b)) (Some AI_PAID) None userId
                (save_bill (b\<lparr> bl_status := AI_PAID, bl_paidBy := Some userId \<rparr>) db)))"

definition unsettleAssayerInvoice :: "string \<Rightarrow> string \<Rightarrow> string \<Rightarrow> payout_db \<Rightarrow> payout_db" where
  "unsettleAssayerInvoice userId why i db =
    (case find_bill db i of
       None \<Rightarrow> db
     | Some b \<Rightarrow>
        if bl_status b \<noteq> AI_PAID then db
        else let back = (if bl_hodApprovedAt b \<noteq> None then AI_HOD_APPROVED else AI_APPROVED)
             in payout_audit ''ASSAYER_INVOICE_UNSETTLED'' i (bill_state AI_PAID) (bill_state back) userId
                 (bill_log b ''ASSAYER_INVOICE_UNSETTLED'' (Some AI_PAID) (Some back) (Some why) userId
                   (save_bill (b\<lparr> bl_status := back, bl_paidBy := None \<rparr>) db)))"

text \<open>Taking a line off its bill, or refusing; \<^verbatim>\<open>verb\<close> only words the reason.\<close>

definition releaseFromAssayerInvoice :: "string \<Rightarrow> string \<Rightarrow> AssayerPayableEntity \<Rightarrow> payout_db
    \<Rightarrow> (payout_refusal, AssayerPayableEntity \<times> payout_db) result" where
  "releaseFromAssayerInvoice userId verb p db =
    (case py_billId p of
       None \<Rightarrow> Inr (p, db)
     | Some i \<Rightarrow>
        (let p' = p\<lparr> py_billId := None \<rparr> in
         case find_bill db i of
           None \<Rightarrow> Inr (p', save_payable p' db)
         | Some b \<Rightarrow>
            if bl_status b = AI_SUBMITTED then Inl (OnBill i)
            else if bl_status b \<noteq> AI_INVITED then Inr (p, db)
            else Inr (p', recomputeAssayerInvoice userId verb b (save_payable p' db))))"

definition reconcileApprovedInvoiceAfterVoid :: "string \<Rightarrow> string \<Rightarrow> payout_db \<Rightarrow> payout_db" where
  "reconcileApprovedInvoiceAfterVoid userId i db =
    (case find_bill db i of
       None \<Rightarrow> db
     | Some b \<Rightarrow>
        if \<not> isApprovedBill (bl_status b) then db
        else settleAssayerInvoiceIfPaid userId i (recomputeAssayerInvoice userId ''voided on the approved invoice'' b db))"

section \<open>The office's approval\<close>

definition DIRECT_APPROVAL_REASON_MIN :: nat where
  "DIRECT_APPROVAL_REASON_MIN = 10"

definition find_assayer :: "payout_env \<Rightarrow> string \<Rightarrow> PayoutAssayer option" where
  "find_assayer env i = List.find (\<lambda>r. pa_id r = i) (pe_roster env)"

definition shared_destination :: "payout_env \<Rightarrow> string \<Rightarrow> PayoutDestinationSnapshot \<Rightarrow> bool" where
  "shared_destination env assayerId d = destinationSharedWithAnother (pe_fingerprint env) (pe_roster env) assayerId
     (Some (destinationBankAccountNumber d)) (Some (destinationIfsc d))"

text \<open>Freezing the account an approved payout goes to.\<close>

definition freeze_destination :: "payout_env \<Rightarrow> AssayerPayableEntity \<Rightarrow> (payout_refusal, AssayerPayableEntity) result" where
  "freeze_destination env p =
    (if py_assayerId p = [] then Inr p
     else case find_assayer env (py_assayerId p) of
       None \<Rightarrow> Inl BankDetailsMissing
     | Some a \<Rightarrow>
        if trimmed (pa_accountNumber a) = None \<or> trimmed (pa_ifsc a) = None then Inl BankDetailsMissing
        else if trimmed (pa_pan a) = None then Inl PanMissing
        else let d = resolvePayoutDestination a (pe_passbook env (py_assayerId p))
             in if shared_destination env (py_assayerId p) d then Inl DestinationShared
                else Inr (p\<lparr> py_destination := Some d \<rparr>))"

definition office_approval :: "payout_env \<Rightarrow> string \<Rightarrow> string option \<Rightarrow> AssayerPayableEntity \<Rightarrow> payout_db
    \<Rightarrow> (payout_refusal, payout_db \<times> AssayerPayableEntity option \<times> rat) result" where
  "office_approval env userId reason p db =
    (case freeze_destination env p of
       Inl err \<Rightarrow> Inl err
     | Inr p1 \<Rightarrow>
        (case recomputeTdsAtApproval env db p1 of
           Inl err \<Rightarrow> Inl err
         | Inr p2 \<Rightarrow>
            (let p3 = p2\<lparr> py_status := AP_APPROVED, py_approvedBy := Some userId, py_hodApprovedAt := None,
                       py_hodApprovedBy := None \<rparr>;
                 db1 = (if p2 = p1 then db
                        else payable_log ''PAYABLE'' p ''PAYABLE_TDS_RECOMPUTED'' (Some AP_PENDING) (Some AP_PENDING)
                               (Some ''TDS re-decided at approval'') userId db);
                 db2 = payout_audit ''PAYABLE_APPROVED'' (py_id p) (payable_state AP_PENDING) (payable_state AP_APPROVED) userId
                        (payable_log ''PAYABLE'' p ''PAYABLE_STATUS_CHANGED'' (Some AP_PENDING) (Some AP_APPROVED) reason userId
                          (save_payable p3 db1))
             in Inr (db2, Some p3, roundMoney (py_total p3 - roundMoney (py_total p))))))"

definition approvePayableInTx :: "payout_env \<Rightarrow> string \<Rightarrow> bool \<Rightarrow> string option \<Rightarrow> string \<Rightarrow> payout_db
    \<Rightarrow> (AssayerPayableEntity option \<times> rat) payout_work" where
  "approvePayableInTx env userId bypassInvoiceGuard reason payableId db =
    (case lockPayable db payableId of
       None \<Rightarrow> ([], Inl (PayableNotFound payableId))
     | Some p \<Rightarrow>
        if py_status p = AP_APPROVED then ([], Inr (db, None, 0))
        else if py_status p \<noteq> AP_PENDING then ([], Inl (WrongPayableStatus (py_status p)))
        else if py_onHold p then ([], Inl (PayoutOnHold payableId))
        else if \<not> bypassInvoiceGuard \<and> (case py_billId p of None \<Rightarrow> False | Some i \<Rightarrow>
               (case find_bill db i of None \<Rightarrow> False | Some b \<Rightarrow> bl_status b \<in> {AI_INVITED, AI_SUBMITTED}))
        then ([], Inl (AwaitingBill (the (py_billId p))))
        else if \<not> bypassInvoiceGuard \<and> length (js_trim (nullish_value reason [])) < DIRECT_APPROVAL_REASON_MIN
        then ([], Inl SayWhyDirect)
        else case (if py_assignmentId p \<noteq> [] \<and> py_expenseId p = None \<and> be_sodMode (pe_billing env) \<noteq> SOD_off
                   then two_hands env userId (case pe_job env (py_assignmentId p) of None \<Rightarrow> None | Some j \<Rightarrow> jb_createdBy j) (py_id p)
                   else ([], True)) of
               (ns, ok) \<Rightarrow> (ns, if ok then office_approval env userId reason p db else Inl SameAccountOnBothSides))"

definition approvePayout :: "payout_env \<Rightarrow> string \<Rightarrow> string option \<Rightarrow> string \<Rightarrow> payout_db
    \<Rightarrow> payout_db \<times> (payout_refusal, AssayerPayableEntity option \<times> rat) result" where
  "approvePayout env payableId reason userId db = payout_tx env db (approvePayableInTx env userId False reason payableId db)"

section \<open>The final approval of a payout\<close>

definition activeBillFor :: "payout_db \<Rightarrow> AssayerPayableEntity \<Rightarrow> AssayerInvoiceEntity option" where
  "activeBillFor db p =
    (case py_billId p of
       None \<Rightarrow> None
     | Some i \<Rightarrow>
        (case find_bill db i of
           None \<Rightarrow> None
         | Some b \<Rightarrow> if bl_status b \<in> {AI_INVITED, AI_SUBMITTED, AI_APPROVED} then Some b else None))"

definition hodApprovePayableInTx :: "payout_env \<Rightarrow> string \<Rightarrow> bool \<Rightarrow> string \<Rightarrow> payout_db
    \<Rightarrow> (AssayerPayableEntity option) payout_work" where
  "hodApprovePayableInTx env userId viaBill payableId db =
    (case lockPayable db payableId of
       None \<Rightarrow> ([], Inl (PayableNotFound payableId))
     | Some p \<Rightarrow>
        if py_status p \<noteq> AP_APPROVED then ([], Inl (WrongPayableStatus (py_status p)))
        else if py_hodApprovedAt p \<noteq> None then ([], Inr (db, None))
        else if py_onHold p then ([], Inl (PayoutOnHold payableId))
        else if \<not> viaBill \<and> activeBillFor db p \<noteq> None then ([], Inl (OnBill (the (py_billId p))))
        else case two_hands env userId (py_approvedBy p) (py_id p) of (ns, ok) \<Rightarrow>
          (ns,
           if \<not> ok then Inl SameAccountOnBothSides
           else if py_assayerId p \<noteq> [] \<and> (case py_destination p of None \<Rightarrow> False | Some d \<Rightarrow>
                     destinationBankAccountNumber d \<noteq> [] \<and> shared_destination env (py_assayerId p) d)
           then Inl DestinationShared
           else let p' = p\<lparr> py_hodApprovedAt := Some (pe_now env), py_hodApprovedBy := Some userId \<rparr>
                in Inr (payout_audit ''PAYABLE_HOD_APPROVED'' (py_id p) (payable_state AP_APPROVED) (payable_state AP_APPROVED) userId
                         (payable_log ''PAYABLE'' p ''PAYABLE_HOD_APPROVED'' (Some AP_APPROVED) (Some AP_APPROVED) None userId
                           (save_payable p' db)), Some p')))"

definition hodApprovePayout :: "payout_env \<Rightarrow> string \<Rightarrow> string \<Rightarrow> payout_db
    \<Rightarrow> payout_db \<times> (payout_refusal, AssayerPayableEntity option) result" where
  "hodApprovePayout env payableId userId db = payout_tx env db (hodApprovePayableInTx env userId False payableId db)"

text \<open>A payout goes back to the office: the approval is undone and the frozen account released.\<close>

definition back_to_office :: "string \<Rightarrow> string \<Rightarrow> AssayerPayableEntity \<Rightarrow> AssayerPayableEntity" where
  "back_to_office userId why p = p\<lparr> py_status := AP_PENDING, py_approvedBy := None, py_destination := None,
     py_hodRejectedBy := Some userId, py_hodRejectReason := Some why \<rparr>"

definition reject_work :: "string \<Rightarrow> string \<Rightarrow> string \<Rightarrow> payout_db \<Rightarrow> (payout_refusal, payout_db \<times> AssayerPayableEntity) result" where
  "reject_work why userId payableId db =
    (case lockPayable db payableId of
       None \<Rightarrow> Inl (PayableNotFound payableId)
     | Some p \<Rightarrow>
        if py_status p \<noteq> AP_APPROVED then Inl (WrongPayableStatus (py_status p))
        else if py_hodApprovedAt p \<noteq> None then Inl HasFinalApproval
        else if 0 < py_paid p then Inl (PartPaid (py_paid p))
        else if activeBillFor db p \<noteq> None then Inl (OnBill (the (py_billId p)))
        else let p' = back_to_office userId why p
             in Inr (payout_audit ''PAYABLE_HOD_REJECTED'' (py_id p) (payable_state AP_APPROVED) (payable_state AP_PENDING) userId
                      (payable_log ''PAYABLE'' p ''PAYABLE_HOD_REJECTED'' (Some AP_APPROVED) (Some AP_PENDING) (Some why) userId
                        (save_payable p' db)), p'))"

definition hodRejectPayout :: "payout_env \<Rightarrow> string \<Rightarrow> string option \<Rightarrow> string \<Rightarrow> payout_db
    \<Rightarrow> payout_db \<times> (payout_refusal, AssayerPayableEntity) result" where
  "hodRejectPayout env payableId reason userId db =
    (case hodRejectReasonProblem reason of
       Some prob \<Rightarrow> (db, Inl (RejectReason prob))
     | None \<Rightarrow> payout_tx env db ([], reject_work (js_trim (nullish_value reason [])) userId payableId db))"

section \<open>Holding and voiding\<close>

text \<open>
  The account is read again when a hold is released or a payment reversed; a different account withdraws
  the final approval.
\<close>

definition has_account :: "PayoutDestinationSnapshot option \<Rightarrow> bool" where
  "has_account d \<longleftrightarrow> (case d of None \<Rightarrow> False | Some s \<Rightarrow> destinationBankAccountNumber s \<noteq> [] \<and> destinationIfsc s \<noteq> [])"

definition same_account :: "PayoutDestinationSnapshot \<Rightarrow> PayoutDestinationSnapshot \<Rightarrow> bool" where
  "same_account next d \<longleftrightarrow>
     normaliseBankAccountNumber (Some (destinationBankAccountNumber next)) = normaliseBankAccountNumber (Some (destinationBankAccountNumber d))
     \<and> destinationIfsc next = js_upper (js_trim (destinationIfsc d))"

definition refreshPayoutDestination :: "payout_env \<Rightarrow> AssayerPayableEntity \<Rightarrow> (payout_refusal, AssayerPayableEntity) result" where
  "refreshPayoutDestination env p =
    (if py_status p \<noteq> AP_APPROVED \<or> py_assayerId p = [] \<or> \<not> has_account (py_destination p) then Inr p
     else case find_assayer env (py_assayerId p) of
       None \<Rightarrow> Inr p
     | Some a \<Rightarrow>
        if trimmed (pa_accountNumber a) = None \<or> trimmed (pa_ifsc a) = None then Inr p
        else let d = the (py_destination p);
                 next = resolvePayoutDestination a (pe_passbook env (py_assayerId p))
             in if same_account next d \<and> destinationVerifiedSource next = destinationVerifiedSource d
                   \<and> payoutEvidenceVersionId next = payoutEvidenceVersionId d
                   \<and> destinationAccountHolderName next = destinationAccountHolderName d
                   \<and> destinationBankName next = destinationBankName d
                then Inr p
                else if \<not> same_account next d \<and> shared_destination env (py_assayerId p) next then Inl DestinationShared
                else if same_account next d then Inr (p\<lparr> py_destination := Some next \<rparr>)
                else Inr (p\<lparr> py_destination := Some next, py_hodApprovedAt := None, py_hodApprovedBy := None \<rparr>))"

definition log_refresh :: "AssayerPayableEntity \<Rightarrow> AssayerPayableEntity \<Rightarrow> string \<Rightarrow> payout_db \<Rightarrow> payout_db" where
  "log_refresh p p' userId db =
    (if p' = p then db
     else payout_audit ''PAYABLE_DESTINATION_REFRESHED'' (py_id p) (payable_state (py_status p)) (payable_state (py_status p)) userId
           (payable_log ''PAYABLE'' p ''PAYABLE_DESTINATION_REFRESHED'' (Some (py_status p)) (Some (py_status p)) None userId db))"

definition hold_work :: "payout_env \<Rightarrow> bool \<Rightarrow> string \<Rightarrow> string \<Rightarrow> string \<Rightarrow> payout_db
    \<Rightarrow> (payout_refusal, payout_db \<times> AssayerPayableEntity) result" where
  "hold_work env onHold why userId payableId db =
    (case lockPayable db payableId of
       None \<Rightarrow> Inl (PayableNotFound payableId)
     | Some p \<Rightarrow>
        if py_status p = AP_PAID then Inl (WrongPayableStatus AP_PAID)
        else if py_onHold p = onHold then Inr (db, p)
        else case (if onHold then releaseFromAssayerInvoice userId ''held'' p db else Inr (p, db)) of
          Inl err \<Rightarrow> Inl err
        | Inr (p1, db1) \<Rightarrow>
           (let p2 = p1\<lparr> py_onHold := onHold, py_holdReason := (if onHold then Some why else None) \<rparr> in
            case (if onHold then Inr p2 else refreshPayoutDestination env p2) of
              Inl err \<Rightarrow> Inl err
            | Inr p3 \<Rightarrow> Inr (payable_log ''PAYABLE'' p ''PAYABLE_HOLD_CHANGED'' None None (py_holdReason p3) userId
                              (save_payable p3 (log_refresh p2 p3 userId db1)), p3)))"

definition holdPayout :: "payout_env \<Rightarrow> string \<Rightarrow> bool \<Rightarrow> string option \<Rightarrow> string \<Rightarrow> payout_db
    \<Rightarrow> payout_db \<times> (payout_refusal, AssayerPayableEntity) result" where
  "holdPayout env payableId onHold reason userId db =
    (let why = js_trim (nullish_value reason []) in
     if onHold \<and> why = [] then (db, Inl SayWhyHeld)
     else payout_tx env db ([], hold_work env onHold why userId payableId db))"

text \<open>The client's line for the same work, while it is not on an invoice, is cancelled with the payable.\<close>

definition cancel_client_line :: "string \<Rightarrow> string \<Rightarrow> AssayerPayableEntity \<Rightarrow> payout_db \<Rightarrow> payout_db" where
  "cancel_client_line userId why p db =
    (if py_assignmentId p = [] \<or> py_expenseId p \<noteq> None then db
     else case List.find (\<lambda>e. en_assignmentId e = py_assignmentId p \<and> isLiveBillingEntry (Some (en_state e))) (db_entries (po_books db)) of
       None \<Rightarrow> db
     | Some e \<Rightarrow>
        if en_state e \<in> {BS_INVOICED, BS_PAID, BS_CANCELLED} then db
        else on_books (\<lambda>b. add_history [entry_history e ''ENTRY_STATUS_CHANGED'' (en_state e) BS_CANCELLED (Some why) userId]
                 (save_entries [e\<lparr> en_state := BS_CANCELLED, en_onHold := False \<rparr>] b)) db)"

definition void_work :: "string \<Rightarrow> string \<Rightarrow> string \<Rightarrow> payout_db
    \<Rightarrow> (payout_refusal, payout_db \<times> AssayerPayableEntity) result" where
  "void_work userId why payableId db =
    (case lockPayable db payableId of
       None \<Rightarrow> Inl (PayableNotFound payableId)
     | Some p \<Rightarrow>
        if py_status p = AP_PAID then Inl (WrongPayableStatus AP_PAID)
        else if py_status p = AP_VOIDED then Inr (db, p)
        else case releaseFromAssayerInvoice userId ''voided'' p db of
          Inl err \<Rightarrow> Inl err
        | Inr (p1, db1) \<Rightarrow>
           (let p2 = p1\<lparr> py_status := AP_VOIDED, py_onHold := False, py_holdReason := None \<rparr>;
                db2 = payout_audit ''PAYABLE_VOIDED'' (py_id p) (payable_state (py_status p)) (payable_state AP_VOIDED) userId
                       (payable_log ''PAYABLE'' p ''PAYABLE_STATUS_CHANGED'' (Some (py_status p)) (Some AP_VOIDED) (Some why) userId
                         (save_payable p2 db1));
                db3 = (case py_billId p2 of None \<Rightarrow> db2 | Some i \<Rightarrow> reconcileApprovedInvoiceAfterVoid userId i db2)
            in Inr (cancel_client_line userId why p2 db3, p2)))"

definition voidPayable :: "payout_env \<Rightarrow> string \<Rightarrow> string option \<Rightarrow> string \<Rightarrow> payout_db
    \<Rightarrow> payout_db \<times> (payout_refusal, AssayerPayableEntity) result" where
  "voidPayable env payableId reason userId db =
    (let why = js_trim (nullish_value reason []) in
     if why = [] then (db, Inl SayWhyVoided)
     else payout_tx env db ([], void_work userId why payableId db))"

section \<open>Paying and reversing a payment\<close>

text \<open>A payout approved before accounts were frozen gets its account now; an assayer that is gone is passed over.\<close>

definition pay_destination :: "payout_env \<Rightarrow> AssayerPayableEntity \<Rightarrow> (payout_refusal, AssayerPayableEntity) result" where
  "pay_destination env p =
    (if has_account (py_destination p) \<or> py_assayerId p = [] then Inr p
     else case find_assayer env (py_assayerId p) of
       None \<Rightarrow> Inr p
     | Some a \<Rightarrow>
        if trimmed (pa_accountNumber a) = None \<or> trimmed (pa_ifsc a) = None then Inl BankDetailsMissing
        else if trimmed (pa_pan a) = None then Inl PanMissing
        else Inr (p\<lparr> py_destination := Some (resolvePayoutDestination a (pe_passbook env (py_assayerId p))) \<rparr>))"

definition disburse :: "payout_env \<Rightarrow> string \<Rightarrow> rat option \<Rightarrow> string option \<Rightarrow> string \<Rightarrow> AssayerPayableEntity \<Rightarrow> payout_db
    \<Rightarrow> (payout_refusal, payout_db \<times> outbound_payment) result" where
  "disburse env reference asked notes userId p db =
    (let outstanding = roundMoney (py_total p - py_paid p);
         amount = roundMoney (nullish_value asked outstanding)
     in if outstanding \<le> 0 then Inl FullyPaid
        else if amount \<le> 0 then Inl PayoutAmountNotPositive
        else if MONEY_EPSILON < amount - outstanding then Inl (ExceedsOwed amount outstanding)
        else let paid = roundMoney (py_paid p + amount);
                 fullyPaid = (py_total p - paid \<le> MONEY_EPSILON);
                 p' = p\<lparr> py_paid := paid, py_status := (if fullyPaid then AP_PAID else py_status p),
                        py_paidBy := (if fullyPaid then Some userId else py_paidBy p) \<rparr>;
                 pay = \<lparr> op_id = be_newId (pe_billing env), op_payableId = py_id p, op_reference = reference, op_amount = amount,
                        op_isActive = True, op_destination = py_destination p, op_paidBy = userId \<rparr>
             in if op_id pay \<in> op_id ` set (po_payments db) \<or> \<not> fits_decimal amount \<or> \<not> fits_decimal paid
                then Inl (PayoutThrown ''insert failed'')
                else let db1 = save_payable p' db;
                         db2 = (case py_billId p' of
                                  Some i \<Rightarrow> if fullyPaid then settleAssayerInvoiceIfPaid userId i db1 else db1
                                | None \<Rightarrow> db1);
                         db3 = db2\<lparr> po_payments := po_payments db2 @ [pay] \<rparr>
                     in Inr (payout_audit ''PAYABLE_DISBURSED'' (op_id pay) (payable_state (py_status p)) (payable_state (py_status p')) userId
                              (payable_log ''PAYMENT'' (p\<lparr> py_id := op_id pay \<rparr>) ''DISBURSEMENT_PAID'' (Some (py_status p)) (Some (py_status p')) notes userId db3), pay))"

definition recordDisbursement :: "payout_env \<Rightarrow> string \<Rightarrow> string \<Rightarrow> rat option \<Rightarrow> string option \<Rightarrow> string \<Rightarrow> payout_db
    \<Rightarrow> payout_db \<times> (payout_refusal, outbound_payment) result" where
  "recordDisbursement env payableId reference asked notes userId db = payout_tx env db
    (case lockPayable db payableId of
       None \<Rightarrow> ([], Inl (PayableNotFound payableId))
     | Some p \<Rightarrow>
        (case List.find (\<lambda>q. op_payableId q = py_id p \<and> op_reference q = reference \<and> op_isActive q) (po_payments db) of
           Some q \<Rightarrow> ([], Inr (db, q))
         | None \<Rightarrow>
            if py_onHold p then ([], Inl (PayoutOnHold payableId))
            else if py_status p \<noteq> AP_APPROVED then ([], Inl (WrongPayableStatus (py_status p)))
            else if py_hodApprovedAt p = None then ([], Inl AwaitingFinalApproval)
            else case pay_destination env p of
              Inl err \<Rightarrow> ([], Inl err)
            | Inr p1 \<Rightarrow>
               (case two_hands env userId (py_approvedBy p) (py_id p) of
                  (ns, ok) \<Rightarrow> (ns, if ok then disburse env reference asked notes userId p1 db else Inl SameAccountOnBothSides))))"

definition outbound_sum :: "outbound_payment list \<Rightarrow> string \<Rightarrow> rat" where
  "outbound_sum ps i = sum_list (map op_amount (filter (\<lambda>q. op_payableId q = i \<and> op_isActive q) ps))"

text \<open>\<^verbatim>\<open>reversePayment\<close> for money sent: the branch for an outbound payment of a payable.\<close>

definition reverseOutboundPayment :: "payout_env \<Rightarrow> string \<Rightarrow> string option \<Rightarrow> string \<Rightarrow> payout_db
    \<Rightarrow> payout_db \<times> (payout_refusal, outbound_payment) result" where
  "reverseOutboundPayment env paymentId reason userId db =
    (let why = js_trim (nullish_value reason []) in
     if why = [] then (db, Inl SayWhyReversedPayout)
     else payout_tx env db ([],
      (case List.find (\<lambda>q. op_id q = paymentId) (po_payments db) of
         None \<Rightarrow> Inl (OutboundPaymentNotFound paymentId)
       | Some pay \<Rightarrow>
        (case lockPayable db (op_payableId pay) of
           None \<Rightarrow> Inl (PayableNotFound (op_payableId pay))
         | Some p \<Rightarrow>
            if \<not> op_isActive pay then Inl PayoutAlreadyReversed
            else let ps = map (\<lambda>q. if op_id q = paymentId then q\<lparr> op_isActive := False \<rparr> else q) (po_payments db);
                     paid = roundMoney (outbound_sum ps (py_id p));
                     p1 = (if py_status p = AP_PAID \<and> MONEY_EPSILON < py_total p - paid
                           then p\<lparr> py_paid := paid, py_status := AP_APPROVED, py_paidBy := None \<rparr>
                           else p\<lparr> py_paid := paid \<rparr>)
                 in case refreshPayoutDestination env p1 of
                      Inl err \<Rightarrow> Inl err
                    | Inr p2 \<Rightarrow>
                       (let db1 = save_payable p2 (log_refresh p1 p2 userId (db\<lparr> po_payments := ps \<rparr>));
                            db2 = (case py_billId p2 of
                                     Some i \<Rightarrow> if py_status p2 \<noteq> AP_PAID then unsettleAssayerInvoice userId why i db1 else db1
                                   | None \<Rightarrow> db1)
                        in Inr (payout_audit ''PAYMENT_REVERSED'' paymentId (payable_state (py_status p)) (payable_state (py_status p2)) userId
                                 (payable_log ''PAYMENT'' (p\<lparr> py_id := paymentId \<rparr>) ''PAYMENT_REVERSED'' (Some (py_status p)) (Some (py_status p2)) (Some why) userId db2),
                                pay\<lparr> op_isActive := False \<rparr>))))))"

end
