(* ===== verification/Assayer_Bills.thy ===== *)
theory Assayer_Bills
  imports Payout_Operations
begin

text \<open>
  The bills assayers confirm (\<^verbatim>\<open>assayer-invoice.service.ts\<close>): the invitation that collects what may be
  billed, the assayer's confirmation, the office's approval with its lines, the final approval, sending a
  bill back, cancelling it and revising it. Unique indexes are guards of the writes they protect.
\<close>

section \<open>Writing bills\<close>

text \<open>\<^verbatim>\<open>ASSAYER_INVOICE_ELIGIBLE_SQL\<close>.\<close>

definition bill_eligible :: "AssayerPayableEntity \<Rightarrow> bool" where
  "bill_eligible p \<longleftrightarrow> py_status p \<in> {AP_PENDING, AP_APPROVED} \<and> \<not> py_onHold p \<and> py_billId p = None \<and> \<not> py_preInvoicingEra p"

definition open_bill :: "payout_db \<Rightarrow> string \<Rightarrow> AssayerInvoiceEntity option" where
  "open_bill db assayerId = List.find (\<lambda>b. bl_assayerId b = assayerId \<and> bl_status b \<in> {AI_INVITED, AI_SUBMITTED}) (po_bills db)"

definition sorted_lines :: "payout_db \<Rightarrow> string \<Rightarrow> AssayerPayableEntity list" where
  "sorted_lines db i = sort_key py_id (bill_lines db i)"

definition relink :: "AssayerPayableEntity list \<Rightarrow> string option \<Rightarrow> payout_db \<Rightarrow> payout_db" where
  "relink ls target db = db\<lparr> po_payables :=
     map (\<lambda>p. if py_id p \<in> py_id ` set ls then p\<lparr> py_billId := target \<rparr> else p) (po_payables db) \<rparr>"

text \<open>An insert that the columns and the unique indexes accept, one open bill per assayer among them.\<close>

definition insertable :: "AssayerInvoiceEntity \<Rightarrow> payout_db \<Rightarrow> bool" where
  "insertable b db \<longleftrightarrow> bl_id b \<notin> bl_id ` set (po_bills db) \<and> bl_number b \<notin> bl_number ` set (po_bills db)
     \<and> fits_decimal (bl_base b) \<and> fits_decimal (bl_travel b) \<and> fits_decimal (bl_tds b) \<and> fits_decimal (bl_total b)"

definition new_bill :: "payout_env \<Rightarrow> string \<Rightarrow> string \<Rightarrow> string \<Rightarrow> nat \<Rightarrow> string option \<Rightarrow> AssayerPayableEntity list
    \<Rightarrow> AssayerInvoiceEntity" where
  "new_bill env number assayerId actorId revision supersedes ls = bill_figures ls
     \<lparr> bl_id = be_newId (pe_billing env), bl_number = number, bl_assayerId = assayerId, bl_status = AI_INVITED,
       bl_invitedBy = actorId, bl_submittedRequestId = None, bl_approvedBy = None, bl_hodApprovedAt = None,
       bl_hodApprovedBy = None, bl_hodRejectedBy = None, bl_hodRejectReason = None, bl_cancelReason = None,
       bl_lineCount = 0, bl_base = 0, bl_travel = 0, bl_tds = 0, bl_total = 0, bl_paidBy = None, bl_revision = revision,
       bl_supersedes = supersedes, bl_supersededBy = None, bl_confirmedVersion = None \<rparr>"

section \<open>Inviting and confirming\<close>

definition inviteAssayer :: "payout_env \<Rightarrow> string \<Rightarrow> string \<Rightarrow> payout_db
    \<Rightarrow> payout_db \<times> (payout_refusal, AssayerInvoiceEntity) result" where
  "inviteAssayer env assayerId actorId db = payout_tx env db ([],
    (let ls = sort_key py_id (filter (\<lambda>p. py_assayerId p = assayerId \<and> bill_eligible p) (po_payables db)) in
     if ls = []
     then Inl (case open_bill db assayerId of Some b \<Rightarrow> BillStands (bl_number b) | None \<Rightarrow> NothingEligible)
     else let b = new_bill env (pe_number env) assayerId actorId 1 None ls in
       if \<not> insertable b db then Inl (PayoutThrown ''insert failed'')
       else case open_bill db assayerId of
         Some s \<Rightarrow> Inl (BillStands (bl_number s))
       | None \<Rightarrow> Inr (payout_audit ''ASSAYER_INVOICE_INVITED'' (bl_id b) None (bill_state AI_INVITED) actorId
                  (bill_log b ''ASSAYER_INVOICE_INVITED'' None (Some AI_INVITED) None actorId
                    (relink ls (Some (bl_id b)) (db\<lparr> po_bills := po_bills db @ [b] \<rparr>))), b)))"

definition SUBMIT_ON_BEHALF_REASON_MIN :: nat where
  "SUBMIT_ON_BEHALF_REASON_MIN = 10"

text \<open>The assayer confirms, or a member of staff for them, with the reason.\<close>

definition submitBill :: "payout_env \<Rightarrow> string \<Rightarrow> string \<Rightarrow> (string \<times> string option) option \<Rightarrow> payout_db
    \<Rightarrow> payout_db \<times> (payout_refusal, AssayerInvoiceEntity) result" where
  "submitBill env assayerId clientRequestId onBehalf db =
    (let actorId = (case onBehalf of None \<Rightarrow> assayerId | Some (staffId, why) \<Rightarrow> staffId);
         reason = (case onBehalf of None \<Rightarrow> [] | Some (staffId, why) \<Rightarrow> js_trim (nullish_value why []))
     in if onBehalf \<noteq> None \<and> length reason < SUBMIT_ON_BEHALF_REASON_MIN then (db, Inl SayWhyOnBehalf)
        else payout_tx env db ([],
         (case open_bill db assayerId of
            None \<Rightarrow> Inl NoInvitation
          | Some b \<Rightarrow>
             if bl_status b = AI_SUBMITTED
             then (if bl_submittedRequestId b = Some clientRequestId then Inr (db, b) else Inl SubmittedElsewhere)
             else let b' = b\<lparr> bl_status := AI_SUBMITTED, bl_submittedRequestId := Some clientRequestId,
                            bl_confirmedVersion := Some (bl_revision b) \<rparr>
                  in Inr (payout_audit ''ASSAYER_INVOICE_SUBMITTED'' (bl_id b) (bill_state AI_INVITED) (bill_state AI_SUBMITTED) actorId
                           (bill_log b ''ASSAYER_INVOICE_SUBMITTED'' (Some AI_INVITED) (Some AI_SUBMITTED)
                             (if onBehalf = None then None else Some reason) actorId (save_bill b' db)), b'))))"

section \<open>The office's approval of a bill\<close>

primrec approve_lines :: "payout_env \<Rightarrow> string \<Rightarrow> AssayerPayableEntity list \<Rightarrow> payout_db \<Rightarrow> rat payout_work" where
  "approve_lines env userId [] db = ([], Inr (db, 0))"
| "approve_lines env userId (l # ls) db =
    (if py_status l \<noteq> AP_PENDING then approve_lines env userId ls db
     else case approvePayableInTx env userId True None (py_id l) db of
       (ns, Inl err) \<Rightarrow> (ns, Inl err)
     | (ns, Inr (db1, saved, moved)) \<Rightarrow>
        (case approve_lines env userId ls db1 of
           (ns', Inl err) \<Rightarrow> (ns @ ns', Inl err)
         | (ns', Inr (db2, moved')) \<Rightarrow> (ns @ ns', Inr (db2, moved + moved'))))"

definition drifted :: "AssayerPayableEntity list \<Rightarrow> AssayerInvoiceEntity \<Rightarrow> bool" where
  "drifted ls b \<longleftrightarrow>
    (let s = bill_figures ls b
     in bl_lineCount s \<noteq> bl_lineCount b \<or> MONEY_EPSILON < \<bar>bl_base s - bl_base b\<bar> \<or> MONEY_EPSILON < \<bar>bl_travel s - bl_travel b\<bar>
        \<or> MONEY_EPSILON < \<bar>bl_tds s - bl_tds b\<bar> \<or> MONEY_EPSILON < \<bar>bl_total s - bl_total b\<bar>)"

definition bill_approve_work :: "payout_env \<Rightarrow> string \<Rightarrow> string \<Rightarrow> payout_db \<Rightarrow> AssayerInvoiceEntity payout_work" where
  "bill_approve_work env billId userId db =
    (case find_bill db billId of
       None \<Rightarrow> ([], Inl (BillNotFound billId))
     | Some b \<Rightarrow>
        if isApprovedBill (bl_status b) then ([], Inr (db, b))
        else if bl_status b \<noteq> AI_SUBMITTED then ([], Inl (WrongBillStatus (bl_status b)))
        else if bl_confirmedVersion b \<noteq> Some (bl_revision b) then ([], Inl (NotConfirmed (bl_revision b) (bl_confirmedVersion b)))
        else let ls = sorted_lines db billId in
          if list_ex py_onHold ls then ([], Inl (LinesHeld (map py_id (filter py_onHold ls))))
          else if drifted ls b then ([], Inl (BillDrifted (bl_total b) (bl_total (bill_figures ls b))))
          else case approve_lines env userId ls db of
            (ns, Inl err) \<Rightarrow> (ns, Inl err)
          | (ns, Inr (db1, moved)) \<Rightarrow>
             (if MONEY_EPSILON / 2 < \<bar>moved\<bar> then (ns, Inl (TaxMoved (bl_total b) (roundMoney (bl_total b + moved))))
              else let b' = b\<lparr> bl_status := AI_APPROVED, bl_approvedBy := Some userId, bl_hodApprovedAt := None, bl_hodApprovedBy := None \<rparr>;
                       db2 = settleAssayerInvoiceIfPaid userId billId
                              (payout_audit ''ASSAYER_INVOICE_APPROVED'' billId (bill_state AI_SUBMITTED) (bill_state AI_APPROVED) userId
                                (bill_log b ''ASSAYER_INVOICE_APPROVED'' (Some AI_SUBMITTED) (Some AI_APPROVED) None userId (save_bill b' db1)))
                   in (ns, Inr (db2, nullish_value (find_bill db2 billId) b'))))"

section \<open>Revising\<close>

definition base_number :: "string \<Rightarrow> string" where
  "base_number s = (let marks = filter (\<lambda>i. take 2 (drop i s) = ''-R'') [0..<length s]
     in if marks = [] then s else take (hd marks) s)"

text \<open>The old bill makes room, the new one takes the lines it keeps, the others are let go.\<close>

definition supersede :: "AssayerInvoiceEntity \<Rightarrow> AssayerInvoiceEntity \<Rightarrow> AssayerPayableEntity list \<Rightarrow> AssayerPayableEntity list
    \<Rightarrow> payout_db \<Rightarrow> payout_db" where
  "supersede b r keep gone db =
    (let db1 = save_bill (b\<lparr> bl_status := AI_SUPERSEDED \<rparr>) db;
         db2 = relink gone None (relink keep (Some (bl_id r)) (db1\<lparr> po_bills := po_bills db1 @ [r] \<rparr>))
     in save_bill (b\<lparr> bl_status := AI_SUPERSEDED, bl_supersededBy := Some (bl_id r) \<rparr>) db2)"

definition revised_bill :: "payout_env \<Rightarrow> AssayerInvoiceEntity \<Rightarrow> string \<Rightarrow> AssayerPayableEntity list \<Rightarrow> AssayerInvoiceEntity" where
  "revised_bill env b actorId keep =
    new_bill env (base_number (bl_number b) @ ''-R'' @ nat_digits (bl_revision b + 1)) (bl_assayerId b) actorId
      (bl_revision b + 1) (Some (bl_id b)) keep"

definition revisable :: "AssayerPayableEntity \<Rightarrow> bool" where
  "revisable l \<longleftrightarrow> \<not> py_onHold l \<and> py_status l = AP_PENDING"

definition reviseInTx :: "payout_env \<Rightarrow> string \<Rightarrow> string \<Rightarrow> string \<Rightarrow> AssayerPayableEntity list option \<Rightarrow> payout_db
    \<Rightarrow> (payout_refusal, payout_db \<times> AssayerInvoiceEntity) result" where
  "reviseInTx env billId actorId why lockedLines db =
    (case find_bill db billId of
       None \<Rightarrow> Inl (BillNotFound billId)
     | Some b \<Rightarrow>
        if bl_status b \<notin> {AI_INVITED, AI_SUBMITTED} then Inl (WrongBillStatus (bl_status b))
        else let ls = nullish_value lockedLines (sorted_lines db billId);
                 keep = filter revisable ls;
                 r = revised_bill env b actorId keep;
                 db1 = save_bill (b\<lparr> bl_status := AI_SUPERSEDED \<rparr>) db
             in if keep = [] then Inl NothingEligible
                else if \<not> insertable r db1 \<or> open_bill db1 (bl_assayerId b) \<noteq> None then Inl (PayoutThrown ''insert failed'')
                else Inr (payout_audit ''ASSAYER_INVOICE_SUPERSEDED'' billId (bill_state (bl_status b)) (bill_state AI_SUPERSEDED) actorId
                           (bill_log r ''ASSAYER_INVOICE_INVITED'' None (Some AI_INVITED) (Some why) actorId
                             (bill_log b ''ASSAYER_INVOICE_SUPERSEDED'' (Some (bl_status b)) (Some AI_SUPERSEDED) (Some why) actorId
                               (supersede b r keep (filter (\<lambda>l. \<not> revisable l) ls) db))), r))"

definition reviseInvoice :: "payout_env \<Rightarrow> string \<Rightarrow> string option \<Rightarrow> string \<Rightarrow> payout_db
    \<Rightarrow> payout_db \<times> (payout_refusal, AssayerInvoiceEntity) result" where
  "reviseInvoice env billId reason actorId db =
    (let why = js_trim (nullish_value reason []) in
     if why = [] then (db, Inl SayWhyRevised)
     else payout_tx env db ([], reviseInTx env billId actorId why None db))"

text \<open>
  Each due line takes its new tax; a line whose figures did not move is handed on as decided but is not
  written.
\<close>

definition reTaxDueLine :: "payout_env \<Rightarrow> string \<Rightarrow> string \<Rightarrow> payout_db \<Rightarrow> (payout_refusal, payout_db \<times> AssayerPayableEntity) result" where
  "reTaxDueLine env userId payableId db =
    (case lockPayable db payableId of
       None \<Rightarrow> Inl (PayableNotFound payableId)
     | Some p \<Rightarrow>
        if py_status p \<noteq> AP_PENDING then Inr (db, p)
        else case recomputeTdsAtApproval env db p of
          Inl err \<Rightarrow> Inl err
        | Inr p' \<Rightarrow>
           (let db1 = (if p' = p then db
                       else payable_log ''PAYABLE'' p ''PAYABLE_TDS_RECOMPUTED'' (Some AP_PENDING) (Some AP_PENDING)
                              (Some ''TDS re-decided at approval'') userId db)
            in Inr (if roundMoney (roundMoney (py_tds p') - roundMoney (py_tds p)) \<noteq> 0
                       \<or> roundMoney (roundMoney (py_total p') - roundMoney (py_total p)) \<noteq> 0
                    then save_payable p' db1 else db1, p')))"

primrec retax_lines :: "payout_env \<Rightarrow> string \<Rightarrow> AssayerPayableEntity list \<Rightarrow> payout_db
    \<Rightarrow> (payout_refusal, payout_db \<times> AssayerPayableEntity list) result" where
  "retax_lines env userId [] db = Inr (db, [])"
| "retax_lines env userId (l # ls) db =
    (case (if py_status l = AP_PENDING then reTaxDueLine env userId (py_id l) db else Inr (db, l)) of
       Inl err \<Rightarrow> Inl err
     | Inr (db1, l') \<Rightarrow>
        (case retax_lines env userId ls db1 of
           Inl err \<Rightarrow> Inl err
         | Inr (db2, ls') \<Rightarrow> Inr (db2, l' # ls')))"

definition sendBackForTaxChange :: "payout_env \<Rightarrow> string \<Rightarrow> string \<Rightarrow> payout_db
    \<Rightarrow> (payout_refusal, payout_db \<times> AssayerInvoiceEntity) result" where
  "sendBackForTaxChange env billId actorId db =
    (case retax_lines env actorId (sorted_lines db billId) db of
       Inl err \<Rightarrow> Inl err
     | Inr (db1, ls) \<Rightarrow> reviseInTx env billId actorId ''tax was recalculated'' (Some ls) db1)"

text \<open>
  The approval of a bill: when its lines' tax moved its total, nothing is approved and, in a second
  transaction, the bill goes back to the assayer as a revision at the new figure.
\<close>

definition approveBill :: "payout_env \<Rightarrow> payout_env \<Rightarrow> string \<Rightarrow> string \<Rightarrow> payout_db
    \<Rightarrow> payout_db \<times> (payout_refusal, AssayerInvoiceEntity) result" where
  "approveBill env env' billId actorId db =
    (case payout_tx env db (bill_approve_work env billId actorId db) of
       (db1, Inl (TaxMoved old new)) \<Rightarrow>
         (case payout_tx env' db1 ([], sendBackForTaxChange env' billId actorId db1) of
            (db2, Inl err) \<Rightarrow> (db2, Inl err)
          | (db2, Inr r) \<Rightarrow> (db2, Inl (TaxMoved old new)))
     | outcome \<Rightarrow> outcome)"

section \<open>The final approval of a bill\<close>

primrec hod_approve_lines :: "payout_env \<Rightarrow> string \<Rightarrow> AssayerPayableEntity list \<Rightarrow> payout_db \<Rightarrow> unit payout_work" where
  "hod_approve_lines env userId [] db = ([], Inr (db, ()))"
| "hod_approve_lines env userId (l # ls) db =
    (if py_status l \<noteq> AP_APPROVED \<or> py_hodApprovedAt l \<noteq> None then hod_approve_lines env userId ls db
     else case hodApprovePayableInTx env userId True (py_id l) db of
       (ns, Inl err) \<Rightarrow> (ns, Inl err)
     | (ns, Inr (db1, saved)) \<Rightarrow>
        (case hod_approve_lines env userId ls db1 of
           (ns', Inl err) \<Rightarrow> (ns @ ns', Inl err)
         | (ns', Inr (db2, u)) \<Rightarrow> (ns @ ns', Inr (db2, ()))))"

definition bill_hod_work :: "payout_env \<Rightarrow> string \<Rightarrow> string \<Rightarrow> payout_db \<Rightarrow> AssayerInvoiceEntity payout_work" where
  "bill_hod_work env billId userId db =
    (case find_bill db billId of
       None \<Rightarrow> ([], Inl (BillNotFound billId))
     | Some b \<Rightarrow>
        if bl_status b = AI_HOD_APPROVED then ([], Inr (db, b))
        else if bl_status b \<noteq> AI_APPROVED then ([], Inl (WrongBillStatus (bl_status b)))
        else case two_hands env userId (bl_approvedBy b) billId of
          (ns, ok) \<Rightarrow>
            if \<not> ok then (ns, Inl SameAccountOnBothSides)
            else let ls = sorted_lines db billId in
              if list_ex (\<lambda>l. py_onHold l \<and> py_status l = AP_APPROVED) ls
              then (ns, Inl (LinesHeld (map py_id (filter (\<lambda>l. py_onHold l \<and> py_status l = AP_APPROVED) ls))))
              else case hod_approve_lines env userId ls db of
                (ns', Inl err) \<Rightarrow> (ns @ ns', Inl err)
              | (ns', Inr (db1, u)) \<Rightarrow>
                 (let b' = b\<lparr> bl_status := AI_HOD_APPROVED, bl_hodApprovedAt := Some (pe_now env), bl_hodApprovedBy := Some userId \<rparr>;
                      db2 = settleAssayerInvoiceIfPaid userId billId
                              (payout_audit ''ASSAYER_INVOICE_HOD_APPROVED'' billId (bill_state AI_APPROVED) (bill_state AI_HOD_APPROVED) userId
                                (bill_log b ''ASSAYER_INVOICE_HOD_APPROVED'' (Some AI_APPROVED) (Some AI_HOD_APPROVED) None userId (save_bill b' db1)))
                  in (ns @ ns', Inr (db2, nullish_value (find_bill db2 billId) b'))))"

definition hodApproveBill :: "payout_env \<Rightarrow> string \<Rightarrow> string \<Rightarrow> payout_db
    \<Rightarrow> payout_db \<times> (payout_refusal, AssayerInvoiceEntity) result" where
  "hodApproveBill env billId userId db = payout_tx env db (bill_hod_work env billId userId db)"

primrec send_lines_back :: "string \<Rightarrow> string \<Rightarrow> AssayerPayableEntity list \<Rightarrow> payout_db \<Rightarrow> payout_db" where
  "send_lines_back userId why [] db = db"
| "send_lines_back userId why (l # ls) db = send_lines_back userId why ls
    (if py_status l \<noteq> AP_APPROVED then db
     else payable_log ''PAYABLE'' l ''PAYABLE_HOD_REJECTED'' (Some AP_APPROVED) (Some AP_PENDING) (Some why) userId
           (save_payable ((back_to_office userId why l)\<lparr> py_hodApprovedAt := None, py_hodApprovedBy := None \<rparr>) db))"

definition hodRejectBill :: "payout_env \<Rightarrow> string \<Rightarrow> string option \<Rightarrow> string \<Rightarrow> payout_db
    \<Rightarrow> payout_db \<times> (payout_refusal, AssayerInvoiceEntity) result" where
  "hodRejectBill env billId reason userId db =
    (case hodRejectReasonProblem reason of
       Some prob \<Rightarrow> (db, Inl (RejectReason prob))
     | None \<Rightarrow> payout_tx env db ([],
        (let why = js_trim (nullish_value reason []) in
         case find_bill db billId of
           None \<Rightarrow> Inl (BillNotFound billId)
         | Some b \<Rightarrow>
            if bl_status b \<noteq> AI_APPROVED then Inl (WrongBillStatus (bl_status b))
            else let ls = sorted_lines db billId in
              if list_ex (\<lambda>l. py_status l = AP_PAID \<or> 0 < py_paid l) ls
              then Inl (MoneyMoved (map py_id (filter (\<lambda>l. py_status l = AP_PAID \<or> 0 < py_paid l) ls)))
              else case open_bill db (bl_assayerId b) of
                Some s \<Rightarrow> Inl (BillStands (bl_number s))
              | None \<Rightarrow>
                 (let b' = b\<lparr> bl_status := AI_SUBMITTED, bl_approvedBy := None, bl_hodRejectedBy := Some userId,
                            bl_hodRejectReason := Some why \<rparr>
                  in Inr (payout_audit ''ASSAYER_INVOICE_HOD_REJECTED'' billId (bill_state AI_APPROVED) (bill_state AI_SUBMITTED) userId
                           (bill_log b ''ASSAYER_INVOICE_HOD_REJECTED'' (Some AI_APPROVED) (Some AI_SUBMITTED) (Some why) userId
                             (save_bill b' (send_lines_back userId why ls db))), b')))))"

definition cancelBill :: "payout_env \<Rightarrow> string \<Rightarrow> string option \<Rightarrow> string \<Rightarrow> payout_db
    \<Rightarrow> payout_db \<times> (payout_refusal, AssayerInvoiceEntity) result" where
  "cancelBill env billId reason actorId db =
    (let why = js_trim (nullish_value reason []) in
     if why = [] then (db, Inl SayWhyBillCancelled)
     else payout_tx env db ([],
      (case find_bill db billId of
         None \<Rightarrow> Inl (BillNotFound billId)
       | Some b \<Rightarrow>
          if bl_status b = AI_CANCELLED then Inr (db, b)
          else if bl_status b \<notin> {AI_INVITED, AI_SUBMITTED} then Inl (WrongBillStatus (bl_status b))
          else let b' = b\<lparr> bl_status := AI_CANCELLED, bl_cancelReason := Some why \<rparr>
               in Inr (payout_audit ''ASSAYER_INVOICE_CANCELLED'' billId (bill_state (bl_status b)) (bill_state AI_CANCELLED) actorId
                        (bill_log b ''ASSAYER_INVOICE_CANCELLED'' (Some (bl_status b)) (Some AI_CANCELLED) (Some why) actorId
                          (save_bill b' (relink (bill_lines db billId) None db))), b'))))"

end
