(* ===== verification/Payout_Booking.thy ===== *)
theory Payout_Booking
  imports Assayer_Bills
begin

text \<open>
  How money comes into the ledger (\<^verbatim>\<open>billing-engine.service.ts\<close>): a completed assignment is booked as a
  payable and a client line, an approved expense claim as a payable; a booked fee is priced again while
  nothing was approved, and an open client line can be adjusted or held. What the fee and the terms come
  to is \<open>assignmentMoney\<close>.
\<close>

section \<open>Inserting\<close>

definition payable_row :: "payout_env \<Rightarrow> string \<Rightarrow> string option \<Rightarrow> string \<Rightarrow> string option \<Rightarrow> rat \<Rightarrow> rat \<Rightarrow> rat \<Rightarrow> rat
    \<Rightarrow> js_number option \<Rightarrow> string option \<Rightarrow> AssayerPayableEntity" where
  "payable_row env assayerId clientId assignmentId expenseId ground journey withheld net rate panBasis =
    \<lparr> py_id = be_newId (pe_billing env), py_assayerId = assayerId, py_clientId = clientId, py_assignmentId = assignmentId,
      py_expenseId = expenseId, py_status = AP_PENDING, py_onHold = False, py_holdReason = None, py_base = ground,
      py_travel = journey, py_tds = withheld, py_total = net, py_paid = 0, py_tdsRate = rate, py_tdsPanBasis = panBasis,
      py_billId = None, py_preInvoicingEra = False, py_bookedOn = be_today (pe_billing env), py_approvedBy = None,
      py_hodApprovedAt = None, py_hodApprovedBy = None, py_hodRejectedBy = None, py_hodRejectReason = None,
      py_paidBy = None, py_destination = None \<rparr>"

definition live_fee :: "string \<Rightarrow> AssayerPayableEntity \<Rightarrow> bool" where
  "live_fee assignmentId p \<longleftrightarrow> py_assignmentId p = assignmentId \<and> py_expenseId p = None \<and> live_payable p"

definition liveFeePayable :: "payout_db \<Rightarrow> string \<Rightarrow> AssayerPayableEntity option" where
  "liveFeePayable db assignmentId = List.find (live_fee assignmentId) (po_payables db)"

definition live_line :: "payout_db \<Rightarrow> string \<Rightarrow> BillingEntryEntity option" where
  "live_line db assignmentId =
    List.find (\<lambda>e. en_assignmentId e = assignmentId \<and> isLiveBillingEntry (Some (en_state e))) (db_entries (po_books db))"

text \<open>The columns and the unique indexes on a payable: one live fee an assignment, one payable a claim.\<close>

definition insertPayable :: "AssayerPayableEntity \<Rightarrow> string \<Rightarrow> payout_db
    \<Rightarrow> (payout_refusal, payout_db \<times> AssayerPayableEntity) result" where
  "insertPayable p userId db =
    (if py_id p \<in> py_id ` set (po_payables db) \<or> \<not> fits_decimal (py_base p) \<or> \<not> fits_decimal (py_travel p)
        \<or> \<not> fits_decimal (py_tds p) \<or> \<not> fits_decimal (py_total p)
     then Inl (PayoutThrown ''insert failed'')
     else if (case py_expenseId p of None \<Rightarrow> list_ex (live_fee (py_assignmentId p)) (po_payables db)
              | Some x \<Rightarrow> list_ex (\<lambda>q. py_expenseId q = Some x) (po_payables db))
     then Inl DuplicatePayable
     else Inr (payable_log ''PAYABLE'' p ''PAYABLE_CREATED'' None (Some AP_PENDING) None userId
                (db\<lparr> po_payables := po_payables db @ [p] \<rparr>), p))"

definition client_line_row :: "payout_env \<Rightarrow> string \<Rightarrow> string \<Rightarrow> MoneyContext \<Rightarrow> ClientSide \<Rightarrow> BillingEntryEntity" where
  "client_line_row env clientId assignmentId ctx c =
    \<lparr> en_id = pe_entryId env, en_assignmentId = assignmentId, en_clientId = clientId, en_state = BS_UNBILLED, en_onHold = False,
      en_isActive = True, en_base = cl_base c, en_travel = cl_travel c, en_adjustment = 0, en_taxRate = gstRate ctx,
      en_tdsRate = clientTdsRate ctx, en_taxable = cl_taxable c, en_tax = cl_gst c, en_tds = cl_tds c,
      en_total = cl_total c, en_paid = 0, en_outstanding = 0, en_invoiceId = None \<rparr>"

definition line_note :: "BillingEntryEntity \<Rightarrow> string \<Rightarrow> string option \<Rightarrow> string option \<Rightarrow> string \<Rightarrow> billing_history" where
  "line_note e action next why userId =
    \<lparr> bh_entityType = ''ENTRY'', bh_entityId = en_id e, bh_action = action, bh_fromState = None, bh_toState = next,
      bh_reason = why, bh_userId = userId \<rparr>"

definition insertClientLine :: "BillingEntryEntity \<Rightarrow> string \<Rightarrow> payout_db \<Rightarrow> (payout_refusal, payout_db) result" where
  "insertClientLine e userId db =
    (if en_id e \<in> en_id ` set (db_entries (po_books db)) \<or> live_line db (en_assignmentId e) \<noteq> None
     then Inl (PayoutThrown ''insert failed'')
     else Inr (on_books (\<lambda>b. add_history [line_note e ''ENTRY_CREATED'' (Some (billingStateValue BS_UNBILLED)) None userId]
                 (b\<lparr> db_entries := db_entries b @ [e] \<rparr>)) db))"

section \<open>Booking an assignment\<close>

text \<open>The terms that price a booking, with the withholding rate of this assayer and the line's adjustment.\<close>

definition moneyContextFor :: "payout_env \<Rightarrow> string \<Rightarrow> string \<Rightarrow> rat \<Rightarrow> MoneyContext \<times> bool" where
  "moneyContextFor env clientId assayerId adjustment =
    (case assayer_tds_rate env assayerId of
       (rate, hasPan) \<Rightarrow> ((pe_terms env clientId assayerId)\<lparr> assayerTdsRate := rate, adjustmentAmount := Amount adjustment \<rparr>, hasPan))"

datatype booking = NotBooked string | AlreadyBooked string string | Booked string string

definition fee_payable :: "payout_env \<Rightarrow> string \<Rightarrow> string \<Rightarrow> string \<Rightarrow> AssayerSide \<Rightarrow> Tds194jOutcome \<Rightarrow> rat \<Rightarrow> bool
    \<Rightarrow> AssayerPayableEntity" where
  "fee_payable env assayerId clientId assignmentId s d rate hasPan =
    payable_row env assayerId (Some clientId) assignmentId None (as_base s) (as_travel s) (tds d)
      (roundMoney (as_gross s - tds d)) (Some (Num rate)) (Some (if hasPan then ''PAN'' else ''NO_PAN''))"

definition book_legs :: "payout_env \<Rightarrow> string \<Rightarrow> string \<Rightarrow> string \<Rightarrow> AssignmentFeeInput \<Rightarrow> string \<Rightarrow> payout_db
    \<Rightarrow> (payout_refusal, payout_db \<times> booking) result" where
  "book_legs env assignmentId assayerId clientId feeInput userId db =
    (case moneyContextFor env clientId assayerId 0 of
       (ctx, hasPan) \<Rightarrow>
        (let money = assignmentMoney feeInput ctx in
         if fee_from (fee money) = FS_NONE then Inr (db, NotBooked ''NO_FEE'')
         else case (case liveFeePayable db assignmentId of
                Some p \<Rightarrow> Inr (db, p)
              | None \<Rightarrow>
                 (case assayerFeeTds env db assayerId (as_gross (assayer_side money)) (assayerTdsRate ctx) (be_today (pe_billing env)) None of
                    Inl err \<Rightarrow> Inl err
                  | Inr d \<Rightarrow> insertPayable (fee_payable env assayerId clientId assignmentId (assayer_side money) d (assayerTdsRate ctx) hasPan)
                              userId db)) of
              Inl err \<Rightarrow> Inl err
            | Inr (db1, p) \<Rightarrow>
               (case live_line db1 assignmentId of
                  Some e \<Rightarrow> Inr (db1, Booked (en_id e) (py_id p))
                | None \<Rightarrow>
                   (let e = client_line_row env clientId assignmentId ctx (client_side money) in
                    case insertClientLine e userId db1 of
                      Inl err \<Rightarrow> Inl err
                    | Inr db2 \<Rightarrow> Inr (db2, Booked (en_id e) (py_id p))))))"

definition bookAssignment :: "payout_env \<Rightarrow> string \<Rightarrow> string \<Rightarrow> payout_db \<Rightarrow> payout_db \<times> (payout_refusal, booking) result" where
  "bookAssignment env assignmentId userId db = payout_tx env db ([],
    (case pe_job env assignmentId of
       None \<Rightarrow> Inr (db, NotBooked ''assignment not found'')
     | Some j \<Rightarrow>
        if jb_status j \<noteq> AS_COMPLETED then Inr (db, NotBooked ''assignment not completed'')
        else case jb_assayerId j of
          None \<Rightarrow> Inr (db, NotBooked ''no assayer on assignment'')
        | Some assayerId \<Rightarrow>
           (case jb_clientId j of
              None \<Rightarrow> Inr (db, NotBooked ''no client for assignment'')
            | Some clientId \<Rightarrow>
               (case (live_line db assignmentId, liveFeePayable db assignmentId) of
                  (Some e, Some p) \<Rightarrow> Inr (db, AlreadyBooked (en_id e) (py_id p))
                | _ \<Rightarrow> book_legs env assignmentId assayerId clientId (jb_fee j) userId db))))"

section \<open>Pricing again\<close>

definition reprice_frozen :: "payout_db \<Rightarrow> AssayerPayableEntity \<Rightarrow> bool" where
  "reprice_frozen db p \<longleftrightarrow>
     (case py_billId p of None \<Rightarrow> False | Some i \<Rightarrow>
        (case find_bill db i of None \<Rightarrow> False | Some b \<Rightarrow> bl_status b = AI_SUBMITTED \<or> isApprovedBill (bl_status b)))
     \<or> py_status p \<noteq> AP_PENDING \<or> 0 < py_paid p"

text \<open>The payable's half: left alone with a note when it is frozen, silently when it is paid.\<close>

definition reprice_payable :: "payout_env \<Rightarrow> string \<Rightarrow> string \<Rightarrow> AssignmentMoney \<Rightarrow> rat \<Rightarrow> bool \<Rightarrow> AssayerPayableEntity \<Rightarrow> payout_db
    \<Rightarrow> (payout_refusal, payout_db \<times> bool) result" where
  "reprice_payable env userId assayerId money rate hasPan p db =
    (if py_status p = AP_PAID then Inr (db, False)
     else if reprice_frozen db p
     then Inr (payable_log ''PAYABLE'' p ''PAYABLE_REPRICE_SKIPPED'' (Some (py_status p)) (Some (py_status p))
                 (Some ''Assignment fee changed'') userId db, False)
     else case assayerFeeTds env db assayerId (as_gross (assayer_side money)) rate (py_bookedOn p) (Some (py_id p)) of
       Inl err \<Rightarrow> Inl err
     | Inr d \<Rightarrow>
        (let p' = p\<lparr> py_base := as_base (assayer_side money), py_travel := as_travel (assayer_side money), py_tds := tds d,
                   py_total := roundMoney (as_gross (assayer_side money) - tds d), py_tdsRate := Some (Num rate),
                   py_tdsPanBasis := Some (if hasPan then ''PAN'' else ''NO_PAN'') \<rparr>
         in if \<not> fits_decimal (py_base p') \<or> \<not> fits_decimal (py_travel p') \<or> \<not> fits_decimal (py_tds p') \<or> \<not> fits_decimal (py_total p')
            then Inl (PayoutThrown ''update failed'')
            else let db1 = payable_log ''PAYABLE'' p ''PAYABLE_REPRICED'' None None (Some ''Assignment fee changed'') userId (save_payable p' db)
                 in Inr (case py_billId p of
                           None \<Rightarrow> db1
                         | Some i \<Rightarrow>
                            (case find_bill db i of
                               None \<Rightarrow> db1
                             | Some b \<Rightarrow> if bl_status b = AI_INVITED then recomputeAssayerInvoice userId ''re-priced'' b db1 else db1), True)))"

definition reprice_line :: "string \<Rightarrow> AssignmentMoney \<Rightarrow> BillingEntryEntity \<Rightarrow> payout_db \<Rightarrow> payout_db \<times> bool" where
  "reprice_line userId money e db =
    (if en_state e \<noteq> BS_UNBILLED then (db, False)
     else let c = client_side money;
              e' = e\<lparr> en_base := cl_base c, en_travel := cl_travel c, en_taxable := cl_taxable c, en_tax := cl_gst c,
                     en_tds := cl_tds c, en_total := cl_total c \<rparr>
          in (on_books (\<lambda>b. add_history [line_note e ''ENTRY_REPRICED'' None (Some ''Assignment fee changed'') userId]
                (save_entries [e'] b)) db, True))"

definition repriceAssignment :: "payout_env \<Rightarrow> string \<Rightarrow> string \<Rightarrow> payout_db \<Rightarrow> payout_db \<times> (payout_refusal, bool) result" where
  "repriceAssignment env assignmentId userId db = payout_tx env db ([],
    (case pe_job env assignmentId of
       None \<Rightarrow> Inr (db, False)
     | Some j \<Rightarrow>
        (let line = live_line db assignmentId;
             payable = liveFeePayable db assignmentId
         in if line = None \<and> payable = None then Inr (db, False)
            else case (nullish (map_option en_clientId line) (Option.bind payable py_clientId), jb_assayerId j) of
              (Some clientId, Some assayerId) \<Rightarrow>
                (case moneyContextFor env clientId assayerId (case line of None \<Rightarrow> 0 | Some e \<Rightarrow> en_adjustment e) of
                   (ctx, hasPan) \<Rightarrow>
                    (let money = assignmentMoney (jb_fee j) ctx in
                     if fee_from (fee money) = FS_NONE then Inr (db, False)
                     else case (case payable of None \<Rightarrow> Inr (db, False)
                                | Some p \<Rightarrow> reprice_payable env userId assayerId money (assayerTdsRate ctx) hasPan p db) of
                       Inl err \<Rightarrow> Inl err
                     | Inr (db1, touched) \<Rightarrow>
                        (case line of
                           None \<Rightarrow> Inr (db1, touched)
                         | Some e \<Rightarrow> (case reprice_line userId money e db1 of (db2, moved) \<Rightarrow> Inr (db2, touched \<or> moved)))))
            | _ \<Rightarrow> Inr (db, False))))"

section \<open>Claims and client lines\<close>

definition createReimbursementPayable :: "payout_env \<Rightarrow> string \<Rightarrow> string \<Rightarrow> string \<Rightarrow> js_number \<Rightarrow> string \<Rightarrow> payout_db
    \<Rightarrow> (payout_refusal, payout_db \<times> AssayerPayableEntity) result" where
  "createReimbursementPayable env expenseId assayerId assignmentId claimed userId db =
    (case claimed of
       NaN \<Rightarrow> Inl (PayoutThrown ''insert failed'')
     | Num x \<Rightarrow>
        (let amount = roundMoney x;
             clientId = Option.bind (pe_job env assignmentId) jb_clientId
         in insertPayable (payable_row env assayerId clientId assignmentId (Some expenseId) amount 0 0 amount None None) userId db))"

record line_patch =
  patch_adjustment :: "js_number option"
  patch_adjustmentReason :: "string option"
  patch_onHold :: "bool option"
  patch_holdReason :: "string option"

definition adjust_line :: "line_patch \<Rightarrow> BillingEntryEntity \<Rightarrow> (payout_refusal, BillingEntryEntity) result" where
  "adjust_line patch e =
    (case patch_adjustment patch of
       None \<Rightarrow> Inr e
     | Some NaN \<Rightarrow> Inl NotANumber
     | Some (Num x) \<Rightarrow>
        (let amount = roundMoney x;
             least = - roundMoney (en_base e + en_travel e);
             taxable = roundMoney (en_base e + en_travel e + amount);
             t = applyTaxes taxable (en_taxRate e) (en_tdsRate e)
         in if amount \<noteq> 0 \<and> trimmed (patch_adjustmentReason patch) = None then Inl SayWhyAdjusted
            else if amount < least then Inl (CreditExceedsLine \<bar>least\<bar>)
            else Inr (e\<lparr> en_adjustment := amount, en_taxable := taxable, en_tax := taxAmount t, en_tds := tdsAmount t,
                   en_total := totalAmount t \<rparr>)))"

definition hold_line :: "line_patch \<Rightarrow> BillingEntryEntity \<Rightarrow> (payout_refusal, BillingEntryEntity) result" where
  "hold_line patch e =
    (case patch_onHold patch of
       None \<Rightarrow> Inr e
     | Some h \<Rightarrow> if h \<and> trimmed (patch_holdReason patch) = None then Inl SayWhyLineHeld else Inr (e\<lparr> en_onHold := h \<rparr>))"

definition editClientLine :: "payout_env \<Rightarrow> string \<Rightarrow> line_patch \<Rightarrow> string \<Rightarrow> payout_db
    \<Rightarrow> payout_db \<times> (payout_refusal, BillingEntryEntity) result" where
  "editClientLine env assignmentId patch userId db = payout_tx env db ([],
    (case live_line db assignmentId of
       None \<Rightarrow> Inl NoLine
     | Some e \<Rightarrow>
        if en_state e \<noteq> BS_UNBILLED then Inl (LineNotOpen (en_state e))
        else case adjust_line patch e of
          Inl err \<Rightarrow> Inl err
        | Inr e1 \<Rightarrow>
           (case hold_line patch e1 of
              Inl err \<Rightarrow> Inl err
            | Inr e2 \<Rightarrow>
               (let noted = (if patch_adjustment patch = None then [] else [line_note e ''ENTRY_ADJUSTED'' None
                         (if en_adjustment e2 = 0 then None else trimmed (patch_adjustmentReason patch)) userId])
                     @ (if patch_onHold patch = None then [] else [line_note e ''ENTRY_HOLD_CHANGED'' None
                         (if en_onHold e2 then trimmed (patch_holdReason patch) else None) userId])
                in if noted = [] then Inr (db, e)
                   else Inr (on_books (\<lambda>b. add_history noted (save_entries [e2] b)) db, e2)))))"

section \<open>Histories of calls\<close>

datatype payout_call =
    Book payout_env string string
  | Reprice payout_env string string
  | EditLine payout_env string line_patch string
  | Reimburse payout_env string string string js_number string
  | OfficeApprove payout_env string "string option" string
  | FinalApprove payout_env string string
  | FinalReject payout_env string "string option" string
  | Hold payout_env string bool "string option" string
  | Void payout_env string "string option" string
  | Disburse payout_env string string "rat option" "string option" string
  | Reverse payout_env string "string option" string
  | Invite payout_env string string
  | Submit payout_env string string "(string \<times> string option) option"
  | ApproveBill payout_env payout_env string string
  | FinalApproveBill payout_env string string
  | FinalRejectBill payout_env string "string option" string
  | CancelBill payout_env string "string option" string
  | ReviseBill payout_env string "string option" string

fun payout_call_step :: "payout_call \<Rightarrow> payout_db \<Rightarrow> payout_db" where
  "payout_call_step (Book env a u) db = fst (bookAssignment env a u db)"
| "payout_call_step (Reprice env a u) db = fst (repriceAssignment env a u db)"
| "payout_call_step (EditLine env a p u) db = fst (editClientLine env a p u db)"
| "payout_call_step (Reimburse env x y a n u) db = fst (payout_tx env db ([], createReimbursementPayable env x y a n u db))"
| "payout_call_step (OfficeApprove env i r u) db = fst (approvePayout env i r u db)"
| "payout_call_step (FinalApprove env i u) db = fst (hodApprovePayout env i u db)"
| "payout_call_step (FinalReject env i r u) db = fst (hodRejectPayout env i r u db)"
| "payout_call_step (Hold env i h r u) db = fst (holdPayout env i h r u db)"
| "payout_call_step (Void env i r u) db = fst (voidPayable env i r u db)"
| "payout_call_step (Disburse env i ref a n u) db = fst (recordDisbursement env i ref a n u db)"
| "payout_call_step (Reverse env i r u) db = fst (reverseOutboundPayment env i r u db)"
| "payout_call_step (Invite env y u) db = fst (inviteAssayer env y u db)"
| "payout_call_step (Submit env y k b) db = fst (submitBill env y k b db)"
| "payout_call_step (ApproveBill env env' i u) db = fst (approveBill env env' i u db)"
| "payout_call_step (FinalApproveBill env i u) db = fst (hodApproveBill env i u db)"
| "payout_call_step (FinalRejectBill env i r u) db = fst (hodRejectBill env i r u db)"
| "payout_call_step (CancelBill env i r u) db = fst (cancelBill env i r u db)"
| "payout_call_step (ReviseBill env i r u) db = fst (reviseInvoice env i r u db)"

definition run_payouts :: "payout_call list \<Rightarrow> payout_db \<Rightarrow> payout_db" where
  "run_payouts calls db = fold payout_call_step calls db"

definition empty_payouts :: payout_db where
  "empty_payouts = \<lparr> po_books = no_books, po_payables = [], po_bills = [], po_payments = [] \<rparr>"

end
