(* ===== verification/Payout_Steps.thy ===== *)
theory Payout_Steps
  imports Payout_Booking
begin

text \<open>
  The calls as steps: what a call can do to the payables and the payments, each kind of change with the
  guards under which the code makes it, and the proof that every call is such a step. The flag says
  whether the segregation of duties is enforced.
\<close>

section \<open>What a row of a payable can become\<close>

definition figures_ok :: "AssayerPayableEntity \<Rightarrow> bool" where
  "figures_ok p \<longleftrightarrow> whole_paise (py_base p) \<and> whole_paise (py_travel p) \<and> whole_paise (py_tds p)
     \<and> fits_decimal (py_base p) \<and> fits_decimal (py_travel p) \<and> fits_decimal (py_tds p) \<and> fits_decimal (py_total p)
     \<and> py_total p = py_base p + py_travel p - py_tds p"

inductive payable_move :: "bool \<Rightarrow> AssayerPayableEntity \<Rightarrow> AssayerPayableEntity \<Rightarrow> bool" where
  relinked: "payable_move strict p (p\<lparr> py_billId := x \<rparr>)"
| held: "payable_move strict p (p\<lparr> py_onHold := h, py_holdReason := r \<rparr>)"
| priced: "py_status p = AP_PENDING \<Longrightarrow> py_expenseId p = None \<Longrightarrow> figures_ok q \<Longrightarrow>
    payable_move strict p (p\<lparr> py_base := py_base q, py_travel := py_travel q, py_tds := py_tds q, py_total := py_total q,
      py_tdsRate := r, py_tdsPanBasis := s \<rparr>)"
| office: "py_status p = AP_PENDING \<Longrightarrow>
    payable_move strict p (p\<lparr> py_status := AP_APPROVED, py_approvedBy := Some u, py_hodApprovedAt := None, py_hodApprovedBy := None,
      py_destination := d \<rparr>)"
| final: "py_status p = AP_APPROVED \<Longrightarrow> (strict \<Longrightarrow> py_approvedBy p \<noteq> Some u) \<Longrightarrow>
    payable_move strict p (p\<lparr> py_hodApprovedAt := Some n, py_hodApprovedBy := Some u \<rparr>)"
| sent_back: "py_status p = AP_APPROVED \<Longrightarrow> py_paid p \<le> 0 \<Longrightarrow>
    payable_move strict p ((back_to_office u why p)\<lparr> py_hodApprovedAt := None, py_hodApprovedBy := x \<rparr>)"
| refreshed: "payable_move strict p (p\<lparr> py_destination := d \<rparr>)"
| withdrawn: "py_status p = AP_APPROVED \<Longrightarrow>
    payable_move strict p (p\<lparr> py_destination := d, py_hodApprovedAt := None, py_hodApprovedBy := None \<rparr>)"
| voided: "py_status p \<noteq> AP_PAID \<Longrightarrow>
    payable_move strict p (p\<lparr> py_status := AP_VOIDED, py_onHold := False, py_holdReason := None \<rparr>)"

abbreviation payable_moves :: "bool \<Rightarrow> AssayerPayableEntity \<Rightarrow> AssayerPayableEntity \<Rightarrow> bool" where
  "payable_moves strict \<equiv> (payable_move strict)\<^sup>*\<^sup>*"

definition replaced_row :: "AssayerPayableEntity \<Rightarrow> AssayerPayableEntity list \<Rightarrow> AssayerPayableEntity list" where
  "replaced_row p ps = map (\<lambda>q. if py_id q = py_id p then p else q) ps"

definition undone :: "string \<Rightarrow> outbound_payment list \<Rightarrow> outbound_payment list" where
  "undone k qs = map (\<lambda>q. if op_id q = k then q\<lparr> op_isActive := False \<rparr> else q) qs"

text \<open>The row after a payment, and after a payment was taken back.\<close>

definition paid_row :: "outbound_payment \<Rightarrow> PayoutDestinationSnapshot option \<Rightarrow> AssayerPayableEntity \<Rightarrow> AssayerPayableEntity" where
  "paid_row q d p =
    (let paid = roundMoney (py_paid p + op_amount q);
         full = (py_total p - paid \<le> MONEY_EPSILON)
     in p\<lparr> py_destination := d, py_paid := paid, py_status := (if full then AP_PAID else py_status p),
           py_paidBy := (if full then Some (op_paidBy q) else py_paidBy p) \<rparr>)"

definition unpaid_row :: "rat \<Rightarrow> AssayerPayableEntity \<Rightarrow> AssayerPayableEntity" where
  "unpaid_row paid p =
    (if py_status p = AP_PAID \<and> MONEY_EPSILON < py_total p - paid
     then p\<lparr> py_paid := paid, py_status := AP_APPROVED, py_paidBy := None \<rparr> else p\<lparr> py_paid := paid \<rparr>)"

inductive payout_step :: "bool \<Rightarrow> payout_db \<Rightarrow> payout_db \<Rightarrow> bool" where
  moved: "list_all2 (payable_moves strict) (po_payables db) (po_payables db') \<Longrightarrow> po_payments db' = po_payments db \<Longrightarrow>
    payout_step strict db db'"
| booked: "py_id p \<notin> py_id ` set (po_payables db) \<Longrightarrow> figures_ok p \<Longrightarrow> py_status p = AP_PENDING \<Longrightarrow> py_paid p = 0 \<Longrightarrow>
    py_approvedBy p = None \<Longrightarrow> py_hodApprovedAt p = None \<Longrightarrow> po_payables db' = po_payables db @ [p] \<Longrightarrow>
    po_payments db' = po_payments db \<Longrightarrow> payout_step strict db db'"
| disbursed: "lockPayable db i = Some p \<Longrightarrow> py_status p = AP_APPROVED \<Longrightarrow> \<not> py_onHold p \<Longrightarrow> py_hodApprovedAt p \<noteq> None \<Longrightarrow>
    (strict \<Longrightarrow> py_approvedBy p \<noteq> Some (op_paidBy q)) \<Longrightarrow>
    op_payableId q = py_id p \<Longrightarrow> op_isActive q \<Longrightarrow> op_id q \<notin> op_id ` set (po_payments db) \<Longrightarrow>
    whole_paise (op_amount q) \<Longrightarrow> 0 < op_amount q \<Longrightarrow> fits_decimal (op_amount q) \<Longrightarrow>
    op_amount q - roundMoney (py_total p - py_paid p) \<le> MONEY_EPSILON \<Longrightarrow>
    fits_decimal (roundMoney (py_paid p + op_amount q)) \<Longrightarrow>
    po_payables db' = replaced_row (paid_row q d p) (po_payables db) \<Longrightarrow>
    po_payments db' = po_payments db @ [q] \<Longrightarrow> payout_step strict db db'"
| reversed: "List.find (\<lambda>q. op_id q = k) (po_payments db) = Some q \<Longrightarrow> op_isActive q \<Longrightarrow>
    lockPayable db (op_payableId q) = Some p \<Longrightarrow>
    payable_moves strict (unpaid_row (roundMoney (outbound_sum (undone k (po_payments db)) (py_id p))) p) p2 \<Longrightarrow>
    po_payables db' = replaced_row p2 (po_payables db) \<Longrightarrow> po_payments db' = undone k (po_payments db) \<Longrightarrow>
    payout_step strict db db'"

section \<open>Reading the tables after a write\<close>

lemma note_simps [simp]:
  "po_payables (on_books f db) = po_payables db" "po_bills (on_books f db) = po_bills db" "po_payments (on_books f db) = po_payments db"
  "po_payables (payable_log k p a x y r u db) = po_payables db" "po_bills (payable_log k p a x y r u db) = po_bills db"
  "po_payments (payable_log k p a x y r u db) = po_payments db"
  "po_payables (bill_log b a v w r u db) = po_payables db" "po_bills (bill_log b a v w r u db) = po_bills db"
  "po_payments (bill_log b a v w r u db) = po_payments db"
  "po_payables (payout_audit k i s t u db) = po_payables db" "po_bills (payout_audit k i s t u db) = po_bills db"
  "po_payments (payout_audit k i s t u db) = po_payments db"
  "po_payables (keep_notes ns db) = po_payables db" "po_bills (keep_notes ns db) = po_bills db"
  "po_payments (keep_notes ns db) = po_payments db"
  "po_payables (log_refresh p p' u db) = po_payables db" "po_bills (log_refresh p p' u db) = po_bills db"
  "po_payments (log_refresh p p' u db) = po_payments db"
  by (simp_all add: on_books_def payable_log_def bill_log_def payout_audit_def keep_notes_def log_refresh_def)

lemma write_simps [simp]:
  "po_payables (save_payable p db) = replaced_row p (po_payables db)" "po_bills (save_payable p db) = po_bills db"
  "po_payments (save_payable p db) = po_payments db"
  "po_payables (save_bill b db) = po_payables db" "po_payments (save_bill b db) = po_payments db"
  by (simp_all add: save_payable_def save_bill_def replaced_row_def)

lemma bill_write_simps [simp]:
  "po_payables (recomputeAssayerInvoice u y b db) = po_payables db" "po_payments (recomputeAssayerInvoice u y b db) = po_payments db"
  "po_payables (settleAssayerInvoiceIfPaid u i db) = po_payables db" "po_payments (settleAssayerInvoiceIfPaid u i db) = po_payments db"
  "po_payables (unsettleAssayerInvoice u y i db) = po_payables db" "po_payments (unsettleAssayerInvoice u y i db) = po_payments db"
  "po_payables (reconcileApprovedInvoiceAfterVoid u i db) = po_payables db"
  "po_payments (reconcileApprovedInvoiceAfterVoid u i db) = po_payments db"
  "po_payables (cancel_client_line u y p db) = po_payables db" "po_bills (cancel_client_line u y p db) = po_bills db"
  "po_payments (cancel_client_line u y p db) = po_payments db"
  by (simp_all add: recomputeAssayerInvoice_def settleAssayerInvoiceIfPaid_def unsettleAssayerInvoice_def
      reconcileApprovedInvoiceAfterVoid_def cancel_client_line_def Let_def split: option.split)

lemma lockPayable_Some: "lockPayable db i = Some p \<Longrightarrow> p \<in> set (po_payables db) \<and> py_id p = i"
  by (auto simp: lockPayable_def find_Some_iff)

lemma find_bill_Some: "find_bill db i = Some b \<Longrightarrow> b \<in> set (po_bills db) \<and> bl_id b = i"
  by (auto simp: find_bill_def find_Some_iff)


section \<open>Rows that moved\<close>

definition rows_ok :: "payout_db \<Rightarrow> bool" where
  "rows_ok db \<longleftrightarrow> distinct (map py_id (po_payables db)) \<and> (\<forall>p \<in> set (po_payables db). figures_ok p)"

definition rows_moved :: "bool \<Rightarrow> payout_db \<Rightarrow> payout_db \<Rightarrow> bool" where
  "rows_moved strict db db' \<longleftrightarrow> list_all2 (payable_moves strict) (po_payables db) (po_payables db') \<and> po_payments db' = po_payments db"

lemma move_id: "payable_move strict p p' \<Longrightarrow> py_id p' = py_id p"
  by (induction rule: payable_move.induct) (auto simp: back_to_office_def)

lemma moves_id: "payable_moves strict p p' \<Longrightarrow> py_id p' = py_id p"
  by (induction rule: rtranclp_induct) (auto dest: move_id)

lemma move_figures: "payable_move strict p p' \<Longrightarrow> figures_ok p \<Longrightarrow> figures_ok p'"
  by (induction rule: payable_move.induct) (auto simp: figures_ok_def back_to_office_def)

lemma moves_figures: "payable_moves strict p p' \<Longrightarrow> figures_ok p \<Longrightarrow> figures_ok p'"
  by (induction rule: rtranclp_induct) (auto dest: move_figures)

lemma moves_one: "payable_move strict p p' \<Longrightarrow> payable_moves strict p p'"
  by (rule r_into_rtranclp)

lemma rows_moved_refl [simp]: "rows_moved strict db db"
  by (simp add: rows_moved_def list.rel_refl)

lemma rows_moved_trans [trans]: "rows_moved strict a b \<Longrightarrow> rows_moved strict b c \<Longrightarrow> rows_moved strict a c"
  unfolding rows_moved_def using list_all2_trans [of "payable_moves strict" "payable_moves strict" "payable_moves strict"]
  by (metis rtranclp_trans)

lemma rows_moved_same:
  "po_payables db' = po_payables db \<Longrightarrow> po_payments db' = po_payments db \<Longrightarrow> rows_moved strict db db'"
  by (simp add: rows_moved_def list.rel_refl)

lemma rows_moved_cong:
  "rows_moved strict a b \<Longrightarrow> po_payables c = po_payables b \<Longrightarrow> po_payments c = po_payments b \<Longrightarrow> rows_moved strict a c"
  by (simp add: rows_moved_def)

lemma rows_moved_ok: "rows_moved strict db db' \<Longrightarrow> rows_ok db \<Longrightarrow> rows_ok db'"
proof -
  assume m: "rows_moved strict db db'" and ok: "rows_ok db"
  then have r: "list_all2 (payable_moves strict) (po_payables db) (po_payables db')" by (simp add: rows_moved_def)
  have "map py_id (po_payables db') = map py_id (po_payables db)"
    using r by (induction rule: list_all2_induct) (auto dest: moves_id)
  moreover have "\<forall>p \<in> set (po_payables db'). figures_ok p"
  proof -
    have "list_all2 (\<lambda>p q. figures_ok p \<longrightarrow> figures_ok q) (po_payables db) (po_payables db')"
      using r by (rule list_all2_mono) (blast intro: moves_figures)
    moreover have "\<forall>p \<in> set (po_payables db). figures_ok p" using ok by (simp add: rows_ok_def)
    ultimately show ?thesis by (induction rule: list_all2_induct) auto
  qed
  ultimately show "rows_ok db'" using ok by (simp add: rows_ok_def)
qed

lemma replaced_moves:
  assumes "distinct (map py_id ps)" "p \<in> set ps" "payable_moves strict p p'"
  shows "list_all2 (payable_moves strict) ps (replaced_row p' ps)"
proof -
  have "payable_moves strict q (if py_id q = py_id p' then p' else q)" if "q \<in> set ps" for q
    using assms that moves_id [OF assms(3)] by (auto simp: distinct_map dest: inj_onD)
  then show ?thesis by (simp add: replaced_row_def list.rel_map list_all2_same)
qed

lemma row_moved:
  "rows_ok db \<Longrightarrow> lockPayable db i = Some p \<Longrightarrow> payable_moves strict p p' \<Longrightarrow>
   po_payables db' = replaced_row p' (po_payables db) \<Longrightarrow> po_payments db' = po_payments db \<Longrightarrow> rows_moved strict db db'"
  using lockPayable_Some [of db i p] replaced_moves [of "po_payables db" p strict p'] by (simp add: rows_moved_def rows_ok_def)

lemma relink_moved: "rows_moved strict db (relink ls x db)"
  by (auto simp: rows_moved_def relink_def list.rel_map intro!: list.rel_refl_strong moves_one payable_move.relinked)

lemma moved_is_step: "rows_moved strict db db' \<Longrightarrow> payout_step strict db db'"
  by (auto simp: rows_moved_def intro: payout_step.moved)

lemma payout_step_cong:
  "payout_step strict db b \<Longrightarrow> po_payables c = po_payables b \<Longrightarrow> po_payments c = po_payments b \<Longrightarrow> payout_step strict db c"
  by (erule payout_step.cases) (auto intro: payout_step.intros)

lemma tx_cases:
  "(\<exists>db' v. snd w = Inr (db', v) \<and> fst (payout_tx env db w) = keep_notes (fst w) db')
   \<or> fst (payout_tx env db w) = keep_notes (fst w) db"
  by (cases w) (auto simp: payout_tx_def split: sum.splits option.splits)

lemma tx_step:
  assumes "\<And>db' v. snd w = Inr (db', v) \<Longrightarrow> payout_step strict db db'"
  shows "payout_step strict db (fst (payout_tx env db w))"
  using tx_cases [of w env db]
proof (elim disjE exE conjE)
  fix db' v assume "snd w = Inr (db', v)" "fst (payout_tx env db w) = keep_notes (fst w) db'"
  then show ?thesis using assms [of db' v] by (auto elim!: payout_step_cong)
next
  assume "fst (payout_tx env db w) = keep_notes (fst w) db"
  then show ?thesis by (intro moved_is_step rows_moved_same) simp_all
qed

lemma tx_moved:
  assumes "\<And>db' v. snd w = Inr (db', v) \<Longrightarrow> rows_moved strict db db'"
  shows "rows_moved strict db (fst (payout_tx env db w))"
  using tx_cases [of w env db]
proof (elim disjE exE conjE)
  fix db' v assume "snd w = Inr (db', v)" "fst (payout_tx env db w) = keep_notes (fst w) db'"
  then show ?thesis using assms [of db' v] by (auto elim!: rows_moved_cong)
next
  assume "fst (payout_tx env db w) = keep_notes (fst w) db"
  then show ?thesis by (intro rows_moved_same) simp_all
qed

section \<open>The parts of the calls\<close>

lemma hands_result:
  "two_hands env u other s = (ns, ok) \<Longrightarrow> ok \<Longrightarrow> be_sodMode (pe_billing env) = SOD_enforce \<Longrightarrow> u \<noteq> [] \<Longrightarrow> other \<noteq> Some u"
  using sod_result [of "pe_billing env" u other s no_books] by (auto simp: two_hands_def split: prod.splits)

lemma tds_whole: "whole_paise (tds (tds194jDeduction i))"
  by (simp add: tds194jDeduction_def Let_def whole_paise_round)

lemma fee_tds_whole: "assayerFeeTds env db a g r d x = Inr out \<Longrightarrow> whole_paise (tds out)"
  by (auto simp: assayerFeeTds_def Let_def tds_whole split: sum.splits if_splits)

lemma fits_range: "fits_decimal x \<Longrightarrow> money_range x"
  by (simp add: fits_decimal_def money_range_def)

lemma figures_exact:
  assumes "whole_paise b" "whole_paise t" "whole_paise w" "fits_decimal b" "fits_decimal t" "fits_decimal w"
  shows "roundMoney (b + t) = b + t" "roundMoney (b + t - w) = b + t - w"
  using assms by (auto intro!: roundMoney_exact paise_intros simp: fits_decimal_def money_range_def)

lemma recompute_cases:
  "recomputeTdsAtApproval env db p = Inr p' \<Longrightarrow> p' = p \<or>
     (\<exists>w r s. py_expenseId p = None \<and> whole_paise w \<and> fits_decimal w \<and> fits_decimal (roundMoney (roundMoney (py_base p + py_travel p) - w)) \<and> p' = retaxed w r s p)"
  by (fastforce simp: recomputeTdsAtApproval_def Let_def split: option.splits js_number.splits sum.splits if_splits dest: fee_tds_whole)

lemma recompute_moves:
  assumes "recomputeTdsAtApproval env db p = Inr p'" "figures_ok p" "py_status p = AP_PENDING"
  shows "payable_moves strict p p'"
  using recompute_cases [OF assms(1)]
proof (elim disjE exE conjE)
  fix w r s
  assume fee: "py_expenseId p = None" and w: "whole_paise w" "fits_decimal w" "fits_decimal (roundMoney (roundMoney (py_base p + py_travel p) - w))"
    and p': "p' = retaxed w r s p"
  note ex = figures_exact [of "py_base p" "py_travel p" w]
  have "figures_ok p'" using assms(2) w ex by (simp add: p' retaxed_def figures_ok_def)
  then have "payable_move strict p (p\<lparr> py_base := py_base p', py_travel := py_travel p', py_tds := py_tds p', py_total := py_total p',
      py_tdsRate := Some (Num r), py_tdsPanBasis := Some s \<rparr>)" using assms(3) fee by (intro payable_move.priced)
  then show ?thesis by (simp add: p' retaxed_def moves_one)
qed simp

lemma freeze_moves: "freeze_destination env p = Inr p' \<Longrightarrow> \<exists>d. p' = p\<lparr> py_destination := d \<rparr>"
  by (auto simp: freeze_destination_def Let_def split: option.splits if_splits intro: exI [of _ "py_destination p"])

lemma office_moved:
  assumes "office_approval env u r p db = Inr (db', v)" "rows_ok db" "lockPayable db i = Some p" "py_status p = AP_PENDING"
  shows "rows_moved strict db db'"
proof -
  obtain p1 p2 where f: "freeze_destination env p = Inr p1" and r: "recomputeTdsAtApproval env db p1 = Inr p2"
    and db': "po_payables db' = replaced_row (p2\<lparr> py_status := AP_APPROVED, py_approvedBy := Some u, py_hodApprovedAt := None,
        py_hodApprovedBy := None \<rparr>) (po_payables db)" "po_payments db' = po_payments db"
    using assms(1) by (auto simp: office_approval_def Let_def split: sum.splits)
  obtain d where p1: "p1 = p\<lparr> py_destination := d \<rparr>" using freeze_moves [OF f] by blast
  have ok: "figures_ok p" using assms lockPayable_Some by (auto simp: rows_ok_def)
  have "payable_moves strict p p1" unfolding p1 by (intro moves_one payable_move.refreshed)
  also have "payable_moves strict p1 p2"
    using r ok assms(4) by (intro recompute_moves) (auto simp: p1 figures_ok_def)
  also (rtranclp_trans) have "payable_moves strict p2 (p2\<lparr> py_status := AP_APPROVED, py_approvedBy := Some u, py_hodApprovedAt := None,
        py_hodApprovedBy := None, py_destination := py_destination p2 \<rparr>)"
  proof (intro moves_one payable_move.office)
    show "py_status p2 = AP_PENDING"
      using recompute_cases [OF r] assms(4) by (auto simp: p1 retaxed_def)
  qed
  finally (rtranclp_trans) show ?thesis using assms db' by (intro row_moved [OF assms(2,3)]) auto
qed

lemma approve_payable_moved:
  assumes "snd (approvePayableInTx env u bypass r i db) = Inr (db', v)" "rows_ok db"
  shows "rows_moved strict db db'"
proof -
  obtain p where p: "lockPayable db i = Some p" using assms(1) by (auto simp: approvePayableInTx_def split: option.splits)
  show ?thesis
  proof (cases "py_status p = AP_PENDING")
    case True
    then have "office_approval env u r p db = Inr (db', v)"
      using assms(1) p by (auto simp: approvePayableInTx_def split: if_splits prod.splits)
    then show ?thesis using assms(2) p True by (rule office_moved)
  qed (use assms p in \<open>auto simp: approvePayableInTx_def split: if_splits\<close>)
qed


definition enforced :: "bool \<Rightarrow> payout_env \<Rightarrow> string \<Rightarrow> bool" where
  "enforced strict env u \<longleftrightarrow> (strict \<longrightarrow> be_sodMode (pe_billing env) = SOD_enforce \<and> u \<noteq> [])"

lemma hod_approve_moved:
  assumes "snd (hodApprovePayableInTx env u via i db) = Inr (db', v)" "rows_ok db" "enforced strict env u"
  shows "rows_moved strict db db'"
proof -
  obtain p where p: "lockPayable db i = Some p" using assms(1) by (auto simp: hodApprovePayableInTx_def split: option.splits)
  obtain ns ok where h: "two_hands env u (py_approvedBy p) (py_id p) = (ns, ok)" by fastforce
  have "db' = db \<or> (py_status p = AP_APPROVED \<and> ok
      \<and> po_payables db' = replaced_row (p\<lparr> py_hodApprovedAt := Some (pe_now env), py_hodApprovedBy := Some u \<rparr>) (po_payables db)
      \<and> po_payments db' = po_payments db)"
    using assms(1) p h by (auto simp: hodApprovePayableInTx_def Let_def split: if_splits)
  then show ?thesis
  proof (elim disjE conjE)
    assume st: "py_status p = AP_APPROVED" and ok
      and db': "po_payables db' = replaced_row (p\<lparr> py_hodApprovedAt := Some (pe_now env), py_hodApprovedBy := Some u \<rparr>) (po_payables db)"
        "po_payments db' = po_payments db"
    have "payable_move strict p (p\<lparr> py_hodApprovedAt := Some (pe_now env), py_hodApprovedBy := Some u \<rparr>)"
      using st hands_result [OF h] \<open>ok\<close> assms(3) by (intro payable_move.final) (auto simp: enforced_def)
    then show ?thesis by (intro row_moved [OF assms(2) p moves_one db'])
  qed simp
qed

lemma find_replaced:
  "List.find (\<lambda>q. py_id q = i) ps = Some p \<Longrightarrow> py_id p' = i \<Longrightarrow> List.find (\<lambda>q. py_id q = i) (replaced_row p' ps) = Some p'"
  by (induction ps) (auto simp: replaced_row_def split: if_splits)

lemma release_cases:
  assumes "releaseFromAssayerInvoice u y p db = Inr (p1, db1)"
  shows "p1 = p \<and> db1 = db \<or>
    p1 = p\<lparr> py_billId := None \<rparr> \<and> po_payables db1 = replaced_row p1 (po_payables db) \<and> po_payments db1 = po_payments db"
  using assms unfolding releaseFromAssayerInvoice_def Let_def
  by (simp split: option.split_asm if_split_asm) auto

lemma release_moved:
  assumes "releaseFromAssayerInvoice u y p db = Inr (p1, db1)" "rows_ok db" "lockPayable db i = Some p"
  shows "rows_moved strict db db1 \<and> lockPayable db1 i = Some p1 \<and> (p1 = p \<or> p1 = p\<lparr> py_billId := None \<rparr>)"
  using release_cases [OF assms(1)]
proof (elim disjE conjE)
  assume c: "p1 = p\<lparr> py_billId := None \<rparr>" "po_payables db1 = replaced_row p1 (po_payables db)" "po_payments db1 = po_payments db"
  have "rows_moved strict db db1"
    using c by (intro row_moved [OF assms(2,3) moves_one [OF payable_move.relinked]]) auto
  moreover have "lockPayable db1 i = Some p1"
    using find_replaced [of i "po_payables db" p p1] assms(3) lockPayable_Some [OF assms(3)] c by (simp add: lockPayable_def)
  ultimately show ?thesis using c(1) by simp
qed (use assms in simp)

lemma refresh_cases:
  assumes "refreshPayoutDestination env p = Inr p'"
  shows "p' = p \<or> (\<exists>d. p' = p\<lparr> py_destination := d \<rparr>)
    \<or> py_status p = AP_APPROVED \<and> (\<exists>d. p' = p\<lparr> py_destination := d, py_hodApprovedAt := None, py_hodApprovedBy := None \<rparr>)"
proof (rule ccontr)
  assume n: "\<not> ?thesis"
  have "p' \<noteq> p" "\<And>d. p' \<noteq> p\<lparr> py_destination := d \<rparr>" using n by blast+
  moreover have "\<And>d. py_status p = AP_APPROVED \<Longrightarrow> p' \<noteq> p\<lparr> py_destination := d, py_hodApprovedAt := None, py_hodApprovedBy := None \<rparr>"
    using n by blast
  ultimately show False
    using assms unfolding refreshPayoutDestination_def Let_def
    by (simp split: option.split_asm if_split_asm) (metis)+
qed

lemma refresh_moves:
  "refreshPayoutDestination env p = Inr p' \<Longrightarrow> payable_moves strict p p' \<and> py_paid p' = py_paid p \<and> py_status p' = py_status p"
  by (drule refresh_cases) (auto intro: moves_one payable_move.refreshed payable_move.withdrawn)

lemma hold_work_moved:
  assumes "hold_work env h why u i db = Inr (db', v)" "rows_ok db"
  shows "rows_moved strict db db'"
proof -
  obtain p where p: "lockPayable db i = Some p" using assms(1) by (auto simp: hold_work_def split: option.splits)
  let ?held = "\<lambda>q. q\<lparr> py_onHold := h, py_holdReason := if h then Some why else None \<rparr>"
  show ?thesis
  proof (cases "db' = db")
    case False
    then obtain p1 db1 p3 where s: "(if h then releaseFromAssayerInvoice u ''held'' p db else Inr (p, db)) = Inr (p1, db1)"
      and r: "(if h then Inr (?held p1) else refreshPayoutDestination env (?held p1)) = Inr p3"
      and db': "po_payables db' = replaced_row p3 (po_payables db1)" "po_payments db' = po_payments db1"
      using assms(1) p unfolding hold_work_def Let_def
      by (simp split: if_split_asm sum.split_asm prod.split_asm) auto
    have a: "rows_moved strict db db1" "lockPayable db1 i = Some p1"
      using s release_moved [of u "''held''" p db p1 db1 i strict] assms p by (auto split: if_splits)
    have "payable_moves strict p1 (?held p1)" by (intro moves_one payable_move.held)
    also have "payable_moves strict (?held p1) p3" using r refresh_moves [of env _ p3 strict] by (auto split: if_splits)
    finally (rtranclp_trans) have "rows_moved strict db1 db'"
      by (intro row_moved [OF rows_moved_ok [OF a(1) assms(2)] a(2) _ db'])
    with a(1) show ?thesis by (rule rows_moved_trans)
  qed simp
qed

lemma hold_moved: "rows_ok db \<Longrightarrow> rows_moved strict db (fst (holdPayout env i h r u db))"
  unfolding holdPayout_def Let_def by (auto intro!: tx_moved intro: hold_work_moved)

lemma void_work_moved:
  assumes "void_work u why i db = Inr (db', v)" "rows_ok db"
  shows "rows_moved strict db db'"
proof -
  obtain p where p: "lockPayable db i = Some p" using assms(1) by (auto simp: void_work_def split: option.splits)
  show ?thesis
  proof (cases "db' = db")
    case False
    then obtain p1 db1 where s: "releaseFromAssayerInvoice u ''voided'' p db = Inr (p1, db1)" and st: "py_status p \<noteq> AP_PAID"
      and db': "po_payables db' = replaced_row (p1\<lparr> py_status := AP_VOIDED, py_onHold := False, py_holdReason := None \<rparr>) (po_payables db1)"
        "po_payments db' = po_payments db1"
      using assms(1) p by (auto simp: void_work_def Let_def split: if_splits sum.splits option.splits)
    have a: "rows_moved strict db db1" "lockPayable db1 i = Some p1" "py_status p1 \<noteq> AP_PAID"
      using release_moved [OF s assms(2) p, of strict] st by auto
    have "rows_moved strict db1 db'"
      by (rule row_moved [OF rows_moved_ok [OF a(1) assms(2)] a(2) moves_one [OF payable_move.voided [OF a(3)]] db'])
    with a(1) show ?thesis by (rule rows_moved_trans)
  qed simp
qed

lemma void_moved: "rows_ok db \<Longrightarrow> rows_moved strict db (fst (voidPayable env i r u db))"
  unfolding voidPayable_def Let_def by (auto intro!: tx_moved intro: void_work_moved)

lemma reject_work_moved:
  assumes "reject_work why u i db = Inr (db', v)" "rows_ok db"
  shows "rows_moved strict db db'"
proof -
  obtain p where p: "lockPayable db i = Some p" "py_status p = AP_APPROVED" "\<not> 0 < py_paid p" "py_hodApprovedAt p = None"
    and db': "po_payables db' = replaced_row (back_to_office u why p) (po_payables db)" "po_payments db' = po_payments db"
    using assms(1) by (auto simp: reject_work_def Let_def split: option.splits if_splits)
  have "back_to_office u why p = (back_to_office u why p)\<lparr> py_hodApprovedAt := None, py_hodApprovedBy := py_hodApprovedBy p \<rparr>"
    using p(4) by (simp add: back_to_office_def)
  moreover have "payable_move strict p ((back_to_office u why p)\<lparr> py_hodApprovedAt := None, py_hodApprovedBy := py_hodApprovedBy p \<rparr>)"
    using p by (intro payable_move.sent_back) auto
  ultimately have "payable_move strict p (back_to_office u why p)" by simp
  then show ?thesis by (intro row_moved [OF assms(2) p(1) moves_one db'])
qed

lemma final_reject_moved: "rows_ok db \<Longrightarrow> rows_moved strict db (fst (hodRejectPayout env i r u db))"
  unfolding hodRejectPayout_def by (auto split: option.split intro!: tx_moved intro: reject_work_moved)


section \<open>Bills and their lines\<close>

lemma approve_lines_moved:
  "snd (approve_lines env u ls db) = Inr (db', v) \<Longrightarrow> rows_ok db \<Longrightarrow> rows_moved strict db db'"
proof (induction ls arbitrary: db v)
  case (Cons l ls)
  show ?case
  proof (cases "py_status l = AP_PENDING")
    case True
    obtain ns r where one: "approvePayableInTx env u True None (py_id l) db = (ns, r)" by fastforce
    obtain db1 saved moved where r: "r = Inr (db1, saved, moved)"
      using Cons.prems(1) True one by (cases r) auto
    obtain ns' r' where rest: "approve_lines env u ls db1 = (ns', r')" by fastforce
    obtain v' where r': "r' = Inr (db', v')" using Cons.prems(1) True one r rest by (cases r') auto
    have a: "rows_moved strict db db1"
      using approve_payable_moved [of env u True None "py_id l" db db1 "(saved, moved)" strict] one r Cons.prems(2) by simp
    have "rows_moved strict db1 db'" using Cons.IH [of db1 v'] rest r' rows_moved_ok [OF a Cons.prems(2)] by simp
    with a show ?thesis by (rule rows_moved_trans)
  qed (use Cons in auto)
qed simp

lemma hod_approve_lines_moved:
  "snd (hod_approve_lines env u ls db) = Inr (db', v) \<Longrightarrow> rows_ok db \<Longrightarrow> enforced strict env u \<Longrightarrow> rows_moved strict db db'"
proof (induction ls arbitrary: db)
  case (Cons l ls)
  show ?case
  proof (cases "py_status l = AP_APPROVED \<and> py_hodApprovedAt l = None")
    case True
    obtain ns r where one: "hodApprovePayableInTx env u True (py_id l) db = (ns, r)" by fastforce
    obtain db1 saved where r: "r = Inr (db1, saved)" using Cons.prems(1) True one by (cases r) auto
    obtain ns' r' where rest: "hod_approve_lines env u ls db1 = (ns', r')" by fastforce
    have r': "r' = Inr (db', v)" using Cons.prems(1) True one r rest by (cases r') auto
    have a: "rows_moved strict db db1"
      using hod_approve_moved [of env u True "py_id l" db db1 saved strict] one r Cons.prems by simp
    have "rows_moved strict db1 db'" using Cons.IH [of db1] rest r' rows_moved_ok [OF a Cons.prems(2)] Cons.prems(3) by simp
    with a show ?thesis by (rule rows_moved_trans)
  qed (use Cons in auto)
qed simp

lemma retax_line_moved:
  assumes "reTaxDueLine env u i db = Inr (db', v)" "rows_ok db"
  shows "rows_moved strict db db'"
proof -
  obtain p where p: "lockPayable db i = Some p" using assms(1) by (auto simp: reTaxDueLine_def split: option.splits)
  show ?thesis
  proof (cases "py_status p = AP_PENDING")
    case True
    then obtain p' where r: "recomputeTdsAtApproval env db p = Inr p'"
      and db': "po_payables db' = po_payables db \<or> po_payables db' = replaced_row p' (po_payables db)" "po_payments db' = po_payments db"
      using assms(1) p by (auto simp: reTaxDueLine_def Let_def split: sum.splits if_splits)
    have "figures_ok p" using assms(2) lockPayable_Some [OF p] by (simp add: rows_ok_def)
    then have m: "payable_moves strict p p'" using r True by (intro recompute_moves)
    show ?thesis using db' row_moved [OF assms(2) p m] rows_moved_same by blast
  qed (use assms p in \<open>auto simp: reTaxDueLine_def\<close>)
qed

lemma retax_lines_moved:
  "retax_lines env u ls db = Inr (db', v) \<Longrightarrow> rows_ok db \<Longrightarrow> rows_moved strict db db'"
proof (induction ls arbitrary: db v)
  case (Cons l ls)
  obtain db1 l' v' where one: "(if py_status l = AP_PENDING then reTaxDueLine env u (py_id l) db else Inr (db, l)) = Inr (db1, l')"
    and rest: "retax_lines env u ls db1 = Inr (db', v')"
    using Cons.prems(1) by (auto split: sum.splits if_splits)
  have a: "rows_moved strict db db1" using one retax_line_moved [of env u "py_id l" db db1 l' strict] Cons.prems(2) by (auto split: if_splits)
  have "rows_moved strict db1 db'" using Cons.IH [OF rest] rows_moved_ok [OF a Cons.prems(2)] by simp
  with a show ?case by (rule rows_moved_trans)
qed simp

lemma send_line_back_move:
  "py_status p = AP_APPROVED \<Longrightarrow> py_paid p \<le> 0 \<Longrightarrow>
   payable_moves strict p ((back_to_office u y p)\<lparr> py_hodApprovedAt := None, py_hodApprovedBy := None \<rparr>)"
  by (intro moves_one payable_move.sent_back)

lemma send_lines_back_moved:
  "rows_ok db \<Longrightarrow> distinct (map py_id ls) \<Longrightarrow> (\<And>l. l \<in> set ls \<Longrightarrow> l \<in> set (po_payables db) \<and> py_paid l \<le> 0) \<Longrightarrow>
   rows_moved strict db (send_lines_back u y ls db)"
proof (induction ls arbitrary: db)
  case (Cons l ls)
  let ?l = "(back_to_office u y l)\<lparr> py_hodApprovedAt := None, py_hodApprovedBy := None \<rparr>"
  define db1 where "db1 = (if py_status l \<noteq> AP_APPROVED then db
     else payable_log ''PAYABLE'' l ''PAYABLE_HOD_REJECTED'' (Some AP_APPROVED) (Some AP_PENDING) (Some y) u (save_payable ?l db))"
  have l: "l \<in> set (po_payables db)" "py_paid l \<le> 0" using Cons.prems(3) by auto
  have a: "rows_moved strict db db1"
  proof (cases "py_status l = AP_APPROVED")
    case True
    have "list_all2 (payable_moves strict) (po_payables db) (replaced_row ?l (po_payables db))"
      using Cons.prems(1) l send_line_back_move [OF True l(2)] by (intro replaced_moves) (auto simp: rows_ok_def)
    then show ?thesis by (simp add: rows_moved_def db1_def True)
  qed (simp add: db1_def)
  have kept: "m \<in> set (po_payables db1)" if "m \<in> set ls" for m
  proof -
    have "m \<in> set (po_payables db)" "py_id m \<in> py_id ` set ls" using that Cons.prems(3) by auto
    then have "m \<in> set (po_payables db)" "py_id m \<noteq> py_id l" using Cons.prems(2) by auto
    then show ?thesis by (auto simp: db1_def replaced_row_def back_to_office_def image_iff intro!: bexI [of _ m])
  qed
  have "rows_moved strict db1 (send_lines_back u y ls db1)"
    using Cons.prems kept rows_moved_ok [OF a Cons.prems(1)] by (intro Cons.IH) auto
  with a have "rows_moved strict db (send_lines_back u y ls db1)" by (rule rows_moved_trans)
  then show ?case by (simp add: db1_def)
qed simp

lemma supersede_moved: "rows_moved strict db (supersede b r keep gone db)"
proof -
  let ?a = "(save_bill (b\<lparr> bl_status := AI_SUPERSEDED \<rparr>) db)\<lparr> po_bills := po_bills (save_bill (b\<lparr> bl_status := AI_SUPERSEDED \<rparr>) db) @ [r] \<rparr>"
  have "rows_moved strict db ?a" by (intro rows_moved_same) simp_all
  also have "rows_moved strict ?a (relink keep (Some (bl_id r)) ?a)" by (rule relink_moved)
  also have "rows_moved strict (relink keep (Some (bl_id r)) ?a) (relink gone None (relink keep (Some (bl_id r)) ?a))" by (rule relink_moved)
  finally show ?thesis by (rule rows_moved_cong) (simp_all add: supersede_def Let_def)
qed

lemma revise_result:
  assumes "reviseInTx env i u y ls db = Inr (db', v)"
  obtains b keep gone where "find_bill db i = Some b" "bl_status b \<in> {AI_INVITED, AI_SUBMITTED}"
    "keep = filter revisable (nullish_value ls (sorted_lines db i))"
    "gone = filter (\<lambda>l. \<not> revisable l) (nullish_value ls (sorted_lines db i))"
    "keep \<noteq> []" "v = revised_bill env b u keep" "insertable v (save_bill (b\<lparr> bl_status := AI_SUPERSEDED \<rparr>) db)"
    "open_bill (save_bill (b\<lparr> bl_status := AI_SUPERSEDED \<rparr>) db) (bl_assayerId b) = None"
    "po_payables db' = po_payables (supersede b v keep gone db)" "po_bills db' = po_bills (supersede b v keep gone db)"
    "po_payments db' = po_payments (supersede b v keep gone db)"
proof -
  obtain b where b: "find_bill db i = Some b" using assms by (auto simp: reviseInTx_def split: option.splits)
  show thesis
    by (rule that [OF b _ refl refl]) (use assms b in \<open>auto simp: reviseInTx_def Let_def split: if_splits\<close>)
qed

lemma revise_moved:
  assumes "reviseInTx env i u y ls db = Inr (db', v)"
  shows "rows_moved strict db db'"
  by (rule revise_result [OF assms]) (erule rows_moved_cong [OF supersede_moved], assumption)

end
