(* ===== verification/Payout_Calls.thy ===== *)
theory Payout_Calls
  imports Payout_Steps
begin

text \<open>
  Every call of the assayer's side is a step of \<open>payout_step\<close>: the calls on bills move rows, a booking
  appends one, a payment and its reversal are steps of their own.
\<close>

section \<open>Calls on bills\<close>

lemma invite_moved: "rows_moved strict db (fst (inviteAssayer env a u db))"
  unfolding inviteAssayer_def Let_def
proof (rule tx_moved, goal_cases)
  case (1 db' v)
  let ?ls = "sort_key py_id (filter (\<lambda>p. py_assayerId p = a \<and> bill_eligible p) (po_payables db))"
  let ?b = "new_bill env (pe_number env) a u 1 None ?ls"
  have "po_payables db' = po_payables (relink ?ls (Some (bl_id ?b)) (db\<lparr> po_bills := po_bills db @ [?b] \<rparr>))"
    "po_payments db' = po_payments db"
    using 1 by (auto simp: relink_def split: if_splits option.splits)
  moreover have "rows_moved strict (db\<lparr> po_bills := po_bills db @ [?b] \<rparr>) (relink ?ls (Some (bl_id ?b)) (db\<lparr> po_bills := po_bills db @ [?b] \<rparr>))"
    by (rule relink_moved)
  ultimately show ?case by (simp add: rows_moved_def)
qed

lemma submit_moved: "rows_moved strict db (fst (submitBill env a k b db))"
  unfolding submitBill_def Let_def
  by (auto intro!: tx_moved rows_moved_same split: option.splits if_splits)

lemma settle_rows:
  "rows_moved strict db (settleAssayerInvoiceIfPaid u i (payout_audit k e s t w (bill_log b a v x r y (save_bill b' db))))"
  by (rule rows_moved_same) simp_all

lemma bill_approve_moved:
  assumes "snd (bill_approve_work env i u db) = Inr (db', v)" "rows_ok db"
  shows "rows_moved strict db db'"
proof -
  obtain b where b: "find_bill db i = Some b" using assms(1) by (auto simp: bill_approve_work_def split: option.splits)
  obtain ns r where a: "approve_lines env u (sorted_lines db i) db = (ns, r)" by fastforce
  have "db' = db \<or> (\<exists>db1 w. r = Inr (db1, w) \<and> po_payables db' = po_payables db1 \<and> po_payments db' = po_payments db1)"
    using assms(1) b a by (auto simp: bill_approve_work_def Let_def split: if_splits sum.splits)
  then show ?thesis using approve_lines_moved [of env u "sorted_lines db i" db] a assms(2) by (auto intro: rows_moved_cong)
qed

lemma bill_hod_moved:
  assumes "snd (bill_hod_work env i u db) = Inr (db', v)" "rows_ok db" "enforced strict env u"
  shows "rows_moved strict db db'"
proof -
  obtain b where b: "find_bill db i = Some b" using assms(1) by (auto simp: bill_hod_work_def split: option.splits)
  obtain ns ok where h: "two_hands env u (bl_approvedBy b) i = (ns, ok)" by fastforce
  obtain ns' r where a: "hod_approve_lines env u (sorted_lines db i) db = (ns', r)" by fastforce
  have "db' = db \<or> (\<exists>db1 w. r = Inr (db1, w) \<and> po_payables db' = po_payables db1 \<and> po_payments db' = po_payments db1)"
    using assms(1) b a h by (auto simp: bill_hod_work_def Let_def split: if_splits sum.splits)
  then show ?thesis using hod_approve_lines_moved [of env u "sorted_lines db i" db] a assms(2,3) by (auto intro: rows_moved_cong)
qed

lemma distinct_lines: "distinct (map py_id (po_payables db)) \<Longrightarrow> distinct (map py_id (sorted_lines db i))"
  by (simp add: sorted_lines_def bill_lines_def distinct_map inj_on_def)

lemma lines_subset: "l \<in> set (sorted_lines db i) \<longleftrightarrow> l \<in> set (po_payables db) \<and> py_billId l = Some i"
  by (auto simp: sorted_lines_def bill_lines_def)

lemma final_reject_bill_moved:
  assumes "rows_ok db"
  shows "rows_moved strict db (fst (hodRejectBill env i r u db))"
  unfolding hodRejectBill_def Let_def
proof (split option.split, intro conjI allI impI tx_moved, goal_cases)
  case (1 db' v)
  obtain b where b: "find_bill db i = Some b" using 1 by (auto split: option.splits)
  have none: "\<not> list_ex (\<lambda>l. py_status l = AP_PAID \<or> 0 < py_paid l) (sorted_lines db i)"
    and db': "po_payables db' = po_payables (send_lines_back u (js_trim (nullish_value r [])) (sorted_lines db i) db)"
      "po_payments db' = po_payments (send_lines_back u (js_trim (nullish_value r [])) (sorted_lines db i) db)"
    using 1 b by (auto split: if_splits option.splits)
  have "rows_moved strict db (send_lines_back u (js_trim (nullish_value r [])) (sorted_lines db i) db)"
    using assms none by (intro send_lines_back_moved distinct_lines) (auto simp: rows_ok_def lines_subset list_ex_iff not_less)
  then show ?case by (rule rows_moved_cong) (use db' in simp_all)
qed simp

lemma cancel_bill_moved: "rows_moved strict db (fst (cancelBill env i r u db))"
  unfolding cancelBill_def Let_def
proof (split if_split, intro conjI impI tx_moved, goal_cases)
  case (2 db' v)
  then have "db' = db \<or> (po_payables db' = po_payables (relink (bill_lines db i) None db) \<and> po_payments db' = po_payments db)"
    by (auto simp: relink_def split: option.splits if_splits)
  then show ?case using relink_moved [of strict db "bill_lines db i" None] by (auto simp: rows_moved_def list.rel_refl)
qed simp

lemma revise_call_moved: "rows_moved strict db (fst (reviseInvoice env i r u db))"
  unfolding reviseInvoice_def Let_def by (auto intro!: tx_moved intro: revise_moved)

lemma tax_change_moved:
  assumes "sendBackForTaxChange env i u db = Inr (db', v)" "rows_ok db"
  shows "rows_moved strict db db'"
proof -
  obtain db1 ls where r: "retax_lines env u (sorted_lines db i) db = Inr (db1, ls)"
    and "reviseInTx env i u ''tax was recalculated'' (Some ls) db1 = Inr (db', v)"
    using assms(1) by (auto simp: sendBackForTaxChange_def split: sum.splits)
  then show ?thesis using retax_lines_moved [OF r assms(2)] revise_moved [of env i u _ "Some ls" db1 db' v strict] rows_moved_trans by blast
qed

lemma approve_bill_moved:
  assumes "rows_ok db"
  shows "rows_moved strict db (fst (approveBill env env' i u db))"
proof -
  obtain db1 out where first: "payout_tx env db (bill_approve_work env i u db) = (db1, out)" by fastforce
  have a: "rows_moved strict db db1"
    using tx_moved [of "bill_approve_work env i u db" strict db env] bill_approve_moved [OF _ assms] first by auto
  obtain db2 out' where second: "payout_tx env' db1 ([], sendBackForTaxChange env' i u db1) = (db2, out')" by fastforce
  have "rows_moved strict db1 db2"
    using tx_moved [of "([], sendBackForTaxChange env' i u db1)" strict db1 env'] tax_change_moved [OF _ rows_moved_ok [OF a assms]] second
    by auto
  then have "rows_moved strict db db2" using a rows_moved_trans by blast
  then show ?thesis using a first second by (auto simp: approveBill_def split: sum.split payout_refusal.split)
qed

section \<open>Calls that book and price\<close>

lemma carve_paise: "whole_paise (fst (carve a ctx x)) \<and> whole_paise (snd (carve a ctx x))"
  by (simp add: carve_def Let_def whole_paise_round split: option.split)

lemma side_facts:
  "whole_paise (as_base (assayer_side (assignmentMoney a ctx)))"
  "whole_paise (as_travel (assayer_side (assignmentMoney a ctx)))"
  "as_gross (assayer_side (assignmentMoney a ctx))
     = roundMoney (as_base (assayer_side (assignmentMoney a ctx)) + as_travel (assayer_side (assignmentMoney a ctx)))"
  using sides_of_money [of a ctx _ _, OF surjective_pairing] carve_paise [of a ctx "fee_amount (assignmentFee a)"] by simp_all

lemma priced_figures:
  assumes "s = assayer_side (assignmentMoney a ctx)" "whole_paise w" "fits_decimal (as_base s)" "fits_decimal (as_travel s)" "fits_decimal w"
  shows "roundMoney (as_gross s - w) = as_base s + as_travel s - w"
  using figures_exact [of "as_base s" "as_travel s" w] assms by (simp add: side_facts)

lemma insert_result:
  assumes "insertPayable p u db = Inr (db', q)"
  shows "q = p \<and> po_payables db' = po_payables db @ [p] \<and> po_bills db' = po_bills db \<and> po_payments db' = po_payments db
    \<and> py_id p \<notin> py_id ` set (po_payables db) \<and> fits_decimal (py_base p) \<and> fits_decimal (py_travel p) \<and> fits_decimal (py_tds p)
    \<and> fits_decimal (py_total p)"
  using assms by (auto simp: insertPayable_def split: if_splits)

lemma insert_step:
  assumes "insertPayable p u db = Inr (db', q)" "whole_paise (py_base p)" "whole_paise (py_travel p)" "whole_paise (py_tds p)"
    "fits_decimal (py_base p) \<Longrightarrow> fits_decimal (py_travel p) \<Longrightarrow> fits_decimal (py_tds p) \<Longrightarrow>
       py_total p = py_base p + py_travel p - py_tds p"
    "py_status p = AP_PENDING" "py_paid p = 0" "py_approvedBy p = None" "py_hodApprovedAt p = None"
  shows "payout_step strict db db'"
  using insert_result [OF assms(1)] assms by (intro payout_step.booked [of p]) (auto simp: figures_ok_def)

lemma client_line_rows:
  "insertClientLine e u db = Inr db' \<Longrightarrow> po_payables db' = po_payables db \<and> po_bills db' = po_bills db \<and> po_payments db' = po_payments db"
  by (auto simp: insertClientLine_def split: if_splits)

lemma book_legs_step:
  assumes "book_legs env a y c f u db = Inr (db', v)"
  shows "payout_step strict db db'"
proof -
  obtain ctx hasPan where ctx: "moneyContextFor env c y 0 = (ctx, hasPan)" by fastforce
  let ?m = "assignmentMoney f ctx"
  have "db' = db \<or> (\<exists>db1 p. (liveFeePayable db a = Some p \<and> db1 = db \<or>
        (\<exists>d. assayerFeeTds env db y (as_gross (assayer_side ?m)) (assayerTdsRate ctx) (be_today (pe_billing env)) None = Inr d
          \<and> insertPayable (fee_payable env y c a (assayer_side ?m) d (assayerTdsRate ctx) hasPan) u db = Inr (db1, p)))
      \<and> po_payables db' = po_payables db1 \<and> po_payments db' = po_payments db1)"
    using assms ctx unfolding book_legs_def Let_def
    by (simp split: if_split_asm option.split_asm sum.split_asm prod.split_asm) (auto dest: client_line_rows)
  then show ?thesis
  proof (elim disjE exE conjE)
    fix db1 p d
    assume d: "assayerFeeTds env db y (as_gross (assayer_side ?m)) (assayerTdsRate ctx) (be_today (pe_billing env)) None = Inr d"
      and ins: "insertPayable (fee_payable env y c a (assayer_side ?m) d (assayerTdsRate ctx) hasPan) u db = Inr (db1, p)"
      and rows: "po_payables db' = po_payables db1" "po_payments db' = po_payments db1"
    have "payout_step strict db db1"
      using fee_tds_whole [OF d] priced_figures [OF refl, of "tds d" f ctx] side_facts(1,2) [of f ctx]
      by (intro insert_step [OF ins]) (simp_all add: fee_payable_def payable_row_def)
    then show ?thesis using rows by (rule payout_step_cong)
  qed (auto intro: moved_is_step rows_moved_same)
qed

lemma book_step: "payout_step strict db (fst (bookAssignment env a u db))"
  unfolding bookAssignment_def
proof (rule tx_step, goal_cases)
  case (1 db' v)
  then have "db' = db \<or> (\<exists>y c f. book_legs env a y c f u db = Inr (db', v))"
    by (auto split: option.splits if_splits)
  then show ?case by (auto intro: book_legs_step moved_is_step)
qed

lemma reimburse_step: "payout_step strict db (fst (payout_tx env db ([], createReimbursementPayable env x y a n u db)))"
proof (rule tx_step, goal_cases)
  case (1 db' v)
  then obtain r where ins: "insertPayable (payable_row env y (Option.bind (pe_job env a) jb_clientId) a (Some x) (roundMoney r) 0 0
      (roundMoney r) None None) u db = Inr (db', v)"
    by (auto simp: createReimbursementPayable_def Let_def split: js_number.splits)
  show ?case by (rule insert_step [OF ins]) (simp_all add: payable_row_def whole_paise_round)
qed

lemma reprice_payable_moved:
  assumes "reprice_payable env u y (assignmentMoney f ctx) r h p db = Inr (db', v)" "rows_ok db" "liveFeePayable db a = Some p"
  shows "rows_moved strict db db'"
proof (cases "po_payables db' = po_payables db \<and> po_payments db' = po_payments db")
  case True
  then show ?thesis by (intro rows_moved_same) auto
next
  case False
  let ?s = "assayer_side (assignmentMoney f ctx)"
  have st: "py_status p = AP_PENDING"
    using assms(1) False by (auto simp: reprice_payable_def reprice_frozen_def split: if_splits option.splits)
  obtain d where d: "assayerFeeTds env db y (as_gross ?s) r (py_bookedOn p) (Some (py_id p)) = Inr d"
    using assms(1) False by (auto simp: reprice_payable_def split: if_splits sum.splits)
  define p' where "p' = p\<lparr> py_base := as_base ?s, py_travel := as_travel ?s, py_tds := tds d, py_total := roundMoney (as_gross ?s - tds d),
      py_tdsRate := Some (Num r), py_tdsPanBasis := Some (if h then ''PAN'' else ''NO_PAN'') \<rparr>"
  have fits: "fits_decimal (py_base p')" "fits_decimal (py_travel p')" "fits_decimal (py_tds p')" "fits_decimal (py_total p')"
    and db': "po_payables db' = replaced_row p' (po_payables db)" "po_payments db' = po_payments db"
    using assms(1) False d unfolding reprice_payable_def Let_def p'_def
    by (auto split: if_split_asm option.split_asm)
  have q: "figures_ok p'"
    using fits priced_figures [OF refl, of "tds d" f ctx] fee_tds_whole [OF d] side_facts(1,2) [of f ctx]
    by (simp add: figures_ok_def p'_def)
  have priced: "p' = p\<lparr> py_base := py_base p', py_travel := py_travel p', py_tds := py_tds p', py_total := py_total p',
      py_tdsRate := Some (Num r), py_tdsPanBasis := Some (if h then ''PAN'' else ''NO_PAN'') \<rparr>" by (simp add: p'_def)
  have fee: "p \<in> set (po_payables db)" "py_expenseId p = None"
    using assms(3) by (auto simp: liveFeePayable_def live_fee_def find_Some_iff)
  have m: "payable_moves strict p p'" using payable_move.priced [OF st fee(2) q] priced moves_one by metis
  then have "list_all2 (payable_moves strict) (po_payables db) (po_payables db')"
    unfolding db' using assms(2) m fee(1) by (intro replaced_moves) (auto simp: rows_ok_def)
  then show ?thesis using db' by (simp add: rows_moved_def)
qed

lemma reprice_line_rows:
  "reprice_line u m e db = (db', v) \<Longrightarrow> po_payables db' = po_payables db \<and> po_bills db' = po_bills db \<and> po_payments db' = po_payments db"
  by (auto simp: reprice_line_def Let_def split: if_splits)

lemma reprice_moved:
  assumes "rows_ok db"
  shows "rows_moved strict db (fst (repriceAssignment env a u db))"
  unfolding repriceAssignment_def Let_def
proof (rule tx_moved, goal_cases)
  case (1 db' v)
  then have "db' = db \<or> (\<exists>y f ctx r h db1. (liveFeePayable db a = None \<and> db1 = db \<or>
      (\<exists>p w. liveFeePayable db a = Some p \<and> reprice_payable env u y (assignmentMoney f ctx) r h p db = Inr (db1, w)))
      \<and> po_payables db' = po_payables db1 \<and> po_payments db' = po_payments db1)"
    by (simp split: if_split_asm option.split_asm sum.split_asm prod.split_asm) (auto dest!: reprice_line_rows, (metis)+)
  then show ?case
  proof (elim disjE exE conjE)
    fix y f ctx r h db1 p w
    assume "liveFeePayable db a = Some p" "reprice_payable env u y (assignmentMoney f ctx) r h p db = Inr (db1, w)"
      and rows: "po_payables db' = po_payables db1" "po_payments db' = po_payments db1"
    then have "rows_moved strict db db1" using reprice_payable_moved assms by blast
    then show ?thesis using rows by (rule rows_moved_cong)
  qed (auto intro: rows_moved_same)
qed

lemma edit_line_moved: "rows_moved strict db (fst (editClientLine env a pt u db))"
  unfolding editClientLine_def Let_def
  by (rule tx_moved) (auto intro!: rows_moved_same split: option.splits sum.splits if_splits)

section \<open>Money out and back\<close>

lemma pay_destination_cases: "pay_destination env p = Inr p1 \<Longrightarrow> \<exists>d. p1 = p\<lparr> py_destination := d \<rparr>"
  by (auto simp: pay_destination_def split: if_splits option.splits intro: exI [of _ "py_destination p"])

lemma disburse_result:
  assumes "disburse env ref asked n u (p\<lparr> py_destination := d \<rparr>) db = Inr (db', q)"
  shows "op_payableId q = py_id p \<and> op_isActive q \<and> op_id q \<notin> op_id ` set (po_payments db) \<and> op_paidBy q = u \<and> op_reference q = ref
    \<and> whole_paise (op_amount q) \<and> 0 < op_amount q \<and> fits_decimal (op_amount q) \<and> op_destination q = d
    \<and> op_amount q - roundMoney (py_total p - py_paid p) \<le> MONEY_EPSILON
    \<and> fits_decimal (roundMoney (py_paid p + op_amount q))
    \<and> po_payables db' = replaced_row (paid_row q d p) (po_payables db) \<and> po_payments db' = po_payments db @ [q]"
  using assms unfolding disburse_def Let_def
  by (simp split: if_split_asm option.split_asm) (auto simp: paid_row_def Let_def whole_paise_round)

lemma disburse_step:
  assumes "enforced strict env u"
  shows "payout_step strict db (fst (recordDisbursement env i ref asked n u db))"
  unfolding recordDisbursement_def
proof (rule tx_step, goal_cases)
  case (1 db' q)
  obtain p where p: "lockPayable db i = Some p" using 1 by (auto split: option.splits)
  obtain ns ok where h: "two_hands env u (py_approvedBy p) (py_id p) = (ns, ok)" by fastforce
  show ?case
  proof (cases "db' = db")
    case False
    have st: "\<not> py_onHold p" "py_status p = AP_APPROVED" "py_hodApprovedAt p \<noteq> None"
      using 1 p False by (auto split: option.splits if_splits)
    obtain p1 where p1: "pay_destination env p = Inr p1" using 1 p False by (auto split: option.splits if_splits sum.splits)
    then obtain d where d: "p1 = p\<lparr> py_destination := d \<rparr>" using pay_destination_cases by blast
    have ok: "ok" and out: "disburse env ref asked n u (p\<lparr> py_destination := d \<rparr>) db = Inr (db', q)"
      using 1 p False p1 h st unfolding d by (auto split: option.splits if_splits)
    note facts = disburse_result [OF out]
    have "strict \<Longrightarrow> py_approvedBy p \<noteq> Some (op_paidBy q)"
      using facts hands_result [OF h ok] assms by (simp add: enforced_def)
    then show ?thesis using facts st p by (intro payout_step.disbursed [of db i p strict q db' d]) auto
  qed (auto intro: moved_is_step)
qed

lemma take_back_step: "payout_step strict db (fst (reverseOutboundPayment env k r u db))"
  unfolding reverseOutboundPayment_def Let_def
proof (split if_split, intro conjI impI, goal_cases)
  case 2
  show ?case
  proof (rule tx_step, goal_cases)
    case (1 db' v)
    obtain q where q: "List.find (\<lambda>q. op_id q = k) (po_payments db) = Some q" using 1 by (auto split: option.splits)
    obtain p where p: "lockPayable db (op_payableId q) = Some p" using 1 q by (auto split: option.splits)
    have act: "op_isActive q" using 1 q p by (auto split: if_splits)
    let ?x = "roundMoney (outbound_sum (undone k (po_payments db)) (py_id p))"
    obtain p2 where r: "refreshPayoutDestination env (unpaid_row ?x p) = Inr p2"
      and db': "po_payables db' = replaced_row p2 (po_payables db)" "po_payments db' = undone k (po_payments db)"
      using 1 q p act unfolding undone_def [symmetric] unpaid_row_def
      by (simp split: sum.split_asm) (auto split: option.splits if_splits)
    show ?case by (rule payout_step.reversed [OF q act p conjunct1 [OF refresh_moves [OF r]] db'])
  qed
qed (auto intro: moved_is_step)

section \<open>Every call\<close>

text \<open>The calls where a second pair of hands is asked for, with the segregation of duties enforced.\<close>

fun enforced_call :: "payout_call \<Rightarrow> bool" where
  "enforced_call (FinalApprove env i u) = enforced True env u"
| "enforced_call (FinalApproveBill env i u) = enforced True env u"
| "enforced_call (Disburse env i ref a n u) = enforced True env u"
| "enforced_call c = True"

lemma payout_calls_are_steps:
  assumes "rows_ok db" "strict \<Longrightarrow> enforced_call c"
  shows "payout_step strict db (payout_call_step c db)"
proof (cases c)
  case (FinalApprove env i u)
  then have "enforced strict env u" using assms(2) by (cases strict) (auto simp: enforced_def)
  then show ?thesis unfolding FinalApprove payout_call_step.simps hodApprovePayout_def
    by (intro moved_is_step tx_moved) (blast intro: hod_approve_moved assms(1))
next
  case (FinalApproveBill env i u)
  then have "enforced strict env u" using assms(2) by (cases strict) (auto simp: enforced_def)
  then show ?thesis unfolding FinalApproveBill payout_call_step.simps hodApproveBill_def
    by (intro moved_is_step tx_moved) (blast intro: bill_hod_moved assms(1))
next
  case (Disburse env i ref a n u)
  then have "enforced strict env u" using assms(2) by (cases strict) (auto simp: enforced_def)
  then show ?thesis unfolding Disburse payout_call_step.simps by (rule disburse_step)
next
  case (OfficeApprove env i r u)
  show ?thesis unfolding OfficeApprove payout_call_step.simps approvePayout_def
    by (intro moved_is_step tx_moved) (blast intro: approve_payable_moved assms(1))
qed (use assms(1) in \<open>auto intro: moved_is_step book_step reimburse_step reprice_moved edit_line_moved final_reject_moved hold_moved
       void_moved take_back_step invite_moved submit_moved approve_bill_moved final_reject_bill_moved cancel_bill_moved revise_call_moved\<close>)

end
