(* ===== verification/Payout_Ledger.thy ===== *)
theory Payout_Ledger
  imports Payout_Calls
begin

text \<open>
  What holds of payables and payments after any calls: the money recorded as paid is the money that was
  sent and never more than is owed, and the hands that let it out differ. Both are laws kept by every
  step, which the locale carries over a history of calls.
\<close>

section \<open>Laws kept by the calls\<close>

locale payout_law =
  fixes strict :: bool and keeps :: "payout_db \<Rightarrow> bool"
  assumes at_start: "keeps empty_payouts"
    and rows: "keeps db \<Longrightarrow> rows_ok db"
    and kept: "keeps db \<Longrightarrow> payout_step strict db db' \<Longrightarrow> keeps db'"
begin

lemma after_calls: "keeps db \<Longrightarrow> (strict \<Longrightarrow> list_all enforced_call calls) \<Longrightarrow> keeps (run_payouts calls db)"
proof (induction calls arbitrary: db)
  case (Cons c calls)
  have "keeps (payout_call_step c db)"
    using Cons.prems payout_calls_are_steps [of db strict c] rows kept by auto
  then show ?case using Cons by (simp add: run_payouts_def)
qed (simp add: run_payouts_def)

lemma throughout: "(strict \<Longrightarrow> list_all enforced_call calls) \<Longrightarrow> keeps (run_payouts calls empty_payouts)"
  by (rule after_calls [OF at_start])

lemma preserved: "keeps db \<Longrightarrow> (strict \<Longrightarrow> enforced_call c) \<Longrightarrow> keeps (payout_call_step c db)"
  using after_calls [of db "[c]"] by (simp add: run_payouts_def)

end

section \<open>Sums of payments\<close>

lemma outbound_sum_Nil [simp]: "outbound_sum [] i = 0"
  by (simp add: outbound_sum_def)

lemma outbound_sum_Cons [simp]:
  "outbound_sum (q # qs) i = (if op_payableId q = i \<and> op_isActive q then op_amount q else 0) + outbound_sum qs i"
  by (simp add: outbound_sum_def)

lemma outbound_sum_append [simp]: "outbound_sum (ps @ qs) i = outbound_sum ps i + outbound_sum qs i"
  by (simp add: outbound_sum_def)

definition sent_well :: "outbound_payment list \<Rightarrow> bool" where
  "sent_well qs \<longleftrightarrow> distinct (map op_id qs) \<and> (\<forall>q \<in> set qs. whole_paise (op_amount q) \<and> 0 < op_amount q)"

lemma outbound_whole: "(\<And>q. q \<in> set qs \<Longrightarrow> whole_paise (op_amount q)) \<Longrightarrow> whole_paise (outbound_sum qs i)"
  by (induction qs) (auto intro: whole_paise_add)

lemma outbound_nonneg: "(\<And>q. q \<in> set qs \<Longrightarrow> 0 < op_amount q) \<Longrightarrow> 0 \<le> outbound_sum qs i"
  by (induction qs) (auto simp: less_imp_le)

lemma outbound_absent: "i \<notin> op_payableId ` set qs \<Longrightarrow> outbound_sum qs i = 0"
  by (induction qs) auto

lemma outbound_zero:
  "(\<And>q. q \<in> set qs \<Longrightarrow> 0 < op_amount q) \<Longrightarrow> outbound_sum qs i \<le> 0 \<Longrightarrow> q \<in> set qs \<Longrightarrow> op_payableId q = i \<Longrightarrow> \<not> op_isActive q"
proof (induction qs)
  case (Cons r qs)
  then have "0 \<le> outbound_sum qs i" by (intro outbound_nonneg) auto
  then have no: "\<not> (op_payableId r = i \<and> op_isActive r)"
    using Cons.prems(1) [of r] Cons.prems(2) by auto
  then have "outbound_sum qs i \<le> 0" using Cons.prems(2) by auto
  then show ?case using Cons no by auto
qed simp

lemma undone_ids [simp]: "map op_id (undone k qs) = map op_id qs"
  by (auto simp: undone_def)

lemma undone_rows: "q \<in> set (undone k qs) \<Longrightarrow> \<exists>r \<in> set qs. q = r \<or> q = r\<lparr> op_isActive := False \<rparr>"
  by (auto simp: undone_def)

lemma undone_well: "sent_well qs \<Longrightarrow> sent_well (undone k qs)"
  by (fastforce simp: sent_well_def dest: undone_rows)

lemma undone_absent: "k \<notin> op_id ` set qs \<Longrightarrow> undone k qs = qs"
  by (auto simp: undone_def intro!: map_idI)

lemma outbound_undone:
  "distinct (map op_id qs) \<Longrightarrow> q \<in> set qs \<Longrightarrow> op_id q = k \<Longrightarrow> op_isActive q \<Longrightarrow>
   outbound_sum (undone k qs) i = outbound_sum qs i - (if op_payableId q = i then op_amount q else 0)"
proof (induction qs)
  case (Cons r qs)
  show ?case
  proof (cases "r = q")
    case True
    then have "undone k qs = qs" using Cons.prems by (intro undone_absent) auto
    then show ?thesis using True Cons.prems by (simp add: undone_def)
  next
    case False
    then have "q \<in> set qs" "op_id r \<noteq> k" using Cons.prems by auto
    then show ?thesis using Cons by (simp add: undone_def)
  qed
qed simp

section \<open>What is paid is what was sent\<close>

definition payable_settled :: "outbound_payment list \<Rightarrow> AssayerPayableEntity \<Rightarrow> bool" where
  "payable_settled qs p \<longleftrightarrow> figures_ok p \<and> py_paid p = outbound_sum qs (py_id p) \<and> fits_decimal (py_paid p)
     \<and> (0 < py_paid p \<longrightarrow> py_paid p \<le> py_total p + 1 / 100)
     \<and> (py_status p = AP_PAID \<longrightarrow> py_total p - py_paid p \<le> 1 / 100)
     \<and> (py_status p = AP_PENDING \<longrightarrow> py_paid p = 0)"

definition accounts_ok :: "payout_db \<Rightarrow> bool" where
  "accounts_ok db \<longleftrightarrow> distinct (map py_id (po_payables db)) \<and> sent_well (po_payments db)
     \<and> (\<forall>q \<in> set (po_payments db). op_payableId q \<in> py_id ` set (po_payables db))
     \<and> (\<forall>p \<in> set (po_payables db). payable_settled (po_payments db) p)"

lemma settled_moved: "payable_move strict p p' \<Longrightarrow> payable_settled qs p \<Longrightarrow> 0 \<le> py_paid p \<Longrightarrow> payable_settled qs p'"
  by (induction rule: payable_move.induct) (auto simp: payable_settled_def figures_ok_def back_to_office_def)

lemma move_paid: "payable_move strict p p' \<Longrightarrow> py_paid p' = py_paid p"
  by (induction rule: payable_move.induct) (auto simp: back_to_office_def)

lemma settled_moves: "payable_moves strict p p' \<Longrightarrow> payable_settled qs p \<Longrightarrow> 0 \<le> py_paid p \<Longrightarrow> payable_settled qs p'"
proof (induction rule: rtranclp_induct)
  case (step y z)
  have "payable_moves strict p y \<Longrightarrow> py_paid y = py_paid p" by (induction rule: rtranclp_induct) (auto dest: move_paid)
  then show ?case using step settled_moved by metis
qed

lemma settled_paid:
  assumes "payable_settled qs p" "0 \<le> py_paid p" "py_status p = AP_APPROVED" "whole_paise (op_amount q)" "0 < op_amount q"
    "fits_decimal (op_amount q)" "op_amount q - roundMoney (py_total p - py_paid p) \<le> MONEY_EPSILON"
    "fits_decimal (roundMoney (py_paid p + op_amount q))" "op_payableId q = py_id p" "op_isActive q" "whole_paise (py_paid p)"
  shows "payable_settled (qs @ [q]) (paid_row q d p)"
proof -
  have t: "whole_paise (py_total p)" "fits_decimal (py_total p)" "fits_decimal (py_paid p)"
    using assms(1) by (auto simp: payable_settled_def figures_ok_def intro: whole_paise_add whole_paise_diff)
  have "roundMoney (py_paid p + op_amount q) = py_paid p + op_amount q" "roundMoney (py_total p - py_paid p) = py_total p - py_paid p"
    using t assms by (auto intro: exact_difference)
  then show ?thesis
    using assms by (auto simp: payable_settled_def paid_row_def Let_def figures_ok_def MONEY_EPSILON_def)
qed

lemma settled_unpaid:
  assumes "payable_settled qs p" "0 \<le> outbound_sum qs' (py_id p)" "outbound_sum qs' (py_id p) \<le> py_paid p"
    "whole_paise (outbound_sum qs' (py_id p))"
  shows "payable_settled qs' (unpaid_row (roundMoney (outbound_sum qs' (py_id p))) p)"
proof -
  have f: "fits_decimal (outbound_sum qs' (py_id p))" using assms by (auto simp: payable_settled_def fits_decimal_def)
  then have "roundMoney (outbound_sum qs' (py_id p)) = outbound_sum qs' (py_id p)"
    using assms by (intro roundMoney_exact fits_range)
  then show ?thesis using assms f by (auto simp: payable_settled_def unpaid_row_def figures_ok_def MONEY_EPSILON_def)
qed

lemma accounts_rows: "accounts_ok db \<Longrightarrow> rows_ok db"
  by (simp add: accounts_ok_def rows_ok_def payable_settled_def)

lemma account_of:
  assumes "accounts_ok db" "p \<in> set (po_payables db)"
  shows "payable_settled (po_payments db) p" "0 \<le> py_paid p" "whole_paise (py_paid p)"
proof -
  show s: "payable_settled (po_payments db) p" using assms by (simp add: accounts_ok_def)
  then have e: "py_paid p = outbound_sum (po_payments db) (py_id p)" by (simp add: payable_settled_def)
  show "0 \<le> py_paid p" unfolding e using assms(1) by (intro outbound_nonneg) (auto simp: accounts_ok_def sent_well_def)
  show "whole_paise (py_paid p)" unfolding e using assms(1) by (intro outbound_whole) (auto simp: accounts_ok_def sent_well_def)
qed

lemma row_ids_replaced: "py_id p = i \<Longrightarrow> map py_id (replaced_row p ps) = map py_id ps"
  by (auto simp: replaced_row_def)

lemma rows_replaced:
  assumes "q \<in> set (replaced_row p ps)"
  shows "q = p \<or> q \<in> set ps \<and> py_id q \<noteq> py_id p"
  using assms by (auto simp: replaced_row_def split: if_splits)

lemma accounts_replaced:
  assumes "accounts_ok db" "po_payables db' = replaced_row p (po_payables db)" "sent_well (po_payments db')"
    and "\<And>q. q \<in> set (po_payments db') \<Longrightarrow> op_payableId q \<in> py_id ` set (po_payables db)"
    and "\<And>j. j \<noteq> py_id p \<Longrightarrow> outbound_sum (po_payments db') j = outbound_sum (po_payments db) j"
    and "payable_settled (po_payments db') p"
  shows "accounts_ok db'"
proof -
  have "payable_settled (po_payments db') w" if "w \<in> set (po_payables db')" for w
    using rows_replaced [of w p "po_payables db"] that assms by (auto simp: accounts_ok_def payable_settled_def)
  moreover have ids: "map py_id (po_payables db') = map py_id (po_payables db)" using assms(2) row_ids_replaced by simp
  moreover have "py_id ` set (po_payables db') = py_id ` set (po_payables db)" using ids by (metis list.set_map)
  ultimately show ?thesis using assms by (simp add: accounts_ok_def)
qed

lemma moved_ids: "list_all2 (payable_moves strict) ps qs \<Longrightarrow> map py_id qs = map py_id ps"
  by (induction rule: list_all2_induct) (auto dest: moves_id)

lemma moved_rows: "list_all2 (payable_moves strict) ps qs \<Longrightarrow> q \<in> set qs \<Longrightarrow> \<exists>p \<in> set ps. payable_moves strict p q"
  by (induction rule: list_all2_induct) auto

lemma reversed_facts:
  assumes "accounts_ok db" "List.find (\<lambda>q. op_id q = k) (po_payments db) = Some q" "op_isActive q"
    "lockPayable db (op_payableId q) = Some p"
  defines "qs \<equiv> undone k (po_payments db)"
  shows "sent_well qs" "\<And>j. outbound_sum qs j = outbound_sum (po_payments db) j - (if op_payableId q = j then op_amount q else 0)"
    "payable_settled qs (unpaid_row (roundMoney (outbound_sum qs (py_id p))) p)"
    "0 \<le> py_paid (unpaid_row (roundMoney (outbound_sum qs (py_id p))) p)"
proof -
  have p: "p \<in> set (po_payables db)" "py_id p = op_payableId q" using assms lockPayable_Some by blast+
  have q: "q \<in> set (po_payments db)" "op_id q = k" using assms by (auto simp: find_Some_iff)
  have w: "sent_well (po_payments db)" using assms by (simp add: accounts_ok_def)
  show uw: "sent_well qs" unfolding qs_def using w by (rule undone_well)
  show sum: "outbound_sum qs j = outbound_sum (po_payments db) j - (if op_payableId q = j then op_amount q else 0)" for j
    unfolding qs_def using w q assms by (intro outbound_undone) (auto simp: sent_well_def)
  have s: "0 \<le> outbound_sum qs (py_id p)" "whole_paise (outbound_sum qs (py_id p))"
    using uw by (auto simp: sent_well_def intro: outbound_nonneg outbound_whole)
  have le: "outbound_sum qs (py_id p) \<le> py_paid p"
    using account_of(1) [OF assms(1) p(1)] q(1) w by (auto simp: sum payable_settled_def sent_well_def intro: less_imp_le)
  show one: "payable_settled qs (unpaid_row (roundMoney (outbound_sum qs (py_id p))) p)"
    by (rule settled_unpaid [OF account_of(1) [OF assms(1) p(1)] s(1) le s(2)])
  show "0 \<le> py_paid (unpaid_row (roundMoney (outbound_sum qs (py_id p))) p)"
    using one s(1) by (auto simp: payable_settled_def unpaid_row_def split: if_splits)
qed

lemma unpaid_id [simp]: "py_id (unpaid_row x p) = py_id p"
  by (simp add: unpaid_row_def)

lemma paid_id [simp]: "py_id (paid_row q d p) = py_id p"
  by (simp add: paid_row_def Let_def)

lemma accounts_step: "accounts_ok db \<Longrightarrow> payout_step strict db db' \<Longrightarrow> accounts_ok db'"
proof (erule payout_step.cases, goal_cases)
  case (1 a s b)
  have ids: "map py_id (po_payables db') = map py_id (po_payables db)" using 1 moved_ids by auto
  then have "py_id ` set (po_payables db') = py_id ` set (po_payables db)" by (metis list.set_map)
  moreover have "payable_settled (po_payments db) p" if "p \<in> set (po_payables db')" for p
    using moved_rows [of strict "po_payables db" "po_payables db'" p] 1 that account_of [OF 1(1)] settled_moves by blast
  ultimately show ?case using 1 ids by (simp add: accounts_ok_def)
next
  case (2 p a b s)
  then have "outbound_sum (po_payments db) (py_id p) = 0"
    by (intro outbound_absent) (auto simp: accounts_ok_def)
  then have "payable_settled (po_payments db) p" using 2 by (simp add: payable_settled_def fits_decimal_def)
  then show ?case using 2 by (auto simp: accounts_ok_def)
next
  case (3 a i p s q b d)
  have p: "p \<in> set (po_payables db)" using 3 lockPayable_Some by blast
  show ?case
  proof (rule accounts_replaced [OF 3(1), of db' "paid_row q d p"])
    show "payable_settled (po_payments db') (paid_row q d p)"
      using settled_paid [of "po_payments db" p q d] account_of [OF 3(1) p] 3 by simp
  qed (use 3 p in \<open>auto simp: accounts_ok_def sent_well_def paid_row_def Let_def\<close>)
next
  case (4 k a q p s p2 b)
  have p: "p \<in> set (po_payables db)" "py_id p = op_payableId q" using 4 lockPayable_Some by blast+
  have facts: "sent_well (undone k (po_payments db))"
    "\<And>j. outbound_sum (undone k (po_payments db)) j = outbound_sum (po_payments db) j - (if op_payableId q = j then op_amount q else 0)"
    "payable_settled (undone k (po_payments db)) (unpaid_row (roundMoney (outbound_sum (undone k (po_payments db)) (py_id p))) p)"
    "0 \<le> py_paid (unpaid_row (roundMoney (outbound_sum (undone k (po_payments db)) (py_id p))) p)"
    using reversed_facts [of db k q p] 4 by auto
  have m: "payable_moves s (unpaid_row (roundMoney (outbound_sum (undone k (po_payments db)) (py_id p))) p) p2" using 4 by simp
  have id: "py_id p2 = py_id p" using moves_id [OF m] by simp
  show ?case
  proof (rule accounts_replaced [OF 4(1), of db' p2])
    show "payable_settled (po_payments db') p2" using settled_moves [OF m facts(3,4)] 4 by simp
    show "outbound_sum (po_payments db') j = outbound_sum (po_payments db) j" if "j \<noteq> py_id p2" for j
      using that 4 p facts(2) id by auto
    show "\<And>q. q \<in> set (po_payments db') \<Longrightarrow> op_payableId q \<in> py_id ` set (po_payables db)"
      using 4 undone_rows by (fastforce simp: accounts_ok_def)
  qed (use 4 facts in auto)
qed

lemma accounts_start: "accounts_ok empty_payouts"
  by (simp add: accounts_ok_def empty_payouts_def sent_well_def)

interpretation settled: payout_law False accounts_ok
  by unfold_locales (auto intro: accounts_start accounts_rows accounts_step)

section \<open>Whose hands let it out\<close>

definition hands_ok :: "outbound_payment list \<Rightarrow> AssayerPayableEntity \<Rightarrow> bool" where
  "hands_ok qs p \<longleftrightarrow>
     (py_status p = AP_PENDING \<longrightarrow> py_approvedBy p = None \<and> py_hodApprovedAt p = None)
     \<and> (py_status p = AP_APPROVED \<or> py_status p = AP_PAID \<longrightarrow> py_approvedBy p \<noteq> None)
     \<and> (py_hodApprovedAt p \<noteq> None \<longrightarrow> py_hodApprovedBy p \<noteq> None \<and> py_hodApprovedBy p \<noteq> py_approvedBy p)
     \<and> (py_status p = AP_PAID \<longrightarrow> py_hodApprovedAt p \<noteq> None \<and> py_paidBy p \<noteq> None \<and> py_paidBy p \<noteq> py_approvedBy p)
     \<and> (\<forall>q \<in> set qs. op_isActive q \<and> op_payableId q = py_id p \<longrightarrow> py_approvedBy p \<noteq> Some (op_paidBy q))"

definition signed_ok :: "payout_db \<Rightarrow> bool" where
  "signed_ok db \<longleftrightarrow> accounts_ok db \<and> (\<forall>p \<in> set (po_payables db). hands_ok (po_payments db) p)"

definition none_sent :: "outbound_payment list \<Rightarrow> AssayerPayableEntity \<Rightarrow> bool" where
  "none_sent qs p \<longleftrightarrow> (py_paid p \<le> 0 \<or> py_status p = AP_PENDING \<longrightarrow> (\<forall>q \<in> set qs. op_payableId q = py_id p \<longrightarrow> \<not> op_isActive q))"

lemma settled_none_sent: "payable_settled qs p \<Longrightarrow> sent_well qs \<Longrightarrow> none_sent qs p"
  using outbound_zero [of qs "py_id p"] by (auto simp: none_sent_def payable_settled_def sent_well_def)

lemma hands_moved: "payable_move strict p p' \<Longrightarrow> strict \<Longrightarrow> hands_ok qs p \<Longrightarrow> none_sent qs p \<Longrightarrow> hands_ok qs p'"
proof (induction rule: payable_move.induct)
  case (office p strict u d)
  then show ?case by (auto simp: hands_ok_def none_sent_def)
next
  case (sent_back p strict u why x)
  then show ?case by (auto simp: hands_ok_def none_sent_def back_to_office_def)
qed (auto simp: hands_ok_def)

lemma hands_moves:
  assumes "payable_moves True p p'" "payable_settled qs p" "sent_well qs" "0 \<le> py_paid p" "hands_ok qs p"
  shows "hands_ok qs p'"
  using assms(1)
proof (induction rule: rtranclp_induct)
  case (step y z)
  have "payable_settled qs y" by (rule settled_moves [OF step(1) assms(2,4)])
  then have "none_sent qs y" by (rule settled_none_sent [OF _ assms(3)])
  then show ?case by (rule hands_moved [OF step(2) TrueI step(3)])
qed (rule assms(5))

lemma hands_other:
  assumes "hands_ok qs p" "\<And>q. q \<in> set qs' \<Longrightarrow> op_isActive q \<Longrightarrow> op_payableId q = py_id p \<Longrightarrow> q \<in> set qs"
  shows "hands_ok qs' p"
proof -
  have "\<forall>q \<in> set qs'. op_isActive q \<and> op_payableId q = py_id p \<longrightarrow> py_approvedBy p \<noteq> Some (op_paidBy q)"
    using assms by (simp add: hands_ok_def)
  then show ?thesis using assms(1) by (simp only: hands_ok_def) blast
qed

lemma unpaid_hands: "hands_ok qs p \<Longrightarrow> hands_ok qs (unpaid_row x p)"
  by (simp add: hands_ok_def unpaid_row_def)

lemma paid_hands:
  "hands_ok qs p \<Longrightarrow> py_status p = AP_APPROVED \<Longrightarrow> py_hodApprovedAt p \<noteq> None \<Longrightarrow> py_approvedBy p \<noteq> Some (op_paidBy q) \<Longrightarrow>
   hands_ok (qs @ [q]) (paid_row q d p)"
  unfolding hands_ok_def paid_row_def Let_def by (auto split: if_splits)

lemma hands_replaced:
  assumes "\<forall>p \<in> set ps. hands_ok qs p" "ps' = replaced_row p' ps" "hands_ok qs' p'"
    and "\<And>q. q \<in> set qs' \<Longrightarrow> op_isActive q \<Longrightarrow> op_payableId q \<noteq> py_id p' \<Longrightarrow> q \<in> set qs"
  shows "\<forall>p \<in> set ps'. hands_ok qs' p"
proof
  fix w assume "w \<in> set ps'"
  then consider "w = p'" | "w \<in> set ps" "py_id w \<noteq> py_id p'" using assms(2) rows_replaced by blast
  then show "hands_ok qs' w"
  proof cases
    case 2
    then have "hands_ok qs w" using assms(1) by blast
    then show ?thesis by (rule hands_other) (use assms(4) 2 in fastforce)
  qed (use assms(3) in simp)
qed

lemma undone_active: "q \<in> set (undone k qs) \<Longrightarrow> op_isActive q \<Longrightarrow> q \<in> set qs"
  by (auto simp: undone_def split: if_splits)

lemma signed_step: "signed_ok db \<Longrightarrow> payout_step True db db' \<Longrightarrow> signed_ok db'"
proof -
  assume ok: "signed_ok db" and step: "payout_step True db db'"
  have a: "accounts_ok db" "accounts_ok db'" using ok step accounts_step by (auto simp: signed_ok_def)
  have h: "\<forall>p \<in> set (po_payables db). hands_ok (po_payments db) p" using ok by (simp add: signed_ok_def)
  have w: "sent_well (po_payments db)" "sent_well (po_payments db')" using a by (auto simp: accounts_ok_def)
  have "\<forall>p \<in> set (po_payables db'). hands_ok (po_payments db') p"
    using step
  proof (cases rule: payout_step.cases)
    case 1: moved
    show ?thesis
    proof
      fix p' assume "p' \<in> set (po_payables db')"
      then obtain p where "p \<in> set (po_payables db)" "payable_moves True p p'" using moved_rows 1(1) by blast
      then show "hands_ok (po_payments db') p'" using hands_moves account_of [OF a(1)] w(1) h 1(2) by metis
    qed
  next
    case 2: (booked p)
    have "hands_ok (po_payments db) p"
      using 2 a(1) by (auto simp: hands_ok_def accounts_ok_def)
    then show ?thesis using 2 h by auto
  next
    case 3: (disbursed i p q d)
    have p: "p \<in> set (po_payables db)" using 3 lockPayable_Some by blast
    then have "hands_ok (po_payments db) p" using h by blast
    then have "hands_ok (po_payments db') (paid_row q d p)"
      using 3 paid_hands by simp
    then show ?thesis using 3 by (intro hands_replaced [OF h, of _ "paid_row q d p"]) auto
  next
    case 4: (reversed k q p p2)
    have p: "p \<in> set (po_payables db)" "py_id p = op_payableId q" using 4 lockPayable_Some by blast+
    let ?x = "roundMoney (outbound_sum (undone k (po_payments db)) (py_id p))"
    have sub: "\<And>r. r \<in> set (po_payments db') \<Longrightarrow> op_isActive r \<Longrightarrow> r \<in> set (po_payments db)"
      unfolding 4(6) by (rule undone_active)
    have "hands_ok (po_payments db) p" using h p(1) by blast
    then have "hands_ok (po_payments db') p" by (rule hands_other) (rule sub)
    then have one: "hands_ok (po_payments db') (unpaid_row ?x p)" by (rule unpaid_hands)
    note facts = reversed_facts [OF a(1) 4(1,2,3)]
    have "hands_ok (po_payments db') p2"
      using hands_moves [OF 4(4) facts(3) facts(1) facts(4)] one 4(6) by simp
    moreover have "py_id p2 = op_payableId q" using moves_id [OF 4(4)] p(2) by simp
    ultimately show ?thesis by (intro hands_replaced [OF h 4(5)] sub) auto
  qed
  then show ?thesis using a by (simp add: signed_ok_def)
qed

lemma signed_start: "signed_ok empty_payouts"
  by (simp add: signed_ok_def accounts_start) (simp add: empty_payouts_def)

interpretation signed: payout_law True signed_ok
proof
  show "signed_ok empty_payouts" by (rule signed_start)
  show "rows_ok db" if "signed_ok db" for db using that accounts_rows by (simp add: signed_ok_def)
  show "signed_ok db'" if "signed_ok db" "payout_step True db db'" for db db' using that by (rule signed_step)
qed

section \<open>A sample history\<close>

definition sample_payee :: PayoutAssayer where
  "sample_payee = \<lparr> pa_id = ''ay-1'', pa_accountNumber = Some ''00011122'', pa_fingerprint = None, pa_ifsc = Some ''abcd0000001'',
     pa_bankName = Some ''Bank'', pa_legalName = Some ''A Kumar'', pa_displayName = Some ''Kumar'', pa_pan = Some ''ABCPK1234F'',
     pa_identityVerifiedAt = None, pa_isActive = True \<rparr>"

definition sample_job :: billed_job where
  "sample_job = \<lparr> jb_status = AS_COMPLETED, jb_assayerId = Some ''ay-1'', jb_clientId = Some ''cl-1'', jb_createdBy = Some ''u0'',
     jb_fee = sample_fee \<rparr>"

definition payout_sample :: payout_env where
  "payout_sample = \<lparr> pe_billing = sample_billing_env\<lparr> be_newId := ''x-1'' \<rparr>, pe_number = ''AINV-1'', pe_entryId = ''en-1'', pe_now = 7,
     pe_roster = [sample_payee], pe_passbook = (\<lambda>_. None), pe_fingerprint = (\<lambda>_. None), pe_job = (\<lambda>_. Some sample_job),
     pe_normalTdsRate = 10, pe_noPanTdsRate = 20, pe_tdsThreshold = 50000, pe_terms = (\<lambda>_ _. sample_ctx) \<rparr>"

definition payout_history :: "payout_call list" where
  "payout_history = [Reimburse payout_sample ''c-1'' ''ay-1'' ''as-1'' (Num 1000) ''u0'',
     OfficeApprove payout_sample ''x-1'' (Some ''paid directly'') ''u1'', FinalApprove payout_sample ''x-1'' ''u1'',
     FinalApprove payout_sample ''x-1'' ''u2'', Disburse payout_sample ''x-1'' ''utr-1'' (Some 400) None ''u2'',
     Disburse (payout_sample\<lparr> pe_billing := sample_billing_env\<lparr> be_newId := ''x-2'' \<rparr> \<rparr>) ''x-1'' ''utr-2'' None None ''u2'']"

lemma payout_sample_run:
  "map (\<lambda>p. (py_id p, py_status p, py_paid p, py_approvedBy p)) (po_payables (run_payouts payout_history empty_payouts))
     = [(''x-1'', AP_PAID, 1000, Some ''u1'')]"
  "map (\<lambda>q. (op_id q, op_payableId q, op_amount q, op_isActive q)) (po_payments (run_payouts payout_history empty_payouts))
     = [(''x-1'', ''x-1'', 400, True), (''x-2'', ''x-1'', 600, True)]"
  by code_simp+

lemma payout_sample_enforced: "list_all enforced_call payout_history"
  by code_simp

section \<open>The properties\<close>

text \<open>
  C6. An assayer is paid what is owed, once. After any history of bookings, approvals, holds, bills, payments
  and reversals, the amount recorded as paid on a payable is exactly the sum of its payments that stand, it
  exceeds the net amount by at most the paisa of tolerance, a payable marked paid is paid up to that
  paisa, and nothing was sent for one that still waits for its approval.
\<close>

theorem payout_never_overpaid:
  assumes "p \<in> set (po_payables (run_payouts calls empty_payouts))"
  shows "py_paid p = outbound_sum (po_payments (run_payouts calls empty_payouts)) (py_id p)
    \<and> (0 < py_paid p \<longrightarrow> py_paid p \<le> py_base p + py_travel p - py_tds p + 1 / 100)
    \<and> (py_status p = AP_PAID \<longrightarrow> py_base p + py_travel p - py_tds p - 1 / 100 \<le> py_paid p)
    \<and> (py_status p = AP_PENDING \<longrightarrow> py_paid p = 0)"
  using account_of(1) [OF settled.throughout assms] by (auto simp: payable_settled_def figures_ok_def)

theorem payout_never_overpaid_witness:
  "\<exists>p \<in> set (po_payables (run_payouts payout_history empty_payouts)). py_paid p = 1000
    \<and> py_paid p = outbound_sum (po_payments (run_payouts payout_history empty_payouts)) (py_id p)"
proof -
  obtain p where p: "p \<in> set (po_payables (run_payouts payout_history empty_payouts))" "py_paid p = 1000"
    using payout_sample_run(1) by (cases "po_payables (run_payouts payout_history empty_payouts)") auto
  then show ?thesis using payout_never_overpaid [OF p(1)] by blast
qed

text \<open>
  C7. Money leaves on two hands. With the segregation of duties enforced, every payable that is paid carries an
  approval and a final approval by two different users and was paid by a user other than its approver, and
  so was every single payment that stands, in part or in full.
\<close>

theorem payout_needs_two_hands:
  assumes "list_all enforced_call calls" "p \<in> set (po_payables (run_payouts calls empty_payouts))"
  shows "(py_status p = AP_PAID \<longrightarrow> (\<exists>a b c. py_approvedBy p = Some a \<and> py_hodApprovedBy p = Some b \<and> py_paidBy p = Some c
        \<and> a \<noteq> b \<and> a \<noteq> c))
    \<and> (\<forall>q \<in> set (po_payments (run_payouts calls empty_payouts)).
        op_isActive q \<and> op_payableId q = py_id p \<longrightarrow> py_approvedBy p \<noteq> Some (op_paidBy q))"
proof -
  have "signed_ok (run_payouts calls empty_payouts)" using assms(1) by (intro signed.throughout)
  then have "hands_ok (po_payments (run_payouts calls empty_payouts)) p" using assms(2) by (simp add: signed_ok_def)
  then show ?thesis by (fastforce simp: hands_ok_def)
qed

theorem payout_needs_two_hands_witness:
  "\<exists>p \<in> set (po_payables (run_payouts payout_history empty_payouts)). py_status p = AP_PAID \<and>
     (\<exists>a b c. py_approvedBy p = Some a \<and> py_hodApprovedBy p = Some b \<and> py_paidBy p = Some c \<and> a \<noteq> b \<and> a \<noteq> c)"
proof -
  obtain p where p: "p \<in> set (po_payables (run_payouts payout_history empty_payouts))" "py_status p = AP_PAID"
    using payout_sample_run(1) by (cases "po_payables (run_payouts payout_history empty_payouts)") auto
  then show ?thesis using payout_needs_two_hands [OF payout_sample_enforced p(1)] by blast
qed

text \<open>
  C12. The amounts of a payable fit their columns. Whatever fees, terms, rates and claims the calls bring, every
  row of the payables table holds whole paise in twelve digits before the point, and its net amount is its
  base and travel less the tax withheld, to the paisa: no call leaves an amount the column would round.
\<close>

theorem payable_amounts_typed:
  assumes "p \<in> set (po_payables (run_payouts calls empty_payouts))"
  shows "(\<forall>x \<in> {py_base p, py_travel p, py_tds p, py_total p, py_paid p}. whole_paise x \<and> \<bar>x\<bar> < 10 ^ 12)
    \<and> py_total p = py_base p + py_travel p - py_tds p"
  using account_of(1,3) [OF settled.throughout assms]
  by (auto simp: payable_settled_def figures_ok_def fits_decimal_def intro: whole_paise_add whole_paise_diff)

theorem payable_amounts_typed_witness:
  "\<exists>p \<in> set (po_payables (run_payouts payout_history empty_payouts)). py_paid p = 1000 \<and> whole_paise (py_total p)
     \<and> py_total p = py_base p + py_travel p - py_tds p"
proof -
  obtain p where p: "p \<in> set (po_payables (run_payouts payout_history empty_payouts))" "py_paid p = 1000"
    using payout_sample_run(1) by (cases "po_payables (run_payouts payout_history empty_payouts)") auto
  then show ?thesis using payable_amounts_typed [OF p(1)] by blast
qed

end
