(* ===== verification/Confirmed_Bills.thy ===== *)
theory Confirmed_Bills
  imports Payout_Ledger
begin

text \<open>
  A bill its assayer confirmed: until the office approves, cancels or revises it, no call on a payable, on
  another bill or on the client's side changes the bill, which lines it has or what they come to.
\<close>

section \<open>What a confirmed bill shows\<close>

text \<open>The lines as the assayer saw them.\<close>

definition bill_sheet :: "payout_db \<Rightarrow> string \<Rightarrow> (string \<times> rat \<times> rat \<times> rat \<times> rat) list" where
  "bill_sheet db i = map (\<lambda>p. (py_id p, py_base p, py_travel p, py_tds p, py_total p)) (bill_lines db i)"

definition keyed :: "payout_db \<Rightarrow> bool" where
  "keyed db \<longleftrightarrow> distinct (map py_id (po_payables db)) \<and> distinct (map bl_id (po_bills db))"

definition row_keeps :: "string \<Rightarrow> AssayerPayableEntity \<Rightarrow> AssayerPayableEntity \<Rightarrow> bool" where
  "row_keeps i p p' \<longleftrightarrow> py_id p' = py_id p \<and> (py_billId p' = Some i \<longleftrightarrow> py_billId p = Some i)
     \<and> (py_billId p = Some i \<longrightarrow> py_base p' = py_base p \<and> py_travel p' = py_travel p \<and> py_tds p' = py_tds p \<and> py_total p' = py_total p)"

definition frozen :: "string \<Rightarrow> payout_db \<Rightarrow> payout_db \<Rightarrow> bool" where
  "frozen i db db' \<longleftrightarrow> find_bill db' i = find_bill db i \<and> list_all2 (row_keeps i) (po_payables db) (po_payables db')"

lemma row_keeps_refl [simp]: "row_keeps i p p"
  by (simp add: row_keeps_def)

lemma row_keeps_trans: "row_keeps i p q \<Longrightarrow> row_keeps i q r \<Longrightarrow> row_keeps i p r"
  by (simp add: row_keeps_def)

lemma frozen_refl [simp]: "frozen i db db"
  by (simp add: frozen_def list.rel_refl)

lemma frozen_trans [trans]: "frozen i a b \<Longrightarrow> frozen i b c \<Longrightarrow> frozen i a c"
  unfolding frozen_def by (auto intro: list_all2_trans row_keeps_trans)

lemma frozen_sheet: "frozen i db db' \<Longrightarrow> bill_sheet db' i = bill_sheet db i"
proof -
  assume "frozen i db db'"
  then have "list_all2 (row_keeps i) (po_payables db) (po_payables db')" by (simp add: frozen_def)
  then show ?thesis unfolding bill_sheet_def bill_lines_def
    by (induction rule: list_all2_induct) (auto simp: row_keeps_def)
qed

lemma frozen_same:
  "po_payables db' = po_payables db \<Longrightarrow> po_bills db' = po_bills db \<Longrightarrow> frozen i db db'"
  by (simp add: frozen_def find_bill_def list.rel_refl)

lemma frozen_cong:
  "frozen i a b \<Longrightarrow> po_payables c = po_payables b \<Longrightarrow> po_bills c = po_bills b \<Longrightarrow> frozen i a c"
  by (simp add: frozen_def find_bill_def)

lemma frozen_ids: "frozen i db db' \<Longrightarrow> map py_id (po_payables db') = map py_id (po_payables db)"
proof -
  assume "frozen i db db'"
  then have "list_all2 (row_keeps i) (po_payables db) (po_payables db')" by (simp add: frozen_def)
  then show ?thesis by (induction rule: list_all2_induct) (auto simp: row_keeps_def)
qed

section \<open>Writes that leave it alone\<close>

lemma find_bill_saved: "bl_id b \<noteq> i \<Longrightarrow> find_bill (save_bill b db) i = find_bill db i"
proof -
  assume "bl_id b \<noteq> i"
  then have "List.find (\<lambda>b. bl_id b = i) (map (\<lambda>c. if bl_id c = bl_id b then b else c) bs) = List.find (\<lambda>b. bl_id b = i) bs" for bs
    by (induction bs) auto
  then show ?thesis by (simp add: find_bill_def save_bill_def)
qed

lemma save_bill_frozen: "bl_id b \<noteq> i \<Longrightarrow> frozen i db (save_bill b db)"
  by (simp add: frozen_def find_bill_saved list.rel_refl)

lemma append_bill_frozen: "bl_id b \<noteq> i \<Longrightarrow> frozen i db (db\<lparr> po_bills := po_bills db @ [b] \<rparr>)"
proof -
  assume "bl_id b \<noteq> i"
  then have "List.find (\<lambda>b. bl_id b = i) (bs @ [b]) = List.find (\<lambda>b. bl_id b = i) bs" for bs
    by (induction bs) auto
  then show ?thesis by (simp add: frozen_def find_bill_def list.rel_refl)
qed

definition off_bill :: "string \<Rightarrow> payout_db \<Rightarrow> string set \<Rightarrow> bool" where
  "off_bill i db ks \<longleftrightarrow> (\<forall>p \<in> set (po_payables db). py_id p \<in> ks \<longrightarrow> py_billId p \<noteq> Some i)"

lemma off_bill_frozen: "frozen i db db' \<Longrightarrow> off_bill i db ks \<Longrightarrow> off_bill i db' ks"
proof -
  assume f: "frozen i db db'" and o: "off_bill i db ks"
  have l: "list_all2 (row_keeps i) (po_payables db) (po_payables db')" using f by (simp add: frozen_def)
  have "\<exists>p \<in> set (po_payables db). row_keeps i p q" if "q \<in> set (po_payables db')" for q
    using l that by (induction rule: list_all2_induct) auto
  then show ?thesis using o by (fastforce simp: off_bill_def row_keeps_def)
qed

lemma off_bill_lines: "i \<noteq> j \<Longrightarrow> keyed db \<Longrightarrow> off_bill i db (py_id ` set (sorted_lines db j))"
  by (auto simp: off_bill_def keyed_def sorted_lines_def bill_lines_def distinct_map dest: inj_onD)

lemma off_bill_subset: "off_bill i db ks \<Longrightarrow> js \<subseteq> ks \<Longrightarrow> off_bill i db js"
  by (auto simp: off_bill_def)

lemma relink_frozen: "off_bill i db (py_id ` set ls) \<Longrightarrow> x \<noteq> Some i \<Longrightarrow> frozen i db (relink ls x db)"
  by (auto simp: frozen_def find_bill_def relink_def list.rel_map row_keeps_def off_bill_def intro!: list.rel_refl_strong)

lemma row_frozen:
  assumes "distinct (map py_id (po_payables db))" "lockPayable db k = Some p" "row_keeps i p p'"
    "po_payables db' = replaced_row p' (po_payables db)" "find_bill db' i = find_bill db i"
  shows "frozen i db db'"
proof -
  have p: "p \<in> set (po_payables db)" using assms(2) lockPayable_Some by blast
  have "row_keeps i q (if py_id q = py_id p' then p' else q)" if "q \<in> set (po_payables db)" for q
    using assms(1,3) p that by (auto simp: distinct_map row_keeps_def dest: inj_onD)
  then show ?thesis using assms(4,5) by (simp add: frozen_def replaced_row_def list.rel_map list_all2_same)
qed

lemma recompute_frozen: "bl_id b \<noteq> i \<Longrightarrow> frozen i db (recomputeAssayerInvoice u y b db)"
proof -
  assume b: "bl_id b \<noteq> i"
  let ?b = "bill_figures (filter live_payable (bill_lines db (bl_id b))) b"
  let ?c = "?b\<lparr> bl_status := AI_CANCELLED, bl_cancelReason := Some ''all lines removed'' \<rparr>"
  have "bl_id ?b \<noteq> i" "bl_id ?c \<noteq> i" using b by (simp_all add: bill_figures_def)
  note keep = this [THEN save_bill_frozen, of db]
  have "po_bills (recomputeAssayerInvoice u y b db) = po_bills (save_bill ?b db)
    \<or> po_bills (recomputeAssayerInvoice u y b db) = po_bills (save_bill ?c db)"
    by (simp add: recomputeAssayerInvoice_def Let_def)
  then show ?thesis using frozen_cong [OF keep(1)] frozen_cong [OF keep(2)] by auto
qed

lemma settle_frozen:
  assumes "find_bill db i = Some b" "bl_status b = AI_SUBMITTED"
  shows "frozen i db (settleAssayerInvoiceIfPaid u j db)"
proof (cases "po_bills (settleAssayerInvoiceIfPaid u j db) = po_bills db")
  case False
  then obtain c where c: "find_bill db j = Some c" "isApprovedBill (bl_status c)"
    "po_bills (settleAssayerInvoiceIfPaid u j db) = po_bills (save_bill (c\<lparr> bl_status := AI_PAID, bl_paidBy := Some u \<rparr>) db)"
    by (auto simp: settleAssayerInvoiceIfPaid_def split: if_splits option.splits)
  then have "bl_id c \<noteq> i" using assms find_bill_Some [OF c(1)] by (auto simp: isApprovedBill_def)
  then show ?thesis using c(3) by (intro frozen_cong [OF save_bill_frozen]) auto
qed (simp add: frozen_same)

lemma unsettle_frozen:
  assumes "find_bill db i = Some b" "bl_status b = AI_SUBMITTED"
  shows "frozen i db (unsettleAssayerInvoice u y j db)"
proof (cases "po_bills (unsettleAssayerInvoice u y j db) = po_bills db")
  case False
  then obtain c s where c: "find_bill db j = Some c" "bl_status c = AI_PAID"
    "po_bills (unsettleAssayerInvoice u y j db) = po_bills (save_bill (c\<lparr> bl_status := s, bl_paidBy := None \<rparr>) db)"
    by (auto simp: unsettleAssayerInvoice_def Let_def split: if_splits option.splits)
  then have "bl_id c \<noteq> i" using assms find_bill_Some [OF c(1)] by auto
  then show ?thesis using c(3) by (intro frozen_cong [OF save_bill_frozen]) auto
qed (simp add: frozen_same)

lemma frozen_bill: "frozen i db db' \<Longrightarrow> find_bill db' i = find_bill db i"
  by (simp add: frozen_def)

lemma tx_frozen:
  assumes "\<And>db' v. snd w = Inr (db', v) \<Longrightarrow> frozen i db db'"
  shows "frozen i db (fst (payout_tx env db w))"
  using tx_cases [of w env db]
proof (elim disjE exE conjE)
  fix db' v assume "snd w = Inr (db', v)" "fst (payout_tx env db w) = keep_notes (fst w) db'"
  then show ?thesis using assms [of db' v] by (auto elim!: frozen_cong)
next
  assume "fst (payout_tx env db w) = keep_notes (fst w) db"
  then show ?thesis by (intro frozen_same) simp_all
qed

section \<open>Calls on payables\<close>

text \<open>
  A payable is locked, perhaps taken off its bill, rewritten, and its bill follows; on a confirmed bill
  the code refuses where the figures or the line would move.
\<close>

definition confirmed :: "string \<Rightarrow> payout_db \<Rightarrow> bool" where
  "confirmed i db \<longleftrightarrow> (case find_bill db i of None \<Rightarrow> False | Some b \<Rightarrow> bl_status b = AI_SUBMITTED) \<and> distinct (map py_id (po_payables db))"

lemma confirmed_frozen: "frozen i db db' \<Longrightarrow> confirmed i db \<Longrightarrow> confirmed i db'"
  by (simp add: confirmed_def frozen_bill frozen_ids)

lemma other_bill: "confirmed i db \<Longrightarrow> find_bill db j = Some c \<Longrightarrow> bl_status c \<noteq> AI_SUBMITTED \<Longrightarrow> j \<noteq> i \<and> bl_id c \<noteq> i"
  using find_bill_Some [of db j c] by (auto simp: confirmed_def)

lemma on_confirmed: "confirmed i db \<Longrightarrow> \<exists>b. find_bill db i = Some b \<and> bl_status b = AI_SUBMITTED"
  by (auto simp: confirmed_def split: option.splits)

lemma one_row:
  "confirmed i db \<Longrightarrow> lockPayable db k = Some p \<Longrightarrow> row_keeps i p p' \<Longrightarrow> po_payables db' = replaced_row p' (po_payables db) \<Longrightarrow>
   po_bills db' = po_bills db \<Longrightarrow> frozen i db db'"
  by (intro row_frozen) (auto simp: confirmed_def find_bill_def)

lemma release_frozen:
  assumes "releaseFromAssayerInvoice u y p db = Inr (p1, db1)" "lockPayable db k = Some p" "confirmed i db"
  shows "frozen i db db1 \<and> row_keeps i p p1 \<and> lockPayable db1 k = Some p1"
proof (cases "p1 = p \<and> db1 = db")
  case False
  then have "py_billId p \<noteq> None" using assms(1) by (cases "py_billId p") (auto simp: releaseFromAssayerInvoice_def)
  then obtain j where j: "py_billId p = Some j" "p1 = p\<lparr> py_billId := None \<rparr>"
    using release_cases [OF assms(1)] False by blast
  have ji: "j \<noteq> i" using assms(1) j on_confirmed [OF assms(3)] by (auto simp: releaseFromAssayerInvoice_def split: if_splits)
  then have keep: "row_keeps i p p1" using j by (simp add: row_keeps_def)
  have one: "frozen i db (save_payable p1 db)" by (rule one_row [OF assms(3,2) keep]) simp_all
  have "frozen i db db1"
  proof (cases "find_bill db j")
    case None
    then show ?thesis using assms(1) j one by (simp add: releaseFromAssayerInvoice_def Let_def)
  next
    case (Some c)
    have other: "bl_id c \<noteq> i" using ji find_bill_Some [OF Some] by simp
    have "db1 = db \<or> db1 = recomputeAssayerInvoice u y c (save_payable p1 db)"
      using assms(1) j(1) Some unfolding releaseFromAssayerInvoice_def Let_def by (simp split: if_split_asm) blast
    then show ?thesis using frozen_trans [OF one recompute_frozen [OF other]] by auto
  qed
  moreover have "lockPayable db1 k = Some p1"
    using release_cases [OF assms(1)] assms(2) False find_replaced [of k "po_payables db" p p1] j(2) lockPayable_Some [OF assms(2)]
    by (auto simp: lockPayable_def)
  ultimately show ?thesis using keep by simp
qed (use assms in simp)

lemma reconcile_frozen: "confirmed i db \<Longrightarrow> frozen i db (reconcileApprovedInvoiceAfterVoid u j db)"
proof (cases "find_bill db j")
  case (Some c)
  assume ok: "confirmed i db"
  show ?thesis
  proof (cases "isApprovedBill (bl_status c)")
    case True
    then have "bl_id c \<noteq> i" using other_bill [OF ok Some] by (auto simp: isApprovedBill_def)
    then have one: "frozen i db (recomputeAssayerInvoice u ''voided on the approved invoice'' c db)" by (rule recompute_frozen)
    obtain b where "find_bill (recomputeAssayerInvoice u ''voided on the approved invoice'' c db) i = Some b" "bl_status b = AI_SUBMITTED"
      using on_confirmed [OF confirmed_frozen [OF one ok]] by blast
    then show ?thesis using True Some frozen_trans [OF one settle_frozen] by (simp add: reconcileApprovedInvoiceAfterVoid_def)
  qed (use Some in \<open>simp add: reconcileApprovedInvoiceAfterVoid_def\<close>)
qed (simp add: reconcileApprovedInvoiceAfterVoid_def)

lemma office_frozen:
  assumes "office_approval env u r p db = Inr (db', v)" "lockPayable db k = Some p" "confirmed i db" "py_billId p \<noteq> Some i"
  shows "frozen i db db'"
proof -
  obtain p1 p2 where f: "freeze_destination env p = Inr p1" and r: "recomputeTdsAtApproval env db p1 = Inr p2"
    and db': "po_payables db' = replaced_row (p2\<lparr> py_status := AP_APPROVED, py_approvedBy := Some u, py_hodApprovedAt := None,
        py_hodApprovedBy := None \<rparr>) (po_payables db)" "po_bills db' = po_bills db"
    using assms(1) by (auto simp: office_approval_def Let_def split: sum.splits)
  obtain d where "p1 = p\<lparr> py_destination := d \<rparr>" using freeze_moves [OF f] by blast
  then have "py_id p2 = py_id p" "py_billId p2 = py_billId p" using recompute_cases [OF r] by (auto simp: retaxed_def)
  then show ?thesis using assms(4) by (intro one_row [OF assms(3,2) _ db']) (simp add: row_keeps_def)
qed

lemma approve_frozen:
  assumes "snd (approvePayableInTx env u bypass r k db) = Inr (db', v)" "confirmed i db" "bypass \<Longrightarrow> off_bill i db {k}"
  shows "frozen i db db'"
proof -
  obtain p where p: "lockPayable db k = Some p" using assms(1) by (auto simp: approvePayableInTx_def split: option.splits)
  show ?thesis
  proof (cases "db' = db")
    case False
    then have o: "office_approval env u r p db = Inr (db', v)" and st: "py_status p = AP_PENDING"
      using assms(1) p by (auto simp: approvePayableInTx_def split: if_splits prod.splits)
    have "py_billId p \<noteq> Some i"
    proof (cases bypass)
      case True
      then show ?thesis using assms(3) lockPayable_Some [OF p] by (simp add: off_bill_def)
    next
      case no: False
      then show ?thesis using assms(1) p st False on_confirmed [OF assms(2)]
        by (auto simp: approvePayableInTx_def split: if_splits)
    qed
    then show ?thesis by (rule office_frozen [OF o p assms(2)])
  qed simp
qed

lemma hod_frozen:
  assumes "snd (hodApprovePayableInTx env u via k db) = Inr (db', v)" "confirmed i db"
  shows "frozen i db db'"
proof -
  obtain p where p: "lockPayable db k = Some p" using assms(1) by (auto simp: hodApprovePayableInTx_def split: option.splits)
  obtain ns ok where h: "two_hands env u (py_approvedBy p) (py_id p) = (ns, ok)" by fastforce
  have "db' = db \<or> (po_payables db' = replaced_row (p\<lparr> py_hodApprovedAt := Some (pe_now env), py_hodApprovedBy := Some u \<rparr>) (po_payables db)
      \<and> po_bills db' = po_bills db)"
    using assms(1) p h by (auto simp: hodApprovePayableInTx_def Let_def split: if_splits)
  then show ?thesis using one_row [OF assms(2) p, of "p\<lparr> py_hodApprovedAt := Some (pe_now env), py_hodApprovedBy := Some u \<rparr>" db']
    by (auto simp: row_keeps_def)
qed

lemma reject_frozen:
  assumes "reject_work why u k db = Inr (db', v)" "confirmed i db"
  shows "frozen i db db'"
proof -
  obtain p where p: "lockPayable db k = Some p" and db': "po_payables db' = replaced_row (back_to_office u why p) (po_payables db)"
    "po_bills db' = po_bills db"
    using assms(1) by (auto simp: reject_work_def Let_def split: option.splits if_splits)
  show ?thesis by (rule one_row [OF assms(2) p _ db']) (simp add: row_keeps_def back_to_office_def)
qed

lemma refresh_keeps: "refreshPayoutDestination env p = Inr p' \<Longrightarrow> row_keeps i p p'"
  by (drule refresh_cases) (auto simp: row_keeps_def)

lemma hold_frozen:
  assumes "hold_work env h why u k db = Inr (db', v)" "confirmed i db"
  shows "frozen i db db'"
proof -
  obtain p where p: "lockPayable db k = Some p" using assms(1) by (auto simp: hold_work_def split: option.splits)
  let ?held = "\<lambda>q. q\<lparr> py_onHold := h, py_holdReason := if h then Some why else None \<rparr>"
  show ?thesis
  proof (cases "db' = db")
    case False
    then obtain p1 db1 p3 where s: "(if h then releaseFromAssayerInvoice u ''held'' p db else Inr (p, db)) = Inr (p1, db1)"
      and r: "(if h then Inr (?held p1) else refreshPayoutDestination env (?held p1)) = Inr p3"
      and db': "po_payables db' = replaced_row p3 (po_payables db1)" "po_bills db' = po_bills db1"
      using assms(1) p unfolding hold_work_def Let_def
      by (simp split: if_split_asm sum.split_asm prod.split_asm) auto
    have a: "frozen i db db1" "lockPayable db1 k = Some p1"
      using s release_frozen [of u "''held''" p db p1 db1 k i] assms(2) p by (auto split: if_splits)
    have "row_keeps i (?held p1) p3" using r refresh_keeps [of env "?held p1" p3 i] by (auto split: if_splits)
    moreover have "row_keeps i p1 (?held p1)" by (simp add: row_keeps_def)
    ultimately have "row_keeps i p1 p3" using row_keeps_trans by blast
    then have "frozen i db1 db'" by (rule one_row [OF confirmed_frozen [OF a(1) assms(2)] a(2) _ db'])
    with a(1) show ?thesis by (rule frozen_trans)
  qed simp
qed

lemma void_frozen:
  assumes "void_work u why k db = Inr (db', v)" "confirmed i db"
  shows "frozen i db db'"
proof -
  obtain p where p: "lockPayable db k = Some p" using assms(1) by (auto simp: void_work_def split: option.splits)
  show ?thesis
  proof (cases "db' = db")
    case False
    then obtain p1 db1 where s: "releaseFromAssayerInvoice u ''voided'' p db = Inr (p1, db1)"
      using assms(1) p by (auto simp: void_work_def split: if_splits sum.splits)
    define p2 where "p2 = p1\<lparr> py_status := AP_VOIDED, py_onHold := False, py_holdReason := None \<rparr>"
    define db2 where "db2 = payout_audit ''PAYABLE_VOIDED'' (py_id p) (payable_state (py_status p)) (payable_state AP_VOIDED) u
       (payable_log ''PAYABLE'' p ''PAYABLE_STATUS_CHANGED'' (Some (py_status p)) (Some AP_VOIDED) (Some why) u (save_payable p2 db1))"
    have two: "po_payables db2 = replaced_row p2 (po_payables db1)" "po_bills db2 = po_bills db1" by (simp_all add: db2_def)
    have fin: "db' = cancel_client_line u why p2 (case py_billId p1 of None \<Rightarrow> db2 | Some j \<Rightarrow> reconcileApprovedInvoiceAfterVoid u j db2)"
      unfolding p2_def db2_def using assms(1) p False s unfolding void_work_def Let_def
      by (simp del: assayerPayableStatusValue.simps split: if_split_asm) (elim conjE, simp)
    note a = release_frozen [OF s p assms(2)]
    have one: "frozen i db1 db2"
      using a confirmed_frozen [of i db db1] assms(2) by (intro one_row [OF _ _ _ two]) (auto simp: row_keeps_def p2_def)
    with a have c: "frozen i db db2" "confirmed i db2" using frozen_trans confirmed_frozen assms(2) by blast+
    have "frozen i db2 (case py_billId p1 of None \<Rightarrow> db2 | Some j \<Rightarrow> reconcileApprovedInvoiceAfterVoid u j db2)"
      using reconcile_frozen [OF c(2)] by (simp split: option.split)
    with c(1) have "frozen i db (case py_billId p1 of None \<Rightarrow> db2 | Some j \<Rightarrow> reconcileApprovedInvoiceAfterVoid u j db2)" by (rule frozen_trans)
    then show ?thesis by (rule frozen_cong) (simp_all add: fin split: option.split)
  qed simp
qed

section \<open>Calls on other bills\<close>

lemma approve_lines_frozen:
  "snd (approve_lines env u ls db) = Inr (db', v) \<Longrightarrow> confirmed i db \<Longrightarrow> off_bill i db (py_id ` set ls) \<Longrightarrow> frozen i db db'"
proof (induction ls arbitrary: db v)
  case (Cons l ls)
  show ?case
  proof (cases "py_status l = AP_PENDING")
    case True
    obtain ns r where one: "approvePayableInTx env u True None (py_id l) db = (ns, r)" by fastforce
    obtain db1 saved moved where r: "r = Inr (db1, saved, moved)"
      using Cons.prems(1) True one by (cases r) auto
    obtain ns' r' where rest: "approve_lines env u ls db1 = (ns', r')" by fastforce
    obtain v' where r': "r' = Inr (db', v')" using Cons.prems(1) True one r rest by (cases r') auto
    have a: "frozen i db db1"
      using approve_frozen [of env u True None "py_id l" db db1 "(saved, moved)" i] one r Cons.prems(2,3)
      by (auto intro: off_bill_subset)
    have "off_bill i db1 (py_id ` set ls)" by (rule off_bill_frozen [OF a off_bill_subset [OF Cons.prems(3)]]) auto
    then have "frozen i db1 db'" using Cons.IH [of db1 v'] rest r' confirmed_frozen [OF a Cons.prems(2)] by simp
    with a show ?thesis by (rule frozen_trans)
  qed (use Cons in \<open>auto intro: off_bill_subset\<close>)
qed simp

lemma hod_lines_frozen: "snd (hod_approve_lines env u ls db) = Inr (db', v) \<Longrightarrow> confirmed i db \<Longrightarrow> frozen i db db'"
proof (induction ls arbitrary: db)
  case (Cons l ls)
  show ?case
  proof (cases "py_status l = AP_APPROVED \<and> py_hodApprovedAt l = None")
    case True
    obtain ns r where one: "hodApprovePayableInTx env u True (py_id l) db = (ns, r)" by fastforce
    obtain db1 saved where r: "r = Inr (db1, saved)" using Cons.prems(1) True one by (cases r) auto
    obtain ns' r' where rest: "hod_approve_lines env u ls db1 = (ns', r')" by fastforce
    have r': "r' = Inr (db', v)" using Cons.prems(1) True one r rest by (cases r') auto
    have a: "frozen i db db1" using hod_frozen [of env u True "py_id l" db db1 saved i] one r Cons.prems by simp
    have "frozen i db1 db'" using Cons.IH [of db1] rest r' confirmed_frozen [OF a Cons.prems(2)] by simp
    with a show ?thesis by (rule frozen_trans)
  qed (use Cons in auto)
qed simp

lemma send_back_frozen:
  "off_bill i db (py_id ` set ls) \<Longrightarrow> \<forall>l \<in> set ls. py_billId l \<noteq> Some i \<Longrightarrow> frozen i db (send_lines_back u y ls db)"
proof (induction ls arbitrary: db)
  case (Cons l ls)
  let ?l = "(back_to_office u y l)\<lparr> py_hodApprovedAt := None, py_hodApprovedBy := None \<rparr>"
  define db1 where "db1 = (if py_status l \<noteq> AP_APPROVED then db
     else payable_log ''PAYABLE'' l ''PAYABLE_HOD_REJECTED'' (Some AP_APPROVED) (Some AP_PENDING) (Some y) u (save_payable ?l db))"
  have a: "frozen i db db1"
  proof (cases "py_status l = AP_APPROVED")
    case True
    have "row_keeps i q (if py_id q = py_id ?l then ?l else q)" if "q \<in> set (po_payables db)" for q
      using Cons.prems that True by (auto simp: off_bill_def row_keeps_def back_to_office_def)
    then show ?thesis using True
      by (simp add: db1_def frozen_def find_bill_def replaced_row_def list.rel_map list_all2_same)
  qed (simp add: db1_def)
  have "off_bill i db1 (py_id ` set ls)" by (rule off_bill_frozen [OF a off_bill_subset [OF Cons.prems(1)]]) auto
  then have "frozen i db (send_lines_back u y ls db1)" using frozen_trans [OF a Cons.IH] Cons.prems(2) by simp
  then show ?case by (simp add: db1_def)
qed simp

lemma bill_approve_result:
  assumes "snd (bill_approve_work env j u db) = Inr (db', v)" "db' \<noteq> db"
  obtains b ns db1 w where "find_bill db j = Some b" "bl_status b = AI_SUBMITTED"
    "approve_lines env u (sorted_lines db j) db = (ns, Inr (db1, w))" "\<bar>w\<bar> \<le> MONEY_EPSILON / 2"
    "db' = settleAssayerInvoiceIfPaid u j (payout_audit ''ASSAYER_INVOICE_APPROVED'' j (bill_state AI_SUBMITTED) (bill_state AI_APPROVED) u
       (bill_log b ''ASSAYER_INVOICE_APPROVED'' (Some AI_SUBMITTED) (Some AI_APPROVED) None u
         (save_bill (b\<lparr> bl_status := AI_APPROVED, bl_approvedBy := Some u, bl_hodApprovedAt := None, bl_hodApprovedBy := None \<rparr>) db1)))"
proof -
  obtain b where b: "find_bill db j = Some b" using assms(1) by (auto simp: bill_approve_work_def split: option.splits)
  obtain ns r where a: "approve_lines env u (sorted_lines db j) db = (ns, r)" by fastforce
  obtain db1 w where r: "r = Inr (db1, w)"
    using assms a b by (cases r) (auto simp: bill_approve_work_def Let_def split: if_splits)
  show thesis
    by (rule that [OF b _ a [unfolded r]])
       (use assms a b r in \<open>simp_all add: bill_approve_work_def Let_def split: if_split_asm\<close>)
qed

lemma bill_hod_result:
  assumes "snd (bill_hod_work env j u db) = Inr (db', v)" "db' \<noteq> db"
  obtains b ns db1 where "find_bill db j = Some b" "bl_status b = AI_APPROVED"
    "hod_approve_lines env u (sorted_lines db j) db = (ns, Inr (db1, ()))"
    "db' = settleAssayerInvoiceIfPaid u j (payout_audit ''ASSAYER_INVOICE_HOD_APPROVED'' j (bill_state AI_APPROVED) (bill_state AI_HOD_APPROVED) u
       (bill_log b ''ASSAYER_INVOICE_HOD_APPROVED'' (Some AI_APPROVED) (Some AI_HOD_APPROVED) None u
         (save_bill (b\<lparr> bl_status := AI_HOD_APPROVED, bl_hodApprovedAt := Some (pe_now env), bl_hodApprovedBy := Some u \<rparr>) db1)))"
proof -
  obtain b where b: "find_bill db j = Some b" using assms(1) by (auto simp: bill_hod_work_def split: option.splits)
  obtain ns ok where h: "two_hands env u (bl_approvedBy b) j = (ns, ok)" by fastforce
  obtain ns' r where a: "hod_approve_lines env u (sorted_lines db j) db = (ns', r)" by fastforce
  obtain db1 where r: "r = Inr (db1, ())"
    using assms a b h by (cases r) (auto simp: bill_hod_work_def Let_def split: if_splits)
  show thesis
    by (rule that [OF b _ a [unfolded r]])
       (use assms a b h r in \<open>simp_all add: bill_hod_work_def Let_def split: if_split_asm\<close>)
qed

lemma settled_bill_frozen:
  assumes "frozen i db db1" "confirmed i db" "bl_id c \<noteq> i"
  shows "frozen i db (settleAssayerInvoiceIfPaid u j (payout_audit k j s t u (bill_log b h x y r u (save_bill c db1))))"
proof -
  have "frozen i db (save_bill c db1)" by (rule frozen_trans [OF assms(1) save_bill_frozen [OF assms(3)]])
  then have two: "frozen i db (payout_audit k j s t u (bill_log b h x y r u (save_bill c db1)))"
    by (rule frozen_cong) simp_all
  obtain d where d: "find_bill (payout_audit k j s t u (bill_log b h x y r u (save_bill c db1))) i = Some d" "bl_status d = AI_SUBMITTED"
    using on_confirmed [OF confirmed_frozen [OF two assms(2)]] by (elim exE conjE)
  show ?thesis by (rule frozen_trans [OF two settle_frozen [OF d]])
qed

lemma lines_off: "confirmed i db \<Longrightarrow> j \<noteq> i \<Longrightarrow> off_bill i db (py_id ` set (sorted_lines db j))"
proof -
  assume c: "confirmed i db" and ji: "j \<noteq> i"
  have same: "p = l" if "p \<in> set (po_payables db)" "l \<in> set (po_payables db)" "py_id p = py_id l" for p l
    using c that by (simp add: confirmed_def distinct_map inj_on_def)
  have "l \<in> set (po_payables db) \<and> py_billId l = Some j" if "l \<in> set (sorted_lines db j)" for l
    using that by (simp add: sorted_lines_def bill_lines_def)
  then show ?thesis using same ji unfolding off_bill_def by (metis imageE option.inject)
qed

lemma bill_ids_saved: "map bl_id (po_bills (save_bill x db)) = map bl_id (po_bills db)"
  by (auto simp: save_bill_def)

lemma bill_approve_frozen:
  assumes "snd (bill_approve_work env j u db) = Inr (db', v)" "confirmed i db" "j \<noteq> i"
  shows "frozen i db db'"
proof (cases "db' = db")
  case False
  show ?thesis
  proof (rule bill_approve_result [OF assms(1) False])
    fix b ns db1 w
    assume b: "find_bill db j = Some b" and a: "approve_lines env u (sorted_lines db j) db = (ns, Inr (db1, w))"
      and db': "db' = settleAssayerInvoiceIfPaid u j (payout_audit ''ASSAYER_INVOICE_APPROVED'' j (bill_state AI_SUBMITTED) (bill_state AI_APPROVED) u
       (bill_log b ''ASSAYER_INVOICE_APPROVED'' (Some AI_SUBMITTED) (Some AI_APPROVED) None u
         (save_bill (b\<lparr> bl_status := AI_APPROVED, bl_approvedBy := Some u, bl_hodApprovedAt := None, bl_hodApprovedBy := None \<rparr>) db1)))"
    have "snd (approve_lines env u (sorted_lines db j) db) = Inr (db1, w)" using a by simp
    then have "frozen i db db1" by (rule approve_lines_frozen [OF _ assms(2) lines_off [OF assms(2,3)]])
    then show ?thesis unfolding db' using find_bill_Some [OF b] assms(2,3) by (intro settled_bill_frozen) auto
  qed
qed simp

lemma bill_hod_frozen:
  assumes "snd (bill_hod_work env j u db) = Inr (db', v)" "confirmed i db"
  shows "frozen i db db'"
proof (cases "db' = db")
  case False
  show ?thesis
  proof (rule bill_hod_result [OF assms(1) False])
    fix b ns db1
    assume b: "find_bill db j = Some b" "bl_status b = AI_APPROVED"
      and a: "hod_approve_lines env u (sorted_lines db j) db = (ns, Inr (db1, ()))"
      and db': "db' = settleAssayerInvoiceIfPaid u j (payout_audit ''ASSAYER_INVOICE_HOD_APPROVED'' j (bill_state AI_APPROVED) (bill_state AI_HOD_APPROVED) u
       (bill_log b ''ASSAYER_INVOICE_HOD_APPROVED'' (Some AI_APPROVED) (Some AI_HOD_APPROVED) None u
         (save_bill (b\<lparr> bl_status := AI_HOD_APPROVED, bl_hodApprovedAt := Some (pe_now env), bl_hodApprovedBy := Some u \<rparr>) db1)))"
    have "snd (hod_approve_lines env u (sorted_lines db j) db) = Inr (db1, ())" using a by simp
    then have "frozen i db db1" using assms(2) by (rule hod_lines_frozen)
    then show ?thesis unfolding db' using other_bill [OF assms(2) b(1)] b(2) assms(2) by (intro settled_bill_frozen) auto
  qed
qed simp

lemma hod_reject_bill_frozen:
  assumes "confirmed i db"
  shows "frozen i db (fst (hodRejectBill env j r u db))"
  unfolding hodRejectBill_def Let_def
proof (split option.split, intro conjI allI impI tx_frozen, goal_cases)
  case (1 db' v)
  obtain b where b: "find_bill db j = Some b" using 1 by (auto split: option.splits)
  then have st: "bl_status b = AI_APPROVED" using 1 by (auto split: if_splits)
  then have other: "j \<noteq> i" "bl_id b \<noteq> i" using other_bill [OF assms b] by auto
  let ?y = "js_trim (nullish_value r [])"
  let ?b = "b\<lparr> bl_status := AI_SUBMITTED, bl_approvedBy := None, bl_hodRejectedBy := Some u, bl_hodRejectReason := Some ?y \<rparr>"
  have db': "po_payables db' = po_payables (send_lines_back u ?y (sorted_lines db j) db)"
    "po_bills db' = po_bills (save_bill ?b (send_lines_back u ?y (sorted_lines db j) db))"
    using 1 b by (simp_all split: if_split_asm option.split_asm) (elim conjE; hypsubst; simp)+
  have one: "frozen i db (send_lines_back u ?y (sorted_lines db j) db)"
    using lines_off [OF assms other(1)] other(1) by (intro send_back_frozen) (auto simp: sorted_lines_def bill_lines_def)
  have "frozen i db (save_bill ?b (send_lines_back u ?y (sorted_lines db j) db))"
    using other(2) by (intro frozen_trans [OF one save_bill_frozen]) simp
  then show ?case by (rule frozen_cong) (simp_all add: db')
qed simp

lemma cancel_bill_frozen:
  assumes "confirmed i db" "j \<noteq> i"
  shows "frozen i db (fst (cancelBill env j r u db))"
  unfolding cancelBill_def Let_def
proof (split if_split, intro conjI impI tx_frozen, goal_cases)
  case (2 db' v)
  obtain b where b: "find_bill db j = Some b" using 2 by (auto split: option.splits)
  have one: "frozen i db (relink (bill_lines db j) None db)"
    using lines_off [OF assms] by (intro relink_frozen) (simp_all add: sorted_lines_def)
  let ?b = "b\<lparr> bl_status := AI_CANCELLED, bl_cancelReason := Some (js_trim (nullish_value r [])) \<rparr>"
  have two: "frozen i db (save_bill ?b (relink (bill_lines db j) None db))"
    using find_bill_Some [OF b] assms(2) by (intro frozen_trans [OF one save_bill_frozen]) simp
  have "db' = db \<or> (po_payables db' = po_payables (relink (bill_lines db j) None db)
      \<and> po_bills db' = po_bills (save_bill ?b (relink (bill_lines db j) None db)))"
    using 2 b by (auto split: if_splits)
  then show ?case using frozen_cong [OF two, of db'] by auto
qed simp

lemma supersede_frozen:
  assumes "bl_id b \<noteq> i" "bl_id r \<noteq> i" "off_bill i db (py_id ` set keep)" "off_bill i db (py_id ` set gone)"
  shows "frozen i db (supersede b r keep gone db)"
proof -
  let ?s = "save_bill (b\<lparr> bl_status := AI_SUPERSEDED \<rparr>) db"
  have a: "frozen i db ?s" using assms(1) by (intro save_bill_frozen) simp
  have b: "frozen i db (?s\<lparr> po_bills := po_bills ?s @ [r] \<rparr>)" by (rule frozen_trans [OF a append_bill_frozen [OF assms(2)]])
  have c: "frozen i db (relink keep (Some (bl_id r)) (?s\<lparr> po_bills := po_bills ?s @ [r] \<rparr>))"
    using assms(2) by (intro frozen_trans [OF b relink_frozen] off_bill_frozen [OF b assms(3)]) simp
  have d: "frozen i db (relink gone None (relink keep (Some (bl_id r)) (?s\<lparr> po_bills := po_bills ?s @ [r] \<rparr>)))"
    by (intro frozen_trans [OF c relink_frozen] off_bill_frozen [OF c assms(4)]) simp
  show ?thesis unfolding supersede_def Let_def using assms(1) by (intro frozen_trans [OF d save_bill_frozen]) simp
qed

lemma revise_frozen:
  assumes "reviseInTx env j u y ls db = Inr (db', v)" "confirmed i db" "j \<noteq> i"
    and "off_bill i db (py_id ` set (nullish_value ls (sorted_lines db j)))"
  shows "frozen i db db'"
proof (rule revise_result [OF assms(1)], goal_cases)
  case (1 b keep gone)
  have "bl_id b \<noteq> i" using find_bill_Some [OF 1(1)] assms(3) by simp
  moreover have "bl_id v \<noteq> i"
  proof -
    obtain c where c: "find_bill db i = Some c" using on_confirmed [OF assms(2)] by blast
    have "i \<in> bl_id ` set (po_bills db)" using find_bill_Some [OF c] by force
    moreover have "bl_id ` set (po_bills (save_bill x db)) = bl_id ` set (po_bills db)" for x
      using bill_ids_saved [of x db] by (metis list.set_map)
    ultimately show ?thesis using 1(7) by (auto simp: insertable_def)
  qed
  moreover have "off_bill i db (py_id ` set keep)" "off_bill i db (py_id ` set gone)"
    using assms(4) by (auto simp: 1(3,4) intro: off_bill_subset)
  ultimately have "frozen i db (supersede b v keep gone db)" by (rule supersede_frozen)
  then show ?case by (rule frozen_cong) (use 1 in simp_all)
qed

lemma retax_frozen:
  "retax_lines env u ls db = Inr (db', ls') \<Longrightarrow> confirmed i db \<Longrightarrow> off_bill i db (py_id ` set ls) \<Longrightarrow>
   frozen i db db' \<and> py_id ` set ls' \<subseteq> py_id ` set ls"
proof (induction ls arbitrary: db ls')
  case (Cons l ls)
  obtain db1 l' v' where one: "(if py_status l = AP_PENDING then reTaxDueLine env u (py_id l) db else Inr (db, l)) = Inr (db1, l')"
    and rest: "retax_lines env u ls db1 = Inr (db', v')" and ls': "ls' = l' # v'"
    using Cons.prems(1) by (auto split: sum.splits if_splits)
  have a: "frozen i db db1 \<and> py_id l' = py_id l"
  proof (cases "py_status l = AP_PENDING")
    case True
    then have t: "reTaxDueLine env u (py_id l) db = Inr (db1, l')" using one by simp
    obtain p where p: "lockPayable db (py_id l) = Some p" using t by (auto simp: reTaxDueLine_def split: option.splits)
    have off: "py_billId p \<noteq> Some i" using Cons.prems(3) lockPayable_Some [OF p] by (auto simp: off_bill_def)
    have id: "py_id p = py_id l" using lockPayable_Some [OF p] by simp
    show ?thesis
    proof (cases "py_status p = AP_PENDING")
      case pend: True
      then obtain p' where r: "recomputeTdsAtApproval env db p = Inr p'" and l': "l' = p'"
        and db1: "po_payables db1 = po_payables db \<or> po_payables db1 = replaced_row p' (po_payables db)" "po_bills db1 = po_bills db"
        using t p by (auto simp: reTaxDueLine_def Let_def split: sum.splits if_splits)
      have k: "py_id p' = py_id p" "py_billId p' = py_billId p" using recompute_cases [OF r] by (auto simp: retaxed_def)
      have "row_keeps i p p'" using k off by (simp add: row_keeps_def)
      then have "frozen i db db1" using db1 one_row [OF Cons.prems(2) p, of p' db1] frozen_same [of db1 db i] by auto
      then show ?thesis using k id l' by simp
    qed (use t p id in \<open>auto simp: reTaxDueLine_def\<close>)
  qed (use one in auto)
  have "off_bill i db1 (py_id ` set ls)" by (rule off_bill_frozen [OF conjunct1 [OF a] off_bill_subset [OF Cons.prems(3)]]) auto
  then have "frozen i db1 db' \<and> py_id ` set v' \<subseteq> py_id ` set ls"
    using Cons.IH [OF rest] confirmed_frozen [OF conjunct1 [OF a] Cons.prems(2)] by blast
  then show ?case using a frozen_trans ls' by auto
qed simp

lemma tax_change_frozen:
  assumes "sendBackForTaxChange env j u db = Inr (db', v)" "confirmed i db" "j \<noteq> i"
  shows "frozen i db db'"
proof -
  obtain db1 ls where r: "retax_lines env u (sorted_lines db j) db = Inr (db1, ls)"
    and s: "reviseInTx env j u ''tax was recalculated'' (Some ls) db1 = Inr (db', v)"
    using assms(1) by (auto simp: sendBackForTaxChange_def split: sum.splits)
  have a: "frozen i db db1" "py_id ` set ls \<subseteq> py_id ` set (sorted_lines db j)"
    using retax_frozen [OF r assms(2) lines_off [OF assms(2,3)]] by auto
  have "off_bill i db1 (py_id ` set ls)"
    by (rule off_bill_frozen [OF a(1) off_bill_subset [OF lines_off [OF assms(2,3)] a(2)]])
  then have "frozen i db1 db'" using revise_frozen [OF s confirmed_frozen [OF a(1) assms(2)] assms(3)] by simp
  with a(1) show ?thesis by (rule frozen_trans)
qed

lemma approve_bill_frozen:
  assumes "confirmed i db" "j \<noteq> i"
  shows "frozen i db (fst (approveBill env env' j u db))"
proof -
  obtain db1 out where first: "payout_tx env db (bill_approve_work env j u db) = (db1, out)" by fastforce
  have a: "frozen i db db1"
    using tx_frozen [of "bill_approve_work env j u db" i db env] bill_approve_frozen [OF _ assms] first by auto
  obtain db2 out' where second: "payout_tx env' db1 ([], sendBackForTaxChange env' j u db1) = (db2, out')" by fastforce
  have "frozen i db1 db2"
    using tx_frozen [of "([], sendBackForTaxChange env' j u db1)" i db1 env']
      tax_change_frozen [OF _ confirmed_frozen [OF a assms(1)] assms(2)] second by auto
  then have "frozen i db db2" using a frozen_trans by blast
  then show ?thesis using a first second by (auto simp: approveBill_def split: sum.split payout_refusal.split)
qed

section \<open>Bookings, payments and invitations\<close>

definition unmoved :: "string \<Rightarrow> payout_db \<Rightarrow> payout_db \<Rightarrow> bool" where
  "unmoved i db db' \<longleftrightarrow> find_bill db' i = find_bill db i \<and> bill_sheet db' i = bill_sheet db i"

lemma frozen_unmoved: "frozen i db db' \<Longrightarrow> unmoved i db db'"
  by (simp add: unmoved_def frozen_bill frozen_sheet)

lemma unmoved_refl [simp]: "unmoved i db db"
  by (simp add: unmoved_def)

lemma unmoved_cong:
  "unmoved i a b \<Longrightarrow> po_payables c = po_payables b \<Longrightarrow> po_bills c = po_bills b \<Longrightarrow> unmoved i a c"
  by (simp add: unmoved_def find_bill_def bill_sheet_def bill_lines_def)

lemma tx_unmoved:
  assumes "\<And>db' v. snd w = Inr (db', v) \<Longrightarrow> unmoved i db db'"
  shows "unmoved i db (fst (payout_tx env db w))"
  using tx_cases [of w env db]
proof (elim disjE exE conjE)
  fix db' v assume "snd w = Inr (db', v)" "fst (payout_tx env db w) = keep_notes (fst w) db'"
  then show ?thesis using assms [of db' v] by (auto elim!: unmoved_cong)
next
  assume "fst (payout_tx env db w) = keep_notes (fst w) db"
  then show ?thesis by (intro unmoved_cong [OF unmoved_refl]) simp_all
qed

lemma insert_unmoved: "insertPayable p u db = Inr (db', q) \<Longrightarrow> py_billId p = None \<Longrightarrow> unmoved i db db'"
  by (auto dest!: insert_result simp: unmoved_def find_bill_def bill_sheet_def bill_lines_def)

lemma book_legs_unmoved:
  assumes "book_legs env a y c f u db = Inr (db', v)"
  shows "unmoved i db db'"
proof -
  obtain ctx hasPan where ctx: "moneyContextFor env c y 0 = (ctx, hasPan)" by fastforce
  let ?m = "assignmentMoney f ctx"
  have "db' = db \<or> (\<exists>db1 p d. (db1 = db
        \<or> insertPayable (fee_payable env y c a (assayer_side ?m) d (assayerTdsRate ctx) hasPan) u db = Inr (db1, p))
      \<and> po_payables db' = po_payables db1 \<and> po_bills db' = po_bills db1)"
    using assms ctx unfolding book_legs_def Let_def
    by (simp split: if_split_asm option.split_asm sum.split_asm prod.split_asm) (auto dest: client_line_rows)
  then show ?thesis
  proof (elim disjE exE conjE)
    fix db1 p d
    assume "insertPayable (fee_payable env y c a (assayer_side ?m) d (assayerTdsRate ctx) hasPan) u db = Inr (db1, p)"
      and rows: "po_payables db' = po_payables db1" "po_bills db' = po_bills db1"
    from this(1) have "unmoved i db db1" by (rule insert_unmoved) (simp add: fee_payable_def payable_row_def)
    then show ?thesis using rows by (rule unmoved_cong)
  qed (auto intro: unmoved_cong [OF unmoved_refl])
qed

lemma book_unmoved: "unmoved i db (fst (bookAssignment env a u db))"
  unfolding bookAssignment_def
proof (rule tx_unmoved, goal_cases)
  case (1 db' v)
  then have "db' = db \<or> (\<exists>y c f. book_legs env a y c f u db = Inr (db', v))"
    by (auto split: option.splits if_splits)
  then show ?case by (auto intro: book_legs_unmoved)
qed

lemma reimburse_unmoved: "unmoved i db (fst (payout_tx env db ([], createReimbursementPayable env x y a n u db)))"
proof (rule tx_unmoved, goal_cases)
  case (1 db' v)
  then obtain r where ins: "insertPayable (payable_row env y (Option.bind (pe_job env a) jb_clientId) a (Some x) (roundMoney r) 0 0
      (roundMoney r) None None) u db = Inr (db', v)"
    by (auto simp: createReimbursementPayable_def Let_def split: js_number.splits)
  show ?case by (rule insert_unmoved [OF ins]) (simp add: payable_row_def)
qed

lemma reprice_payable_frozen:
  assumes "reprice_payable env u y m r h p db = Inr (db', v)" "confirmed i db" "liveFeePayable db a = Some p"
  shows "frozen i db db'"
proof (cases "po_payables db' = po_payables db \<and> po_bills db' = po_bills db")
  case True
  then show ?thesis by (intro frozen_same) auto
next
  case False
  have free: "\<not> reprice_frozen db p" and st: "py_status p \<noteq> AP_PAID"
    using assms(1) False by (auto simp: reprice_payable_def split: if_splits)
  obtain d where d: "assayerFeeTds env db y (as_gross (assayer_side m)) r (py_bookedOn p) (Some (py_id p)) = Inr d"
    using assms(1) free st by (auto simp: reprice_payable_def split: if_splits sum.splits)
  define p' where "p' = p\<lparr> py_base := as_base (assayer_side m), py_travel := as_travel (assayer_side m), py_tds := tds d,
      py_total := roundMoney (as_gross (assayer_side m) - tds d),
      py_tdsRate := Some (Num r), py_tdsPanBasis := Some (if h then ''PAN'' else ''NO_PAN'') \<rparr>"
  define db1 where "db1 = payable_log ''PAYABLE'' p ''PAYABLE_REPRICED'' None None (Some ''Assignment fee changed'') u (save_payable p' db)"
  have off: "py_billId p \<noteq> Some i" using free on_confirmed [OF assms(2)] by (auto simp: reprice_frozen_def)
  have p: "p \<in> set (po_payables db)" using assms(3) by (auto simp: liveFeePayable_def find_Some_iff)
  have "row_keeps i q (if py_id q = py_id p' then p' else q)" if "q \<in> set (po_payables db)" for q
    using assms(2) p that off by (auto simp: row_keeps_def p'_def confirmed_def distinct_map dest: inj_onD)
  then have one: "frozen i db db1"
    by (simp add: db1_def frozen_def find_bill_def replaced_row_def list.rel_map list_all2_same)
  have "db' = (case py_billId p of None \<Rightarrow> db1 | Some j \<Rightarrow> (case find_bill db j of None \<Rightarrow> db1
      | Some b \<Rightarrow> if bl_status b = AI_INVITED then recomputeAssayerInvoice u ''re-priced'' b db1 else db1))"
    unfolding db1_def p'_def using assms(1) free st d unfolding reprice_payable_def Let_def
    by (simp split: if_split_asm)
  then have "db' = db1 \<or> (\<exists>j b. find_bill db j = Some b \<and> bl_status b = AI_INVITED \<and> db' = recomputeAssayerInvoice u ''re-priced'' b db1)"
    by (auto split: option.splits)
  then show ?thesis
  proof (elim disjE exE conjE)
    fix j b assume b: "find_bill db j = Some b" "bl_status b = AI_INVITED" and db': "db' = recomputeAssayerInvoice u ''re-priced'' b db1"
    have "bl_id b \<noteq> i" using other_bill [OF assms(2) b(1)] b(2) by simp
    then show ?thesis unfolding db' by (rule frozen_trans [OF one recompute_frozen])
  qed (use one in simp)
qed

lemma reprice_frozen_call:
  assumes "confirmed i db"
  shows "frozen i db (fst (repriceAssignment env a u db))"
  unfolding repriceAssignment_def Let_def
proof (rule tx_frozen, goal_cases)
  case (1 db' v)
  then have "db' = db \<or> (\<exists>y m r h db1. (db1 = db \<or>
      (\<exists>p w. liveFeePayable db a = Some p \<and> reprice_payable env u y m r h p db = Inr (db1, w)))
      \<and> po_payables db' = po_payables db1 \<and> po_bills db' = po_bills db1)"
    by (simp split: if_split_asm option.split_asm sum.split_asm prod.split_asm) (auto dest!: reprice_line_rows, (metis)+)
  then show ?case
  proof (elim disjE exE conjE)
    fix y m r h db1 p w
    assume "liveFeePayable db a = Some p" "reprice_payable env u y m r h p db = Inr (db1, w)"
      and rows: "po_payables db' = po_payables db1" "po_bills db' = po_bills db1"
    then have "frozen i db db1" using reprice_payable_frozen assms by blast
    then show ?thesis using rows by (rule frozen_cong)
  qed (auto intro: frozen_same)
qed

lemma edit_line_frozen: "frozen i db (fst (editClientLine env a pt u db))"
  unfolding editClientLine_def Let_def
  by (rule tx_frozen) (auto intro!: frozen_same split: option.splits sum.splits if_splits)

lemma disburse_frozen:
  assumes "disburse env ref asked n u (p\<lparr> py_destination := d \<rparr>) db = Inr (db', q)" "lockPayable db k = Some p" "confirmed i db"
  shows "frozen i db db'"
proof -
  define p' where "p' = paid_row q d p"
  have rows: "po_payables db' = replaced_row p' (po_payables db)" using disburse_result [OF assms(1)] by (simp add: p'_def)
  have bills: "po_bills db' = po_bills (save_payable p' db) \<or> (\<exists>j. po_bills db' = po_bills (settleAssayerInvoiceIfPaid u j (save_payable p' db)))"
    using assms(1) unfolding disburse_def Let_def p'_def
    by (simp split: if_split_asm option.split_asm) (auto simp: paid_row_def Let_def)
  have one: "frozen i db (save_payable p' db)"
    by (rule one_row [OF assms(3,2)]) (simp_all add: p'_def row_keeps_def paid_row_def Let_def)
  obtain c where c: "find_bill (save_payable p' db) i = Some c" "bl_status c = AI_SUBMITTED"
    using on_confirmed [OF confirmed_frozen [OF one assms(3)]] by (elim exE conjE)
  show ?thesis using bills
  proof (elim disjE exE)
    assume "po_bills db' = po_bills (save_payable p' db)"
    then show ?thesis using rows by (intro frozen_cong [OF one]) simp_all
  next
    fix j assume "po_bills db' = po_bills (settleAssayerInvoiceIfPaid u j (save_payable p' db))"
    then show ?thesis using rows by (intro frozen_cong [OF frozen_trans [OF one settle_frozen [OF c]]]) simp_all
  qed
qed

lemma disburse_call_frozen:
  assumes "confirmed i db"
  shows "frozen i db (fst (recordDisbursement env k ref asked n u db))"
  unfolding recordDisbursement_def
proof (rule tx_frozen, goal_cases)
  case (1 db' q)
  obtain p where p: "lockPayable db k = Some p" using 1 by (auto split: option.splits)
  obtain ns ok where h: "two_hands env u (py_approvedBy p) (py_id p) = (ns, ok)" by fastforce
  show ?case
  proof (cases "db' = db")
    case False
    obtain p1 where p1: "pay_destination env p = Inr p1" using 1 p False by (auto split: option.splits if_splits sum.splits)
    then obtain d where d: "p1 = p\<lparr> py_destination := d \<rparr>" using pay_destination_cases by blast
    have "disburse env ref asked n u (p\<lparr> py_destination := d \<rparr>) db = Inr (db', q)"
      using 1 p False p1 h unfolding d by (auto split: option.splits if_splits)
    then show ?thesis using p assms by (rule disburse_frozen)
  qed simp
qed

lemma unsettle_bills [simp]:
  "po_bills (unsettleAssayerInvoice u y j (save_payable p db)) = po_bills (unsettleAssayerInvoice u y j db)"
  "po_bills (unsettleAssayerInvoice u y j (log_refresh p q w db)) = po_bills (unsettleAssayerInvoice u y j db)"
  "po_bills (unsettleAssayerInvoice u y j (db\<lparr> po_payments := ps \<rparr>)) = po_bills (unsettleAssayerInvoice u y j db)"
  by (simp_all add: unsettleAssayerInvoice_def find_bill_def save_bill_def Let_def split: option.split)

lemma reverse_frozen:
  assumes "confirmed i db"
  shows "frozen i db (fst (reverseOutboundPayment env k r u db))"
  unfolding reverseOutboundPayment_def Let_def
proof (split if_split, intro conjI impI, goal_cases)
  case 2
  show ?case
  proof (rule tx_frozen, goal_cases)
    case (1 db' v)
    obtain q where q: "List.find (\<lambda>q. op_id q = k) (po_payments db) = Some q" using 1 by (auto split: option.splits)
    obtain p where p: "lockPayable db (op_payableId q) = Some p" using 1 q by (auto split: option.splits)
    have act: "op_isActive q" using 1 q p by (auto split: if_splits)
    define p1 where "p1 = unpaid_row (roundMoney (outbound_sum (undone k (po_payments db)) (py_id p))) p"
    obtain p2 where r: "refreshPayoutDestination env p1 = Inr p2"
      and db': "po_payables db' = replaced_row p2 (po_payables db)"
        "po_bills db' = po_bills db \<or> (\<exists>y j. po_bills db' = po_bills (unsettleAssayerInvoice u y j db))"
      using 1 q p act unfolding undone_def [symmetric] unpaid_row_def [symmetric]
      by (simp add: p1_def [symmetric] split: sum.split_asm) (auto split: option.splits if_splits, blast)
    have "row_keeps i p p1" by (simp add: p1_def unpaid_row_def row_keeps_def)
    then have keep: "row_keeps i p p2" using refresh_keeps [OF r] row_keeps_trans by blast
    have one: "frozen i db (save_payable p2 db)" by (rule one_row [OF assms p keep]) simp_all
    obtain c where c: "find_bill (save_payable p2 db) i = Some c" "bl_status c = AI_SUBMITTED"
      using on_confirmed [OF confirmed_frozen [OF one assms]] by (elim exE conjE)
    show ?case using db'(2)
    proof (elim disjE exE)
      assume "po_bills db' = po_bills db"
      then show ?thesis using db'(1) by (intro frozen_cong [OF one]) simp_all
    next
      fix y j assume "po_bills db' = po_bills (unsettleAssayerInvoice u y j db)"
      then show ?thesis using db'(1) by (intro frozen_cong [OF frozen_trans [OF one unsettle_frozen [OF c]]]) simp_all
    qed
  qed
qed simp

lemma relink_bills [simp]: "po_bills (relink ls x db) = po_bills db"
  by (simp add: relink_def)

lemma invite_frozen:
  assumes "confirmed i db"
  shows "frozen i db (fst (inviteAssayer env a u db))"
  unfolding inviteAssayer_def Let_def
proof (rule tx_frozen, goal_cases)
  case (1 db' v)
  let ?ls = "sort_key py_id (filter (\<lambda>p. py_assayerId p = a \<and> bill_eligible p) (po_payables db))"
  let ?b = "new_bill env (pe_number env) a u 1 None ?ls"
  let ?a = "db\<lparr> po_bills := po_bills db @ [?b] \<rparr>"
  have ins: "insertable ?b db" and db': "po_payables db' = po_payables (relink ?ls (Some (bl_id ?b)) ?a)" "po_bills db' = po_bills ?a"
    using 1 by (auto simp: relink_def split: if_splits option.splits)
  obtain c where c: "find_bill db i = Some c" using on_confirmed [OF assms] by blast
  then have other: "bl_id ?b \<noteq> i" using ins find_bill_Some [OF c] by (auto simp: insertable_def)
  have one: "frozen i db ?a" by (rule append_bill_frozen [OF other])
  have same: "p = l" if "p \<in> set (po_payables db)" "l \<in> set (po_payables db)" "py_id p = py_id l" for p l
    using assms that by (simp add: confirmed_def distinct_map inj_on_def)
  have free: "l \<in> set (po_payables db) \<and> py_billId l = None" if "l \<in> set ?ls" for l
    using that by (simp add: bill_eligible_def)
  have "off_bill i ?a (py_id ` set ?ls)"
    unfolding off_bill_def
  proof (intro ballI impI)
    fix p assume "p \<in> set (po_payables ?a)" "py_id p \<in> py_id ` set ?ls"
    then obtain l where l: "l \<in> set ?ls" "py_id p = py_id l" and p: "p \<in> set (po_payables db)" by (elim imageE) simp
    have "p = l" using p l(2) free [OF l(1)] by (intro same) simp_all
    then show "py_billId p \<noteq> Some i" using free [OF l(1)] by simp
  qed
  then have "frozen i db (relink ?ls (Some (bl_id ?b)) ?a)" by (rule frozen_trans [OF one relink_frozen]) (use other in simp)
  then show ?case by (rule frozen_cong) (simp_all only: db' relink_bills)
qed

lemma submit_frozen:
  assumes "confirmed i db" "keyed db"
  shows "frozen i db (fst (submitBill env a k h db))"
proof -
  have "frozen i db db'" if w: "snd w = Inr (db', v)" "w = ([], case open_bill db a of None \<Rightarrow> Inl NoInvitation
      | Some b \<Rightarrow> if bl_status b = AI_SUBMITTED then (if bl_submittedRequestId b = Some k then Inr (db, b) else Inl SubmittedElsewhere)
        else let b' = b\<lparr> bl_status := AI_SUBMITTED, bl_submittedRequestId := Some k, bl_confirmedVersion := Some (bl_revision b) \<rparr>
          in Inr (payout_audit ''ASSAYER_INVOICE_SUBMITTED'' (bl_id b) (bill_state AI_INVITED) (bill_state AI_SUBMITTED) y
               (bill_log b ''ASSAYER_INVOICE_SUBMITTED'' (Some AI_INVITED) (Some AI_SUBMITTED) r y (save_bill b' db)), b'))" for w db' v y r
  proof (cases "db' = db")
    case False
    obtain b where b: "open_bill db a = Some b" using w by (cases "open_bill db a") auto
    then have st: "bl_status b \<noteq> AI_SUBMITTED" using w False by (auto split: if_splits)
    have "b \<in> set (po_bills db)" using b by (auto simp: open_bill_def find_Some_iff)
    moreover obtain c where c: "find_bill db i = Some c" "bl_status c = AI_SUBMITTED" using on_confirmed [OF assms(1)] by blast
    ultimately have "bl_id b \<noteq> i"
      using st find_bill_Some [OF c(1)] assms(2) by (auto simp: keyed_def distinct_map inj_on_def)
    then have "frozen i db (save_bill (b\<lparr> bl_status := AI_SUBMITTED, bl_submittedRequestId := Some k, bl_confirmedVersion := Some (bl_revision b) \<rparr>) db)"
      by (intro save_bill_frozen) simp
    then show ?thesis by (rule frozen_cong) (use w b st in \<open>auto simp: Let_def\<close>)
  qed simp
  then show ?thesis unfolding submitBill_def Let_def
    by (simp split: option.split) (auto intro!: tx_frozen)
qed

section \<open>The property\<close>

fun about_bill :: "string \<Rightarrow> payout_call \<Rightarrow> bool" where
  "about_bill i (ApproveBill env env' j u) \<longleftrightarrow> j = i"
| "about_bill i (CancelBill env j r u) \<longleftrightarrow> j = i"
| "about_bill i (ReviseBill env j r u) \<longleftrightarrow> j = i"
| "about_bill i c \<longleftrightarrow> False"

text \<open>What is paid on a row, apart from the recording and the reversing of payments.\<close>

definition paid_on :: "payout_db \<Rightarrow> string \<Rightarrow> rat option" where
  "paid_on db k = map_option py_paid (lockPayable db k)"

definition bill_paid :: "payout_db \<Rightarrow> string \<Rightarrow> (string \<times> rat) list" where
  "bill_paid db i = map (\<lambda>p. (py_id p, py_paid p)) (bill_lines db i)"

lemma lock_of_row: "distinct (map py_id (po_payables db)) \<Longrightarrow> p \<in> set (po_payables db) \<Longrightarrow> lockPayable db (py_id p) = Some p"
proof -
  have "distinct (map py_id ps) \<Longrightarrow> p \<in> set ps \<Longrightarrow> List.find (\<lambda>q. py_id q = py_id p) ps = Some p" for ps
    by (induction ps) auto
  then show "distinct (map py_id (po_payables db)) \<Longrightarrow> p \<in> set (po_payables db) \<Longrightarrow> ?thesis" by (simp add: lockPayable_def)
qed

lemma bill_paid_rows:
  "distinct (map py_id (po_payables db)) \<Longrightarrow>
   bill_paid db i = map (\<lambda>k. (k, the (paid_on db k))) (map fst (bill_sheet db i))"
  by (simp add: bill_paid_def bill_sheet_def paid_on_def lock_of_row bill_lines_def)

lemma moves_paid: "payable_moves strict p p' \<Longrightarrow> py_paid p' = py_paid p"
  by (induction rule: rtranclp_induct) (auto dest: move_paid)

lemma moved_paid:
  "list_all2 (payable_moves strict) ps ps' \<Longrightarrow>
   map_option py_paid (List.find (\<lambda>p. py_id p = k) ps') = map_option py_paid (List.find (\<lambda>p. py_id p = k) ps)"
  by (induction rule: list_all2_induct) (auto dest: moves_id moves_paid)

lemma reversal_shows:
  assumes "List.find (\<lambda>q. op_id q = k) qs = Some q" "op_isActive q"
  shows "undone k qs \<noteq> qs"
proof
  assume "undone k qs = qs"
  then have "map (\<lambda>q. if op_id q = k then q\<lparr> op_isActive := False \<rparr> else q) qs = map (\<lambda>q. q) qs" by (simp add: undone_def)
  moreover have "q \<in> set qs" "op_id q = k" using assms(1) by (auto simp: find_Some_iff)
  ultimately have "q\<lparr> op_isActive := False \<rparr> = q" by (auto simp only: map_eq_conv split: if_splits)
  then have "op_isActive (q\<lparr> op_isActive := False \<rparr>) = op_isActive q" by simp
  then show False using assms(2) by simp
qed

lemma step_without_payment:
  assumes "payout_step strict db db'" "po_payments db' = po_payments db" "distinct (map py_id (po_payables db))"
  shows "distinct (map py_id (po_payables db')) \<and> (\<forall>k \<in> py_id ` set (po_payables db). paid_on db' k = paid_on db k)"
  using assms
proof (cases rule: payout_step.cases)
  case moved
  then show ?thesis using assms(3) by (simp add: moved_ids paid_on_def lockPayable_def moved_paid)
next
  case (booked p)
  have "List.find (\<lambda>q. py_id q = k) (ps @ [p]) = List.find (\<lambda>q. py_id q = k) ps" if "k \<in> py_id ` set ps" for k ps
    using that by (induction ps) auto
  with booked show ?thesis using assms(3) by (simp add: paid_on_def lockPayable_def)
qed (use assms(2) reversal_shows in auto)

lemma paid_unmoved:
  assumes "rows_ok db" "unmoved i db (payout_call_step c db)" "po_payments (payout_call_step c db) = po_payments db"
  shows "bill_paid (payout_call_step c db) i = bill_paid db i"
proof -
  let ?db = "payout_call_step c db"
  have d: "distinct (map py_id (po_payables db))" using assms(1) by (simp add: rows_ok_def)
  have "payout_step False db ?db" by (rule payout_calls_are_steps [OF assms(1)]) simp
  note step = step_without_payment [OF this assms(3) d]
  have sheet: "bill_sheet ?db i = bill_sheet db i" using assms(2) by (simp add: unmoved_def)
  have "paid_on ?db k = paid_on db k" if "k \<in> set (map fst (bill_sheet db i))" for k
    using step that by (auto simp: bill_sheet_def bill_lines_def)
  then show ?thesis unfolding bill_paid_rows [OF d] bill_paid_rows [OF conjunct1 [OF step]] sheet by (intro map_cong) auto
qed

text \<open>
  C10. A confirmed bill is frozen. While a bill the assayer submitted waits for the office, no call other than
  approving, cancelling or revising that bill - no booking, new price, hold, void, approval of a single
  payout, payment, reversal, invitation or work on another bill - changes the bill's record, which
  payables are on it, or the base, the travel, the tax withheld or the net of any of them. Money already paid
  on a line is not part of what was confirmed: a payout approved on its own before it was billed can still be
  paid. But what is paid on a line changes only in a call that records a payment or takes one back: on the
  rows of any history (distinct, with figures in whole paise), a call that leaves the payments as they were
  leaves the paid amounts of the lines as they were.
\<close>

theorem confirmed_bill_frozen:
  assumes "find_bill db i = Some b" "bl_status b = AI_SUBMITTED" "keyed db" "\<not> about_bill i c"
  shows "find_bill (payout_call_step c db) i = Some b \<and> bill_sheet (payout_call_step c db) i = bill_sheet db i
    \<and> (rows_ok db \<and> po_payments (payout_call_step c db) = po_payments db \<longrightarrow>
         bill_paid (payout_call_step c db) i = bill_paid db i)"
proof -
  have ok: "confirmed i db" using assms by (simp add: confirmed_def keyed_def)
  have "unmoved i db (payout_call_step c db)"
  proof (cases c)
    case (Book env a u) then show ?thesis by (simp add: book_unmoved)
  next
    case (Reimburse env x y a n u) then show ?thesis by (simp add: reimburse_unmoved)
  next
    case (OfficeApprove env k r u)
    have "frozen i db (fst (payout_tx env db (approvePayableInTx env u False r k db)))"
      by (rule tx_frozen) (erule approve_frozen [OF _ ok], simp)
    then show ?thesis using OfficeApprove by (simp add: approvePayout_def frozen_unmoved)
  next
    case (FinalApprove env k u)
    have "frozen i db (fst (payout_tx env db (hodApprovePayableInTx env u False k db)))"
      by (rule tx_frozen, rule hod_frozen [OF _ ok])
    then show ?thesis using FinalApprove by (simp add: hodApprovePayout_def frozen_unmoved)
  next
    case (FinalApproveBill env k u)
    have "frozen i db (fst (payout_tx env db (bill_hod_work env k u db)))"
      by (rule tx_frozen, rule bill_hod_frozen [OF _ ok])
    then show ?thesis using FinalApproveBill by (simp add: hodApproveBill_def frozen_unmoved)
  next
    case (FinalReject env k r u)
    have "frozen i db (fst (hodRejectPayout env k r u db))"
      unfolding hodRejectPayout_def by (auto split: option.split intro!: tx_frozen intro: reject_frozen [OF _ ok])
    then show ?thesis using FinalReject by (simp add: frozen_unmoved)
  next
    case (Hold env k h r u)
    have "frozen i db (fst (holdPayout env k h r u db))"
      unfolding holdPayout_def Let_def by (auto intro!: tx_frozen intro: hold_frozen [OF _ ok])
    then show ?thesis using Hold by (simp add: frozen_unmoved)
  next
    case (Void env k r u)
    have "frozen i db (fst (voidPayable env k r u db))"
      unfolding voidPayable_def Let_def by (auto intro!: tx_frozen intro: void_frozen [OF _ ok])
    then show ?thesis using Void by (simp add: frozen_unmoved)
  next
    case (ReviseBill env k r u)
    then have "k \<noteq> i" using assms(4) by simp
    then have "frozen i db (fst (reviseInvoice env k r u db))"
      unfolding reviseInvoice_def Let_def
      by (auto intro!: tx_frozen intro: revise_frozen [OF _ ok] simp: lines_off [OF ok])
    then show ?thesis using ReviseBill by (simp add: frozen_unmoved)
  qed (use ok assms(3,4) in \<open>auto intro!: frozen_unmoved reprice_frozen_call edit_line_frozen disburse_call_frozen reverse_frozen
        invite_frozen submit_frozen approve_bill_frozen hod_reject_bill_frozen cancel_bill_frozen\<close>)
  then show ?thesis using assms(1) paid_unmoved [of db i c] by (simp add: unmoved_def)
qed

text \<open>A claim's payable on a bill that was confirmed; voiding the payable is then refused.\<close>

definition confirmed_sample :: payout_db where
  "confirmed_sample = run_payouts [Reimburse payout_sample ''c-1'' ''ay-1'' ''as-1'' (Num 1000) ''u0'', Invite payout_sample ''ay-1'' ''u1'',
     Submit payout_sample ''ay-1'' ''k-1'' None] empty_payouts"

lemma confirmed_sample_bill:
  "map_option bl_status (find_bill confirmed_sample ''x-1'') = Some AI_SUBMITTED"
  "bill_sheet confirmed_sample ''x-1'' = [(''x-1'', 1000, 0, 0, 1000)]"
  "map py_id (po_payables confirmed_sample) = [''x-1'']" "map bl_id (po_bills confirmed_sample) = [''x-1'']"
  by code_simp+

theorem confirmed_bill_frozen_witness:
  "bill_sheet (payout_call_step (Void payout_sample ''x-1'' (Some ''wrong claim'') ''u1'') confirmed_sample) ''x-1'' = [(''x-1'', 1000, 0, 0, 1000)]"
proof -
  obtain b where b: "find_bill confirmed_sample ''x-1'' = Some b" "bl_status b = AI_SUBMITTED"
    using confirmed_sample_bill(1) by auto
  have "keyed confirmed_sample" using confirmed_sample_bill(3,4) by (simp add: keyed_def)
  then show ?thesis
    using confirmed_bill_frozen [OF b, of "Void payout_sample ''x-1'' (Some ''wrong claim'') ''u1''"] confirmed_sample_bill(2) by simp
qed

end
