(* ===== verification/Bill_Revision.thy ===== *)
theory Bill_Revision
  imports Confirmed_Bills "HOL-Library.Code_Target_Nat"
begin

text \<open>
  When tax moves a bill's total at approval, nothing is approved: the bill is replaced by a revision at the
  new figures, which its assayer has to confirm again.
\<close>

section \<open>What the second transaction can answer\<close>

lemma recompute_refusal: "recomputeTdsAtApproval env db p = Inl err \<Longrightarrow> \<exists>s. err = PayoutThrown s"
  by (auto simp: recomputeTdsAtApproval_def assayerFeeTds_def Let_def split: option.splits js_number.splits sum.splits if_splits)

lemma retax_line_refusal: "reTaxDueLine env u i db = Inl (TaxMoved x y) \<Longrightarrow> False"
  by (auto simp: reTaxDueLine_def Let_def split: option.splits if_splits sum.splits dest: recompute_refusal)

lemma retax_refusal: "retax_lines env u ls db = Inl (TaxMoved x y) \<Longrightarrow> False"
  by (induction ls arbitrary: db) (auto split: if_splits sum.splits prod.splits dest: retax_line_refusal)

lemma revise_refusal: "reviseInTx env i u y ls db = Inl (TaxMoved a b) \<Longrightarrow> False"
  by (auto simp: reviseInTx_def Let_def split: option.splits if_splits)

lemma tax_change_refusal: "sendBackForTaxChange env i u db = Inl (TaxMoved a b) \<Longrightarrow> False"
  by (auto simp: sendBackForTaxChange_def split: sum.splits dest: retax_refusal revise_refusal)

section \<open>When the first transaction answers that the tax moved\<close>

lemma freeze_refusal: "freeze_destination env p = Inl (TaxMoved x y) \<Longrightarrow> False"
  by (auto simp: freeze_destination_def Let_def split: option.splits if_splits)

lemma office_refusal: "office_approval env u reason p db = Inl (TaxMoved x y) \<Longrightarrow> False"
  by (auto simp: office_approval_def Let_def split: sum.splits option.splits if_splits prod.splits dest: recompute_refusal freeze_refusal)

lemma approve_line_refusal: "snd (approvePayableInTx env u g reason k db) = Inl (TaxMoved x y) \<Longrightarrow> False"
  by (auto simp: approvePayableInTx_def split: option.splits if_splits prod.splits dest: office_refusal)

lemma approve_lines_refusal: "snd (approve_lines env u ls db) = Inl (TaxMoved x y) \<Longrightarrow> False"
proof (induction ls arbitrary: db)
  case (Cons l ls)
  obtain ns res where one: "approvePayableInTx env u True None (py_id l) db = (ns, res)" by fastforce
  show ?case
  proof (cases res)
    case (Inl err)
    then show ?thesis using Cons.prems Cons.IH [of db] one approve_line_refusal [of env u True None "py_id l" db x y]
      by (auto split: if_splits)
  next
    case (Inr v)
    then obtain db1 saved moved where v: "res = Inr (db1, saved, moved)" by (metis prod_cases3)
    obtain ns' res' where rest: "approve_lines env u ls db1 = (ns', res')" by fastforce
    show ?thesis using Cons.prems Cons.IH [of db] Cons.IH [of db1] one v rest by (auto split: if_splits sum.splits)
  qed
qed simp

text \<open>Only an approval of a submitted bill, confirmed at its present revision, gets that far.\<close>

lemma tax_moved_bill:
  assumes "payout_tx env db (bill_approve_work env i u db) = (db1, Inl (TaxMoved x y))"
  shows "\<exists>b. find_bill db i = Some b \<and> bl_status b = AI_SUBMITTED \<and> bl_confirmedVersion b = Some (bl_revision b) \<and> x = bl_total b"
proof -
  have w: "snd (bill_approve_work env i u db) = Inl (TaxMoved x y)"
    using assms by (auto simp: payout_tx_def split: prod.splits sum.splits option.splits)
  then obtain b where b: "find_bill db i = Some b" by (auto simp: bill_approve_work_def split: option.splits)
  obtain ns res where l: "approve_lines env u (sorted_lines db i) db = (ns, res)" by fastforce
  show ?thesis
    using w b l approve_lines_refusal [of env u "sorted_lines db i" db x y]
    by (auto simp: bill_approve_work_def Let_def split: if_splits sum.splits)
qed

definition statuses :: "payout_db \<Rightarrow> (string \<times> AssayerPayableStatus) list" where
  "statuses db = map (\<lambda>p. (py_id p, py_status p)) (po_payables db)"

lemma relink_statuses [simp]: "statuses (relink ls x db) = statuses db"
  by (auto simp: statuses_def relink_def)

lemma supersede_statuses [simp]: "statuses (supersede b r keep gone db) = statuses db"
proof -
  have [simp]: "statuses (save_bill c d) = statuses d" "statuses (d\<lparr> po_bills := bs \<rparr>) = statuses d" for c d bs
    by (simp_all add: statuses_def)
  show ?thesis by (simp add: supersede_def Let_def)
qed

lemma row_statuses:
  assumes "distinct (map py_id (po_payables db))" "lockPayable db k = Some p" "py_id p' = py_id p" "py_status p' = py_status p"
  shows "map (\<lambda>p. (py_id p, py_status p)) (replaced_row p' (po_payables db)) = statuses db"
proof -
  have p: "p \<in> set (po_payables db)" using assms(2) lockPayable_Some by blast
  have "q = p" if "q \<in> set (po_payables db)" "py_id q = py_id p" for q
    using assms(1) p that by (simp add: distinct_map inj_on_def)
  then show ?thesis using assms(3,4) by (auto simp: statuses_def replaced_row_def)
qed

lemma retax_line_statuses:
  assumes "reTaxDueLine env u k db = Inr (db', v)" "distinct (map py_id (po_payables db))"
  shows "statuses db' = statuses db \<and> po_bills db' = po_bills db \<and> po_payments db' = po_payments db"
proof -
  obtain p where p: "lockPayable db k = Some p" using assms(1) by (auto simp: reTaxDueLine_def split: option.splits)
  show ?thesis
  proof (cases "py_status p = AP_PENDING")
    case True
    then obtain p' where r: "recomputeTdsAtApproval env db p = Inr p'"
      and db': "po_payables db' = po_payables db \<or> po_payables db' = replaced_row p' (po_payables db)"
        "po_bills db' = po_bills db" "po_payments db' = po_payments db"
      using assms(1) p by (auto simp: reTaxDueLine_def Let_def split: sum.splits if_splits)
    have "py_id p' = py_id p" "py_status p' = py_status p" using recompute_cases [OF r] by (auto simp: retaxed_def)
    then show ?thesis using db' row_statuses [OF assms(2) p] by (auto simp: statuses_def)
  qed (use assms p in \<open>auto simp: reTaxDueLine_def\<close>)
qed

lemma statuses_ids: "map py_id (po_payables db) = map fst (statuses db)"
  by (simp add: statuses_def)

lemma retax_statuses:
  "retax_lines env u ls db = Inr (db', ls') \<Longrightarrow> distinct (map py_id (po_payables db)) \<Longrightarrow>
   statuses db' = statuses db \<and> po_bills db' = po_bills db \<and> po_payments db' = po_payments db"
proof (induction ls arbitrary: db ls')
  case (Cons l ls)
  obtain db1 l' v' where one: "(if py_status l = AP_PENDING then reTaxDueLine env u (py_id l) db else Inr (db, l)) = Inr (db1, l')"
    and rest: "retax_lines env u ls db1 = Inr (db', v')"
    using Cons.prems(1) by (auto split: sum.splits if_splits)
  have a: "statuses db1 = statuses db \<and> po_bills db1 = po_bills db \<and> po_payments db1 = po_payments db"
    using one retax_line_statuses [of env u "py_id l" db db1 l'] Cons.prems(2) by (auto split: if_splits)
  then have "distinct (map py_id (po_payables db1))" using Cons.prems(2) by (simp only: statuses_ids)
  then show ?case using Cons.IH [OF rest] a by simp
qed simp

lemma superseded_bills:
  assumes "bl_id r \<noteq> bl_id b" "b \<in> set (po_bills db)"
  shows "r \<in> set (po_bills (supersede b r keep gone db))
    \<and> (\<forall>c \<in> set (po_bills (supersede b r keep gone db)). bl_id c = bl_id b \<longrightarrow> bl_status c = AI_SUPERSEDED \<and> bl_supersededBy c = Some (bl_id r))"
  using assms by (auto simp: supersede_def Let_def save_bill_def)

section \<open>The property\<close>

text \<open>
  C11. A bill whose tax moved is not approved. When the approval of a bill answers that its tax was
  recalculated, the bill was submitted and confirmed at its present revision, and the answer names its old
  total; no payable changed its status and no payment was made, the bill is superseded, and in its place stands an invitation for the same assayer with the next revision number
  that nobody has confirmed.
\<close>

theorem moved_tax_asks_again:
  assumes "approveBill env env' i u db = (db', Inl (TaxMoved x y))" "keyed db"
  shows "statuses db' = statuses db \<and> po_payments db' = po_payments db
    \<and> (\<exists>b r. find_bill db i = Some b \<and> bl_status b = AI_SUBMITTED
        \<and> bl_confirmedVersion b = Some (bl_revision b) \<and> x = bl_total b \<and> r \<in> set (po_bills db')
        \<and> bl_status r = AI_INVITED \<and> bl_assayerId r = bl_assayerId b \<and> bl_supersedes r = Some i
        \<and> bl_revision r = bl_revision b + 1 \<and> bl_confirmedVersion r = None
        \<and> (\<forall>c \<in> set (po_bills db'). bl_id c = i \<longrightarrow> bl_status c = AI_SUPERSEDED \<and> bl_supersededBy c = Some (bl_id r)))"
proof -
  obtain db1 out where first: "payout_tx env db (bill_approve_work env i u db) = (db1, out)" by fastforce
  obtain db2 out' where second: "payout_tx env' db1 ([], sendBackForTaxChange env' i u db1) = (db2, out')" by fastforce
  obtain r where out: "out = Inl (TaxMoved x y)" "out' = Inr r" and db': "db' = db2"
  proof (cases "\<exists>x y. out = Inl (TaxMoved x y)")
    case True
    then obtain x' y' where o: "out = Inl (TaxMoved x' y')" by blast
    show thesis
    proof (cases out')
      case (Inl err)
      then have "err = TaxMoved x y" using assms(1) first second o by (simp add: approveBill_def)
      then show thesis
        using second Inl tax_change_refusal [of env' i u db1 x y] by (auto simp: payout_tx_def split: sum.splits option.splits prod.splits)
    next
      case (Inr v)
      then show thesis using that assms(1) first second o by (simp add: approveBill_def)
    qed
  next
    case False
    then show thesis using assms(1) first by (auto simp: approveBill_def split: sum.splits payout_refusal.splits)
  qed
  have db1: "po_payables db1 = po_payables db" "po_bills db1 = po_bills db" "po_payments db1 = po_payments db"
    using first out(1) by (auto simp: payout_tx_def split: prod.splits sum.splits option.splits)
  obtain db3 where s: "sendBackForTaxChange env' i u db1 = Inr (db3, r)"
    and db3: "po_payables db2 = po_payables db3" "po_bills db2 = po_bills db3" "po_payments db2 = po_payments db3"
    using second out(2) by (auto simp: payout_tx_def split: sum.splits option.splits)
  obtain db4 ls where t: "retax_lines env' u (sorted_lines db1 i) db1 = Inr (db4, ls)"
    and v: "reviseInTx env' i u ''tax was recalculated'' (Some ls) db4 = Inr (db3, r)"
    using s by (auto simp: sendBackForTaxChange_def split: sum.splits)
  have "distinct (map py_id (po_payables db1))" using assms(2) db1 by (simp add: keyed_def)
  then have four: "statuses db4 = statuses db" "po_bills db4 = po_bills db" "po_payments db4 = po_payments db"
    using retax_statuses [OF t] db1 by (simp_all add: statuses_def)
  show ?thesis
  proof (rule revise_result [OF v], goal_cases)
    case (1 b keep gone)
    have b: "find_bill db i = Some b" using 1(1) four(2) by (simp add: find_bill_def)
    have in4: "b \<in> set (po_bills db4)" "bl_id b = i" using find_bill_Some [OF 1(1)] by auto
    have "bl_id ` set (po_bills (save_bill (b\<lparr> bl_status := AI_SUPERSEDED \<rparr>) db4)) = bl_id ` set (po_bills db4)"
      using bill_ids_saved [of "b\<lparr> bl_status := AI_SUPERSEDED \<rparr>" db4] by (metis list.set_map)
    then have fresh: "bl_id r \<noteq> bl_id b" using 1(7) in4 by (auto simp: insertable_def)
    have rows: "statuses db' = statuses db" "po_payments db' = po_payments db"
      using 1(9,11) db' db3 four supersede_statuses [of b r keep gone db4] supersede_moved [of False db4 b r keep gone]
      by (simp_all add: statuses_def rows_moved_def)
    have bills: "po_bills db' = po_bills (supersede b r keep gone db4)" using 1(10) db' db3 by simp
    have was: "bl_status b = AI_SUBMITTED" "bl_confirmedVersion b = Some (bl_revision b)" "x = bl_total b"
      using tax_moved_bill [OF first [unfolded out(1)]] b by auto
    show ?case
      using rows b was 1(6) superseded_bills [OF fresh in4(1), of keep gone] in4(2)
      by (auto simp: bills revised_bill_def new_bill_def bill_figures_def intro!: exI [of _ r])
  qed
qed

text \<open>
  A fee booked while the assayer had no PAN on record, on a confirmed bill; the PAN came in before the
  approval.
\<close>

definition taxed_sample :: payout_db where
  "taxed_sample =
    (let p = (payable_row payout_sample ''ay-1'' (Some ''cl-1'') ''as-1'' None 60000 0 12000 48000 (Some (Num 20)) (Some ''NO_PAN''))
               \<lparr> py_id := ''py-1'', py_billId := Some ''bl-1'' \<rparr>;
         b = (new_bill payout_sample ''AINV-7'' ''ay-1'' ''u1'' 1 None [p])
               \<lparr> bl_id := ''bl-1'', bl_status := AI_SUBMITTED, bl_confirmedVersion := Some 1 \<rparr>
     in empty_payouts\<lparr> po_payables := [p], po_bills := [b] \<rparr>)"

definition taxed_approval :: "payout_db \<times> (payout_refusal, AssayerInvoiceEntity) result" where
  "taxed_approval = approveBill payout_sample payout_sample ''bl-1'' ''u2'' taxed_sample"

lemma taxed_sample_first:
  "case bill_approve_work payout_sample ''bl-1'' ''u2'' taxed_sample of (ns, Inl err) \<Rightarrow> ns = [] \<and> err = TaxMoved 48000 54000 | _ \<Rightarrow> False"
  by code_simp

lemma taxed_sample_second:
  "case sendBackForTaxChange payout_sample ''bl-1'' ''u2'' taxed_sample of Inl err \<Rightarrow> False | Inr (db, r) \<Rightarrow> bl_total r = 54000"
  by code_simp

lemma taxed_sample_run: "snd taxed_approval = Inl (TaxMoved 48000 54000)"
proof -
  have "bill_approve_work payout_sample ''bl-1'' ''u2'' taxed_sample = ([], Inl (TaxMoved 48000 54000))"
    using taxed_sample_first by (auto split: prod.splits sum.splits)
  moreover obtain db r where "sendBackForTaxChange payout_sample ''bl-1'' ''u2'' taxed_sample = Inr (db, r)"
    using taxed_sample_second by (auto split: prod.splits sum.splits)
  moreover have "keep_notes [] x = x" for x by (simp add: keep_notes_def on_books_def)
  moreover have "be_writeFault (pe_billing payout_sample) = None" by (simp add: payout_sample_def sample_billing_env_def)
  ultimately show ?thesis by (simp add: taxed_approval_def approveBill_def payout_tx_def)
qed

lemma taxed_sample_keyed: "map py_id (po_payables taxed_sample) = [''py-1''] \<and> map bl_id (po_bills taxed_sample) = [''bl-1'']"
  by code_simp

theorem moved_tax_asks_again_witness:
  "statuses (fst taxed_approval) = statuses taxed_sample \<and> po_payments (fst taxed_approval) = po_payments taxed_sample"
proof -
  have "approveBill payout_sample payout_sample ''bl-1'' ''u2'' taxed_sample = (fst taxed_approval, Inl (TaxMoved 48000 54000))"
    using taxed_sample_run by (simp add: taxed_approval_def prod_eq_iff)
  moreover have "keyed taxed_sample" using taxed_sample_keyed by (simp add: keyed_def)
  ultimately show ?thesis using moved_tax_asks_again by blast
qed

end
