(* ===== verification/Payout_Edges.thy ===== *)
theory Payout_Edges
  imports Bill_Revision
begin

text \<open>
  Edge cases of the payouts, each on a concrete history: what happens to a bill that lost a voided line
  after its approval, to a payable whose whole amount is withheld, to the tax of an earlier fee, and to a
  payable that is part paid when it is voided.
\<close>

section \<open>A bill that lost a line after its approval\<close>

text \<open>
  Two claims on one bill, one voided after the approval, the bill sent back by the head of department: the
  office cannot approve it again, because the check compares the bill with all its lines, the voided one
  included.
\<close>

definition second_env :: payout_env where
  "second_env = payout_sample\<lparr> pe_billing := sample_billing_env\<lparr> be_newId := ''x-2'' \<rparr> \<rparr>"

definition stuck_history :: "payout_call list" where
  "stuck_history = [Reimburse payout_sample ''c-1'' ''ay-1'' ''as-1'' (Num 1000) ''u0'', Reimburse second_env ''c-2'' ''ay-1'' ''as-1'' (Num 500) ''u0'',
     Invite payout_sample ''ay-1'' ''u1'', Submit payout_sample ''ay-1'' ''k-1'' None, ApproveBill payout_sample payout_sample ''x-1'' ''u1'',
     Void payout_sample ''x-2'' (Some ''wrong'') ''u1'', FinalRejectBill payout_sample ''x-1'' (Some ''please check the claims'') ''u2'']"

definition stuck_bill :: payout_db where
  "stuck_bill = run_payouts stuck_history empty_payouts"

lemma bill_with_voided_line_stuck:
  "map (\<lambda>b. (bl_status b, bl_lineCount b, bl_total b)) (po_bills stuck_bill) = [(AI_SUBMITTED, 1, 1000)]"
  "snd (approveBill payout_sample payout_sample ''x-1'' ''u1'' stuck_bill) = Inl (BillDrifted 1000 1500)"
  by code_simp+

section \<open>Nothing left to pay\<close>

lemma zero_net_never_paid:
  assumes "lockPayable db i = Some p" "roundMoney (py_total p - py_paid p) \<le> 0"
    and "List.find (\<lambda>q. op_payableId q = py_id p \<and> op_reference q = ref \<and> op_isActive q) (po_payments db) = None"
  shows "\<exists>err. snd (recordDisbursement env i ref asked n u db) = Inl err"
proof -
  have "\<exists>err. disburse env ref asked n u p1 db = Inl err" if "pay_destination env p = Inr p1" for p1
    using assms(2) pay_destination_cases [OF that] by (auto simp: disburse_def)
  then show ?thesis using assms(1,3)
    by (auto simp: recordDisbursement_def payout_tx_def split: sum.splits prod.splits option.splits)
qed

section \<open>Deciding the tax of an earlier fee again\<close>

text \<open>
  Three fees of a year with a threshold of 50000: the second crosses it and its catch-up is cut off at its
  gross, and so is the third's. Decided again, the first, which was below the threshold, takes the rest.
\<close>

definition year_fee :: "string \<Rightarrow> rat \<Rightarrow> rat \<Rightarrow> AssayerPayableEntity" where
  "year_fee i gross withheld = (payable_row payout_sample ''ay-1'' None i None gross 0 withheld (gross - withheld) (Some (Num 10)) (Some ''PAN''))\<lparr> py_id := i \<rparr>"

definition fees_sample :: payout_db where
  "fees_sample = empty_payouts\<lparr> po_payables := [year_fee ''a'' 49000 0, year_fee ''b'' 2000 2000, year_fee ''c'' 1000 1000] \<rparr>"

lemma earlier_fee_taxed_again:
  "case assayerFeeTds payout_sample (fees_sample\<lparr> po_payables := take 1 (po_payables fees_sample) \<rparr>) ''ay-1'' 2000 10 ''2026-05-10'' None of
     Inr d \<Rightarrow> tds d = 2000 | _ \<Rightarrow> False"
  "case assayerFeeTds payout_sample (fees_sample\<lparr> po_payables := take 2 (po_payables fees_sample) \<rparr>) ''ay-1'' 1000 10 ''2026-05-10'' None of
     Inr d \<Rightarrow> tds d = 1000 | _ \<Rightarrow> False"
  "case recomputeTdsAtApproval payout_sample fees_sample (year_fee ''a'' 49000 0) of Inr p \<Rightarrow> py_tds p = 2200 | _ \<Rightarrow> False"
  by code_simp+

section \<open>Voiding what is part paid\<close>

lemma part_paid_is_voided:
  "map (\<lambda>p. (py_status p, py_paid p)) (po_payables (run_payouts
      (take 5 payout_history @ [Void payout_sample ''x-1'' (Some ''wrong claim'') ''u1'']) empty_payouts)) = [(AP_VOIDED, 400)]"
  by code_simp

end
