(* ===== verification/State_Regions.thy ===== *)
theory State_Regions
  imports Text_Distance "HOL-Library.Code_Target_Nat"
begin

text \<open>
  \<^verbatim>\<open>regions.ts\<close>: the region of a branch from the text in its state column. The tables are lists of pairs in
  the order of the source; a look-up sees, beside them, the one property every object inherits whose name
  is made of small letters. Both resolvers go through the same tiers: exact, initials, without spaces, nearest.
\<close>

section \<open>Tables\<close>

datatype Region = RG_NORTH | RG_SOUTH | RG_EAST | RG_WEST | RG_CENTRAL | RG_NORTH_EAST

primrec regionValue :: "Region \<Rightarrow> string" where
  "regionValue RG_NORTH = ''NORTH''"
| "regionValue RG_SOUTH = ''SOUTH''"
| "regionValue RG_EAST = ''EAST''"
| "regionValue RG_WEST = ''WEST''"
| "regionValue RG_CENTRAL = ''CENTRAL''"
| "regionValue RG_NORTH_EAST = ''NORTH_EAST''"

primrec REGION_LABELS :: "Region \<Rightarrow> string" where
  "REGION_LABELS RG_NORTH = ''North''"
| "REGION_LABELS RG_SOUTH = ''South''"
| "REGION_LABELS RG_EAST = ''East''"
| "REGION_LABELS RG_WEST = ''West''"
| "REGION_LABELS RG_CENTRAL = ''Central''"
| "REGION_LABELS RG_NORTH_EAST = ''North East''"

definition REGIONS :: "Region list" where
  "REGIONS = [RG_NORTH, RG_SOUTH, RG_EAST, RG_WEST, RG_CENTRAL, RG_NORTH_EAST]"

definition STATE_TO_REGION :: "(string \<times> Region) list" where
  "STATE_TO_REGION =
    [(''jammu and kashmir'', RG_NORTH), (''jammu kashmir'', RG_NORTH), (''j and k'', RG_NORTH), (''ladakh'', RG_NORTH),
     (''himachal pradesh'', RG_NORTH), (''punjab'', RG_NORTH), (''haryana'', RG_NORTH), (''uttarakhand'', RG_NORTH),
     (''uttaranchal'', RG_NORTH), (''delhi'', RG_NORTH), (''new delhi'', RG_NORTH), (''nct of delhi'', RG_NORTH),
     (''chandigarh'', RG_NORTH), (''uttar pradesh'', RG_NORTH), (''rajasthan'', RG_NORTH), (''assam'', RG_NORTH_EAST),
     (''arunachal pradesh'', RG_NORTH_EAST), (''manipur'', RG_NORTH_EAST), (''meghalaya'', RG_NORTH_EAST),
     (''mizoram'', RG_NORTH_EAST), (''nagaland'', RG_NORTH_EAST), (''tripura'', RG_NORTH_EAST),
     (''sikkim'', RG_NORTH_EAST), (''west bengal'', RG_EAST), (''bihar'', RG_EAST), (''jharkhand'', RG_EAST),
     (''odisha'', RG_EAST), (''orissa'', RG_EAST), (''andaman and nicobar islands'', RG_EAST),
     (''andaman and nicobar'', RG_EAST), (''andaman nicobar'', RG_EAST), (''andaman'', RG_EAST),
     (''madhya pradesh'', RG_CENTRAL), (''chhattisgarh'', RG_CENTRAL), (''chattisgarh'', RG_CENTRAL),
     (''maharashtra'', RG_WEST), (''gujarat'', RG_WEST), (''goa'', RG_WEST),
     (''dadra and nagar haveli and daman and diu'', RG_WEST), (''dadra and nagar haveli'', RG_WEST),
     (''daman and diu'', RG_WEST), (''karnataka'', RG_SOUTH), (''kerala'', RG_SOUTH), (''tamil nadu'', RG_SOUTH),
     (''tamilnadu'', RG_SOUTH), (''andhra pradesh'', RG_SOUTH), (''andra pradesh'', RG_SOUTH), (''telangana'', RG_SOUTH),
     (''puducherry'', RG_SOUTH), (''pondicherry'', RG_SOUTH), (''lakshadweep'', RG_SOUTH)]"

definition LEGACY_REGION_ALIASES :: "(string \<times> Region) list" where
  "LEGACY_REGION_ALIASES =
    [(''north'', RG_NORTH), (''northern'', RG_NORTH), (''south'', RG_SOUTH), (''southern'', RG_SOUTH), (''east'', RG_EAST),
     (''eastern'', RG_EAST), (''west'', RG_WEST), (''western'', RG_WEST), (''central'', RG_CENTRAL),
     (''north east'', RG_NORTH_EAST), (''northeast'', RG_NORTH_EAST), (''north eastern'', RG_NORTH_EAST),
     (''ne'', RG_NORTH_EAST)]"

definition STATE_ABBREVIATIONS :: "(string \<times> string) list" where
  "STATE_ABBREVIATIONS =
    [(''ap'', ''andhra pradesh''), (''mp'', ''madhya pradesh''), (''up'', ''uttar pradesh''),
     (''cg'', ''chhattisgarh''), (''hp'', ''himachal pradesh''), (''wb'', ''west bengal''), (''tn'', ''tamil nadu''),
     (''jk'', ''jammu and kashmir''), (''ts'', ''telangana''), (''kl'', ''kerala''), (''ka'', ''karnataka''),
     (''mh'', ''maharashtra''), (''od'', ''odisha''), (''rj'', ''rajasthan''), (''py'', ''puducherry''),
     (''dl'', ''delhi''), (''gj'', ''gujarat'')]"

definition STATE_CANONICAL_NAMES :: "(string \<times> string) list" where
  "STATE_CANONICAL_NAMES =
    [(''jammu and kashmir'', ''Jammu & Kashmir''), (''jammu kashmir'', ''Jammu & Kashmir''),
     (''j and k'', ''Jammu & Kashmir''), (''ladakh'', ''Ladakh''), (''himachal pradesh'', ''Himachal Pradesh''),
     (''punjab'', ''Punjab''), (''haryana'', ''Haryana''), (''uttarakhand'', ''Uttarakhand''),
     (''uttaranchal'', ''Uttarakhand''), (''delhi'', ''Delhi''), (''new delhi'', ''Delhi''),
     (''nct of delhi'', ''Delhi''), (''chandigarh'', ''Chandigarh''), (''uttar pradesh'', ''Uttar Pradesh''),
     (''rajasthan'', ''Rajasthan''), (''assam'', ''Assam''), (''arunachal pradesh'', ''Arunachal Pradesh''),
     (''manipur'', ''Manipur''), (''meghalaya'', ''Meghalaya''), (''mizoram'', ''Mizoram''),
     (''nagaland'', ''Nagaland''), (''tripura'', ''Tripura''), (''sikkim'', ''Sikkim''),
     (''west bengal'', ''West Bengal''), (''bihar'', ''Bihar''), (''jharkhand'', ''Jharkhand''),
     (''odisha'', ''Odisha''), (''orissa'', ''Odisha''),
     (''andaman and nicobar islands'', ''Andaman & Nicobar Islands''),
     (''andaman and nicobar'', ''Andaman & Nicobar Islands''), (''andaman nicobar'', ''Andaman & Nicobar Islands''),
     (''andaman'', ''Andaman & Nicobar Islands''), (''madhya pradesh'', ''Madhya Pradesh''),
     (''chhattisgarh'', ''Chhattisgarh''), (''chattisgarh'', ''Chhattisgarh''), (''maharashtra'', ''Maharashtra''),
     (''gujarat'', ''Gujarat''), (''goa'', ''Goa''),
     (''dadra and nagar haveli and daman and diu'', ''Dadra & Nagar Haveli and Daman & Diu''),
     (''dadra and nagar haveli'', ''Dadra & Nagar Haveli and Daman & Diu''),
     (''daman and diu'', ''Dadra & Nagar Haveli and Daman & Diu''), (''karnataka'', ''Karnataka''),
     (''kerala'', ''Kerala''), (''tamil nadu'', ''Tamil Nadu''), (''tamilnadu'', ''Tamil Nadu''),
     (''andhra pradesh'', ''Andhra Pradesh''), (''andra pradesh'', ''Andhra Pradesh''),
     (''telangana'', ''Telangana''), (''puducherry'', ''Puducherry''), (''pondicherry'', ''Puducherry''),
     (''lakshadweep'', ''Lakshadweep'')]"

section \<open>Keys\<close>

text \<open>Replacing every run of the characters of a class by one character.\<close>

function collapse :: "(char \<Rightarrow> bool) \<Rightarrow> char \<Rightarrow> string \<Rightarrow> string" where
  "collapse P r [] = []"
| "collapse P r (c # cs) = (if P c then r # collapse P r (dropWhile P cs) else c # collapse P r cs)"
  by pat_completeness auto
termination by (relation "measure (\<lambda>(P, r, s). length s)") (auto simp: less_Suc_eq_le length_dropWhile_le)

definition normalizeStateKey :: "string \<Rightarrow> string" where
  "normalizeStateKey value =
    (let spelled = concat (map (\<lambda>c. if c = CHR ''&'' then '' and '' else [c]) (js_lower value));
         letters = map (\<lambda>c. if is_lower c \<or> js_ws c then c else CHR '' '') spelled
     in js_trim (collapse js_ws (CHR '' '') letters))"

definition despaced :: "string \<Rightarrow> string" where
  "despaced s = filter (\<lambda>c. \<not> js_ws c) s"

text \<open>What a plain object answers for a key of small letters and spaces.\<close>

datatype 'a property = Own 'a | Inherited

definition js_get :: "(string \<times> 'a) list \<Rightarrow> string \<Rightarrow> 'a property option" where
  "js_get entries k =
    (case map_of entries k of Some v \<Rightarrow> Some (Own v) | None \<Rightarrow> if k = ''constructor'' then Some Inherited else None)"

text \<open>The entry whose name agrees once the spaces are left out.\<close>

definition despaced_entry :: "(string \<times> 'a) list \<Rightarrow> string \<Rightarrow> 'a option" where
  "despaced_entry entries k = map_option snd (List.find (\<lambda>(c, _). despaced c = despaced k) entries)"

section \<open>The nearest state\<close>

definition editBudget :: "nat \<Rightarrow> nat" where
  "editBudget n = (if n < 5 then 0 else if n \<le> 9 then 1 else 2)"

record nearest =
  best :: "string option"
  bestDistance :: "nat option"
  tied :: bool

definition nearer :: "nat \<Rightarrow> nat option \<Rightarrow> bool" where
  "nearer d b = (case b of None \<Rightarrow> True | Some e \<Rightarrow> d < e)"

definition nearest_step :: "string \<Rightarrow> string \<times> string \<Rightarrow> nearest \<Rightarrow> nearest" where
  "nearest_step input entry st =
    (case entry of (candidate, canonical) \<Rightarrow>
      (let target = despaced candidate;
           budget = editBudget (max (length input) (length target));
           distance = editDistance input target budget False
       in if budget = 0 \<or> budget < distance then st
          else if nearer distance (bestDistance st)
          then st\<lparr> best := Some canonical, bestDistance := Some distance, tied := False \<rparr>
          else if bestDistance st = Some distance \<and> best st \<noteq> Some canonical then st\<lparr> tied := True \<rparr>
          else st))"

definition fuzzyStateMatch :: "string \<Rightarrow> string option" where
  "fuzzyStateMatch key =
    (let input = despaced key in
     if length input < 5 then None
     else let st = fold (nearest_step input) STATE_CANONICAL_NAMES \<lparr> best = None, bestDistance = None, tied = False \<rparr>
          in if tied st then None else best st)"

section \<open>Resolving\<close>

definition isRegion :: "string \<Rightarrow> bool" where
  "isRegion v \<longleftrightarrow> v \<in> set (map regionValue REGIONS)"

definition region_sep :: "char \<Rightarrow> bool" where
  "region_sep c \<longleftrightarrow> js_ws c \<or> c = CHR ''-''"

definition regionOf :: "string \<Rightarrow> Region option" where
  "regionOf v = List.find (\<lambda>r. regionValue r = v) REGIONS"

fun some_text :: "string option \<Rightarrow> string option" where
  "some_text None = None"
| "some_text (Some s) = (if s = [] then None else Some s)"

text \<open>A look-up with the inherited function as the key finds nothing.\<close>

fun get_by :: "(string \<times> 'a) list \<Rightarrow> string property \<Rightarrow> 'a property option" where
  "get_by entries (Own k) = js_get entries k"
| "get_by entries Inherited = None"

definition region_by_key :: "string \<Rightarrow> Region property option" where
  "region_by_key key =
    (case nullish (js_get STATE_TO_REGION key) (js_get LEGACY_REGION_ALIASES key) of
       Some r \<Rightarrow> Some r
     | None \<Rightarrow>
       (case js_get STATE_ABBREVIATIONS (despaced key) of
          Some long \<Rightarrow> get_by STATE_TO_REGION long
        | None \<Rightarrow>
          (case despaced_entry (STATE_TO_REGION @ LEGACY_REGION_ALIASES) key of
             Some r \<Rightarrow> Some (Own r)
           | None \<Rightarrow>
             (case fuzzyStateMatch key of
                None \<Rightarrow> None
              | Some s \<Rightarrow> js_get STATE_TO_REGION (normalizeStateKey s)))))"

definition region_code :: "string \<Rightarrow> Region option" where
  "region_code v = regionOf (collapse region_sep (CHR ''_'') (js_upper (js_trim v)))"

definition resolveRegion :: "string option \<Rightarrow> Region property option" where
  "resolveRegion value =
    (case some_text value of
       None \<Rightarrow> None
     | Some v \<Rightarrow>
        (case region_code v of
           Some r \<Rightarrow> Some (Own r)
         | None \<Rightarrow> (let key = normalizeStateKey v in if key = [] then None else region_by_key key)))"

definition state_by_key :: "string \<Rightarrow> string property option" where
  "state_by_key key =
    (case js_get STATE_CANONICAL_NAMES key of
       Some s \<Rightarrow> Some s
     | None \<Rightarrow>
       (case js_get STATE_ABBREVIATIONS (despaced key) of
          Some long \<Rightarrow> get_by STATE_CANONICAL_NAMES long
        | None \<Rightarrow>
          (case despaced_entry STATE_CANONICAL_NAMES key of
             Some s \<Rightarrow> Some (Own s)
           | None \<Rightarrow> map_option Own (fuzzyStateMatch key))))"

definition canonicalStateName :: "string option \<Rightarrow> string property option" where
  "canonicalStateName value =
    (case some_text value of
       None \<Rightarrow> None
     | Some v \<Rightarrow> (let key = normalizeStateKey v in if key = [] then None else state_by_key key))"

definition CITY_TO_STATE :: "(string \<times> string) list" where
  "CITY_TO_STATE =
    [(''chennai'', ''Tamil Nadu''), (''madras'', ''Tamil Nadu''), (''coimbatore'', ''Tamil Nadu''),
     (''madurai'', ''Tamil Nadu''), (''tiruchirappalli'', ''Tamil Nadu''), (''trichy'', ''Tamil Nadu''),
     (''salem'', ''Tamil Nadu''), (''tirunelveli'', ''Tamil Nadu''), (''erode'', ''Tamil Nadu''),
     (''vellore'', ''Tamil Nadu''), (''bangalore'', ''Karnataka''), (''bengaluru'', ''Karnataka''),
     (''mysore'', ''Karnataka''), (''mysuru'', ''Karnataka''), (''mangalore'', ''Karnataka''),
     (''mangaluru'', ''Karnataka''), (''hubli'', ''Karnataka''), (''belgaum'', ''Karnataka''),
     (''gulbarga'', ''Karnataka''), (''davanagere'', ''Karnataka''), (''mumbai'', ''Maharashtra''),
     (''bombay'', ''Maharashtra''), (''pune'', ''Maharashtra''), (''nagpur'', ''Maharashtra''),
     (''nashik'', ''Maharashtra''), (''nasik'', ''Maharashtra''), (''thane'', ''Maharashtra''),
     (''aurangabad'', ''Maharashtra''), (''solapur'', ''Maharashtra''), (''kolhapur'', ''Maharashtra''),
     (''navi mumbai'', ''Maharashtra''), (''hyderabad'', ''Telangana''), (''secunderabad'', ''Telangana''),
     (''warangal'', ''Telangana''), (''visakhapatnam'', ''Andhra Pradesh''), (''vizag'', ''Andhra Pradesh''),
     (''vijayawada'', ''Andhra Pradesh''), (''guntur'', ''Andhra Pradesh''), (''tirupati'', ''Andhra Pradesh''),
     (''nellore'', ''Andhra Pradesh''), (''kochi'', ''Kerala''), (''cochin'', ''Kerala''),
     (''thiruvananthapuram'', ''Kerala''), (''trivandrum'', ''Kerala''), (''kozhikode'', ''Kerala''),
     (''calicut'', ''Kerala''), (''thrissur'', ''Kerala''), (''kollam'', ''Kerala''), (''kannur'', ''Kerala''),
     (''delhi'', ''Delhi''), (''new delhi'', ''Delhi''), (''gurgaon'', ''Haryana''), (''gurugram'', ''Haryana''),
     (''faridabad'', ''Haryana''), (''noida'', ''Uttar Pradesh''), (''ghaziabad'', ''Uttar Pradesh''),
     (''kolkata'', ''West Bengal''), (''calcutta'', ''West Bengal''), (''howrah'', ''West Bengal''),
     (''siliguri'', ''West Bengal''), (''durgapur'', ''West Bengal''), (''asansol'', ''West Bengal''),
     (''ahmedabad'', ''Gujarat''), (''surat'', ''Gujarat''), (''vadodara'', ''Gujarat''), (''baroda'', ''Gujarat''),
     (''rajkot'', ''Gujarat''), (''bhavnagar'', ''Gujarat''), (''jamnagar'', ''Gujarat''),
     (''gandhinagar'', ''Gujarat''), (''jaipur'', ''Rajasthan''), (''jodhpur'', ''Rajasthan''),
     (''udaipur'', ''Rajasthan''), (''kota'', ''Rajasthan''), (''ajmer'', ''Rajasthan''),
     (''bikaner'', ''Rajasthan''), (''lucknow'', ''Uttar Pradesh''), (''kanpur'', ''Uttar Pradesh''),
     (''agra'', ''Uttar Pradesh''), (''varanasi'', ''Uttar Pradesh''), (''meerut'', ''Uttar Pradesh''),
     (''allahabad'', ''Uttar Pradesh''), (''prayagraj'', ''Uttar Pradesh''), (''bareilly'', ''Uttar Pradesh''),
     (''aligarh'', ''Uttar Pradesh''), (''moradabad'', ''Uttar Pradesh''), (''gorakhpur'', ''Uttar Pradesh''),
     (''indore'', ''Madhya Pradesh''), (''bhopal'', ''Madhya Pradesh''), (''jabalpur'', ''Madhya Pradesh''),
     (''gwalior'', ''Madhya Pradesh''), (''ujjain'', ''Madhya Pradesh''), (''ludhiana'', ''Punjab''),
     (''amritsar'', ''Punjab''), (''jalandhar'', ''Punjab''), (''patiala'', ''Punjab''),
     (''chandigarh'', ''Chandigarh''), (''patna'', ''Bihar''), (''gaya'', ''Bihar''), (''muzaffarpur'', ''Bihar''),
     (''ranchi'', ''Jharkhand''), (''jamshedpur'', ''Jharkhand''), (''dhanbad'', ''Jharkhand''),
     (''bokaro'', ''Jharkhand''), (''bhubaneswar'', ''Odisha''), (''cuttack'', ''Odisha''),
     (''rourkela'', ''Odisha''), (''raipur'', ''Chhattisgarh''), (''bhilai'', ''Chhattisgarh''),
     (''dehradun'', ''Uttarakhand''), (''haridwar'', ''Uttarakhand''), (''guwahati'', ''Assam''),
     (''jammu'', ''Jammu & Kashmir''), (''srinagar'', ''Jammu & Kashmir''), (''shimla'', ''Himachal Pradesh''),
     (''panaji'', ''Goa''), (''panjim'', ''Goa''), (''imphal'', ''Manipur''), (''shillong'', ''Meghalaya''),
     (''agartala'', ''Tripura''), (''aizawl'', ''Mizoram''), (''kohima'', ''Nagaland''),
     (''itanagar'', ''Arunachal Pradesh''), (''gangtok'', ''Sikkim'')]"

definition stateFromCity :: "string option \<Rightarrow> string property option" where
  "stateFromCity value =
    (case some_text value of
       None \<Rightarrow> None
     | Some v \<Rightarrow>
        (let key = normalizeStateKey v in
         if key = [] then None
         else case js_get CITY_TO_STATE key of
           Some s \<Rightarrow> Some s
         | None \<Rightarrow> map_option Own (despaced_entry CITY_TO_STATE key)))"

definition zoneNameForState :: "string option \<Rightarrow> string option" where
  "zoneNameForState state =
    (case resolveRegion state of
       None \<Rightarrow> None
     | Some (Own r) \<Rightarrow> Some (REGION_LABELS r @ '' Zone'')
     | Some Inherited \<Rightarrow> Some ''undefined Zone'')"

definition METRO_PLACES :: "string list" where
  "METRO_PLACES =
    [''mumbai'', ''bombay'', ''navi mumbai'', ''thane'', ''delhi'', ''new delhi'', ''gurgaon'', ''gurugram'',
     ''noida'', ''ghaziabad'', ''faridabad'', ''bengaluru'', ''bangalore'', ''hyderabad'', ''secunderabad'',
     ''chennai'', ''madras'', ''kolkata'', ''calcutta'', ''howrah'', ''pune'', ''ahmedabad'', ''surat'']"

definition isMetroPlace :: "string option \<Rightarrow> bool" where
  "isMetroPlace value =
    (case some_text value of
       None \<Rightarrow> False
     | Some v \<Rightarrow>
        (let key = normalizeStateKey v in
         key \<noteq> [] \<and> (key \<in> set METRO_PLACES \<or> list_ex (\<lambda>m. despaced m = despaced key) METRO_PLACES)))"

section \<open>Facts about the tables\<close>

definition despaced_keys :: "string list" where
  "despaced_keys =
    [''jammuandkashmir'', ''jammukashmir'', ''jandk'', ''ladakh'', ''himachalpradesh'', ''punjab'', ''haryana'',
     ''uttarakhand'', ''uttaranchal'', ''delhi'', ''newdelhi'', ''nctofdelhi'', ''chandigarh'', ''uttarpradesh'',
     ''rajasthan'', ''assam'', ''arunachalpradesh'', ''manipur'', ''meghalaya'', ''mizoram'', ''nagaland'',
     ''tripura'', ''sikkim'', ''westbengal'', ''bihar'', ''jharkhand'', ''odisha'', ''orissa'',
     ''andamanandnicobarislands'', ''andamanandnicobar'', ''andamannicobar'', ''andaman'', ''madhyapradesh'',
     ''chhattisgarh'', ''chattisgarh'', ''maharashtra'', ''gujarat'', ''goa'', ''dadraandnagarhavelianddamananddiu'',
     ''dadraandnagarhaveli'', ''damananddiu'', ''karnataka'', ''kerala'', ''tamilnadu'', ''tamilnadu'',
     ''andhrapradesh'', ''andrapradesh'', ''telangana'', ''puducherry'', ''pondicherry'', ''lakshadweep'']"

definition despaced_aliases :: "string list" where
  "despaced_aliases =
    [''north'', ''northern'', ''south'', ''southern'', ''east'', ''eastern'', ''west'', ''western'', ''central'',
     ''northeast'', ''northeast'', ''northeastern'', ''ne'']"

text \<open>Each canonical name with the key it normalises to and its region.\<close>

definition state_facts :: "(string \<times> string \<times> Region) list" where
  "state_facts =
    [(''Jammu & Kashmir'', ''jammu and kashmir'', RG_NORTH), (''Ladakh'', ''ladakh'', RG_NORTH),
     (''Himachal Pradesh'', ''himachal pradesh'', RG_NORTH), (''Punjab'', ''punjab'', RG_NORTH),
     (''Haryana'', ''haryana'', RG_NORTH), (''Uttarakhand'', ''uttarakhand'', RG_NORTH),
     (''Delhi'', ''delhi'', RG_NORTH), (''Chandigarh'', ''chandigarh'', RG_NORTH),
     (''Uttar Pradesh'', ''uttar pradesh'', RG_NORTH), (''Rajasthan'', ''rajasthan'', RG_NORTH),
     (''Assam'', ''assam'', RG_NORTH_EAST), (''Arunachal Pradesh'', ''arunachal pradesh'', RG_NORTH_EAST),
     (''Manipur'', ''manipur'', RG_NORTH_EAST), (''Meghalaya'', ''meghalaya'', RG_NORTH_EAST),
     (''Mizoram'', ''mizoram'', RG_NORTH_EAST), (''Nagaland'', ''nagaland'', RG_NORTH_EAST),
     (''Tripura'', ''tripura'', RG_NORTH_EAST), (''Sikkim'', ''sikkim'', RG_NORTH_EAST),
     (''West Bengal'', ''west bengal'', RG_EAST), (''Bihar'', ''bihar'', RG_EAST),
     (''Jharkhand'', ''jharkhand'', RG_EAST), (''Odisha'', ''odisha'', RG_EAST),
     (''Andaman & Nicobar Islands'', ''andaman and nicobar islands'', RG_EAST),
     (''Madhya Pradesh'', ''madhya pradesh'', RG_CENTRAL), (''Chhattisgarh'', ''chhattisgarh'', RG_CENTRAL),
     (''Maharashtra'', ''maharashtra'', RG_WEST), (''Gujarat'', ''gujarat'', RG_WEST), (''Goa'', ''goa'', RG_WEST),
     (''Dadra & Nagar Haveli and Daman & Diu'', ''dadra and nagar haveli and daman and diu'', RG_WEST),
     (''Karnataka'', ''karnataka'', RG_SOUTH), (''Kerala'', ''kerala'', RG_SOUTH),
     (''Tamil Nadu'', ''tamil nadu'', RG_SOUTH), (''Andhra Pradesh'', ''andhra pradesh'', RG_SOUTH),
     (''Telangana'', ''telangana'', RG_SOUTH), (''Puducherry'', ''puducherry'', RG_SOUTH),
     (''Lakshadweep'', ''lakshadweep'', RG_SOUTH)]"

lemma keys_despaced: "map (despaced \<circ> fst) STATE_CANONICAL_NAMES = despaced_keys"
  by (simp add: STATE_CANONICAL_NAMES_def despaced_keys_def despaced_def blacks)

lemma aliases_despaced: "map (despaced \<circ> fst) LEGACY_REGION_ALIASES = despaced_aliases"
  by (simp add: LEGACY_REGION_ALIASES_def despaced_aliases_def despaced_def blacks)

lemma tables_in_step: "map fst STATE_CANONICAL_NAMES = map fst STATE_TO_REGION"
  by code_simp

lemma keys_distinct: "distinct (map fst STATE_CANONICAL_NAMES)"
  by code_simp

lemma names_known: "list_all2 (\<lambda>(k, s) (k', r). map_option snd (map_of state_facts s) = Some r) STATE_CANONICAL_NAMES STATE_TO_REGION"
  by code_simp

lemma facts_agree:
  "list_all (\<lambda>(s, k, r). map_of STATE_CANONICAL_NAMES k = Some s \<and> map_of STATE_TO_REGION k = Some r \<and> s \<noteq> [] \<and> k \<noteq> []) state_facts"
  by code_simp

lemma facts_normal: "list_all (\<lambda>(s, k, r). normalizeStateKey s = k) state_facts"
  by (simp add: state_facts_def normalizeStateKey_def letters blacks js_trim_def Let_def)

lemma initials_known:
  "list_all (\<lambda>(a, long). map_of STATE_CANONICAL_NAMES long \<noteq> None) STATE_ABBREVIATIONS"
  by code_simp

lemma aliases_apart:
  "list_all (\<lambda>l. l \<notin> set despaced_keys \<and> map_of STATE_ABBREVIATIONS l = None \<and> l \<noteq> ''constructor'') despaced_aliases"
  by code_simp

lemma edits_missing: "edits t n xs ys \<Longrightarrow> \<not> t \<Longrightarrow> length (filter (\<lambda>x. x \<notin> set ys) xs) \<le> n"
proof (induction rule: edits.induct)
  case (keep n xs ys x)
  have "length (filter (\<lambda>z. z \<notin> set (ys @ [x])) xs) \<le> length (filter (\<lambda>z. z \<notin> set ys) xs)"
    by (induction xs) auto
  then show ?case using keep by simp
next
  case (replace n xs ys x y)
  have "length (filter (\<lambda>z. z \<notin> set (ys @ [y])) xs) \<le> length (filter (\<lambda>z. z \<notin> set ys) xs)"
    by (induction xs) auto
  then show ?case using replace by simp
next
  case (insert n xs ys y)
  have "length (filter (\<lambda>z. z \<notin> set (ys @ [y])) xs) \<le> length (filter (\<lambda>z. z \<notin> set ys) xs)"
    by (induction xs) auto
  then show ?case using insert by simp
qed auto

text \<open>The letters of an alias that a name lacks already exceed the budget, but for one pair.\<close>

lemma aliases_lack_letters:
  "list_all (\<lambda>l. if length l < 5 then True else list_all (\<lambda>c.
       let b = editBudget (max (length l) (length c)) in
       if length l + b < length c then True
       else if b < length (filter (\<lambda>x. x \<notin> set c) l) then True else b < editDistance l c b False) despaced_keys) despaced_aliases"
  by code_simp


section \<open>The nearest state\<close>

definition in_reach :: "string \<Rightarrow> string \<Rightarrow> nat \<Rightarrow> bool" where
  "in_reach input c d \<longleftrightarrow> d = editDistance input (despaced c) (editBudget (max (length input) (length (despaced c)))) False
     \<and> d \<le> editBudget (max (length input) (length (despaced c)))"

definition hits :: "string \<Rightarrow> (string \<times> string) list \<Rightarrow> nat \<Rightarrow> string \<Rightarrow> bool" where
  "hits input names d s \<longleftrightarrow> (\<exists>c. (c, s) \<in> set names \<and> in_reach input c d)"

definition found_in :: "string \<Rightarrow> (string \<times> string) list \<Rightarrow> nearest \<Rightarrow> bool" where
  "found_in input names st \<longleftrightarrow>
     (case bestDistance st of
        None \<Rightarrow> best st = None \<and> \<not> tied st \<and> (\<forall>d s. \<not> hits input names d s)
      | Some m \<Rightarrow> (\<exists>s. best st = Some s \<and> hits input names m s \<and> (tied st \<longleftrightarrow> (\<exists>s'. hits input names m s' \<and> s' \<noteq> s)))
          \<and> (\<forall>d s. hits input names d s \<longrightarrow> m \<le> d))"

lemma hits_snoc: "hits input (names @ [(c, s)]) d s' \<longleftrightarrow> hits input names d s' \<or> s' = s \<and> in_reach input c d"
  by (auto simp: hits_def)

lemma found_step:
  assumes "5 \<le> length input" "found_in input names st"
  shows "found_in input (names @ [e]) (nearest_step input e st)"
proof -
  obtain c s where e: "e = (c, s)" by fastforce
  define d where "d = editDistance input (despaced c) (editBudget (max (length input) (length (despaced c)))) False"
  define b where "b = editBudget (max (length input) (length (despaced c)))"
  have pos: "b \<noteq> 0" using assms(1) by (simp add: b_def editBudget_def)
  have w: "in_reach input c k \<longleftrightarrow> k = d \<and> d \<le> b" for k by (auto simp: in_reach_def d_def b_def)
  have st': "nearest_step input (c, s) st =
     (if b < d then st else if nearer d (bestDistance st) then st\<lparr> best := Some s, bestDistance := Some d, tied := False \<rparr>
      else if bestDistance st = Some d \<and> best st \<noteq> Some s then st\<lparr> tied := True \<rparr> else st)"
    using pos by (simp add: nearest_step_def Let_def d_def b_def)
  note h = hits_snoc [of input names c s] w
  show ?thesis
  proof (cases "bestDistance st")
    case None
    then show ?thesis using assms(2) unfolding e by (auto simp: found_in_def st' h nearer_def)
  next
    case (Some m)
    then obtain t where t: "best st = Some t" "hits input names m t" "tied st \<longleftrightarrow> (\<exists>s'. hits input names m s' \<and> s' \<noteq> t)"
      and least: "\<And>k s. hits input names k s \<Longrightarrow> m \<le> k"
      using assms(2) by (auto simp: found_in_def)
    consider "b < d" | "d \<le> b" "d < m" | "d \<le> b" "d = m" | "d \<le> b" "m < d" by linarith
    then show ?thesis
    proof cases
      case 2
      then have "\<not> hits input names d s'" for s' using least [of d s'] by auto
      then show ?thesis using 2 Some least unfolding e by (fastforce simp: found_in_def st' h nearer_def)
    next
      case 3
      then show ?thesis using Some t least unfolding e by (auto simp: found_in_def st' h nearer_def)
    qed (use Some t least in \<open>auto simp: st' e found_in_def h nearer_def\<close>)
  qed
qed

lemma found_all:
  assumes "5 \<le> length input"
  shows "found_in input names (fold (nearest_step input) names \<lparr> best = None, bestDistance = None, tied = False \<rparr>)"
proof (induction names rule: rev_induct)
  case Nil
  then show ?case by (simp add: found_in_def hits_def)
next
  case (snoc e names)
  then show ?case using found_step [OF assms snoc] by simp
qed

lemma fuzzy_iff:
  "fuzzyStateMatch key = Some s \<longleftrightarrow> 5 \<le> length (despaced key) \<and>
     (\<exists>m. hits (despaced key) STATE_CANONICAL_NAMES m s
        \<and> (\<forall>d s'. hits (despaced key) STATE_CANONICAL_NAMES d s' \<longrightarrow> m \<le> d \<and> (d = m \<longrightarrow> s' = s)))"
proof (cases "5 \<le> length (despaced key)")
  case True
  let ?st = "fold (nearest_step (despaced key)) STATE_CANONICAL_NAMES \<lparr> best = None, bestDistance = None, tied = False \<rparr>"
  have f: "found_in (despaced key) STATE_CANONICAL_NAMES ?st" by (rule found_all [OF True])
  have d: "fuzzyStateMatch key = (if tied ?st then None else best ?st)"
    using True by (simp add: fuzzyStateMatch_def Let_def)
  show ?thesis
  proof (cases "bestDistance ?st")
    case None
    then show ?thesis using f True by (auto simp: d found_in_def)
  next
    case (Some m)
    then obtain t where t: "best ?st = Some t" "hits (despaced key) STATE_CANONICAL_NAMES m t"
        "tied ?st \<longleftrightarrow> (\<exists>s'. hits (despaced key) STATE_CANONICAL_NAMES m s' \<and> s' \<noteq> t)"
      and least: "\<And>k s. hits (despaced key) STATE_CANONICAL_NAMES k s \<Longrightarrow> m \<le> k"
      using f by (auto simp: found_in_def)
    show ?thesis
    proof
      assume "fuzzyStateMatch key = Some s"
      then have "\<not> tied ?st" "t = s" using d t(1) by (auto split: if_splits)
      then show "5 \<le> length (despaced key) \<and> (\<exists>m. hits (despaced key) STATE_CANONICAL_NAMES m s
        \<and> (\<forall>d s'. hits (despaced key) STATE_CANONICAL_NAMES d s' \<longrightarrow> m \<le> d \<and> (d = m \<longrightarrow> s' = s)))"
        using True t least by blast
    next
      assume "5 \<le> length (despaced key) \<and> (\<exists>m. hits (despaced key) STATE_CANONICAL_NAMES m s
        \<and> (\<forall>d s'. hits (despaced key) STATE_CANONICAL_NAMES d s' \<longrightarrow> m \<le> d \<and> (d = m \<longrightarrow> s' = s)))"
      then obtain k where k: "hits (despaced key) STATE_CANONICAL_NAMES k s"
        "\<And>d s'. hits (despaced key) STATE_CANONICAL_NAMES d s' \<Longrightarrow> k \<le> d \<and> (d = k \<longrightarrow> s' = s)" by blast
      then have "k = m" using t(2) least by (metis le_antisym)
      then have "t = s" "\<not> tied ?st" using k t by blast+
      then show "fuzzyStateMatch key = Some s" using d t(1) by simp
    qed
  qed
qed (simp add: fuzzyStateMatch_def)

lemma reach_edits: "in_reach input c d \<longleftrightarrow> d \<le> editBudget (max (length input) (length (despaced c))) \<and> edits False d input (despaced c)
    \<and> (\<forall>n < d. \<not> edits False n input (despaced c))"
proof -
  let ?b = "editBudget (max (length input) (length (despaced c)))"
  let ?d = "editDistance input (despaced c) ?b False"
  have "?d \<le> ?b \<longleftrightarrow> (\<exists>n \<le> ?b. edits False n input (despaced c))"
    and "?d \<le> ?b \<Longrightarrow> edits False ?d input (despaced c) \<and> (\<forall>n < ?d. \<not> edits False n input (despaced c))"
    using distance_exact [of input "despaced c" ?b False] by blast+
  then show ?thesis unfolding in_reach_def by (metis linorder_neqE_nat)
qed

definition edits_reach :: "string \<Rightarrow> string \<Rightarrow> nat \<Rightarrow> bool" where
  "edits_reach typed c n \<longleftrightarrow> n \<le> editBudget (max (length typed) (length (despaced c))) \<and> edits False n typed (despaced c)"

text \<open>
  C29. A misspelt state is read as the one nearest to it. The last tier answers a state exactly when the text
  has at least five letters, some spelling of the state is within the number of edits its length allows,
  and every spelling of every state within its own allowance is further away or a spelling of the same
  state: a tie between two states is refused.
\<close>

theorem nearest_state_found:
  "fuzzyStateMatch key = Some s \<longleftrightarrow> 5 \<le> length (despaced key) \<and>
     (\<exists>c n. (c, s) \<in> set STATE_CANONICAL_NAMES \<and> edits_reach (despaced key) c n
        \<and> (\<forall>(c', s') \<in> set STATE_CANONICAL_NAMES. \<forall>m. edits_reach (despaced key) c' m \<longrightarrow> n \<le> m \<and> (m = n \<longrightarrow> s' = s)))"
proof -
  let ?i = "despaced key"
  have up: "in_reach ?i c d \<Longrightarrow> edits_reach ?i c d" for c d by (simp add: reach_edits edits_reach_def)
  have down: "edits_reach ?i c n \<Longrightarrow> \<exists>d \<le> n. in_reach ?i c d" for c n
  proof -
    assume r: "edits_reach ?i c n"
    define d where "d = (LEAST k. edits False k ?i (despaced c))"
    have "edits False d ?i (despaced c)" "d \<le> n" "\<forall>k < d. \<not> edits False k ?i (despaced c)"
      using r unfolding d_def edits_reach_def by (auto intro: LeastI Least_le dest: not_less_Least)
    then show ?thesis using r by (auto simp: reach_edits edits_reach_def)
  qed
  show ?thesis
  proof
    assume "fuzzyStateMatch key = Some s"
    then obtain m c where m: "5 \<le> length ?i" "(c, s) \<in> set STATE_CANONICAL_NAMES" "in_reach ?i c m"
      and least: "\<And>d c' s'. (c', s') \<in> set STATE_CANONICAL_NAMES \<Longrightarrow> in_reach ?i c' d \<Longrightarrow> m \<le> d \<and> (d = m \<longrightarrow> s' = s)"
      unfolding fuzzy_iff hits_def by blast
    have "m \<le> n \<and> (n = m \<longrightarrow> s' = s)" if a: "(c', s') \<in> set STATE_CANONICAL_NAMES" "edits_reach ?i c' n" for c' s' n
    proof -
      obtain d where "d \<le> n" "in_reach ?i c' d" using down a(2) by blast
      then show ?thesis using least [OF a(1)] by (metis le_antisym le_trans)
    qed
    then show "5 \<le> length ?i \<and> (\<exists>c n. (c, s) \<in> set STATE_CANONICAL_NAMES \<and> edits_reach ?i c n
        \<and> (\<forall>(c', s') \<in> set STATE_CANONICAL_NAMES. \<forall>m. edits_reach ?i c' m \<longrightarrow> n \<le> m \<and> (m = n \<longrightarrow> s' = s)))"
      using m up by blast
  next
    assume "5 \<le> length ?i \<and> (\<exists>c n. (c, s) \<in> set STATE_CANONICAL_NAMES \<and> edits_reach ?i c n
        \<and> (\<forall>(c', s') \<in> set STATE_CANONICAL_NAMES. \<forall>m. edits_reach ?i c' m \<longrightarrow> n \<le> m \<and> (m = n \<longrightarrow> s' = s)))"
    then obtain c n where c: "5 \<le> length ?i" "(c, s) \<in> set STATE_CANONICAL_NAMES" "edits_reach ?i c n"
      and least: "\<And>c' s' m. (c', s') \<in> set STATE_CANONICAL_NAMES \<Longrightarrow> edits_reach ?i c' m \<Longrightarrow> n \<le> m \<and> (m = n \<longrightarrow> s' = s)"
      by blast
    obtain d where d: "d \<le> n" "in_reach ?i c d" using down c(3) by blast
    then have "d = n" using least [OF c(2) up [OF d(2)]] by simp
    then show "fuzzyStateMatch key = Some s" unfolding fuzzy_iff hits_def using c(1,2) d(2) least up by blast
  qed
qed


theorem nearest_state_found_witness:
  "\<exists>c n. (c, ''Kerala'') \<in> set STATE_CANONICAL_NAMES \<and> edits_reach (despaced ''keral'') c n
     \<and> (\<forall>(c', s') \<in> set STATE_CANONICAL_NAMES. \<forall>m. edits_reach (despaced ''keral'') c' m \<longrightarrow> n \<le> m \<and> (m = n \<longrightarrow> s' = ''Kerala''))"
proof -
  have "fuzzyStateMatch ''keral'' = Some ''Kerala''" by code_simp
  then show ?thesis unfolding nearest_state_found by blast
qed

section \<open>Keys of texts\<close>

definition letters_of :: "string \<Rightarrow> string" where
  "letters_of v = map (\<lambda>c. if is_lower c \<or> js_ws c then c else CHR '' '') (concat (map (\<lambda>c. if c = CHR ''&'' then '' and '' else [c]) (js_lower v)))"

lemma letters_of_append [simp]: "letters_of (a @ b) = letters_of a @ letters_of b"
  by (simp add: letters_of_def)

lemma normal_key: "normalizeStateKey v = js_trim (collapse js_ws (CHR '' '') (letters_of v))"
  by (simp add: normalizeStateKey_def letters_of_def Let_def)

lemma letters_of_gap: "list_all (\<lambda>c. js_ws c \<or> c \<in> {CHR ''-'', CHR ''_''}) g \<Longrightarrow> list_all js_ws (letters_of g) \<and> length (letters_of g) = length g"
proof (induction g)
  case (Cons c g)
  have "lower_char c = c" "c \<noteq> CHR ''&''" "\<not> is_lower c"
    using Cons.prems by (auto simp: js_ws_def lower_char_def is_upper_def is_lower_def code_def)
  then show ?case using Cons by (auto simp: letters_of_def js_ws_def code_def)
qed (simp add: letters_of_def)

lemma upper_char_letter: "is_upper d \<Longrightarrow> upper_char c = d \<Longrightarrow> lower_char c = lower_char d \<and> is_lower (lower_char d)"
  by (auto simp: upper_char_def lower_char_def is_upper_def is_lower_def split: if_splits)

lemma letters_of_word: "map upper_char x = w \<Longrightarrow> list_all is_upper w \<Longrightarrow> letters_of x = map lower_char w"
proof (induction x arbitrary: w)
  case (Cons c x)
  then have "lower_char c = lower_char (upper_char c) \<and> is_lower (lower_char (upper_char c))"
    using upper_char_letter [of "upper_char c" c] by auto
  moreover have "letters_of x = map lower_char (map upper_char x)" using Cons by auto
  moreover have "lower_char c \<noteq> CHR ''&''" if "is_lower (lower_char c)" using that by (auto simp: is_lower_def code_def)
  ultimately show ?case using Cons.prems by (auto simp: letters_of_def)
qed (simp add: letters_of_def)

lemma collapse_word: "list_all (\<lambda>c. \<not> P c) w \<Longrightarrow> collapse P r (w @ s) = w @ collapse P r s"
  by (induction w) auto

lemma collapse_run: "list_all P g \<Longrightarrow> g \<noteq> [] \<Longrightarrow> s = [] \<or> \<not> P (hd s) \<Longrightarrow> collapse P r (g @ s) = r # collapse P r s"
  by (cases g; cases s) (auto simp: dropWhile_append2 list_all_iff dropWhile_eq_Nil_conv [THEN iffD2])

lemma collapse_before:
  "list_all (\<lambda>c. c \<noteq> r) w \<Longrightarrow> collapse P r s = w @ u \<Longrightarrow> \<exists>s'. s = w @ s' \<and> collapse P r s' = u"
proof (induction w arbitrary: s)
  case (Cons c w)
  then obtain d t where s: "s = d # t" by (cases s) auto
  then have "d = c" "collapse P r t = w @ u" using Cons.prems by (auto split: if_splits)
  then show ?case using Cons s by auto
qed simp

lemma collapse_gap:
  assumes "collapse P r s = r # u"
  shows "\<exists>g s'. s = g @ s' \<and> g \<noteq> [] \<and> list_all (\<lambda>c. P c \<or> c = r) g \<and> collapse P r s' = u"
proof -
  obtain d t where s: "s = d # t" using assms by (cases s) auto
  show ?thesis
  proof (cases "P d")
    case True
    then have "s = (d # takeWhile P t) @ dropWhile P t" "collapse P r (dropWhile P t) = u" using assms s by auto
    then show ?thesis using True by (intro exI [of _ "d # takeWhile P t"] exI [of _ "dropWhile P t"]) (auto simp: list_all_iff dest: set_takeWhileD)
  next
    case False
    then show ?thesis using assms s by (intro exI [of _ "[d]"] exI [of _ t]) auto
  qed
qed

lemma collapse_end: "list_all (\<lambda>c. c \<noteq> r) w \<Longrightarrow> collapse P r s = w \<Longrightarrow> s = w"
proof -
  assume w: "list_all (\<lambda>c. c \<noteq> r) w" "collapse P r s = w"
  obtain t where "s = w @ t" "collapse P r t = []" using collapse_before [of r w P s "[]"] w by auto
  then show "s = w" by (cases t) (auto split: if_splits)
qed

lemma trim_parts: "\<exists>a b. v = a @ js_trim v @ b \<and> list_all js_ws a \<and> list_all js_ws b"
proof -
  let ?w = "dropWhile js_ws v"
  have "v = takeWhile js_ws v @ ?w" by simp
  moreover have "?w = js_trim v @ rev (takeWhile js_ws (rev ?w))"
    unfolding js_trim_def by (metis rev_append rev_rev_ident takeWhile_dropWhile_id)
  ultimately have "v = takeWhile js_ws v @ js_trim v @ rev (takeWhile js_ws (rev ?w))" by metis
  then show ?thesis by (metis list_all_iff set_rev set_takeWhileD)
qed

lemma trim_around:
  assumes "list_all js_ws a" "list_all js_ws b" "w \<noteq> []" "\<not> js_ws (hd w)" "\<not> js_ws (last w)"
  shows "js_trim (a @ w @ b) = w"
proof -
  have "dropWhile js_ws (a @ w @ b) = w @ b" using assms by (cases w) (auto simp: dropWhile_append2 list_all_iff)
  moreover have "dropWhile js_ws (rev b @ rev w) = rev w"
  proof -
    have "dropWhile js_ws (rev b @ rev w) = dropWhile js_ws (rev w)"
      using assms(2) by (intro dropWhile_append2) (auto simp: list_all_iff)
    also have "\<dots> = rev w" using assms(3,5) by (cases w rule: rev_cases) auto
    finally show ?thesis .
  qed
  ultimately show ?thesis by (simp add: js_trim_def)
qed

lemma space_white [simp]: "js_ws CHR '' ''"
  using blacks by simp

lemma collapse_around:
  assumes "list_all js_ws a" "list_all js_ws b" "w \<noteq> []" "\<not> js_ws (hd w)" "\<not> js_ws (last w)"
    "\<And>s. collapse js_ws (CHR '' '') (w @ s) = w' @ collapse js_ws (CHR '' '') s" "hd w' = hd w" "last w' = last w" "w' \<noteq> []"
  shows "js_trim (collapse js_ws (CHR '' '') (a @ w @ b)) = w'"
proof -
  let ?g = "\<lambda>a. if a = [] then [] else [CHR '' '']"
  have "collapse js_ws (CHR '' '') (a @ w @ b) = ?g a @ collapse js_ws (CHR '' '') (w @ b)"
    using assms collapse_run [of js_ws a "w @ b" "CHR '' ''"] by auto
  also have "collapse js_ws (CHR '' '') (w @ b) = w' @ ?g b"
    using assms collapse_run [of js_ws b "[]" "CHR '' ''"] by auto
  finally show ?thesis using assms trim_around [of "?g a" "?g b" w'] by simp
qed

primrec region_key :: "Region \<Rightarrow> string" where
  "region_key RG_NORTH = ''north''"
| "region_key RG_SOUTH = ''south''"
| "region_key RG_EAST = ''east''"
| "region_key RG_WEST = ''west''"
| "region_key RG_CENTRAL = ''central''"
| "region_key RG_NORTH_EAST = ''north east''"

lemma key_of_parts:
  assumes "letters_of (js_trim v) = w" "w \<noteq> []" "\<not> js_ws (hd w)" "\<not> js_ws (last w)"
    "\<And>s. collapse js_ws (CHR '' '') (w @ s) = w' @ collapse js_ws (CHR '' '') s" "hd w' = hd w" "last w' = last w" "w' \<noteq> []"
  shows "normalizeStateKey v = w'"
proof -
  obtain a b where v: "v = a @ js_trim v @ b" and ws: "list_all js_ws a" "list_all js_ws b" using trim_parts by blast
  have "letters_of v = letters_of a @ w @ letters_of b" using v assms(1) letters_of_append by metis
  moreover have "list_all js_ws (letters_of a)" "list_all js_ws (letters_of b)"
    using ws letters_of_gap [of a] letters_of_gap [of b] by (simp_all add: list_all_iff)
  ultimately show ?thesis unfolding normal_key using assms by (simp add: collapse_around)
qed

definition word :: "string \<Rightarrow> bool" where
  "word w \<longleftrightarrow> w \<noteq> [] \<and> list_all is_upper w"

lemma word_facts:
  assumes "word w"
  shows "list_all (\<lambda>c. c \<noteq> CHR ''_'') w" "list_all (\<lambda>c. \<not> js_ws c) (js_lower w)" "w \<noteq> []"
    "\<not> js_ws (hd (js_lower w))" "\<not> js_ws (last (js_lower w))"
proof -
  show "list_all (\<lambda>c. c \<noteq> CHR ''_'') w" "w \<noteq> []" using assms by (auto simp: word_def list_all_iff is_upper_def code_def)
  show b: "list_all (\<lambda>c. \<not> js_ws c) (js_lower w)"
    using assms by (auto simp: word_def list_all_iff is_upper_def js_ws_def lower_char_def)
  show "\<not> js_ws (hd (js_lower w))" "\<not> js_ws (last (js_lower w))"
    using b \<open>w \<noteq> []\<close> by (auto simp: list_all_iff hd_map last_map)
qed

lemma one_word_key:
  assumes "collapse region_sep (CHR ''_'') (js_upper (js_trim v)) = w" "word w"
  shows "normalizeStateKey v = js_lower w"
proof (rule key_of_parts)
  have "js_upper (js_trim v) = w" using collapse_end word_facts(1) assms by blast
  then show "letters_of (js_trim v) = js_lower w" using assms(2) letters_of_word by (auto simp: word_def)
qed (use word_facts [OF assms(2)] in \<open>auto intro: collapse_word\<close>)

lemma two_word_key:
  assumes "collapse region_sep (CHR ''_'') (js_upper (js_trim v)) = w @ CHR ''_'' # u" "word w" "word u"
  shows "normalizeStateKey v = js_lower w @ CHR '' '' # js_lower u"
proof -
  note fw = word_facts [OF assms(2)] and fu = word_facts [OF assms(3)]
  obtain s where s: "js_upper (js_trim v) = w @ s" "collapse region_sep (CHR ''_'') s = CHR ''_'' # u"
    using collapse_before [OF fw(1) assms(1)] by blast
  obtain g t where g: "s = g @ t" "g \<noteq> []" "list_all (\<lambda>c. region_sep c \<or> c = CHR ''_'') g" "collapse region_sep (CHR ''_'') t = u"
    using collapse_gap [OF s(2)] by blast
  have "t = u" using collapse_end fu(1) g(4) by blast
  then have "js_upper (js_trim v) = w @ g @ u" using s(1) g(1) by simp
  then obtain x h y where x: "js_trim v = x @ h @ y" "js_upper x = w" "js_upper h = g" "js_upper y = u"
    by (auto simp: map_eq_append_conv append_eq_map_conv)
  have gap: "list_all (\<lambda>c. js_ws c \<or> c \<in> {CHR ''-'', CHR ''_''}) h"
  proof -
    have ok: "js_ws c \<or> c \<in> {CHR ''-'', CHR ''_''}" if "region_sep (upper_char c) \<or> upper_char c = CHR ''_''" for c
    proof (cases "is_lower c")
      case True
      then have "is_upper (upper_char c)" by (auto simp: upper_char_def is_lower_def is_upper_def)
      then show ?thesis using that by (auto simp: region_sep_def is_upper_def js_ws_def code_def)
    qed (use that in \<open>auto simp: region_sep_def upper_char_def\<close>)
    have "\<forall>c \<in> set h. region_sep (upper_char c) \<or> upper_char c = CHR ''_''" using g(3) x(3) by (auto simp: list_all_iff)
    then show ?thesis unfolding list_all_iff using ok by blast
  qed
  have l: "letters_of (js_trim v) = js_lower w @ letters_of h @ js_lower u"
    using x letters_of_word assms(2,3) by (auto simp: word_def)
  have h: "list_all js_ws (letters_of h)" "letters_of h \<noteq> []" using letters_of_gap [OF gap] g(2) x(3) by auto
  show ?thesis
  proof (rule key_of_parts [OF l])
    show "collapse js_ws (CHR '' '') ((js_lower w @ letters_of h @ js_lower u) @ s)
        = (js_lower w @ CHR '' '' # js_lower u) @ collapse js_ws (CHR '' '') s" for s
      using fw fu h collapse_run [of js_ws "letters_of h" "js_lower u @ s" "CHR '' ''"] by (simp add: collapse_word)
  qed (use fw fu h in auto)
qed

lemma region_code_key: "region_code v = Some r \<Longrightarrow> normalizeStateKey v = region_key r"
proof -
  assume "region_code v = Some r"
  then have c: "collapse region_sep (CHR ''_'') (js_upper (js_trim v)) = regionValue r"
    by (auto simp: region_code_def regionOf_def find_Some_iff)
  have words: "word ''NORTH''" "word ''SOUTH''" "word ''EAST''" "word ''WEST''" "word ''CENTRAL''"
    by (simp_all add: word_def is_upper_def code_def)
  show ?thesis
    using c one_word_key [OF _ words(1)] one_word_key [OF _ words(2)] one_word_key [OF _ words(3)] one_word_key [OF _ words(4)]
      one_word_key [OF _ words(5)] two_word_key [OF _ words(1,3)]
    by (cases r) (simp_all add: letters)
qed

section \<open>State and region agree\<close>

lemma state_fact:
  assumes "(s, k, r) \<in> set state_facts"
  shows "map_of STATE_CANONICAL_NAMES k = Some s" "map_of STATE_TO_REGION k = Some r" "s \<noteq> []" "k \<noteq> []" "normalizeStateKey s = k"
  using assms facts_agree facts_normal by (auto simp: list_all_iff)

lemma named:
  assumes "map_of STATE_CANONICAL_NAMES k = Some s"
  shows "\<exists>k' r. (s, k', r) \<in> set state_facts \<and> map_of STATE_TO_REGION k = Some r"
proof -
  obtain i where i: "i < length STATE_CANONICAL_NAMES" "STATE_CANONICAL_NAMES ! i = (k, s)"
    using map_of_SomeD [OF assms] by (metis in_set_conv_nth)
  have len: "length STATE_TO_REGION = length STATE_CANONICAL_NAMES" using tables_in_step by (metis length_map)
  have "map fst STATE_CANONICAL_NAMES ! i = map fst STATE_TO_REGION ! i" using tables_in_step by simp
  then have "fst (STATE_TO_REGION ! i) = k" using i len by simp
  then obtain r where r: "STATE_TO_REGION ! i = (k, r)" "i < length STATE_TO_REGION"
    using i len by (cases "STATE_TO_REGION ! i") auto
  then have "map_option snd (map_of state_facts s) = Some r"
    using names_known i by (auto simp: list_all2_conv_all_nth split: prod.splits)
  moreover have "map_of STATE_TO_REGION k = Some r"
    using r keys_distinct tables_in_step by (metis map_of_eq_Some_iff nth_mem)
  ultimately show ?thesis by (auto dest: map_of_SomeD)
qed

lemma names_of_fact: "(s, k, r) \<in> set state_facts \<Longrightarrow> s \<in> set (map snd STATE_CANONICAL_NAMES)"
  using state_fact(1) by (force dest: map_of_SomeD)

lemma state_key_alias:
  assumes "(k, r) \<in> set LEGACY_REGION_ALIASES" "despaced key = despaced k"
  shows "map_of STATE_CANONICAL_NAMES key = None" "map_of STATE_ABBREVIATIONS (despaced key) = None"
    "despaced_entry STATE_CANONICAL_NAMES key = None" "despaced key \<noteq> ''constructor''" "fuzzyStateMatch key = None"
proof -
  let ?l = "despaced k"
  have l: "?l \<in> set despaced_aliases" using assms(1) aliases_despaced by (force simp flip: aliases_despaced)
  have keys: "despaced c \<in> set despaced_keys" if "(c, s) \<in> set STATE_CANONICAL_NAMES" for c s
    using that by (force simp flip: keys_despaced)
  have a: "?l \<notin> set despaced_keys" "map_of STATE_ABBREVIATIONS ?l = None" "?l \<noteq> ''constructor''"
    using l aliases_apart by (auto simp: list_all_iff)
  then show "map_of STATE_ABBREVIATIONS (despaced key) = None" "despaced key \<noteq> ''constructor''" using assms(2) by simp_all
  show "map_of STATE_CANONICAL_NAMES key = None"
  proof (cases "map_of STATE_CANONICAL_NAMES key")
    case (Some s)
    then show ?thesis using keys [OF map_of_SomeD [OF Some]] a(1) assms(2) by simp
  qed
  show "despaced_entry STATE_CANONICAL_NAMES key = None"
    using a(1) assms(2) by (auto simp: despaced_entry_def find_None_iff dest!: keys)
  show "fuzzyStateMatch key = None"
  proof (rule ccontr)
    assume "fuzzyStateMatch key \<noteq> None"
    then obtain s m c where "5 \<le> length ?l" "(c, s) \<in> set STATE_CANONICAL_NAMES" "in_reach ?l c m"
      using fuzzy_iff [of key] assms(2) by (auto simp: hits_def)
    note f = this
    let ?b = "editBudget (max (length ?l) (length (despaced c)))"
    have e: "edits False m ?l (despaced c)" "m \<le> ?b" and d: "editDistance ?l (despaced c) ?b False \<le> ?b"
      using f(3) reach_edits [of ?l c m] by (auto simp: in_reach_def)
    have "length (despaced c) \<le> length ?l + ?b" "length (filter (\<lambda>x. x \<notin> set (despaced c)) ?l) \<le> ?b"
      using edits_length [OF e(1)] edits_missing [OF e(1)] e(2) by auto
    then show False
      using aliases_lack_letters l f(1) keys [OF f(2)] d by (fastforce simp: list_all_iff Let_def)
  qed
qed

lemma region_keys_aliases: "\<exists>r'. (region_key r, r') \<in> set LEGACY_REGION_ALIASES \<and> r' = r"
  by (cases r) (simp_all add: LEGACY_REGION_ALIASES_def)

lemma constructor_despaced: "despaced ''constructor'' = ''constructor''"
  by (simp add: despaced_def blacks)

lemma alias_nameless:
  "(k, r) \<in> set LEGACY_REGION_ALIASES \<Longrightarrow> despaced key = despaced k \<Longrightarrow> state_by_key key = None"
  using state_key_alias [of k r key] constructor_despaced by (auto simp: state_by_key_def js_get_def)

lemma resolves_by_key: "resolveRegion (Some v) = (case region_code v of Some r \<Rightarrow> Some (Own r)
    | None \<Rightarrow> if v = [] \<or> normalizeStateKey v = [] then None else region_by_key (normalizeStateKey v))"
  by (cases "v = []") (auto simp: resolveRegion_def Let_def region_code_def regionOf_def REGIONS_def split: option.splits)

lemma names_by_key: "canonicalStateName (Some v) = (if v = [] \<or> normalizeStateKey v = [] then None else state_by_key (normalizeStateKey v))"
  by (simp add: canonicalStateName_def Let_def)

lemma code_nameless: "region_code v = Some r \<Longrightarrow> state_by_key (normalizeStateKey v) = None"
  using region_keys_aliases [of r] alias_nameless region_code_key by fastforce

lemma fact_resolved:
  assumes "(s, k, r) \<in> set state_facts"
  shows "canonicalStateName (Some s) = Some (Own s)" "resolveRegion (Some s) = Some (Own r)"
proof -
  note f = state_fact [OF assms]
  have "state_by_key k = Some (Own s)" using f(1) by (simp add: state_by_key_def js_get_def)
  then show "canonicalStateName (Some s) = Some (Own s)" using f by (simp add: names_by_key)
  have "region_by_key k = Some (Own r)" using f(2) by (simp add: region_by_key_def js_get_def)
  moreover have "region_code s = None"
    using code_nameless [of s] \<open>state_by_key k = _\<close> f(5) by (cases "region_code s") auto
  ultimately show "resolveRegion (Some s) = Some (Own r)" using f by (simp add: resolves_by_key)
qed

lemma find_zip_key:
  "map fst xs = map fst ys \<Longrightarrow> List.find (\<lambda>(c, _). P c) xs = Some (k, x) \<Longrightarrow> distinct (map fst xs) \<Longrightarrow>
   \<exists>y. List.find (\<lambda>(c, _). P c) ys = Some (k, y) \<and> map_of xs k = Some x \<and> map_of ys k = Some y"
proof (induction xs arbitrary: ys)
  case (Cons p xs)
  then obtain q zs where ys: "ys = q # zs" "fst q = fst p" "map fst xs = map fst zs" by (cases ys) auto
  show ?case
  proof (cases "P (fst p)")
    case True
    then show ?thesis using Cons.prems ys by (cases p; cases q) auto
  next
    case False
    then have "List.find (\<lambda>(c, _). P c) xs = Some (k, x)" using Cons.prems by (cases p) auto
    moreover from this have "k \<noteq> fst p" using False by (auto simp: find_Some_iff)
    ultimately show ?thesis using Cons.IH [of zs] Cons.prems False ys by (cases p; cases q) auto
  qed
qed simp

lemma find_append: "List.find P (xs @ ys) = (case List.find P xs of Some x \<Rightarrow> Some x | None \<Rightarrow> List.find P ys)"
  by (induction xs) auto

lemma state_key_regions:
  assumes "state_by_key key = Some (Own s)"
  shows "\<exists>k r. (s, k, r) \<in> set state_facts \<and> region_by_key key = Some (Own r)"
proof -
  have noalias: "map_of LEGACY_REGION_ALIASES key = None"
    using alias_nameless [of key _ key] assms by (cases "map_of LEGACY_REGION_ALIASES key") (auto dest: map_of_SomeD)
  have same: "map_of STATE_CANONICAL_NAMES key = None \<longleftrightarrow> map_of STATE_TO_REGION key = None"
    using tables_in_step by (metis list.set_map map_of_eq_None_iff)
  consider (exact) "map_of STATE_CANONICAL_NAMES key = Some s"
    | (short) long where "map_of STATE_CANONICAL_NAMES key = None" "key \<noteq> ''constructor''"
        "js_get STATE_ABBREVIATIONS (despaced key) = Some (Own long)" "js_get STATE_CANONICAL_NAMES long = Some (Own s)"
    | (joined) "map_of STATE_CANONICAL_NAMES key = None" "key \<noteq> ''constructor''"
        "js_get STATE_ABBREVIATIONS (despaced key) = None" "despaced_entry STATE_CANONICAL_NAMES key = Some s"
    | (near) "map_of STATE_CANONICAL_NAMES key = None" "key \<noteq> ''constructor''"
        "js_get STATE_ABBREVIATIONS (despaced key) = None" "despaced_entry STATE_CANONICAL_NAMES key = None"
        "fuzzyStateMatch key = Some s"
    using assms unfolding state_by_key_def js_get_def [of STATE_CANONICAL_NAMES key]
    by (auto split: option.splits property.splits if_splits elim!: get_by.elims)
  then show ?thesis
  proof cases
    case exact
    then obtain k r where "(s, k, r) \<in> set state_facts" "map_of STATE_TO_REGION key = Some r" using named by blast
    then show ?thesis by (auto simp: region_by_key_def js_get_def)
  next
    case short
    have "map_of STATE_ABBREVIATIONS (despaced key) = Some long"
      using short(3) by (auto simp: js_get_def split: option.splits if_splits)
    moreover have "map_of STATE_CANONICAL_NAMES long = Some s"
      using short(4) by (auto simp: js_get_def split: option.splits if_splits)
    ultimately obtain k r where "(s, k, r) \<in> set state_facts" "map_of STATE_TO_REGION long = Some r" using named by blast
    then show ?thesis using short noalias same by (auto simp: region_by_key_def js_get_def)
  next
    case joined
    obtain c where "List.find (\<lambda>(c, _). despaced c = despaced key) STATE_CANONICAL_NAMES = Some (c, s)"
      using joined(4) by (auto simp: despaced_entry_def)
    then obtain r where r: "List.find (\<lambda>(c, _). despaced c = despaced key) STATE_TO_REGION = Some (c, r)"
        "map_of STATE_CANONICAL_NAMES c = Some s" "map_of STATE_TO_REGION c = Some r"
      using find_zip_key [OF tables_in_step _ keys_distinct, of "\<lambda>c. despaced c = despaced key"] by blast
    then obtain k where "(s, k, r) \<in> set state_facts" using named by fastforce
    then show ?thesis using joined noalias same r(1) by (auto simp: region_by_key_def js_get_def despaced_entry_def find_append)
  next
    case near
    have "s \<in> snd ` set STATE_CANONICAL_NAMES" using near(5) fuzzy_iff by (force simp: hits_def)
    then obtain c where c: "(c, s) \<in> set STATE_CANONICAL_NAMES" by auto
    then have "map_of STATE_CANONICAL_NAMES c = Some s" using keys_distinct by simp
    then obtain k r where f: "(s, k, r) \<in> set state_facts" using named by blast
    have none: "despaced_entry (STATE_TO_REGION @ LEGACY_REGION_ALIASES) key = None"
    proof -
      have "despaced l \<noteq> despaced key" if "(l, r) \<in> set LEGACY_REGION_ALIASES" for l r
        using state_key_alias(5) [OF that, of key] near(5) by auto
      moreover have "despaced l \<noteq> despaced key" if "(l, r) \<in> set STATE_TO_REGION" for l r
      proof -
        have "l \<in> fst ` set STATE_CANONICAL_NAMES" using that tables_in_step by (metis fst_conv image_eqI list.set_map)
        then show ?thesis using near(4) by (auto simp: despaced_entry_def find_None_iff)
      qed
      ultimately show ?thesis by (auto simp: despaced_entry_def find_None_iff)
    qed
    have "js_get STATE_TO_REGION (normalizeStateKey s) = Some (Own r)"
      using state_fact [OF f] by (simp add: js_get_def)
    then show ?thesis using near noalias same f none by (auto simp: region_by_key_def js_get_def)
  qed
qed

lemma region_key_states:
  assumes "region_by_key key = Some (Own r)"
  shows "(\<exists>s. state_by_key key = Some (Own s)) \<or> (\<exists>(k, r') \<in> set LEGACY_REGION_ALIASES. despaced k = despaced key)"
proof (rule ccontr)
  assume no: "\<not> ?thesis"
  then have noalias: "map_of LEGACY_REGION_ALIASES key = None" by (cases "map_of LEGACY_REGION_ALIASES key") (auto dest!: map_of_SomeD)
  have same: "map_of STATE_CANONICAL_NAMES k = None \<longleftrightarrow> map_of STATE_TO_REGION k = None" for k
    using tables_in_step by (metis list.set_map map_of_eq_None_iff)
  have exact: "map_of STATE_TO_REGION key = None" "key \<noteq> ''constructor''"
    using no assms same [of key] noalias by (auto simp: state_by_key_def region_by_key_def js_get_def)
  have short: "js_get STATE_ABBREVIATIONS (despaced key) = None"
  proof (rule ccontr)
    assume "js_get STATE_ABBREVIATIONS (despaced key) \<noteq> None"
    then obtain long where l: "js_get STATE_ABBREVIATIONS (despaced key) = Some long" by auto
    then have "get_by STATE_TO_REGION long = Some (Own r)"
      using assms exact noalias by (simp add: region_by_key_def js_get_def split: if_splits)
    then obtain a where "long = Own a" "map_of STATE_TO_REGION a \<noteq> None"
      by (cases long) (auto simp: js_get_def split: option.splits if_splits)
    then show False using no l exact same [of key] same [of a] by (auto simp: state_by_key_def js_get_def)
  qed
  have joined: "despaced_entry (STATE_TO_REGION @ LEGACY_REGION_ALIASES) key = None"
  proof -
    have "despaced_entry STATE_CANONICAL_NAMES key = None"
      using no exact short same [of key] by (auto simp: state_by_key_def js_get_def split: option.splits)
    then have away: "despaced c \<noteq> despaced key" if "(c, s) \<in> set STATE_CANONICAL_NAMES" for c s
      using that by (auto simp: despaced_entry_def find_None_iff)
    have "despaced l \<noteq> despaced key" if "(l, r) \<in> set STATE_TO_REGION" for l r
    proof -
      have "l \<in> fst ` set STATE_CANONICAL_NAMES" using that tables_in_step by (metis fst_conv image_eqI list.set_map)
      then show ?thesis using away by auto
    qed
    moreover have "despaced l \<noteq> despaced key" if "(l, r) \<in> set LEGACY_REGION_ALIASES" for l r
      using no that by blast
    ultimately show ?thesis by (auto simp: despaced_entry_def find_None_iff)
  qed
  then have "fuzzyStateMatch key \<noteq> None" using assms exact short noalias by (auto simp: region_by_key_def js_get_def split: option.splits)
  then show False using no exact short same [of key] by (auto simp: state_by_key_def js_get_def split: option.splits)
qed

text \<open>
  C28. The state and the region of a text agree. Whatever way a state is spelt - its name, initials, without its
  spaces, misspelt - when one canonical name is found for it, that name is one of the table and found for
  itself, and the region and the zone of the text are those of the name. Conversely a text that has a region
  has a state of that region, or it names a region itself.
\<close>

theorem state_and_region_agree:
  "(\<forall>s. canonicalStateName (Some v) = Some (Own s) \<longrightarrow> s \<in> set (map snd STATE_CANONICAL_NAMES)
      \<and> canonicalStateName (Some s) = Some (Own s) \<and> zoneNameForState (Some v) = zoneNameForState (Some s)
      \<and> (\<exists>r. resolveRegion (Some v) = Some (Own r) \<and> resolveRegion (Some s) = Some (Own r)))
   \<and> (\<forall>r. resolveRegion (Some v) = Some (Own r) \<longrightarrow> (\<exists>s. canonicalStateName (Some v) = Some (Own s))
      \<or> (\<exists>(k, r') \<in> set LEGACY_REGION_ALIASES. despaced k = despaced (normalizeStateKey v)))"
proof (intro conjI allI impI)
  fix s assume "canonicalStateName (Some v) = Some (Own s)"
  then have v: "v \<noteq> []" "normalizeStateKey v \<noteq> []" "state_by_key (normalizeStateKey v) = Some (Own s)"
    by (auto simp: names_by_key split: if_splits)
  obtain k r where f: "(s, k, r) \<in> set state_facts" "region_by_key (normalizeStateKey v) = Some (Own r)"
    using state_key_regions [OF v(3)] by blast
  have "region_code v = None" using code_nameless [of v] v(3) by (cases "region_code v") auto
  then have "resolveRegion (Some v) = Some (Own r)" using v f by (simp add: resolves_by_key)
  then show "s \<in> set (map snd STATE_CANONICAL_NAMES)" "canonicalStateName (Some s) = Some (Own s)"
    "zoneNameForState (Some v) = zoneNameForState (Some s)" "\<exists>r. resolveRegion (Some v) = Some (Own r) \<and> resolveRegion (Some s) = Some (Own r)"
    using fact_resolved [OF f(1)] names_of_fact [OF f(1)] by (simp_all add: zoneNameForState_def)
next
  fix r assume r: "resolveRegion (Some v) = Some (Own r)"
  show "(\<exists>s. canonicalStateName (Some v) = Some (Own s))
     \<or> (\<exists>(k, r') \<in> set LEGACY_REGION_ALIASES. despaced k = despaced (normalizeStateKey v))"
  proof (cases "region_code v")
    case None
    then show ?thesis using r region_key_states by (auto simp: resolves_by_key names_by_key split: if_splits)
  next
    case (Some q)
    then show ?thesis using region_code_key [OF Some] region_keys_aliases [of q] by fastforce
  qed
qed

theorem state_and_region_agree_witness:
  "zoneNameForState (Some ''A.P'') = zoneNameForState (Some ''Andhra Pradesh'')
   \<and> (\<exists>r. resolveRegion (Some ''A.P'') = Some (Own r) \<and> resolveRegion (Some ''Andhra Pradesh'') = Some (Own r))"
proof -
  have "canonicalStateName (Some ''A.P'') = Some (Own ''Andhra Pradesh'')" by code_simp
  then show ?thesis using state_and_region_agree [of "''A.P''"] by blast
qed

section \<open>Cities and odd words\<close>

lemma cities_in_states: "list_all (\<lambda>(c, s). s \<in> set (map fst state_facts)) CITY_TO_STATE"
  by code_simp

lemma city_state_known: "stateFromCity v = Some (Own s) \<Longrightarrow> canonicalStateName (Some s) = Some (Own s)"
proof -
  assume "stateFromCity v = Some (Own s)"
  then obtain c where "(c, s) \<in> set CITY_TO_STATE"
    by (auto simp: stateFromCity_def js_get_def despaced_entry_def Let_def find_Some_iff
        split: option.splits if_splits dest: map_of_SomeD) (metis nth_mem)
  then obtain k r where "(s, k, r) \<in> set state_facts" using cities_in_states by (auto simp: list_all_iff)
  then show ?thesis by (rule fact_resolved)
qed

lemma inherited_word_resolves:
  "resolveRegion (Some ''Constructor'') = Some Inherited" "canonicalStateName (Some ''Constructor'') = Some Inherited"
  "zoneNameForState (Some ''Constructor'') = Some ''undefined Zone''"
  by code_simp+

end
