(* ===== verification/Region_Scope.thy ===== *)
theory Region_Scope
  imports State_Regions Enums
begin

text \<open>
  Which records an account may see (\<^verbatim>\<open>infrastructure/scope\<close>): the scope of a request from its query and its
  account, the predicate a scoped list adds to its query, the check of a single record with its staged
  rollout, the rooms of the live events and the region an event is routed to. What the database answers is
  an argument. A requested region that resolves to an inherited property stays in the scope as such and
  equals no region of a record.
\<close>

section \<open>The scope of a request\<close>

datatype role_entry = RoleText string | RoleNamed "string option" | RoleMissing

record ScopedPrincipal =
  sp_id :: string
  sp_regions :: "string list option"
  sp_clientId :: "string option"
  sp_roles :: "role_entry list option"

primrec role_name :: "role_entry \<Rightarrow> string option" where
  "role_name (RoleText s) = some_text (Some s)"
| "role_name (RoleNamed n) = some_text n"
| "role_name RoleMissing = None"

definition roleNames :: "role_entry list option \<Rightarrow> string list" where
  "roleNames roles = List.map_filter role_name (nullish_value roles [])"

record GlobalScope =
  gs_projectId :: "string option"
  gs_clientId :: "string option"
  gs_zoneId :: "string option"
  gs_state :: "string option"
  gs_regions :: "Region property list option"

datatype scope_refusal =
    RegionAssignmentUnknown
  | RegionUnknown string
  | RegionNotAssigned
  | OtherClient
  | ClientNotAssigned
  | OutsideRegion
  | CannotPlaceIn string
  | SpansOtherRegions
  | AccountNotFound

definition assignedRegions :: "ScopedPrincipal option \<Rightarrow> (scope_refusal, Region property list option) result" where
  "assignedRegions account =
    (case Option.bind account sp_regions of
       None \<Rightarrow> Inr None
     | Some [] \<Rightarrow> Inr None
     | Some raw \<Rightarrow>
        (let valid = List.map_filter regionOf raw
         in if valid = [] then Inl RegionAssignmentUnknown else Inr (Some (map Own valid))))"






section \<open>A scoped list\<close>

text \<open>The columns of a row of a list that the predicates of the scope read.\<close>

record branch_row =
  br_region :: "string option"
  br_state :: "string option"
  br_zoneId :: "string option"
  br_clientId :: "string option"
  br_projectId :: "string option"

definition region_in :: "Region property list \<Rightarrow> string option \<Rightarrow> bool" where
  "region_in rs region = list_ex (\<lambda>p. case p of Own r \<Rightarrow> region = Some (regionValue r) | Inherited \<Rightarrow> False) rs"

text \<open>The regions that constrain: neither missing nor an empty list.\<close>

definition constraining :: "GlobalScope option \<Rightarrow> Region property list option" where
  "constraining scope = (case Option.bind scope gs_regions of Some (r # rs) \<Rightarrow> Some (r # rs) | _ \<Rightarrow> None)"

definition equals_if :: "string option \<Rightarrow> string option \<Rightarrow> bool" where
  "equals_if wanted column \<longleftrightarrow> (case some_text wanted of None \<Rightarrow> True | Some w \<Rightarrow> column = Some w)"

definition applyBranchScope :: "bool \<Rightarrow> GlobalScope option \<Rightarrow> branch_row \<Rightarrow> bool" where
  "applyBranchScope hasProject scope row \<longleftrightarrow>
     (case constraining scope of None \<Rightarrow> True | Some rs \<Rightarrow> region_in rs (br_region row))
     \<and> (case some_text (Option.bind scope gs_state) of
          None \<Rightarrow> True | Some s \<Rightarrow> map_option js_upper (br_state row) = Some (js_upper s))
     \<and> equals_if (Option.bind scope gs_zoneId) (br_zoneId row)
     \<and> equals_if (Option.bind scope gs_clientId) (br_clientId row)
     \<and> (hasProject \<longrightarrow> equals_if (Option.bind scope gs_projectId) (br_projectId row))"

definition needsGeographicScope :: "GlobalScope option \<Rightarrow> bool" where
  "needsGeographicScope scope \<longleftrightarrow> constraining scope \<noteq> None \<or> some_text (Option.bind scope gs_state) \<noteq> None
     \<or> some_text (Option.bind scope gs_zoneId) \<noteq> None"

definition needsBranchJoin :: "GlobalScope option \<Rightarrow> bool" where
  "needsBranchJoin scope \<longleftrightarrow> constraining scope \<noteq> None \<or> some_text (Option.bind scope gs_state) \<noteq> None
     \<or> some_text (Option.bind scope gs_zoneId) \<noteq> None \<or> some_text (Option.bind scope gs_clientId) \<noteq> None"

definition applyAssayerScope :: "GlobalScope option \<Rightarrow> string option \<Rightarrow> bool" where
  "applyAssayerScope scope region = (case constraining scope of None \<Rightarrow> True | Some rs \<Rightarrow> region_in rs region)"

section \<open>The check of a record\<close>

definition assertRegionAllowed :: "string option \<Rightarrow> GlobalScope option \<Rightarrow> (scope_refusal, unit) result" where
  "assertRegionAllowed region scope =
    (case constraining scope of
       None \<Rightarrow> Inr ()
     | Some rs \<Rightarrow>
        (case some_text region of
           None \<Rightarrow> Inr ()
         | Some r \<Rightarrow> if region_in rs (Some r) then Inr () else Inl OutsideRegion))"

definition isRegionAllowed :: "string option \<Rightarrow> GlobalScope option \<Rightarrow> bool" where
  "isRegionAllowed region scope = (case assertRegionAllowed region scope of Inr _ \<Rightarrow> True | Inl _ \<Rightarrow> False)"

definition assertRegionSettable :: "string option \<Rightarrow> GlobalScope option \<Rightarrow> (scope_refusal, unit) result" where
  "assertRegionSettable region scope =
    (case constraining scope of
       None \<Rightarrow> Inr ()
     | Some rs \<Rightarrow>
        (case some_text region of
           None \<Rightarrow> Inr ()
         | Some r \<Rightarrow> if region_in rs (Some r) then Inr () else Inl (CannotPlaceIn r)))"

text \<open>The setting as it is read, \<open>None\<close> when reading it throws: the shipped default then holds.\<close>

definition readMode :: "string option \<Rightarrow> string" where
  "readMode setting = nullish_value setting ''enforce''"

datatype staged_mode = Mode_off | Mode_log | Mode_enforce

definition stagedMode :: "string option \<Rightarrow> staged_mode" where
  "stagedMode setting =
    (if readMode setting = ''off'' then Mode_off else if readMode setting = ''enforce'' then Mode_enforce else Mode_log)"

text \<open>The answer says whether a line was logged.\<close>

definition assertRegionAllowedStaged :: "string option \<Rightarrow> string option \<Rightarrow> GlobalScope option \<Rightarrow> (scope_refusal, bool) result" where
  "assertRegionAllowedStaged setting region scope =
    (if readMode setting = ''off'' then Inr False
     else case assertRegionAllowed region scope of
       Inr _ \<Rightarrow> Inr False
     | Inl err \<Rightarrow> if readMode setting = ''enforce'' then Inl err else Inr True)"

text \<open>
  A record by its identifier. The look-up answers the region of the record's branch or assayer, nothing
  where there is no such row.
\<close>

definition assertRecordInScope :: "(string \<Rightarrow> string option) \<Rightarrow> string option \<Rightarrow> GlobalScope option \<Rightarrow> (scope_refusal, unit) result" where
  "assertRecordInScope regionOfRow i scope =
    (case some_text i of
       None \<Rightarrow> Inr ()
     | Some k \<Rightarrow> if constraining scope = None then Inr () else assertRegionAllowed (regionOfRow k) scope)"

text \<open>A project, several projects, a coverage plan: the regions of all the branches they have.\<close>

definition assertProjectInScope :: "(string \<Rightarrow> string option list) \<Rightarrow> string option \<Rightarrow> GlobalScope option \<Rightarrow> (scope_refusal, unit) result" where
  "assertProjectInScope regionsOf i scope =
    (case (some_text i, constraining scope) of
       (Some k, Some rs) \<Rightarrow>
         if list_ex (\<lambda>region. some_text region \<noteq> None \<and> \<not> region_in rs region) (regionsOf k)
         then Inl SpansOtherRegions else Inr ()
     | _ \<Rightarrow> Inr ())"

fun all_allowed :: "string option list \<Rightarrow> GlobalScope option \<Rightarrow> (scope_refusal, unit) result" where
  "all_allowed [] scope = Inr ()"
| "all_allowed (r # rs) scope = (case assertRegionAllowed r scope of Inl err \<Rightarrow> Inl err | Inr _ \<Rightarrow> all_allowed rs scope)"

text \<open>A batch: one question about all of it. The look-up answers the regions of the rows there are.\<close>

definition assertBatchInScope :: "(string list \<Rightarrow> string option list) \<Rightarrow> string list \<Rightarrow> GlobalScope option \<Rightarrow> (scope_refusal, unit) result" where
  "assertBatchInScope regionsOf ids scope =
    (if ids = [] \<or> constraining scope = None then Inr () else all_allowed (regionsOf ids) scope)"

fun all_allowed_staged :: "string option \<Rightarrow> string option list \<Rightarrow> GlobalScope option \<Rightarrow> (scope_refusal, bool) result" where
  "all_allowed_staged setting [] scope = Inr False"
| "all_allowed_staged setting (r # rs) scope =
    (case assertRegionAllowedStaged setting r scope of
       Inl err \<Rightarrow> Inl err
     | Inr logged \<Rightarrow>
        (case all_allowed_staged setting rs scope of Inl err \<Rightarrow> Inl err | Inr also_logged \<Rightarrow> Inr (logged \<or> also_logged)))"

definition assertInvoiceInScope :: "(string \<Rightarrow> string list) \<Rightarrow> string option \<Rightarrow> string option \<Rightarrow> GlobalScope option \<Rightarrow> bool
    \<Rightarrow> (scope_refusal, bool) result" where
  "assertInvoiceInScope regionsOf setting i scope staged =
    (case some_text i of
       None \<Rightarrow> Inr False
     | Some k \<Rightarrow>
        if constraining scope = None then Inr False
        else if staged then all_allowed_staged setting (map Some (regionsOf k)) scope
        else case all_allowed (map Some (regionsOf k)) scope of Inl err \<Rightarrow> Inl err | Inr _ \<Rightarrow> Inr False)"

section \<open>The hiring desk\<close>

text \<open>An inherited property is a function, which is no region; its text is shown.\<close>

definition applicationRegion :: "string option \<Rightarrow> string option" where
  "applicationRegion state =
    (case resolveRegion state of
       Some (Own r) \<Rightarrow> Some (regionValue r)
     | Some Inherited \<Rightarrow> Some ''function Object() { [native code] }''
     | None \<Rightarrow> None)"

datatype access = Read | Write

definition hiringCeiling :: "string option \<Rightarrow> string option \<Rightarrow> GlobalScope option \<Rightarrow> access \<Rightarrow> (scope_refusal, bool) result" where
  "hiringCeiling setting region scope access =
    (case access of
       Write \<Rightarrow> (case assertRegionAllowed region scope of Inl err \<Rightarrow> Inl err | Inr _ \<Rightarrow> Inr False)
     | Read \<Rightarrow> assertRegionAllowedStaged setting region scope)"

definition assertApplicationInScope :: "(string \<Rightarrow> string option) \<Rightarrow> string option \<Rightarrow> string option \<Rightarrow> GlobalScope option \<Rightarrow> access
    \<Rightarrow> (scope_refusal, bool) result" where
  "assertApplicationInScope stateOf setting i scope access =
    (case some_text i of
       None \<Rightarrow> Inr False
     | Some k \<Rightarrow>
        if constraining scope = None then Inr False
        else hiringCeiling setting (applicationRegion (stateOf k)) scope access)"

definition narrowApplicationsToScope :: "string option \<Rightarrow> ('a \<Rightarrow> string option) \<Rightarrow> 'a list \<Rightarrow> GlobalScope option \<Rightarrow> 'a list" where
  "narrowApplicationsToScope setting stateOf rows scope =
    (if constraining scope = None \<or> rows = [] then rows
     else let inScope = (\<lambda>r. isRegionAllowed (applicationRegion (stateOf r)) scope) in
       (case stagedMode setting of
          Mode_off \<Rightarrow> rows
        | Mode_log \<Rightarrow> rows
        | Mode_enforce \<Rightarrow> filter inScope rows))"

section \<open>Rooms of the live events\<close>

definition isInternalStaff :: "role_entry list option \<Rightarrow> bool" where
  "isInternalStaff roles = list_ex (\<lambda>r. r \<notin> {''ASSAYER'', ''CLIENT_USER''}) (roleNames roles)"

datatype RoomVerdict = RoomVerdict (found: bool) (allowed_in: bool)

definition regionAllowed :: "string option \<Rightarrow> Region property list option \<Rightarrow> bool" where
  "regionAllowed region regions = (case regions of None \<Rightarrow> True | Some rs \<Rightarrow> some_text region \<noteq> None \<and> region_in rs region)"

text \<open>The row of \<^verbatim>\<open>users\<close> for an identifier, with its regions.\<close>

definition userRegions :: "(string \<Rightarrow> string list option option) \<Rightarrow> string \<Rightarrow> (scope_refusal, Region property list option) result" where
  "userRegions users i =
    (case users i of
       None \<Rightarrow> Inl AccountNotFound
     | Some rs \<Rightarrow> assignedRegions (Some \<lparr> sp_id = i, sp_regions = rs, sp_clientId = None, sp_roles = None \<rparr>))"

definition staffVerdict :: "(string \<Rightarrow> string list option option) \<Rightarrow> string \<Rightarrow> role_entry list option \<Rightarrow> string option
    \<Rightarrow> (scope_refusal, RoomVerdict) result" where
  "staffVerdict users i roles region =
    (if \<not> isInternalStaff roles then Inr (RoomVerdict True False)
     else case userRegions users i of
       Inl err \<Rightarrow> Inl err
     | Inr regions \<Rightarrow> Inr (RoomVerdict True (regionAllowed region regions)))"

text \<open>The row of the assignment: its assayer and the region of its branch.\<close>

definition assignmentVerdict :: "(string \<Rightarrow> (string option \<times> string option) option) \<Rightarrow> (string \<Rightarrow> string list option option)
    \<Rightarrow> string \<Rightarrow> role_entry list option \<Rightarrow> string \<Rightarrow> (scope_refusal, RoomVerdict) result" where
  "assignmentVerdict rows users i roles assignmentId =
    (case rows assignmentId of
       None \<Rightarrow> Inr (RoomVerdict False False)
     | Some (assayerId, region) \<Rightarrow>
        if some_text assayerId \<noteq> None \<and> assayerId = Some i then Inr (RoomVerdict True True)
        else staffVerdict users i roles region)"

text \<open>The row of the clarification: its assayer, who raised it, and the region.\<close>

definition queryVerdict :: "(string \<Rightarrow> (string option \<times> string option \<times> string option) option) \<Rightarrow> (string \<Rightarrow> string list option option)
    \<Rightarrow> string \<Rightarrow> role_entry list option \<Rightarrow> string \<Rightarrow> (scope_refusal, RoomVerdict) result" where
  "queryVerdict rows users i roles queryId =
    (case rows queryId of
       None \<Rightarrow> Inr (RoomVerdict False False)
     | Some (assayerId, raisedBy, region) \<Rightarrow>
        if some_text assayerId \<noteq> None \<and> assayerId = Some i \<or> some_text raisedBy \<noteq> None \<and> raisedBy = Some i
        then Inr (RoomVerdict True True)
        else staffVerdict users i roles region)"

definition FEEDBACK_TEAM_ROLE_NAMES :: "string list" where
  "FEEDBACK_TEAM_ROLE_NAMES = [systemRoleValue SR_DEVELOPER, systemRoleValue SR_PRODUCT_SUPPORT]"

definition feedbackVerdict :: "(string \<Rightarrow> (string option \<times> string option) option) \<Rightarrow> string \<Rightarrow> role_entry list option \<Rightarrow> string
    \<Rightarrow> RoomVerdict" where
  "feedbackVerdict rows i roles threadId =
    (case rows threadId of
       None \<Rightarrow> RoomVerdict False False
     | Some (reporterUser, reporterAssayer) \<Rightarrow>
        if some_text reporterUser \<noteq> None \<and> reporterUser = Some i \<or> some_text reporterAssayer \<noteq> None \<and> reporterAssayer = Some i
        then RoomVerdict True True
        else RoomVerdict True (list_ex (\<lambda>r. r \<in> set FEEDBACK_TEAM_ROLE_NAMES) (roleNames roles)))"

text \<open>Who of a list of accounts an event of a region is sent to; an account without a row counts as national.\<close>

definition filterUsersByRegion :: "(string \<Rightarrow> string list option option) \<Rightarrow> string list \<Rightarrow> string option \<Rightarrow> string list" where
  "filterUsersByRegion users ids region =
    (case some_text region of
       None \<Rightarrow> ids
     | Some r \<Rightarrow> filter (\<lambda>i. case Option.bind (users i) (\<lambda>x. x) of
          None \<Rightarrow> True | Some [] \<Rightarrow> True | Some (x # xs) \<Rightarrow> r \<in> set (x # xs)) ids)"

section \<open>Routing an event\<close>

text \<open>
  The region of an event: the one its payload carries, or that of the first identifier of the payload that has
  one, looked up and remembered for a minute. A look-up that fails answers nothing. A call reads the clock
  for each identifier before the look-up and again when it stores the answer.
\<close>

definition REGION_CACHE_TTL_MS :: nat where
  "REGION_CACHE_TTL_MS = 60000"

definition REGION_CACHE_MAX :: nat where
  "REGION_CACHE_MAX = 5000"

datatype region_kind = K_branch | K_projectBranch | K_assignment | K_schedule | K_assayer

record event_payload =
  ep_region :: "string option"
  ep_metaRegion :: "string option"
  ep_id :: "region_kind \<Rightarrow> string option"
  ep_metaId :: "region_kind \<Rightarrow> string option"

type_synonym region_key_of = "region_kind \<times> string"

type_synonym region_cache = "(region_key_of \<times> (string option \<times> nat)) list"

definition cacheRegion :: "nat \<Rightarrow> region_key_of \<Rightarrow> string option \<Rightarrow> region_cache \<Rightarrow> region_cache" where
  "cacheRegion now key region cache =
    (let room = (if REGION_CACHE_MAX \<le> length cache then [] else cache)
     in filter (\<lambda>e. fst e \<noteq> key) room @ [(key, region, now + REGION_CACHE_TTL_MS)])"

definition uuid_digit :: "char \<Rightarrow> bool" where
  "uuid_digit c \<longleftrightarrow> is_digit c \<or> 97 \<le> code (lower_char c) \<and> code (lower_char c) \<le> 102"

definition UUID_RE :: "string \<Rightarrow> bool" where
  "UUID_RE s \<longleftrightarrow> length s = 36 \<and> list_all (\<lambda>(i, c). if i \<in> {8, 13, 18, 23} then c = CHR ''-'' else uuid_digit c) (zip [0..<36] s)"

definition lookupRegion :: "(region_kind \<Rightarrow> string \<Rightarrow> string option) \<Rightarrow> region_kind \<Rightarrow> string \<Rightarrow> string option" where
  "lookupRegion directory kind i = (if UUID_RE i then directory kind i else None)"

record routing =
  rt_directory :: "region_kind \<Rightarrow> string \<Rightarrow> string option"
  rt_read :: "region_kind \<Rightarrow> nat"
  rt_store :: "region_kind \<Rightarrow> nat"

text \<open>What is remembered for a key, while it has not expired.\<close>

definition remembered :: "nat \<Rightarrow> region_key_of \<Rightarrow> region_cache \<Rightarrow> string option option" where
  "remembered now key cache =
    (case map_of cache key of
       Some (region, expires) \<Rightarrow> if now < expires then Some region else None
     | None \<Rightarrow> None)"

fun route :: "routing \<Rightarrow> (region_kind \<times> string option) list \<Rightarrow> region_cache \<Rightarrow> string option \<times> region_cache" where
  "route env [] cache = (None, cache)"
| "route env ((kind, i) # rest) cache =
    (case some_text i of
       None \<Rightarrow> route env rest cache
     | Some k \<Rightarrow>
        (case remembered (rt_read env kind) (kind, k) cache of
           Some hit \<Rightarrow> (case some_text hit of Some r \<Rightarrow> (Some r, cache) | None \<Rightarrow> route env rest cache)
         | None \<Rightarrow>
            (let region = lookupRegion (rt_directory env) kind k;
                 cache' = cacheRegion (rt_store env kind) (kind, k) region cache
             in case some_text region of Some r \<Rightarrow> (Some r, cache') | None \<Rightarrow> route env rest cache')))"

definition resolveEventRegion :: "routing \<Rightarrow> event_payload \<Rightarrow> region_cache \<Rightarrow> string option \<times> region_cache" where
  "resolveEventRegion env payload cache =
    (case some_text (nullish (ep_region payload) (ep_metaRegion payload)) of
       Some r \<Rightarrow> (Some r, cache)
     | None \<Rightarrow> route env (map (\<lambda>k. (k, nullish (ep_id payload k) (ep_metaId payload k)))
         [K_branch, K_projectBranch, K_assignment, K_schedule, K_assayer]) cache)"

section \<open>Scopes\<close>

lemma some_text_iff: "some_text x = Some s \<longleftrightarrow> x = Some s \<and> s \<noteq> []"
  by (cases x) auto

lemma some_text_None: "some_text x = None \<longleftrightarrow> x = None \<or> x = Some []"
  by (cases x) auto

lemma regionOf_value: "regionOf v = Some r \<Longrightarrow> regionValue r = v"
  by (auto simp: regionOf_def find_Some_iff)

lemma value_nonempty: "regionValue r \<noteq> []"
  by (cases r) auto

lemma region_in_iff: "region_in rs region \<longleftrightarrow> (\<exists>r. Own r \<in> set rs \<and> region = Some (regionValue r))"
proof -
  have "(case p of Own r \<Rightarrow> region = Some (regionValue r) | Inherited \<Rightarrow> False) \<longleftrightarrow> (\<exists>r. p = Own r \<and> region = Some (regionValue r))" for p
    by (cases p) auto
  then show ?thesis by (auto simp: region_in_def list_ex_iff)
qed

lemma region_in_some_text: "region_in rs region \<Longrightarrow> \<exists>s. region = Some s \<and> s \<noteq> []"
  using value_nonempty by (auto simp: region_in_iff)

lemma assigned_within:
  assumes "assignedRegions (Some a) = Inr (Some rs)" "sp_regions a = Some raw"
  shows "rs \<noteq> [] \<and> (\<forall>p \<in> set rs. \<exists>r. p = Own r \<and> regionValue r \<in> set raw)"
proof -
  have "rs = map Own (List.map_filter regionOf raw)" "rs \<noteq> []"
    using assms by (auto simp: assignedRegions_def Let_def split: list.splits if_splits)
  moreover have "regionValue r \<in> set raw" if m: "r \<in> set (List.map_filter regionOf raw)" for r
  proof -
    obtain v where "v \<in> set raw" "regionOf v = Some r" using m by (auto simp: map_filter_def)
    then show ?thesis using regionOf_value by blast
  qed
  ultimately show ?thesis by auto
qed










section \<open>Lists and records of the hiring desk\<close>

lemma allowed_iff: "isRegionAllowed region scope \<longleftrightarrow> assertRegionAllowed region scope = Inr ()"
  by (auto simp: isRegionAllowed_def split: sum.splits)

lemma unconstrained: "constraining scope = None \<Longrightarrow> assertRegionAllowed region scope = Inr ()"
  by (simp add: assertRegionAllowed_def)

lemma staged_iff:
  "(\<exists>logged. assertRegionAllowedStaged setting region scope = Inr logged) \<longleftrightarrow>
     stagedMode setting \<noteq> Mode_enforce \<or> isRegionAllowed region scope"
  by (auto simp: assertRegionAllowedStaged_def stagedMode_def isRegionAllowed_def split: sum.splits)

text \<open>
  The hiring queue and its records agree. In every mode of the rollout, and when the mode cannot be read, an
  application is in the queue a desk is shown exactly when opening it by its identifier is not refused; a
  decision on it is refused whenever, outside the modes that only watch, opening it would be; and in those
  modes the desk sees everything and may still decide only on its own regions.
\<close>

theorem queue_matches_records:
  assumes "application \<in> set rows" "stateOf application = stateById i" "i \<noteq> []"
  shows "(application \<in> set (narrowApplicationsToScope setting stateOf rows scope)
            \<longleftrightarrow> (\<exists>logged. assertApplicationInScope stateById setting (Some i) scope Read = Inr logged))
    \<and> ((\<exists>logged. assertApplicationInScope stateById setting (Some i) scope Write = Inr logged)
            \<longleftrightarrow> application \<in> set (narrowApplicationsToScope None stateOf rows scope))
    \<and> (setting = Some ''log'' \<or> setting = Some ''off'' \<longrightarrow> application \<in> set (narrowApplicationsToScope setting stateOf rows scope))"
proof -
  let ?ok = "isRegionAllowed (applicationRegion (stateOf application)) scope"
  have listed: "application \<in> set (narrowApplicationsToScope st stateOf rows scope) \<longleftrightarrow> stagedMode st \<noteq> Mode_enforce \<or> ?ok" for st
    using assms(1) unconstrained [of scope]
    by (auto simp: narrowApplicationsToScope_def Let_def allowed_iff split: staged_mode.splits)
  have "(\<exists>logged. assertApplicationInScope stateById setting (Some i) scope Read = Inr logged) \<longleftrightarrow> stagedMode setting \<noteq> Mode_enforce \<or> ?ok"
    using assms(2,3) staged_iff [of setting "applicationRegion (stateById i)" scope] unconstrained [of scope]
    by (auto simp: assertApplicationInScope_def hiringCeiling_def allowed_iff)
  moreover have "(\<exists>logged. assertApplicationInScope stateById setting (Some i) scope Write = Inr logged) \<longleftrightarrow> ?ok"
    using assms(2,3) unconstrained [of scope]
    by (auto simp: assertApplicationInScope_def hiringCeiling_def isRegionAllowed_def split: sum.splits)
  moreover have "stagedMode None = Mode_enforce" "stagedMode (Some ''log'') = Mode_log" "stagedMode (Some ''off'') = Mode_off"
    by (simp_all add: stagedMode_def readMode_def)
  ultimately show ?thesis using listed by auto
qed

theorem queue_matches_records_witness:
  "let sc = Some \<lparr> gs_projectId = None, gs_clientId = None, gs_zoneId = None, gs_state = None, gs_regions = Some [Own RG_SOUTH] \<rparr>
   in ''Kerala'' \<in> set (narrowApplicationsToScope None Some [''Goa'', ''Kerala''] sc)
      \<and> (\<exists>logged. assertApplicationInScope (\<lambda>_. Some ''Kerala'') None (Some ''a-1'') sc Read = Inr logged)"
proof -
  let ?sc = "Some \<lparr> gs_projectId = None, gs_clientId = None, gs_zoneId = None, gs_state = None, gs_regions = Some [Own RG_SOUTH] \<rparr>"
  have "''Kerala'' \<in> set (narrowApplicationsToScope None Some [''Goa'', ''Kerala''] ?sc)" by code_simp
  then show ?thesis
    using queue_matches_records [of "''Kerala''" "[''Goa'', ''Kerala'']" Some "\<lambda>_. Some ''Kerala''" "''a-1''" None ?sc] by simp
qed

section \<open>Rooms\<close>

lemma rooms_follow_lists:
  assumes "userRegions users i = Inr regions"
  shows "staffVerdict users i roles region = Inr (RoomVerdict True (isInternalStaff roles
     \<and> applyAssayerScope (Some \<lparr> gs_projectId = None, gs_clientId = None, gs_zoneId = None, gs_state = None, gs_regions = regions \<rparr>) region))"
proof -
  have "regions \<noteq> Some []"
    using assms assigned_within by (fastforce simp: userRegions_def assignedRegions_def Let_def split: option.splits list.splits if_splits)
  then have "regionAllowed region regions \<longleftrightarrow> applyAssayerScope (Some \<lparr> gs_projectId = None, gs_clientId = None, gs_zoneId = None,
      gs_state = None, gs_regions = regions \<rparr>) region"
    using region_in_some_text
    by (auto simp: regionAllowed_def applyAssayerScope_def constraining_def some_text_None split: option.splits list.splits)
  then show ?thesis using assms by (simp add: staffVerdict_def)
qed

lemma unassigned_region_listed_nowhere:
  "constraining scope \<noteq> None \<Longrightarrow> \<not> applyBranchScope hp scope (row\<lparr> br_region := None \<rparr>) \<and> assertRegionAllowed None scope = Inr ()"
  by (auto simp: applyBranchScope_def assertRegionAllowed_def region_in_iff)

section \<open>The memory of regions\<close>

definition run_routes :: "(routing \<times> event_payload) list \<Rightarrow> region_cache \<Rightarrow> region_cache" where
  "run_routes calls cache = fold (\<lambda>(env, payload) c. snd (resolveEventRegion env payload c)) calls cache"

definition cache_ok :: "routing set \<Rightarrow> region_cache \<Rightarrow> bool" where
  "cache_ok envs cache \<longleftrightarrow> distinct (map fst cache) \<and> length cache \<le> REGION_CACHE_MAX
     \<and> (\<forall>((k, i), (region, expires)) \<in> set cache. \<exists>env \<in> envs. region = lookupRegion (rt_directory env) k i
          \<and> expires = rt_store env k + REGION_CACHE_TTL_MS)"

lemma cache_stored:
  assumes "cache_ok envs cache" "env \<in> envs"
  shows "cache_ok envs (cacheRegion (rt_store env k) (k, i) (lookupRegion (rt_directory env) k i) cache)"
proof -
  define room where "room = (if REGION_CACHE_MAX \<le> length cache then [] else cache)"
  have room: "cache_ok envs room" "length room < REGION_CACHE_MAX"
    using assms by (auto simp: room_def cache_ok_def REGION_CACHE_MAX_def)
  have "Suc (length (filter (\<lambda>e. fst e \<noteq> (k, i)) room)) \<le> REGION_CACHE_MAX"
    using length_filter_le [of "\<lambda>e. fst e \<noteq> (k, i)" room] room(2) by linarith
  moreover have "distinct (map fst (filter (\<lambda>e. fst e \<noteq> (k, i)) room))"
    using room by (simp add: cache_ok_def distinct_map_filter)
  moreover have "cacheRegion (rt_store env k) (k, i) (lookupRegion (rt_directory env) k i) cache
      = filter (\<lambda>e. fst e \<noteq> (k, i)) room @ [((k, i), (lookupRegion (rt_directory env) k i, rt_store env k + REGION_CACHE_TTL_MS))]"
    by (simp add: cacheRegion_def room_def)
  ultimately show ?thesis using room assms(2) unfolding cache_ok_def by auto
qed

lemma route_ok:
  "cache_ok envs cache \<Longrightarrow> env \<in> envs \<Longrightarrow> cache_ok envs (snd (route env cs cache))"
proof (induction env cs cache rule: route.induct)
  case (2 env kind i rest cache)
  then show ?case
    using cache_stored [of envs cache env kind] by (auto simp: Let_def split: option.splits)
qed simp

lemma route_answer:
  "route env cs cache = (Some r, c) \<Longrightarrow> cache_ok envs cache \<Longrightarrow> env \<in> envs \<Longrightarrow>
   \<exists>k j env'. (k, Some j) \<in> set cs \<and> env' \<in> envs \<and> lookupRegion (rt_directory env') k j = Some r
     \<and> (env' = env \<or> rt_read env k < rt_store env' k + REGION_CACHE_TTL_MS)"
proof (induction env cs cache rule: route.induct)
  case (2 env kind i rest cache)
  show ?case
  proof (cases "some_text i")
    case None
    then show ?thesis using 2 by auto
  next
    case (Some j)
    then have ij: "i = Some j" by (simp add: some_text_iff)
    show ?thesis
    proof (cases "remembered (rt_read env kind) (kind, j) cache")
      case None
      show ?thesis
      proof (cases "some_text (lookupRegion (rt_directory env) kind j)")
        case n: None
        let ?c = "cacheRegion (rt_store env kind) (kind, j) (lookupRegion (rt_directory env) kind j) cache"
        have "route env rest ?c = (Some r, c)" using 2(4) Some None n by (simp add: Let_def)
        then have "\<exists>k j env'. (k, Some j) \<in> set rest \<and> env' \<in> envs \<and> lookupRegion (rt_directory env') k j = Some r
            \<and> (env' = env \<or> rt_read env k < rt_store env' k + REGION_CACHE_TTL_MS)"
          using 2(2) [OF Some None refl refl n _ cache_stored [OF 2(5,6)] 2(6)] by blast
        then show ?thesis by auto
      next
        case f: (Some s)
        then have "s = r" using 2(4) Some None by (simp add: Let_def)
        then have "lookupRegion (rt_directory env) kind j = Some r" using f some_text_iff by auto
        then show ?thesis using ij 2(6) by auto
      qed
    next
      case h: (Some hit)
      show ?thesis
      proof (cases "some_text hit")
        case n: None
        have "route env rest cache = (Some r, c)" using 2(4) Some h n by simp
        then have "\<exists>k j env'. (k, Some j) \<in> set rest \<and> env' \<in> envs \<and> lookupRegion (rt_directory env') k j = Some r
            \<and> (env' = env \<or> rt_read env k < rt_store env' k + REGION_CACHE_TTL_MS)"
          using 2(3) [OF Some h n _ 2(5,6)] by blast
        then show ?thesis by auto
      next
        case f: (Some s)
        then have s: "hit = Some r" using 2(4) Some h some_text_iff by auto
        obtain e where e: "((kind, j), (hit, e)) \<in> set cache" "rt_read env kind < e"
          using h by (auto simp: remembered_def split: option.splits if_splits dest: map_of_SomeD)
        then obtain env' where "env' \<in> envs" "hit = lookupRegion (rt_directory env') kind j" "e = rt_store env' kind + REGION_CACHE_TTL_MS"
          using 2(5) by (fastforce simp: cache_ok_def)
        then show ?thesis using ij s e(2) by auto
      qed
    qed
  qed
qed simp

lemma resolve_ok: "cache_ok envs cache \<Longrightarrow> env \<in> envs \<Longrightarrow> cache_ok envs (snd (resolveEventRegion env payload cache))"
  unfolding resolveEventRegion_def using route_ok by (simp del: route.simps list.map split: option.split)

lemma runs_ok: "cache_ok envs cache \<Longrightarrow> fst ` set calls \<subseteq> envs \<Longrightarrow> cache_ok envs (run_routes calls cache)"
  by (induction calls arbitrary: cache) (auto simp: run_routes_def resolve_ok)

text \<open>
  The remembered regions are bounded and fresh. After any events the memory holds at most 5000 entries, one
  for a key, and an event is routed by the region its payload states or by an answer the directory gave for an
  identifier of the payload, in this call or stored less than a minute before this call read it.
\<close>

theorem remembered_regions_fresh:
  assumes "resolveEventRegion env payload (run_routes calls []) = (Some r, cache)"
  shows "length cache \<le> 5000 \<and> distinct (map fst cache)
    \<and> (nullish (ep_region payload) (ep_metaRegion payload) = Some r
       \<or> (\<exists>k i env'. nullish (ep_id payload k) (ep_metaId payload k) = Some i \<and> UUID_RE i \<and> rt_directory env' k i = Some r
            \<and> (env' = env \<or> env' \<in> fst ` set calls \<and> rt_read env k < rt_store env' k + 60000)))"
proof -
  let ?envs = "insert env (fst ` set calls)"
  have ok: "cache_ok ?envs (run_routes calls [])" by (rule runs_ok) (auto simp: cache_ok_def)
  have c: "cache_ok ?envs cache" using resolve_ok [OF ok, of env payload] assms by simp
  have "nullish (ep_region payload) (ep_metaRegion payload) = Some r
       \<or> (\<exists>k i env'. nullish (ep_id payload k) (ep_metaId payload k) = Some i \<and> UUID_RE i \<and> rt_directory env' k i = Some r
            \<and> (env' = env \<or> env' \<in> fst ` set calls \<and> rt_read env k < rt_store env' k + 60000))"
  proof (cases "some_text (nullish (ep_region payload) (ep_metaRegion payload))")
    case None
    define cs where "cs = map (\<lambda>k. (k, nullish (ep_id payload k) (ep_metaId payload k)))
         [K_branch, K_projectBranch, K_assignment, K_schedule, K_assayer]"
    have "route env cs (run_routes calls []) = (Some r, cache)"
      using assms None by (simp only: resolveEventRegion_def cs_def option.case)
    then obtain k i env' where k: "(k, Some i) \<in> set cs" "env' \<in> ?envs"
      "lookupRegion (rt_directory env') k i = Some r" "env' = env \<or> rt_read env k < rt_store env' k + REGION_CACHE_TTL_MS"
      using route_answer [OF _ ok] by blast
    moreover have "nullish (ep_id payload k) (ep_metaId payload k) = Some i" using k(1) by (auto simp: cs_def)
    ultimately have "nullish (ep_id payload k) (ep_metaId payload k) = Some i \<and> UUID_RE i \<and> rt_directory env' k i = Some r
            \<and> (env' = env \<or> env' \<in> fst ` set calls \<and> rt_read env k < rt_store env' k + 60000)"
      by (auto simp: lookupRegion_def REGION_CACHE_TTL_MS_def split: if_splits)
    then show ?thesis by blast
  next
    case (Some s)
    then show ?thesis using assms by (auto simp: resolveEventRegion_def some_text_iff)
  qed
  then show ?thesis using c by (simp add: cache_ok_def REGION_CACHE_MAX_def)
qed

definition sample_uuid :: string where
  "sample_uuid = ''0123abcd-0123-4567-89ab-0123456789ab''"

definition sample_routing :: "nat \<Rightarrow> string option \<Rightarrow> routing" where
  "sample_routing t region = \<lparr> rt_directory = (\<lambda>_ _. region), rt_read = (\<lambda>_. t), rt_store = (\<lambda>_. t + 5) \<rparr>"

definition sample_payload :: event_payload where
  "sample_payload = \<lparr> ep_region = None, ep_metaRegion = None, ep_id = (\<lambda>k. if k = K_assayer then Some sample_uuid else None),
     ep_metaId = (\<lambda>_. None) \<rparr>"

theorem remembered_regions_fresh_witness:
  "\<exists>cache. resolveEventRegion (sample_routing 60000 (Some ''EAST'')) sample_payload
       (run_routes [(sample_routing 1 (Some ''WEST''), sample_payload)] []) = (Some ''WEST'', cache) \<and> length cache \<le> 5000"
proof -
  define c where "c = [((K_assayer, sample_uuid), (Some ''WEST'', 60006 :: nat))]"
  have "resolveEventRegion (sample_routing 60000 (Some ''EAST'')) sample_payload
       (run_routes [(sample_routing 1 (Some ''WEST''), sample_payload)] []) = (Some ''WEST'', c)"
    unfolding c_def by code_simp
  then show ?thesis using remembered_regions_fresh by blast
qed

end
