(* ===== verification/Expense_Claims.thy ===== *)
theory Expense_Claims
  imports Payout_Ledger Assignment_Capabilities Region_Scope Role_Hierarchy
begin

text \<open>
  Reimbursement claims (\<^verbatim>\<open>modules/expense\<close>): raising one against a visit, once however often the phone retries,
  and the review that approves or rejects it and books the payable in one transaction. The reads of a call come
  before its transaction, from a state that other calls may have left behind by then; the transaction reads
  again under its locks what it decides on.
\<close>

section \<open>Rows\<close>

datatype ExpenseStatus = EX_PENDING | EX_APPROVED | EX_REJECTED

definition EXPENSE_CATEGORIES :: "string list" where
  "EXPENSE_CATEGORIES = [''TRAVEL_KM'', ''TOLL'', ''FOOD'', ''OTHER'']"

record ExpenseEntity =
  ex_id :: string
  ex_assignmentId :: string
  ex_assayerId :: string
  ex_category :: string
  ex_amount :: rat
  ex_description :: "string option"
  ex_receiptUrl :: "string option"
  ex_status :: ExpenseStatus
  ex_reviewedBy :: "string option"
  ex_reviewNotes :: "string option"
  ex_overrideReason :: "string option"
  ex_overrideCodes :: "gate_code list option"
  ex_reimbursementPayableId :: "string option"
  ex_clientRequestId :: "string option"
  ex_isActive :: bool
  ex_createdBy :: string

record claims_db =
  cl_payouts :: payout_db
  cl_expenses :: "ExpenseEntity list"

record CreateExpenseDto =
  dto_category :: string
  dto_amount :: js_number
  dto_description :: "string option"
  dto_receiptUrl :: "string option"
  dto_clientRequestId :: "string option"

text \<open>
  What a call reads from outside: the environment of its payout work, the assignments as it reads them first and
  as it reads them under its locks, the region of an assignment's branch, the settings (none when they cannot be
  read), a fresh identifier, and the errors of a failing insert and of a failing audit write.
\<close>

record claim_env =
  ce_payout :: payout_env
  ce_assignment :: "string \<Rightarrow> CapabilityAssignment option"
  ce_lockedAssignment :: "string \<Rightarrow> CapabilityAssignment option"
  ce_region :: "string \<Rightarrow> string option"
  ce_regionMode :: "string option"
  ce_maxClaim :: "rat option"
  ce_newId :: string
  ce_insertFault :: "string option"
  ce_auditFault :: "string option"

datatype claim_refusal =
    ClaimAssignmentNotFound string
  | ClaimNotFound string
  | RegionRefused scope_refusal
  | NotOwnAssignment
  | AmountNotPositiveNumber
  | AboveMaximum rat
  | UnknownCategory string
  | ClaimNotOffered gate_code
  | AlreadyReviewed ExpenseStatus
  | RejectionNeedsReason
  | OwnClaim
  | RulesRefuse "gate_code list"
  | OverrideNotPermitted "gate_code list"
  | OverrideReasonTooShort
  | PayoutWorkRefused payout_refusal
  | ClaimThrown string

definition MAX_SINGLE_CLAIM :: rat where
  "MAX_SINGLE_CLAIM = 50000"

section \<open>Raising a claim\<close>

definition fee_facts :: "payout_db \<Rightarrow> string \<Rightarrow> CapabilityFeePayable option" where
  "fee_facts db assignmentId =
    map_option (\<lambda>p. \<lparr> fp_status = py_status p, assayerInvoiceId = py_billId p \<rparr>) (liveFeePayable db assignmentId)"

definition claim_of_request :: "ExpenseEntity list \<Rightarrow> string option \<Rightarrow> string option \<Rightarrow> ExpenseEntity option" where
  "claim_of_request es assayerId request =
    (case some_text request of
       None \<Rightarrow> None
     | Some r \<Rightarrow> List.find (\<lambda>e. Some (ex_assayerId e) = assayerId \<and> ex_clientRequestId e = Some r) es)"

text \<open>The column keeps two digits after the point, rounding half away from zero, and ten before it.\<close>

definition claim_column :: "rat \<Rightarrow> rat" where
  "claim_column x = of_int \<lfloor>x * 100 + 1 / 2\<rfloor> / 100"

definition pending_claim :: "claim_env \<Rightarrow> string \<Rightarrow> string \<Rightarrow> CreateExpenseDto \<Rightarrow> rat \<Rightarrow> string \<Rightarrow> ExpenseEntity" where
  "pending_claim env assignmentId assayerId dto amount userId =
    \<lparr> ex_id = ce_newId env, ex_assignmentId = assignmentId, ex_assayerId = assayerId, ex_category = dto_category dto,
      ex_amount = amount, ex_description = some_text (map_option js_trim (dto_description dto)),
      ex_receiptUrl = some_text (dto_receiptUrl dto), ex_status = EX_PENDING, ex_reviewedBy = None, ex_reviewNotes = None,
      ex_overrideReason = None, ex_overrideCodes = None, ex_reimbursementPayableId = None,
      ex_clientRequestId = some_text (dto_clientRequestId dto), ex_isActive = True, ex_createdBy = userId \<rparr>"

definition claim_audit :: "claim_env \<Rightarrow> string \<Rightarrow> ExpenseEntity \<Rightarrow> string option \<Rightarrow> string option \<Rightarrow> string \<Rightarrow> claims_db
    \<Rightarrow> claims_db \<times> (claim_refusal, ExpenseEntity) result" where
  "claim_audit env kind e prev next userId db =
    (case ce_auditFault env of
       Some err \<Rightarrow> (db, Inl (ClaimThrown err))
     | None \<Rightarrow> (db\<lparr> cl_payouts := payout_audit kind (ex_id e) prev next userId (cl_payouts db) \<rparr>, Inr e))"

text \<open>The insert, with the unique index on the assayer's request.\<close>

definition insert_claim :: "claim_env \<Rightarrow> ExpenseEntity \<Rightarrow> string \<Rightarrow> claims_db \<Rightarrow> claims_db \<times> (claim_refusal, ExpenseEntity) result" where
  "insert_claim env e userId db =
    (case ce_insertFault env of
       Some err \<Rightarrow> (db, Inl (ClaimThrown err))
     | None \<Rightarrow>
        if 10 ^ 10 \<le> \<bar>claim_column (ex_amount e)\<bar> then (db, Inl (ClaimThrown ''insert failed''))
        else case claim_of_request (cl_expenses db) (Some (ex_assayerId e)) (ex_clientRequestId e) of
          Some other \<Rightarrow> (db, Inr other)
        | None \<Rightarrow>
           if ex_id e \<in> ex_id ` set (cl_expenses db) then (db, Inl (ClaimThrown ''insert failed''))
           else claim_audit env ''EXPENSE_CLAIMED'' e None None userId
                  (db\<lparr> cl_expenses := cl_expenses db @ [e\<lparr> ex_amount := claim_column (ex_amount e) \<rparr>] \<rparr>))"

definition createClaim :: "claim_env \<Rightarrow> string \<Rightarrow> CreateExpenseDto \<Rightarrow> string \<Rightarrow> string option \<Rightarrow> GlobalScope option
    \<Rightarrow> claims_db \<Rightarrow> claims_db \<Rightarrow> claims_db \<times> (claim_refusal, ExpenseEntity) result" where
  "createClaim env assignmentId dto userId claimant scope seen db =
    (case ce_assignment env assignmentId of
       None \<Rightarrow> (db, Inl (ClaimAssignmentNotFound assignmentId))
     | Some a \<Rightarrow>
        (case assertRegionAllowedStaged (ce_regionMode env) (ce_region env assignmentId) scope of
           Inl err \<Rightarrow> (db, Inl (RegionRefused err))
         | Inr _ \<Rightarrow>
            if some_text claimant \<noteq> None \<and> ca_assayerId a \<noteq> claimant then (db, Inl NotOwnAssignment)
            else case claim_of_request (cl_expenses seen) (ca_assayerId a) (dto_clientRequestId dto) of
              Some e \<Rightarrow> (db, Inr e)
            | None \<Rightarrow>
               (case dto_amount dto of
                  NaN \<Rightarrow> (db, Inl AmountNotPositiveNumber)
                | Num amount \<Rightarrow>
                   (let maxClaim = nullish_value (ce_maxClaim env) MAX_SINGLE_CLAIM;
                        visit = evaluateExpenseClaim a None;
                        money = evaluateExpenseClaim a (fee_facts (cl_payouts seen) assignmentId)
                    in if amount \<le> 0 then (db, Inl AmountNotPositiveNumber)
                       else if maxClaim < amount then (db, Inl (AboveMaximum maxClaim))
                       else if dto_category dto \<notin> set EXPENSE_CATEGORIES then (db, Inl (UnknownCategory (dto_category dto)))
                       else if \<not> allowed visit then (db, Inl (ClaimNotOffered (the (gate_code visit))))
                       else if \<not> allowed money then (db, Inl (ClaimNotOffered (the (gate_code money))))
                       else case ca_assayerId a of
                         None \<Rightarrow> (db, Inl (ClaimThrown ''insert failed''))
                       | Some y \<Rightarrow> insert_claim env (pending_claim env assignmentId y dto amount userId) userId db))))"

section \<open>Reviewing a claim\<close>

definition EXPENSE_APPROVAL_OVERRIDE_ROLES :: "string list" where
  "EXPENSE_APPROVAL_OVERRIDE_ROLES = [systemRoleValue SR_ADMIN]"

definition EXPENSE_APPROVAL_OVERRIDE_MIN_REASON :: nat where
  "EXPENSE_APPROVAL_OVERRIDE_MIN_REASON = 10"

definition mayOverrideExpenseApproval :: "role_entry list option \<Rightarrow> bool" where
  "mayOverrideExpenseApproval roles = list_ex (\<lambda>r. r \<in> set EXPENSE_APPROVAL_OVERRIDE_ROLES) (expandRoles (roleNames roles))"

definition approvalDecision :: "(string \<Rightarrow> CapabilityAssignment option) \<Rightarrow> payout_db \<Rightarrow> ExpenseEntity
    \<Rightarrow> (claim_refusal, ExpenseApprovalDecision) result" where
  "approvalDecision assignments db e =
    (case assignments (ex_assignmentId e) of
       None \<Rightarrow> Inl (ClaimAssignmentNotFound (ex_assignmentId e))
     | Some a \<Rightarrow>
        (let fee = fee_facts db (ex_assignmentId e);
             bill = Option.bind (liveFeeBillId fee) (find_bill db)
         in Inr (evaluateExpenseApproval a (ex_assayerId e) fee (map_option bl_status bill))))"

record override_request =
  or_reason :: "string option"
  or_mayOverride :: bool

type_synonym approval_override = "string \<times> gate_code list"

definition resolveApprovalRules :: "claim_env \<Rightarrow> payout_db \<Rightarrow> ExpenseEntity \<Rightarrow> override_request option
    \<Rightarrow> (claim_refusal, approval_override option) result" where
  "resolveApprovalRules env db e request =
    (case approvalDecision (ce_assignment env) db e of
       Inl err \<Rightarrow> Inl err
     | Inr decision \<Rightarrow>
        if approval_allowed decision then Inr None
        else (let reason = js_trim (nullish_value (Option.bind request or_reason) [])
              in if reason = [] then Inl (RulesRefuse (blocks decision))
                 else if \<not> (case request of None \<Rightarrow> False | Some r \<Rightarrow> or_mayOverride r)
                 then Inl (OverrideNotPermitted (blocks decision))
                 else if length reason < EXPENSE_APPROVAL_OVERRIDE_MIN_REASON then Inl OverrideReasonTooShort
                 else Inr (Some (reason, blocks decision))))"

definition find_claim :: "claims_db \<Rightarrow> string \<Rightarrow> ExpenseEntity option" where
  "find_claim db i = List.find (\<lambda>e. ex_id e = i) (cl_expenses db)"

definition save_claim :: "ExpenseEntity \<Rightarrow> ExpenseEntity list \<Rightarrow> ExpenseEntity list" where
  "save_claim e es = map (\<lambda>x. if ex_id x = ex_id e then e else x) es"

text \<open>The checks before the transaction, on what the call reads without a lock.\<close>

definition review_checks :: "claim_env \<Rightarrow> string \<Rightarrow> bool \<Rightarrow> string \<Rightarrow> string option \<Rightarrow> GlobalScope option \<Rightarrow> override_request option
    \<Rightarrow> claims_db \<Rightarrow> (claim_refusal, approval_override option) result" where
  "review_checks env expenseId approve userId notes scope request seen =
    (case find_claim seen expenseId of
       None \<Rightarrow> Inl (ClaimNotFound expenseId)
     | Some e \<Rightarrow>
        (case (if constraining scope = None then Inr False
               else assertRegionAllowedStaged (ce_regionMode env) (ce_region env (ex_assignmentId e)) scope) of
           Inl err \<Rightarrow> Inl (RegionRefused err)
         | Inr _ \<Rightarrow>
            if ex_status e \<noteq> EX_PENDING then Inl (AlreadyReviewed (ex_status e))
            else if \<not> approve \<and> some_text (map_option js_trim notes) = None then Inl RejectionNeedsReason
            else if approve \<and> ex_createdBy e \<noteq> [] \<and> ex_createdBy e = userId then Inl OwnClaim
            else if approve then resolveApprovalRules env (cl_payouts seen) e request else Inr None))"

definition decided :: "bool \<Rightarrow> string \<Rightarrow> string option \<Rightarrow> ExpenseEntity \<Rightarrow> ExpenseEntity" where
  "decided approve userId notes e = e\<lparr> ex_status := (if approve then EX_APPROVED else EX_REJECTED), ex_reviewedBy := Some userId,
     ex_reviewNotes := some_text (map_option js_trim notes) \<rparr>"

text \<open>The transaction: the claim and the rules are read again under the locks.\<close>

definition review_work :: "claim_env \<Rightarrow> string \<Rightarrow> bool \<Rightarrow> string \<Rightarrow> string option \<Rightarrow> approval_override option \<Rightarrow> claims_db
    \<Rightarrow> (claim_refusal, claims_db \<times> ExpenseEntity) result" where
  "review_work env expenseId approve userId notes override db =
    (case find_claim db expenseId of
       None \<Rightarrow> Inl (ClaimNotFound expenseId)
     | Some e \<Rightarrow>
        if ex_status e \<noteq> EX_PENDING then Inl (AlreadyReviewed (ex_status e))
        else let e1 = decided approve userId notes e in
          if \<not> approve then Inr (db\<lparr> cl_expenses := save_claim e1 (cl_expenses db) \<rparr>, e1)
          else case approvalDecision (ce_lockedAssignment env) (cl_payouts db) e1 of
            Inl err \<Rightarrow> Inl err
          | Inr current \<Rightarrow>
             (let codes = (case override of None \<Rightarrow> [] | Some (_, cs) \<Rightarrow> cs);
                  newBlocks = (if approval_allowed current then [] else filter (\<lambda>b. b \<notin> set codes) (blocks current))
              in if newBlocks \<noteq> [] then Inl (RulesRefuse newBlocks)
                 else let e2 = e1\<lparr> ex_overrideReason := map_option fst override, ex_overrideCodes := map_option snd override \<rparr> in
                   case createReimbursementPayable (ce_payout env) (ex_id e2) (ex_assayerId e2) (ex_assignmentId e2)
                          (Num (ex_amount e2)) userId (cl_payouts db) of
                     Inl err \<Rightarrow> Inl (PayoutWorkRefused err)
                   | Inr (payouts, payable) \<Rightarrow>
                      (let e3 = e2\<lparr> ex_reimbursementPayableId := Some (py_id payable) \<rparr>
                       in Inr (db\<lparr> cl_payouts := payouts, cl_expenses := save_claim e3 (cl_expenses db) \<rparr>, e3))))"

definition claim_state :: "ExpenseStatus \<Rightarrow> string option" where
  "claim_state s = Some (case s of EX_PENDING \<Rightarrow> ''PENDING'' | EX_APPROVED \<Rightarrow> ''APPROVED'' | EX_REJECTED \<Rightarrow> ''REJECTED'')"

definition reviewClaim :: "claim_env \<Rightarrow> string \<Rightarrow> bool \<Rightarrow> string \<Rightarrow> string option \<Rightarrow> GlobalScope option \<Rightarrow> override_request option
    \<Rightarrow> claims_db \<Rightarrow> claims_db \<Rightarrow> claims_db \<times> (claim_refusal, ExpenseEntity) result" where
  "reviewClaim env expenseId approve userId notes scope request seen db =
    (case review_checks env expenseId approve userId notes scope request seen of
       Inl err \<Rightarrow> (db, Inl err)
     | Inr override \<Rightarrow>
        (case review_work env expenseId approve userId notes override db of
           Inl err \<Rightarrow> (db, Inl err)
         | Inr (db', e) \<Rightarrow>
            (case be_writeFault (pe_billing (ce_payout env)) of
               Some err \<Rightarrow> (db, Inl (ClaimThrown err))
             | None \<Rightarrow> claim_audit env (if approve then ''EXPENSE_APPROVED'' else ''EXPENSE_REJECTED'') e
                 (claim_state EX_PENDING) (claim_state (ex_status e)) userId db')))"

section \<open>Lists\<close>

definition in_regions :: "string option \<Rightarrow> (string \<Rightarrow> string option) \<Rightarrow> GlobalScope option \<Rightarrow> ExpenseEntity list \<Rightarrow> ExpenseEntity list" where
  "in_regions setting region_at scope es =
    (case constraining scope of
       None \<Rightarrow> es
     | Some rs \<Rightarrow>
        (case stagedMode setting of
           Mode_off \<Rightarrow> es
         | Mode_log \<Rightarrow> es
         | Mode_enforce \<Rightarrow> filter (\<lambda>e. some_text (region_at (ex_assignmentId e)) = None \<or> region_in rs (region_at (ex_assignmentId e))) es))"

definition findPendingClaims :: "claim_env \<Rightarrow> GlobalScope option \<Rightarrow> claims_db \<Rightarrow> ExpenseEntity list" where
  "findPendingClaims env scope db =
    in_regions (ce_regionMode env) (ce_region env) scope (filter (\<lambda>e. ex_status e = EX_PENDING \<and> ex_isActive e) (cl_expenses db))"

definition findForAssignment :: "claim_env \<Rightarrow> string \<Rightarrow> GlobalScope option \<Rightarrow> claims_db \<Rightarrow> (claim_refusal, ExpenseEntity list) result" where
  "findForAssignment env assignmentId scope db =
    (let rows = filter (\<lambda>e. ex_assignmentId e = assignmentId \<and> ex_isActive e) (cl_expenses db)
     in case assertRegionAllowedStaged (ce_regionMode env) (if rows = [] then None else ce_region env assignmentId) scope of
          Inl err \<Rightarrow> Inl (RegionRefused err)
        | Inr _ \<Rightarrow> Inr (rev rows))"

definition findForAssayer :: "claim_env \<Rightarrow> string \<Rightarrow> ExpenseStatus option \<Rightarrow> GlobalScope option \<Rightarrow> claims_db \<Rightarrow> ExpenseEntity list" where
  "findForAssayer env assayerId status scope db =
    in_regions (ce_regionMode env) (ce_region env) scope
      (rev (filter (\<lambda>e. ex_assayerId e = assayerId \<and> ex_isActive e \<and> (case status of None \<Rightarrow> True | Some s \<Rightarrow> ex_status e = s)) (cl_expenses db)))"

record claims_summary =
  sum_pending :: rat
  sum_approved :: rat
  sum_rejected :: rat
  totalClaimed :: rat

definition summaryForAssayer :: "string \<Rightarrow> claims_db \<Rightarrow> claims_summary" where
  "summaryForAssayer assayerId db =
    (let rows = filter (\<lambda>e. ex_assayerId e = assayerId \<and> ex_isActive e) (cl_expenses db);
         total = (\<lambda>s. sum_list (map ex_amount (filter (\<lambda>e. ex_status e = s) rows)))
     in \<lparr> sum_pending = total EX_PENDING, sum_approved = total EX_APPROVED, sum_rejected = total EX_REJECTED,
          totalClaimed = sum_list (map ex_amount rows) \<rparr>)"

section \<open>Histories\<close>

text \<open>
  Any calls in any order. A call of this service reads first from some state of the history, the given number of
  steps back, and writes to the present one; the work on payouts is any call but the booking of a
  reimbursement, which the review makes.
\<close>

datatype claim_call =
    RaiseClaim claim_env string CreateExpenseDto string "string option" "GlobalScope option" nat
  | ReviewClaim claim_env string bool string "string option" "GlobalScope option" "override_request option" nat
  | PayoutWork payout_call

definition seen_state :: "nat \<Rightarrow> claims_db list \<Rightarrow> claims_db" where
  "seen_state n hist = hist ! min n (length hist - 1)"

fun claim_call_step :: "claim_call \<Rightarrow> claims_db list \<Rightarrow> claims_db" where
  "claim_call_step (RaiseClaim env i dto u cl sc n) hist = fst (createClaim env i dto u cl sc (seen_state n hist) (hd hist))"
| "claim_call_step (ReviewClaim env i ok u notes sc rq n) hist = fst (reviewClaim env i ok u notes sc rq (seen_state n hist) (hd hist))"
| "claim_call_step (PayoutWork c) hist = (hd hist)\<lparr> cl_payouts := payout_call_step c (cl_payouts (hd hist)) \<rparr>"

definition run_claims :: "claim_call list \<Rightarrow> claims_db list \<Rightarrow> claims_db list" where
  "run_claims calls hist = fold (\<lambda>c h. claim_call_step c h # h) calls hist"

definition no_claims :: claims_db where
  "no_claims = \<lparr> cl_payouts = empty_payouts, cl_expenses = [] \<rparr>"

fun desk_work :: "claim_call \<Rightarrow> bool" where
  "desk_work (PayoutWork (Reimburse env x y a n u)) = False"
| "desk_work c = True"

end
