(* ===== verification/Claim_Ledger.thy ===== *)
theory Claim_Ledger
  imports Expense_Claims
begin

text \<open>
  What holds of claims and the payables behind them after any calls: each approved claim is behind exactly one
  payable, over its own amount, nobody approves what they raised, a refusal of the rules is set aside only by a
  senior's reason, and a retried submission is the claim it retries.
\<close>

section \<open>What payout work leaves alone\<close>

definition kept_row :: "AssayerPayableEntity \<Rightarrow> AssayerPayableEntity \<Rightarrow> bool" where
  "kept_row p q \<longleftrightarrow> py_id q = py_id p \<and> py_expenseId q = py_expenseId p \<and> py_assayerId q = py_assayerId p
     \<and> py_assignmentId q = py_assignmentId p
     \<and> (py_expenseId p \<noteq> None \<longrightarrow> py_base q = py_base p \<and> py_travel q = py_travel p \<and> py_tds q = py_tds p \<and> py_total q = py_total p)"

lemma row_kept_refl [simp]: "kept_row p p"
  by (simp add: kept_row_def)

lemma row_kept_trans: "kept_row p q \<Longrightarrow> kept_row q r \<Longrightarrow> kept_row p r"
  by (auto simp: kept_row_def)

lemma move_kept: "payable_move strict p q \<Longrightarrow> kept_row p q"
  by (induction rule: payable_move.induct) (auto simp: kept_row_def back_to_office_def)

lemma moves_kept: "payable_moves strict p q \<Longrightarrow> kept_row p q"
  by (induction rule: rtranclp_induct) (auto dest: move_kept intro: row_kept_trans)

lemma paid_kept: "kept_row p (paid_row q d p)" "kept_row p (unpaid_row x p)"
  by (simp_all add: kept_row_def paid_row_def unpaid_row_def Let_def)

lemma replaced_kept:
  assumes "distinct (map py_id ps)" "p \<in> set ps" "kept_row p q"
  shows "list_all2 kept_row ps (replaced_row q ps)"
proof -
  have "kept_row r (if py_id r = py_id q then q else r)" if "r \<in> set ps" for r
    using assms that by (auto simp: kept_row_def distinct_map dest: inj_onD)
  then show ?thesis by (simp add: replaced_row_def list.rel_map list_all2_same)
qed

lemma step_kept:
  assumes "payout_step strict db db'" "rows_ok db"
  shows "list_all2 kept_row (po_payables db) (po_payables db') \<or> (\<exists>p. po_payables db' = po_payables db @ [p])"
  using assms(1)
proof (cases rule: payout_step.cases)
  case moved
  then show ?thesis by (auto intro: list_all2_mono moves_kept)
next
  case (disbursed i p q d)
  have "p \<in> set (po_payables db)" using disbursed lockPayable_Some by blast
  then show ?thesis
    using disbursed replaced_kept [of "po_payables db" p "paid_row q d p"] assms(2) by (simp add: rows_ok_def paid_kept)
next
  case (reversed k q p p2)
  have p: "p \<in> set (po_payables db)" using reversed lockPayable_Some by blast
  have "kept_row p p2" using row_kept_trans [OF paid_kept(2) moves_kept [OF reversed(4)]] by blast
  then show ?thesis using reversed replaced_kept [of "po_payables db" p p2] p assms(2) by (simp add: rows_ok_def)
qed simp

lemma moved_length: "rows_moved strict db db' \<Longrightarrow> length (po_payables db') = length (po_payables db)"
  by (auto simp: rows_moved_def dest: list_all2_lengthD)

lemma replaced_length [simp]: "length (replaced_row p ps) = length ps"
  by (simp add: replaced_row_def)

lemma tx_length:
  assumes "\<And>db' v. snd w = Inr (db', v) \<Longrightarrow> length (po_payables db') = length (po_payables db)"
  shows "length (po_payables (fst (payout_tx env db w))) = length (po_payables db)"
  using tx_cases [of w env db] assms by auto

lemma disburse_length: "length (po_payables (fst (recordDisbursement env i ref asked n u db))) = length (po_payables db)"
  unfolding recordDisbursement_def
  by (rule tx_length) (auto simp: disburse_def Let_def split: option.splits if_splits sum.splits prod.splits)

lemma reverse_length: "length (po_payables (fst (reverseOutboundPayment env k r u db))) = length (po_payables db)"
  unfolding reverseOutboundPayment_def Let_def
  by (split if_split, intro conjI impI) (simp, rule tx_length, auto split: option.splits if_splits sum.splits)

lemma book_rows:
  "\<exists>new. po_payables (fst (bookAssignment env a u db)) = po_payables db @ new \<and> (\<forall>p \<in> set new. py_expenseId p = None)"
proof -
  have legs: "\<exists>new. po_payables db' = po_payables db @ new \<and> (\<forall>p \<in> set new. py_expenseId p = None)"
    if l: "book_legs env a y c f u db = Inr (db', v)" for y c f db' v
    using l unfolding book_legs_def Let_def
    by (simp split: if_split_asm option.split_asm sum.split_asm prod.split_asm)
       (auto dest!: client_line_rows insert_result simp: fee_payable_def payable_row_def Let_def)
  have tx: "\<exists>new. po_payables (fst (payout_tx env db w)) = po_payables db @ new \<and> (\<forall>p \<in> set new. py_expenseId p = None)"
    if "\<And>db' v. snd w = Inr (db', v) \<Longrightarrow> \<exists>new. po_payables db' = po_payables db @ new \<and> (\<forall>p \<in> set new. py_expenseId p = None)"
    for w :: "booking payout_work"
    using tx_cases [of w env db] that by auto
  show ?thesis
    unfolding bookAssignment_def by (rule tx) (auto split: option.splits if_splits intro: legs)
qed

definition new_rows :: "(AssayerPayableEntity \<Rightarrow> bool) \<Rightarrow> payout_db \<Rightarrow> payout_db \<Rightarrow> bool" where
  "new_rows P db db' \<longleftrightarrow> (\<exists>ps new. po_payables db' = ps @ new \<and> list_all2 kept_row (po_payables db) ps \<and> (\<forall>p \<in> set new. P p))"

lemma kept_list_refl [simp]: "list_all2 kept_row ps ps"
  by (simp add: list.rel_refl)

lemma desk_rows:
  assumes "rows_ok db" "\<not> (\<exists>env x y a n u. c = Reimburse env x y a n u)"
  shows "new_rows (\<lambda>p. py_expenseId p = None) db (payout_call_step c db)"
proof (cases "\<exists>env a u. c = Book env a u")
  case True
  then obtain env a u where c: "c = Book env a u" by blast
  obtain new where "po_payables (payout_call_step c db) = po_payables db @ new" "\<forall>p \<in> set new. py_expenseId p = None"
    using book_rows [of env a u db] c by auto
  then show ?thesis unfolding new_rows_def using kept_list_refl by blast
next
  case False
  have step: "payout_step False db (payout_call_step c db)" by (rule payout_calls_are_steps [OF assms(1)]) simp
  have "length (po_payables (payout_call_step c db)) = length (po_payables db)"
  proof (cases c)
    case (FinalApprove env i u)
    have "rows_moved False db (payout_call_step c db)"
      unfolding FinalApprove payout_call_step.simps hodApprovePayout_def
      by (rule tx_moved) (rule hod_approve_moved, auto simp: assms(1) enforced_def)
    then show ?thesis by (rule moved_length)
  next
    case (FinalApproveBill env i u)
    have "rows_moved False db (payout_call_step c db)"
      unfolding FinalApproveBill payout_call_step.simps hodApproveBill_def
      by (rule tx_moved) (rule bill_hod_moved, auto simp: assms(1) enforced_def)
    then show ?thesis by (rule moved_length)
  next
    case (OfficeApprove env i r u)
    have "rows_moved False db (payout_call_step c db)"
      unfolding OfficeApprove payout_call_step.simps approvePayout_def
      by (rule tx_moved) (blast intro: approve_payable_moved assms(1))
    then show ?thesis by (rule moved_length)
  next
    case (Disburse env i ref a n u)
    then show ?thesis by (simp add: disburse_length)
  next
    case (Reverse env k r u)
    then show ?thesis by (simp add: reverse_length)
  qed (use False assms in \<open>auto intro!: moved_length [of False] intro: reprice_moved edit_line_moved final_reject_moved hold_moved
       void_moved invite_moved submit_moved approve_bill_moved final_reject_bill_moved cancel_bill_moved revise_call_moved\<close>)
  then have "list_all2 kept_row (po_payables db) (po_payables (payout_call_step c db))"
    using step_kept [OF step assms(1)] by auto
  then show ?thesis
    unfolding new_rows_def by (intro exI [of _ "po_payables (payout_call_step c db)"] exI [of _ "[]"]) simp
qed

section \<open>Claims and their payables\<close>

definition pays_back :: "ExpenseEntity \<Rightarrow> AssayerPayableEntity \<Rightarrow> bool" where
  "pays_back e p \<longleftrightarrow> ex_reimbursementPayableId e = Some (py_id p) \<and> py_assayerId p = ex_assayerId e
     \<and> py_assignmentId p = ex_assignmentId e \<and> py_base p = ex_amount e \<and> py_travel p = 0 \<and> py_tds p = 0 \<and> py_total p = ex_amount e"

definition claim_settled :: "AssayerPayableEntity list \<Rightarrow> ExpenseEntity \<Rightarrow> bool" where
  "claim_settled ps e \<longleftrightarrow> whole_paise (ex_amount e) \<and> \<bar>ex_amount e\<bar> < 10 ^ 10
     \<and> (\<forall>p \<in> set ps. py_expenseId p = Some (ex_id e) \<longrightarrow> ex_status e = EX_APPROVED \<and> pays_back e p)
     \<and> (ex_status e = EX_APPROVED \<longrightarrow> (\<exists>p \<in> set ps. py_expenseId p = Some (ex_id e))
          \<and> (ex_createdBy e = [] \<or> ex_reviewedBy e \<noteq> Some (ex_createdBy e)))"

definition same_origin :: "ExpenseEntity \<Rightarrow> ExpenseEntity \<Rightarrow> bool" where
  "same_origin e e' \<longleftrightarrow> ex_id e' = ex_id e \<and> ex_assayerId e' = ex_assayerId e \<and> ex_clientRequestId e' = ex_clientRequestId e
     \<and> ex_createdBy e' = ex_createdBy e"

definition claims_ok :: "claims_db \<Rightarrow> bool" where
  "claims_ok db \<longleftrightarrow> accounts_ok (cl_payouts db) \<and> distinct (map ex_id (cl_expenses db))
     \<and> (\<forall>e \<in> set (cl_expenses db). claim_settled (po_payables (cl_payouts db)) e \<and> ex_clientRequestId e \<noteq> Some [])
     \<and> (\<forall>p \<in> set (po_payables (cl_payouts db)). \<forall>x. py_expenseId p = Some x \<longrightarrow> x \<in> ex_id ` set (cl_expenses db))
     \<and> (\<forall>e \<in> set (cl_expenses db). \<forall>e' \<in> set (cl_expenses db). ex_assayerId e = ex_assayerId e'
          \<and> ex_clientRequestId e = ex_clientRequestId e' \<and> ex_clientRequestId e \<noteq> None \<longrightarrow> ex_id e = ex_id e')"

lemma claims_okI:
  assumes "accounts_ok (cl_payouts db)" "distinct (map ex_id (cl_expenses db))"
    "\<And>e. e \<in> set (cl_expenses db) \<Longrightarrow> claim_settled (po_payables (cl_payouts db)) e"
    "\<And>e. e \<in> set (cl_expenses db) \<Longrightarrow> ex_clientRequestId e \<noteq> Some []"
    "\<And>p x. p \<in> set (po_payables (cl_payouts db)) \<Longrightarrow> py_expenseId p = Some x \<Longrightarrow> x \<in> ex_id ` set (cl_expenses db)"
    "\<And>e e'. e \<in> set (cl_expenses db) \<Longrightarrow> e' \<in> set (cl_expenses db) \<Longrightarrow> ex_assayerId e = ex_assayerId e' \<Longrightarrow>
       ex_clientRequestId e = ex_clientRequestId e' \<Longrightarrow> ex_clientRequestId e \<noteq> None \<Longrightarrow> ex_id e = ex_id e'"
  shows "claims_ok db"
  using assms unfolding claims_ok_def by blast

lemma claims_okD:
  assumes "claims_ok db"
  shows "accounts_ok (cl_payouts db)" "distinct (map ex_id (cl_expenses db))"
    "\<And>e. e \<in> set (cl_expenses db) \<Longrightarrow> claim_settled (po_payables (cl_payouts db)) e"
    "\<And>e. e \<in> set (cl_expenses db) \<Longrightarrow> ex_clientRequestId e \<noteq> Some []"
    "\<And>p x. p \<in> set (po_payables (cl_payouts db)) \<Longrightarrow> py_expenseId p = Some x \<Longrightarrow> x \<in> ex_id ` set (cl_expenses db)"
    "\<And>e e'. e \<in> set (cl_expenses db) \<Longrightarrow> e' \<in> set (cl_expenses db) \<Longrightarrow> ex_assayerId e = ex_assayerId e' \<Longrightarrow>
       ex_clientRequestId e = ex_clientRequestId e' \<Longrightarrow> ex_clientRequestId e \<noteq> None \<Longrightarrow> ex_id e = ex_id e'"
  using assms unfolding claims_ok_def by blast+

definition history_ok :: "claims_db list \<Rightarrow> bool" where
  "history_ok hist \<longleftrightarrow> hist \<noteq> [] \<and> claims_ok (hd hist)
     \<and> (\<forall>db \<in> set hist. \<forall>e \<in> set (cl_expenses db). \<exists>e' \<in> set (cl_expenses (hd hist)). same_origin e e')"

lemma origin_refl [simp]: "same_origin e e"
  by (simp add: same_origin_def)

lemma claim_by_id: "claims_ok db \<Longrightarrow> e \<in> set (cl_expenses db) \<Longrightarrow> e' \<in> set (cl_expenses db) \<Longrightarrow> ex_id e = ex_id e' \<Longrightarrow> e = e'"
  by (auto simp: claims_ok_def distinct_map dest: inj_onD)

lemma find_claim_Some: "find_claim db i = Some e \<Longrightarrow> e \<in> set (cl_expenses db) \<and> ex_id e = i"
  by (auto simp: find_claim_def find_Some_iff)

lemma request_Some: "claim_of_request es y r = Some e \<Longrightarrow> e \<in> set es \<and> Some (ex_assayerId e) = y \<and> ex_clientRequestId e = r \<and> r \<noteq> None \<and> r \<noteq> Some []"
  by (auto simp: claim_of_request_def find_Some_iff some_text_iff split: option.splits)

lemma request_None: "claim_of_request es y r = None \<Longrightarrow> some_text r = Some q \<Longrightarrow> e \<in> set es \<Longrightarrow> Some (ex_assayerId e) = y \<Longrightarrow> ex_clientRequestId e \<noteq> Some q"
  by (auto simp: claim_of_request_def find_None_iff split: option.splits)

lemma column_whole: "whole_paise (claim_column x)"
  by (simp add: claim_column_def whole_paise_def)

lemma accounts_cong: "accounts_ok db \<Longrightarrow> po_payables db' = po_payables db \<Longrightarrow> po_payments db' = po_payments db \<Longrightarrow> accounts_ok db'"
  by (simp add: accounts_ok_def)

subsection \<open>Raising\<close>

lemma audit_rows:
  "cl_expenses (fst (claim_audit env k e a b u db)) = cl_expenses db \<and> po_payables (cl_payouts (fst (claim_audit env k e a b u db))) = po_payables (cl_payouts db)
    \<and> po_payments (cl_payouts (fst (claim_audit env k e a b u db))) = po_payments (cl_payouts db)
    \<and> (snd (claim_audit env k e a b u db) = Inr e' \<longrightarrow> e' = e)"
  by (simp add: claim_audit_def split: option.split)

definition raised :: "ExpenseEntity \<Rightarrow> claims_db \<Rightarrow> claims_db \<Rightarrow> bool" where
  "raised e db db' \<longleftrightarrow> po_payables (cl_payouts db') = po_payables (cl_payouts db) \<and> po_payments (cl_payouts db') = po_payments (cl_payouts db)
     \<and> cl_expenses db' = cl_expenses db @ [e] \<and> ex_id e \<notin> ex_id ` set (cl_expenses db) \<and> ex_status e = EX_PENDING
     \<and> whole_paise (ex_amount e) \<and> \<bar>ex_amount e\<bar> < 10 ^ 10 \<and> ex_clientRequestId e \<noteq> Some []
     \<and> claim_of_request (cl_expenses db) (Some (ex_assayerId e)) (ex_clientRequestId e) = None"

lemma insert_cases:
  assumes "ex_status e = EX_PENDING" "ex_clientRequestId e \<noteq> Some []"
  shows "fst (insert_claim env e u db) = db \<or> (\<exists>e'. raised e' db (fst (insert_claim env e u db)))"
proof -
  let ?e = "e\<lparr> ex_amount := claim_column (ex_amount e) \<rparr>"
  let ?db = "db\<lparr> cl_expenses := cl_expenses db @ [?e] \<rparr>"
  let ?free = "ce_insertFault env = None \<and> ex_id e \<notin> ex_id ` set (cl_expenses db) \<and> \<bar>claim_column (ex_amount e)\<bar> < 10 ^ 10
    \<and> claim_of_request (cl_expenses db) (Some (ex_assayerId e)) (ex_clientRequestId e) = None"
  show ?thesis
  proof (cases ?free)
    case True
    then have "fst (insert_claim env e u db) = fst (claim_audit env ''EXPENSE_CLAIMED'' e None None u ?db)"
      by (simp add: insert_claim_def)
    moreover have "raised ?e db (fst (claim_audit env ''EXPENSE_CLAIMED'' e None None u ?db))"
      using True assms audit_rows [of env "''EXPENSE_CLAIMED''" e None None u ?db] by (simp add: raised_def column_whole)
    ultimately show ?thesis by metis
  next
    case False
    then have "fst (insert_claim env e u db) = db"
      unfolding insert_claim_def by (cases "ce_insertFault env"; cases "claim_of_request (cl_expenses db) (Some (ex_assayerId e)) (ex_clientRequestId e)") auto
    then show ?thesis by simp
  qed
qed

lemma pending_fields:
  "ex_status (pending_claim env i y dto x u) = EX_PENDING" "ex_clientRequestId (pending_claim env i y dto x u) \<noteq> Some []"
  by (simp_all add: pending_claim_def some_text_iff)

lemma branches:
  "Q a \<Longrightarrow> (\<And>v. Q (f v)) \<Longrightarrow> Q (case x of None \<Rightarrow> a | Some v \<Rightarrow> f v)"
  "(\<And>v. Q (g v)) \<Longrightarrow> (\<And>v. Q (h v)) \<Longrightarrow> Q (case y of Inl v \<Rightarrow> g v | Inr v \<Rightarrow> h v)"
  "Q a \<Longrightarrow> (\<And>v. Q (k v)) \<Longrightarrow> Q (case z of NaN \<Rightarrow> a | Num v \<Rightarrow> k v)"
  "Q a \<Longrightarrow> Q b \<Longrightarrow> Q (if c then a else b)"
  by (simp_all split: option.split sum.split js_number.split)

lemma create_inserts:
  "fst (createClaim env i dto u cl sc seen db) = db
    \<or> (\<exists>y x. fst (createClaim env i dto u cl sc seen db) = fst (insert_claim env (pending_claim env i y dto x u) u db))"
proof -
  define Q where "Q = (\<lambda>r :: claims_db \<times> (claim_refusal, ExpenseEntity) result. fst r = db \<or> (\<exists>y x. fst r = fst (insert_claim env (pending_claim env i y dto x u) u db)))"
  have stays: "Q (db, v)" and goes: "Q (insert_claim env (pending_claim env i y dto x u) u db)" for v y x
    unfolding Q_def by auto
  have "Q (createClaim env i dto u cl sc seen db)"
    unfolding createClaim_def Let_def by (intro branches [of Q] stays goes)
  then show ?thesis by (simp add: Q_def)
qed

lemma create_cases:
  "fst (createClaim env i dto u cl sc seen db) = db \<or> (\<exists>e. raised e db (fst (createClaim env i dto u cl sc seen db)))"
  using create_inserts [of env i dto u cl sc seen db] insert_cases [OF pending_fields] by metis

lemma raised_ok:
  assumes "claims_ok db" "raised e db db'"
  shows "claims_ok db' \<and> (\<forall>e0 \<in> set (cl_expenses db). \<exists>e1 \<in> set (cl_expenses db'). same_origin e0 e1)"
proof -
  have r: "po_payables (cl_payouts db') = po_payables (cl_payouts db)" "po_payments (cl_payouts db') = po_payments (cl_payouts db)"
      "cl_expenses db' = cl_expenses db @ [e]" "ex_id e \<notin> ex_id ` set (cl_expenses db)" "ex_clientRequestId e \<noteq> Some []"
    using assms(2) by (simp_all add: raised_def)
  note ok = claims_okD [OF assms(1)]
  have new: "claim_settled (po_payables (cl_payouts db)) e"
    using assms(2) ok(5) r(4) unfolding claim_settled_def raised_def by auto
  have req: False if "e0 \<in> set (cl_expenses db)" "ex_assayerId e0 = ex_assayerId e" "ex_clientRequestId e0 = ex_clientRequestId e"
      "ex_clientRequestId e \<noteq> None" for e0
  proof -
    obtain q where q: "ex_clientRequestId e = Some q" "q \<noteq> []"
      using \<open>ex_clientRequestId e \<noteq> None\<close> r(5) by blast
    show False
      using request_None [of "cl_expenses db" "Some (ex_assayerId e)" "Some q" q e0] that q assms(2) by (simp add: raised_def some_text_iff)
  qed
  have "claims_ok db'"
  proof (rule claims_okI)
    show "accounts_ok (cl_payouts db')" using accounts_cong [OF ok(1)] r by simp
    show "distinct (map ex_id (cl_expenses db'))" unfolding r(3) using ok(2) r(4) by simp
    show "claim_settled (po_payables (cl_payouts db')) x" "ex_clientRequestId x \<noteq> Some []" if "x \<in> set (cl_expenses db')" for x
      using that ok(3,4) new r(5) unfolding r(1,3) by auto
    show "x \<in> ex_id ` set (cl_expenses db')" if "p \<in> set (po_payables (cl_payouts db'))" "py_expenseId p = Some x" for p x
      using that ok(5) unfolding r(1,3) by auto
  next
    fix e0 e1
    assume e: "e0 \<in> set (cl_expenses db')" "e1 \<in> set (cl_expenses db')"
      and same: "ex_assayerId e0 = ex_assayerId e1" "ex_clientRequestId e0 = ex_clientRequestId e1" "ex_clientRequestId e0 \<noteq> None"
    have "e0 = e \<and> e1 = e \<or> e0 \<in> set (cl_expenses db) \<and> e1 \<in> set (cl_expenses db)"
      using e req [of e0] req [of e1] same unfolding r(3) by auto
    then show "ex_id e0 = ex_id e1" using ok(6) [OF _ _ same] by blast
  qed
  moreover have "\<forall>e0 \<in> set (cl_expenses db). \<exists>e1 \<in> set (cl_expenses db'). same_origin e0 e1"
    unfolding r(3) by (metis UnI1 origin_refl set_append)
  ultimately show ?thesis ..
qed

subsection \<open>Reviewing\<close>

lemma reimburse_result:
  assumes "createReimbursementPayable env x y a (Num r) u db = Inr (db', p)" "whole_paise r" "\<bar>r\<bar> < 10 ^ 10"
  shows "po_payables db' = po_payables db @ [p] \<and> po_payments db' = po_payments db \<and> py_expenseId p = Some x \<and> py_assayerId p = y
    \<and> py_assignmentId p = a \<and> py_base p = r \<and> py_travel p = 0 \<and> py_tds p = 0 \<and> py_total p = r"
proof -
  have "roundMoney r = r" using assms(2,3) by (intro roundMoney_exact) (auto simp: money_range_def)
  then obtain c where "insertPayable (payable_row env y c a (Some x) r 0 0 r None None) u db = Inr (db', p)"
    using assms by (simp add: createReimbursementPayable_def Let_def)
  then show ?thesis using insert_result by (fastforce simp: payable_row_def)
qed

lemma review_work_result:
  assumes "review_work env i ok u notes ov db = Inr (db', e')"
  shows "\<exists>e. find_claim db i = Some e \<and> ex_status e = EX_PENDING \<and> cl_expenses db' = save_claim e' (cl_expenses db)
    \<and> (if ok then \<exists>p cur. createReimbursementPayable (ce_payout env) (ex_id e) (ex_assayerId e) (ex_assignmentId e) (Num (ex_amount e)) u
             (cl_payouts db) = Inr (cl_payouts db', p)
           \<and> e' = (decided ok u notes e)\<lparr> ex_overrideReason := map_option fst ov, ex_overrideCodes := map_option snd ov,
               ex_reimbursementPayableId := Some (py_id p) \<rparr>
           \<and> approvalDecision (ce_lockedAssignment env) (cl_payouts db) (decided ok u notes e) = Inr cur
           \<and> (approval_allowed cur \<or> set (blocks cur) \<subseteq> set (case ov of None \<Rightarrow> [] | Some (_, cs) \<Rightarrow> cs))
       else cl_payouts db' = cl_payouts db \<and> e' = decided ok u notes e)"
proof -
  obtain e where e: "find_claim db i = Some e" "ex_status e = EX_PENDING"
    using assms by (auto simp: review_work_def split: option.split_asm if_split_asm)
  show ?thesis
  proof (cases ok)
    case False
    then show ?thesis using assms e by (auto simp: review_work_def Let_def)
  next
    case True
    obtain cur where cur: "approvalDecision (ce_lockedAssignment env) (cl_payouts db) (decided ok u notes e) = Inr cur"
      using assms e True by (auto simp: review_work_def Let_def split: sum.split_asm)
    let ?new = "if approval_allowed cur then [] else filter (\<lambda>b. b \<notin> set (case ov of None \<Rightarrow> [] | Some (_, cs) \<Rightarrow> cs)) (blocks cur)"
    have new: "?new = []" using assms e True cur by (simp add: review_work_def Let_def split: if_split_asm)
    then have "approval_allowed cur \<or> set (blocks cur) \<subseteq> set (case ov of None \<Rightarrow> [] | Some (_, cs) \<Rightarrow> cs)"
      by (auto simp: filter_empty_conv split: if_split_asm)
    moreover obtain payouts p where "createReimbursementPayable (ce_payout env) (ex_id e) (ex_assayerId e) (ex_assignmentId e)
        (Num (ex_amount e)) u (cl_payouts db) = Inr (payouts, p)"
      using assms e True cur new by (auto simp: review_work_def Let_def decided_def split: sum.split_asm)
    ultimately show ?thesis using assms e True cur new by (auto simp: review_work_def Let_def decided_def)
  qed
qed

definition reviewed :: "ExpenseEntity \<Rightarrow> ExpenseEntity \<Rightarrow> claims_db \<Rightarrow> claims_db \<Rightarrow> bool" where
  "reviewed e e' db db' \<longleftrightarrow> e \<in> set (cl_expenses db) \<and> ex_status e = EX_PENDING \<and> same_origin e e' \<and> ex_amount e' = ex_amount e
     \<and> cl_expenses db' = save_claim e' (cl_expenses db) \<and> accounts_ok (cl_payouts db')
     \<and> (ex_status e' = EX_REJECTED \<and> po_payables (cl_payouts db') = po_payables (cl_payouts db)
        \<or> ex_status e' = EX_APPROVED \<and> (ex_createdBy e = [] \<or> ex_reviewedBy e' \<noteq> Some (ex_createdBy e))
          \<and> (\<exists>p. po_payables (cl_payouts db') = po_payables (cl_payouts db) @ [p] \<and> py_expenseId p = Some (ex_id e) \<and> pays_back e' p))"

lemma reimburse_accounts:
  assumes "createReimbursementPayable env x y a n u db = Inr (db', p)" "accounts_ok db" "be_writeFault (pe_billing env) = None"
  shows "accounts_ok db'"
proof -
  have "accounts_ok (payout_call_step (Reimburse env x y a n u) db)" by (rule settled.preserved [OF assms(2)]) simp
  then show ?thesis using assms(1,3) by (auto simp: payout_tx_def keep_notes_def intro: accounts_cong)
qed

lemma review_own:
  assumes "review_checks env i ok u notes sc rq seen = Inr ov" "ok"
  shows "\<exists>e. find_claim seen i = Some e \<and> (ex_createdBy e = [] \<or> ex_createdBy e \<noteq> u) \<and> resolveApprovalRules env (cl_payouts seen) e rq = Inr ov"
  using assms by (auto simp: review_checks_def split: option.split_asm sum.split_asm if_split_asm)

lemma decided_fields [simp]:
  "ex_id (decided ok u notes e) = ex_id e" "ex_assayerId (decided ok u notes e) = ex_assayerId e"
  "ex_assignmentId (decided ok u notes e) = ex_assignmentId e" "ex_amount (decided ok u notes e) = ex_amount e"
  "ex_clientRequestId (decided ok u notes e) = ex_clientRequestId e" "ex_createdBy (decided ok u notes e) = ex_createdBy e"
  "ex_status (decided ok u notes e) = (if ok then EX_APPROVED else EX_REJECTED)" "ex_reviewedBy (decided ok u notes e) = Some u"
  by (simp_all add: decided_def)

lemma review_effect:
  assumes work: "review_work env i ok u notes ov db = Inr (db', e')" and "claims_ok db" "be_writeFault (pe_billing (ce_payout env)) = None"
    and own: "\<And>e. ok \<Longrightarrow> find_claim db i = Some e \<Longrightarrow> ex_createdBy e = [] \<or> ex_createdBy e \<noteq> u"
  shows "\<exists>e. reviewed e e' db db'"
proof -
  obtain e where e: "find_claim db i = Some e" "ex_status e = EX_PENDING" "cl_expenses db' = save_claim e' (cl_expenses db)"
    and r: "if ok then \<exists>p cur. createReimbursementPayable (ce_payout env) (ex_id e) (ex_assayerId e) (ex_assignmentId e) (Num (ex_amount e)) u
             (cl_payouts db) = Inr (cl_payouts db', p)
           \<and> e' = (decided ok u notes e)\<lparr> ex_overrideReason := map_option fst ov, ex_overrideCodes := map_option snd ov,
               ex_reimbursementPayableId := Some (py_id p) \<rparr>
           \<and> approvalDecision (ce_lockedAssignment env) (cl_payouts db) (decided ok u notes e) = Inr cur
           \<and> (approval_allowed cur \<or> set (blocks cur) \<subseteq> set (case ov of None \<Rightarrow> [] | Some (_, cs) \<Rightarrow> cs))
       else cl_payouts db' = cl_payouts db \<and> e' = decided ok u notes e"
    using review_work_result [OF work] by blast
  have mem: "e \<in> set (cl_expenses db)" using find_claim_Some [OF e(1)] by simp
  have acc: "accounts_ok (cl_payouts db)" and amt: "whole_paise (ex_amount e)" "\<bar>ex_amount e\<bar> < 10 ^ 10"
    using assms(2) mem by (auto simp: claims_ok_def claim_settled_def)
  show ?thesis
  proof (cases ok)
    case True
    then obtain p where p: "createReimbursementPayable (ce_payout env) (ex_id e) (ex_assayerId e) (ex_assignmentId e) (Num (ex_amount e)) u
          (cl_payouts db) = Inr (cl_payouts db', p)"
      and e': "e' = (decided ok u notes e)\<lparr> ex_overrideReason := map_option fst ov, ex_overrideCodes := map_option snd ov,
               ex_reimbursementPayableId := Some (py_id p) \<rparr>"
      using r by auto
    note row = reimburse_result [OF p amt] and ok' = reimburse_accounts [OF p acc assms(3)]
    have "reviewed e e' db db'"
      unfolding reviewed_def using row ok' e mem own [OF True e(1)] True by (auto simp: e' same_origin_def pays_back_def)
    then show ?thesis ..
  next
    case False
    then have "reviewed e e' db db'" using r e mem acc by (simp add: reviewed_def same_origin_def)
    then show ?thesis ..
  qed
qed

lemma reviewed_audit: "reviewed e e' db db' \<Longrightarrow> reviewed e e' db (fst (claim_audit env k x a b u db'))"
  using audit_rows [of env k x a b u db'] by (auto simp: reviewed_def intro: accounts_cong)

lemma review_cases:
  assumes "claims_ok db" "\<And>e. e \<in> set (cl_expenses seen) \<Longrightarrow> \<exists>e' \<in> set (cl_expenses db). same_origin e e'"
  shows "fst (reviewClaim env i ok u notes sc rq seen db) = db
    \<or> (\<exists>e e'. reviewed e e' db (fst (reviewClaim env i ok u notes sc rq seen db)))"
proof (cases "fst (reviewClaim env i ok u notes sc rq seen db) = db")
  case False
  then obtain ov db1 e1 where c: "review_checks env i ok u notes sc rq seen = Inr ov" and w: "review_work env i ok u notes ov db = Inr (db1, e1)"
    and f: "be_writeFault (pe_billing (ce_payout env)) = None"
    by (cases "review_checks env i ok u notes sc rq seen"; cases "review_work env i ok u notes (projr (review_checks env i ok u notes sc rq seen)) db";
        cases "be_writeFault (pe_billing (ce_payout env))") (auto simp: reviewClaim_def split: prod.split_asm)
  have "ex_createdBy e = [] \<or> ex_createdBy e \<noteq> u" if "ok" "find_claim db i = Some e" for e
  proof -
    obtain s where s: "find_claim seen i = Some s" "ex_createdBy s = [] \<or> ex_createdBy s \<noteq> u" using review_own [OF c \<open>ok\<close>] by blast
    then obtain e2 where "e2 \<in> set (cl_expenses db)" "same_origin s e2" using assms(2) find_claim_Some by blast
    then have "e2 = e" using claim_by_id [OF assms(1)] find_claim_Some [OF s(1)] find_claim_Some [OF \<open>find_claim db i = Some e\<close>] by (metis same_origin_def)
    then show ?thesis using s \<open>same_origin s e2\<close> by (simp add: same_origin_def)
  qed
  then obtain e where "reviewed e e1 db db1" using review_effect [OF w assms(1) f] by blast
  moreover have "fst (reviewClaim env i ok u notes sc rq seen db) = fst (claim_audit env (if ok then ''EXPENSE_APPROVED'' else ''EXPENSE_REJECTED'') e1
      (claim_state EX_PENDING) (claim_state (ex_status e1)) u db1)"
    using c w f by (simp add: reviewClaim_def)
  ultimately show ?thesis using reviewed_audit by metis
qed simp

lemma saved_row:
  assumes "x \<in> set (save_claim e' es)"
  shows "x = e' \<and> ex_id e' \<in> ex_id ` set es \<or> x \<in> set es \<and> ex_id x \<noteq> ex_id e'"
  using assms by (auto simp: save_claim_def intro: rev_image_eqI split: if_splits)

lemma saved_ids [simp]: "map ex_id (save_claim e' es) = map ex_id es"
  by (auto simp: save_claim_def)

lemma saved_origin:
  assumes "same_origin e e'" "distinct (map ex_id es)" "e \<in> set es" "x \<in> set es"
  shows "\<exists>y \<in> set (save_claim e' es). same_origin x y"
proof -
  let ?y = "if ex_id x = ex_id e' then e' else x"
  have "x = e" if "ex_id x = ex_id e'" using assms that by (auto simp: same_origin_def distinct_map dest: inj_onD)
  then have "same_origin x ?y" using assms(1) by auto
  moreover have "?y \<in> set (save_claim e' es)" using assms(4) by (auto simp: save_claim_def)
  ultimately show ?thesis by blast
qed

lemma back_origin:
  assumes "same_origin e e'" "e \<in> set es" "x \<in> set (save_claim e' es)"
  shows "\<exists>y \<in> set es. same_origin y x"
  using saved_row [OF assms(3)] assms(1,2) origin_refl by blast

lemma reviewed_settled:
  assumes "claims_ok db" "reviewed e e' db db'" "x \<in> set (cl_expenses db')"
  shows "claim_settled (po_payables (cl_payouts db')) x"
proof -
  let ?ps = "po_payables (cl_payouts db)" and ?qs = "po_payables (cl_payouts db')"
  have r: "e \<in> set (cl_expenses db)" "ex_status e = EX_PENDING" "ex_id e' = ex_id e" "ex_createdBy e' = ex_createdBy e"
      "ex_amount e' = ex_amount e" "cl_expenses db' = save_claim e' (cl_expenses db)"
    using assms(2) by (simp_all add: reviewed_def same_origin_def)
  have st: "claim_settled ?ps y" if "y \<in> set (cl_expenses db)" for y using assms(1) that by (simp add: claims_ok_def)
  have none: "py_expenseId p \<noteq> Some (ex_id e)" if "p \<in> set ?ps" for p
    using st [OF r(1)] that r(2) by (auto simp: claim_settled_def)
  have cases: "ex_status e' = EX_REJECTED \<and> ?qs = ?ps
      \<or> ex_status e' = EX_APPROVED \<and> (ex_createdBy e = [] \<or> ex_reviewedBy e' \<noteq> Some (ex_createdBy e))
          \<and> (\<exists>p. ?qs = ?ps @ [p] \<and> py_expenseId p = Some (ex_id e) \<and> pays_back e' p)"
    using assms(2) unfolding reviewed_def by blast
  from saved_row [of x e' "cl_expenses db"] assms(3) r(6)
  consider "x = e'" | "x \<in> set (cl_expenses db)" "ex_id x \<noteq> ex_id e" using r(3) by auto
  then show ?thesis
  proof cases
    case 1
    then show ?thesis using cases st [OF r(1)] none r by (auto simp: claim_settled_def)
  next
    case 2
    then show ?thesis using cases st [OF 2(1)] by (auto simp: claim_settled_def)
  qed
qed

lemma reviewed_ok:
  assumes "claims_ok db" "reviewed e e' db db'"
  shows "claims_ok db' \<and> (\<forall>e0 \<in> set (cl_expenses db). \<exists>e1 \<in> set (cl_expenses db'). same_origin e0 e1)"
proof -
  have r: "e \<in> set (cl_expenses db)" "same_origin e e'" "cl_expenses db' = save_claim e' (cl_expenses db)" "accounts_ok (cl_payouts db')"
    using assms(2) by (simp_all add: reviewed_def)
  have ids: "ex_id ` set (cl_expenses db') = ex_id ` set (cl_expenses db)"
    unfolding r(3) set_map [symmetric] by simp
  have d: "distinct (map ex_id (cl_expenses db))" using assms(1) by (simp add: claims_ok_def)
  have older: "\<exists>y \<in> set (cl_expenses db). same_origin y x" if "x \<in> set (cl_expenses db')" for x
    using back_origin [OF r(2,1)] that unfolding r(3) by blast
  have "claims_ok db'"
  proof (rule claims_okI)
    show "accounts_ok (cl_payouts db')" "distinct (map ex_id (cl_expenses db'))" using r d by simp_all
    show "claim_settled (po_payables (cl_payouts db')) x" if "x \<in> set (cl_expenses db')" for x
      by (rule reviewed_settled [OF assms that])
    show "ex_clientRequestId x \<noteq> Some []" if "x \<in> set (cl_expenses db')" for x
      using older [OF that] claims_okD(4) [OF assms(1)] unfolding same_origin_def by metis
    show "x \<in> ex_id ` set (cl_expenses db')" if "p \<in> set (po_payables (cl_payouts db'))" "py_expenseId p = Some x" for p x
      using that assms(2) r(1) claims_okD(5) [OF assms(1)] unfolding ids by (fastforce simp: reviewed_def)
    show "ex_id x = ex_id y" if "x \<in> set (cl_expenses db')" "y \<in> set (cl_expenses db')" "ex_assayerId x = ex_assayerId y"
        "ex_clientRequestId x = ex_clientRequestId y" "ex_clientRequestId x \<noteq> None" for x y
      using older [OF that(1)] older [OF that(2)] that(3-) claims_okD(6) [OF assms(1)] unfolding same_origin_def by metis
  qed
  then show ?thesis using saved_origin [OF r(2) d r(1)] unfolding r(3) by blast
qed

subsection \<open>Payout work\<close>

lemma desk_ok:
  assumes "claims_ok db" "\<not> (\<exists>env x y a n u. c = Reimburse env x y a n u)"
  shows "claims_ok (db\<lparr> cl_payouts := payout_call_step c (cl_payouts db) \<rparr>)"
proof -
  let ?ps = "po_payables (cl_payouts db)" and ?db = "payout_call_step c (cl_payouts db)"
  have acc: "accounts_ok (cl_payouts db)" using assms(1) by (simp add: claims_ok_def)
  obtain ps new where rows: "po_payables ?db = ps @ new" "list_all2 kept_row ?ps ps" "\<And>p. p \<in> set new \<Longrightarrow> py_expenseId p = None"
    using desk_rows [OF accounts_rows [OF acc] assms(2)] unfolding new_rows_def by blast
  have from_old: "\<exists>p \<in> set ?ps. kept_row p q" if "q \<in> set (po_payables ?db)" "py_expenseId q = Some x" for q x
    using that rows list_all2_conv_all_nth [THEN iffD1, OF rows(2)] by (fastforce simp: in_set_conv_nth)
  have to_new: "\<exists>q \<in> set (po_payables ?db). kept_row p q" if "p \<in> set ?ps" for p
    using that rows(1) list_all2_conv_all_nth [THEN iffD1, OF rows(2)] by (fastforce simp: in_set_conv_nth)
  have settled: "claim_settled (po_payables ?db) e" if "e \<in> set (cl_expenses db)" for e
  proof -
    have e: "claim_settled ?ps e" using assms(1) that by (simp add: claims_ok_def)
    have "ex_status e = EX_APPROVED \<and> pays_back e q" if q: "q \<in> set (po_payables ?db)" "py_expenseId q = Some (ex_id e)" for q
      using from_old [OF q] q(2) e by (auto simp: claim_settled_def kept_row_def pays_back_def)
    moreover have "\<exists>q \<in> set (po_payables ?db). py_expenseId q = Some (ex_id e)" if "ex_status e = EX_APPROVED"
      using that e to_new by (fastforce simp: claim_settled_def kept_row_def)
    ultimately show ?thesis using e unfolding claim_settled_def by blast
  qed
  have known: "x \<in> ex_id ` set (cl_expenses db)" if "q \<in> set (po_payables ?db)" "py_expenseId q = Some x" for q x
    using from_old [OF that] that(2) assms(1) by (fastforce simp: claims_ok_def kept_row_def)
  show ?thesis
  proof (rule claims_okI)
    show "accounts_ok (cl_payouts (db\<lparr> cl_payouts := ?db \<rparr>))" using settled.preserved [OF acc, of c] by simp
    show "distinct (map ex_id (cl_expenses (db\<lparr> cl_payouts := ?db \<rparr>)))" using claims_okD(2) [OF assms(1)] by simp
    show "claim_settled (po_payables (cl_payouts (db\<lparr> cl_payouts := ?db \<rparr>))) e" "ex_clientRequestId e \<noteq> Some []"
      if "e \<in> set (cl_expenses (db\<lparr> cl_payouts := ?db \<rparr>))" for e
      using that settled claims_okD(4) [OF assms(1)] by simp_all
    show "x \<in> ex_id ` set (cl_expenses (db\<lparr> cl_payouts := ?db \<rparr>))"
      if "p \<in> set (po_payables (cl_payouts (db\<lparr> cl_payouts := ?db \<rparr>)))" "py_expenseId p = Some x" for p x
      using that known by simp
  next
    fix e e'
    assume "e \<in> set (cl_expenses (db\<lparr> cl_payouts := ?db \<rparr>))" "e' \<in> set (cl_expenses (db\<lparr> cl_payouts := ?db \<rparr>))"
      and same: "ex_assayerId e = ex_assayerId e'" "ex_clientRequestId e = ex_clientRequestId e'" "ex_clientRequestId e \<noteq> None"
    then have "e \<in> set (cl_expenses db)" "e' \<in> set (cl_expenses db)" by simp_all
    then show "ex_id e = ex_id e'" using same by (rule claims_okD(6) [OF assms(1)])
  qed
qed

section \<open>After any calls\<close>

lemma origin_trans: "same_origin e f \<Longrightarrow> same_origin f g \<Longrightarrow> same_origin e g"
  by (simp add: same_origin_def)

lemma seen_in: "hist \<noteq> [] \<Longrightarrow> seen_state n hist \<in> set hist"
  unfolding seen_state_def by (intro nth_mem) (cases hist, auto)

lemma history_step:
  assumes "history_ok hist" "desk_work c"
  shows "history_ok (claim_call_step c hist # hist)"
proof -
  let ?db = "hd hist" and ?db' = "claim_call_step c hist"
  have ok: "claims_ok ?db" and hist: "hist \<noteq> []"
    and old: "\<And>db e. db \<in> set hist \<Longrightarrow> e \<in> set (cl_expenses db) \<Longrightarrow> \<exists>e' \<in> set (cl_expenses ?db). same_origin e e'"
    using assms(1) by (simp_all add: history_ok_def)
  have same: "claims_ok ?db \<and> (\<forall>e \<in> set (cl_expenses ?db). \<exists>e' \<in> set (cl_expenses ?db). same_origin e e')"
    using ok origin_refl by blast
  have "claims_ok ?db' \<and> (\<forall>e \<in> set (cl_expenses ?db). \<exists>e' \<in> set (cl_expenses ?db'). same_origin e e')"
  proof (cases c)
    case (RaiseClaim env i dto u cl sc n)
    then show ?thesis
      using create_cases [of env i dto u cl sc "seen_state n hist" ?db] raised_ok [OF ok] same
      unfolding RaiseClaim claim_call_step.simps by metis
  next
    case (ReviewClaim env i yes u w sc rq n)
    have "?db' = ?db \<or> (\<exists>e e'. reviewed e e' ?db ?db')"
      unfolding ReviewClaim claim_call_step.simps by (rule review_cases [OF ok old [OF seen_in [OF hist]]])
    then show ?thesis using reviewed_ok [OF ok] same by metis
  next
    case (PayoutWork w)
    then have "\<not> (\<exists>env x y a n u. w = Reimburse env x y a n u)" using assms(2) by auto
    then show ?thesis using desk_ok [OF ok] same unfolding PayoutWork claim_call_step.simps by simp
  qed
  then show ?thesis unfolding history_ok_def using old origin_trans origin_refl hist by (simp, metis)
qed

lemma start_ok: "claims_ok no_claims"
  by (simp add: claims_ok_def no_claims_def accounts_start) (simp add: empty_payouts_def)

lemma history_run: "history_ok hist \<Longrightarrow> list_all desk_work calls \<Longrightarrow> history_ok (run_claims calls hist)"
proof (induction calls arbitrary: hist)
  case (Cons c calls)
  then show ?case using history_step [of hist c] by (simp add: run_claims_def)
qed (simp add: run_claims_def)

lemma history_all: "list_all desk_work calls \<Longrightarrow> history_ok (run_claims calls [no_claims])"
  by (rule history_run) (simp_all add: history_ok_def start_ok, simp add: no_claims_def)

lemma history_head:
  assumes "list_all desk_work calls" "hist = run_claims calls [no_claims]"
  shows "claims_ok (hd hist)" "e \<in> set (cl_expenses (seen_state n hist)) \<Longrightarrow> \<exists>e' \<in> set (cl_expenses (hd hist)). same_origin e e'"
proof -
  have h: "history_ok hist" unfolding assms(2) by (rule history_all [OF assms(1)])
  then show "claims_ok (hd hist)" by (simp add: history_ok_def)
  have "seen_state n hist \<in> set hist" using h by (intro seen_in) (simp add: history_ok_def)
  moreover assume "e \<in> set (cl_expenses (seen_state n hist))"
  moreover have "\<forall>db \<in> set hist. \<forall>e \<in> set (cl_expenses db). \<exists>e' \<in> set (cl_expenses (hd hist)). same_origin e e'"
    using h by (simp add: history_ok_def)
  ultimately show "\<exists>e' \<in> set (cl_expenses (hd hist)). same_origin e e'" by (metis (no_types))
qed

lemma only_row:
  assumes "distinct (map f xs)" "p \<in> set xs" "P p" "\<And>q. q \<in> set xs \<Longrightarrow> P q \<Longrightarrow> f q = f p"
  shows "filter P xs = [p]"
  using assms
proof (induction xs)
  case (Cons x xs)
  have other: "\<not> P q" if "q \<in> set xs" "x = p" for q
  proof
    assume "P q"
    then have "f x = f q" using Cons.prems(4) [of q] that by simp
    then show False using Cons.prems(1) that(1) by (auto dest: image_eqI)
  qed
  have first: "\<not> P x" if "x \<noteq> p"
    using Cons.prems(1,2) Cons.prems(4) [of x] imageI [of p "set xs" f] that by auto
  show ?case
  proof (cases "x = p")
    case True
    then show ?thesis using Cons.prems(3) other by (simp add: filter_empty_conv)
  next
    case False
    have "filter P xs = [p]"
    proof (rule Cons.IH)
      show "distinct (map f xs)" "p \<in> set xs" "P p" using Cons.prems(1-3) False by simp_all
      show "f q = f p" if "q \<in> set xs" "P q" for q using Cons.prems(4) [of q] that by simp
    qed
    then show ?thesis using first [OF False] by simp
  qed
qed simp

definition claim_reimbursed :: "AssayerPayableEntity list \<Rightarrow> ExpenseEntity \<Rightarrow> bool" where
  "claim_reimbursed ps e \<longleftrightarrow>
    (case filter (\<lambda>p. py_expenseId p = Some (ex_id e)) ps of
       [] \<Rightarrow> ex_status e \<noteq> EX_APPROVED
     | [p] \<Rightarrow> ex_status e = EX_APPROVED \<and> py_total p = ex_amount e \<and> py_tds p = 0 \<and> py_assayerId p = ex_assayerId e
          \<and> py_assignmentId p = ex_assignmentId e
     | _ \<Rightarrow> False)"

lemma settled_reimbursed:
  assumes "claim_settled ps e" "distinct (map py_id ps)"
  shows "claim_reimbursed ps e"
proof (cases "ex_status e = EX_APPROVED")
  case True
  have paid: "pays_back e q" if "q \<in> set ps" "py_expenseId q = Some (ex_id e)" for q
    using assms(1) that by (simp add: claim_settled_def)
  obtain p where p: "p \<in> set ps" "py_expenseId p = Some (ex_id e)" using True assms(1) by (auto simp: claim_settled_def)
  have "py_id q = py_id p" if "q \<in> set ps" "py_expenseId q = Some (ex_id e)" for q
    using paid [OF that] paid [OF p] by (simp add: pays_back_def)
  then have "filter (\<lambda>p. py_expenseId p = Some (ex_id e)) ps = [p]" using p by (intro only_row [OF assms(2)])
  then show ?thesis using paid [OF p] True by (simp add: claim_reimbursed_def pays_back_def)
next
  case False
  then have "filter (\<lambda>p. py_expenseId p = Some (ex_id e)) ps = []"
    using assms(1) by (auto simp: claim_settled_def filter_empty_conv)
  then show ?thesis using False by (simp add: claim_reimbursed_def)
qed

section \<open>A sample history\<close>

definition claim_sample :: claim_env where
  "claim_sample = \<lparr> ce_payout = payout_sample,
     ce_assignment = (\<lambda>_. Some \<lparr> ca_status = AS_COMPLETED, ca_assayerId = Some ''ay-1'', ca_checkedInAt = Some 1, ca_checkedOutAt = Some 2,
       scheduledDate = None, ca_branch = None \<rparr>),
     ce_lockedAssignment = (\<lambda>_. None), ce_region = (\<lambda>_. None), ce_regionMode = None, ce_maxClaim = None, ce_newId = ''c-1'',
     ce_insertFault = None, ce_auditFault = None \<rparr>"

definition cancelled_sample :: claim_env where
  "cancelled_sample = (let read = (\<lambda>_. Some \<lparr> ca_status = AS_CANCELLED, ca_assayerId = Some ''ay-1'', ca_checkedInAt = Some 1,
       ca_checkedOutAt = Some 2, scheduledDate = None, ca_branch = None \<rparr>)
     in claim_sample\<lparr> ce_assignment := read, ce_lockedAssignment := read \<rparr>)"

definition toll_sample :: CreateExpenseDto where
  "toll_sample = \<lparr> dto_category = ''TOLL'', dto_amount = Num (240 + 1 / 3), dto_description = None, dto_receiptUrl = None,
     dto_clientRequestId = Some ''rq-1'' \<rparr>"

definition raised_sample :: "claim_call list" where
  "raised_sample = [RaiseClaim claim_sample ''as-1'' toll_sample ''u0'' None None 0,
     RaiseClaim (claim_sample\<lparr> ce_newId := ''c-2'' \<rparr>) ''as-1'' toll_sample ''u0'' None None 1]"

definition senior_sample :: override_request where
  "senior_sample = \<lparr> or_reason = Some ''agreed by phone'', or_mayOverride = True \<rparr>"

definition settled_sample :: "claim_call list" where
  "settled_sample = raised_sample @ [ReviewClaim cancelled_sample ''c-1'' True ''u1'' None None (Some senior_sample) 0,
     PayoutWork (OfficeApprove payout_sample ''x-1'' (Some ''paid directly'') ''u1'')]"

lemma claims_sample_desk: "list_all desk_work settled_sample" "list_all desk_work raised_sample"
  by code_simp+

lemma raised_sample_run:
  "map (\<lambda>e. (ex_id e, ex_assayerId e, ex_amount e, ex_clientRequestId e)) (cl_expenses (hd (run_claims raised_sample [no_claims])))
     = [(''c-1'', ''ay-1'', 240 + 33 / 100, Some ''rq-1'')]"
  by code_simp

lemma settled_sample_run:
  "map (\<lambda>e. (ex_id e, ex_status e)) (cl_expenses (hd (run_claims settled_sample [no_claims]))) = [(''c-1'', EX_APPROVED)]"
  "map (\<lambda>p. (py_expenseId p, py_total p)) (po_payables (cl_payouts (hd (run_claims settled_sample [no_claims])))) = [(Some ''c-1'', 240 + 33 / 100)]"
  by code_simp+

lemma approved_sample_run:
  "case reviewClaim cancelled_sample ''c-1'' True ''u1'' None None (Some senior_sample) (hd (run_claims raised_sample [no_claims]))
      (hd (run_claims raised_sample [no_claims])) of (_, Inr e) \<Rightarrow> ex_id e = ''c-1'' | _ \<Rightarrow> False"
  by code_simp

section \<open>The properties\<close>

text \<open>
  C13. After any calls of the claims desk and the payout desk, in any order and however stale their first reads:
  an approved claim is behind exactly one payable, over its amount, to its assayer and for its assignment, with no
  tax taken; a claim that is not approved is behind none; every payable for a claim belongs to an existing claim;
  and nobody approved a claim they raised.
\<close>

lemma claim_reimbursed_once:
  assumes "list_all desk_work calls"
  defines "db \<equiv> hd (run_claims calls [no_claims])"
  shows "list_all (claim_reimbursed (po_payables (cl_payouts db))) (cl_expenses db)
    \<and> list_all (\<lambda>p. py_expenseId p = None \<or> py_expenseId p \<in> set (map (\<lambda>e. Some (ex_id e)) (cl_expenses db))) (po_payables (cl_payouts db))
    \<and> list_all (\<lambda>e. ex_status e = EX_APPROVED \<and> ex_createdBy e \<noteq> [] \<longrightarrow> ex_reviewedBy e \<noteq> Some (ex_createdBy e)) (cl_expenses db)"
proof -
  have ok: "claims_ok db" unfolding db_def by (rule history_head(1) [OF assms(1) refl])
  have "distinct (map py_id (po_payables (cl_payouts db)))" using claims_okD(1) [OF ok] by (simp add: accounts_ok_def)
  then have "list_all (claim_reimbursed (po_payables (cl_payouts db))) (cl_expenses db)"
    using claims_okD(3) [OF ok] settled_reimbursed by (simp add: list_all_iff)
  moreover have "py_expenseId p = None \<or> py_expenseId p \<in> set (map (\<lambda>e. Some (ex_id e)) (cl_expenses db))"
    if "p \<in> set (po_payables (cl_payouts db))" for p
    using claims_okD(5) [OF ok that] by (cases "py_expenseId p") auto
  moreover have "ex_reviewedBy e \<noteq> Some (ex_createdBy e)"
    if "e \<in> set (cl_expenses db)" "ex_status e = EX_APPROVED" "ex_createdBy e \<noteq> []" for e
    using claims_okD(3) [OF ok that(1)] that(2,3) by (simp add: claim_settled_def)
  ultimately show ?thesis by (simp add: list_all_iff)
qed

lemma claim_reimbursed_once_witness:
  "list_all (claim_reimbursed (po_payables (cl_payouts (hd (run_claims settled_sample [no_claims])))))
     (cl_expenses (hd (run_claims settled_sample [no_claims])))
   \<and> map ex_status (cl_expenses (hd (run_claims settled_sample [no_claims]))) = [EX_APPROVED]"
proof -
  have "map snd (map (\<lambda>e. (ex_id e, ex_status e)) (cl_expenses (hd (run_claims settled_sample [no_claims])))) = [EX_APPROVED]"
    unfolding settled_sample_run(1) by simp
  then have "map ex_status (cl_expenses (hd (run_claims settled_sample [no_claims]))) = [EX_APPROVED]" by (simp add: comp_def)
  then show ?thesis using claim_reimbursed_once [OF claims_sample_desk(1)] by blast
qed

text \<open>
  C27. However stale what it read first, a submission that carries the request of a stored claim of the
  assignment's assayer leaves the books as they are, and what it answers, if not a refusal, is that claim.
\<close>

lemma claim_retry_is_same:
  assumes "list_all desk_work calls" "hist = run_claims calls [no_claims]" "e \<in> set (cl_expenses (hd hist))"
    and "dto_clientRequestId dto = ex_clientRequestId e" "ex_clientRequestId e \<noteq> None"
    and "ce_assignment env i = Some a" "ca_assayerId a = Some (ex_assayerId e)"
    and "createClaim env i dto u cl sc (seen_state n hist) (hd hist) = (db', answer)"
  shows "db' = hd hist \<and> (case answer of Inl _ \<Rightarrow> True | Inr e' \<Rightarrow> ex_id e' = ex_id e)"
proof -
  let ?db = "hd hist"
  note ok = history_head(1) [OF assms(1,2)] and old = history_head(2) [OF assms(1,2)]
  obtain r where r: "ex_clientRequestId e = Some r" "r \<noteq> []" using assms(5) claims_okD(4) [OF ok assms(3)] by blast
  define Q where "Q = (\<lambda>w :: claims_db \<times> (claim_refusal, ExpenseEntity) result.
    fst w = ?db \<and> (case snd w of Inl _ \<Rightarrow> True | Inr e' \<Rightarrow> ex_id e' = ex_id e))"
  have same: "ex_id e' = ex_id e" if "claim_of_request (cl_expenses ?db) (Some (ex_assayerId e)) (Some r) = Some e'" for e'
  proof -
    have e': "e' \<in> set (cl_expenses ?db)" "ex_assayerId e' = ex_assayerId e" "ex_clientRequestId e' = ex_clientRequestId e"
      using request_Some [OF that] r by auto
    then show ?thesis using claims_okD(6) [OF ok e'(1) assms(3) e'(2,3)] r by simp
  qed
  have stored: "claim_of_request (cl_expenses ?db) (Some (ex_assayerId e)) (Some r) \<noteq> None"
    using request_None [of "cl_expenses ?db" "Some (ex_assayerId e)" "Some r" r e] assms(3) r by (auto simp: some_text_iff)
  have seen: "ex_id e' = ex_id e"
    if "claim_of_request (cl_expenses (seen_state n hist)) (Some (ex_assayerId e)) (Some r) = Some e'" for e'
  proof -
    have e': "e' \<in> set (cl_expenses (seen_state n hist))" "ex_assayerId e' = ex_assayerId e" "ex_clientRequestId e' = ex_clientRequestId e"
      using request_Some [OF that] r by auto
    obtain f where f: "f \<in> set (cl_expenses ?db)" "same_origin e' f" using old [OF e'(1)] by blast
    then have f': "ex_assayerId f = ex_assayerId e" "ex_clientRequestId f = ex_clientRequestId e" "ex_id f = ex_id e'"
      unfolding same_origin_def using e'(2,3) by simp_all
    have "ex_id f = ex_id e" by (rule claims_okD(6) [OF ok f(1) assms(3) f'(1,2)]) (simp add: f' r)
    then show ?thesis using f' by simp
  qed
  have refused: "Q (?db, Inl err)" for err by (simp add: Q_def)
  have found: "Q (?db, Inr e')" if "ex_id e' = ex_id e" for e' using that by (simp add: Q_def)
  have ins: "Q (insert_claim env c u ?db)" if "ex_assayerId c = ex_assayerId e" "ex_clientRequestId c = Some r" for c
  proof -
    obtain f where f: "claim_of_request (cl_expenses ?db) (Some (ex_assayerId e)) (Some r) = Some f" using stored by blast
    show ?thesis
      unfolding insert_claim_def that f option.case by (intro branches [of Q] refused found same [OF f])
  qed
  have pend: "ex_assayerId (pending_claim env i y dto x u) = y" "ex_clientRequestId (pending_claim env i y dto x u) = Some r" for y x
    using assms(4) r by (simp_all add: pending_claim_def some_text_iff)
  have "Q (createClaim env i dto u cl sc (seen_state n hist) ?db)"
  proof (cases "claim_of_request (cl_expenses (seen_state n hist)) (Some (ex_assayerId e)) (Some r)")
    case None
    show ?thesis
      unfolding createClaim_def Let_def assms(4,6,7) r(1) option.case None
      by (intro branches [of Q] refused ins pend)
  next
    case (Some e')
    show ?thesis
      unfolding createClaim_def Let_def assms(4,6,7) r(1) option.case Some
      by (intro branches [of Q] refused found [OF seen [OF Some]])
  qed
  then show ?thesis unfolding assms(8) by (simp add: Q_def)
qed

lemma claim_retry_is_same_witness:
  "fst (createClaim claim_sample ''as-1'' toll_sample ''u0'' None None no_claims (hd (run_claims raised_sample [no_claims])))
     = hd (run_claims raised_sample [no_claims])"
proof -
  let ?h = "run_claims raised_sample [no_claims]"
  obtain e where e: "e \<in> set (cl_expenses (hd ?h))" "ex_assayerId e = ''ay-1''" "ex_clientRequestId e = Some ''rq-1''"
    using raised_sample_run by (cases "cl_expenses (hd ?h)") auto
  have old: "seen_state 2 ?h = no_claims" by (simp add: seen_state_def run_claims_def raised_sample_def)
  show ?thesis
    using claim_retry_is_same [OF claims_sample_desk(2) refl e(1), of toll_sample claim_sample "''as-1''" _ "''u0''" None None 2] e(2,3)
    unfolding old by (simp add: toll_sample_def claim_sample_def prod_eq_iff)
qed

lemma summary_adds_up:
  "totalClaimed (summaryForAssayer y db) = sum_pending (summaryForAssayer y db) + sum_approved (summaryForAssayer y db)
     + sum_rejected (summaryForAssayer y db)"
proof -
  have parts: "sum_list (map ex_amount es) = sum_list (map ex_amount (filter (\<lambda>e. ex_status e = EX_PENDING) es))
      + sum_list (map ex_amount (filter (\<lambda>e. ex_status e = EX_APPROVED) es))
      + sum_list (map ex_amount (filter (\<lambda>e. ex_status e = EX_REJECTED) es))" for es :: "ExpenseEntity list"
  proof (induction es)
    case (Cons e es)
    then show ?case by (cases "ex_status e") simp_all
  qed simp
  show ?thesis
    by (simp only: summaryForAssayer_def Let_def claims_summary.simps parts [of "filter (\<lambda>e. ex_assayerId e = y \<and> ex_isActive e) (cl_expenses db)"])
qed

text \<open>A refusal of the rules is set aside by a senior, who says why at some length, and the code is kept on the claim.\<close>

definition set_aside :: "override_request option \<Rightarrow> ExpenseEntity \<Rightarrow> gate_code \<Rightarrow> bool" where
  "set_aside request e c \<longleftrightarrow>
    (case (request, ex_overrideReason e, ex_overrideCodes e) of
       (Some r, Some why, Some codes) \<Rightarrow> or_mayOverride r \<and> 10 \<le> length why \<and> c \<in> set codes
     | _ \<Rightarrow> False)"

lemma resolve_result:
  assumes "resolveApprovalRules env db e request = Inr (Some (why, codes))"
  shows "\<exists>r. request = Some r \<and> or_mayOverride r \<and> 10 \<le> length why"
  using assms
  by (auto simp: resolveApprovalRules_def Let_def EXPENSE_APPROVAL_OVERRIDE_MIN_REASON_def
      split: sum.split_asm if_split_asm option.split_asm)

lemma review_success:
  assumes "reviewClaim env i ok u notes sc rq seen db = (db', Inr e)"
  shows "\<exists>ov db1. review_checks env i ok u notes sc rq seen = Inr ov \<and> review_work env i ok u notes ov db = Inr (db1, e)
    \<and> be_writeFault (pe_billing (ce_payout env)) = None \<and> cl_expenses db' = cl_expenses db1"
proof (cases "review_checks env i ok u notes sc rq seen")
  case (Inr ov)
  show ?thesis
  proof (cases "review_work env i ok u notes ov db")
    case w: (Inr r)
    obtain db1 e1 where r: "r = (db1, e1)" by fastforce
    let ?a = "claim_audit env (if ok then ''EXPENSE_APPROVED'' else ''EXPENSE_REJECTED'') e1 (claim_state EX_PENDING) (claim_state (ex_status e1)) u db1"
    have f: "be_writeFault (pe_billing (ce_payout env)) = None" and a: "?a = (db', Inr e)"
      using assms Inr w r by (auto simp: reviewClaim_def split: option.split_asm)
    have "e = e1 \<and> cl_expenses db' = cl_expenses db1"
      using audit_rows [of env "if ok then ''EXPENSE_APPROVED'' else ''EXPENSE_REJECTED''" e1 "claim_state EX_PENDING" "claim_state (ex_status e1)" u db1 e]
      unfolding a by simp
    then show ?thesis using Inr w r f by blast
  qed (use assms Inr in \<open>simp add: reviewClaim_def\<close>)
qed (use assms in \<open>simp add: reviewClaim_def\<close>)

lemma refusals_listed:
  assumes "approvalDecision assignments db e = Inr cur"
  shows "\<exists>a. assignments (ex_assignmentId e) = Some a
    \<and> (ca_status a = AS_CANCELLED \<longrightarrow> \<not> approval_allowed cur \<and> EXPENSE_APPROVAL_ASSIGNMENT_CANCELLED \<in> set (blocks cur))
    \<and> (ca_assayerId a \<noteq> Some (ex_assayerId e) \<longrightarrow> \<not> approval_allowed cur \<and> EXPENSE_APPROVAL_ASSAYER_REASSIGNED \<in> set (blocks cur))
    \<and> (\<forall>p b. liveFeePayable db (ex_assignmentId e) = Some p \<and> py_billId p = Some (bl_id b) \<and> bl_id b \<noteq> [] \<and> find_bill db (bl_id b) = Some b
         \<and> bl_status b \<in> {AI_SUBMITTED, AI_APPROVED, AI_HOD_APPROVED, AI_PAID} \<longrightarrow>
         \<not> approval_allowed cur \<and> EXPENSE_APPROVAL_JOB_ON_SENT_BILL \<in> set (blocks cur))"
proof -
  obtain a where a: "assignments (ex_assignmentId e) = Some a"
    and cur: "cur = evaluateExpenseApproval a (ex_assayerId e) (fee_facts db (ex_assignmentId e))
      (map_option bl_status (Option.bind (liveFeeBillId (fee_facts db (ex_assignmentId e))) (find_bill db)))"
    using assms by (auto simp: approvalDecision_def Let_def split: option.split_asm)
  have listed: "\<not> approval_allowed (evaluateExpenseApproval a y fp bs) \<and> c \<in> set (blocks (evaluateExpenseApproval a y fp bs))"
    if "c = EXPENSE_APPROVAL_ASSIGNMENT_CANCELLED \<and> ca_status a = AS_CANCELLED \<or> c = EXPENSE_APPROVAL_ASSAYER_REASSIGNED \<and> ca_assayerId a \<noteq> Some y
      \<or> c = EXPENSE_APPROVAL_JOB_ON_SENT_BILL \<and> liveFeeBillId fp \<noteq> None \<and> (\<exists>s. bs = Some s \<and> s \<in> set SENT_BILL_STATUSES)" for y fp bs c
    using that by (auto simp: evaluateExpenseApproval_def Let_def)
  have bill: "liveFeeBillId (fee_facts db (ex_assignmentId e)) = Some (bl_id b)"
    if "liveFeePayable db (ex_assignmentId e) = Some p" "py_billId p = Some (bl_id b)" "bl_id b \<noteq> []" for p b
  proof -
    have "isLivePayable (Some (py_status p))"
      using that(1) by (auto simp: liveFeePayable_def find_Some_iff live_fee_def live_payable_def)
    then show ?thesis using that by (simp add: fee_facts_def liveFeeBillId_def)
  qed
  show ?thesis
    unfolding cur
  proof (intro exI [of _ a] conjI [OF a] conjI [of "_ \<longrightarrow> _"] allI impI)
    fix p b
    assume p: "liveFeePayable db (ex_assignmentId e) = Some p \<and> py_billId p = Some (bl_id b) \<and> bl_id b \<noteq> []
      \<and> find_bill db (bl_id b) = Some b \<and> bl_status b \<in> {AI_SUBMITTED, AI_APPROVED, AI_HOD_APPROVED, AI_PAID}"
    then have "liveFeeBillId (fee_facts db (ex_assignmentId e)) = Some (bl_id b)" using bill by blast
    then show "\<not> approval_allowed (evaluateExpenseApproval a (ex_assayerId e) (fee_facts db (ex_assignmentId e))
        (map_option bl_status (Option.bind (liveFeeBillId (fee_facts db (ex_assignmentId e))) (find_bill db))))
      \<and> EXPENSE_APPROVAL_JOB_ON_SENT_BILL \<in> set (blocks (evaluateExpenseApproval a (ex_assayerId e) (fee_facts db (ex_assignmentId e))
        (map_option bl_status (Option.bind (liveFeeBillId (fee_facts db (ex_assignmentId e))) (find_bill db)))))"
      using p by (intro listed) (auto simp: SENT_BILL_STATUSES_def)
  qed (rule listed, simp)+
qed

text \<open>What the transaction of an approval checks, whatever was read before it.\<close>

lemma approval_rechecks:
  assumes "reviewClaim env i True u notes sc rq seen db = (db', Inr e)"
  shows "e \<in> set (cl_expenses db') \<and> ex_status e = EX_APPROVED \<and> ex_reviewedBy e = Some u
    \<and> (\<exists>a. ce_lockedAssignment env (ex_assignmentId e) = Some a
       \<and> (ca_status a = AS_CANCELLED \<longrightarrow> set_aside rq e EXPENSE_APPROVAL_ASSIGNMENT_CANCELLED)
       \<and> (ca_assayerId a \<noteq> Some (ex_assayerId e) \<longrightarrow> set_aside rq e EXPENSE_APPROVAL_ASSAYER_REASSIGNED)
       \<and> (\<forall>p b. liveFeePayable (cl_payouts db) (ex_assignmentId e) = Some p \<and> py_billId p = Some (bl_id b) \<and> bl_id b \<noteq> []
            \<and> find_bill (cl_payouts db) (bl_id b) = Some b \<and> bl_status b \<in> {AI_SUBMITTED, AI_APPROVED, AI_HOD_APPROVED, AI_PAID}
            \<longrightarrow> set_aside rq e EXPENSE_APPROVAL_JOB_ON_SENT_BILL))"
proof -
  obtain ov db1 where c: "review_checks env i True u notes sc rq seen = Inr ov"
    and w: "review_work env i True u notes ov db = Inr (db1, e)" and db': "cl_expenses db' = cl_expenses db1"
    using review_success [OF assms] by blast
  obtain s where s: "resolveApprovalRules env (cl_payouts seen) s rq = Inr ov" using review_own [OF c] by blast
  obtain e0 cur and p :: AssayerPayableEntity where e0: "find_claim db i = Some e0" "cl_expenses db1 = save_claim e (cl_expenses db)"
    and e: "e = (decided True u notes e0)\<lparr> ex_overrideReason := map_option fst ov, ex_overrideCodes := map_option snd ov,
               ex_reimbursementPayableId := Some (py_id p) \<rparr>"
    and cur: "approvalDecision (ce_lockedAssignment env) (cl_payouts db) (decided True u notes e0) = Inr cur"
    and within: "approval_allowed cur \<or> set (blocks cur) \<subseteq> set (case ov of None \<Rightarrow> [] | Some (_, cs) \<Rightarrow> cs)"
    using review_work_result [OF w, unfolded if_True] by blast
  have ids: "ex_assignmentId e = ex_assignmentId e0" "ex_assayerId e = ex_assayerId e0" by (simp_all add: e)
  have same: "approvalDecision (ce_lockedAssignment env) (cl_payouts db) e = Inr cur"
    using cur unfolding approvalDecision_def ids decided_fields .
  have aside: "set_aside rq e k" if listed: "\<not> approval_allowed cur \<and> k \<in> set (blocks cur)" for k
  proof -
    obtain why codes where ov: "ov = Some (why, codes)" "k \<in> set codes" using within listed by (cases ov) auto
    then show ?thesis using resolve_result [of env "cl_payouts seen" s rq why codes] s by (auto simp: set_aside_def e)
  qed
  have "e \<in> set (cl_expenses db')"
    unfolding db' e0(2) save_claim_def using find_claim_Some [OF e0(1)] by (force simp: e)
  moreover have "ex_status e = EX_APPROVED" "ex_reviewedBy e = Some u" by (simp_all add: e)
  ultimately show ?thesis using refusals_listed [OF same] aside by blast
qed

text \<open>
  C14. An approval that goes through is within the rules as the transaction reads them under its locks: where the
  visit is cancelled, is no longer the claimant's, or is on a bill already sent, that very refusal was set aside by
  a senior, whose reason of at least ten characters is on the claim. The claim is stored approved by the
  caller, who is not its author (a claim without a recorded author has none to compare). This holds in every
  history of the two desks, with the first checks made on any earlier state of it.
\<close>

lemma approval_within_rules:
  assumes "list_all desk_work calls" and "hist = run_claims calls [no_claims]" and "db = hd hist"
    and "reviewClaim env i True u notes sc rq (seen_state n hist) db = (db', Inr e)"
  shows "e \<in> set (cl_expenses db') \<and> ex_status e = EX_APPROVED \<and> ex_reviewedBy e = Some u
    \<and> ex_id e = i \<and> (ex_createdBy e = [] \<or> ex_createdBy e \<noteq> u)
    \<and> (\<exists>a. ce_lockedAssignment env (ex_assignmentId e) = Some a
       \<and> (ca_status a = AS_CANCELLED \<longrightarrow> set_aside rq e EXPENSE_APPROVAL_ASSIGNMENT_CANCELLED)
       \<and> (ca_assayerId a \<noteq> Some (ex_assayerId e) \<longrightarrow> set_aside rq e EXPENSE_APPROVAL_ASSAYER_REASSIGNED)
       \<and> (\<forall>p b. liveFeePayable (cl_payouts db) (ex_assignmentId e) = Some p \<and> py_billId p = Some (bl_id b) \<and> bl_id b \<noteq> []
            \<and> find_bill (cl_payouts db) (bl_id b) = Some b \<and> bl_status b \<in> {AI_SUBMITTED, AI_APPROVED, AI_HOD_APPROVED, AI_PAID}
            \<longrightarrow> set_aside rq e EXPENSE_APPROVAL_JOB_ON_SENT_BILL))"
proof -
  obtain ov db1 where c: "review_checks env i True u notes sc rq (seen_state n hist) = Inr ov"
    and w: "review_work env i True u notes ov db = Inr (db1, e)"
    using review_success [OF assms(4)] by blast
  obtain e0 and cur and p :: AssayerPayableEntity where e0: "find_claim db i = Some e0"
    and e: "e = (decided True u notes e0)\<lparr> ex_overrideReason := map_option fst ov, ex_overrideCodes := map_option snd ov,
               ex_reimbursementPayableId := Some (py_id p) \<rparr>"
    using review_work_result [OF w, unfolded if_True] by blast
  obtain r where r: "find_claim (seen_state n hist) i = Some r" "ex_createdBy r = [] \<or> ex_createdBy r \<noteq> u"
    using review_own [OF c] by blast
  obtain f where f: "f \<in> set (cl_expenses db)" "same_origin r f"
    using history_head(2) [OF assms(1,2)] find_claim_Some [OF r(1)] assms(3) by blast
  have "f = e0"
    using claim_by_id [OF history_head(1) [OF assms(1,2)], of f e0] find_claim_Some [OF e0] find_claim_Some [OF r(1)] f assms(3)
    by (auto simp: same_origin_def)
  then have "ex_createdBy e = ex_createdBy r" "ex_id e = i"
    using f(2) find_claim_Some [OF e0] by (simp_all add: same_origin_def e)
  then show ?thesis using approval_rechecks [OF assms(4)] r(2) by simp
qed

lemma approval_within_rules_witness:
  "\<exists>db' e. reviewClaim cancelled_sample ''c-1'' True ''u1'' None None (Some senior_sample) (hd (run_claims raised_sample [no_claims]))
      (hd (run_claims raised_sample [no_claims])) = (db', Inr e) \<and> ex_id e = ''c-1''
    \<and> set_aside (Some senior_sample) e EXPENSE_APPROVAL_ASSIGNMENT_CANCELLED"
proof -
  obtain db' e where e: "reviewClaim cancelled_sample ''c-1'' True ''u1'' None None (Some senior_sample) (hd (run_claims raised_sample [no_claims]))
      (hd (run_claims raised_sample [no_claims])) = (db', Inr e)" "ex_id e = ''c-1''"
    using approved_sample_run by (simp split: prod.split_asm sum.split_asm)
  have "ca_status a = AS_CANCELLED" if "ce_lockedAssignment cancelled_sample i = Some a" for a i
    using that by (auto simp: cancelled_sample_def Let_def)
  moreover have now: "seen_state 0 (run_claims raised_sample [no_claims]) = hd (run_claims raised_sample [no_claims])"
    by (simp add: seen_state_def run_claims_def raised_sample_def)
  ultimately show ?thesis
    using approval_within_rules [OF claims_sample_desk(2) refl refl, of _ _ _ _ _ _ 0, unfolded now, OF e(1)] e by blast
qed

end
