(* ===== verification/Spec2Isabelle.thy ===== *)
theory Spec2Isabelle
  imports Workflow_Engine Audit_Chain Project_Machine Validation_Machine Assayer_Machine Document_Pipeline
    Assignment_Capabilities Invoice_Ledger Invoice_Lines
    Identity_Numbers Text_Distance Circuit_Breaker Event_Outbox Gst_Words
    Day_Plan_Candidates Payout_Edges Claim_Ledger
begin

text \<open>
  FAPOMS runs field audits of gold-loan branches: a client's project names branches, each branch is
  offered to an assayer as an assignment, the assayer visits, the paperwork comes back as documents,
  a validation case checks it, and the visit is booked as money owed and money billed. This
  development models the rules of the backend (\<^verbatim>\<open>src/packages/backend/src\<close>) and of the package it
  shares with the web and phone applications (\<^verbatim>\<open>src/packages/shared/src\<close>).

  \<^bold>\<open>How the parts interact.\<close> Every record with a status has a table of legal moves in
  \<^verbatim>\<open>state-machines.ts\<close> or \<^verbatim>\<open>assayer-lifecycle.ts\<close>. A state machine class per record carries out the
  moves, writes the columns that belong to them and announces the change. The workflow engine is given
  the tables at start-up and runs a command with its history row and its audit entry in one
  transaction, after a role gate. The audit trail is append-only and is sealed afterwards into a hash
  chain. The rules of the field application (who may accept, check in, return, claim) are pure
  evaluators that the routes call and that the application receives as a list. Money is computed from an
  assignment by one formula.

  \<^bold>\<open>The theories.\<close>
  \<^item> \<open>Prelude\<close>: JavaScript text helpers, results, runs of commands, and the interfaces
    \<open>guarded_machine\<close>, \<open>announcing_machine\<close> and \<open>ranked_machine\<close>, which state what an operation set owes
    to its table and derive what then holds of every run.
  \<^item> \<open>Enums\<close>, \<open>Transition_Tables\<close>: the status enumerations with their stored text and the tables,
    \<^verbatim>\<open>toWorkflowTransitions\<close> and the look-ups. A packet only moves forward; a validation is not released
    unreviewed; what the engine registers is what the table says.
  \<^item> \<open>Graph_Search\<close>, \<open>Assayer_Lifecycle\<close>: breadth-first search with its correctness, completeness and
    shortest-path lemmas, and the life cycle of an assayer: bulk moves, why one is blocked, the gates.
  \<^item> \<open>Role_Hierarchy\<close>: \<^verbatim>\<open>role-hierarchy.ts\<close>; the interface \<open>role_walk\<close> serves both closures.
  \<^item> \<open>Audit_Trail\<close>, \<open>Audit_Chain\<close>: \<^verbatim>\<open>core/audit\<close>. Making and appending an entry, field diffs, the
    canonical text, sealing and verification, with SHA-256 as an argument. What the chain shows and what
    it cannot show.
  \<^item> \<open>Workflow_Engine\<close>: \<^verbatim>\<open>workflow.engine.ts\<close>, with the registrations of the four services. A command
    is all or nothing; the interface \<open>registered_table\<close> is interpreted on each of the four tables.
  \<^item> \<open>Assignment_Machine\<close>, \<open>Project_Machine\<close>, \<open>Validation_Machine\<close>, \<open>Assayer_Machine\<close>: the four state
    machine classes, each operation with its guards, writes and note; they are interpretations of the
    interfaces of the prelude.
  \<^item> \<open>Document_Pipeline\<close>: \<^verbatim>\<open>DocumentService.updateStatus\<close>, through which every packet moves.
  \<^item> \<open>Money_Rules\<close>, \<open>Assignment_Money\<close>: rounding, financial year, invoice number, withholding; the fee of
    an assignment as shown and as booked. Numbers are rationals: the last-bit error of doubles is not
    represented, the rounding that removes it is.
  \<^item> \<open>Business_Calendar\<close>, \<open>Check_In_Rules\<close>, \<open>Assignment_Capabilities\<close>: the Indian business day, the zone
    around a branch and the clock of an arrival, the evaluators and the list of capabilities.
  \<^item> \<open>Client_Invoices\<close>, \<open>Invoice_Ledger\<close>, \<open>Invoice_Lines\<close>: making, approving, sending and cancelling an
    invoice, recording and reversing what the client pays, as one ledger
    (\<^verbatim>\<open>billing-engine.service.ts\<close>). The interface \<open>invoice_law\<close> says what an operation owes to the
    ledger; every operation is an interpretation, and what holds of a run follows from it.
  \<^item> \<open>Payout_Rows\<close>, \<open>Payout_Operations\<close>, \<open>Assayer_Bills\<close>, \<open>Payout_Booking\<close>: what is owed to assayers
    (\<^verbatim>\<open>billing-engine.service.ts\<close>, \<^verbatim>\<open>assayer-invoice.service.ts\<close>). The tables of payables, payments and
    bills; booking a visit and changing its price, both approvals, holding, voiding, paying and
    reversing; a bill's invitation, confirmation, approval, cancellation and revision. A call is one
    transaction: a refusal leaves the tables as they were, whatever it wrote before.
  \<^item> \<open>Payout_Steps\<close>, \<open>Payout_Calls\<close>, \<open>Payout_Ledger\<close>: the kinds of change a call makes to the tables, every
    call as a run of them, and the interface \<open>payout_law\<close> that carries what each change keeps over a history
    of calls. It is interpreted twice, on the accounts of a payable and on the signatures it carries.
  \<^item> \<open>Confirmed_Bills\<close>, \<open>Bill_Revision\<close>, \<open>Payout_Edges\<close>: other work changes neither the record of a
    bill its assayer confirmed nor what its lines come to (money paid on a line is not part of what was
    confirmed), a bill whose tax moved asks the assayer again, and four edge cases on concrete histories.
  \<^item> \<open>Expense_Claims\<close>, \<open>Claim_Ledger\<close>: reimbursement claims (\<^verbatim>\<open>modules/expense\<close>) on top of the payables. A call
    reads first without a lock, from any earlier state of its history, and decides again inside its
    transaction; the ledger shows what holds after any calls: a claim is reimbursed once, within the rules
    or over a senior's reason, and a retried submission is the claim it retries.
  \<^item> \<open>State_Regions\<close>, \<open>Region_Scope\<close>: \<^verbatim>\<open>regions.ts\<close>, which recognises a state and its region in free text,
    and \<^verbatim>\<open>infrastructure/scope\<close>, which keeps an account to its regions and its client: the scope of a
    request, the conditions of a list, the check of a record, the rooms and the routing of live updates.
    A look-up in a plain object is written out with the properties every object inherits.
  \<^item> \<open>Identity_Numbers\<close>, \<open>Gst_Words\<close>, \<open>Text_Distance\<close>: \<^verbatim>\<open>identity-validation.ts\<close>, \<^verbatim>\<open>gst.ts\<close> and
    \<^verbatim>\<open>text-distance.ts\<close>. What the checksums catch (the interface \<open>check_walk\<close> serves both), amounts in
    words that read back, the bounded edit distance against its reference.
  \<^item> \<open>Circuit_Breaker\<close>, \<open>Event_Outbox\<close>: the breaker around a remote service, and the outbox with its
    fast path, its relay and its dead letters, with crashes between any two steps. No event is forgotten;
    the fast path, unlike the relay, also calls an event dispatched that no subscriber took.
  \<^item> \<open>Branch_Clusters\<close>, \<open>Day_Plan_Assignment\<close>, \<open>Day_Plan_Candidates\<close>: \<^verbatim>\<open>day-planner.service.ts\<close>.
    Grouping branches into assayer-days, the plan of an assayer for a group, and the assignment of
    assayers to groups: an exact search with a greedy fall-back.

  \<^bold>\<open>Conventions.\<close> A class instance or row is a record with the columns the modelled code reads or
  writes; an operation returns the changed record or, as the left summand, the refusal the source
  throws. A refused command leaves the record as it was (\<open>run_commands\<close>). Calls to the database, to the
  clock and to other services appear as arguments that say what they return or that they fail.
  Sentences for people are represented by the case they belong to. No fuel is used: every loop is
  structural or has a measure. The node budget of the day planner (200000) is the code's own; within it
  the search is exact, and beyond it the result is shown to be at least half of the best.

  \<^bold>\<open>Not modelled.\<close> Persistence and queries, screens and the phone application, mail, push messages and
  storage, authentication, migrations, the recommendation engine, geocoding and routing, and the services around the
  machines beyond what is listed above. Of the region guard, the checks that differ from a modelled one only in the
  query that reads the region are left out.
\<close>

end
